(* ===== verification/Spec_Prelude.thy ===== *)
theory Spec_Prelude
  imports Complex_Main "HOL-Library.Sublist"
begin

text \<open>
  Shared vocabulary of the development: results of fallible Python functions, clock readings,
  text as Unicode code points, and database tables as lists of rows with the three SQL forms the
  sources use (a conditional update with its row count, a conditional delete, a primary-key
  lookup). The lemmas here carry the bookkeeping of every component: inversion rules for results,
  and what an update keeps of keys, counts and lookups.
\<close>

named_theorems result_elims \<open>inversion of fallible computations\<close>
named_theorems table_simps \<open>how table operations act on keys, counts and lookups\<close>

subsection \<open>Results\<close>

type_synonym ('e, 'a) result = "'e + 'a"

text \<open>Sequencing of fallible calls: an exception of the first call propagates.\<close>

definition rbind :: "'e + 'a \<Rightarrow> ('a \<Rightarrow> 'e + 'b) \<Rightarrow> 'e + 'b" where
  "rbind r f = (case r of Inl e \<Rightarrow> Inl e | Inr a \<Rightarrow> f a)"

lemma rbind_simps [simp]:
  "rbind (Inl e) f = Inl e"
  "rbind (Inr a) f = f a"
  by (simp_all add: rbind_def)

lemma rbind_Inr_iff [simp]: "rbind r f = Inr b \<longleftrightarrow> (\<exists>a. r = Inr a \<and> f a = Inr b)"
  by (cases r) auto

lemma rbind_Inl_iff: "rbind r f = Inl e \<longleftrightarrow> r = Inl e \<or> (\<exists>a. r = Inr a \<and> f a = Inl e)"
  by (cases r) auto

lemma rbind_cong [fundef_cong]:
  "r = r' \<Longrightarrow> (\<And>a. r' = Inr a \<Longrightarrow> f a = g a) \<Longrightarrow> rbind r f = rbind r' g"
  by (cases r') auto

lemma rbind_assoc: "rbind (rbind r f) g = rbind r (\<lambda>a. rbind (f a) g)"
  by (cases r) auto

text \<open>A guard that raises: \<open>if not b: raise e\<close>.\<close>

definition ensure :: "bool \<Rightarrow> 'e \<Rightarrow> 'e + unit" where
  "ensure b e = (if b then Inr () else Inl e)"

lemma ensure_simps [simp]:
  "ensure True e = Inr ()"
  "ensure False e = Inl e"
  "ensure b e = Inr u \<longleftrightarrow> b"
  by (auto simp: ensure_def)

lemma ensure_Inl_iff [simp]: "ensure b e = Inl e' \<longleftrightarrow> \<not> b \<and> e' = e"
  by (auto simp: ensure_def)

lemma if_Inl_Inr_iff [simp]:
  "(if b then Inl e else r) = Inr a \<longleftrightarrow> \<not> b \<and> r = Inr a"
  "(if b then r else Inl e) = Inr a \<longleftrightarrow> b \<and> r = Inr a"
  by auto

subsection \<open>Time and text\<close>

text \<open>
  An aware Python \<open>datetime\<close> is an instant, counted in microseconds; a naive one has no
  instant. Stored timestamps passed a validator that rejects naive values and are plain
  instants; an argument of a public operation is a clock reading.
\<close>

type_synonym instant = int

datatype clock = Naive | Aware instant

definition seconds :: "int \<Rightarrow> int" where
  "seconds n = n * 1000000"

definition days :: "int \<Rightarrow> int" where
  "days n = n * 86400000000"

lemma seconds_mono [simp]: "seconds m \<le> seconds n \<longleftrightarrow> m \<le> n" "seconds m < seconds n \<longleftrightarrow> m < n"
  by (auto simp: seconds_def)

lemma seconds_pos [simp]: "0 < seconds n \<longleftrightarrow> 0 < n"
  by (auto simp: seconds_def)

lemma days_pos [simp]: "0 < days n \<longleftrightarrow> 0 < n"
  by (auto simp: days_def)

text \<open>
  Natural-language text is a list of Unicode code points, so that \<open>len\<close> counts what Python
  counts and literals outside ASCII can be written. Identifiers, whose patterns admit ASCII only,
  are HOL strings.
\<close>

type_synonym utext = "int list"

definition contains_any :: "utext list \<Rightarrow> utext \<Rightarrow> bool" where
  "contains_any alternatives s \<longleftrightarrow> list_ex (\<lambda>a. sublist a s) alternatives"

text \<open>Length bounds \<open>Field(min_length=lo, max_length=hi)\<close>.\<close>

definition len :: "'a list \<Rightarrow> int" where
  "len xs = int (length xs)"

definition length_between :: "int \<Rightarrow> int \<Rightarrow> 'a list \<Rightarrow> bool" where
  "length_between lo hi xs \<longleftrightarrow> lo \<le> len xs \<and> len xs \<le> hi"

lemma len_simps [simp]:
  "len [] = 0" "len (x # xs) = len xs + 1" "len (xs @ ys) = len xs + len ys"
  "len (map f xs) = len xs" "len (replicate n x) = int n" "0 \<le> len xs"
  by (simp_all add: len_def)

lemma len_code [code]: "len [] = 0" "len (x # xs) = len xs + 1"
  by simp_all

text \<open>\<open>tuple(dict.fromkeys(xs))\<close>: the distinct elements in order of first occurrence.\<close>

fun dict_fromkeys :: "'a list \<Rightarrow> 'a list" where
  "dict_fromkeys [] = []"
| "dict_fromkeys (x # xs) = x # dict_fromkeys (removeAll x xs)"

text \<open>\<open>str(n)\<close> of an integer.\<close>

fun nat_digits :: "nat \<Rightarrow> string" where
  "nat_digits n = (if n < 10 then [char_of (48 + n)] else nat_digits (n div 10) @ [char_of (48 + n mod 10)])"

declare nat_digits.simps [simp del]

definition decimal :: "int \<Rightarrow> string" where
  "decimal i = (if i < 0 then CHR ''-'' # nat_digits (nat (- i)) else nat_digits (nat i))"

text \<open>\<open>d[k] = v\<close> on the values of a dict keyed by \<open>key\<close>: replace in place or append.\<close>

fun dict_put :: "('r \<Rightarrow> 'k) \<Rightarrow> 'r \<Rightarrow> 'r list \<Rightarrow> 'r list" where
  "dict_put key v [] = [v]"
| "dict_put key v (x # xs) = (if key x = key v then v # xs else x # dict_put key v xs)"

lemma set_dict_put: "set (dict_put key v xs) \<subseteq> insert v (set xs)"
  by (induction xs) auto

lemma keys_dict_put:
  "map key (dict_put key v xs) = (if key v \<in> key ` set xs then map key xs else map key xs @ [key v])"
  by (induction xs) auto

subsection \<open>Field checks\<close>

definition opt_ok :: "('a \<Rightarrow> bool) \<Rightarrow> 'a option \<Rightarrow> bool" where
  "opt_ok P x \<longleftrightarrow> (case x of None \<Rightarrow> True | Some a \<Rightarrow> P a)"

lemma opt_ok_simps [simp]: "opt_ok P None" "opt_ok P (Some a) \<longleftrightarrow> P a"
  by (simp_all add: opt_ok_def)

text \<open>The code points for which \<open>str.isspace\<close> holds; \<open>not s.strip()\<close> is "all of them".\<close>

definition py_space :: "int \<Rightarrow> bool" where
  "py_space n \<longleftrightarrow> 9 \<le> n \<and> n \<le> 13 \<or> 28 \<le> n \<and> n \<le> 32 \<or> n = 133 \<or> n = 160 \<or> n = 5760
     \<or> 8192 \<le> n \<and> n \<le> 8202 \<or> n = 8232 \<or> n = 8233 \<or> n = 8239 \<or> n = 8287 \<or> n = 12288"

text \<open>The same for a character of an identifier or name, and \<open>s.strip() == s\<close>.\<close>

definition char_space :: "char \<Rightarrow> bool" where
  "char_space c \<longleftrightarrow> py_space (of_char c)"

definition stripped :: "string \<Rightarrow> bool" where
  "stripped s \<longleftrightarrow> s = [] \<or> (\<not> char_space (hd s) \<and> \<not> char_space (last s))"

text \<open>ASCII classes of patterns, by code point.\<close>

definition char_between :: "int \<Rightarrow> int \<Rightarrow> char \<Rightarrow> bool" where
  "char_between lo hi c \<longleftrightarrow> lo \<le> of_char c \<and> of_char c \<le> hi"

definition hex_char :: "char \<Rightarrow> bool" where
  "hex_char c \<longleftrightarrow> char_between 97 102 c \<or> char_between 48 57 c"

definition hex64_ok :: "string \<Rightarrow> bool" where
  "hex64_ok s \<longleftrightarrow> len s = 64 \<and> list_all hex_char s"

text \<open>The UUID pattern: groups of 8, 4, 4, 4 and 12 hexadecimal digits joined by dashes.\<close>

fun hex_groups :: "int list \<Rightarrow> int \<Rightarrow> string \<Rightarrow> bool" where
  "hex_groups gs n [] = (gs = [] \<and> n = 0)"
| "hex_groups gs n (c # s) =
     (if 0 < n then hex_char c \<and> hex_groups gs (n - 1) s
      else case gs of [] \<Rightarrow> False | g # gs' \<Rightarrow> c = CHR ''-'' \<and> hex_groups gs' g s)"

definition uuid_ok :: "string \<Rightarrow> bool" where
  "uuid_ok s \<longleftrightarrow> hex_groups [4, 4, 4, 12] 8 s"

subsection \<open>Option results of lookups\<close>

text \<open>\<open>next((x for x in xs if p x), None)\<close> is the library's \<open>find\<close>.\<close>

lemma find_SomeD: "find P xs = Some x \<Longrightarrow> x \<in> set xs \<and> P x"
  by (induction xs) (auto split: if_splits)

lemma find_NoneD: "find P xs = None \<Longrightarrow> x \<in> set xs \<Longrightarrow> \<not> P x"
  by (auto simp: find_None_iff)

lemma find_map_if:
  assumes "\<And>x. P x \<Longrightarrow> Q (f x)" and "\<And>x. Q (f x) \<Longrightarrow> P x"
  shows "find Q (map f xs) = map_option f (find P xs)"
  using assms by (induction xs) auto

subsection \<open>Tables\<close>

text \<open>
  A table is the list of its rows. \<open>key\<close> is its primary key; \<open>keys_unique\<close> is the constraint
  the database enforces.
\<close>

definition keys_unique :: "('r \<Rightarrow> 'k) \<Rightarrow> 'r list \<Rightarrow> bool" where
  "keys_unique key t \<longleftrightarrow> distinct (map key t)"

definition lookup_row :: "('r \<Rightarrow> 'k) \<Rightarrow> 'k \<Rightarrow> 'r list \<Rightarrow> 'r option" where
  "lookup_row key k t = find (\<lambda>r. key r = k) t"

text \<open>\<open>UPDATE t SET f WHERE P\<close> and its row count.\<close>

definition update_where :: "('r \<Rightarrow> bool) \<Rightarrow> ('r \<Rightarrow> 'r) \<Rightarrow> 'r list \<Rightarrow> 'r list" where
  "update_where P f t = map (\<lambda>r. if P r then f r else r) t"

definition count_where :: "('r \<Rightarrow> bool) \<Rightarrow> 'r list \<Rightarrow> nat" where
  "count_where P t = length (filter P t)"

text \<open>\<open>DELETE FROM t WHERE P\<close>.\<close>

definition delete_where :: "('r \<Rightarrow> bool) \<Rightarrow> 'r list \<Rightarrow> 'r list" where
  "delete_where P t = filter (\<lambda>r. \<not> P r) t"

lemma lookup_row_SomeD: "lookup_row key k t = Some r \<Longrightarrow> r \<in> set t \<and> key r = k"
  by (auto simp: lookup_row_def dest: find_SomeD)

lemma lookup_row_NoneD: "lookup_row key k t = None \<Longrightarrow> r \<in> set t \<Longrightarrow> key r \<noteq> k"
  by (auto simp: lookup_row_def find_None_iff)

lemma lookup_row_None_iff: "lookup_row key k t = None \<longleftrightarrow> k \<notin> key ` set t"
  by (auto simp: lookup_row_def find_None_iff)

lemma lookup_row_unique:
  "keys_unique key t \<Longrightarrow> r \<in> set t \<Longrightarrow> lookup_row key (key r) t = Some r"
  by (induction t) (auto simp: keys_unique_def lookup_row_def)

lemma lookup_row_eqI:
  "keys_unique key t \<Longrightarrow> r \<in> set t \<Longrightarrow> key r = k \<Longrightarrow> lookup_row key k t = Some r"
  by (auto simp: lookup_row_unique)

lemma keys_unique_same:
  "keys_unique key t \<Longrightarrow> r \<in> set t \<Longrightarrow> r' \<in> set t \<Longrightarrow> key r = key r' \<Longrightarrow> r = r'"
  by (auto simp: keys_unique_def distinct_map dest: inj_onD)

lemma keys_unique_Cons_mem: "keys_unique key (r # t) \<Longrightarrow> r' \<in> set t \<Longrightarrow> key r' \<noteq> key r"
  by (auto simp: keys_unique_def) (metis image_eqI)

lemma keys_update_where [table_simps]:
  "(\<And>r. P r \<Longrightarrow> key (f r) = key r) \<Longrightarrow> map key (update_where P f t) = map key t"
  by (induction t) (auto simp: update_where_def)

lemma keys_unique_update_where [table_simps]:
  "(\<And>r. P r \<Longrightarrow> key (f r) = key r) \<Longrightarrow>
     keys_unique key (update_where P f t) = keys_unique key t"
  by (simp add: keys_unique_def keys_update_where)

lemma keys_unique_Cons [table_simps]:
  "keys_unique key (r # t) \<longleftrightarrow> lookup_row key (key r) t = None \<and> keys_unique key t"
  by (auto simp: keys_unique_def lookup_row_None_iff)

lemma keys_unique_append1 [table_simps]:
  "keys_unique key (t @ [r]) \<longleftrightarrow> lookup_row key (key r) t = None \<and> keys_unique key t"
  by (auto simp: keys_unique_def lookup_row_None_iff)

lemma keys_unique_filter: "keys_unique key t \<Longrightarrow> keys_unique key (filter P t)"
  by (simp add: keys_unique_def distinct_map_filter)

lemma keys_unique_delete_where [table_simps]:
  "keys_unique key t \<Longrightarrow> keys_unique key (delete_where P t)"
  by (simp add: delete_where_def keys_unique_filter)

lemma set_update_where:
  "set (update_where P f t) = {r \<in> set t. \<not> P r} \<union> f ` {r \<in> set t. P r}"
  by (auto simp: update_where_def)

lemma mem_update_whereE:
  assumes "r \<in> set (update_where P f t)"
  obtains "r \<in> set t" "\<not> P r" | r0 where "r0 \<in> set t" "P r0" "r = f r0"
  using assms by (auto simp: set_update_where)

lemma mem_update_where_keep: "r \<in> set t \<Longrightarrow> \<not> P r \<Longrightarrow> r \<in> set (update_where P f t)"
  by (auto simp: set_update_where)

lemma mem_update_where_upd: "r \<in> set t \<Longrightarrow> P r \<Longrightarrow> f r \<in> set (update_where P f t)"
  by (auto simp: set_update_where)

lemma mem_delete_where [simp]: "r \<in> set (delete_where P t) \<longleftrightarrow> r \<in> set t \<and> \<not> P r"
  by (auto simp: delete_where_def)

lemma count_where_Cons [simp]:
  "count_where P (r # t) = (if P r then Suc (count_where P t) else count_where P t)"
  by (simp add: count_where_def)

lemma count_where_Nil [simp]: "count_where P [] = 0"
  by (simp add: count_where_def)

lemma count_where_append [simp]: "count_where P (s @ t) = count_where P s + count_where P t"
  by (simp add: count_where_def)

lemma count_where_pos_iff: "0 < count_where P t \<longleftrightarrow> (\<exists>r \<in> set t. P r)"
  by (induction t) auto

lemma count_where_zero_iff: "count_where P t = 0 \<longleftrightarrow> (\<forall>r \<in> set t. \<not> P r)"
  by (induction t) auto

lemma lookup_append1 [table_simps]:
  "lookup_row key k (t @ [r]) =
     (case lookup_row key k t of None \<Rightarrow> if key r = k then Some r else None | Some x \<Rightarrow> Some x)"
  by (induction t) (auto simp: lookup_row_def)

lemma lookup_update_where [table_simps]:
  "(\<And>r. P r \<Longrightarrow> key (f r) = key r) \<Longrightarrow>
     lookup_row key k (update_where P f t) = map_option (\<lambda>r. if P r then f r else r) (lookup_row key k t)"
  by (induction t) (auto simp: lookup_row_def update_where_def)

lemma lookup_update_key:
  assumes "\<And>r. key (f r) = key r"
  shows "lookup_row key k (update_where (\<lambda>r. key r = k0 \<and> P r) f t) =
     (if k = k0 then map_option (\<lambda>r. if P r then f r else r) (lookup_row key k t) else lookup_row key k t)"
  using assms by (induction t) (auto simp: lookup_row_def update_where_def)

lemma lookup_update_key1:
  assumes "\<And>r. key (f r) = key r"
  shows "lookup_row key k (update_where (\<lambda>r. key r = k0) f t) =
     (if k = k0 then map_option f (lookup_row key k t) else lookup_row key k t)"
  using lookup_update_key [of key f k k0 "\<lambda>_. True" t] assms by simp

text \<open>A lookup by primary key with a further condition.\<close>

lemma find_key_and:
  assumes "keys_unique key t"
  shows "find (\<lambda>r. key r = k \<and> P r) t =
     (case lookup_row key k t of None \<Rightarrow> None | Some r \<Rightarrow> if P r then Some r else None)"
  using assms
proof (induction t)
  case (Cons r t)
  show ?case
  proof (cases "key r = k")
    case True
    with Cons.prems have "\<forall>r' \<in> set t. key r' \<noteq> k" by (auto dest: keys_unique_Cons_mem)
    then have "find (\<lambda>r. key r = k \<and> P r) t = None" by (auto simp: find_None_iff)
    with True show ?thesis by (simp add: lookup_row_def)
  next
    case False
    with Cons show ?thesis by (simp add: lookup_row_def keys_unique_def)
  qed
qed (simp add: lookup_row_def)

text \<open>A conditional update by primary key touches at most one row.\<close>

lemma count_where_key_le:
  assumes "keys_unique key t"
  shows "count_where (\<lambda>r. key r = k \<and> P r) t \<le> 1"
  using assms
proof (induction t)
  case (Cons r t)
  show ?case
  proof (cases "key r = k")
    case True
    with Cons.prems have "\<forall>r' \<in> set t. key r' \<noteq> k"
      by (auto dest: keys_unique_Cons_mem)
    then have "count_where (\<lambda>r. key r = k \<and> P r) t = 0"
      by (simp add: count_where_zero_iff)
    then show ?thesis by simp
  next
    case False
    with Cons show ?thesis by (simp add: keys_unique_def)
  qed
qed simp

lemma count_where_key_eq1:
  assumes "keys_unique key t" and "r \<in> set t" and "key r = k" and "P r"
  shows "count_where (\<lambda>r. key r = k \<and> P r) t = 1"
  using count_where_key_le [OF assms(1), of k P] assms(2-4)
    count_where_pos_iff [of "\<lambda>r. key r = k \<and> P r" t] by fastforce

lemma count_where_eq1E:
  assumes "count_where P t = 1"
  obtains r where "r \<in> set t" "P r"
  using assms count_where_pos_iff [of P t] by auto

text \<open>How a count changes when one row, found by its key, is rewritten.\<close>

lemma count_update_key:
  assumes "keys_unique key t" and "r \<in> set t"
  shows "count_where Q (update_where (\<lambda>x. key x = key r) (\<lambda>_. r') t) + of_bool (Q r)
       = count_where Q t + of_bool (Q r')"
  using assms
proof (induction t)
  case (Cons x t)
  show ?case
  proof (cases "key x = key r")
    case True
    with Cons.prems have "x = r" by (auto dest: keys_unique_Cons_mem)
    moreover from Cons.prems True have "\<forall>y \<in> set t. key y \<noteq> key r"
      by (auto dest: keys_unique_Cons_mem)
    then have "update_where (\<lambda>x. key x = key r) (\<lambda>_. r') t = t"
      by (auto simp: update_where_def intro: map_idI)
    ultimately show ?thesis
      using True by (simp add: update_where_def)
  next
    case False
    then have "r \<in> set t" using Cons.prems by auto
    with False Cons show ?thesis by (auto simp: update_where_def keys_unique_def)
  qed
qed simp

text \<open>Replacing the row that has the key of \<open>r'\<close>, and what that does to the table as a set.\<close>

definition put_row :: "('r \<Rightarrow> 'k) \<Rightarrow> 'r \<Rightarrow> 'r list \<Rightarrow> 'r list" where
  "put_row key r' t = update_where (\<lambda>x. key x = key r') (\<lambda>_. r') t"

lemma update_where_is_put_row:
  assumes "keys_unique key t" and "r \<in> set t" and "P r" and "\<And>x. P x \<Longrightarrow> key x = key r" and "key (f r) = key r"
  shows "update_where P f t = put_row key (f r) t"
proof -
  have "P x \<longleftrightarrow> x = r" if "x \<in> set t" for x
    using assms(1-4) that keys_unique_same by metis
  moreover have "key x = key r \<longleftrightarrow> x = r" if "x \<in> set t" for x
    using assms(1,2) that keys_unique_same by metis
  ultimately show ?thesis using assms(5) by (auto simp: put_row_def update_where_def)
qed

lemma map_put_row:
  assumes "keys_unique key t" and "r \<in> set t" and "key r' = key r" and "k r' = k r"
  shows "map k (put_row key r' t) = map k t"
proof -
  have "k x = k r" if "x \<in> set t" "key x = key r" for x
    using assms(1,2) that keys_unique_same by metis
  with assms(3,4) show ?thesis by (auto simp: put_row_def update_where_def)
qed

lemma keys_unique_put_row:
  assumes "keys_unique key t" and "r \<in> set t" and "key r' = key r" and "k r' = k r"
  shows "keys_unique k (put_row key r' t) = keys_unique k t"
  using map_put_row [OF assms] by (simp add: keys_unique_def)

lemma set_put_row:
  assumes "keys_unique key t" and "r \<in> set t" and "key r' = key r"
  shows "set (put_row key r' t) = insert r' (set t - {r})"
proof -
  have "key x = key r \<longleftrightarrow> x = r" if "x \<in> set t" for x
    using assms(1,2) that keys_unique_same by metis
  with assms(2,3) show ?thesis by (auto simp: put_row_def set_update_where)
qed

lemma count_put_row:
  assumes "keys_unique key t" and "r \<in> set t" and "key r' = key r"
  shows "count_where Q (put_row key r' t) + of_bool (Q r) = count_where Q t + of_bool (Q r')"
  using count_update_key [OF assms(1,2), of Q r'] assms(3) by (simp add: put_row_def)

lemma count_put_row_le:
  assumes "keys_unique key t" and "r \<in> set t" and "key r' = key r" and "Q r' \<Longrightarrow> Q r"
  shows "count_where Q (put_row key r' t) \<le> count_where Q t"
  using count_put_row [OF assms(1-3), of Q] assms(4) by (cases "Q r"; cases "Q r'") auto

lemma lookup_put_row:
  assumes "keys_unique key t" and "r \<in> set t" and "key r' = key r"
  shows "lookup_row key k (put_row key r' t) = (if k = key r then Some r' else lookup_row key k t)"
proof -
  have "lookup_row key (key r) t = Some r" using assms(1,2) by (rule lookup_row_unique)
  moreover have "lookup_row key k (put_row key r' t)
      = map_option (\<lambda>x. if key x = key r' then r' else x) (lookup_row key k t)"
    unfolding put_row_def by (rule lookup_update_where) simp
  ultimately show ?thesis
    using assms(3) by (cases "lookup_row key k t") (auto dest: lookup_row_SomeD)
qed

end
