(* ===== verification/Workflow_Task.thy ===== *)
theory Workflow_Task
  imports Spec_Prelude
begin

text \<open>
  The task contracts of \<open>contracts/workflow_task.py\<close>, \<open>contracts/workflow_task_update.py\<close> and
  the persistence errors of \<open>contracts/persistence.py\<close>: goals with acceptance criteria, typed
  questions and answers, verifier assessments, budget usage and the task snapshot that a
  repository stores. Each pydantic model is a record; its field constraints and validators are
  one predicate \<open>\<dots>_ok\<close>, which is what constructing or re-validating the model checks.
\<close>

subsection \<open>Errors\<close>

datatype task_error =
    Persistence_conflict string string int "int option"
  | Persistence_not_found string string
  | Persistence_invariant string
  | Persistence_idempotency_conflict string
  | Validation_error
  | Value_error string
  | Key_error string
  | Integrity_error

subsection \<open>Bounded text\<close>

definition ascii_alnum :: "char \<Rightarrow> bool" where
  "ascii_alnum c \<longleftrightarrow> char_between 65 90 c \<or> char_between 97 122 c \<or> char_between 48 57 c"

definition identifier_ok :: "string \<Rightarrow> bool" where
  "identifier_ok s \<longleftrightarrow> length_between 1 128 s
     \<and> list_all (\<lambda>c. ascii_alnum c \<or> c \<in> set ''_.:/-'') s"

definition proof_reference_ok :: "string \<Rightarrow> bool" where
  "proof_reference_ok s \<longleftrightarrow> length_between 1 1024 s
     \<and> list_all (\<lambda>c. ascii_alnum c \<or> c \<in> set ''_./:#?=&%~+-'') s"

definition aware_time :: "clock \<Rightarrow> task_error + instant" where
  "aware_time c = (case c of Naive \<Rightarrow> Inl (Value_error ''workflow timestamps must include a UTC offset'')
                           | Aware t \<Rightarrow> Inr t)"

subsection \<open>Goals\<close>

datatype verifier = Source_support | Verified_tool | Answer_coverage | Grounded_analysis

datatype task_phase = Active | Waiting_for_input | Paused | Complete | Failed | Cancelled

datatype question_stage = Goal_stage | Intent_stage | Plan_stage | Evidence_stage | Tool_stage
  | Answer_stage | Response_stage

record owner =
  actor_subject :: string
  owner_agent_id :: string
  owner_agent_version :: string

definition owner_ok :: "owner \<Rightarrow> bool" where
  "owner_ok w \<longleftrightarrow> length_between 1 255 (actor_subject w)
     \<and> identifier_ok (owner_agent_id w) \<and> identifier_ok (owner_agent_version w)"

record criterion =
  crit_id :: string
  crit_description :: utext
  crit_required :: bool
  crit_verifier :: verifier
  crit_query :: "utext option"
  crit_expected_text :: "utext option"
  crit_tool_step_id :: "string option"

definition criterion_ok :: "criterion \<Rightarrow> bool" where
  "criterion_ok c \<longleftrightarrow> identifier_ok (crit_id c) \<and> length_between 1 2048 (crit_description c)
     \<and> opt_ok (length_between 1 2048) (crit_query c)
     \<and> opt_ok (length_between 1 2048) (crit_expected_text c)
     \<and> opt_ok identifier_ok (crit_tool_step_id c)
     \<and> \<not> (crit_query c \<noteq> None \<and> crit_verifier c \<noteq> Source_support)
     \<and> \<not> (crit_expected_text c \<noteq> None \<and> crit_verifier c \<noteq> Answer_coverage)
     \<and> \<not> (crit_tool_step_id c \<noteq> None \<and> crit_verifier c \<noteq> Verified_tool)"

record goal =
  goal_task_id :: string
  goal_revision :: int
  goal_objective :: utext
  goal_source_input_ref :: string
  goal_criteria :: "criterion list"
  goal_constraints :: "utext list"
  goal_required_context :: "string list"

definition goal_ok :: "goal \<Rightarrow> bool" where
  "goal_ok g \<longleftrightarrow> identifier_ok (goal_task_id g) \<and> 1 \<le> goal_revision g
     \<and> length_between 1 8192 (goal_objective g) \<and> identifier_ok (goal_source_input_ref g)
     \<and> length_between 1 32 (goal_criteria g) \<and> list_all criterion_ok (goal_criteria g)
     \<and> len (goal_constraints g) \<le> 32 \<and> list_all (length_between 1 2048) (goal_constraints g)
     \<and> len (goal_required_context g) \<le> 32 \<and> list_all identifier_ok (goal_required_context g)
     \<and> distinct (map crit_id (goal_criteria g))
     \<and> list_ex crit_required (goal_criteria g)
     \<and> distinct (goal_required_context g)"

subsection \<open>Questions and answers\<close>

datatype value_type = String_type | Integer_type | Number_type | Boolean_type

text \<open>Scalars of an answer; a float is finite (its exact value) or one of the special values.\<close>

datatype pyfloat = Finite rat | Pos_inf | Neg_inf | NaN

datatype scalar = StrV utext | IntV int | FloatV pyfloat | BoolV bool

record qfield =
  fld_name :: string
  fld_label :: utext
  fld_value_type :: value_type
  fld_required :: bool
  fld_choices :: "utext list"
  fld_max_length :: int

definition qfield_ok :: "qfield \<Rightarrow> bool" where
  "qfield_ok f \<longleftrightarrow> identifier_ok (fld_name f) \<and> length_between 1 1024 (fld_label f)
     \<and> len (fld_choices f) \<le> 20 \<and> list_all (length_between 1 512) (fld_choices f)
     \<and> 1 \<le> fld_max_length f \<and> fld_max_length f \<le> 8192
     \<and> \<not> (fld_choices f \<noteq> [] \<and> fld_value_type f \<noteq> String_type)
     \<and> distinct (fld_choices f)"

record question =
  q_id :: string
  q_task_id :: string
  q_goal_revision :: int
  q_stage :: question_stage
  q_fields :: "qfield list"
  q_blocking :: bool
  q_affected :: "string list"
  q_expires_at :: instant
  q_dedupe_key :: string
  q_checkpoint_ref :: string

definition question_ok :: "question \<Rightarrow> bool" where
  "question_ok q \<longleftrightarrow> identifier_ok (q_id q) \<and> identifier_ok (q_task_id q) \<and> 1 \<le> q_goal_revision q
     \<and> length_between 1 8 (q_fields q) \<and> list_all qfield_ok (q_fields q)
     \<and> len (q_affected q) \<le> 32 \<and> list_all identifier_ok (q_affected q)
     \<and> identifier_ok (q_dedupe_key q) \<and> proof_reference_ok (q_checkpoint_ref q)
     \<and> distinct (map fld_name (q_fields q))"

record typed_answer =
  ans_question_id :: string
  ans_expected_revision :: int
  ans_values :: "(string \<times> scalar) list"
  ans_key :: string

text \<open>
  \<open>math.isfinite\<close> converts an \<open>int\<close> to a binary64 value and raises \<open>OverflowError\<close> from the
  midpoint between the largest finite value and \<open>2 ^ 1024\<close> on.
\<close>

definition int_float_overflows :: "int \<Rightarrow> bool" where
  "int_float_overflows i \<longleftrightarrow> 2 ^ 1024 - 2 ^ 970 \<le> \<bar>i\<bar>"

fun scalar_ok :: "scalar \<Rightarrow> bool" where
  "scalar_ok (StrV s) = (\<not> list_all py_space s \<and> len s \<le> 8192)"
| "scalar_ok (IntV i) = (\<not> int_float_overflows i)"
| "scalar_ok (FloatV f) = (case f of Finite _ \<Rightarrow> True | _ \<Rightarrow> False)"
| "scalar_ok (BoolV _) = True"

definition answer_ok :: "typed_answer \<Rightarrow> bool" where
  "answer_ok a \<longleftrightarrow> identifier_ok (ans_question_id a) \<and> 1 \<le> ans_expected_revision a
     \<and> distinct (map fst (ans_values a))
     \<and> length_between 1 8 (ans_values a)
     \<and> list_all (\<lambda>(name, v). length_between 1 128 name \<and> scalar_ok v) (ans_values a)
     \<and> identifier_ok (ans_key a)"

subsection \<open>Assessments, question states, budget usage\<close>

datatype assessment_status = Unassessed | Satisfied | Assess_failed

record assessment =
  as_criterion_id :: string
  as_goal_revision :: int
  as_status :: assessment_status
  as_verifier :: verifier
  as_proof_refs :: "string list"

definition assessment_ok :: "assessment \<Rightarrow> bool" where
  "assessment_ok a \<longleftrightarrow> identifier_ok (as_criterion_id a) \<and> 1 \<le> as_goal_revision a
     \<and> len (as_proof_refs a) \<le> 32 \<and> list_all proof_reference_ok (as_proof_refs a)
     \<and> \<not> (as_status a = Satisfied \<and> as_proof_refs a = [])"

datatype question_status = Pending | Answered | Expired | Superseded

record qstate =
  qs_request :: question
  qs_asked_at :: "instant option"
  qs_status :: question_status
  qs_answer :: "typed_answer option"
  qs_fingerprint :: "string option"
  qs_answered_at :: "instant option"
  qs_resume_intent_id :: "string option"

definition qstate_ok :: "qstate \<Rightarrow> bool" where
  "qstate_ok s \<longleftrightarrow> question_ok (qs_request s) \<and> opt_ok answer_ok (qs_answer s)
     \<and> opt_ok hex64_ok (qs_fingerprint s) \<and> opt_ok identifier_ok (qs_resume_intent_id s)
     \<and> \<not> (qs_status s = Answered
            \<and> (qs_answer s = None \<or> qs_fingerprint s = None \<or> qs_answered_at s = None))
     \<and> \<not> (qs_status s \<noteq> Answered
            \<and> (qs_answer s \<noteq> None \<or> qs_fingerprint s \<noteq> None \<or> qs_answered_at s \<noteq> None))"

text \<open>\<open>QuestionState(request=q, asked_at=t, status=st)\<close> with every other field at its default.\<close>

definition bare_qstate :: "question \<Rightarrow> instant option \<Rightarrow> question_status \<Rightarrow> qstate" where
  "bare_qstate q t st = \<lparr>qs_request = q, qs_asked_at = t, qs_status = st, qs_answer = None,
     qs_fingerprint = None, qs_answered_at = None, qs_resume_intent_id = None\<rparr>"

record usage =
  bu_model_calls :: int
  bu_retrieval_calls :: int
  bu_tool_calls :: int
  bu_tokens :: "int option"
  bu_unknown_model_calls :: int
  bu_active_seconds :: rat

definition usage_ok :: "usage \<Rightarrow> bool" where
  "usage_ok u \<longleftrightarrow> 0 \<le> bu_model_calls u \<and> 0 \<le> bu_retrieval_calls u \<and> 0 \<le> bu_tool_calls u
     \<and> opt_ok (\<lambda>n. 0 \<le> n) (bu_tokens u) \<and> 0 \<le> bu_unknown_model_calls u
     \<and> 0 \<le> bu_active_seconds u"

definition zero_usage :: usage where
  "zero_usage = \<lparr>bu_model_calls = 0, bu_retrieval_calls = 0, bu_tool_calls = 0,
     bu_tokens = Some 0, bu_unknown_model_calls = 0, bu_active_seconds = 0\<rparr>"

subsection \<open>Task snapshots\<close>

record snapshot =
  snap_goal :: goal
  snap_owner :: owner
  snap_creation_sha :: "string option"
  snap_conversation_id :: "string option"
  snap_allow_web :: bool
  snap_version :: int
  snap_phase :: task_phase
  snap_questions :: "qstate list"
  snap_assessments :: "assessment list"
  snap_latest_run_id :: "string option"
  snap_latest_run_revision :: "int option"
  snap_usage :: usage
  snap_created_at :: instant
  snap_updated_at :: instant
  snap_expires_at :: instant

definition coherent_snapshot :: "snapshot \<Rightarrow> bool" where
  "coherent_snapshot s \<longleftrightarrow>
     \<not> (snap_updated_at s < snap_created_at s \<or> snap_expires_at s \<le> snap_created_at s)
     \<and> distinct (map (q_id \<circ> qs_request) (snap_questions s))
     \<and> distinct (map as_criterion_id (snap_assessments s))"

definition snapshot_ok :: "snapshot \<Rightarrow> bool" where
  "snapshot_ok s \<longleftrightarrow> goal_ok (snap_goal s) \<and> owner_ok (snap_owner s)
     \<and> opt_ok hex64_ok (snap_creation_sha s) \<and> opt_ok identifier_ok (snap_conversation_id s)
     \<and> 1 \<le> snap_version s
     \<and> len (snap_questions s) \<le> 64 \<and> list_all qstate_ok (snap_questions s)
     \<and> len (snap_assessments s) \<le> 32 \<and> list_all assessment_ok (snap_assessments s)
     \<and> opt_ok identifier_ok (snap_latest_run_id s)
     \<and> opt_ok (\<lambda>r. 1 \<le> r) (snap_latest_run_revision s)
     \<and> usage_ok (snap_usage s)
     \<and> coherent_snapshot s"

datatype intent_kind = Question_answer | Continue

record intent =
  int_kind :: intent_kind
  int_id :: string
  int_task_id :: string
  int_owner :: owner
  int_goal_revision :: int
  int_snapshot_version :: int
  int_question_id :: "string option"
  int_checkpoint_ref :: string
  int_created_at :: instant

definition intent_ok :: "intent \<Rightarrow> bool" where
  "intent_ok i \<longleftrightarrow> identifier_ok (int_id i) \<and> identifier_ok (int_task_id i) \<and> owner_ok (int_owner i)
     \<and> 1 \<le> int_goal_revision i \<and> 1 \<le> int_snapshot_version i
     \<and> opt_ok identifier_ok (int_question_id i) \<and> proof_reference_ok (int_checkpoint_ref i)
     \<and> (int_kind i = Question_answer \<longleftrightarrow> int_question_id i \<noteq> None)"

record submission =
  sub_snapshot :: snapshot
  sub_intent :: "intent option"
  sub_replayed :: bool

subsection \<open>Updates reported by a run\<close>

record question_draft =
  draft_stage :: question_stage
  draft_fields :: "qfield list"
  draft_affected :: "string list"
  draft_wait_seconds :: int

record task_update =
  upd_task_id :: string
  upd_expected_version :: int
  upd_goal_revision :: int
  upd_assessments :: "assessment list"
  upd_verified_refs :: "string list"
  upd_question :: "question_draft option"
  upd_usage_delta :: usage
  upd_phase :: task_phase

subsection \<open>Digests\<close>

text \<open>
  Pydantic serialises the models; what the code uses of it is the JSON text of a model (for a
  digest, and its length in bytes as a storage bound). These serialisations and SHA-256 are
  parameters, gathered in one record.
\<close>

record codec =
  json_of_snapshot :: "snapshot \<Rightarrow> string"
  json_of_answer :: "string \<Rightarrow> int \<Rightarrow> (string \<times> scalar) list \<Rightarrow> string"
  json_of_fields :: "qfield list \<Rightarrow> string"
  dumped_size :: "snapshot \<Rightarrow> int"
  sha256_hex :: "string \<Rightarrow> string"

definition snapshot_digest :: "codec \<Rightarrow> snapshot \<Rightarrow> string" where
  "snapshot_digest C s = sha256_hex C (json_of_snapshot C s)"

definition answer_fingerprint :: "codec \<Rightarrow> typed_answer \<Rightarrow> string" where
  "answer_fingerprint C a =
     sha256_hex C (json_of_answer C (ans_question_id a) (ans_expected_revision a) (ans_values a))"

text \<open>What \<open>hashlib\<close> documents of \<open>hexdigest\<close>: 64 lower-case hexadecimal digits.\<close>

definition hexdigest_format :: "codec \<Rightarrow> bool" where
  "hexdigest_format C \<longleftrightarrow> (\<forall>s. hex64_ok (sha256_hex C s))"

lemma answer_fingerprint_hex [simp]: "hexdigest_format C \<Longrightarrow> hex64_ok (answer_fingerprint C a)"
  by (simp add: hexdigest_format_def answer_fingerprint_def)

subsection \<open>Facts about coherent states\<close>

lemma bare_qstate_simps [simp]:
  "qs_request (bare_qstate q t st) = q" "qs_asked_at (bare_qstate q t st) = t"
  "qs_status (bare_qstate q t st) = st" "qs_answer (bare_qstate q t st) = None"
  "qs_fingerprint (bare_qstate q t st) = None" "qs_answered_at (bare_qstate q t st) = None"
  "qs_resume_intent_id (bare_qstate q t st) = None"
  by (simp_all add: bare_qstate_def)

lemma bare_qstate_ok [simp]:
  "st \<noteq> Answered \<Longrightarrow> qstate_ok (bare_qstate q t st) \<longleftrightarrow> question_ok q"
  by (simp add: qstate_ok_def)

lemma qstate_ok_answered:
  "qstate_ok s \<Longrightarrow> qs_status s = Answered \<longleftrightarrow> qs_answer s \<noteq> None"
  "qstate_ok s \<Longrightarrow> qs_status s = Answered \<longleftrightarrow> qs_fingerprint s \<noteq> None"
  by (auto simp: qstate_ok_def)

lemma snapshot_ok_questions: "snapshot_ok s \<Longrightarrow> q \<in> set (snap_questions s) \<Longrightarrow> qstate_ok q"
  by (auto simp: snapshot_ok_def list_all_iff)

lemma snapshot_ok_question_ids:
  "snapshot_ok s \<Longrightarrow> keys_unique (q_id \<circ> qs_request) (snap_questions s)"
  by (simp add: snapshot_ok_def coherent_snapshot_def keys_unique_def)

lemma snapshot_ok_usage: "snapshot_ok s \<Longrightarrow> usage_ok (snap_usage s)"
  by (simp add: snapshot_ok_def)

end
