(* ===== verification/Task_Questions.thy ===== *)
theory Task_Questions
  imports Workflow_Task
begin

text \<open>
  The pure reducers of \<open>control/workflow/task_service.py\<close>: \<open>_changed\<close>, \<open>_blocked\<close>,
  \<open>reduce_question\<close> and \<open>reduce_answer\<close>. They compute the next snapshot of a task from the
  current one; the repository is not involved. The lemmas invert each reducer into what its
  result looks like, and say what it keeps: a reduced snapshot is coherent, and an active task
  has no unanswered blocking question of its current goal.
\<close>

fun terminal_phase :: "task_phase \<Rightarrow> bool" where
  "terminal_phase Complete = True"
| "terminal_phase Failed = True"
| "terminal_phase Cancelled = True"
| "terminal_phase _ = False"

text \<open>\<open>_changed\<close>: the updates, then version and time, re-validated as a whole.\<close>

definition changed :: "snapshot \<Rightarrow> instant \<Rightarrow> (snapshot \<Rightarrow> snapshot) \<Rightarrow> task_error + snapshot" where
  "changed s now updates =
     (let s' = (updates s)\<lparr>snap_version := snap_version s + 1, snap_updated_at := now\<rparr>
      in if snapshot_ok s' then Inr s' else Inl Validation_error)"

definition blocks :: "int \<Rightarrow> qstate \<Rightarrow> bool" where
  "blocks revision i \<longleftrightarrow> q_blocking (qs_request i) \<and> q_goal_revision (qs_request i) = revision
     \<and> (qs_status i = Pending \<or> qs_status i = Expired)"

definition blocked :: "qstate list \<Rightarrow> int \<Rightarrow> bool" where
  "blocked questions revision \<longleftrightarrow> list_ex (blocks revision) questions"

subsection \<open>Asking\<close>

text \<open>The fields compared when a dedupe key is met again.\<close>

definition same_question :: "question \<Rightarrow> question \<Rightarrow> bool" where
  "same_question p q \<longleftrightarrow> q_task_id p = q_task_id q \<and> q_goal_revision p = q_goal_revision q
     \<and> q_fields p = q_fields q \<and> q_blocking p = q_blocking q \<and> q_affected p = q_affected q
     \<and> q_dedupe_key p = q_dedupe_key q"

text \<open>The loop over existing questions: \<open>Inr True\<close> where it returns the snapshot unchanged.\<close>

fun dedupe_question :: "question \<Rightarrow> qstate list \<Rightarrow> task_error + bool" where
  "dedupe_question q [] = Inr False"
| "dedupe_question q (e # es) =
     (if q_goal_revision (qs_request e) = q_goal_revision q
         \<and> q_dedupe_key (qs_request e) = q_dedupe_key q
      then if \<not> same_question (qs_request e) q
           then Inl (Persistence_idempotency_conflict
                  ''question dedupe key was reused for different fields'')
           else Inr True
      else if q_id (qs_request e) = q_id q
      then Inl (Persistence_idempotency_conflict ''question id was already used'')
      else dedupe_question q es)"

definition reduce_question :: "snapshot \<Rightarrow> question \<Rightarrow> instant \<Rightarrow> task_error + snapshot" where
  "reduce_question s q now =
     (if terminal_phase (snap_phase s) \<or> snap_phase s = Paused
      then Inl (Persistence_invariant ''task cannot ask in its current phase'')
      else if q_task_id q \<noteq> goal_task_id (snap_goal s)
              \<or> q_goal_revision q \<noteq> goal_revision (snap_goal s)
      then Inl (Persistence_invariant ''question must bind the current goal'')
      else if q_expires_at q \<le> now \<or> q_expires_at q > snap_expires_at s
      then Inl (Persistence_invariant ''question expiry must be inside the task retention window'')
      else if \<not> set (q_affected q) \<subseteq> set (map crit_id (goal_criteria (snap_goal s)))
      then Inl (Persistence_invariant ''question contains unknown acceptance criteria'')
      else if \<not> q_blocking q
              \<and> list_ex (\<lambda>f. fld_name f \<in> set (goal_required_context (snap_goal s))) (q_fields q)
      then Inl (Persistence_invariant ''required context cannot become a nonblocking question'')
      else rbind (dedupe_question q (snap_questions s)) (\<lambda>duplicate.
        if duplicate then Inr s
        else changed s now (\<lambda>s. s\<lparr>snap_questions := snap_questions s @ [bare_qstate q (Some now) Pending],
               snap_phase := (if q_blocking q then Waiting_for_input else snap_phase s)\<rparr>)))"

subsection \<open>Answering\<close>

fun value_type_ok :: "value_type \<Rightarrow> scalar \<Rightarrow> bool" where
  "value_type_ok String_type (StrV _) = True"
| "value_type_ok Integer_type (IntV _) = True"
| "value_type_ok Number_type (IntV _) = True"
| "value_type_ok Number_type (FloatV _) = True"
| "value_type_ok Boolean_type (BoolV _) = True"
| "value_type_ok _ _ = False"

definition value_bounds_ok :: "qfield \<Rightarrow> scalar \<Rightarrow> bool" where
  "value_bounds_ok f v = (case v of
       StrV s \<Rightarrow> \<not> (len s > fld_max_length f \<or> fld_choices f \<noteq> [] \<and> s \<notin> set (fld_choices f))
     | _ \<Rightarrow> True)"

fun check_values :: "qfield list \<Rightarrow> (string \<times> scalar) list \<Rightarrow> task_error + unit" where
  "check_values fs [] = Inr ()"
| "check_values fs ((name, v) # vs) =
     (case find (\<lambda>f. fld_name f = name) fs of
        None \<Rightarrow> Inl (Key_error name)
      | Some f \<Rightarrow>
          if \<not> value_type_ok (fld_value_type f) v
          then Inl (Persistence_invariant ''answer value does not match its declared type'')
          else if \<not> value_bounds_ok f v
          then Inl (Persistence_invariant ''answer value violates its declared bounds'')
          else check_values fs vs)"

definition replace_question :: "string \<Rightarrow> qstate \<Rightarrow> qstate list \<Rightarrow> qstate list" where
  "replace_question qid new qs = map (\<lambda>q. if q_id (qs_request q) = qid then new else q) qs"

definition replayed_submission :: "snapshot \<Rightarrow> submission" where
  "replayed_submission s = \<lparr>sub_snapshot = s, sub_intent = None, sub_replayed = True\<rparr>"

text \<open>The state of a question that has just been answered (before a resume intent is attached).\<close>

definition answered_qstate :: "codec \<Rightarrow> qstate \<Rightarrow> typed_answer \<Rightarrow> instant \<Rightarrow> qstate" where
  "answered_qstate C item a now = \<lparr>qs_request = qs_request item, qs_asked_at = qs_asked_at item,
     qs_status = Answered, qs_answer = Some a, qs_fingerprint = Some (answer_fingerprint C a),
     qs_answered_at = Some now, qs_resume_intent_id = None\<rparr>"

definition answer_intent :: "snapshot \<Rightarrow> qstate \<Rightarrow> typed_answer \<Rightarrow> instant \<Rightarrow> string \<Rightarrow> intent" where
  "answer_intent s item a now intent_id = \<lparr>int_kind = Question_answer, int_id = intent_id,
     int_task_id = goal_task_id (snap_goal s), int_owner = snap_owner s,
     int_goal_revision = goal_revision (snap_goal s),
     int_snapshot_version = snap_version s + 1, int_question_id = Some (ans_question_id a),
     int_checkpoint_ref = q_checkpoint_ref (qs_request item), int_created_at = now\<rparr>"

definition commit_answer ::
  "codec \<Rightarrow> snapshot \<Rightarrow> qstate \<Rightarrow> typed_answer \<Rightarrow> instant \<Rightarrow> string \<Rightarrow> task_error + submission" where
  "commit_answer C s item a now intent_id =
     (let answered = answered_qstate C item a now;
          questions = replace_question (ans_question_id a) answered (snap_questions s);
          should_resume = (snap_phase s = Waiting_for_input
                           \<and> \<not> blocked questions (goal_revision (snap_goal s)))
      in if \<not> qstate_ok answered then Inl Validation_error
         else if should_resume \<and> \<not> intent_ok (answer_intent s item a now intent_id)
         then Inl Validation_error
         else rbind (changed s now (\<lambda>s. s\<lparr>
                snap_questions :=
                  (if should_resume
                   then replace_question (ans_question_id a)
                          (answered\<lparr>qs_resume_intent_id := Some intent_id\<rparr>) questions
                   else questions),
                snap_phase := (if should_resume then Active else snap_phase s)\<rparr>))
              (\<lambda>updated. Inr \<lparr>sub_snapshot = updated,
                 sub_intent = (if should_resume then Some (answer_intent s item a now intent_id)
                               else None),
                 sub_replayed = False\<rparr>))"

definition reduce_answer ::
  "codec \<Rightarrow> snapshot \<Rightarrow> typed_answer \<Rightarrow> instant \<Rightarrow> string \<Rightarrow> task_error + submission" where
  "reduce_answer C s a now intent_id =
     (if ans_expected_revision a \<noteq> goal_revision (snap_goal s)
      then Inl (Persistence_conflict ''workflow_goal'' (goal_task_id (snap_goal s))
             (ans_expected_revision a) (Some (goal_revision (snap_goal s))))
      else
        (case find (\<lambda>p. map_option ans_key (qs_answer p) = Some (ans_key a)) (snap_questions s) of
           Some previous \<Rightarrow>
             if qs_fingerprint previous \<noteq> Some (answer_fingerprint C a)
             then Inl (Persistence_idempotency_conflict ''answer idempotency key was reused'')
             else Inr (replayed_submission s)
         | None \<Rightarrow>
        (case find (\<lambda>q. q_id (qs_request q) = ans_question_id a) (snap_questions s) of
           None \<Rightarrow> Inl (Persistence_not_found ''workflow_question'' (ans_question_id a))
         | Some item \<Rightarrow>
             if qs_status item = Answered
             then if qs_fingerprint item \<noteq> Some (answer_fingerprint C a)
                  then Inl (Persistence_idempotency_conflict
                         ''question already has a different answer'')
                  else Inr (replayed_submission s)
             else if terminal_phase (snap_phase s) \<or> snap_phase s = Paused
             then Inl (Persistence_invariant ''task cannot accept answers in its current phase'')
             else if qs_status item \<noteq> Pending \<or> q_expires_at (qs_request item) \<le> now
             then Inl (Persistence_invariant ''question is expired or superseded'')
             else if \<not> set (map fst (ans_values a)) \<subseteq> set (map fld_name (q_fields (qs_request item)))
                     \<or> list_ex (\<lambda>f. fld_required f \<and> fld_name f \<notin> set (map fst (ans_values a)))
                         (q_fields (qs_request item))
             then Inl (Persistence_invariant ''answer fields do not match the question schema'')
             else rbind (check_values (q_fields (qs_request item)) (ans_values a)) (\<lambda>_.
                    commit_answer C s item a now intent_id))))"

subsection \<open>Inversion\<close>

lemma changed_Inr_iff [simp]:
  "changed s now f = Inr s' \<longleftrightarrow>
     s' = (f s)\<lparr>snap_version := snap_version s + 1, snap_updated_at := now\<rparr> \<and> snapshot_ok s'"
  by (auto simp: changed_def Let_def)

lemma changed_error: "changed s now f = Inl e \<Longrightarrow> e = Validation_error"
  by (auto simp: changed_def Let_def split: if_splits)

lemma dedupe_question_False:
  "dedupe_question q es = Inr False \<Longrightarrow> e \<in> set es \<Longrightarrow> q_id (qs_request e) \<noteq> q_id q"
  by (induction q es rule: dedupe_question.induct) (auto split: if_splits)

lemma dedupe_question_TrueE:
  assumes "dedupe_question q es = Inr True"
  obtains e where "e \<in> set es" "same_question (qs_request e) q"
  using assms by (induction q es rule: dedupe_question.induct) (auto split: if_splits)

text \<open>The snapshot a newly asked question leads to.\<close>

definition asked_snapshot :: "snapshot \<Rightarrow> question \<Rightarrow> instant \<Rightarrow> snapshot" where
  "asked_snapshot s q now =
     s\<lparr>snap_questions := snap_questions s @ [bare_qstate q (Some now) Pending],
       snap_phase := (if q_blocking q then Waiting_for_input else snap_phase s),
       snap_version := snap_version s + 1, snap_updated_at := now\<rparr>"

lemma reduce_questionE [consumes 1, case_names duplicate asked]:
  assumes "reduce_question s q now = Inr s'"
  obtains "s' = s" "dedupe_question q (snap_questions s) = Inr True"
      "snap_phase s = Active \<or> snap_phase s = Waiting_for_input"
  | "s' = asked_snapshot s q now" "snapshot_ok s'"
      "snap_phase s = Active \<or> snap_phase s = Waiting_for_input"
      "q_goal_revision q = goal_revision (snap_goal s)"
      "now < q_expires_at q" "q_expires_at q \<le> snap_expires_at s"
      "dedupe_question q (snap_questions s) = Inr False"
proof -
  from assms obtain dup where op: "\<not> terminal_phase (snap_phase s)" "snap_phase s \<noteq> Paused"
    and rev: "q_goal_revision q = goal_revision (snap_goal s)"
    and exp: "now < q_expires_at q" "q_expires_at q \<le> snap_expires_at s"
    and dup: "dedupe_question q (snap_questions s) = Inr dup"
    and res: "(if dup then Inr s else changed s now (\<lambda>s. s\<lparr>snap_questions := snap_questions s
        @ [bare_qstate q (Some now) Pending],
        snap_phase := (if q_blocking q then Waiting_for_input else snap_phase s)\<rparr>)) = Inr s'"
    unfolding reduce_question_def if_Inl_Inr_iff rbind_Inr_iff de_Morgan_disj not_not not_le not_less
    by iprover
  have phase: "snap_phase s = Active \<or> snap_phase s = Waiting_for_input"
    using op by (cases "snap_phase s") simp_all
  show thesis
  proof (cases dup)
    case True
    with dup res phase show ?thesis by (intro that(1)) simp_all
  next
    case False
    then have s': "s' = asked_snapshot s q now" "snapshot_ok s'"
      using res by (auto simp only: if_False changed_Inr_iff asked_snapshot_def)
    show ?thesis using False dup rev exp phase by (intro that(2) s') simp_all
  qed
qed

lemma same_question_refl [simp]: "same_question q q"
  by (simp add: same_question_def)

lemma blocked_simps [simp]:
  "blocked [] r = False"
  "blocked (q # qs) r = (blocks r q \<or> blocked qs r)"
  "blocked (qs @ qs') r = (blocked qs r \<or> blocked qs' r)"
  by (simp_all add: blocked_def)

lemma blocks_bare [simp]:
  "blocks r (bare_qstate q t st) \<longleftrightarrow>
     q_blocking q \<and> q_goal_revision q = r \<and> (st = Pending \<or> st = Expired)"
  by (auto simp: blocks_def)

lemma blocks_answered [simp]: "\<not> blocks r (answered_qstate C i a now)"
  by (simp add: blocks_def answered_qstate_def)

lemma answered_qstate_simps [simp]:
  "qs_request (answered_qstate C i a now) = qs_request i"
  "qs_asked_at (answered_qstate C i a now) = qs_asked_at i"
  "qs_status (answered_qstate C i a now) = Answered"
  "qs_answer (answered_qstate C i a now) = Some a"
  "qs_fingerprint (answered_qstate C i a now) = Some (answer_fingerprint C a)"
  "qs_answered_at (answered_qstate C i a now) = Some now"
  "qs_resume_intent_id (answered_qstate C i a now) = None"
  by (simp_all add: answered_qstate_def)

lemma blocked_replace:
  "blocked (replace_question qid new qs) r \<longleftrightarrow>
     (\<exists>q \<in> set qs. q_id (qs_request q) = qid \<and> blocks r new
                  \<or> q_id (qs_request q) \<noteq> qid \<and> blocks r q)"
  by (induction qs) (auto simp: replace_question_def)

text \<open>Answering never blocks a task that was not blocked.\<close>

lemma blocked_replace_answered:
  "\<not> blocks r new \<Longrightarrow> blocked (replace_question qid new qs) r \<Longrightarrow> blocked qs r"
  unfolding blocked_replace by (auto simp: blocked_def list_ex_iff)

lemma replace_question_twice:
  "q_id (qs_request new) = qid \<Longrightarrow>
     replace_question qid new' (replace_question qid new qs) = replace_question qid new' qs"
  by (simp add: replace_question_def comp_def)

lemma set_replace_question:
  "set (replace_question qid new qs) =
     {q \<in> set qs. q_id (qs_request q) \<noteq> qid}
     \<union> (if \<exists>q \<in> set qs. q_id (qs_request q) = qid then {new} else {})"
  by (auto simp: replace_question_def)

text \<open>
  What a fresh (not replayed) answer leads to: the question is now answered by exactly this
  answer; the task resumes, with an intent that names the new version, precisely when it was
  waiting and nothing blocks it any more.
\<close>

definition resumes :: "codec \<Rightarrow> snapshot \<Rightarrow> qstate \<Rightarrow> typed_answer \<Rightarrow> instant \<Rightarrow> bool" where
  "resumes C s item a now \<longleftrightarrow> snap_phase s = Waiting_for_input
     \<and> \<not> blocked (replace_question (ans_question_id a) (answered_qstate C item a now)
                   (snap_questions s)) (goal_revision (snap_goal s))"

definition answered_snapshot ::
  "codec \<Rightarrow> snapshot \<Rightarrow> qstate \<Rightarrow> typed_answer \<Rightarrow> instant \<Rightarrow> string \<Rightarrow> snapshot" where
  "answered_snapshot C s item a now intent_id =
     (let r = resumes C s item a now in
      s\<lparr>snap_questions := replace_question (ans_question_id a)
           ((answered_qstate C item a now)\<lparr>qs_resume_intent_id :=
               (if r then Some intent_id else None)\<rparr>) (snap_questions s),
        snap_phase := (if r then Active else snap_phase s),
        snap_version := snap_version s + 1, snap_updated_at := now\<rparr>)"

lemma qstate_same_resume [simp]:
  "qs_resume_intent_id i = None \<Longrightarrow> i\<lparr>qs_resume_intent_id := None\<rparr> = i"
  by (cases i) simp

lemma commit_answerE:
  assumes "commit_answer C s item a now iid = Inr r" and "q_id (qs_request item) = ans_question_id a"
  shows "sub_snapshot r = answered_snapshot C s item a now iid" (is ?snap)
    and "sub_intent r = (if resumes C s item a now then Some (answer_intent s item a now iid) else None)"
    and "\<not> sub_replayed r" and "snapshot_ok (sub_snapshot r)"
    and "resumes C s item a now \<Longrightarrow> intent_ok (answer_intent s item a now iid)"
proof -
  let ?q = "replace_question (ans_question_id a) (answered_qstate C item a now) (snap_questions s)"
  have *: "replace_question (ans_question_id a) new ?q = replace_question (ans_question_id a) new (snap_questions s)"
    for new using assms(2) by (simp add: replace_question_twice)
  have "(snap_phase s = Waiting_for_input \<and> \<not> blocked ?q (goal_revision (snap_goal s)))
          = resumes C s item a now" by (simp add: resumes_def)
  note r = assms(1)[unfolded commit_answer_def Let_def this *]
  show ?snap
    and "sub_intent r = (if resumes C s item a now then Some (answer_intent s item a now iid) else None)"
    and "\<not> sub_replayed r" and "snapshot_ok (sub_snapshot r)"
    and "resumes C s item a now \<Longrightarrow> intent_ok (answer_intent s item a now iid)"
    using r by (auto simp: answered_snapshot_def Let_def split: if_splits)
qed

text \<open>The item a fresh answer is given to: pending, unexpired, in an open phase.\<close>

definition answers_item :: "codec \<Rightarrow> snapshot \<Rightarrow> typed_answer \<Rightarrow> instant \<Rightarrow> qstate \<Rightarrow> bool" where
  "answers_item C s a now item \<longleftrightarrow>
     find (\<lambda>q. q_id (qs_request q) = ans_question_id a) (snap_questions s) = Some item
     \<and> qs_status item = Pending \<and> now < q_expires_at (qs_request item)
     \<and> (snap_phase s = Active \<or> snap_phase s = Waiting_for_input)
     \<and> (\<forall>p \<in> set (snap_questions s). map_option ans_key (qs_answer p) \<noteq> Some (ans_key a))
     \<and> check_values (q_fields (qs_request item)) (ans_values a) = Inr ()"

lemma answers_itemD:
  assumes "answers_item C s a now item"
  shows "item \<in> set (snap_questions s)" and "q_id (qs_request item) = ans_question_id a"
    and "qs_status item = Pending"
  using assms by (auto simp: answers_item_def dest: find_SomeD)

lemma reduce_answerE [consumes 1, case_names replayed fresh]:
  assumes "reduce_answer C s a now iid = Inr r"
  obtains "r = replayed_submission s" "ans_expected_revision a = goal_revision (snap_goal s)"
  | item where "answers_item C s a now item" "commit_answer C s item a now iid = Inr r"
      "ans_expected_revision a = goal_revision (snap_goal s)"
proof -
  have phase: "\<not> terminal_phase p \<Longrightarrow> p \<noteq> Paused \<Longrightarrow> p = Active \<or> p = Waiting_for_input" for p
    by (cases p) auto
  show thesis
    using assms that(1) that(2)
    by (auto simp: reduce_answer_def answers_item_def find_None_iff not_le
             split: option.splits if_splits dest: phase)
qed

end
