(* ===== verification/Task_Repository.thy ===== *)
theory Task_Repository
  imports Task_Questions
begin

text \<open>
  The task repository port of \<open>contracts/ports/workflow_tasks.py\<close>: the shared check
  \<open>validate_swap\<close> that every adapter runs inside its transaction, the operations the task service
  calls as a record of functions over a store, and the contract of an adapter as a locale. The
  locale's view of a store is a map from task ids to snapshots and a map from intent ids to resume
  intents; a compare-and-swap replaces one snapshot after \<open>validate_swap\<close> accepted it. What any
  client can rely on is proved here once, for every adapter.
\<close>

subsection \<open>The swap check\<close>

text \<open>Required criteria are verified for the goal's current revision.\<close>

definition satisfied_ids :: "int \<Rightarrow> assessment list \<Rightarrow> string list" where
  "satisfied_ids revision as =
     map as_criterion_id (filter (\<lambda>a. as_status a = Satisfied \<and> as_goal_revision a = revision) as)"

definition required_ids :: "goal \<Rightarrow> string list" where
  "required_ids g = map crit_id (filter crit_required (goal_criteria g))"

definition required_satisfied :: "goal \<Rightarrow> assessment list \<Rightarrow> bool" where
  "required_satisfied g as \<longleftrightarrow> set (required_ids g) \<subseteq> set (satisfied_ids (goal_revision g) as)"

text \<open>No cumulative counter decreases; unknown token usage stays unknown.\<close>

definition counters_le :: "usage \<Rightarrow> usage \<Rightarrow> bool" where
  "counters_le u v \<longleftrightarrow> bu_model_calls u \<le> bu_model_calls v
     \<and> bu_retrieval_calls u \<le> bu_retrieval_calls v \<and> bu_tool_calls u \<le> bu_tool_calls v
     \<and> bu_unknown_model_calls u \<le> bu_unknown_model_calls v
     \<and> bu_active_seconds u \<le> bu_active_seconds v"

definition tokens_le :: "int option \<Rightarrow> int option \<Rightarrow> bool" where
  "tokens_le previous tokens \<longleftrightarrow>
     \<not> (previous = None \<and> tokens \<noteq> None
        \<or> (case (previous, tokens) of (Some p, Some t) \<Rightarrow> t < p | _ \<Rightarrow> False))"

text \<open>A resume intent describes the snapshot it is committed with.\<close>

definition intent_matches :: "snapshot \<Rightarrow> owner \<Rightarrow> intent \<Rightarrow> bool" where
  "intent_matches s w i \<longleftrightarrow> int_task_id i = goal_task_id (snap_goal s) \<and> int_owner i = w
     \<and> int_goal_revision i = goal_revision (snap_goal s)
     \<and> int_snapshot_version i = snap_version s \<and> snap_phase s = Active
     \<and> (int_kind i = Question_answer \<longrightarrow>
          list_ex (\<lambda>q. Some (q_id (qs_request q)) = int_question_id i
                     \<and> qs_resume_intent_id q = Some (int_id i) \<and> qs_status q = Answered)
            (snap_questions s))"

definition immutable_fields_kept :: "snapshot \<Rightarrow> snapshot \<Rightarrow> bool" where
  "immutable_fields_kept cur upd \<longleftrightarrow>
     goal_task_id (snap_goal cur) = goal_task_id (snap_goal upd)
     \<and> snap_created_at upd = snap_created_at cur \<and> snap_expires_at upd = snap_expires_at cur
     \<and> snap_creation_sha upd = snap_creation_sha cur
     \<and> snap_conversation_id upd = snap_conversation_id cur
     \<and> snap_allow_web upd = snap_allow_web cur"

definition validate_swap ::
  "codec \<Rightarrow> snapshot \<Rightarrow> snapshot \<Rightarrow> owner \<Rightarrow> int \<Rightarrow> intent option \<Rightarrow> task_error + unit" where
  "validate_swap C cur upd w expected resume =
     (if snap_owner cur \<noteq> w \<or> snap_owner upd \<noteq> w
      then Inl (Persistence_not_found ''workflow_task'' (goal_task_id (snap_goal cur)))
      else if snap_version cur \<noteq> expected
      then Inl (Persistence_conflict ''workflow_task'' (goal_task_id (snap_goal cur))
             expected (Some (snap_version cur)))
      else if snap_version upd \<noteq> expected + 1 \<or> \<not> immutable_fields_kept cur upd
              \<or> snap_updated_at upd < snap_updated_at cur
              \<or> goal_revision (snap_goal upd)
                  \<notin> {goal_revision (snap_goal cur), goal_revision (snap_goal cur) + 1}
      then Inl (Persistence_invariant ''workflow task swap violates immutable identity or revision'')
      else if goal_revision (snap_goal upd) = goal_revision (snap_goal cur)
              \<and> snap_goal upd \<noteq> snap_goal cur
      then Inl (Persistence_invariant ''goal edits require a new goal revision'')
      else if terminal_phase (snap_phase cur)
      then Inl (Persistence_invariant ''terminal workflow task cannot be changed'')
      else if snap_phase upd = Complete
              \<and> \<not> required_satisfied (snap_goal upd) (snap_assessments upd)
      then Inl (Persistence_invariant ''required criteria have not been verified'')
      else if \<not> counters_le (snap_usage cur) (snap_usage upd)
      then Inl (Persistence_invariant ''cumulative workflow budget cannot decrease'')
      else if \<not> tokens_le (bu_tokens (snap_usage cur)) (bu_tokens (snap_usage upd))
      then Inl (Persistence_invariant ''unknown or accumulated token usage cannot be reset'')
      else if 524288 < dumped_size C upd
      then Inl (Persistence_invariant ''workflow snapshot exceeds bounded storage size'')
      else case resume of
             None \<Rightarrow> Inr ()
           | Some i \<Rightarrow>
               if \<not> intent_matches upd w i
               then Inl (Persistence_invariant ''resume intent must describe the exact committed answer'')
               else Inr ())"

text \<open>The same check as one condition: what an accepted swap guarantees.\<close>

definition swap_allowed :: "codec \<Rightarrow> snapshot \<Rightarrow> snapshot \<Rightarrow> owner \<Rightarrow> intent option \<Rightarrow> bool" where
  "swap_allowed C cur upd w resume \<longleftrightarrow>
     snap_owner cur = w \<and> snap_owner upd = w \<and> snap_version upd = snap_version cur + 1
     \<and> immutable_fields_kept cur upd \<and> snap_updated_at cur \<le> snap_updated_at upd
     \<and> (snap_goal upd = snap_goal cur \<or> goal_revision (snap_goal upd) = goal_revision (snap_goal cur) + 1)
     \<and> \<not> terminal_phase (snap_phase cur)
     \<and> (snap_phase upd = Complete \<longrightarrow> required_satisfied (snap_goal upd) (snap_assessments upd))
     \<and> counters_le (snap_usage cur) (snap_usage upd)
     \<and> tokens_le (bu_tokens (snap_usage cur)) (bu_tokens (snap_usage upd))
     \<and> dumped_size C upd \<le> 524288
     \<and> (\<forall>i. resume = Some i \<longrightarrow> intent_matches upd w i)"

lemma validate_swap_Inr_iff:
  "validate_swap C cur upd w expected resume = Inr () \<longleftrightarrow>
     snap_version cur = expected \<and> swap_allowed C cur upd w resume"
  by (auto simp: validate_swap_def swap_allowed_def not_less split: option.splits)

lemma validate_swap_conflict:
  "snap_owner cur = w \<Longrightarrow> snap_owner upd = w \<Longrightarrow> snap_version cur \<noteq> expected \<Longrightarrow>
     validate_swap C cur upd w expected resume =
       Inl (Persistence_conflict ''workflow_task'' (goal_task_id (snap_goal cur))
             expected (Some (snap_version cur)))"
  by (simp add: validate_swap_def)

lemma counters_le_refl [simp]: "counters_le u u"
  by (simp add: counters_le_def)

lemma counters_le_trans: "counters_le u v \<Longrightarrow> counters_le v x \<Longrightarrow> counters_le u x"
  by (auto simp: counters_le_def)

lemma tokens_le_iff: "tokens_le p t \<longleftrightarrow> t = None \<or> (\<exists>a b. p = Some a \<and> t = Some b \<and> a \<le> b)"
  by (cases p; cases t) (auto simp: tokens_le_def)

lemma tokens_le_refl [simp]: "tokens_le t t"
  by (cases t) (auto simp: tokens_le_def)

lemma tokens_le_trans: "tokens_le p t \<Longrightarrow> tokens_le t x \<Longrightarrow> tokens_le p x"
  by (auto simp: tokens_le_iff)

lemma immutable_fields_kept_refl [simp]: "immutable_fields_kept s s"
  by (simp add: immutable_fields_kept_def)

lemma immutable_fields_kept_trans:
  "immutable_fields_kept a b \<Longrightarrow> immutable_fields_kept b c \<Longrightarrow> immutable_fields_kept a c"
  by (simp add: immutable_fields_kept_def)

subsection \<open>What a chain of swaps keeps\<close>

text \<open>
  \<open>evolves cur upd\<close>: everything a task's later snapshot owes its earlier one. It is reflexive and
  transitive and contains every accepted swap, so it relates any two snapshots of one history.
\<close>

definition evolves :: "snapshot \<Rightarrow> snapshot \<Rightarrow> bool" where
  "evolves cur upd \<longleftrightarrow> snap_owner upd = snap_owner cur \<and> immutable_fields_kept cur upd
     \<and> snap_version cur \<le> snap_version upd \<and> snap_updated_at cur \<le> snap_updated_at upd
     \<and> goal_revision (snap_goal cur) \<le> goal_revision (snap_goal upd)
     \<and> (goal_revision (snap_goal upd) = goal_revision (snap_goal cur) \<longrightarrow> snap_goal upd = snap_goal cur)
     \<and> (snap_version upd = snap_version cur \<longrightarrow> upd = cur)
     \<and> (terminal_phase (snap_phase cur) \<longrightarrow> upd = cur)
     \<and> counters_le (snap_usage cur) (snap_usage upd)
     \<and> tokens_le (bu_tokens (snap_usage cur)) (bu_tokens (snap_usage upd))"

lemma evolves_refl [simp]: "evolves s s"
  by (simp add: evolves_def)

lemma evolves_trans: "evolves a b \<Longrightarrow> evolves b c \<Longrightarrow> evolves a c"
  by (auto simp: evolves_def
      intro: counters_le_trans tokens_le_trans immutable_fields_kept_trans)

lemma swap_allowed_evolves: "swap_allowed C cur upd w resume \<Longrightarrow> evolves cur upd"
  by (auto simp: swap_allowed_def evolves_def)

text \<open>A task that is complete has every required criterion verified.\<close>

definition completion_proved :: "snapshot \<Rightarrow> bool" where
  "completion_proved s \<longleftrightarrow>
     (snap_phase s = Complete \<longrightarrow> required_satisfied (snap_goal s) (snap_assessments s))"

lemma swap_allowed_completion: "swap_allowed C cur upd w resume \<Longrightarrow> completion_proved upd"
  by (simp add: swap_allowed_def completion_proved_def)

subsection \<open>The interface\<close>

record 'st repo =
  r_create :: "snapshot \<Rightarrow> 'st \<Rightarrow> task_error + 'st"
  r_get :: "string \<Rightarrow> owner \<Rightarrow> 'st \<Rightarrow> task_error + snapshot option"
  r_cas :: "snapshot \<Rightarrow> owner \<Rightarrow> int \<Rightarrow> intent option \<Rightarrow> 'st \<Rightarrow> task_error + 'st"

definition owned_by :: "owner \<Rightarrow> snapshot option \<Rightarrow> snapshot option" where
  "owned_by w x = (case x of None \<Rightarrow> None | Some s \<Rightarrow> if snap_owner s = w then Some s else None)"

lemma owned_by_Some_iff [simp]: "owned_by w x = Some s \<longleftrightarrow> x = Some s \<and> snap_owner s = w"
  by (auto simp: owned_by_def split: option.splits)

definition add_intent :: "intent option \<Rightarrow> (string \<Rightarrow> intent option) \<Rightarrow> (string \<Rightarrow> intent option)" where
  "add_intent i ob = (case i of None \<Rightarrow> ob | Some j \<Rightarrow> ob(int_id j \<mapsto> j))"

definition intent_fresh :: "intent option \<Rightarrow> (string \<Rightarrow> intent option) \<Rightarrow> bool" where
  "intent_fresh i ob \<longleftrightarrow> (\<forall>j. i = Some j \<longrightarrow> ob (int_id j) = None)"

text \<open>
  The contract. \<open>good\<close> is the adapter's own consistency (unique keys, rows that decode);
  snapshots passed to \<open>create\<close> and \<open>compare_and_swap\<close> are validated model instances.
\<close>

locale task_repository =
  fixes C :: codec
    and R :: "'st repo"
    and view :: "'st \<Rightarrow> string \<Rightarrow> snapshot option"
    and outbox :: "'st \<Rightarrow> string \<Rightarrow> intent option"
    and good :: "'st \<Rightarrow> bool"
  assumes get_law: "good st \<Longrightarrow> r_get R tid w st = Inr (owned_by w (view st tid))"
    and view_id: "good st \<Longrightarrow> view st tid = Some s \<Longrightarrow> goal_task_id (snap_goal s) = tid"
    and view_ok: "good st \<Longrightarrow> view st tid = Some s \<Longrightarrow> snapshot_ok s"
    and create_law: "good st \<Longrightarrow> snapshot_ok s \<Longrightarrow> r_create R s st = Inr st' \<Longrightarrow>
        snap_version s = 1 \<and> view st (goal_task_id (snap_goal s)) = None
        \<and> view st' = (view st)(goal_task_id (snap_goal s) \<mapsto> s)
        \<and> outbox st' = outbox st \<and> good st'"
    and cas_law: "good st \<Longrightarrow> snapshot_ok s \<Longrightarrow> r_cas R s w v i st = Inr st' \<Longrightarrow>
        (\<exists>cur. view st (goal_task_id (snap_goal s)) = Some cur
               \<and> validate_swap C cur s w v i = Inr ())
        \<and> intent_fresh i (outbox st)
        \<and> view st' = (view st)(goal_task_id (snap_goal s) \<mapsto> s)
        \<and> outbox st' = add_intent i (outbox st) \<and> good st'"
    and cas_accept: "good st \<Longrightarrow> snapshot_ok s \<Longrightarrow>
        view st (goal_task_id (snap_goal s)) = Some cur \<Longrightarrow>
        validate_swap C cur s w v i = Inr () \<Longrightarrow> intent_fresh i (outbox st) \<Longrightarrow>
        \<exists>st'. r_cas R s w v i st = Inr st'"
    and cas_reject: "good st \<Longrightarrow> snapshot_ok s \<Longrightarrow>
        view st (goal_task_id (snap_goal s)) = Some cur \<Longrightarrow> snap_owner cur = w \<Longrightarrow>
        validate_swap C cur s w v i = Inl e \<Longrightarrow> r_cas R s w v i st = Inl e"
    and cas_used: "good st \<Longrightarrow> snapshot_ok s \<Longrightarrow>
        view st (goal_task_id (snap_goal s)) = Some cur \<Longrightarrow>
        validate_swap C cur s w v i = Inr () \<Longrightarrow> \<not> intent_fresh i (outbox st) \<Longrightarrow>
        r_cas R s w v i st = Inl Integrity_error"
begin

lemma cas_total:
  "good st \<Longrightarrow> snapshot_ok s \<Longrightarrow> view st (goal_task_id (snap_goal s)) = Some cur \<Longrightarrow>
     validate_swap C cur s w v i = Inr () \<Longrightarrow>
     (\<exists>st'. r_cas R s w v i st = Inr st') \<or> r_cas R s w v i st = Inl Integrity_error"
  using cas_accept cas_used by blast

text \<open>A writer that read version \<open>v\<close> and lost the race gets a conflict and changes nothing.\<close>

lemma no_lost_update:
  assumes "good st" and "snapshot_ok s" and "snapshot_ok s'"
    and "goal_task_id (snap_goal s') = goal_task_id (snap_goal s)"
    and "snap_owner s' = w"
    and "r_cas R s w v i st = Inr st'"
  shows "r_cas R s' w v i' st' = Inl (Persistence_conflict ''workflow_task''
           (goal_task_id (snap_goal s)) v (Some (v + 1)))"
proof -
  from cas_law [OF assms(1,2,6)] obtain cur where
    sw: "validate_swap C cur s w v i = Inr ()"
    and st': "view st' = (view st)(goal_task_id (snap_goal s) \<mapsto> s)" "good st'" by auto
  from sw have s: "snap_owner s = w" "snap_version s = v + 1"
    by (auto simp: validate_swap_Inr_iff swap_allowed_def)
  have "validate_swap C s s' w v i' = Inl (Persistence_conflict ''workflow_task''
          (goal_task_id (snap_goal s)) v (Some (v + 1)))"
    using s assms(5) by (simp add: validate_swap_conflict)
  with st' s assms(3,4) show ?thesis
    by (intro cas_reject) simp_all
qed

lemma cas_evolves:
  assumes "good st" and "snapshot_ok s" and "r_cas R s w v i st = Inr st'"
    and "view st tid = Some cur"
  shows "\<exists>upd. view st' tid = Some upd \<and> evolves cur upd"
proof (cases "tid = goal_task_id (snap_goal s)")
  case True
  with cas_law [OF assms(1-3)] assms(4) show ?thesis
    by (auto simp: validate_swap_Inr_iff dest: swap_allowed_evolves)
next
  case False
  with cas_law [OF assms(1-3)] assms(4) show ?thesis by auto
qed

lemma create_evolves:
  assumes "good st" and "snapshot_ok s" and "r_create R s st = Inr st'"
    and "view st tid = Some cur"
  shows "view st' tid = Some cur"
  using create_law [OF assms(1-3)] assms(4) by auto

end

end
