(* ===== verification/Task_Store.thy ===== *)
theory Task_Store
  imports Task_Repository "HOL-Library.Char_ord" "HOL-Library.List_Lexorder"
begin

text \<open>
  The two adapters of the task repository: the SQLite file of
  \<open>observability/storage/workflow_task_store.py\<close> and the PostgreSQL authority of
  \<open>capabilities/persistence/postgres/workflow_task_repository.py\<close>. A store is its two tables; an
  operation is the transaction the code runs, so a raised error leaves the store as it was. Both
  interpret the contract of \<open>Task_Repository\<close>.
\<close>

subsection \<open>The outbox table, shared by both schemas\<close>

record resume_row =
  rr_intent_id :: string
  rr_task_id :: string
  rr_owner :: owner
  rr_intent :: intent
  rr_run_id :: "string option"

definition new_resume_row :: "owner \<Rightarrow> intent \<Rightarrow> resume_row" where
  "new_resume_row w i = \<lparr>rr_intent_id = int_id i, rr_task_id = int_task_id i, rr_owner = w,
     rr_intent = i, rr_run_id = None\<rparr>"

text \<open>\<open>INSERT INTO workflow_task_resumes\<close>: the primary key rejects a used intent id.\<close>

definition insert_resume :: "owner \<Rightarrow> intent option \<Rightarrow> resume_row list \<Rightarrow> task_error + resume_row list" where
  "insert_resume w resume t = (case resume of
       None \<Rightarrow> Inr t
     | Some i \<Rightarrow> if lookup_row rr_intent_id (int_id i) t \<noteq> None then Inl Integrity_error
                 else Inr (t @ [new_resume_row w i]))"

definition outbox_of :: "resume_row list \<Rightarrow> string \<Rightarrow> intent option" where
  "outbox_of t iid = map_option rr_intent (lookup_row rr_intent_id iid t)"

text \<open>The update of \<open>mark_resume_dispatched\<close>, shared up to the table it runs on.\<close>

definition mark_dispatched ::
  "string \<Rightarrow> owner \<Rightarrow> string \<Rightarrow> resume_row list \<Rightarrow> task_error + resume_row list" where
  "mark_dispatched iid w run_id t =
     (if run_id = [] \<or> 128 < len run_id then Inl (Value_error ''resume run id must be bounded'')
      else case find (\<lambda>r. rr_intent_id r = iid \<and> rr_owner r = w) t of
             None \<Rightarrow> Inl (Persistence_not_found ''workflow_resume'' iid)
           | Some row \<Rightarrow>
               if rr_run_id row \<noteq> None \<and> rr_run_id row \<noteq> Some run_id
               then Inl (Persistence_invariant ''resume intent already belongs to a different run'')
               else Inr (update_where (\<lambda>r. rr_intent_id r = iid) (rr_run_id_update (\<lambda>_. Some run_id)) t))"

lemma insert_resume_InrE:
  assumes "insert_resume w i t = Inr t'"
  shows "intent_fresh i (outbox_of t)" and "outbox_of t' = add_intent i (outbox_of t)"
    and "keys_unique rr_intent_id t \<Longrightarrow> keys_unique rr_intent_id t'"
proof -
  have find_app: "find P (xs @ [x]) = (case find P xs of None \<Rightarrow> if P x then Some x else None | Some y \<Rightarrow> Some y)"
    for P and xs :: "resume_row list" and x by (induction xs) auto
  show "intent_fresh i (outbox_of t)"
    using assms by (auto simp: insert_resume_def intent_fresh_def outbox_of_def split: option.splits if_splits)
  show "outbox_of t' = add_intent i (outbox_of t)"
    using assms by (auto simp: insert_resume_def add_intent_def outbox_of_def lookup_row_def fun_eq_iff
        find_app new_resume_row_def split: option.splits if_splits)
  show "keys_unique rr_intent_id t \<Longrightarrow> keys_unique rr_intent_id t'"
    using assms by (auto simp: insert_resume_def table_simps new_resume_row_def split: option.splits if_splits)
qed

lemma insert_resume_fresh: "intent_fresh i (outbox_of t) \<Longrightarrow> \<exists>t'. insert_resume w i t = Inr t'"
  by (auto simp: insert_resume_def intent_fresh_def outbox_of_def split: option.splits)

lemma insert_resume_used: "\<not> intent_fresh i (outbox_of t) \<Longrightarrow> insert_resume w i t = Inl Integrity_error"
  by (auto simp: insert_resume_def intent_fresh_def outbox_of_def)

subsection \<open>SQLite file\<close>

record file_row =
  fr_task_id :: string
  fr_owner :: owner
  fr_version :: int
  fr_snapshot :: snapshot
  fr_sha :: string
  fr_expires_at :: instant

record file_store =
  fs_tasks :: "file_row list"
  fs_resumes :: "resume_row list"

definition file_decode :: "codec \<Rightarrow> file_row \<Rightarrow> task_error + snapshot" where
  "file_decode C row =
     (if \<not> snapshot_ok (fr_snapshot row) then Inl Validation_error
      else if snapshot_digest C (fr_snapshot row) \<noteq> fr_sha row
              \<or> snap_version (fr_snapshot row) \<noteq> fr_version row
      then Inl (Persistence_invariant ''workflow snapshot integrity mismatch'')
      else Inr (fr_snapshot row))"

definition file_create :: "codec \<Rightarrow> snapshot \<Rightarrow> file_store \<Rightarrow> task_error + file_store" where
  "file_create C s st =
     (if snap_version s \<noteq> 1 \<or> goal_revision (snap_goal s) \<noteq> 1
      then Inl (Persistence_invariant ''new workflow snapshot must start at version one'')
      else if lookup_row fr_task_id (goal_task_id (snap_goal s)) (fs_tasks st) \<noteq> None
      then Inl (Persistence_conflict ''workflow_task'' (goal_task_id (snap_goal s)) 0 None)
      else Inr (st\<lparr>fs_tasks := fs_tasks st @ [\<lparr>fr_task_id = goal_task_id (snap_goal s),
             fr_owner = snap_owner s, fr_version = snap_version s, fr_snapshot = s,
             fr_sha = snapshot_digest C s, fr_expires_at = snap_expires_at s\<rparr>]\<rparr>))"

definition file_row_of :: "string \<Rightarrow> owner \<Rightarrow> file_store \<Rightarrow> file_row option" where
  "file_row_of tid w st = find (\<lambda>r. fr_task_id r = tid \<and> fr_owner r = w) (fs_tasks st)"

definition file_get :: "codec \<Rightarrow> string \<Rightarrow> owner \<Rightarrow> file_store \<Rightarrow> task_error + snapshot option" where
  "file_get C tid w st = (case file_row_of tid w st of
       None \<Rightarrow> Inr None
     | Some row \<Rightarrow> rbind (file_decode C row) (\<lambda>s. Inr (Some s)))"

definition file_write_row :: "codec \<Rightarrow> snapshot \<Rightarrow> file_row \<Rightarrow> file_row" where
  "file_write_row C s r =
     r\<lparr>fr_version := snap_version s, fr_snapshot := s, fr_sha := snapshot_digest C s\<rparr>"

definition file_cas ::
  "codec \<Rightarrow> snapshot \<Rightarrow> owner \<Rightarrow> int \<Rightarrow> intent option \<Rightarrow> file_store \<Rightarrow> task_error + file_store" where
  "file_cas C s w expected resume st =
     (case file_row_of (goal_task_id (snap_goal s)) w st of
        None \<Rightarrow> Inl (Persistence_not_found ''workflow_task'' (goal_task_id (snap_goal s)))
      | Some row \<Rightarrow>
          rbind (file_decode C row) (\<lambda>cur.
          rbind (validate_swap C cur s w expected resume) (\<lambda>_.
          rbind (insert_resume w resume (fs_resumes st)) (\<lambda>resumes.
            Inr (st\<lparr>fs_tasks := update_where (\<lambda>r. fr_task_id r = goal_task_id (snap_goal s))
                     (file_write_row C s) (fs_tasks st),
                   fs_resumes := resumes\<rparr>)))))"

text \<open>
  \<open>list_pending_resumes\<close> reads the undispatched intents of tasks that still exist, in the order
  of their ids; \<open>purge_expired\<close> deletes expired tasks and, by the cascade of the foreign key,
  their outbox rows.
\<close>

definition file_list_pending :: "owner \<Rightarrow> int \<Rightarrow> file_store \<Rightarrow> task_error + intent list" where
  "file_list_pending w limit st =
     (if \<not> (1 \<le> limit \<and> limit \<le> 500)
      then Inl (Value_error ''resume list limit must be between one and 500'')
      else Inr (map rr_intent (take (nat limit) (sort_key rr_intent_id
             (filter (\<lambda>r. rr_owner r = w \<and> rr_run_id r = None
                \<and> lookup_row fr_task_id (rr_task_id r) (fs_tasks st) \<noteq> None) (fs_resumes st))))))"

definition file_mark_dispatched ::
  "string \<Rightarrow> owner \<Rightarrow> string \<Rightarrow> file_store \<Rightarrow> task_error + file_store" where
  "file_mark_dispatched iid w run_id st =
     rbind (mark_dispatched iid w run_id (fs_resumes st)) (\<lambda>t. Inr (st\<lparr>fs_resumes := t\<rparr>))"

definition file_purge_expired :: "instant \<Rightarrow> file_store \<Rightarrow> nat \<times> file_store" where
  "file_purge_expired now st =
     (let doomed = filter (\<lambda>r. fr_expires_at r \<le> now) (fs_tasks st) in
      (length doomed,
       st\<lparr>fs_tasks := delete_where (\<lambda>r. fr_expires_at r \<le> now) (fs_tasks st),
          fs_resumes := delete_where (\<lambda>r. rr_task_id r \<in> set (map fr_task_id doomed)) (fs_resumes st)\<rparr>))"

definition file_repo :: "codec \<Rightarrow> file_store repo" where
  "file_repo C = \<lparr>r_create = file_create C, r_get = file_get C, r_cas = file_cas C\<rparr>"

subsection \<open>PostgreSQL\<close>

record pg_row =
  pr_task_id :: string
  pr_owner :: owner
  pr_version :: int
  pr_goal_revision :: int
  pr_phase :: task_phase
  pr_snapshot :: snapshot
  pr_sha :: string
  pr_created_at :: instant
  pr_updated_at :: instant
  pr_expires_at :: instant

record pg_store =
  ps_tasks :: "pg_row list"
  ps_resumes :: "resume_row list"

definition pg_decode :: "codec \<Rightarrow> pg_row \<Rightarrow> task_error + snapshot" where
  "pg_decode C row =
     (if \<not> snapshot_ok (pr_snapshot row) then Inl Validation_error
      else if snapshot_digest C (pr_snapshot row) \<noteq> pr_sha row
              \<or> snap_version (pr_snapshot row) \<noteq> pr_version row
              \<or> goal_revision (snap_goal (pr_snapshot row)) \<noteq> pr_goal_revision row
              \<or> snap_phase (pr_snapshot row) \<noteq> pr_phase row
              \<or> snap_owner (pr_snapshot row) \<noteq> pr_owner row
              \<or> snap_expires_at (pr_snapshot row) \<noteq> pr_expires_at row
      then Inl (Persistence_invariant ''workflow snapshot integrity mismatch'')
      else Inr (pr_snapshot row))"

text \<open>
  The check constraint on retention makes the database reject a snapshot whose content would
  live longer than 90 days.
\<close>

definition pg_create :: "codec \<Rightarrow> snapshot \<Rightarrow> pg_store \<Rightarrow> task_error + pg_store" where
  "pg_create C s st =
     (if snap_version s \<noteq> 1 \<or> goal_revision (snap_goal s) \<noteq> 1
      then Inl (Persistence_invariant ''new workflow snapshot must start at version one'')
      else if 524288 < dumped_size C s
      then Inl (Persistence_invariant ''workflow snapshot exceeds bounded storage size'')
      else if snap_created_at s + days 90 < snap_expires_at s then Inl Integrity_error
      else if lookup_row pr_task_id (goal_task_id (snap_goal s)) (ps_tasks st) \<noteq> None
      then Inl (Persistence_conflict ''workflow_task'' (goal_task_id (snap_goal s)) 0 None)
      else Inr (st\<lparr>ps_tasks := ps_tasks st @ [\<lparr>pr_task_id = goal_task_id (snap_goal s),
             pr_owner = snap_owner s, pr_version = snap_version s,
             pr_goal_revision = goal_revision (snap_goal s), pr_phase = snap_phase s,
             pr_snapshot = s, pr_sha = snapshot_digest C s, pr_created_at = snap_created_at s,
             pr_updated_at = snap_updated_at s, pr_expires_at = snap_expires_at s\<rparr>]\<rparr>))"

definition pg_row_of :: "string \<Rightarrow> owner \<Rightarrow> pg_store \<Rightarrow> pg_row option" where
  "pg_row_of tid w st = find (\<lambda>r. pr_task_id r = tid \<and> pr_owner r = w) (ps_tasks st)"

definition pg_get :: "codec \<Rightarrow> string \<Rightarrow> owner \<Rightarrow> pg_store \<Rightarrow> task_error + snapshot option" where
  "pg_get C tid w st = (case pg_row_of tid w st of
       None \<Rightarrow> Inr None
     | Some row \<Rightarrow> rbind (pg_decode C row) (\<lambda>s. Inr (Some s)))"

definition pg_write_row :: "codec \<Rightarrow> snapshot \<Rightarrow> pg_row \<Rightarrow> pg_row" where
  "pg_write_row C s r = r\<lparr>pr_version := snap_version s, pr_goal_revision := goal_revision (snap_goal s),
     pr_phase := snap_phase s, pr_snapshot := s, pr_sha := snapshot_digest C s,
     pr_updated_at := snap_updated_at s\<rparr>"

definition pg_cas ::
  "codec \<Rightarrow> snapshot \<Rightarrow> owner \<Rightarrow> int \<Rightarrow> intent option \<Rightarrow> pg_store \<Rightarrow> task_error + pg_store" where
  "pg_cas C s w expected resume st =
     (case pg_row_of (goal_task_id (snap_goal s)) w st of
        None \<Rightarrow> Inl (Persistence_not_found ''workflow_task'' (goal_task_id (snap_goal s)))
      | Some row \<Rightarrow>
          rbind (pg_decode C row) (\<lambda>cur.
          rbind (validate_swap C cur s w expected resume) (\<lambda>_.
          rbind (insert_resume w resume (ps_resumes st)) (\<lambda>resumes.
            Inr (st\<lparr>ps_tasks := update_where (\<lambda>r. pr_task_id r = goal_task_id (snap_goal s)
                       \<and> pr_version r = expected \<and> pr_owner r = w) (pg_write_row C s) (ps_tasks st),
                   ps_resumes := resumes\<rparr>)))))"

definition pg_list_pending :: "owner \<Rightarrow> int \<Rightarrow> pg_store \<Rightarrow> task_error + intent list" where
  "pg_list_pending w limit st =
     (if \<not> (1 \<le> limit \<and> limit \<le> 500)
      then Inl (Value_error ''resume list limit must be between one and 500'')
      else Inr (map rr_intent (take (nat limit)
             (sort_key (\<lambda>r. int_created_at (rr_intent r)) (sort_key rr_intent_id
             (filter (\<lambda>r. rr_owner r = w \<and> rr_run_id r = None) (ps_resumes st)))))))"

definition pg_mark_dispatched ::
  "string \<Rightarrow> owner \<Rightarrow> string \<Rightarrow> pg_store \<Rightarrow> task_error + pg_store" where
  "pg_mark_dispatched iid w run_id st =
     rbind (mark_dispatched iid w run_id (ps_resumes st)) (\<lambda>t. Inr (st\<lparr>ps_resumes := t\<rparr>))"

definition pg_purge_expired :: "clock \<Rightarrow> pg_store \<Rightarrow> task_error + (nat \<times> pg_store)" where
  "pg_purge_expired c st = rbind (aware_time c) (\<lambda>now.
     let doomed = filter (\<lambda>r. pr_expires_at r \<le> now) (ps_tasks st) in
     Inr (length doomed,
       st\<lparr>ps_tasks := delete_where (\<lambda>r. pr_expires_at r \<le> now) (ps_tasks st),
          ps_resumes := delete_where (\<lambda>r. rr_task_id r \<in> set (map pr_task_id doomed)) (ps_resumes st)\<rparr>))"

definition pg_repo :: "codec \<Rightarrow> pg_store repo" where
  "pg_repo C = \<lparr>r_create = pg_create C, r_get = pg_get C, r_cas = pg_cas C\<rparr>"

lemma pg_list_pending_mem:
  "pg_list_pending w limit st = Inr pending \<Longrightarrow> i \<in> set pending \<Longrightarrow>
     \<exists>r \<in> set (ps_resumes st). rr_intent r = i \<and> rr_owner r = w \<and> rr_run_id r = None"
  unfolding pg_list_pending_def if_Inl_Inr_iff
  by (elim conjE) (drule sym, auto dest!: in_set_takeD simp: set_sort)

subsection \<open>Adapter invariants and views\<close>

definition file_row_good :: "codec \<Rightarrow> file_row \<Rightarrow> bool" where
  "file_row_good C r \<longleftrightarrow> snapshot_ok (fr_snapshot r) \<and> fr_sha r = snapshot_digest C (fr_snapshot r)
     \<and> fr_version r = snap_version (fr_snapshot r) \<and> fr_owner r = snap_owner (fr_snapshot r)
     \<and> fr_task_id r = goal_task_id (snap_goal (fr_snapshot r))
     \<and> fr_expires_at r = snap_expires_at (fr_snapshot r)"

definition file_good :: "codec \<Rightarrow> file_store \<Rightarrow> bool" where
  "file_good C st \<longleftrightarrow> keys_unique fr_task_id (fs_tasks st) \<and> (\<forall>r \<in> set (fs_tasks st). file_row_good C r)
     \<and> keys_unique rr_intent_id (fs_resumes st)"

definition file_view :: "file_store \<Rightarrow> string \<Rightarrow> snapshot option" where
  "file_view st tid = map_option fr_snapshot (lookup_row fr_task_id tid (fs_tasks st))"

definition pg_row_good :: "codec \<Rightarrow> pg_row \<Rightarrow> bool" where
  "pg_row_good C r \<longleftrightarrow> snapshot_ok (pr_snapshot r) \<and> pr_sha r = snapshot_digest C (pr_snapshot r)
     \<and> pr_version r = snap_version (pr_snapshot r) \<and> pr_owner r = snap_owner (pr_snapshot r)
     \<and> pr_goal_revision r = goal_revision (snap_goal (pr_snapshot r))
     \<and> pr_phase r = snap_phase (pr_snapshot r)
     \<and> pr_task_id r = goal_task_id (snap_goal (pr_snapshot r))
     \<and> pr_expires_at r = snap_expires_at (pr_snapshot r)"

definition pg_good :: "codec \<Rightarrow> pg_store \<Rightarrow> bool" where
  "pg_good C st \<longleftrightarrow> keys_unique pr_task_id (ps_tasks st) \<and> (\<forall>r \<in> set (ps_tasks st). pg_row_good C r)
     \<and> keys_unique rr_intent_id (ps_resumes st)"

definition pg_view :: "pg_store \<Rightarrow> string \<Rightarrow> snapshot option" where
  "pg_view st tid = map_option pr_snapshot (lookup_row pr_task_id tid (ps_tasks st))"

subsection \<open>The contract holds\<close>

lemmas view_defs = file_view_def pg_view_def
lemmas good_defs = file_good_def pg_good_def

lemma file_lookupD:
  "file_good C st \<Longrightarrow> lookup_row fr_task_id tid (fs_tasks st) = Some r \<Longrightarrow>
     file_row_good C r \<and> fr_task_id r = tid"
  by (auto simp: file_good_def dest!: lookup_row_SomeD)

lemma file_row_of_good:
  assumes "file_good C st"
  shows "file_row_of tid w st = (case lookup_row fr_task_id tid (fs_tasks st) of
           None \<Rightarrow> None | Some r \<Rightarrow> if fr_owner r = w then Some r else None)"
  using assms by (simp add: file_row_of_def file_good_def find_key_and)

lemma file_decode_good: "file_row_good C r \<Longrightarrow> file_decode C r = Inr (fr_snapshot r)"
  by (simp add: file_decode_def file_row_good_def)

lemma file_write_row_simps [simp]:
  "fr_task_id (file_write_row C s r) = fr_task_id r" "fr_owner (file_write_row C s r) = fr_owner r"
  "fr_snapshot (file_write_row C s r) = s"
  by (simp_all add: file_write_row_def)

lemma file_row_good_written:
  assumes "file_row_good C r" and "snapshot_ok s"
    and "validate_swap C (fr_snapshot r) s w v i = Inr ()"
  shows "file_row_good C (file_write_row C s r)"
  using assms
  by (auto simp: file_row_good_def file_write_row_def validate_swap_Inr_iff swap_allowed_def
      immutable_fields_kept_def)

text \<open>On a consistent store, \<open>compare_and_swap\<close> is determined by the view.\<close>

lemma file_cas_eq:
  assumes "file_good C st"
  shows "file_cas C s w v i st =
    (case owned_by w (file_view st (goal_task_id (snap_goal s))) of
       None \<Rightarrow> Inl (Persistence_not_found ''workflow_task'' (goal_task_id (snap_goal s)))
     | Some cur \<Rightarrow> rbind (validate_swap C cur s w v i) (\<lambda>_.
         rbind (insert_resume w i (fs_resumes st)) (\<lambda>resumes.
           Inr (st\<lparr>fs_tasks := update_where (\<lambda>r. fr_task_id r = goal_task_id (snap_goal s))
                     (file_write_row C s) (fs_tasks st), fs_resumes := resumes\<rparr>))))"
  using file_lookupD [OF assms]
  by (auto simp: file_cas_def file_row_of_good [OF assms] file_view_def owned_by_def
      file_decode_good file_row_good_def split: option.splits)

lemma file_tasks_written:
  assumes "file_good C st" and "snapshot_ok s"
    and "file_view st (goal_task_id (snap_goal s)) = Some cur"
    and "validate_swap C cur s w v i = Inr ()"
    and "r \<in> set (update_where (\<lambda>r. fr_task_id r = goal_task_id (snap_goal s))
                (file_write_row C s) (fs_tasks st))"
  shows "file_row_good C r"
  using assms(5)
proof (rule mem_update_whereE)
  assume "r \<in> set (fs_tasks st)" then show ?thesis using assms(1) by (simp add: file_good_def)
next
  fix r0 assume r0: "r0 \<in> set (fs_tasks st)" "fr_task_id r0 = goal_task_id (snap_goal s)"
    "r = file_write_row C s r0"
  then have "lookup_row fr_task_id (goal_task_id (snap_goal s)) (fs_tasks st) = Some r0"
    using assms(1) by (auto simp: file_good_def intro: lookup_row_eqI)
  with assms(3) have "fr_snapshot r0 = cur" by (simp add: file_view_def)
  with r0 assms show ?thesis by (auto simp: file_good_def intro!: file_row_good_written)
qed

lemma file_cas_law:
  assumes g: "file_good C st" and ok: "snapshot_ok s" and cas: "file_cas C s w v i st = Inr st'"
  shows "(\<exists>cur. file_view st (goal_task_id (snap_goal s)) = Some cur
               \<and> validate_swap C cur s w v i = Inr ())
        \<and> intent_fresh i (outbox_of (fs_resumes st))
        \<and> file_view st' = (file_view st)(goal_task_id (snap_goal s) \<mapsto> s)
        \<and> outbox_of (fs_resumes st') = add_intent i (outbox_of (fs_resumes st)) \<and> file_good C st'"
proof -
  from cas g obtain cur resumes where
    view: "file_view st (goal_task_id (snap_goal s)) = Some cur"
    and sw: "validate_swap C cur s w v i = Inr ()"
    and res: "insert_resume w i (fs_resumes st) = Inr resumes"
    and st': "st' = st\<lparr>fs_tasks := update_where (\<lambda>r. fr_task_id r = goal_task_id (snap_goal s))
                     (file_write_row C s) (fs_tasks st), fs_resumes := resumes\<rparr>"
    by (auto simp: file_cas_eq split: option.splits)
  have "file_view st' = (file_view st)(goal_task_id (snap_goal s) \<mapsto> s)"
    using view by (auto simp: st' file_view_def fun_eq_iff lookup_update_key1)
  moreover have "file_good C st'"
    using g insert_resume_InrE(3) [OF res] file_tasks_written [OF g ok view sw]
    by (auto simp: file_good_def st' table_simps)
  ultimately show ?thesis
    using view sw insert_resume_InrE(1,2) [OF res] by (auto simp: st')
qed

interpretation sqlite: task_repository C "file_repo C" file_view "outbox_of \<circ> fs_resumes" "file_good C"
  for C :: codec
proof (unfold_locales, goal_cases)
  case (1 st tid w)
  then show ?case
    using file_lookupD [OF 1]
    by (auto simp: file_repo_def file_get_def file_row_of_good file_view_def owned_by_def
        file_decode_good file_row_good_def split: option.splits)
next
  case (4 st s st')
  then show ?case
    by (auto simp: file_repo_def file_create_def file_view_def fun_eq_iff file_good_def file_row_good_def
        table_simps split: option.splits if_splits)
next
  case (5 st s w v i st')
  then show ?case using file_cas_law [of C st s w v i st'] by (simp add: file_repo_def)
next
  case (6 st s cur w v i)
  then show ?case
    using insert_resume_fresh [of i "fs_resumes st" w]
    by (auto simp: file_repo_def file_cas_eq owned_by_def validate_swap_Inr_iff swap_allowed_def)
next
  case (7 st s cur w v i e)
  then show ?case by (simp add: file_repo_def file_cas_eq owned_by_def)
next
  case (8 st s cur w v i)
  then show ?case
    using validate_swap_Inr_iff [of C cur s w v i]
    by (simp add: file_repo_def file_cas_eq owned_by_def insert_resume_used swap_allowed_def)
qed (auto simp: file_view_def file_row_good_def dest: file_lookupD)

lemma pg_lookupD:
  "pg_good C st \<Longrightarrow> lookup_row pr_task_id tid (ps_tasks st) = Some r \<Longrightarrow>
     pg_row_good C r \<and> pr_task_id r = tid"
  by (auto simp: pg_good_def dest!: lookup_row_SomeD)

lemma pg_row_of_good:
  assumes "pg_good C st"
  shows "pg_row_of tid w st = (case lookup_row pr_task_id tid (ps_tasks st) of
           None \<Rightarrow> None | Some r \<Rightarrow> if pr_owner r = w then Some r else None)"
  using assms by (simp add: pg_row_of_def pg_good_def find_key_and)

lemma pg_decode_good: "pg_row_good C r \<Longrightarrow> pg_decode C r = Inr (pr_snapshot r)"
  by (simp add: pg_decode_def pg_row_good_def)

lemma pg_write_row_simps [simp]:
  "pr_task_id (pg_write_row C s r) = pr_task_id r" "pr_owner (pg_write_row C s r) = pr_owner r"
  "pr_snapshot (pg_write_row C s r) = s"
  by (simp_all add: pg_write_row_def)

lemma pg_row_good_written:
  assumes "pg_row_good C r" and "snapshot_ok s"
    and "validate_swap C (pr_snapshot r) s w v i = Inr ()"
  shows "pg_row_good C (pg_write_row C s r)"
  using assms
  by (auto simp: pg_row_good_def pg_write_row_def validate_swap_Inr_iff swap_allowed_def
      immutable_fields_kept_def)

lemma pg_cas_eq:
  assumes "pg_good C st"
  shows "pg_cas C s w v i st =
    (case owned_by w (pg_view st (goal_task_id (snap_goal s))) of
       None \<Rightarrow> Inl (Persistence_not_found ''workflow_task'' (goal_task_id (snap_goal s)))
     | Some cur \<Rightarrow> rbind (validate_swap C cur s w v i) (\<lambda>_.
         rbind (insert_resume w i (ps_resumes st)) (\<lambda>resumes.
           Inr (st\<lparr>ps_tasks := update_where (\<lambda>r. pr_task_id r = goal_task_id (snap_goal s) \<and> pr_version r = v \<and> pr_owner r = w)
                     (pg_write_row C s) (ps_tasks st), ps_resumes := resumes\<rparr>))))"
  using pg_lookupD [OF assms]
  by (auto simp: pg_cas_def pg_row_of_good [OF assms] pg_view_def owned_by_def
      pg_decode_good pg_row_good_def split: option.splits)

lemma pg_tasks_written:
  assumes "pg_good C st" and "snapshot_ok s"
    and "pg_view st (goal_task_id (snap_goal s)) = Some cur"
    and "validate_swap C cur s w v i = Inr ()"
    and "r \<in> set (update_where (\<lambda>r. pr_task_id r = goal_task_id (snap_goal s) \<and> pr_version r = v \<and> pr_owner r = w)
                (pg_write_row C s) (ps_tasks st))"
  shows "pg_row_good C r"
  using assms(5)
proof (rule mem_update_whereE)
  assume "r \<in> set (ps_tasks st)" then show ?thesis using assms(1) by (simp add: pg_good_def)
next
  fix r0 assume r0: "r0 \<in> set (ps_tasks st)" "pr_task_id r0 = goal_task_id (snap_goal s) \<and> pr_version r0 = v \<and> pr_owner r0 = w"
    "r = pg_write_row C s r0"
  then have "lookup_row pr_task_id (goal_task_id (snap_goal s)) (ps_tasks st) = Some r0"
    using assms(1) by (auto simp: pg_good_def intro: lookup_row_eqI)
  with assms(3) have "pr_snapshot r0 = cur" by (simp add: pg_view_def)
  with r0 assms show ?thesis by (auto simp: pg_good_def intro!: pg_row_good_written)
qed

lemma pg_cas_law:
  assumes g: "pg_good C st" and ok: "snapshot_ok s" and cas: "pg_cas C s w v i st = Inr st'"
  shows "(\<exists>cur. pg_view st (goal_task_id (snap_goal s)) = Some cur
               \<and> validate_swap C cur s w v i = Inr ())
        \<and> intent_fresh i (outbox_of (ps_resumes st))
        \<and> pg_view st' = (pg_view st)(goal_task_id (snap_goal s) \<mapsto> s)
        \<and> outbox_of (ps_resumes st') = add_intent i (outbox_of (ps_resumes st)) \<and> pg_good C st'"
proof -
  from cas g obtain cur resumes where
    view: "pg_view st (goal_task_id (snap_goal s)) = Some cur"
    and sw: "validate_swap C cur s w v i = Inr ()"
    and res: "insert_resume w i (ps_resumes st) = Inr resumes"
    and st': "st' = st\<lparr>ps_tasks := update_where (\<lambda>r. pr_task_id r = goal_task_id (snap_goal s) \<and> pr_version r = v \<and> pr_owner r = w)
                     (pg_write_row C s) (ps_tasks st), ps_resumes := resumes\<rparr>"
    by (auto simp: pg_cas_eq split: option.splits)
  have "pg_view st' = (pg_view st)(goal_task_id (snap_goal s) \<mapsto> s)"
  proof -
    from view obtain z where z: "lookup_row pr_task_id (goal_task_id (snap_goal s)) (ps_tasks st) = Some z"
      "pr_snapshot z = cur" by (auto simp: pg_view_def)
    with pg_lookupD [OF g z(1)] sw have "pr_version z = v" "pr_owner z = w"
      by (auto simp: pg_row_good_def validate_swap_Inr_iff swap_allowed_def)
    with z show ?thesis by (simp add: st' pg_view_def fun_eq_iff lookup_update_key)
  qed
  moreover have "pg_good C st'"
    using g insert_resume_InrE(3) [OF res] pg_tasks_written [OF g ok view sw]
    by (auto simp: pg_good_def st' table_simps)
  ultimately show ?thesis
    using view sw insert_resume_InrE(1,2) [OF res] by (auto simp: st')
qed

interpretation postgres: task_repository C "pg_repo C" pg_view "outbox_of \<circ> ps_resumes" "pg_good C"
  for C :: codec
proof (unfold_locales, goal_cases)
  case (1 st tid w)
  then show ?case
    using pg_lookupD [OF 1]
    by (auto simp: pg_repo_def pg_get_def pg_row_of_good pg_view_def owned_by_def
        pg_decode_good pg_row_good_def split: option.splits)
next
  case (4 st s st')
  then show ?case
    by (auto simp: pg_repo_def pg_create_def pg_view_def fun_eq_iff pg_good_def pg_row_good_def
        table_simps split: option.splits if_splits)
next
  case (5 st s w v i st')
  then show ?case using pg_cas_law [of C st s w v i st'] by (simp add: pg_repo_def)
next
  case (6 st s cur w v i)
  then show ?case
    using insert_resume_fresh [of i "ps_resumes st" w]
    by (auto simp: pg_repo_def pg_cas_eq owned_by_def validate_swap_Inr_iff swap_allowed_def)
next
  case (7 st s cur w v i e)
  then show ?case by (simp add: pg_repo_def pg_cas_eq owned_by_def)
next
  case (8 st s cur w v i)
  then show ?case
    using validate_swap_Inr_iff [of C cur s w v i]
    by (simp add: pg_repo_def pg_cas_eq owned_by_def insert_resume_used swap_allowed_def)
qed (auto simp: pg_view_def pg_row_good_def dest: pg_lookupD)

end
