(* ===== verification/Task_Service.thy ===== *)
theory Task_Service
  imports Task_Repository
begin

text \<open>
  \<open>WorkflowTaskService\<close> of \<open>control/workflow/task_service.py\<close> over any repository, with the goal
  compilation of \<open>control/knowledge/answer_requirements.py\<close> that creation and revision call. Each
  command reads the current snapshot, checks it, computes the next one and commits it with one
  compare-and-swap; its result is the value it returns and the store it leaves.
\<close>

subsection \<open>Goal requirements\<close>

text \<open>
  \<open>is_performance_comparison\<close>: three searches for one of several literal phrases (a topic, a
  strength, a weakness), given as code points.
\<close>

definition performance_topics :: "utext list" where
  "performance_topics = [[19994, 32489], [32463, 33829, 34920, 29616], [19994, 21153, 34920, 29616]]"

definition performance_strengths :: "utext list" where
  "performance_strengths =
     [[20142, 28857], [36739, 22909], [27604, 36739, 22909], [20248, 21183], [22686, 38271]]"

definition performance_weaknesses :: "utext list" where
  "performance_weaknesses =
     [[36739, 24046], [27604, 36739, 24046], [24369, 39033], [19981, 36275], [21387, 21147], [21155, 21183], [19979, 28369]]"

definition is_performance_comparison :: "utext \<Rightarrow> bool" where
  "is_performance_comparison question \<longleftrightarrow> contains_any performance_topics question
     \<and> contains_any performance_strengths question \<and> contains_any performance_weaknesses question"

definition answer_contract_id :: string where
  "answer_contract_id = ''proofagent-answer-contract''"

definition objective_check :: "goal \<Rightarrow> criterion" where
  "objective_check g = \<lparr>crit_id = answer_contract_id, crit_description = goal_objective g,
     crit_required = True, crit_verifier = Grounded_analysis, crit_query = None,
     crit_expected_text = None, crit_tool_step_id = None\<rparr>"

definition validated_goal :: "goal \<Rightarrow> task_error + goal" where
  "validated_goal g = (if goal_ok g then Inr g else Inl Validation_error)"

definition compile_goal_requirements :: "goal \<Rightarrow> goal option \<Rightarrow> task_error + goal" where
  "compile_goal_requirements g previous =
     (let reserved = filter (\<lambda>c. crit_id c = answer_contract_id) (goal_criteria g);
          criteria = filter (\<lambda>c. crit_id c \<noteq> answer_contract_id) (goal_criteria g)
      in if reserved \<noteq> []
            \<and> (case previous of None \<Rightarrow> True
               | Some p \<Rightarrow> list_ex (\<lambda>c. c \<notin> set (goal_criteria p)) reserved)
         then Inl (Persistence_invariant
                ''proofagent-answer-contract is reserved for the control-owned objective check'')
         else if is_performance_comparison (goal_objective g)
         then if 32 \<le> len criteria
              then Inl (Persistence_invariant
                     ''analysis tasks allow at most 31 custom criteria plus the objective check'')
              else if \<not> criterion_ok (objective_check g) then Inl Validation_error
              else validated_goal (g\<lparr>goal_criteria := criteria @ [objective_check g]\<rparr>)
         else validated_goal (g\<lparr>goal_criteria := criteria\<rparr>))"

subsection \<open>Reading and committing\<close>

definition svc_get :: "'st repo \<Rightarrow> string \<Rightarrow> owner \<Rightarrow> 'st \<Rightarrow> task_error + snapshot" where
  "svc_get R tid w st = rbind (r_get R tid w st) (\<lambda>x. case x of
       None \<Rightarrow> Inl (Persistence_not_found ''workflow_task'' tid)
     | Some s \<Rightarrow> Inr s)"

definition svc_current ::
  "'st repo \<Rightarrow> string \<Rightarrow> owner \<Rightarrow> int \<Rightarrow> clock \<Rightarrow> 'st \<Rightarrow> task_error + (snapshot \<times> instant)" where
  "svc_current R tid w expected c st =
     rbind (aware_time c) (\<lambda>now.
     rbind (svc_get R tid w st) (\<lambda>current.
       if snap_version current \<noteq> expected
       then Inl (Persistence_conflict ''workflow_task'' tid expected (Some (snap_version current)))
       else if snap_expires_at current \<le> now
       then Inl (Persistence_invariant ''workflow task retention has expired'')
       else if now < snap_updated_at current
       then Inl (Persistence_invariant ''task command timestamp is stale'')
       else Inr (current, now)))"

definition svc_commit ::
  "'st repo \<Rightarrow> owner \<Rightarrow> int \<Rightarrow> intent option \<Rightarrow> 'st \<Rightarrow> snapshot \<Rightarrow> task_error + (snapshot \<times> 'st)" where
  "svc_commit R w v i st updated = rbind (r_cas R updated w v i st) (\<lambda>st'. Inr (updated, st'))"

text \<open>\<open>latest_run_id or task_id\<close>, the prefix of checkpoint references.\<close>

definition run_or_task :: "snapshot \<Rightarrow> string \<Rightarrow> string" where
  "run_or_task s tid = (case snap_latest_run_id s of
       None \<Rightarrow> tid | Some r \<Rightarrow> if r = [] then tid else r)"

subsection \<open>Creation\<close>

definition new_snapshot ::
  "goal \<Rightarrow> owner \<Rightarrow> instant \<Rightarrow> string option \<Rightarrow> string option \<Rightarrow> string option \<Rightarrow> bool \<Rightarrow> snapshot" where
  "new_snapshot g w now run_id sha conv web = \<lparr>snap_goal = g, snap_owner = w,
     snap_creation_sha = sha, snap_conversation_id = conv, snap_allow_web = web, snap_version = 1,
     snap_phase = Active, snap_questions = [], snap_assessments = [], snap_latest_run_id = run_id,
     snap_latest_run_revision = (if run_id = None \<or> run_id = Some [] then None else Some 1),
     snap_usage = zero_usage, snap_created_at = now, snap_updated_at = now,
     snap_expires_at = now + days 90\<rparr>"

definition svc_create ::
  "'st repo \<Rightarrow> goal \<Rightarrow> owner \<Rightarrow> clock \<Rightarrow> string option \<Rightarrow> string option \<Rightarrow> string option \<Rightarrow> bool \<Rightarrow> 'st
     \<Rightarrow> task_error + (snapshot \<times> 'st)" where
  "svc_create R g w c run_id sha conv web st =
     rbind (aware_time c) (\<lambda>now.
       if goal_revision g \<noteq> 1
       then Inl (Persistence_invariant ''new tasks must start at goal revision one'')
       else rbind (compile_goal_requirements g None) (\<lambda>g'.
         let s = new_snapshot g' w now run_id sha conv web in
         if \<not> snapshot_ok s then Inl Validation_error
         else rbind (r_create R s st) (\<lambda>st'. Inr (s, st'))))"

subsection \<open>Resuming, renewing, failing\<close>

definition continue_intent :: "codec \<Rightarrow> snapshot \<Rightarrow> string \<Rightarrow> owner \<Rightarrow> instant \<Rightarrow> intent" where
  "continue_intent C current tid w now = \<lparr>int_kind = Continue,
     int_id = ''continue-'' @ sha256_hex C (tid @ '':'' @ decimal (goal_revision (snap_goal current))
                @ '':'' @ decimal (snap_version current)),
     int_task_id = tid, int_owner = w, int_goal_revision = goal_revision (snap_goal current),
     int_snapshot_version = snap_version current + 1, int_question_id = None,
     int_checkpoint_ref = run_or_task current tid @ '':'' @ snapshot_digest C current,
     int_created_at = now\<rparr>"

definition svc_request_resume ::
  "codec \<Rightarrow> 'st repo \<Rightarrow> string \<Rightarrow> owner \<Rightarrow> int \<Rightarrow> clock \<Rightarrow> 'st \<Rightarrow> task_error + (intent \<times> 'st)" where
  "svc_request_resume C R tid w expected c st =
     rbind (svc_current R tid w expected c st) (\<lambda>(current, now).
       if (snap_phase current \<noteq> Active \<and> snap_phase current \<noteq> Paused)
          \<or> blocked (snap_questions current) (goal_revision (snap_goal current))
       then Inl (Persistence_invariant ''task cannot continue with unanswered required questions'')
       else rbind (changed current now (snap_phase_update (\<lambda>_. Active))) (\<lambda>updated.
         let i = continue_intent C current tid w now in
         if \<not> intent_ok i then Inl Validation_error
         else rbind (r_cas R updated w (snap_version current) (Some i) st) (\<lambda>st'. Inr (i, st'))))"

text \<open>One expired question of the current goal is superseded and asked again.\<close>

definition renewable :: "snapshot \<Rightarrow> instant \<Rightarrow> qstate \<Rightarrow> bool" where
  "renewable s now i \<longleftrightarrow> \<not> (q_goal_revision (qs_request i) \<noteq> goal_revision (snap_goal s)
     \<or> (qs_status i \<noteq> Pending \<and> qs_status i \<noteq> Expired) \<or> now < q_expires_at (qs_request i))"

definition renewal_lifetime :: "qstate \<Rightarrow> int" where
  "renewal_lifetime i =
     min (max (case qs_asked_at i of None \<Rightarrow> days 1 | Some t \<Rightarrow> q_expires_at (qs_request i) - t)
              (seconds 1)) (days 7)"

definition renewed_request :: "codec \<Rightarrow> snapshot \<Rightarrow> string \<Rightarrow> instant \<Rightarrow> qstate \<Rightarrow> question" where
  "renewed_request C s tid now i =
     (let identity = sha256_hex C (q_id (qs_request i) @ '':'' @ decimal (snap_version s)) in
      (qs_request i)\<lparr>q_id := ''q-renew-'' @ take 32 identity, q_dedupe_key := identity,
        q_checkpoint_ref := run_or_task s tid @ '':'' @ snapshot_digest C s,
        q_expires_at := min (now + renewal_lifetime i) (snap_expires_at s)\<rparr>)"

fun renew_loop ::
  "codec \<Rightarrow> snapshot \<Rightarrow> string \<Rightarrow> instant \<Rightarrow> qstate list \<Rightarrow> task_error + (qstate list \<times> qstate list)" where
  "renew_loop C s tid now [] = Inr ([], [])"
| "renew_loop C s tid now (i # is) =
     (if \<not> renewable s now i
      then rbind (renew_loop C s tid now is) (\<lambda>(kept, renewed). Inr (i # kept, renewed))
      else if \<not> question_ok (renewed_request C s tid now i) then Inl Validation_error
      else rbind (renew_loop C s tid now is) (\<lambda>(kept, renewed).
             Inr (bare_qstate (qs_request i) (qs_asked_at i) Superseded # kept,
                  bare_qstate (renewed_request C s tid now i) (Some now) Pending # renewed)))"

definition svc_renew_expired ::
  "codec \<Rightarrow> 'st repo \<Rightarrow> string \<Rightarrow> owner \<Rightarrow> int \<Rightarrow> clock \<Rightarrow> 'st \<Rightarrow> task_error + (snapshot \<times> 'st)" where
  "svc_renew_expired C R tid w expected c st =
     rbind (svc_current R tid w expected c st) (\<lambda>(current, now).
       if snap_phase current \<noteq> Paused \<and> snap_phase current \<noteq> Waiting_for_input
       then Inl (Persistence_invariant ''question renewal requires a waiting or paused task'')
       else rbind (renew_loop C current tid now (snap_questions current)) (\<lambda>(kept, renewed).
         if renewed = [] then Inr (current, st)
         else rbind (changed current now (\<lambda>s. s\<lparr>snap_questions := kept @ renewed,
                       snap_phase := Waiting_for_input\<rparr>))
                (svc_commit R w (snap_version current) None st)))"

definition svc_record_failed_run ::
  "'st repo \<Rightarrow> string \<Rightarrow> string \<Rightarrow> owner \<Rightarrow> clock \<Rightarrow> 'st \<Rightarrow> task_error + (snapshot \<times> 'st)" where
  "svc_record_failed_run R tid run_id w c st =
     rbind (svc_get R tid w st) (\<lambda>current.
       if snap_latest_run_id current \<noteq> Some run_id \<or> terminal_phase (snap_phase current)
          \<or> snap_latest_run_revision current \<noteq> Some (goal_revision (snap_goal current))
          \<or> (snap_phase current = Paused \<and> bu_tokens (snap_usage current) = None)
       then Inr (current, st)
       else case c of Naive \<Rightarrow> Inl Validation_error
            | Aware now \<Rightarrow>
                rbind (changed current now (\<lambda>s. s\<lparr>snap_usage := (snap_usage s)\<lparr>bu_tokens := None,
                         bu_unknown_model_calls := bu_unknown_model_calls (snap_usage s) + 1\<rparr>,
                       snap_phase := Paused\<rparr>))
                  (svc_commit R w (snap_version current) None st))"

subsection \<open>Questions and answers\<close>

definition svc_ask ::
  "'st repo \<Rightarrow> string \<Rightarrow> question \<Rightarrow> owner \<Rightarrow> int \<Rightarrow> clock \<Rightarrow> 'st \<Rightarrow> task_error + (snapshot \<times> 'st)" where
  "svc_ask R tid q w expected c st =
     rbind (svc_current R tid w expected c st) (\<lambda>(current, now).
     rbind (reduce_question current q now) (\<lambda>updated.
       if updated = current then Inr (updated, st)
       else svc_commit R w expected None st updated))"

text \<open>
  The retry loop of \<open>answer\<close>. Other writers may run between a read and its compare-and-swap:
  \<open>other n\<close> is their effect on the store during attempt \<open>n\<close>. Only a version conflict is retried.
\<close>

fun svc_answer_loop ::
  "codec \<Rightarrow> 'st repo \<Rightarrow> (nat \<Rightarrow> 'st \<Rightarrow> 'st) \<Rightarrow> (nat \<Rightarrow> string) \<Rightarrow> string \<Rightarrow> typed_answer \<Rightarrow> owner \<Rightarrow> instant
     \<Rightarrow> nat \<Rightarrow> int \<Rightarrow> 'st \<Rightarrow> task_error + (submission \<times> 'st)" where
  "svc_answer_loop C R other fresh tid a w now 0 seen st =
     Inl (Persistence_conflict ''workflow_task'' tid seen None)"
| "svc_answer_loop C R other fresh tid a w now (Suc n) seen st =
     rbind (svc_get R tid w st) (\<lambda>current.
       if snap_expires_at current \<le> now \<or> now < snap_updated_at current
       then Inl (Persistence_invariant ''workflow task timestamp or retention is invalid'')
       else rbind (reduce_answer C current a now (''resume-'' @ fresh n)) (\<lambda>result.
         if sub_replayed result then Inr (result, st)
         else case r_cas R (sub_snapshot result) w (snap_version current) (sub_intent result) (other n st) of
                Inr st' \<Rightarrow> Inr (result, st')
              | Inl (Persistence_conflict _ _ _ _) \<Rightarrow>
                  svc_answer_loop C R other fresh tid a w now n (snap_version current) (other n st)
              | Inl e \<Rightarrow> Inl e))"

definition svc_answer ::
  "codec \<Rightarrow> 'st repo \<Rightarrow> (nat \<Rightarrow> 'st \<Rightarrow> 'st) \<Rightarrow> (nat \<Rightarrow> string) \<Rightarrow> string \<Rightarrow> typed_answer \<Rightarrow> owner \<Rightarrow> clock
     \<Rightarrow> 'st \<Rightarrow> task_error + (submission \<times> 'st)" where
  "svc_answer C R other fresh tid a w c st =
     rbind (aware_time c) (\<lambda>now. svc_answer_loop C R other fresh tid a w now 8 0 st)"

text \<open>\<open>pending\<close> questions past their expiry become \<open>expired\<close>; nothing is written if there is none.\<close>

definition expire_question :: "instant \<Rightarrow> qstate \<Rightarrow> qstate" where
  "expire_question now q = (if qs_status q = Pending \<and> q_expires_at (qs_request q) \<le> now
     then bare_qstate (qs_request q) (qs_asked_at q) Expired else q)"

definition svc_expire_questions ::
  "'st repo \<Rightarrow> string \<Rightarrow> owner \<Rightarrow> int \<Rightarrow> clock \<Rightarrow> 'st \<Rightarrow> task_error + (snapshot \<times> 'st)" where
  "svc_expire_questions R tid w expected c st =
     rbind (svc_current R tid w expected c st) (\<lambda>(current, now).
       let questions = map (expire_question now) (snap_questions current) in
       if questions = snap_questions current then Inr (current, st)
       else rbind (changed current now (\<lambda>s. s\<lparr>snap_questions := questions\<rparr>))
              (svc_commit R w expected None st))"

subsection \<open>Goals and assessments\<close>

definition supersede_question :: "qstate \<Rightarrow> qstate" where
  "supersede_question q = (if qs_status q = Pending \<or> qs_status q = Expired
     then bare_qstate (qs_request q) (qs_asked_at q) Superseded else q)"

definition svc_revise_goal ::
  "'st repo \<Rightarrow> string \<Rightarrow> goal \<Rightarrow> owner \<Rightarrow> int \<Rightarrow> clock \<Rightarrow> 'st \<Rightarrow> task_error + (snapshot \<times> 'st)" where
  "svc_revise_goal R tid g w expected c st =
     rbind (svc_current R tid w expected c st) (\<lambda>(current, now).
       if terminal_phase (snap_phase current) \<or> goal_task_id g \<noteq> tid
          \<or> goal_revision g \<noteq> goal_revision (snap_goal current) + 1
       then Inl (Persistence_invariant ''goal revision must advance an unfinished task by one'')
       else rbind (compile_goal_requirements g (Some (snap_goal current))) (\<lambda>g'.
         rbind (changed current now (\<lambda>s. s\<lparr>snap_goal := g',
                  snap_questions := map supersede_question (snap_questions s),
                  snap_assessments := [],
                  snap_phase := (if snap_phase s = Waiting_for_input then Active else snap_phase s)\<rparr>))
           (svc_commit R w expected None st)))"

text \<open>
  \<open>{"source_support": \<dots>, "verified_tool": \<dots>, "answer_coverage": \<dots>}[criterion.verifier]\<close>:
  the lookup has no entry for \<open>grounded_analysis\<close>.
\<close>

fun verification_basis :: "criterion \<Rightarrow> task_error + bool" where
  "verification_basis c = (case crit_verifier c of
       Source_support \<Rightarrow> Inr (crit_query c \<noteq> None)
     | Verified_tool \<Rightarrow> Inr (crit_tool_step_id c \<noteq> None)
     | Answer_coverage \<Rightarrow> Inr (crit_expected_text c \<noteq> None)
     | Grounded_analysis \<Rightarrow> Inl (Key_error ''grounded_analysis''))"

declare verification_basis.simps [simp del]

text \<open>The messages of the three rejections, which \<open>assess\<close> and \<open>apply_update\<close> word differently.\<close>

record assess_messages =
  msg_unbound :: string
  msg_unverified :: string
  msg_no_basis :: string

definition assess_wording :: assess_messages where
  "assess_wording = \<lparr>msg_unbound = ''assessment must bind its current goal criterion'',
     msg_unverified = ''assessment includes an unverified proof reference'',
     msg_no_basis = ''criterion without verification basis must remain unassessed''\<rparr>"

definition update_wording :: assess_messages where
  "update_wording = \<lparr>msg_unbound = ''task assessment is not bound to its criterion'',
     msg_unverified = ''task assessment references unverified proof'',
     msg_no_basis = ''criterion without a verification basis remains unassessed''\<rparr>"

definition check_assessment ::
  "assess_messages \<Rightarrow> goal \<Rightarrow> string list \<Rightarrow> assessment \<Rightarrow> task_error + unit" where
  "check_assessment msgs g verified a =
     (case find (\<lambda>c. crit_id c = as_criterion_id a) (goal_criteria g) of
        None \<Rightarrow> Inl (Persistence_invariant (msg_unbound msgs))
      | Some crit \<Rightarrow>
          if as_verifier a \<noteq> crit_verifier crit \<or> as_goal_revision a \<noteq> goal_revision g
          then Inl (Persistence_invariant (msg_unbound msgs))
          else if as_status a \<noteq> Satisfied then Inr ()
          else if \<not> set (as_proof_refs a) \<subseteq> set verified
          then Inl (Persistence_invariant (msg_unverified msgs))
          else rbind (verification_basis crit) (\<lambda>basis.
                 if \<not> basis then Inl (Persistence_invariant (msg_no_basis msgs)) else Inr ()))"

fun merge_assessments ::
  "assess_messages \<Rightarrow> goal \<Rightarrow> string list \<Rightarrow> assessment list \<Rightarrow> assessment list
     \<Rightarrow> task_error + assessment list" where
  "merge_assessments msgs g verified [] merged = Inr merged"
| "merge_assessments msgs g verified (a # as) merged =
     rbind (check_assessment msgs g verified a) (\<lambda>_.
       merge_assessments msgs g verified as (dict_put as_criterion_id a merged))"

definition svc_assess ::
  "'st repo \<Rightarrow> string \<Rightarrow> assessment list \<Rightarrow> owner \<Rightarrow> int \<Rightarrow> clock \<Rightarrow> string list \<Rightarrow> 'st
     \<Rightarrow> task_error + (snapshot \<times> 'st)" where
  "svc_assess R tid as w expected c verified st =
     rbind (svc_current R tid w expected c st) (\<lambda>(current, now).
       if snap_phase current \<noteq> Active
       then Inl (Persistence_invariant ''only active tasks can accept verifier results'')
       else rbind (merge_assessments assess_wording (snap_goal current) verified as
                     (snap_assessments current)) (\<lambda>merged.
         rbind (changed current now (snap_assessments_update (\<lambda>_. merged)))
           (svc_commit R w expected None st)))"

subsection \<open>Phases and runs\<close>

fun allowed_phase :: "task_phase \<Rightarrow> task_phase \<Rightarrow> bool" where
  "allowed_phase Active p = (p \<in> {Paused, Complete, Failed, Cancelled})"
| "allowed_phase Waiting_for_input p = (p \<in> {Paused, Failed, Cancelled})"
| "allowed_phase Paused p = (p \<in> {Active, Waiting_for_input, Cancelled})"
| "allowed_phase _ p = False"

definition svc_transition ::
  "'st repo \<Rightarrow> string \<Rightarrow> task_phase \<Rightarrow> owner \<Rightarrow> int \<Rightarrow> clock \<Rightarrow> 'st \<Rightarrow> task_error + (snapshot \<times> 'st)" where
  "svc_transition R tid phase w expected c st =
     rbind (svc_current R tid w expected c st) (\<lambda>(current, now).
       if \<not> allowed_phase (snap_phase current) phase
       then Inl (Persistence_invariant ''invalid workflow task phase transition'')
       else if phase = Active \<and> blocked (snap_questions current) (goal_revision (snap_goal current))
       then Inl (Persistence_invariant ''unanswered required questions prevent task resumption'')
       else if phase = Complete \<and> \<not> required_satisfied (snap_goal current) (snap_assessments current)
       then Inl (Persistence_invariant ''all required criteria need verification before completion'')
       else rbind (changed current now (snap_phase_update (\<lambda>_. phase)))
              (svc_commit R w expected None st))"

text \<open>Usage accumulates; tokens are unknown as soon as either part is.\<close>

definition add_usage :: "usage \<Rightarrow> usage \<Rightarrow> usage" where
  "add_usage p d = \<lparr>bu_model_calls = bu_model_calls p + bu_model_calls d,
     bu_retrieval_calls = bu_retrieval_calls p + bu_retrieval_calls d,
     bu_tool_calls = bu_tool_calls p + bu_tool_calls d,
     bu_tokens = (case (bu_tokens p, bu_tokens d) of (Some m, Some n) \<Rightarrow> Some (m + n) | _ \<Rightarrow> None),
     bu_unknown_model_calls = bu_unknown_model_calls p + bu_unknown_model_calls d,
     bu_active_seconds = bu_active_seconds p + bu_active_seconds d\<rparr>"

definition svc_bind_run ::
  "'st repo \<Rightarrow> string \<Rightarrow> string \<Rightarrow> owner \<Rightarrow> int \<Rightarrow> clock \<Rightarrow> usage option \<Rightarrow> 'st
     \<Rightarrow> task_error + (snapshot \<times> 'st)" where
  "svc_bind_run R tid run_id w expected c delta st =
     rbind (svc_current R tid w expected c st) (\<lambda>(current, now).
       if terminal_phase (snap_phase current)
       then Inl (Persistence_invariant ''terminal task cannot bind another run'')
       else let u = add_usage (snap_usage current) (case delta of None \<Rightarrow> zero_usage | Some d \<Rightarrow> d) in
         if \<not> usage_ok u then Inl Validation_error
         else rbind (changed current now (\<lambda>s. s\<lparr>snap_latest_run_id := Some run_id,
                       snap_latest_run_revision := Some (goal_revision (snap_goal s)),
                       snap_usage := u\<rparr>))
                (svc_commit R w expected None st))"

subsection \<open>Committing a run's update\<close>

definition drafted_question ::
  "codec \<Rightarrow> snapshot \<Rightarrow> string \<Rightarrow> question_draft \<Rightarrow> instant \<Rightarrow> question" where
  "drafted_question C s run_id d now =
     (let identity = sha256_hex C (json_of_fields C (draft_fields d)) in
      \<lparr>q_id = ''q-'' @ decimal (goal_revision (snap_goal s)) @ ''-'' @ take 32 identity,
       q_task_id = goal_task_id (snap_goal s), q_goal_revision = goal_revision (snap_goal s),
       q_stage = draft_stage d, q_fields = draft_fields d, q_blocking = True,
       q_affected = draft_affected d,
       q_expires_at = min (now + seconds (draft_wait_seconds d)) (snap_expires_at s),
       q_dedupe_key = identity, q_checkpoint_ref = run_id @ '':'' @ snapshot_digest C s\<rparr>)"

text \<open>Questions and phase after the update: the question's projection, or the reported phase.\<close>

definition project_update ::
  "codec \<Rightarrow> snapshot \<Rightarrow> string \<Rightarrow> task_update \<Rightarrow> instant \<Rightarrow> task_error + (qstate list \<times> task_phase)" where
  "project_update C current run_id u now =
     (case upd_question u of
        Some d \<Rightarrow>
          let q = drafted_question C current run_id d now in
          if \<not> question_ok q then Inl Validation_error
          else rbind (reduce_question current q now) (\<lambda>projected.
                 Inr (snap_questions projected, snap_phase projected))
      | None \<Rightarrow>
          if upd_phase u = Waiting_for_input
          then Inl (Persistence_invariant ''waiting task update requires a question'')
          else Inr (snap_questions current, upd_phase u))"

definition svc_apply_update ::
  "codec \<Rightarrow> 'st repo \<Rightarrow> task_update \<Rightarrow> owner \<Rightarrow> clock \<Rightarrow> string \<Rightarrow> string \<Rightarrow> 'st
     \<Rightarrow> task_error + (snapshot \<times> 'st)" where
  "svc_apply_update C R u w c run_id expected_sha st =
     rbind (svc_current R (upd_task_id u) w (upd_expected_version u) c st) (\<lambda>(current, now).
       if snapshot_digest C current \<noteq> expected_sha
          \<or> goal_revision (snap_goal current) \<noteq> upd_goal_revision u
       then Inl (Persistence_invariant ''task update does not match the frozen execution snapshot'')
       else if snap_phase current \<noteq> Active \<or> snap_latest_run_id current \<noteq> Some run_id
       then Inl (Persistence_invariant ''task update does not own the active run'')
       else rbind (merge_assessments update_wording (snap_goal current) (upd_verified_refs u)
                     (upd_assessments u) (snap_assessments current)) (\<lambda>merged.
         let usage = add_usage (snap_usage current) (upd_usage_delta u) in
         if \<not> usage_ok usage then Inl Validation_error
         else rbind (project_update C current run_id u now) (\<lambda>(questions, phase).
           rbind (changed current now (\<lambda>s. s\<lparr>snap_assessments := merged, snap_usage := usage,
                    snap_questions := questions, snap_phase := phase\<rparr>))
             (svc_commit R w (snap_version current) None st))))"

end
