(* ===== verification/Task_Histories.thy ===== *)
theory Task_Histories
  imports Task_Store Task_Service
begin

text \<open>
  What every command of the task service guarantees, over any repository that meets the contract:
  each successful command replaces at most one snapshot, by one that evolves from it, and keeps
  the task invariant (an active task has no unanswered blocking question of its current goal; a
  complete task has every required criterion verified). Commands are the rules of one step
  relation; histories are its reflexive transitive closure.
\<close>

subsection \<open>The task invariant\<close>

definition active_unblocked :: "snapshot \<Rightarrow> bool" where
  "active_unblocked s \<longleftrightarrow>
     (snap_phase s = Active \<longrightarrow> \<not> blocked (snap_questions s) (goal_revision (snap_goal s)))"

text \<open>
  Every satisfied assessment belongs to a criterion of the current goal revision, comes from that
  criterion's own verifier, and the criterion states what the verifier checks.
\<close>

definition assessment_based :: "goal \<Rightarrow> assessment \<Rightarrow> bool" where
  "assessment_based g a \<longleftrightarrow> (as_status a = Satisfied \<longrightarrow>
     (\<exists>c \<in> set (goal_criteria g). crit_id c = as_criterion_id a \<and> crit_verifier c = as_verifier a
        \<and> as_goal_revision a = goal_revision g \<and> verification_basis c = Inr True))"

definition assessments_based :: "snapshot \<Rightarrow> bool" where
  "assessments_based s \<longleftrightarrow> (\<forall>a \<in> set (snap_assessments s). assessment_based (snap_goal s) a)"

definition command_inv :: "snapshot \<Rightarrow> bool" where
  "command_inv s \<longleftrightarrow> active_unblocked s \<and> assessments_based s"

definition task_inv :: "snapshot \<Rightarrow> bool" where
  "task_inv s \<longleftrightarrow> command_inv s \<and> completion_proved s"

definition newly_created :: "snapshot \<Rightarrow> bool" where
  "newly_created s \<longleftrightarrow> snap_version s = 1 \<and> snap_phase s = Active \<and> snap_questions s = []
     \<and> snap_assessments s = []"

definition store_advances :: "('st \<Rightarrow> string \<Rightarrow> snapshot option) \<Rightarrow> 'st \<Rightarrow> 'st \<Rightarrow> bool" where
  "store_advances view st st' \<longleftrightarrow> (\<forall>tid. case view st tid of
       None \<Rightarrow> (\<forall>upd. view st' tid = Some upd \<longrightarrow> newly_created upd)
     | Some cur \<Rightarrow> (\<exists>upd. view st' tid = Some upd \<and> evolves cur upd \<and> (task_inv cur \<longrightarrow> task_inv upd)))"

definition store_inv :: "('st \<Rightarrow> string \<Rightarrow> snapshot option) \<Rightarrow> 'st \<Rightarrow> bool" where
  "store_inv view st \<longleftrightarrow> (\<forall>tid s. view st tid = Some s \<longrightarrow> task_inv s)"

lemma newly_created_inv: "newly_created s \<Longrightarrow> task_inv s"
  by (simp add: newly_created_def task_inv_def command_inv_def active_unblocked_def
      assessments_based_def completion_proved_def)

lemma store_advances_refl [simp]: "store_advances view st st"
  by (simp add: store_advances_def split: option.splits)

lemma store_advances_SomeD:
  "store_advances view st st' \<Longrightarrow> view st tid = Some cur \<Longrightarrow>
     \<exists>upd. view st' tid = Some upd \<and> evolves cur upd \<and> (task_inv cur \<longrightarrow> task_inv upd)"
  unfolding store_advances_def by (drule spec [of _ tid]) simp

lemma store_advances_evolves:
  "store_advances view st st' \<Longrightarrow> view st tid = Some cur \<Longrightarrow>
     \<exists>upd. view st' tid = Some upd \<and> evolves cur upd"
  by (blast dest: store_advances_SomeD)

lemma store_advances_NoneD:
  "store_advances view st st' \<Longrightarrow> view st tid = None \<Longrightarrow> view st' tid = Some upd \<Longrightarrow> newly_created upd"
  unfolding store_advances_def by (drule spec [of _ tid]) simp

lemma store_advances_inv:
  assumes "store_advances view st st'" and "store_inv view st"
  shows "store_inv view st'"
  unfolding store_inv_def
proof (intro allI impI)
  fix tid upd assume upd: "view st' tid = Some upd"
  show "task_inv upd"
  proof (cases "view st tid")
    case None
    then show ?thesis using store_advances_NoneD [OF assms(1) _ upd] newly_created_inv by blast
  next
    case (Some cur)
    with store_advances_SomeD [OF assms(1) Some] assms(2) upd show ?thesis
      by (auto simp: store_inv_def)
  qed
qed

lemma task_inv_complete:
  assumes "task_inv s" and "snapshot_ok s" and "snap_phase s = Complete"
    and c: "c \<in> set (goal_criteria (snap_goal s))" "crit_required c"
  shows "\<exists>a \<in> set (snap_assessments s). as_criterion_id a = crit_id c \<and> as_status a = Satisfied
     \<and> as_goal_revision a = goal_revision (snap_goal s) \<and> as_verifier a = crit_verifier c
     \<and> verification_basis c = Inr True"
proof -
  from assms(1,3) have "required_satisfied (snap_goal s) (snap_assessments s)"
    and based: "assessments_based s"
    by (auto simp: task_inv_def completion_proved_def command_inv_def)
  with c obtain a where a: "a \<in> set (snap_assessments s)" "as_criterion_id a = crit_id c"
    "as_status a = Satisfied" "as_goal_revision a = goal_revision (snap_goal s)"
    by (auto simp: required_satisfied_def required_ids_def satisfied_ids_def subset_iff image_iff)
  with based obtain c' where c': "c' \<in> set (goal_criteria (snap_goal s))" "crit_id c' = as_criterion_id a"
    "crit_verifier c' = as_verifier a" "verification_basis c' = Inr True"
    by (auto simp: assessments_based_def assessment_based_def)
  from assms(2) have "distinct (map crit_id (goal_criteria (snap_goal s)))"
    by (simp add: snapshot_ok_def goal_ok_def)
  with c(1) c'(1,2) a(2) have "c' = c" by (auto simp: distinct_map dest: inj_onD)
  with a c' show ?thesis by auto
qed

subsection \<open>What the reducers keep\<close>

lemma blocked_map_mono:
  assumes "\<And>q. blocks r (f q) \<Longrightarrow> blocks r q" and "blocked (map f qs) r"
  shows "blocked qs r"
  using assms(2) by (induction qs) (auto dest: assms(1))

lemma active_unblocked_reduce_question:
  "reduce_question s q now = Inr s' \<Longrightarrow> active_unblocked s \<Longrightarrow> active_unblocked s'"
  by (erule reduce_questionE) (auto simp: active_unblocked_def asked_snapshot_def)

lemma active_unblocked_reduce_answer:
  assumes "reduce_answer C s a now iid = Inr r" and "active_unblocked s"
  shows "active_unblocked (sub_snapshot r)"
  using assms(1)
proof (cases rule: reduce_answerE)
  case replayed
  with assms(2) show ?thesis by (simp add: replayed_submission_def)
next
  case (fresh item)
  let ?new = "answered_qstate C item a now"
  have nb: "\<not> blocks r (?new\<lparr>qs_resume_intent_id := x\<rparr>)" for r x by (simp add: blocks_def)
  have same: "blocked (replace_question (ans_question_id a) (?new\<lparr>qs_resume_intent_id := x\<rparr>) qs) r
      \<longleftrightarrow> blocked (replace_question (ans_question_id a) ?new qs) r" for x qs r
    by (simp add: blocked_replace nb)
  have "sub_snapshot r = answered_snapshot C s item a now iid"
    using commit_answerE(1) [OF fresh(2)] answers_itemD [OF fresh(1)] by simp
  then show ?thesis
    using assms(2) blocked_replace_answered [of _ ?new]
    by (auto simp: active_unblocked_def answered_snapshot_def Let_def same resumes_def)
qed

lemma blocks_supersede: "\<not> blocks r (supersede_question q)"
  by (auto simp: supersede_question_def blocks_def)

lemma blocked_supersede: "\<not> blocked (map supersede_question qs) r"
  by (induction qs) (auto simp: blocks_supersede)

lemma blocks_expire: "blocks r (expire_question now q) \<longleftrightarrow> blocks r q"
  by (auto simp: expire_question_def blocks_def)

lemma blocked_expire: "blocked (map (expire_question now) qs) r \<longleftrightarrow> blocked qs r"
  by (induction qs) (auto simp: blocks_expire)

lemma compile_goal_task_id:
  "compile_goal_requirements g p = Inr g' \<Longrightarrow>
     goal_task_id g' = goal_task_id g \<and> goal_revision g' = goal_revision g \<and> goal_ok g'
     \<and> goal_objective g' = goal_objective g"
  by (auto simp: compile_goal_requirements_def validated_goal_def Let_def split: if_splits)

lemma project_update_unblocked:
  assumes "project_update C s run_id u now = Inr (qs, p)" and "active_unblocked s" and "snap_phase s = Active"
    and "snapshot_ok s"
  shows "p = Active \<Longrightarrow> \<not> blocked qs (goal_revision (snap_goal s))"
proof (cases "upd_question u")
  case None
  then show "p = Active \<Longrightarrow> \<not> blocked qs (goal_revision (snap_goal s))"
    using assms by (auto simp: project_update_def active_unblocked_def split: if_splits)
next
  case (Some d)
  with assms(1) obtain s' where s': "reduce_question s (drafted_question C s run_id d now) now = Inr s'"
    "qs = snap_questions s'" "p = snap_phase s'"
    by (auto simp: project_update_def Let_def split: if_splits)
  have "snap_goal s' = snap_goal s"
    using s'(1) by (cases rule: reduce_questionE) (auto simp: asked_snapshot_def)
  with active_unblocked_reduce_question [OF s'(1) assms(2)] s'
  show "p = Active \<Longrightarrow> \<not> blocked qs (goal_revision (snap_goal s))"
    by (simp add: active_unblocked_def)
qed

text \<open>Merging checked assessments keeps each one based.\<close>

lemma check_assessment_based: "check_assessment msgs g verified a = Inr () \<Longrightarrow> assessment_based g a"
  by (auto simp: check_assessment_def assessment_based_def dest!: find_SomeD split: option.splits if_splits)

lemma merge_assessments_based:
  assumes "merge_assessments msgs g verified as merged = Inr merged'"
    and "\<forall>a \<in> set merged. assessment_based g a"
  shows "\<forall>a \<in> set merged'. assessment_based g a"
  using assms
proof (induction msgs g verified as merged rule: merge_assessments.induct)
  case (2 msgs g verified a as merged)
  from 2(2) have "check_assessment msgs g verified a = Inr ()"
    and "merge_assessments msgs g verified as (dict_put as_criterion_id a merged) = Inr merged'" by auto
  then show ?case
    using 2(1) [OF \<open>check_assessment msgs g verified a = Inr ()\<close>] 2(3) check_assessment_based
      set_dict_put [of as_criterion_id a merged] by blast
qed simp

text \<open>Commands that leave goal and assessments alone only have questions and phase to answer for.\<close>

lemma command_inv_same:
  "snap_goal s' = snap_goal s \<Longrightarrow> snap_assessments s' = snap_assessments s \<Longrightarrow>
     (active_unblocked s \<Longrightarrow> active_unblocked s') \<Longrightarrow> command_inv s \<Longrightarrow> command_inv s'"
  by (simp add: command_inv_def assessments_based_def)

lemma command_inv_changed:
  "command_inv (s\<lparr>snap_version := v, snap_updated_at := t\<rparr>) = command_inv s"
  by (simp add: command_inv_def assessments_based_def active_unblocked_def)

lemma command_inv_reduce_question:
  assumes "reduce_question s q now = Inr s'" and "command_inv s"
  shows "command_inv s'"
proof (rule command_inv_same [OF _ _ _ assms(2)])
  show "snap_goal s' = snap_goal s" "snap_assessments s' = snap_assessments s"
    using assms(1) by (cases rule: reduce_questionE; simp add: asked_snapshot_def)+
qed (rule active_unblocked_reduce_question [OF assms(1)])

lemma command_inv_reduce_answer:
  assumes "reduce_answer C s a now iid = Inr r" and "command_inv s"
  shows "command_inv (sub_snapshot r)"
proof (rule command_inv_same [OF _ _ _ assms(2)])
  have "snap_goal (sub_snapshot r) = snap_goal s \<and> snap_assessments (sub_snapshot r) = snap_assessments s"
    using assms(1)
  proof (cases rule: reduce_answerE)
    case (fresh item)
    with commit_answerE(1) [OF fresh(2)] answers_itemD(2) [OF fresh(1)] show ?thesis
      by (simp add: answered_snapshot_def Let_def)
  qed (simp add: replayed_submission_def)
  then show "snap_goal (sub_snapshot r) = snap_goal s"
    and "snap_assessments (sub_snapshot r) = snap_assessments s" by simp_all
qed (rule active_unblocked_reduce_answer [OF assms(1)])

lemma command_inv_unblocked:
  "snap_goal s' = snap_goal s \<Longrightarrow> snap_assessments s' = snap_assessments s \<Longrightarrow>
     (snap_phase s' = Active \<Longrightarrow> \<not> blocked (snap_questions s') (goal_revision (snap_goal s))) \<Longrightarrow>
     command_inv s \<Longrightarrow> command_inv s'"
  by (simp add: command_inv_def assessments_based_def active_unblocked_def)

subsection \<open>Commands as steps\<close>

text \<open>
  One rule per command. \<open>answer\<close> appears without interference inside its retry loop: interleaved
  commands of other writers are further steps, and a read made before them is justified by
  \<open>stale_read_is_current\<close> below.
\<close>

inductive service_step :: "codec \<Rightarrow> 'st repo \<Rightarrow> 'st \<Rightarrow> 'st \<Rightarrow> bool" for C :: codec and R :: "'st repo" where
  create: "svc_create R g w c run sha conv web st = Inr (s, st') \<Longrightarrow> service_step C R st st'"
| request_resume: "svc_request_resume C R tid w v c st = Inr (i, st') \<Longrightarrow> service_step C R st st'"
| renew: "svc_renew_expired C R tid w v c st = Inr (s, st') \<Longrightarrow> service_step C R st st'"
| failed_run: "svc_record_failed_run R tid run w c st = Inr (s, st') \<Longrightarrow> service_step C R st st'"
| ask: "question_ok q \<Longrightarrow> svc_ask R tid q w v c st = Inr (s, st') \<Longrightarrow> service_step C R st st'"
| answer: "answer_ok a \<Longrightarrow> svc_answer C R (\<lambda>_ x. x) fresh tid a w c st = Inr (r, st') \<Longrightarrow>
    service_step C R st st'"
| revise: "svc_revise_goal R tid g w v c st = Inr (s, st') \<Longrightarrow> service_step C R st st'"
| assess: "svc_assess R tid as w v c refs st = Inr (s, st') \<Longrightarrow> service_step C R st st'"
| transition: "svc_transition R tid p w v c st = Inr (s, st') \<Longrightarrow> service_step C R st st'"
| expire: "svc_expire_questions R tid w v c st = Inr (s, st') \<Longrightarrow> service_step C R st st'"
| bind_run: "svc_bind_run R tid run w v c d st = Inr (s, st') \<Longrightarrow> service_step C R st st'"
| apply_update: "svc_apply_update C R u w c run sha st = Inr (s, st') \<Longrightarrow> service_step C R st st'"

context task_repository
begin

lemma svc_get_law: "good st \<Longrightarrow> svc_get R tid w st = Inr s \<longleftrightarrow> view st tid = Some s \<and> snap_owner s = w"
  by (auto simp: svc_get_def get_law owned_by_def split: option.splits if_splits)

lemma svc_currentD:
  assumes "good st" and "svc_current R tid w v c st = Inr (cur, now)"
  shows "view st tid = Some cur" and "snap_owner cur = w" and "snap_version cur = v"
    and "c = Aware now" and "snap_updated_at cur \<le> now" and "now < snap_expires_at cur"
    and "goal_task_id (snap_goal cur) = tid"
  using assms view_id [OF assms(1)]
  by (auto simp: svc_current_def svc_get_law aware_time_def split: clock.splits)

text \<open>The single commit of a command.\<close>

lemma commit_advances:
  assumes g: "good st" and v: "view st tid = Some cur" and ok: "snapshot_ok upd"
    and tid: "goal_task_id (snap_goal upd) = tid" and au: "command_inv cur \<Longrightarrow> command_inv upd"
    and cas: "r_cas R upd w n i st = Inr st'"
  shows "good st' \<and> store_advances view st st'"
  using cas_law [OF g ok cas] v tid au
  by (auto simp: store_advances_def task_inv_def validate_swap_Inr_iff
      dest: swap_allowed_evolves swap_allowed_completion split: option.splits)

lemma svc_commit_advances:
  assumes "svc_commit R w n i st upd = Inr (r, st')" and "good st" and "view st tid = Some cur"
    and "snapshot_ok upd" and "goal_task_id (snap_goal upd) = tid"
    and "command_inv cur \<Longrightarrow> command_inv upd"
  shows "good st' \<and> store_advances view st st'"
  using assms commit_advances [of st tid cur upd w n i st'] by (auto simp: svc_commit_def)

lemma create_advances:
  assumes "good st" and "svc_create R g w c run sha conv web st = Inr (s, st')"
  shows "good st' \<and> store_advances view st st'"
proof -
  from assms(2) obtain g' now where s: "s = new_snapshot g' w now run sha conv web"
    "snapshot_ok s" "r_create R s st = Inr st'"
    by (auto simp: svc_create_def Let_def split: if_splits)
  then have "newly_created s" by (simp add: newly_created_def new_snapshot_def)
  with create_law [OF assms(1) s(2,3)] show ?thesis
    by (auto simp: store_advances_def split: option.splits)
qed

text \<open>A command that changes the current snapshot and commits it.\<close>

lemma command_advances:
  assumes g: "good st" and cur: "svc_current R tid w v c st = Inr (cur, now)"
    and upd: "changed cur now f = Inr upd"
    and tid: "goal_task_id (snap_goal (f cur)) = tid"
    and au: "command_inv cur \<Longrightarrow> command_inv (f cur)"
    and com: "svc_commit R w n i st upd = Inr (r, st')"
  shows "good st' \<and> store_advances view st st'"
proof -
  from upd have "snapshot_ok upd" and "goal_task_id (snap_goal upd) = tid"
    and "command_inv cur \<Longrightarrow> command_inv upd"
    using tid au by (auto simp: command_inv_def active_unblocked_def assessments_based_def)
  then show ?thesis
    by (rule svc_commit_advances [OF com g svc_currentD(1) [OF g cur]])
qed

lemma request_resume_advances:
  assumes g: "good st" and s: "svc_request_resume C R tid w v c st = Inr (i, st')"
  shows "good st' \<and> store_advances view st st'"
proof -
  from s obtain cur now upd where cur: "svc_current R tid w v c st = Inr (cur, now)"
    and nb: "\<not> blocked (snap_questions cur) (goal_revision (snap_goal cur))"
    and upd: "changed cur now (snap_phase_update (\<lambda>_. Active)) = Inr upd"
    and cas: "svc_commit R w (snap_version cur) (Some i) st upd = Inr (upd, st')"
    by (auto simp: svc_request_resume_def svc_commit_def Let_def simp del: changed_Inr_iff)
  from svc_currentD(7) [OF g cur] nb show ?thesis
    by (intro command_advances [OF g cur upd _ _ cas]) (simp_all add: command_inv_def active_unblocked_def assessments_based_def)
qed

lemma renew_advances:
  assumes g: "good st" and s: "svc_renew_expired C R tid w v c st = Inr (s, st')"
  shows "good st' \<and> store_advances view st st'"
proof -
  from s obtain cur now kept renewed where cur: "svc_current R tid w v c st = Inr (cur, now)"
    and cases: "st' = st \<or> (\<exists>upd. changed cur now (\<lambda>s. s\<lparr>snap_questions := kept @ renewed,
                       snap_phase := Waiting_for_input\<rparr>) = Inr upd
                \<and> svc_commit R w (snap_version cur) None st upd = Inr (s, st'))"
    by (fastforce simp: svc_renew_expired_def simp del: changed_Inr_iff split: if_splits)
  from cases show ?thesis
  proof (elim disjE exE conjE)
    assume "st' = st" with g show ?thesis by simp
  next
    fix upd assume upd: "changed cur now (\<lambda>s. s\<lparr>snap_questions := kept @ renewed,
        snap_phase := Waiting_for_input\<rparr>) = Inr upd"
      and com: "svc_commit R w (snap_version cur) None st upd = Inr (s, st')"
    show ?thesis using svc_currentD(7) [OF g cur]
      by (intro command_advances [OF g cur upd _ _ com]) (simp_all add: command_inv_def active_unblocked_def assessments_based_def)
  qed
qed

lemma failed_run_advances:
  assumes g: "good st" and s: "svc_record_failed_run R tid run w c st = Inr (s, st')"
  shows "good st' \<and> store_advances view st st'"
proof (cases "st' = st")
  case True with g show ?thesis by simp
next
  case False
  with s g obtain cur now upd where cur: "view st tid = Some cur" "snap_owner cur = w"
    and upd: "changed cur now (\<lambda>s. s\<lparr>snap_usage := (snap_usage s)\<lparr>bu_tokens := None,
                bu_unknown_model_calls := bu_unknown_model_calls (snap_usage s) + 1\<rparr>,
                snap_phase := Paused\<rparr>) = Inr upd"
    and com: "svc_commit R w (snap_version cur) None st upd = Inr (s, st')"
    by (auto simp: svc_record_failed_run_def svc_get_law simp del: changed_Inr_iff
        split: if_splits clock.splits)
  from upd view_id [OF g cur(1)] have "snapshot_ok upd" "goal_task_id (snap_goal upd) = tid"
    and "command_inv cur \<Longrightarrow> command_inv upd" by (auto simp: command_inv_def active_unblocked_def assessments_based_def)
  then show ?thesis by (rule svc_commit_advances [OF com g cur(1)])
qed

lemma ask_advances:
  assumes g: "good st" and s: "svc_ask R tid q w v c st = Inr (s, st')"
  shows "good st' \<and> store_advances view st st'"
proof (cases "st' = st")
  case True with g show ?thesis by simp
next
  case False
  with s obtain cur now upd where cur: "svc_current R tid w v c st = Inr (cur, now)"
    and red: "reduce_question cur q now = Inr upd" and neq: "upd \<noteq> cur"
    and com: "svc_commit R w v None st upd = Inr (s, st')"
    by (auto simp: svc_ask_def split: if_splits)
  from red neq have "snapshot_ok upd" "goal_task_id (snap_goal upd) = goal_task_id (snap_goal cur)"
    by (auto elim!: reduce_questionE simp: asked_snapshot_def)
  with svc_currentD(1,7) [OF g cur] command_inv_reduce_question [OF red] show ?thesis
    by (intro svc_commit_advances [OF com g svc_currentD(1) [OF g cur]]) simp_all
qed

lemma revise_advances:
  assumes g: "good st" and s: "svc_revise_goal R tid g' w v c st = Inr (s, st')"
  shows "good st' \<and> store_advances view st st'"
proof -
  from s obtain cur now g'' upd where cur: "svc_current R tid w v c st = Inr (cur, now)"
    and ph: "goal_task_id g' = tid" "goal_revision g' = goal_revision (snap_goal cur) + 1"
    and g'': "compile_goal_requirements g' (Some (snap_goal cur)) = Inr g''"
    and upd: "changed cur now (\<lambda>s. s\<lparr>snap_goal := g'',
                  snap_questions := map supersede_question (snap_questions s),
                  snap_assessments := [],
                  snap_phase := (if snap_phase s = Waiting_for_input then Active else snap_phase s)\<rparr>) = Inr upd"
    and com: "svc_commit R w v None st upd = Inr (s, st')"
    by (auto simp: svc_revise_goal_def simp del: changed_Inr_iff)
  from compile_goal_task_id [OF g''] ph show ?thesis
    by (intro command_advances [OF g cur upd _ _ com]) (simp_all add: command_inv_def active_unblocked_def assessments_based_def blocked_supersede)
qed

lemma assess_advances:
  assumes g: "good st" and s: "svc_assess R tid as w v c refs st = Inr (s, st')"
  shows "good st' \<and> store_advances view st st'"
proof -
  from s obtain cur now merged upd where cur: "svc_current R tid w v c st = Inr (cur, now)"
    and mrg: "merge_assessments assess_wording (snap_goal cur) refs as (snap_assessments cur) = Inr merged"
    and upd: "changed cur now (snap_assessments_update (\<lambda>_. merged)) = Inr upd"
    and com: "svc_commit R w v None st upd = Inr (s, st')"
    by (auto simp: svc_assess_def simp del: changed_Inr_iff)
  from svc_currentD(7) [OF g cur] merge_assessments_based [OF mrg] show ?thesis
    by (intro command_advances [OF g cur upd _ _ com]) (simp_all add: command_inv_def active_unblocked_def assessments_based_def)
qed

lemma transition_advances:
  assumes g: "good st" and s: "svc_transition R tid p w v c st = Inr (s, st')"
  shows "good st' \<and> store_advances view st st'"
proof -
  from s obtain cur now upd where cur: "svc_current R tid w v c st = Inr (cur, now)"
    and nb: "\<not> (p = Active \<and> blocked (snap_questions cur) (goal_revision (snap_goal cur)))"
    and upd: "changed cur now (snap_phase_update (\<lambda>_. p)) = Inr upd"
    and com: "svc_commit R w v None st upd = Inr (s, st')"
    by (auto simp: svc_transition_def simp del: changed_Inr_iff)
  from svc_currentD(7) [OF g cur] nb show ?thesis
    by (intro command_advances [OF g cur upd _ _ com]) (simp_all add: command_inv_def active_unblocked_def assessments_based_def)
qed

lemma expire_advances:
  assumes g: "good st" and s: "svc_expire_questions R tid w v c st = Inr (s, st')"
  shows "good st' \<and> store_advances view st st'"
proof (cases "st' = st")
  case True with g show ?thesis by simp
next
  case False
  with s obtain cur now upd where cur: "svc_current R tid w v c st = Inr (cur, now)"
    and upd: "changed cur now (\<lambda>s. s\<lparr>snap_questions := map (expire_question now) (snap_questions cur)\<rparr>) = Inr upd"
    and com: "svc_commit R w v None st upd = Inr (s, st')"
    by (auto simp: svc_expire_questions_def Let_def simp del: changed_Inr_iff split: if_splits)
  from svc_currentD(7) [OF g cur] show ?thesis
    by (intro command_advances [OF g cur upd _ _ com]) (simp_all add: command_inv_def active_unblocked_def assessments_based_def blocked_expire)
qed

lemma bind_run_advances:
  assumes g: "good st" and s: "svc_bind_run R tid run w v c d st = Inr (s, st')"
  shows "good st' \<and> store_advances view st st'"
proof -
  from s obtain cur now u upd where cur: "svc_current R tid w v c st = Inr (cur, now)"
    and upd: "changed cur now (\<lambda>s. s\<lparr>snap_latest_run_id := Some run,
                       snap_latest_run_revision := Some (goal_revision (snap_goal s)),
                       snap_usage := u\<rparr>) = Inr upd"
    and com: "svc_commit R w v None st upd = Inr (s, st')"
    by (auto simp: svc_bind_run_def Let_def simp del: changed_Inr_iff)
  from svc_currentD(7) [OF g cur] show ?thesis
    by (intro command_advances [OF g cur upd _ _ com]) (simp_all add: command_inv_def active_unblocked_def assessments_based_def)
qed

lemma apply_update_advances:
  assumes g: "good st" and s: "svc_apply_update C R u w c run sha st = Inr (s, st')"
  shows "good st' \<and> store_advances view st st'"
proof -
  from s obtain cur now merged us qs ph upd where
    cur: "svc_current R (upd_task_id u) w (upd_expected_version u) c st = Inr (cur, now)"
    and act: "snap_phase cur = Active"
    and mrg: "merge_assessments update_wording (snap_goal cur) (upd_verified_refs u) (upd_assessments u)
                (snap_assessments cur) = Inr merged"
    and proj: "project_update C cur run u now = Inr (qs, ph)"
    and upd: "changed cur now (\<lambda>s. s\<lparr>snap_assessments := merged, snap_usage := us,
                    snap_questions := qs, snap_phase := ph\<rparr>) = Inr upd"
    and com: "svc_commit R w (snap_version cur) None st upd = Inr (s, st')"
    by (auto simp: svc_apply_update_def Let_def simp del: changed_Inr_iff)
  have "snapshot_ok cur" using view_ok [OF g svc_currentD(1) [OF g cur]] .
  note unblocked = project_update_unblocked [OF proj _ act this] and based = merge_assessments_based [OF mrg]
  show ?thesis
  proof (intro command_advances [OF g cur upd _ _ com])
    show "goal_task_id (snap_goal (cur\<lparr>snap_assessments := merged, snap_usage := us,
        snap_questions := qs, snap_phase := ph\<rparr>)) = upd_task_id u"
      using svc_currentD(7) [OF g cur] by simp
    assume "command_inv cur"
    then have "active_unblocked cur" and "\<forall>a \<in> set merged. assessment_based (snap_goal cur) a"
      using based by (auto simp: command_inv_def assessments_based_def)
    with unblocked show "command_inv (cur\<lparr>snap_assessments := merged, snap_usage := us,
        snap_questions := qs, snap_phase := ph\<rparr>)"
      by (simp add: command_inv_def assessments_based_def active_unblocked_def)
  qed
qed

lemma answer_loop_advances:
  assumes "good st" and "svc_answer_loop C R (\<lambda>_ x. x) fresh tid a w now n seen st = Inr (r, st')"
  shows "good st' \<and> store_advances view st st'"
  using assms(2)
proof (induction n arbitrary: seen)
  case (Suc n)
  from Suc.prems obtain cur res where cur: "view st tid = Some cur" "snap_owner cur = w"
    and red: "reduce_answer C cur a now (''resume-'' @ fresh n) = Inr res"
    and rest: "(if sub_replayed res then Inr (res, st)
         else case r_cas R (sub_snapshot res) w (snap_version cur) (sub_intent res) st of
                Inr st' \<Rightarrow> Inr (res, st')
              | Inl (Persistence_conflict _ _ _ _) \<Rightarrow>
                  svc_answer_loop C R (\<lambda>_ x. x) fresh tid a w now n (snap_version cur) st
              | Inl e \<Rightarrow> Inl e) = Inr (r, st')"
    by (auto simp: svc_get_law [OF assms(1)])
  show ?case
  proof (cases "sub_replayed res")
    case True with rest assms(1) show ?thesis by simp
  next
    case False
    with red obtain item where "answers_item C cur a now item"
      "commit_answer C cur item a now (''resume-'' @ fresh n) = Inr res"
      by (cases rule: reduce_answerE) (auto simp: replayed_submission_def)
    then have res: "snapshot_ok (sub_snapshot res)" "snap_goal (sub_snapshot res) = snap_goal cur"
      using commit_answerE(1,4) answers_itemD(2) by (auto simp: answered_snapshot_def Let_def)
    show ?thesis
    proof (cases "r_cas R (sub_snapshot res) w (snap_version cur) (sub_intent res) st")
      case (Inr st1)
      with rest False have "st1 = st'" by simp
      with Inr show ?thesis
        using commit_advances [OF assms(1) cur(1) res(1) _ command_inv_reduce_answer [OF red]]
          res(2) view_id [OF assms(1) cur(1)] by simp
    next
      case (Inl e)
      with rest False show ?thesis by (cases e) (auto dest: Suc.IH)
    qed
  qed
qed simp

lemma answer_advances:
  assumes "good st" and "svc_answer C R (\<lambda>_ x. x) fresh tid a w c st = Inr (r, st')"
  shows "good st' \<and> store_advances view st st'"
  using assms answer_loop_advances by (auto simp: svc_answer_def)

lemmas commands_advance = create_advances request_resume_advances renew_advances failed_run_advances
  ask_advances answer_advances revise_advances assess_advances transition_advances expire_advances
  bind_run_advances apply_update_advances

lemma service_step_advances:
  "service_step C R st st' \<Longrightarrow> good st \<Longrightarrow> good st' \<and> store_advances view st st'"
  by (induction rule: service_step.induct) (erule (1) commands_advance | erule (2) commands_advance)+

lemma history_keeps:
  assumes "(service_step C R)\<^sup>*\<^sup>* st st'" and "good st"
  shows "good st' \<and> (store_inv view st \<longrightarrow> store_inv view st')
    \<and> (\<forall>tid cur. view st tid = Some cur \<longrightarrow> (\<exists>upd. view st' tid = Some upd \<and> evolves cur upd))"
  using assms(1)
proof (induction rule: rtranclp_induct)
  case base with assms(2) show ?case by auto
next
  case (step y z)
  then have yz: "good z" "store_advances view y z" using service_step_advances by blast+
  have "\<exists>upd. view z tid = Some upd \<and> evolves cur upd" if "view st tid = Some cur" for tid cur
  proof -
    from step.IH that obtain mid where mid: "view y tid = Some mid" "evolves cur mid" by blast
    from store_advances_evolves [OF yz(2) mid(1)] mid(2) show ?thesis
      by (blast intro: evolves_trans)
  qed
  with step.IH yz(1) store_advances_inv [OF yz(2)] show ?case by blast
qed

text \<open>
  A command may read, other writers may run, and then its compare-and-swap succeeds: the value it
  read is still the current one, so the command took effect at the moment of its commit.
\<close>

lemma stale_read_is_current:
  assumes "good st" and "view st tid = Some cur" and "(service_step C R)\<^sup>*\<^sup>* st st1"
    and "snapshot_ok upd" and "goal_task_id (snap_goal upd) = tid"
    and "r_cas R upd w (snap_version cur) i st1 = Inr st2"
  shows "view st1 tid = Some cur"
proof -
  from history_keeps [OF assms(3,1)] assms(2) obtain cur1 where
    "good st1" and v: "view st1 tid = Some cur1" and e: "evolves cur cur1" by auto
  with cas_law [OF \<open>good st1\<close> assms(4,6)] assms(5) have "snap_version cur1 = snap_version cur"
    by (auto simp: validate_swap_Inr_iff)
  with e v show ?thesis by (simp add: evolves_def)
qed

end

subsection \<open>Histories of the SQLite adapter\<close>

text \<open>
  The full life of a file store: commands of the service, dispatches of resume intents, and purges of
  expired tasks. The index lists the times of the purges that ran.
\<close>

inductive file_history :: "codec \<Rightarrow> instant list \<Rightarrow> file_store \<Rightarrow> file_store \<Rightarrow> bool" for C :: codec where
  start: "file_history C [] st st"
| command: "file_history C ps st st1 \<Longrightarrow> service_step C (file_repo C) st1 st2 \<Longrightarrow> file_history C ps st st2"
| dispatch: "file_history C ps st st1 \<Longrightarrow> file_mark_dispatched iid w run st1 = Inr st2 \<Longrightarrow> file_history C ps st st2"
| purge: "file_history C ps st st1 \<Longrightarrow> file_purge_expired now st1 = (n, st2) \<Longrightarrow> file_history C (now # ps) st st2"

lemma lookup_delete_where:
  "keys_unique key t \<Longrightarrow> lookup_row key k (delete_where P t) =
     (case lookup_row key k t of None \<Rightarrow> None | Some r \<Rightarrow> if P r then None else Some r)"
  by (induction t) (auto simp: lookup_row_def delete_where_def keys_unique_def find_None_iff dest!: find_SomeD
      split: option.splits)

lemma file_purge_view:
  assumes "file_good C st" and "file_purge_expired now st = (n, st')"
  shows "file_good C st'"
    and "file_view st' tid = (case file_view st tid of None \<Rightarrow> None
           | Some s \<Rightarrow> if snap_expires_at s \<le> now then None else Some s)"
proof -
  from assms(2) have st': "fs_tasks st' = delete_where (\<lambda>r. fr_expires_at r \<le> now) (fs_tasks st)"
    "\<exists>P. fs_resumes st' = delete_where P (fs_resumes st)"
    by (auto simp: file_purge_expired_def Let_def)
  show "file_good C st'"
    using assms(1) st' by (auto simp: file_good_def keys_unique_delete_where)
  show "file_view st' tid = (case file_view st tid of None \<Rightarrow> None
           | Some s \<Rightarrow> if snap_expires_at s \<le> now then None else Some s)"
    using assms(1) file_lookupD [OF assms(1), of tid]
    by (auto simp: file_view_def st' lookup_delete_where file_good_def file_row_good_def split: option.splits)
qed

lemma file_dispatch_view:
  assumes "file_good C st" and "file_mark_dispatched iid w run st = Inr st'"
  shows "file_good C st'" and "file_view st' tid = file_view st tid"
  using assms
  by (auto simp: file_mark_dispatched_def mark_dispatched_def file_good_def file_view_def table_simps
      split: option.splits if_splits)

text \<open>Until a purge runs at or after its deadline, a task stays and evolves.\<close>

lemma file_history_keeps:
  assumes "file_history C ps st st'" and "file_good C st"
  shows "file_good C st'" and "\<And>tid s. file_view st tid = Some s \<Longrightarrow> \<forall>p \<in> set ps. p < snap_expires_at s \<Longrightarrow>
    \<exists>s'. file_view st' tid = Some s' \<and> evolves s s'"
proof -
  from assms have "file_good C st' \<and> (\<forall>tid s. file_view st tid = Some s \<longrightarrow> (\<forall>p \<in> set ps. p < snap_expires_at s) \<longrightarrow>
    (\<exists>s'. file_view st' tid = Some s' \<and> evolves s s'))"
  proof (induction rule: file_history.induct)
    case (command ps st st1 st2)
    then have "file_good C st2" "store_advances file_view st1 st2"
      using sqlite.service_step_advances [OF command.hyps(2)] by auto
    with command show ?case by (meson store_advances_evolves evolves_trans)
  next
    case (dispatch ps st st1 iid w run st2)
    then show ?case using file_dispatch_view by metis
  next
    case (purge ps st st1 now n st2)
    show ?case
    proof (intro conjI allI impI)
      show "file_good C st2" using purge file_purge_view by blast
      fix tid s assume s: "file_view st tid = Some s" "\<forall>p \<in> set (now # ps). p < snap_expires_at s"
      with purge obtain s1 where s1: "file_view st1 tid = Some s1" "evolves s s1" by force
      then have "snap_expires_at s1 = snap_expires_at s" by (simp add: evolves_def immutable_fields_kept_def)
      with s1 s(2) file_purge_view(2) [OF _ purge.hyps(2), of C tid] purge.IH purge.prems
      show "\<exists>s'. file_view st2 tid = Some s' \<and> evolves s s'" by auto
    qed
  qed auto
  then show "file_good C st'" and "\<And>tid s. file_view st tid = Some s \<Longrightarrow> \<forall>p \<in> set ps. p < snap_expires_at s \<Longrightarrow>
    \<exists>s'. file_view st' tid = Some s' \<and> evolves s s'" by blast+
qed

end
