(* ===== verification/Task_Answers.thy ===== *)
theory Task_Answers
  imports Task_Histories
begin

text \<open>
  The answer protocol: replay of an accepted answer, when an answer resumes its task, what the
  service commits for it, and how often its retry loop can lose to other writers.
\<close>

lemma find_replace_answer:
  assumes "\<forall>p \<in> set qs. map_option ans_key (qs_answer p) \<noteq> Some k"
    and "qs_answer new = Some a" and "ans_key a = k"
    and "\<exists>q \<in> set qs. q_id (qs_request q) = qid"
  shows "find (\<lambda>p. map_option ans_key (qs_answer p) = Some k) (replace_question qid new qs) = Some new"
  using assms by (induction qs) (auto simp: replace_question_def)

text \<open>An accepted answer, submitted again, is recognised whatever the time and the new intent id.\<close>

lemma reduce_answer_again:
  assumes "reduce_answer C s a now iid = Inr r"
  shows "reduce_answer C (sub_snapshot r) a now' iid' = Inr (replayed_submission (sub_snapshot r))"
  using assms
proof (cases rule: reduce_answerE)
  case replayed
  with assms show ?thesis
    by (auto simp: reduce_answer_def replayed_submission_def commit_answer_def Let_def
        split: option.splits if_splits)
next
  case (fresh item)
  let ?new = "\<lambda>x. (answered_qstate C item a now)\<lparr>qs_resume_intent_id := x\<rparr>"
  have "find (\<lambda>p. map_option ans_key (qs_answer p) = Some (ans_key a))
      (replace_question (ans_question_id a) (?new x) (snap_questions s)) = Some (?new x)" for x
    using fresh(1) answers_itemD [OF fresh(1)] by (intro find_replace_answer) (auto simp: answers_item_def)
  then show ?thesis
    using fresh(3) commit_answerE(1) [OF fresh(2)] answers_itemD(2) [OF fresh(1)]
    by (simp add: reduce_answer_def answered_snapshot_def Let_def)
qed

text \<open>The intent of a resuming answer is the one the repository's swap check asks for.\<close>

lemma answer_intent_matches:
  assumes "reduce_answer C s a now iid = Inr r" and "sub_intent r = Some i"
  shows "intent_matches (sub_snapshot r) (snap_owner s) i"
  using assms(1)
proof (cases rule: reduce_answerE)
  case replayed
  with assms(2) show ?thesis by (simp add: replayed_submission_def)
next
  case (fresh item)
  let ?new = "(answered_qstate C item a now)\<lparr>qs_resume_intent_id := Some iid\<rparr>"
  have r: "resumes C s item a now" "i = answer_intent s item a now iid"
    "sub_snapshot r = answered_snapshot C s item a now iid"
    using commit_answerE(1,2) [OF fresh(2)] answers_itemD(2) [OF fresh(1)] assms(2)
    by (auto split: if_splits)
  have "?new \<in> set (replace_question (ans_question_id a) ?new (snap_questions s))"
    using answers_itemD(1,2) [OF fresh(1)] by (auto simp: set_replace_question)
  then have "\<exists>q \<in> set (snap_questions (sub_snapshot r)). q_id (qs_request q) = ans_question_id a
      \<and> qs_resume_intent_id q = Some iid \<and> qs_status q = Answered"
    using r answers_itemD(2) [OF fresh(1)]
    by (intro bexI [of _ ?new]) (simp_all add: answered_snapshot_def Let_def)
  with r show ?thesis
    by (auto simp: intent_matches_def answer_intent_def answered_snapshot_def Let_def list_ex_iff)
qed

text \<open>When a fresh answer resumes its task.\<close>

lemma answer_resume_iff:
  assumes "reduce_answer C s a now iid = Inr r" and "\<not> sub_replayed r"
  shows "sub_intent r \<noteq> None \<longleftrightarrow> snap_phase s = Waiting_for_input
      \<and> \<not> blocked (snap_questions (sub_snapshot r)) (goal_revision (snap_goal s))"
    and "snap_phase (sub_snapshot r) = (if sub_intent r \<noteq> None then Active else snap_phase s)"
proof -
  from assms obtain item where i: "answers_item C s a now item" "commit_answer C s item a now iid = Inr r"
    by (cases rule: reduce_answerE) (auto simp: replayed_submission_def)
  have nb: "\<not> blocks rv ((answered_qstate C item a now)\<lparr>qs_resume_intent_id := x\<rparr>)" for rv x
    by (simp add: blocks_def)
  have r: "sub_snapshot r = answered_snapshot C s item a now iid"
    "sub_intent r = (if resumes C s item a now then Some (answer_intent s item a now iid) else None)"
    using commit_answerE(1,2) [OF i(2)] answers_itemD(2) [OF i(1)] by simp_all
  show "sub_intent r \<noteq> None \<longleftrightarrow> snap_phase s = Waiting_for_input
      \<and> \<not> blocked (snap_questions (sub_snapshot r)) (goal_revision (snap_goal s))"
    unfolding r by (auto simp: resumes_def answered_snapshot_def Let_def blocked_replace nb)
  show "snap_phase (sub_snapshot r) = (if sub_intent r \<noteq> None then Active else snap_phase s)"
    unfolding r by (simp add: answered_snapshot_def Let_def)
qed

text \<open>The reducer itself never reports the conflict that ends the retry loop.\<close>

lemma check_values_error: "check_values fs vs = Inl e \<Longrightarrow> e \<noteq> Persistence_conflict x y z None"
  by (induction fs vs rule: check_values.induct) (auto split: option.splits if_splits)

lemma commit_answer_error: "commit_answer C s item a now iid = Inl e \<Longrightarrow> e = Validation_error"
  by (auto simp: commit_answer_def Let_def rbind_Inl_iff split: if_splits dest!: changed_error)

lemma reduce_answer_error: "reduce_answer C s a now iid \<noteq> Inl (Persistence_conflict x y z None)"
  by (auto simp: reduce_answer_def rbind_Inl_iff split: option.splits if_splits
      dest: check_values_error commit_answer_error)

text \<open>The interference of other writers over the remaining attempts of the loop.\<close>

fun interfered :: "(nat \<Rightarrow> 'st \<Rightarrow> 'st) \<Rightarrow> nat \<Rightarrow> 'st \<Rightarrow> 'st" where
  "interfered other 0 st = st"
| "interfered other (Suc n) st = interfered other n (other n st)"

text \<open>The store after the first \<open>k\<close> of \<open>n\<close> attempts were lost.\<close>

fun lost_attempts :: "(nat \<Rightarrow> 'st \<Rightarrow> 'st) \<Rightarrow> nat \<Rightarrow> nat \<Rightarrow> 'st \<Rightarrow> 'st" where
  "lost_attempts other n 0 st = st"
| "lost_attempts other n (Suc k) st = lost_attempts other (n - 1) k (other (n - 1) st)"

context task_repository
begin

text \<open>
  What the successful attempt did: \<open>st0\<close> is the store it read and \<open>st1\<close> the store its compare-and-swap
  found, with the same task in both.
\<close>

definition answered_at where
  "answered_at a now w tid r st0 st1 st' \<longleftrightarrow> (\<exists>cur iid. view st0 tid = Some cur \<and> snap_owner cur = w
     \<and> reduce_answer C cur a now iid = Inr r
     \<and> (if sub_replayed r then st' = st0
        else view st1 tid = Some cur \<and> view st' = (view st1)(tid \<mapsto> sub_snapshot r)
           \<and> outbox st' = add_intent (sub_intent r) (outbox st1)))"

lemma answer_loop_commits:
  assumes others: "\<And>n st. good st \<Longrightarrow> (service_step C R)\<^sup>*\<^sup>* st (other n st)"
    and "good st" and "svc_answer_loop C R other fresh tid a w now n seen st = Inr (r, st')"
  shows "\<exists>k<n. answered_at a now w tid r (lost_attempts other n k st)
    (other (n - Suc k) (lost_attempts other n k st)) st'"
  using assms(2,3)
proof (induction n arbitrary: seen st)
  case (Suc n)
  note good = Suc.prems(1)
  let ?st = "other n st"
  from Suc.prems obtain cur res where cur: "view st tid = Some cur" "snap_owner cur = w"
    and red: "reduce_answer C cur a now (''resume-'' @ fresh n) = Inr res"
    and rest: "(if sub_replayed res then Inr (res, st)
         else case r_cas R (sub_snapshot res) w (snap_version cur) (sub_intent res) ?st of
                Inr st' \<Rightarrow> Inr (res, st')
              | Inl (Persistence_conflict _ _ _ _) \<Rightarrow>
                  svc_answer_loop C R other fresh tid a w now n (snap_version cur) ?st
              | Inl e \<Rightarrow> Inl e) = Inr (r, st')"
    by (auto simp: svc_get_law [OF good])
  from history_keeps [OF others [OF good] good] have good': "good ?st" by blast
  show ?case
  proof (cases "sub_replayed res")
    case True
    with rest cur red have "answered_at a now w tid r st ?st st'" by (auto simp: answered_at_def)
    then show ?thesis by (intro exI [of _ 0]) simp
  next
    case False
    with red obtain item where "answers_item C cur a now item"
      "commit_answer C cur item a now (''resume-'' @ fresh n) = Inr res"
      by (cases rule: reduce_answerE) (auto simp: replayed_submission_def)
    then have res: "snapshot_ok (sub_snapshot res)" "goal_task_id (snap_goal (sub_snapshot res)) = tid"
      using commit_answerE(1,4) answers_itemD(2) view_id [OF good cur(1)]
      by (auto simp: answered_snapshot_def Let_def)
    show ?thesis
    proof (cases "r_cas R (sub_snapshot res) w (snap_version cur) (sub_intent res) ?st")
      case (Inr st1)
      with rest False have "st1 = st'" "res = r" by simp_all
      moreover have "view ?st tid = Some cur"
        by (rule stale_read_is_current [OF good cur(1) others [OF good] res Inr])
      ultimately have "answered_at a now w tid r st ?st st'"
        using Inr False cur red cas_law [OF good' res(1) Inr] res(2) by (auto simp: answered_at_def)
      then show ?thesis by (intro exI [of _ 0]) simp
    next
      case (Inl e)
      with rest False obtain x where
        "svc_answer_loop C R other fresh tid a w now n x ?st = Inr (r, st')" by (cases e) auto
      from Suc.IH [OF good' this] obtain k where "k < n"
        "answered_at a now w tid r (lost_attempts other n k ?st) (other (n - Suc k) (lost_attempts other n k ?st)) st'"
        by blast
      then show ?thesis by (intro exI [of _ "Suc k"]) simp
    qed
  qed
qed simp

lemmas answer_commits = answer_loop_commits [where n = 8 and seen = 0]

text \<open>
  One lost attempt: the version the answer read is no longer the stored one, so another writer
  committed in between.
\<close>

lemma answer_attempt_lost:
  assumes g: "good st1" and cur: "view st tid = Some cur"
    and adv: "\<exists>cur1. view st1 tid = Some cur1 \<and> evolves cur cur1"
    and red: "reduce_answer C cur a now iid = Inr res" and fresh: "\<not> sub_replayed res"
    and tid: "goal_task_id (snap_goal cur) = tid"
    and lost: "r_cas R (sub_snapshot res) (snap_owner cur) (snap_version cur) (sub_intent res) st1
        = Inl (Persistence_conflict x1 x2 x3 x4)"
  shows "\<exists>cur1. view st1 tid = Some cur1 \<and> snap_version cur < snap_version cur1"
proof -
  from adv obtain cur1 where cur1: "view st1 tid = Some cur1" "evolves cur cur1" by blast
  from red fresh obtain item where "answers_item C cur a now item"
    "commit_answer C cur item a now iid = Inr res"
    by (cases rule: reduce_answerE) (auto simp: replayed_submission_def)
  then have res: "snapshot_ok (sub_snapshot res)" "goal_task_id (snap_goal (sub_snapshot res)) = tid"
    "snap_owner (sub_snapshot res) = snap_owner cur" "snap_version (sub_snapshot res) = snap_version cur + 1"
    using commit_answerE(1,4) answers_itemD(2) tid by (auto simp: answered_snapshot_def Let_def)
  have "snap_version cur1 \<noteq> snap_version cur"
  proof
    assume "snap_version cur1 = snap_version cur"
    with cur1(2) have [simp]: "cur1 = cur" by (simp add: evolves_def)
    show False
    proof (cases "validate_swap C cur (sub_snapshot res) (snap_owner cur) (snap_version cur) (sub_intent res)")
      case (Inl e)
      with cas_reject [OF g res(1)] cur1(1) res(2) lost have "e = Persistence_conflict x1 x2 x3 x4"
        by fastforce
      with Inl show False by (auto simp: validate_swap_def split: if_splits option.splits)
    next
      case (Inr u)
      show False
        using cas_total [OF g res(1)] lost cur1(1) res(2) Inr by fastforce
    qed
  qed
  with cur1 show ?thesis by (auto simp: evolves_def)
qed

text \<open>Giving up after \<open>n\<close> attempts takes at least \<open>n\<close> commits by other writers.\<close>

lemma answer_loop_exhausted:
  assumes others: "\<And>n st. good st \<Longrightarrow> (service_step C R)\<^sup>*\<^sup>* st (other n st)"
    and "good st" and "view st tid = Some cur" and "snap_owner cur = w"
    and "svc_answer_loop C R other fresh tid a w now n seen st
           = Inl (Persistence_conflict ''workflow_task'' tid v None)"
  shows "\<exists>cur'. view (interfered other n st) tid = Some cur' \<and> snap_version cur + int n \<le> snap_version cur'"
  using assms(2-5)
proof (induction n arbitrary: st cur seen)
  case (Suc n)
  from history_keeps [OF others [OF Suc.prems(1)] Suc.prems(1), of n] Suc.prems(2)
  have o: "good (other n st)" "\<exists>cur1. view (other n st) tid = Some cur1 \<and> evolves cur cur1" by simp_all
  from Suc.prems have get: "svc_get R tid w st = Inr cur" by (simp add: svc_get_law)
  from Suc.prems(4) reduce_answer_error [of C cur a now "''resume-'' @ fresh n"] obtain res where
    red: "reduce_answer C cur a now (''resume-'' @ fresh n) = Inr res" and fr: "\<not> sub_replayed res"
    and rest: "(case r_cas R (sub_snapshot res) w (snap_version cur) (sub_intent res) (other n st) of
                Inr st' \<Rightarrow> Inr (res, st')
              | Inl (Persistence_conflict _ _ _ _) \<Rightarrow>
                  svc_answer_loop C R other fresh tid a w now n (snap_version cur) (other n st)
              | Inl e \<Rightarrow> Inl e) = Inl (Persistence_conflict ''workflow_task'' tid v None)"
    by (auto simp: get rbind_Inl_iff split: if_splits)
  from rest obtain x1 x2 x3 x4 where
    lost: "r_cas R (sub_snapshot res) (snap_owner cur) (snap_version cur) (sub_intent res) (other n st)
        = Inl (Persistence_conflict x1 x2 x3 x4)"
    and again: "svc_answer_loop C R other fresh tid a w now n (snap_version cur) (other n st)
        = Inl (Persistence_conflict ''workflow_task'' tid v None)"
    using Suc.prems(3) by (auto split: sum.splits task_error.splits)
  from answer_attempt_lost [OF o(1) Suc.prems(2) o(2) red fr view_id [OF Suc.prems(1,2)] lost] o(2) Suc.prems(3)
  obtain cur1 where cur1: "view (other n st) tid = Some cur1" "snap_version cur < snap_version cur1"
    "snap_owner cur1 = w" by (auto simp: evolves_def)
  from Suc.IH [OF o(1) cur1(1,3) again] obtain cur' where
    "view (interfered other n (other n st)) tid = Some cur'" "snap_version cur1 + int n \<le> snap_version cur'"
    by blast
  with cur1(2) show ?case by auto
qed simp

end

end
