(* ===== verification/Task_Properties.thy ===== *)
theory Task_Properties
  imports Task_Answers
begin

text \<open>
  Properties of the task component, stated on the code's own adapters, with the concrete task
  they are exercised on: one required criterion, one blocking question, one answer.
\<close>

subsection \<open>A concrete task\<close>

definition demo_codec :: codec where
  "demo_codec = \<lparr>json_of_snapshot = (\<lambda>_. []), json_of_answer = (\<lambda>q _ _. q), json_of_fields = (\<lambda>_. []),
     dumped_size = (\<lambda>_. 1000), sha256_hex = (\<lambda>s. replicate 64 (CHR ''a''))\<rparr>"

definition demo_owner :: owner where
  "demo_owner = \<lparr>actor_subject = ''alice'', owner_agent_id = ''agent'', owner_agent_version = ''v1''\<rparr>"

definition demo_criterion :: criterion where
  "demo_criterion = \<lparr>crit_id = ''c1'', crit_description = [65], crit_required = True,
     crit_verifier = Source_support, crit_query = Some [66], crit_expected_text = None,
     crit_tool_step_id = None\<rparr>"

definition demo_goal :: goal where
  "demo_goal = \<lparr>goal_task_id = ''t1'', goal_revision = 1, goal_objective = [65],
     goal_source_input_ref = ''in1'', goal_criteria = [demo_criterion], goal_constraints = [],
     goal_required_context = [''region'']\<rparr>"

definition demo_snapshot :: snapshot where
  "demo_snapshot = new_snapshot demo_goal demo_owner 0 None None None False"

definition demo_question :: question where
  "demo_question = \<lparr>q_id = ''q1'', q_task_id = ''t1'', q_goal_revision = 1, q_stage = Plan_stage,
     q_fields = [\<lparr>fld_name = ''region'', fld_label = [82], fld_value_type = String_type,
                 fld_required = True, fld_choices = [], fld_max_length = 20\<rparr>],
     q_blocking = True, q_affected = [''c1''], q_expires_at = seconds 60, q_dedupe_key = ''d1'',
     q_checkpoint_ref = ''run:1''\<rparr>"

definition demo_answer :: typed_answer where
  "demo_answer = \<lparr>ans_question_id = ''q1'', ans_expected_revision = 1,
     ans_values = [(''region'', StrV [69])], ans_key = ''k1''\<rparr>"

definition empty_pg :: pg_store where
  "empty_pg = \<lparr>ps_tasks = [], ps_resumes = []\<rparr>"

definition empty_file :: file_store where
  "empty_file = \<lparr>fs_tasks = [], fs_resumes = []\<rparr>"

lemma empty_pg_good [simp]: "pg_good C empty_pg" "store_inv pg_view empty_pg" "pg_view empty_pg tid = None"
  by (simp_all add: pg_good_def empty_pg_def keys_unique_def store_inv_def pg_view_def lookup_row_def)

lemma empty_file_good [simp]:
  "file_good C empty_file" "store_inv file_view empty_file" "file_view empty_file tid = None"
  by (simp_all add: file_good_def empty_file_def keys_unique_def store_inv_def file_view_def lookup_row_def)

definition demo_pg :: pg_store where
  "demo_pg = projr (pg_create demo_codec demo_snapshot empty_pg)"

definition demo_asked :: snapshot where
  "demo_asked = asked_snapshot demo_snapshot demo_question (seconds 1)"

definition demo_pg_asked :: pg_store where
  "demo_pg_asked = projr (pg_cas demo_codec demo_asked demo_owner 1 None demo_pg)"

definition demo_submission :: submission where
  "demo_submission = projr (reduce_answer demo_codec demo_asked demo_answer (seconds 2) ''resume-x'')"

lemma demo_created:
  "svc_create (pg_repo demo_codec) demo_goal demo_owner (Aware 0) None None None False empty_pg
     = Inr (demo_snapshot, demo_pg)"
  by code_simp

lemma demo_ask:
  "svc_ask (pg_repo demo_codec) ''t1'' demo_question demo_owner 1 (Aware (seconds 1)) demo_pg
     = Inr (demo_asked, demo_pg_asked)"
  by code_simp

lemma demo_question_ok: "question_ok demo_question"
  by code_simp

lemma demo_answered:
  "reduce_answer demo_codec demo_asked demo_answer (seconds 2) ''resume-x'' = Inr demo_submission"
  by code_simp

lemma demo_view: "pg_view demo_pg ''t1'' = Some demo_snapshot" "pg_view demo_pg_asked ''t1'' = Some demo_asked"
  by code_simp+

lemma demo_pg_step: "service_step demo_codec (pg_repo demo_codec) empty_pg demo_pg"
  by (rule service_step.create [OF demo_created])

lemma demo_ask_step: "service_step demo_codec (pg_repo demo_codec) demo_pg demo_pg_asked"
  by (rule service_step.ask [OF demo_question_ok demo_ask])

lemma demo_history: "(service_step demo_codec (pg_repo demo_codec))\<^sup>*\<^sup>* empty_pg demo_pg_asked"
  by (rule converse_rtranclp_into_rtranclp [where r = "service_step demo_codec (pg_repo demo_codec)",
        OF demo_pg_step r_into_rtranclp [where r = "service_step demo_codec (pg_repo demo_codec)", OF demo_ask_step]])

lemma demo_pg_good [simp]: "pg_good demo_codec demo_pg" "pg_good demo_codec demo_pg_asked"
  using postgres.history_keeps [OF demo_history] postgres.service_step_advances [OF demo_pg_step] by simp_all

subsection \<open>Histories\<close>

text \<open>
  C1. However the commands of the task service are interleaved on the PostgreSQL adapter, starting
  from an empty database, every stored task is a valid snapshot; an active task has no unanswered
  blocking question of its current goal revision; and a task is complete only if each of its
  required criteria has a satisfied assessment, bound to the current goal revision, by the
  criterion's own verifier on a basis the criterion states.
\<close>

theorem task_history_invariant:
  assumes "(service_step C (pg_repo C))\<^sup>*\<^sup>* empty_pg st" and "pg_view st tid = Some s"
  shows "snapshot_ok s
    \<and> (snap_phase s = Active \<longrightarrow> \<not> blocked (snap_questions s) (goal_revision (snap_goal s)))
    \<and> (snap_phase s = Complete \<longrightarrow> (\<forall>c \<in> set (goal_criteria (snap_goal s)). crit_required c \<longrightarrow>
        (\<exists>a \<in> set (snap_assessments s). as_criterion_id a = crit_id c \<and> as_status a = Satisfied
           \<and> as_goal_revision a = goal_revision (snap_goal s) \<and> as_verifier a = crit_verifier c
           \<and> verification_basis c = Inr True)))"
proof -
  have "pg_good C st" and "store_inv pg_view st"
    using postgres.history_keeps [OF assms(1)] by simp_all
  then have ok: "snapshot_ok s" and inv: "task_inv s"
    using postgres.view_ok assms(2) by (auto simp: store_inv_def)
  then show ?thesis
    using task_inv_complete [OF inv ok] by (auto simp: task_inv_def command_inv_def active_unblocked_def)
qed

theorem task_history_invariant_witness:
  "snapshot_ok demo_snapshot \<and> snap_phase demo_snapshot = Active
   \<and> \<not> blocked (snap_questions demo_snapshot) (goal_revision (snap_goal demo_snapshot))"
proof -
  have h: "(service_step demo_codec (pg_repo demo_codec))\<^sup>*\<^sup>* empty_pg demo_pg"
    using demo_pg_step by blast
  have p: "snap_phase demo_snapshot = Active" by code_simp
  show ?thesis
    using task_history_invariant [OF h demo_view(1)] p by simp
qed

text \<open>
  C2. However commands, dispatches and purges are interleaved on the SQLite adapter after a task was
  stored: as long as no purge ran at or after the task's retention deadline, the task is still there
  with its owner, deadline, creation time, creation digest, conversation and web permission; its version
  and goal revision never go back, a goal never changes within a revision, and a finished task never
  changes again; no counter of its budget decreases, known tokens never decrease while they stay known,
  and token usage once unknown stays unknown. A purge at or after the deadline deletes the task.
\<close>

theorem task_history_monotone:
  assumes "file_history C ps st st'" and "file_good C st" and "file_view st tid = Some s"
    and "\<forall>p \<in> set ps. p < snap_expires_at s"
  shows "(\<exists>s'. file_view st' tid = Some s' \<and> snap_owner s' = snap_owner s
      \<and> snap_expires_at s' = snap_expires_at s \<and> snap_created_at s' = snap_created_at s
      \<and> snap_creation_sha s' = snap_creation_sha s \<and> snap_conversation_id s' = snap_conversation_id s
      \<and> snap_allow_web s' = snap_allow_web s
      \<and> snap_version s \<le> snap_version s'
      \<and> goal_revision (snap_goal s) \<le> goal_revision (snap_goal s')
      \<and> (goal_revision (snap_goal s') = goal_revision (snap_goal s) \<longrightarrow> snap_goal s' = snap_goal s)
      \<and> (terminal_phase (snap_phase s) \<longrightarrow> s' = s)
      \<and> counters_le (snap_usage s) (snap_usage s')
      \<and> (case (bu_tokens (snap_usage s), bu_tokens (snap_usage s')) of
           (Some m, Some n) \<Rightarrow> m \<le> n | (None, Some _) \<Rightarrow> False | _ \<Rightarrow> True))
    \<and> (\<forall>now. snap_expires_at s \<le> now \<longrightarrow> file_view (snd (file_purge_expired now st')) tid = None)"
proof -
  from file_history_keeps [OF assms(1,2)] assms(3,4) obtain s' where
    s': "file_good C st'" "file_view st' tid = Some s'" "evolves s s'" by blast
  from s'(3) have t: "case (bu_tokens (snap_usage s), bu_tokens (snap_usage s')) of
      (Some m, Some n) \<Rightarrow> m \<le> n | (None, Some _) \<Rightarrow> False | _ \<Rightarrow> True"
    by (auto simp: evolves_def tokens_le_iff split: option.splits)
  have "file_view (snd (file_purge_expired now st')) tid = None" if "snap_expires_at s \<le> now" for now
    using file_purge_view(2) [OF s'(1)] s'(2,3) that
    by (cases "file_purge_expired now st'") (auto simp: evolves_def immutable_fields_kept_def)
  with s' t show ?thesis
    unfolding evolves_def immutable_fields_kept_def by (intro conjI exI [of _ s']) (simp_all split: prod.splits)
qed

definition demo_file :: file_store where
  "demo_file = projr (file_create demo_codec demo_snapshot empty_file)"

lemma demo_file_created:
  "svc_create (file_repo demo_codec) demo_goal demo_owner (Aware 0) None None None False empty_file
     = Inr (demo_snapshot, demo_file)"
  by code_simp

lemma demo_file_good: "file_good demo_codec demo_file"
  using sqlite.service_step_advances [OF service_step.create [OF demo_file_created]] by simp

definition demo_cancelled :: "snapshot \<times> file_store" where
  "demo_cancelled = projr (svc_transition (file_repo demo_codec) ''t1'' Cancelled demo_owner 1
     (Aware (seconds 1)) demo_file)"

lemma demo_cancel: "svc_transition (file_repo demo_codec) ''t1'' Cancelled demo_owner 1
    (Aware (seconds 1)) demo_file = Inr (fst demo_cancelled, snd demo_cancelled)"
  by code_simp

lemma demo_purged: "file_history demo_codec [seconds 5] demo_file
    (snd (file_purge_expired (seconds 5) (snd demo_cancelled)))"
proof (rule file_history.purge)
  show "file_history demo_codec [] demo_file (snd demo_cancelled)"
    by (rule file_history.command [OF file_history.start service_step.transition [OF demo_cancel]])
qed (rule prod.collapse [symmetric])

theorem task_history_monotone_witness:
  "(\<exists>s'. file_view (snd (file_purge_expired (seconds 5) (snd demo_cancelled))) ''t1'' = Some s'
      \<and> snap_owner s' = demo_owner \<and> 1 \<le> snap_version s')
   \<and> file_view (snd (file_purge_expired (days 91) (snd (file_purge_expired (seconds 5) (snd demo_cancelled))))) ''t1'' = None"
proof -
  have v: "file_view demo_file ''t1'' = Some demo_snapshot" by code_simp
  have f: "snap_owner demo_snapshot = demo_owner" "snap_version demo_snapshot = 1"
    "seconds 5 < snap_expires_at demo_snapshot" "snap_expires_at demo_snapshot \<le> days 91" by code_simp+
  then have p: "\<forall>p \<in> set [seconds 5]. p < snap_expires_at demo_snapshot" by simp
  from task_history_monotone [OF demo_purged demo_file_good v p] f show ?thesis by auto
qed

subsection \<open>Concurrent writers\<close>

text \<open>
  C3. When two writers have read the same version of a task and one has committed, the other's
  compare-and-swap on the PostgreSQL adapter fails with a conflict that reports the new version,
  whatever snapshot it wants to write and whether or not it carries a resume intent.
\<close>

theorem second_writer_conflicts:
  assumes "pg_good C st" and "snapshot_ok s" and "snapshot_ok s'"
    and "goal_task_id (snap_goal s') = goal_task_id (snap_goal s)" and "snap_owner s' = w"
    and "r_cas (pg_repo C) s w v i st = Inr st'"
  shows "r_cas (pg_repo C) s' w v i' st' = Inl (Persistence_conflict ''workflow_task''
           (goal_task_id (snap_goal s)) v (Some (v + 1)))"
  using assms by (rule postgres.no_lost_update)

theorem second_writer_conflicts_witness:
  "r_cas (pg_repo demo_codec) demo_asked demo_owner 1 None demo_pg_asked
     = Inl (Persistence_conflict ''workflow_task'' ''t1'' 1 (Some 2))"
proof -
  have ok: "snapshot_ok demo_asked" and w: "snap_owner demo_asked = demo_owner"
    and cas: "r_cas (pg_repo demo_codec) demo_asked demo_owner 1 None demo_pg = Inr demo_pg_asked"
    and tid: "goal_task_id (snap_goal demo_asked) = ''t1''"
    by code_simp+
  show ?thesis
    using second_writer_conflicts [OF demo_pg_good(1) ok ok refl w cas] tid by simp
qed

text \<open>
  C4. A command of the task service that read a task and later commits, with any number of other
  commands in between, succeeds only if the stored task is still exactly the one it read: every
  successful command acts on the current state although reading and writing are two transactions.
\<close>

theorem commit_acts_on_current_state:
  assumes "pg_good C st" and "pg_view st tid = Some cur" and "(service_step C (pg_repo C))\<^sup>*\<^sup>* st st1"
    and "snapshot_ok upd" and "goal_task_id (snap_goal upd) = tid"
    and "svc_commit (pg_repo C) w (snap_version cur) i st1 upd = Inr (r, st2)"
  shows "pg_view st1 tid = Some cur \<and> pg_view st2 tid = Some upd"
proof -
  have cas: "r_cas (pg_repo C) upd w (snap_version cur) i st1 = Inr st2"
    using assms(6) by (auto simp: svc_commit_def)
  have "pg_good C st1" using postgres.history_keeps [OF assms(3,1)] by simp
  with postgres.stale_read_is_current [OF assms(1-5) cas] postgres.cas_law [OF _ assms(4) cas] assms(5)
  show ?thesis by auto
qed

theorem commit_acts_on_current_state_witness:
  "pg_view demo_pg ''t1'' = Some demo_snapshot \<and> pg_view demo_pg_asked ''t1'' = Some demo_asked"
proof -
  have ok: "snapshot_ok demo_asked" and tid: "goal_task_id (snap_goal demo_asked) = ''t1''"
    and cas: "svc_commit (pg_repo demo_codec) demo_owner (snap_version demo_snapshot) None demo_pg demo_asked
                = Inr (demo_asked, demo_pg_asked)"
    by code_simp+
  show ?thesis
    by (rule commit_acts_on_current_state [OF demo_pg_good(1) demo_view(1) _ ok tid cas]) simp
qed

subsection \<open>Answers\<close>

text \<open>
  C5. An accepted answer is idempotent: submitting it again on the snapshot it led to, at any time
  and under a fresh intent id, changes nothing, produces no second resume intent and is reported
  as a replay.
\<close>

theorem answer_idempotent:
  assumes "reduce_answer C s a now iid = Inr r"
  shows "reduce_answer C (sub_snapshot r) a now' iid' =
    Inr \<lparr>sub_snapshot = sub_snapshot r, sub_intent = None, sub_replayed = True\<rparr>"
  using reduce_answer_again [OF assms] by (simp add: replayed_submission_def)

theorem answer_idempotent_witness:
  "reduce_answer demo_codec (sub_snapshot demo_submission) demo_answer (seconds 3) ''resume-y'' =
    Inr \<lparr>sub_snapshot = sub_snapshot demo_submission, sub_intent = None, sub_replayed = True\<rparr>"
  by (rule answer_idempotent [OF demo_answered])

text \<open>
  C6. A fresh answer resumes its task, and creates a resume intent, exactly when the task was
  waiting and no blocking question of the current goal is left unanswered; the intent is always
  one that the repository's swap check accepts for the snapshot it is committed with.
\<close>

theorem answer_resumes_task:
  assumes "reduce_answer C s a now iid = Inr r" and "\<not> sub_replayed r"
  shows "(case sub_intent r of
      None \<Rightarrow> snap_phase (sub_snapshot r) = snap_phase s
    | Some i \<Rightarrow> snap_phase (sub_snapshot r) = Active \<and> intent_matches (sub_snapshot r) (snap_owner s) i)
    \<and> (sub_intent r \<noteq> None \<longleftrightarrow> snap_phase s = Waiting_for_input
         \<and> \<not> blocked (snap_questions (sub_snapshot r)) (goal_revision (snap_goal s)))"
  using answer_resume_iff [OF assms] answer_intent_matches [OF assms(1)] by (auto split: option.splits)

theorem answer_resumes_task_witness:
  "snap_phase (sub_snapshot demo_submission) = Active
   \<and> intent_matches (sub_snapshot demo_submission) demo_owner (the (sub_intent demo_submission))"
proof -
  have f: "\<not> sub_replayed demo_submission" and i: "sub_intent demo_submission \<noteq> None"
    and w: "snap_owner demo_asked = demo_owner"
    by code_simp+
  show ?thesis
    using answer_resumes_task [OF demo_answered f] i w by (auto split: option.splits)
qed

text \<open>
  C7. A successful \<open>answer\<close> on the PostgreSQL adapter, whatever commands other writers run between the
  reads and the compare-and-swaps of its attempts: after fewer than eight lost attempts it read the task,
  which the asking owner holds, and reduced the answer on it. Either the answer was a replay and nothing
  was written; or the task that its compare-and-swap found was still the one it had read, and exactly the
  answered snapshot was stored together with its resume intent in the outbox, in one transaction that
  changed no other task and no other intent.
\<close>

theorem answer_commits_snapshot_and_intent:
  assumes "\<And>n st. pg_good C st \<Longrightarrow> (service_step C (pg_repo C))\<^sup>*\<^sup>* st (other n st)"
    and "pg_good C st" and "svc_answer C (pg_repo C) other fresh tid a w (Aware now) st = Inr (r, st')"
  shows "\<exists>k < 8. \<exists>cur iid. pg_view (lost_attempts other 8 k st) tid = Some cur \<and> snap_owner cur = w
    \<and> reduce_answer C cur a now iid = Inr r
    \<and> (if sub_replayed r then st' = lost_attempts other 8 k st
       else let found = other (7 - k) (lost_attempts other 8 k st)
         in pg_view found tid = Some cur \<and> pg_view st' = (pg_view found)(tid \<mapsto> sub_snapshot r)
            \<and> outbox_of (ps_resumes st') = add_intent (sub_intent r) (outbox_of (ps_resumes found)))"
  using postgres.answer_commits [OF assms(1,2)] assms(3)
  by (fastforce simp: svc_answer_def aware_time_def postgres.answered_at_def Let_def)

text \<open>
  A concrete answer that loses its first attempt: another writer binds a run to the task while the
  first attempt (\<open>other 7\<close>) is between its read and its compare-and-swap.
\<close>

definition demo_rival :: "nat \<Rightarrow> pg_store \<Rightarrow> pg_store" where
  "demo_rival n st = (case pg_view st ''t1'' of None \<Rightarrow> st
     | Some s \<Rightarrow> (case svc_bind_run (pg_repo demo_codec) ''t1'' ''run'' demo_owner (snap_version s)
                     (Aware (seconds 1)) None st of Inl _ \<Rightarrow> st | Inr (_, st') \<Rightarrow> st'))"

lemma demo_rival_history: "(service_step demo_codec (pg_repo demo_codec))\<^sup>*\<^sup>* st (demo_rival n st)"
  by (auto simp: demo_rival_def split: option.splits sum.splits dest!: service_step.bind_run)

definition demo_once :: "nat \<Rightarrow> pg_store \<Rightarrow> pg_store" where
  "demo_once n st = (if n = 7 then demo_rival n st else st)"

lemma demo_once_history: "(service_step demo_codec (pg_repo demo_codec))\<^sup>*\<^sup>* st (demo_once n st)"
  by (simp add: demo_once_def demo_rival_history)

definition demo_answer_result :: "submission \<times> pg_store" where
  "demo_answer_result = projr (svc_answer demo_codec (pg_repo demo_codec) demo_once (\<lambda>_. ''a'') ''t1'' demo_answer
     demo_owner (Aware (seconds 2)) demo_pg_asked)"

theorem answer_commits_snapshot_and_intent_witness:
  "pg_view (snd demo_answer_result) ''t1'' = Some (sub_snapshot (fst demo_answer_result))
   \<and> snap_version (sub_snapshot (fst demo_answer_result)) = 4"
proof -
  let ?run = "svc_answer demo_codec (pg_repo demo_codec) demo_once (\<lambda>_. ''a'') ''t1'' demo_answer
     demo_owner (Aware (seconds 2)) demo_pg_asked"
  have v: "map_sum (\<lambda>_. ()) (\<lambda>(x, _). (sub_replayed x, snap_version (sub_snapshot x))) ?run = Inr (False, 4)"
    by code_simp
  then obtain y where y: "?run = Inr y" by (cases ?run) auto
  then have "demo_answer_result = y" by (simp add: demo_answer_result_def)
  with v y have r: "?run = Inr (fst demo_answer_result, snd demo_answer_result)"
    and f: "\<not> sub_replayed (fst demo_answer_result)" "snap_version (sub_snapshot (fst demo_answer_result)) = 4"
    by (simp_all add: split_beta)
  show ?thesis
    using answer_commits_snapshot_and_intent [OF demo_once_history demo_pg_good(2) r] f by (auto simp: Let_def)
qed

text \<open>
  C8. The retry loop of \<open>answer\<close> gives up only under heavy contention: if it reports the final
  conflict, other writers have advanced the version of this very task at least eight times while
  it ran.
\<close>

theorem answer_gives_up_after_eight_losses:
  assumes "\<And>n st. pg_good C st \<Longrightarrow> (service_step C (pg_repo C))\<^sup>*\<^sup>* st (other n st)"
    and "pg_good C st" and "pg_view st tid = Some cur" and "snap_owner cur = w"
    and "svc_answer C (pg_repo C) other fresh tid a w (Aware now) st
           = Inl (Persistence_conflict ''workflow_task'' tid v None)"
  shows "\<exists>cur'. pg_view (interfered other 8 st) tid = Some cur' \<and> snap_version cur + 8 \<le> snap_version cur'"
  using postgres.answer_loop_exhausted [where n = 8 and seen = 0, OF assms(1-4)] assms(5)
  by (simp add: svc_answer_def aware_time_def)

theorem answer_gives_up_after_eight_losses_witness:
  "\<exists>cur'. pg_view (interfered demo_rival 8 demo_pg_asked) ''t1'' = Some cur'
     \<and> snap_version demo_asked + 8 \<le> snap_version cur'"
proof (rule answer_gives_up_after_eight_losses [OF demo_rival_history demo_pg_good(2) demo_view(2)])
  show "snap_owner demo_asked = demo_owner" by code_simp
  show "svc_answer demo_codec (pg_repo demo_codec) demo_rival (\<lambda>_. ''a'') ''t1'' demo_answer demo_owner
      (Aware (seconds 2)) demo_pg_asked = Inl (Persistence_conflict ''workflow_task'' ''t1'' 9 None)"
    by code_simp
qed

subsection \<open>Objective checks\<close>

text \<open>
  Goal compilation adds a required \<open>grounded_analysis\<close> criterion to every performance-comparison
  objective; the service has no basis on which such a criterion could be verified.
\<close>

text \<open>
  C9. A task whose goal has a required \<open>grounded_analysis\<close> criterion is not complete at any point of any
  history of the service, and no stored assessment of that criterion is satisfied.
\<close>

theorem grounded_goal_never_completes:
  assumes "(service_step C (pg_repo C))\<^sup>*\<^sup>* empty_pg st" and "pg_view st tid = Some s"
    and "c \<in> set (goal_criteria (snap_goal s))" and "crit_required c" and "crit_verifier c = Grounded_analysis"
  shows "snap_phase s \<noteq> Complete
    \<and> (\<forall>a \<in> set (snap_assessments s). as_criterion_id a = crit_id c \<longrightarrow> as_status a \<noteq> Satisfied)"
proof -
  have "pg_good C st" and "store_inv pg_view st"
    using postgres.history_keeps [OF assms(1)] by simp_all
  with assms(2) have ok: "snapshot_ok s" and inv: "task_inv s"
    using postgres.view_ok by (auto simp: store_inv_def)
  have not_complete: "snap_phase s \<noteq> Complete"
    using task_inv_complete [OF inv ok _ assms(3,4)] assms(5) by (auto simp: verification_basis.simps)
  have "distinct (map crit_id (goal_criteria (snap_goal s)))"
    using ok by (simp add: snapshot_ok_def goal_ok_def)
  then have "k = c" if "k \<in> set (goal_criteria (snap_goal s))" "crit_id k = crit_id c" for k
    using that assms(3) by (auto simp: distinct_map dest: inj_onD)
  moreover have "verification_basis c \<noteq> Inr True" using assms(5) by (simp add: verification_basis.simps)
  moreover have "\<forall>a \<in> set (snap_assessments s). assessment_based (snap_goal s) a"
    using inv by (simp add: task_inv_def command_inv_def assessments_based_def)
  ultimately have "as_status a \<noteq> Satisfied" if "a \<in> set (snap_assessments s)" "as_criterion_id a = crit_id c" for a
    using that unfolding assessment_based_def by metis
  with not_complete show ?thesis by blast
qed

definition compare_objective :: utext where
  "compare_objective = [19994, 32489, 20142, 28857, 24369, 39033]"

definition compare_goal :: goal where
  "compare_goal = demo_goal\<lparr>goal_objective := compare_objective\<rparr>"

definition compare_created :: "snapshot \<times> pg_store" where
  "compare_created = projr (svc_create (pg_repo demo_codec) compare_goal demo_owner (Aware 0) (Some ''run'') None None
     False empty_pg)"

definition compare_check :: criterion where
  "compare_check = objective_check compare_goal"

lemma compare_create:
  "svc_create (pg_repo demo_codec) compare_goal demo_owner (Aware 0) (Some ''run'') None None False empty_pg
     = Inr (fst compare_created, snd compare_created)"
  by code_simp

lemma compare_view: "pg_view (snd compare_created) ''t1'' = Some (fst compare_created)"
  by code_simp

lemma compare_facts: "find (\<lambda>c. crit_id c = answer_contract_id) (goal_criteria (snap_goal (fst compare_created)))
     = Some compare_check"
  "crit_required compare_check" "crit_verifier compare_check = Grounded_analysis"
  by code_simp+

theorem grounded_goal_never_completes_witness: "snap_phase (fst compare_created) \<noteq> Complete"
proof (rule conjunct1 [OF grounded_goal_never_completes [OF _ compare_view]])
  show "(service_step demo_codec (pg_repo demo_codec))\<^sup>*\<^sup>* empty_pg (snd compare_created)"
    using service_step.create [OF compare_create] by blast
  show "compare_check \<in> set (goal_criteria (snap_goal (fst compare_created)))"
    using find_SomeD [OF compare_facts(1)] by simp
qed (rule compare_facts)+

text \<open>
  A run update that reports a \<open>grounded_analysis\<close> criterion of the current goal as satisfied, with
  verified proof, is refused with \<open>KeyError('grounded_analysis')\<close>, which is not one of the
  service's own errors: nothing of the update is stored.
\<close>

theorem grounded_update_raises_key_error:
  assumes "svc_current R (upd_task_id u) w (upd_expected_version u) c st = Inr (cur, now)"
    and "snapshot_digest C cur = sha" and "goal_revision (snap_goal cur) = upd_goal_revision u"
    and "snap_phase cur = Active" and "snap_latest_run_id cur = Some run"
    and "upd_assessments u = a # as"
    and "find (\<lambda>k. crit_id k = as_criterion_id a) (goal_criteria (snap_goal cur)) = Some crit"
    and "crit_verifier crit = Grounded_analysis" and "as_verifier a = Grounded_analysis"
    and "as_goal_revision a = upd_goal_revision u" and "as_status a = Satisfied"
    and "set (as_proof_refs a) \<subseteq> set (upd_verified_refs u)"
  shows "svc_apply_update C R u w c run sha st = Inl (Key_error ''grounded_analysis'')"
proof -
  have "check_assessment update_wording (snap_goal cur) (upd_verified_refs u) a = Inl (Key_error ''grounded_analysis'')"
    using assms(3,7-12) by (simp add: check_assessment_def verification_basis.simps)
  with assms(1-6) show ?thesis by (simp add: svc_apply_update_def)
qed

definition grounded_assessment :: assessment where
  "grounded_assessment = \<lparr>as_criterion_id = answer_contract_id, as_goal_revision = 1, as_status = Satisfied,
     as_verifier = Grounded_analysis, as_proof_refs = [''ref'']\<rparr>"

definition grounded_update :: task_update where
  "grounded_update = \<lparr>upd_task_id = ''t1'', upd_expected_version = 1, upd_goal_revision = 1,
     upd_assessments = [grounded_assessment], upd_verified_refs = [''ref''], upd_question = None,
     upd_usage_delta = zero_usage, upd_phase = Active\<rparr>"

theorem grounded_update_raises_key_error_witness:
  "svc_apply_update demo_codec (pg_repo demo_codec) grounded_update demo_owner (Aware 0) ''run''
     (snapshot_digest demo_codec (fst compare_created)) (snd compare_created) = Inl (Key_error ''grounded_analysis'')"
proof (rule grounded_update_raises_key_error)
  show "svc_current (pg_repo demo_codec) (upd_task_id grounded_update) demo_owner
      (upd_expected_version grounded_update) (Aware 0) (snd compare_created) = Inr (fst compare_created, 0)"
    by code_simp
  show "find (\<lambda>k. crit_id k = as_criterion_id grounded_assessment) (goal_criteria (snap_goal (fst compare_created)))
      = Some compare_check" using compare_facts(1) by (simp add: grounded_assessment_def)
  show "crit_verifier compare_check = Grounded_analysis" by (rule compare_facts)
  show "upd_assessments grounded_update = grounded_assessment # []" by code_simp
qed (simp; fail | code_simp)+

text \<open>
  A performance-comparison objective longer than 2048 code points can never be created as a
  task although goals admit 8192: the objective check copies the objective into a criterion
  description, whose bound is smaller.
\<close>

theorem long_comparison_objective_rejected:
  assumes "goal_revision g = 1" and "is_performance_comparison (goal_objective g)"
    and "2048 < len (goal_objective g)" and "\<forall>c \<in> set (goal_criteria g). crit_id c \<noteq> answer_contract_id"
    and "len (goal_criteria g) \<le> 31"
  shows "svc_create R g w (Aware now) run sha conv web st = Inl Validation_error"
proof -
  have none: "filter (\<lambda>c. crit_id c = answer_contract_id) (goal_criteria g) = []"
    and all: "filter (\<lambda>c. crit_id c \<noteq> answer_contract_id) (goal_criteria g) = goal_criteria g"
    using assms(4) by (simp_all add: filter_empty_conv filter_id_conv)
  have "\<not> criterion_ok (objective_check g)"
    using assms(3) by (simp add: criterion_ok_def objective_check_def length_between_def)
  then have "compile_goal_requirements g None = Inl Validation_error"
    using assms(2,5) by (simp add: compile_goal_requirements_def none all)
  with assms(1) show ?thesis by (simp add: svc_create_def aware_time_def)
qed

definition long_goal :: goal where
  "long_goal = demo_goal\<lparr>goal_objective := compare_objective @ replicate 2048 65\<rparr>"

lemma long_goal_ok: "goal_ok long_goal"
proof -
  have "goal_ok (demo_goal\<lparr>goal_objective := [65]\<rparr>)" by code_simp
  moreover have "length_between 1 8192 (goal_objective long_goal)"
    by (simp add: long_goal_def compare_objective_def length_between_def)
  ultimately show ?thesis by (simp add: goal_ok_def long_goal_def)
qed

theorem long_comparison_objective_rejected_witness:
  "goal_ok long_goal \<and> svc_create (pg_repo demo_codec) long_goal demo_owner (Aware 0) None None None False empty_pg
     = Inl Validation_error"
proof -
  have "contains_any alts compare_objective \<Longrightarrow> contains_any alts (compare_objective @ xs)" for alts xs
    by (auto simp: contains_any_def list_ex_iff intro: sublist_order.order_trans)
  moreover have "is_performance_comparison compare_objective" by code_simp
  ultimately have "is_performance_comparison (goal_objective long_goal)"
    by (simp add: is_performance_comparison_def long_goal_def)
  then have "svc_create (pg_repo demo_codec) long_goal demo_owner (Aware 0) None None None False empty_pg
     = Inl Validation_error"
    by (rule long_comparison_objective_rejected [rotated])
       (simp_all add: long_goal_def demo_goal_def compare_objective_def demo_criterion_def answer_contract_id_def)
  with long_goal_ok show ?thesis by simp
qed

subsection \<open>Dispatching resume intents\<close>

text \<open>
  C10. A resume intent stays with the run it was dispatched to: on the store that a dispatch leaves,
  dispatching the intent to the same run again changes nothing, dispatching it to any other run is
  refused, and the intent is no longer listed as pending.
\<close>

theorem dispatch_is_permanent:
  assumes "pg_good C st" and "pg_mark_dispatched iid w run st = Inr st'"
    and "run' \<noteq> []" and "len run' \<le> 128"
  shows "pg_mark_dispatched iid w run' st' =
      (if run' = run then Inr st'
       else Inl (Persistence_invariant ''resume intent already belongs to a different run''))
    \<and> (\<forall>limit pending. pg_list_pending w' limit st' = Inr pending \<longrightarrow>
         (\<forall>i \<in> set pending. \<exists>r \<in> set (ps_resumes st'). rr_intent r = i \<and> rr_intent_id r \<noteq> iid))"
proof -
  have u: "keys_unique rr_intent_id (ps_resumes st)" using assms(1) by (simp add: pg_good_def)
  from assms(2) obtain row where
    row: "lookup_row rr_intent_id iid (ps_resumes st) = Some row" "rr_owner row = w"
      "rr_run_id row = None \<or> rr_run_id row = Some run"
    and st': "st' = st\<lparr>ps_resumes := update_where (\<lambda>r. rr_intent_id r = iid)
                (rr_run_id_update (\<lambda>_. Some run)) (ps_resumes st)\<rparr>"
    by (auto simp: pg_mark_dispatched_def mark_dispatched_def find_key_and [OF u] split: option.splits if_splits)
  let ?t = "update_where (\<lambda>r. rr_intent_id r = iid) (rr_run_id_update (\<lambda>_. Some run)) (ps_resumes st)"
  have u': "keys_unique rr_intent_id ?t" using u by (simp add: table_simps)
  have row': "lookup_row rr_intent_id iid ?t = Some (row\<lparr>rr_run_id := Some run\<rparr>)"
    using row(1) by (simp add: lookup_update_key1)
  have again: "update_where (\<lambda>r. rr_intent_id r = iid) (rr_run_id_update (\<lambda>_. Some run)) ?t = ?t"
    by (auto simp: update_where_def)
  have same: "pg_mark_dispatched iid w run' st' = (if run' = run then Inr st'
       else Inl (Persistence_invariant ''resume intent already belongs to a different run''))"
    using assms(3,4) row(2) again
    by (simp add: st' pg_mark_dispatched_def mark_dispatched_def find_key_and [OF u'] row')
  have pend: "rr_intent_id r \<noteq> iid" if "r \<in> set (ps_resumes st')" "rr_run_id r = None" for r
  proof -
    from that(1) have "r \<in> set ?t" by (simp add: st')
    then show ?thesis by (rule mem_update_whereE) (use that(2) in simp_all)
  qed
  have listed: "\<exists>r \<in> set (ps_resumes st'). rr_intent r = i \<and> rr_intent_id r \<noteq> iid"
    if "pg_list_pending w' limit st' = Inr pending" "i \<in> set pending" for limit pending i
    using pg_list_pending_mem [OF that] pend by blast
  show ?thesis
    by (intro conjI allI impI ballI) (rule same, erule (1) listed)
qed

definition demo_quiet :: "submission \<times> pg_store" where
  "demo_quiet = projr (svc_answer demo_codec (pg_repo demo_codec) (\<lambda>_ x. x) (\<lambda>_. ''a'') ''t1'' demo_answer
     demo_owner (Aware (seconds 2)) demo_pg_asked)"

definition demo_outbox :: pg_store where
  "demo_outbox = snd demo_quiet"

definition demo_dispatched :: pg_store where
  "demo_dispatched = projr (pg_mark_dispatched ''resume-a'' demo_owner ''run-1'' demo_outbox)"

theorem dispatch_is_permanent_witness:
  "pg_mark_dispatched ''resume-a'' demo_owner ''run-2'' demo_dispatched
     = Inl (Persistence_invariant ''resume intent already belongs to a different run'')"
proof -
  have a: "svc_answer demo_codec (pg_repo demo_codec) (\<lambda>_ x. x) (\<lambda>_. ''a'') ''t1'' demo_answer demo_owner
      (Aware (seconds 2)) demo_pg_asked = Inr (fst demo_quiet, demo_outbox)"
    and ok: "answer_ok demo_answer"
    and d: "pg_mark_dispatched ''resume-a'' demo_owner ''run-1'' demo_outbox = Inr demo_dispatched" by code_simp+
  have g: "pg_good demo_codec demo_outbox"
    using postgres.service_step_advances [OF service_step.answer [OF ok a]] by simp
  show ?thesis
    using dispatch_is_permanent [OF g d, of "''run-2''"] by simp
qed

end
