(* ===== verification/Run_Execution.thy ===== *)
theory Run_Execution
  imports Workflow_Task "HOL-Library.Char_ord" "HOL-Library.List_Lexorder"
begin

text \<open>
  The run contracts of \<open>contracts/run_execution.py\<close>: the lifecycle of a run and its allowed
  transitions, requests, frozen snapshots, queue records, attempts and claims, each with the
  predicate its constructor checks. Timestamps stored in these records passed the validator that
  rejects naive values and are instants.
\<close>

subsection \<open>Errors\<close>

text \<open>
  \<open>Snapshot_refused\<close> and \<open>Publication_refused\<close> stand for whatever the snapshot factory or the
  artifact and conversation authorities raise.
\<close>

datatype run_error =
    Run_value_error string
  | Run_validation_error
  | Run_integrity_error
  | Claim_rejected string
  | Queue_overloaded int
  | Run_idempotency_conflict
  | Conversation_busy
  | Task_raised task_error
  | Snapshot_refused string
  | Publication_refused string
  | Lease_conflict string
  | Lease_lost string
  | Run_runtime_error string

definition aware_run_time :: "clock \<Rightarrow> run_error + instant" where
  "aware_run_time c = (case c of Naive \<Rightarrow> Inl (Run_value_error ''Run queue timestamp must be timezone-aware'')
                               | Aware t \<Rightarrow> Inr t)"

lemma aware_run_time_Inr [simp]: "aware_run_time c = Inr now \<longleftrightarrow> c = Aware now"
  by (auto simp: aware_run_time_def split: clock.splits)

subsection \<open>Lifecycle\<close>

datatype run_state = Queued | Running | Finalizing | Succeeded | Run_failed | Timed_out
  | Cancel_requested | Run_cancelled

fun run_terminal :: "run_state \<Rightarrow> bool" where
  "run_terminal Succeeded = True"
| "run_terminal Run_failed = True"
| "run_terminal Timed_out = True"
| "run_terminal Run_cancelled = True"
| "run_terminal _ = False"

fun allowed_run_transition :: "run_state \<Rightarrow> run_state \<Rightarrow> bool" where
  "allowed_run_transition Queued t = (t \<in> {Running, Run_cancelled})"
| "allowed_run_transition Running t = (t \<in> {Finalizing, Cancel_requested, Run_failed, Timed_out})"
| "allowed_run_transition Finalizing t = (t \<in> {Succeeded, Cancel_requested, Run_failed, Timed_out})"
| "allowed_run_transition Cancel_requested t = (t \<in> {Run_cancelled, Run_failed, Timed_out})"
| "allowed_run_transition _ t = False"

definition assert_run_transition :: "run_state \<Rightarrow> run_state \<Rightarrow> run_error + unit" where
  "assert_run_transition s t =
     ensure (allowed_run_transition s t) (Run_value_error ''Run transition is not allowed'')"

lemma assert_run_transition_Inr [simp]: "assert_run_transition s t = Inr u \<longleftrightarrow> allowed_run_transition s t"
  by (simp add: assert_run_transition_def)

lemma terminal_no_transition: "run_terminal s \<Longrightarrow> \<not> allowed_run_transition s t"
  by (cases s) auto

text \<open>States that occupy an execution slot, \<open>_ACTIVE_STATES\<close>.\<close>

fun active_state :: "run_state \<Rightarrow> bool" where
  "active_state Running = True"
| "active_state Finalizing = True"
| "active_state Cancel_requested = True"
| "active_state _ = False"

lemma run_state_cases: "s = Queued \<or> active_state s \<or> run_terminal s"
  by (cases s) auto

lemma active_not_terminal [simp]: "active_state s \<Longrightarrow> \<not> run_terminal s"
  by (cases s) auto

datatype failure_code = Executor_lost | Snapshot_invalid | Deadline_exceeded | Execution_failed
  | Finalization_failed | Artifact_integrity | Code_cancelled

record run_failure =
  rf_code :: failure_code
  rf_detail :: "string option"

definition failure_ok :: "run_failure \<Rightarrow> bool" where
  "failure_ok f \<longleftrightarrow> opt_ok (\<lambda>d. length_between 1 256 d \<and> stripped d
     \<and> list_all (\<lambda>c. (32::int) \<le> of_char c) d) (rf_detail f)"

subsection \<open>Requests\<close>

datatype run_purpose = Production | Validation | Evaluation_sample

datatype receipt_outcome = Answered_with_citations | Refused_no_evidence | Escalated_weak_evidence
  | Waiting_for_approval | Waiting_for_user_clarification | Tool_approval_denied | Policy_denied
  | Failed_with_trace | Failed_receipt_unavailable

record authorization =
  authz_institutions :: "string list"
  authz_regions :: "string list"
  authz_channels :: "string list"
  authz_roles :: "string list"
  authz_business_lines :: "string list"
  authz_public_only :: bool

definition authorization_scopes :: "authorization \<Rightarrow> string list list" where
  "authorization_scopes a = [authz_institutions a, authz_regions a, authz_channels a, authz_roles a,
     authz_business_lines a]"

text \<open>Canonical scopes (stripped, nonblank, sorted without duplicates) and the public boundary.\<close>

definition authorization_ok :: "authorization \<Rightarrow> bool" where
  "authorization_ok a \<longleftrightarrow>
     list_all (\<lambda>xs. list_all (\<lambda>x. x \<noteq> [] \<and> stripped x) xs \<and> sorted xs \<and> distinct xs) (authorization_scopes a)
     \<and> authz_public_only a = list_all (\<lambda>xs. xs = []) (authorization_scopes a)"

record run_request =
  rq_run_id :: string
  rq_operator :: string
  rq_key :: string
  rq_purpose :: run_purpose
  rq_agent_id :: string
  rq_agent_version :: string
  rq_question :: utext
  rq_allow_web :: bool
  rq_conversation :: "string option"
  rq_turn_count :: "int option"
  rq_task_id :: "string option"
  rq_task_version :: "int option"
  rq_task_sha :: "string option"
  rq_mapping_version :: string
  rq_permission_epoch :: int
  rq_authorization :: authorization
  rq_submitted :: instant

definition safe_text :: "int \<Rightarrow> string \<Rightarrow> bool" where
  "safe_text n s \<longleftrightarrow> length_between 1 n s \<and> stripped s \<and> CHR 0x00 \<notin> set s"

definition request_ok :: "run_request \<Rightarrow> bool" where
  "request_ok r \<longleftrightarrow> uuid_ok (rq_run_id r) \<and> safe_text 255 (rq_operator r) \<and> safe_text 128 (rq_key r)
     \<and> safe_text 255 (rq_agent_id r) \<and> uuid_ok (rq_agent_version r)
     \<and> length_between 1 32768 (rq_question r) \<and> 0 \<notin> set (rq_question r)
     \<and> \<not> py_space (hd (rq_question r)) \<and> \<not> py_space (last (rq_question r))
     \<and> opt_ok uuid_ok (rq_conversation r) \<and> opt_ok (\<lambda>n. 0 \<le> n) (rq_turn_count r)
     \<and> opt_ok (length_between 1 128) (rq_task_id r) \<and> opt_ok (\<lambda>n. 1 \<le> n) (rq_task_version r)
     \<and> opt_ok hex64_ok (rq_task_sha r) \<and> uuid_ok (rq_mapping_version r)
     \<and> 1 \<le> rq_permission_epoch r \<and> authorization_ok (rq_authorization r)
     \<and> \<not> (rq_conversation r = None \<and> rq_turn_count r \<noteq> None)
     \<and> (rq_task_id r = None \<longleftrightarrow> rq_task_version r = None)
     \<and> (rq_task_id r = None \<longleftrightarrow> rq_task_sha r = None)"

subsection \<open>Snapshots and results\<close>

record exec_snapshot =
  xs_run_id :: string
  xs_attempt_id :: string
  xs_attempt_number :: int
  xs_release_id :: string
  xs_image_digest :: string
  xs_agent_id :: string
  xs_agent_version :: string
  xs_agent_sha :: string
  xs_knowledge_sha :: string
  xs_model_sha :: string
  xs_egress_version :: string
  xs_egress_sha :: string
  xs_mapping_version :: string
  xs_mapping_sha :: string
  xs_permission_epoch :: int
  xs_authorization_sha :: string
  xs_tool_sha :: string
  xs_handles :: "string list"
  xs_frozen_at :: instant

definition handle_ok :: "string \<Rightarrow> bool" where
  "handle_ok h \<longleftrightarrow> length_between 1 255 h \<and> stripped h \<and> list_all (\<lambda>c. (33::int) \<le> of_char c) h"

definition exec_snapshot_ok :: "exec_snapshot \<Rightarrow> bool" where
  "exec_snapshot_ok x \<longleftrightarrow> uuid_ok (xs_run_id x) \<and> uuid_ok (xs_attempt_id x) \<and> 1 \<le> xs_attempt_number x
     \<and> length_between 1 128 (xs_release_id x) \<and> hex64_ok (xs_image_digest x)
     \<and> length_between 1 255 (xs_agent_id x) \<and> uuid_ok (xs_agent_version x)
     \<and> hex64_ok (xs_agent_sha x) \<and> hex64_ok (xs_knowledge_sha x) \<and> hex64_ok (xs_model_sha x)
     \<and> uuid_ok (xs_egress_version x) \<and> hex64_ok (xs_egress_sha x)
     \<and> uuid_ok (xs_mapping_version x) \<and> hex64_ok (xs_mapping_sha x) \<and> 1 \<le> xs_permission_epoch x
     \<and> hex64_ok (xs_authorization_sha x) \<and> hex64_ok (xs_tool_sha x)
     \<and> len (xs_handles x) \<le> 64 \<and> distinct (xs_handles x) \<and> sorted (xs_handles x)
     \<and> list_all handle_ok (xs_handles x)"

text \<open>Canonical JSON texts and SHA-256 of the run contracts are parameters.\<close>

record run_codec =
  rc_request :: "run_request \<Rightarrow> string"
  rc_snapshot :: "exec_snapshot \<Rightarrow> string"
  rc_sha :: "string \<Rightarrow> string"
  rc_tasks :: codec

text \<open>The digest of a request leaves out its identity and submission time.\<close>

definition request_digest :: "run_codec \<Rightarrow> run_request \<Rightarrow> string" where
  "request_digest C r = rc_sha C (rc_request C (r\<lparr>rq_run_id := [], rq_submitted := 0\<rparr>))"

definition exec_snapshot_digest :: "run_codec \<Rightarrow> exec_snapshot \<Rightarrow> string" where
  "exec_snapshot_digest C x = rc_sha C (rc_snapshot C x)"

record run_result =
  res_available :: bool
  res_manifest :: "string option"
  res_receipt :: "receipt_outcome option"

definition no_result :: run_result where
  "no_result = \<lparr>res_available = False, res_manifest = None, res_receipt = None\<rparr>"

definition result_ok :: "run_result \<Rightarrow> bool" where
  "result_ok r \<longleftrightarrow> opt_ok uuid_ok (res_manifest r) \<and> (res_available r \<longleftrightarrow> res_manifest r \<noteq> None)
     \<and> \<not> (\<not> res_available r \<and> res_receipt r \<noteq> None)"

lemma no_result_ok [simp]: "result_ok no_result" "\<not> res_available no_result"
  by (simp_all add: no_result_def result_ok_def)

text \<open>What a state allows as result and failure, shared by runs and attempts.\<close>

definition outcome_ok :: "run_state \<Rightarrow> run_result \<Rightarrow> run_failure option \<Rightarrow> bool" where
  "outcome_ok s r f \<longleftrightarrow> \<not> (res_available r \<and> s \<noteq> Succeeded) \<and> \<not> (s = Succeeded \<and> f \<noteq> None)
     \<and> \<not> (s \<in> {Run_failed, Timed_out} \<and> f = None)"

subsection \<open>Queue records, attempts, claims\<close>

record queue_record =
  qr_request :: run_request
  qr_sha :: string
  qr_state :: run_state
  qr_version :: int
  qr_result :: run_result
  qr_failure :: "run_failure option"
  qr_enqueued :: instant
  qr_started :: "instant option"
  qr_completed :: "instant option"
  qr_updated :: instant

definition queue_record_ok :: "run_codec \<Rightarrow> queue_record \<Rightarrow> bool" where
  "queue_record_ok C q \<longleftrightarrow> request_ok (qr_request q) \<and> hex64_ok (qr_sha q) \<and> 1 \<le> qr_version q
     \<and> result_ok (qr_result q) \<and> opt_ok failure_ok (qr_failure q)
     \<and> qr_sha q = request_digest C (qr_request q) \<and> qr_enqueued q = rq_submitted (qr_request q)
     \<and> opt_ok (\<lambda>t. qr_enqueued q \<le> t) (qr_started q)
     \<and> opt_ok (\<lambda>t. qr_enqueued q \<le> t) (qr_completed q)
     \<and> (run_terminal (qr_state q) \<longleftrightarrow> qr_completed q \<noteq> None)
     \<and> outcome_ok (qr_state q) (qr_result q) (qr_failure q)"

record attempt =
  at_id :: string
  at_run_id :: string
  at_number :: int
  at_state :: run_state
  at_version :: int
  at_token :: string
  at_fencing :: int
  at_activation :: int
  at_executor :: string
  at_heartbeat :: instant
  at_lease :: instant
  at_deadline :: instant
  at_snapshot :: exec_snapshot
  at_sha :: string
  at_result :: run_result
  at_failure :: "run_failure option"
  at_created :: instant
  at_updated :: instant

definition attempt_ok :: "run_codec \<Rightarrow> attempt \<Rightarrow> bool" where
  "attempt_ok C a \<longleftrightarrow> uuid_ok (at_id a) \<and> uuid_ok (at_run_id a) \<and> 1 \<le> at_number a \<and> 1 \<le> at_version a
     \<and> length_between 32 128 (at_token a) \<and> 1 \<le> at_fencing a \<and> 1 \<le> at_activation a
     \<and> length_between 1 255 (at_executor a) \<and> exec_snapshot_ok (at_snapshot a) \<and> hex64_ok (at_sha a)
     \<and> result_ok (at_result a) \<and> opt_ok failure_ok (at_failure a)
     \<and> at_heartbeat a < at_lease a \<and> at_created a < at_deadline a
     \<and> xs_run_id (at_snapshot a) = at_run_id a \<and> xs_attempt_id (at_snapshot a) = at_id a
     \<and> xs_attempt_number (at_snapshot a) = at_number a
     \<and> at_sha a = exec_snapshot_digest C (at_snapshot a)
     \<and> outcome_ok (at_state a) (at_result a) (at_failure a)"

record claim =
  cl_request :: run_request
  cl_attempt :: attempt

definition claim_ok :: "run_codec \<Rightarrow> claim \<Rightarrow> bool" where
  "claim_ok C c \<longleftrightarrow> request_ok (cl_request c) \<and> attempt_ok C (cl_attempt c)
     \<and> rq_run_id (cl_request c) = at_run_id (cl_attempt c)
     \<and> rq_agent_id (cl_request c) = xs_agent_id (at_snapshot (cl_attempt c))
     \<and> rq_agent_version (cl_request c) = xs_agent_version (at_snapshot (cl_attempt c))"

subsection \<open>Executor slots\<close>

datatype role_state = Standby | Role_active | Draining

record slot_row =
  sl_slot :: int
  sl_state :: role_state
  sl_epoch :: int
  sl_executor :: "string option"
  sl_updated :: instant

definition slot_ok :: "slot_row \<Rightarrow> bool" where
  "slot_ok r \<longleftrightarrow> 1 \<le> sl_slot r \<and> sl_slot r \<le> 2 \<and> 1 \<le> sl_epoch r
     \<and> opt_ok (length_between 1 255) (sl_executor r)
     \<and> (sl_state r = Role_active \<longleftrightarrow> sl_executor r \<noteq> None)"

end
