(* ===== verification/Worker_Roles.thy ===== *)
theory Worker_Roles
  imports Run_Execution
begin

text \<open>
  The fenced ownership lease of a production worker role: \<open>contracts/worker_roles.py\<close> and
  \<open>capabilities/persistence/postgres/worker_role_repository.py\<close>. The table holds one row per role;
  each command is one conditional update of that row, guarded by everything the caller believes
  about its lease.
\<close>

datatype worker_role = Run_executor

record activation =
  wr_role :: worker_role
  wr_slot :: int
  wr_state :: role_state
  wr_epoch :: int
  wr_owner :: "string option"
  wr_heartbeat :: "instant option"
  wr_lease :: "instant option"
  wr_updated :: instant

definition activation_ok :: "activation \<Rightarrow> bool" where
  "activation_ok a \<longleftrightarrow> 1 \<le> wr_slot a \<and> wr_slot a \<le> 2 \<and> 0 \<le> wr_epoch a
     \<and> opt_ok (length_between 1 255) (wr_owner a)
     \<and> (wr_state a \<in> {Role_active, Draining}
          \<longleftrightarrow> wr_owner a \<noteq> None \<and> wr_heartbeat a \<noteq> None \<and> wr_lease a \<noteq> None)
     \<and> \<not> (wr_state a = Standby \<and> (wr_owner a \<noteq> None \<or> wr_heartbeat a \<noteq> None \<or> wr_lease a \<noteq> None))
     \<and> (case (wr_heartbeat a, wr_lease a) of (Some h, Some l) \<Rightarrow> h < l | _ \<Rightarrow> True)"

definition is_live :: "activation \<Rightarrow> instant \<Rightarrow> bool" where
  "is_live a t \<longleftrightarrow> wr_state a \<in> {Role_active, Draining}
     \<and> (case wr_lease a of None \<Rightarrow> False | Some l \<Rightarrow> t < l)"

type_synonym role_table = "activation list"

subsection \<open>Argument checks\<close>

definition role_identity_ok :: "int \<Rightarrow> string \<Rightarrow> run_error + unit" where
  "role_identity_ok slot owner =
     (if slot \<noteq> 1 \<and> slot \<noteq> 2 then Inl (Run_value_error ''Worker role slot must be 1 or 2'')
      else if owner = [] \<or> \<not> stripped owner \<or> 255 < len owner
      then Inl (Run_value_error ''Worker role owner id is invalid'')
      else Inr ())"

definition role_time :: "clock \<Rightarrow> run_error + instant" where
  "role_time c = (case c of Naive \<Rightarrow> Inl (Run_value_error ''Worker role time must be timezone-aware'')
                          | Aware t \<Rightarrow> Inr t)"

definition role_lease_time :: "clock \<Rightarrow> int \<Rightarrow> run_error + instant" where
  "role_lease_time c lease = rbind (role_time c) (\<lambda>now.
     if \<not> (1 \<le> lease \<and> lease \<le> 300)
     then Inl (Run_value_error ''Worker role lease is outside the supported envelope'')
     else Inr now)"

lemma role_time_Inr [simp]: "role_time c = Inr t \<longleftrightarrow> c = Aware t"
  by (auto simp: role_time_def split: clock.splits)

lemma role_lease_time_Inr [simp]:
  "role_lease_time c lease = Inr t \<longleftrightarrow> c = Aware t \<and> 1 \<le> lease \<and> lease \<le> 300"
  by (auto simp: role_lease_time_def)

subsection \<open>Commands\<close>

definition role_get :: "worker_role \<Rightarrow> role_table \<Rightarrow> run_error + activation" where
  "role_get role t = (case lookup_row wr_role role t of
       None \<Rightarrow> Inl (Run_runtime_error ''Worker role authority is not initialized'')
     | Some r \<Rightarrow> if activation_ok r then Inr r else Inl Run_validation_error)"

definition role_write :: "activation \<Rightarrow> int \<Rightarrow> role_table \<Rightarrow> run_error + role_table" where
  "role_write a expected t =
     (if count_where (\<lambda>r. wr_role r = wr_role a \<and> wr_epoch r = expected) t \<noteq> 1
      then Inl (Lease_conflict ''Worker role activation CAS failed'')
      else Inr (update_where (\<lambda>r. wr_role r = wr_role a \<and> wr_epoch r = expected) (\<lambda>_. a) t))"

definition role_activate ::
  "worker_role \<Rightarrow> int \<Rightarrow> string \<Rightarrow> int \<Rightarrow> clock \<Rightarrow> int \<Rightarrow> role_table \<Rightarrow> run_error + (activation \<times> role_table)" where
  "role_activate role slot owner expected c lease t =
     rbind (role_identity_ok slot owner) (\<lambda>_.
     rbind (role_lease_time c lease) (\<lambda>now.
       if expected < 0 then Inl (Run_value_error ''Expected worker role epoch cannot be negative'')
       else rbind (role_get role t) (\<lambda>current.
         if wr_epoch current \<noteq> expected
         then Inl (Lease_conflict ''Worker role activation epoch changed before promotion'')
         else if is_live current now
         then Inl (Lease_conflict ''A live worker role lease must drain or expire before promotion'')
         else let a = \<lparr>wr_role = role, wr_slot = slot, wr_state = Role_active,
                       wr_epoch = wr_epoch current + 1, wr_owner = Some owner, wr_heartbeat = Some now,
                       wr_lease = Some (now + seconds lease), wr_updated = now\<rparr>
              in if \<not> activation_ok a then Inl Run_validation_error
                 else rbind (role_write a (wr_epoch current) t) (\<lambda>t'. Inr (a, t')))))"

text \<open>The row condition of the lease commands: the caller still owns exactly this lease.\<close>

definition owns_lease :: "activation \<Rightarrow> activation \<Rightarrow> bool" where
  "owns_lease a r \<longleftrightarrow> wr_role r = wr_role a \<and> wr_slot r = wr_slot a \<and> wr_state r = wr_state a
     \<and> wr_epoch r = wr_epoch a \<and> wr_owner r = wr_owner a \<and> wr_heartbeat r = wr_heartbeat a
     \<and> wr_lease r = wr_lease a"

definition lease_after :: "instant \<Rightarrow> activation \<Rightarrow> bool" where
  "lease_after now r \<longleftrightarrow> (case wr_lease r of None \<Rightarrow> False | Some l \<Rightarrow> now < l)"

definition role_update ::
  "(activation \<Rightarrow> bool) \<Rightarrow> (activation \<Rightarrow> activation) \<Rightarrow> string \<Rightarrow> activation \<Rightarrow> role_table
     \<Rightarrow> run_error + (activation \<times> role_table)" where
  "role_update P f msg result t =
     (if count_where P t \<noteq> 1 then Inl (Lease_lost msg) else Inr (result, update_where P f t))"

definition role_heartbeat ::
  "activation \<Rightarrow> clock \<Rightarrow> int \<Rightarrow> role_table \<Rightarrow> run_error + (activation \<times> role_table)" where
  "role_heartbeat a c lease t =
     rbind (role_lease_time c lease) (\<lambda>now.
       if wr_state a = Standby then Inl (Lease_lost ''A standby worker role has no lease to renew'')
       else if (case wr_heartbeat a of None \<Rightarrow> True | Some h \<Rightarrow> now < h)
       then Inl (Run_value_error ''Worker role heartbeat time cannot move backwards'')
       else let f = (\<lambda>r. r\<lparr>wr_heartbeat := Some now, wr_lease := Some (now + seconds lease), wr_updated := now\<rparr>)
            in role_update (\<lambda>r. owns_lease a r \<and> lease_after now r) f
                 ''Worker role lease is expired or fenced'' (f a) t)"

definition role_begin_draining ::
  "activation \<Rightarrow> clock \<Rightarrow> role_table \<Rightarrow> run_error + (activation \<times> role_table)" where
  "role_begin_draining a c t =
     rbind (role_time c) (\<lambda>now.
       if wr_state a \<noteq> Role_active
       then Inl (Lease_lost ''Only an active worker role can begin draining'')
       else let f = (\<lambda>r. r\<lparr>wr_state := Draining, wr_updated := now\<rparr>)
            in role_update (\<lambda>r. owns_lease a r \<and> lease_after now r) f
                 ''Worker role lease is expired or fenced'' (f a) t)"

definition role_resume_active ::
  "activation \<Rightarrow> clock \<Rightarrow> role_table \<Rightarrow> run_error + (activation \<times> role_table)" where
  "role_resume_active a c t =
     rbind (role_time c) (\<lambda>now.
       if wr_state a \<noteq> Draining then Inl (Lease_lost ''Only a draining worker role can resume'')
       else let f = (\<lambda>r. r\<lparr>wr_state := Role_active, wr_updated := now\<rparr>)
            in role_update (\<lambda>r. owns_lease a r \<and> lease_after now r) f
                 ''Worker role lease is expired or fenced'' (f a) t)"

definition role_release ::
  "activation \<Rightarrow> clock \<Rightarrow> role_table \<Rightarrow> run_error + (activation \<times> role_table)" where
  "role_release a c t =
     rbind (role_time c) (\<lambda>now.
       if wr_state a = Standby then Inl (Lease_lost ''A standby worker role has no lease to release'')
       else let f = (\<lambda>r. r\<lparr>wr_state := Standby, wr_owner := None, wr_heartbeat := None, wr_lease := None,
                           wr_updated := now\<rparr>)
            in role_update (owns_lease a) f ''Worker role lease is fenced'' (f a) t)"

subsection \<open>Fencing\<close>

inductive role_step :: "role_table \<Rightarrow> role_table \<Rightarrow> bool" where
  activate: "role_activate role slot owner v c lease t = Inr (a, t') \<Longrightarrow> role_step t t'"
| heartbeat: "role_heartbeat a c lease t = Inr (a', t') \<Longrightarrow> role_step t t'"
| drain: "role_begin_draining a c t = Inr (a', t') \<Longrightarrow> role_step t t'"
| resume: "role_resume_active a c t = Inr (a', t') \<Longrightarrow> role_step t t'"
| release: "role_release a c t = Inr (a', t') \<Longrightarrow> role_step t t'"

definition roles_inv :: "role_table \<Rightarrow> bool" where
  "roles_inv t \<longleftrightarrow> keys_unique wr_role t \<and> (\<forall>r \<in> set t. activation_ok r)"

text \<open>Epochs never go back, and within an epoch slot and owner are fixed until release.\<close>

definition role_evolves :: "activation \<Rightarrow> activation \<Rightarrow> bool" where
  "role_evolves r r' \<longleftrightarrow> wr_role r' = wr_role r \<and> wr_epoch r \<le> wr_epoch r'
     \<and> (wr_epoch r' = wr_epoch r \<longrightarrow> wr_slot r' = wr_slot r \<and> (wr_owner r' = wr_owner r \<or> wr_owner r' = None))"

definition roles_evolve :: "role_table \<Rightarrow> role_table \<Rightarrow> bool" where
  "roles_evolve t t' \<longleftrightarrow> (\<forall>role r. lookup_row wr_role role t = Some r \<longrightarrow>
     (\<exists>r'. lookup_row wr_role role t' = Some r' \<and> role_evolves r r'))"

lemma role_evolves_refl [simp]: "role_evolves r r"
  by (simp add: role_evolves_def)

lemma role_evolves_trans: "role_evolves a b \<Longrightarrow> role_evolves b c \<Longrightarrow> role_evolves a c"
  by (fastforce simp: role_evolves_def)

lemma roles_evolve_refl [simp]: "roles_evolve t t"
  by (auto simp: roles_evolve_def)

lemma roles_evolve_trans: "roles_evolve a b \<Longrightarrow> roles_evolve b c \<Longrightarrow> roles_evolve a c"
  unfolding roles_evolve_def by (meson role_evolves_trans)

lemma role_getE:
  assumes "role_get role t = Inr r"
  shows "r \<in> set t" "wr_role r = role" "activation_ok r" "lookup_row wr_role role t = Some r"
  using assms by (auto simp: role_get_def dest: lookup_row_SomeD split: option.splits if_splits)

text \<open>A conditional update that keeps the role, as a replacement of one row.\<close>

lemma role_replaced:
  assumes inv: "roles_inv t" and r: "r \<in> set t" and r': "wr_role r' = wr_role r" "activation_ok r'" "role_evolves r r'"
  shows "roles_inv (put_row wr_role r' t) \<and> roles_evolve t (put_row wr_role r' t)"
proof -
  have k: "keys_unique wr_role t" using inv by (simp add: roles_inv_def)
  have "roles_inv (put_row wr_role r' t)"
    using inv r' keys_unique_put_row [OF k r r'(1), of wr_role] by (auto simp: roles_inv_def set_put_row [OF k r r'(1)])
  moreover have "roles_evolve t (put_row wr_role r' t)"
    using r'(3) lookup_row_unique [OF k r] by (auto simp: roles_evolve_def lookup_put_row [OF k r r'(1)])
  ultimately show ?thesis by blast
qed

lemma role_updateE:
  assumes "role_update P f msg res t = Inr (res', t')" and "keys_unique wr_role t"
    and "\<And>x. P x \<Longrightarrow> owns_lease a x" and "\<And>x. wr_role (f x) = wr_role x"
  obtains r where "r \<in> set t" "P r" "t' = put_row wr_role (f r) t" "res' = res"
proof -
  from assms(1) have one: "count_where P t = 1" and t': "t' = update_where P f t" "res' = res"
    by (auto simp: role_update_def)
  from one obtain r where r: "r \<in> set t" "P r" by (rule count_where_eq1E)
  have "update_where P f t = put_row wr_role (f r) t"
    by (rule update_where_is_put_row [OF assms(2) r(1), of P])
       (use r(2) assms(3) [of r] assms(3,4) in \<open>auto simp: owns_lease_def\<close>)
  with r t' show ?thesis by (intro that) simp_all
qed

lemma role_activateE:
  assumes "role_activate role slot owner v c lease t = Inr (a, t')" and "roles_inv t"
  obtains now cur where "c = Aware now" "role_get role t = Inr cur" "wr_epoch cur = v" "\<not> is_live cur now"
    "a = \<lparr>wr_role = role, wr_slot = slot, wr_state = Role_active, wr_epoch = v + 1, wr_owner = Some owner,
          wr_heartbeat = Some now, wr_lease = Some (now + seconds lease), wr_updated = now\<rparr>"
    "activation_ok a" "t' = put_row wr_role a t"
proof -
  from assms(1) obtain now cur where now: "c = Aware now" and cur: "role_get role t = Inr cur" "wr_epoch cur = v"
    "\<not> is_live cur now"
    and a: "a = \<lparr>wr_role = role, wr_slot = slot, wr_state = Role_active, wr_epoch = v + 1, wr_owner = Some owner,
          wr_heartbeat = Some now, wr_lease = Some (now + seconds lease), wr_updated = now\<rparr>" "activation_ok a"
    and w: "role_write a (wr_epoch cur) t = Inr t'"
    by (auto simp: role_activate_def Let_def)
  note g = role_getE [OF cur(1)]
  have k: "keys_unique wr_role t" using assms(2) by (simp add: roles_inv_def)
  have "t' = update_where (\<lambda>r. wr_role r = wr_role a \<and> wr_epoch r = wr_epoch cur) (\<lambda>_. a) t"
    using w by (auto simp: role_write_def)
  also have "\<dots> = put_row wr_role a t"
    by (rule update_where_is_put_row [OF k g(1), of "\<lambda>r. wr_role r = wr_role a \<and> wr_epoch r = wr_epoch cur"])
       (use g(2) a(1) in simp_all)
  finally show ?thesis using that [OF now cur a] by simp
qed

lemma role_step_keeps:
  assumes "role_step t t'" and inv: "roles_inv t"
  shows "roles_inv t' \<and> roles_evolve t t'"
proof -
  have k: "keys_unique wr_role t" using inv by (simp add: roles_inv_def)
  have act: "activation_ok r" if "r \<in> set t" for r using inv that by (simp add: roles_inv_def)
  from assms(1) show ?thesis
  proof cases
    case (activate role slot owner v c lease a)
    then obtain cur where c: "role_get role t = Inr cur" "wr_epoch cur = v"
      "wr_role a = role" "wr_epoch a = v + 1" "activation_ok a" "t' = put_row wr_role a t"
      by (rule role_activateE [OF _ inv]) simp
    note g = role_getE [OF c(1)]
    show ?thesis unfolding c(6)
      by (rule role_replaced [OF inv g(1)]) (use g(2) c in \<open>simp_all add: role_evolves_def\<close>)
  next
    case (heartbeat a c lease a')
    then obtain now where l: "1 \<le> lease" and h: "role_update (\<lambda>r. owns_lease a r \<and> lease_after now r)
        (\<lambda>r. r\<lparr>wr_heartbeat := Some now, wr_lease := Some (now + seconds lease), wr_updated := now\<rparr>)
        ''Worker role lease is expired or fenced''
        (a\<lparr>wr_heartbeat := Some now, wr_lease := Some (now + seconds lease), wr_updated := now\<rparr>) t = Inr (a', t')"
      by (auto simp: role_heartbeat_def Let_def split: if_splits)
    from role_updateE [OF h k, of a] obtain r where r: "r \<in> set t" "lease_after now r"
      "t' = put_row wr_role (r\<lparr>wr_heartbeat := Some now, wr_lease := Some (now + seconds lease), wr_updated := now\<rparr>) t"
      by auto
    have owned: "wr_state r = Role_active \<or> wr_state r = Draining"
      using act [OF r(1)] r(2) by (cases "wr_state r") (auto simp: activation_ok_def lease_after_def)
    show ?thesis unfolding r(3)
      by (rule role_replaced [OF inv r(1)])
         (use act [OF r(1)] owned l in \<open>auto simp: role_evolves_def activation_ok_def\<close>)
  next
    case (drain a c a')
    then obtain now where h: "role_update (\<lambda>r. owns_lease a r \<and> lease_after now r)
        (\<lambda>r. r\<lparr>wr_state := Draining, wr_updated := now\<rparr>) ''Worker role lease is expired or fenced''
        (a\<lparr>wr_state := Draining, wr_updated := now\<rparr>) t = Inr (a', t')" and s: "wr_state a = Role_active"
      by (auto simp: role_begin_draining_def Let_def split: if_splits)
    from role_updateE [OF h k, of a] obtain r where r: "r \<in> set t" "owns_lease a r"
      "t' = put_row wr_role (r\<lparr>wr_state := Draining, wr_updated := now\<rparr>) t" by auto
    show ?thesis unfolding r(3)
      by (rule role_replaced [OF inv r(1)])
         (use act [OF r(1)] r(2) s in \<open>auto simp: role_evolves_def activation_ok_def owns_lease_def\<close>)
  next
    case (resume a c a')
    then obtain now where h: "role_update (\<lambda>r. owns_lease a r \<and> lease_after now r)
        (\<lambda>r. r\<lparr>wr_state := Role_active, wr_updated := now\<rparr>) ''Worker role lease is expired or fenced''
        (a\<lparr>wr_state := Role_active, wr_updated := now\<rparr>) t = Inr (a', t')" and s: "wr_state a = Draining"
      by (auto simp: role_resume_active_def Let_def split: if_splits)
    from role_updateE [OF h k, of a] obtain r where r: "r \<in> set t" "owns_lease a r"
      "t' = put_row wr_role (r\<lparr>wr_state := Role_active, wr_updated := now\<rparr>) t" by auto
    show ?thesis unfolding r(3)
      by (rule role_replaced [OF inv r(1)])
         (use act [OF r(1)] r(2) s in \<open>auto simp: role_evolves_def activation_ok_def owns_lease_def\<close>)
  next
    case (release a c a')
    then obtain now where h: "role_update (owns_lease a)
        (\<lambda>r. r\<lparr>wr_state := Standby, wr_owner := None, wr_heartbeat := None, wr_lease := None, wr_updated := now\<rparr>)
        ''Worker role lease is fenced''
        (a\<lparr>wr_state := Standby, wr_owner := None, wr_heartbeat := None, wr_lease := None, wr_updated := now\<rparr>) t
        = Inr (a', t')"
      by (auto simp: role_release_def Let_def split: if_splits)
    from role_updateE [OF h k, of a] obtain r where r: "r \<in> set t"
      "t' = put_row wr_role (r\<lparr>wr_state := Standby, wr_owner := None, wr_heartbeat := None, wr_lease := None,
          wr_updated := now\<rparr>) t" by auto
    show ?thesis unfolding r(2)
      by (rule role_replaced [OF inv r(1)]) (use act [OF r(1)] in \<open>auto simp: role_evolves_def activation_ok_def\<close>)
  qed
qed

lemma role_history_keeps:
  assumes "role_step\<^sup>*\<^sup>* t t'" and "roles_inv t"
  shows "roles_inv t' \<and> roles_evolve t t'"
  using assms(1)
proof (induction rule: rtranclp_induct)
  case base with assms(2) show ?case by simp
next
  case (step y z)
  with role_step_keeps [OF step.hyps(2)] show ?case by (blast intro: roles_evolve_trans)
qed

text \<open>A lease command that fails changes nothing; it fails for any lease of a past epoch.\<close>

lemma owns_lease_epoch:
  assumes "roles_inv t" and "lookup_row wr_role (wr_role a) t = Some r" and "wr_epoch r \<noteq> wr_epoch a"
  shows "count_where (\<lambda>x. owns_lease a x \<and> P x) t = 0" and "count_where (owns_lease a) t = 0"
proof -
  have "\<not> owns_lease a x" if "x \<in> set t" for x
  proof
    assume o: "owns_lease a x"
    then have "lookup_row wr_role (wr_role a) t = Some x"
      using assms(1) that lookup_row_eqI [of wr_role t x "wr_role a"] by (simp add: roles_inv_def owns_lease_def)
    with assms(2,3) o show False by (simp add: owns_lease_def)
  qed
  then show "count_where (\<lambda>x. owns_lease a x \<and> P x) t = 0" "count_where (owns_lease a) t = 0"
    by (simp_all add: count_where_zero_iff)
qed

end
