(* ===== verification/Run_Queue.thy ===== *)
theory Run_Queue
  imports Worker_Roles Task_Store Task_Service "HOL-Library.Option_ord"
begin

text \<open>
  The run authority of \<open>capabilities/persistence/postgres/run_queue_repository.py\<close>: bounded
  admission, fair claims, fenced attempts and the terminal commits. A store is the tables the
  repository reads and writes; an operation is one transaction, so it is a function on stores and an
  exception leaves the store as it was. Admission, claims, finalization, cancellation, the terminal
  commits and the reaper hold the queue's advisory lock, the activation of a role holds another one, and
  a heartbeat only locks its attempt's row, so that a reaper running beside it passes over that row. The
  artifact and conversation authorities that a successful commit also writes are parameters, over
  a part of the store of their own.
\<close>

subsection \<open>Artifacts and turns, as the queue sees them\<close>

datatype artifact_kind = Run_trace | Governance_receipt | Validation_capture | Knowledge_source
  | Knowledge_index_member | Knowledge_manifest | Agent_configuration_bundle | Evaluation_evidence
  | Release_manifest | Html_report | Bundle_index | Release_attestation | Release_closure_audit
  | Release_evidence | Software_bill_of_materials | Build_provenance | Artifact_manifest

record artifact_owner =
  ao_type :: string
  ao_id :: string

record object_version =
  ov_id :: string
  ov_bucket :: string
  ov_key :: string
  ov_version :: string
  ov_sha :: string
  ov_size :: int
  ov_kind :: artifact_kind
  ov_owner :: artifact_owner
  ov_content_type :: string
  ov_created :: instant
  ov_expires :: "instant option"
  ov_filename :: "string option"

record manifest =
  mf_id :: string
  mf_owner :: artifact_owner
  mf_members :: "(string \<times> object_version) list"
  mf_created :: instant

text \<open>A conversation turn; \<open>tn_rest\<close> is the text of the fields the queue only passes on.\<close>

record turn =
  tn_id :: string
  tn_run_id :: string
  tn_agent_id :: string
  tn_question :: utext
  tn_created :: string
  tn_rest :: string

record 'x authorities =
  au_bind :: "manifest \<Rightarrow> object_version \<Rightarrow> 'x \<Rightarrow> run_error + (bool \<times> 'x)"
  au_append :: "string \<Rightarrow> turn \<Rightarrow> int \<Rightarrow> 'x \<Rightarrow> run_error + 'x"

subsection \<open>Tables\<close>

record run_row =
  rw_run_id :: string
  rw_state :: run_state
  rw_version :: int
  rw_purpose :: run_purpose
  rw_agent_id :: string
  rw_agent_version :: string
  rw_submitted_by :: string
  rw_sha :: string
  rw_key :: string
  rw_conversation :: "string option"
  rw_request :: run_request
  rw_enqueued :: instant
  rw_started :: "instant option"
  rw_completed :: "instant option"
  rw_result :: run_result
  rw_failure :: "run_failure option"
  rw_created :: instant
  rw_updated :: instant

record attempt_row =
  ar_id :: string
  ar_run_id :: string
  ar_number :: int
  ar_state :: run_state
  ar_version :: int
  ar_fencing :: int
  ar_token :: string
  ar_activation :: int
  ar_executor :: string
  ar_heartbeat :: instant
  ar_lease :: instant
  ar_deadline :: instant
  ar_result :: run_result
  ar_failure :: "run_failure option"
  ar_json :: attempt
  ar_created :: instant
  ar_updated :: instant

record fairness_row =
  fa_operator :: string
  fa_last :: instant
  fa_count :: int

record 'x run_store =
  rs_runs :: "run_row list"
  rs_attempts :: "attempt_row list"
  rs_slots :: "slot_row list"
  rs_fairness :: "fairness_row list"
  rs_fence :: int
  rs_roles :: role_table
  rs_versions :: "string list"
  rs_tasks :: pg_store
  rs_ext :: 'x

text \<open>
  The CHECK constraints of the two tables that an update can run into: time order, and a result is
  bound exactly to a succeeded row.
\<close>

definition result_bound :: "run_state \<Rightarrow> run_result \<Rightarrow> bool" where
  "result_bound s r \<longleftrightarrow>
     (res_available r \<and> res_manifest r \<noteq> None \<and> s = Succeeded \<or> \<not> res_available r \<and> res_manifest r = None)
     \<and> (res_receipt r = None \<or> s = Succeeded \<and> res_available r)"

definition run_row_checks :: "run_row \<Rightarrow> bool" where
  "run_row_checks r \<longleftrightarrow> 0 < rw_version r \<and> rw_created r \<le> rw_updated r \<and> result_bound (rw_state r) (rw_result r)"

definition attempt_row_checks :: "attempt_row \<Rightarrow> bool" where
  "attempt_row_checks r \<longleftrightarrow> 0 < ar_version r \<and> ar_created r \<le> ar_updated r \<and> ar_state r \<noteq> Queued
     \<and> result_bound (ar_state r) (ar_result r)"

definition max_queued :: int where "max_queued = 50"
definition max_active :: int where "max_active = 5"
definition max_deadline :: int where "max_deadline = 120"

subsection \<open>Reading and writing rows\<close>

definition record_from_row :: "run_codec \<Rightarrow> run_row \<Rightarrow> run_error + queue_record" where
  "record_from_row C r =
     (let q = \<lparr>qr_request = rw_request r, qr_sha = rw_sha r, qr_state = rw_state r,
               qr_version = rw_version r, qr_result = rw_result r, qr_failure = rw_failure r,
               qr_enqueued = rw_enqueued r, qr_started = rw_started r, qr_completed = rw_completed r,
               qr_updated = rw_updated r\<rparr>
      in if queue_record_ok C q then Inr q else Inl Run_validation_error)"

definition attempt_from_row :: "run_codec \<Rightarrow> attempt_row \<Rightarrow> run_error + attempt" where
  "attempt_from_row C r = (if attempt_ok C (ar_json r) then Inr (ar_json r) else Inl Run_validation_error)"

definition locked_run :: "run_codec \<Rightarrow> string \<Rightarrow> 'x run_store \<Rightarrow> run_error + queue_record" where
  "locked_run C run_id st =
     (if \<not> uuid_ok run_id then Inl (Task_raised (Persistence_invariant ''run_id must be a full UUID''))
      else case lookup_row rw_run_id run_id (rs_runs st) of
             None \<Rightarrow> Inl (Claim_rejected ''Run does not exist'')
           | Some r \<Rightarrow> record_from_row C r)"

text \<open>\<open>_write_attempt\<close> and \<open>_write_run\<close>: the columns set, and the fence of the update.\<close>

definition attempt_columns :: "attempt \<Rightarrow> attempt_row \<Rightarrow> attempt_row" where
  "attempt_columns a r = r\<lparr>ar_state := at_state a, ar_version := at_version a,
     ar_heartbeat := at_heartbeat a, ar_lease := at_lease a, ar_result := at_result a,
     ar_failure := at_failure a, ar_json := a, ar_updated := at_updated a\<rparr>"

definition attempt_fence :: "attempt \<Rightarrow> int \<Rightarrow> attempt_row \<Rightarrow> bool" where
  "attempt_fence a expected r \<longleftrightarrow> ar_id r = at_id a \<and> ar_version r = expected \<and> ar_token r = at_token a
     \<and> ar_fencing r = at_fencing a \<and> ar_activation r = at_activation a"

definition write_attempt :: "attempt \<Rightarrow> int \<Rightarrow> 'x run_store \<Rightarrow> run_error + 'x run_store" where
  "write_attempt a expected st =
     (if list_ex (\<lambda>r. attempt_fence a expected r \<and> \<not> attempt_row_checks (attempt_columns a r)) (rs_attempts st)
      then Inl Run_integrity_error
      else if count_where (attempt_fence a expected) (rs_attempts st) \<noteq> 1
      then Inl (Claim_rejected ''Run Attempt conditional update was fenced'')
      else Inr (st\<lparr>rs_attempts := update_where (attempt_fence a expected) (attempt_columns a) (rs_attempts st)\<rparr>))"

definition run_columns :: "queue_record \<Rightarrow> run_row \<Rightarrow> run_row" where
  "run_columns q r = r\<lparr>rw_state := qr_state q, rw_version := qr_version q, rw_started := qr_started q,
     rw_completed := qr_completed q, rw_result := qr_result q, rw_failure := qr_failure q,
     rw_updated := qr_updated q\<rparr>"

definition run_fence :: "queue_record \<Rightarrow> run_state \<Rightarrow> int \<Rightarrow> run_row \<Rightarrow> bool" where
  "run_fence q state version r \<longleftrightarrow> rw_run_id r = rq_run_id (qr_request q) \<and> rw_state r = state
     \<and> rw_version r = version"

definition write_run ::
  "queue_record \<Rightarrow> run_state \<Rightarrow> int \<Rightarrow> 'x run_store \<Rightarrow> run_error + 'x run_store" where
  "write_run q state version st =
     (if list_ex (\<lambda>r. run_fence q state version r \<and> \<not> run_row_checks (run_columns q r)) (rs_runs st)
      then Inl Run_integrity_error
      else if count_where (run_fence q state version) (rs_runs st) \<noteq> 1
      then Inl (Claim_rejected ''Run conditional update was fenced'')
      else Inr (st\<lparr>rs_runs := update_where (run_fence q state version) (run_columns q) (rs_runs st)\<rparr>))"

subsection \<open>Admission and reading\<close>

definition queued_count :: "'x run_store \<Rightarrow> int" where
  "queued_count st = int (count_where (\<lambda>r. rw_state r = Queued) (rs_runs st))"

definition busy_conversation :: "string \<Rightarrow> 'x run_store \<Rightarrow> bool" where
  "busy_conversation cid st \<longleftrightarrow>
     list_ex (\<lambda>r. rw_conversation r = Some cid \<and> (rw_state r = Queued \<or> active_state (rw_state r))) (rs_runs st)"

definition new_queue_record :: "run_codec \<Rightarrow> run_request \<Rightarrow> queue_record" where
  "new_queue_record C q = \<lparr>qr_request = q, qr_sha = request_digest C q, qr_state = Queued, qr_version = 1,
     qr_result = no_result, qr_failure = None, qr_enqueued = rq_submitted q, qr_started = None,
     qr_completed = None, qr_updated = rq_submitted q\<rparr>"

definition new_run_row :: "run_codec \<Rightarrow> run_request \<Rightarrow> run_row" where
  "new_run_row C q = \<lparr>rw_run_id = rq_run_id q, rw_state = Queued, rw_version = 1, rw_purpose = rq_purpose q,
     rw_agent_id = rq_agent_id q, rw_agent_version = rq_agent_version q, rw_submitted_by = rq_operator q,
     rw_sha = request_digest C q, rw_key = rq_key q, rw_conversation = rq_conversation q, rw_request = q,
     rw_enqueued = rq_submitted q, rw_started = None, rw_completed = None, rw_result = no_result,
     rw_failure = None, rw_created = rq_submitted q, rw_updated = rq_submitted q\<rparr>"

text \<open>
  \<open>INSERT INTO runs\<close> fails on a used run id or an unknown agent version; the unique indexes on
  operator and key and on active conversations repeat what \<open>admit\<close> has just checked.
\<close>

definition insert_run :: "run_row \<Rightarrow> 'x run_store \<Rightarrow> run_error + 'x run_store" where
  "insert_run r st =
     (if lookup_row rw_run_id (rw_run_id r) (rs_runs st) \<noteq> None
         \<or> rw_agent_version r \<notin> set (rs_versions st)
      then Inl Run_integrity_error
      else Inr (st\<lparr>rs_runs := rs_runs st @ [r]\<rparr>))"

definition rq_admit :: "run_codec \<Rightarrow> run_request \<Rightarrow> 'x run_store \<Rightarrow> run_error + ((queue_record \<times> bool) \<times> 'x run_store)" where
  "rq_admit C q st =
     (case find (\<lambda>r. rw_submitted_by r = rq_operator q \<and> rw_key r = rq_key q) (rs_runs st) of
        Some existing \<Rightarrow>
          if rw_sha existing \<noteq> request_digest C q then Inl Run_idempotency_conflict
          else rbind (record_from_row C existing) (\<lambda>record. Inr ((record, False), st))
      | None \<Rightarrow>
          if max_queued \<le> queued_count st then Inl (Queue_overloaded max_queued)
          else if (case rq_conversation q of None \<Rightarrow> False | Some cid \<Rightarrow> busy_conversation cid st)
          then Inl Conversation_busy
          else if \<not> queue_record_ok C (new_queue_record C q) then Inl Run_validation_error
          else rbind (insert_run (new_run_row C q) st) (\<lambda>st'. Inr ((new_queue_record C q, True), st')))"

definition rq_get :: "run_codec \<Rightarrow> string \<Rightarrow> 'x run_store \<Rightarrow> run_error + queue_record option" where
  "rq_get C run_id st =
     (if \<not> uuid_ok run_id then Inl (Task_raised (Persistence_invariant ''run_id must be a full UUID''))
      else case lookup_row rw_run_id run_id (rs_runs st) of
             None \<Rightarrow> Inr None
           | Some r \<Rightarrow> rbind (record_from_row C r) (\<lambda>q. Inr (Some q)))"

fun decode_rows :: "run_codec \<Rightarrow> run_row list \<Rightarrow> run_error + queue_record list" where
  "decode_rows C [] = Inr []"
| "decode_rows C (r # rs) = rbind (record_from_row C r) (\<lambda>q. rbind (decode_rows C rs) (\<lambda>qs. Inr (q # qs)))"

text \<open>\<open>ORDER BY created_at DESC, run_id DESC\<close>.\<close>

definition newest_first :: "run_row list \<Rightarrow> run_row list" where
  "newest_first rs = rev (sort_key rw_created (sort_key rw_run_id rs))"

definition rq_list :: "run_codec \<Rightarrow> int \<Rightarrow> 'x run_store \<Rightarrow> run_error + queue_record list" where
  "rq_list C limit st =
     (if \<not> (1 \<le> limit \<and> limit \<le> 500) then Inl (Run_value_error ''Run list limit must be between 1 and 500'')
      else decode_rows C (take (nat limit) (newest_first (rs_runs st))))"

subsection \<open>Executor roles\<close>

text \<open>The worker-role lease that an executor must hold, and the executor slot it activates.\<close>

definition worker_lease_live :: "int \<Rightarrow> string \<Rightarrow> instant \<Rightarrow> bool \<Rightarrow> 'x run_store \<Rightarrow> bool" where
  "worker_lease_live slot executor now allow_draining st \<longleftrightarrow>
     list_ex (\<lambda>r. wr_role r = Run_executor \<and> wr_slot r = slot
        \<and> (wr_state r = Role_active \<or> allow_draining \<and> wr_state r = Draining)
        \<and> wr_owner r = Some executor \<and> lease_after now r) (rs_roles st)"

definition require_worker_lease ::
  "int \<Rightarrow> string \<Rightarrow> instant \<Rightarrow> bool \<Rightarrow> 'x run_store \<Rightarrow> run_error + unit" where
  "require_worker_lease slot executor now allow_draining st =
     ensure (worker_lease_live slot executor now allow_draining st)
       (Claim_rejected ''Run Executor worker-role lease is not live'')"

definition require_active_role ::
  "int \<Rightarrow> string \<Rightarrow> int \<Rightarrow> instant \<Rightarrow> bool \<Rightarrow> 'x run_store \<Rightarrow> run_error + unit" where
  "require_active_role slot executor epoch now allow_draining st =
     (if \<not> list_ex (\<lambda>r. sl_slot r = slot \<and> sl_state r = Role_active \<and> sl_executor r = Some executor
                       \<and> sl_epoch r = epoch) (rs_slots st)
      then Inl (Claim_rejected ''Run Executor role is not active at this epoch'')
      else require_worker_lease slot executor now allow_draining st)"

definition max_epoch :: "'x run_store \<Rightarrow> int" where
  "max_epoch st = fold (\<lambda>r m. max m (sl_epoch r)) (rs_slots st) 0"

definition standby_slot :: "instant \<Rightarrow> slot_row \<Rightarrow> slot_row" where
  "standby_slot now r = r\<lparr>sl_state := Standby, sl_executor := None, sl_updated := now\<rparr>"

definition rq_activate_role ::
  "int \<Rightarrow> string \<Rightarrow> clock \<Rightarrow> 'x run_store \<Rightarrow> run_error + (slot_row \<times> 'x run_store)" where
  "rq_activate_role slot executor c st =
     (if slot \<noteq> 1 \<and> slot \<noteq> 2 then Inl (Run_value_error ''Run Executor slot must be 1 or 2'')
      else if executor = [] \<or> 255 < len executor then Inl (Run_value_error ''Run Executor id is invalid'')
      else rbind (aware_run_time c) (\<lambda>now.
           rbind (require_worker_lease slot executor now False st) (\<lambda>_.
             let a = \<lparr>sl_slot = slot, sl_state = Role_active, sl_epoch = max_epoch st + 1,
                      sl_executor = Some executor, sl_updated = now\<rparr>
             in if \<not> slot_ok a then Inl Run_validation_error
                else Inr (a, st\<lparr>rs_slots := dict_put sl_slot a
                  (update_where (\<lambda>r. sl_state r = Role_active) (standby_slot now) (rs_slots st))\<rparr>))))"

subsection \<open>Claiming\<close>

text \<open>
  \<open>_fair_claim_select\<close>: among the oldest queued run of each operator, the one whose operator was
  served longest ago, never-served operators first, then by age and id. The select skips locked rows,
  but no transaction outside the queue's advisory lock, which a claim holds, locks a queued run.
\<close>

definition earlier_run :: "run_row \<Rightarrow> run_row \<Rightarrow> bool" where
  "earlier_run e r \<longleftrightarrow> rw_created e < rw_created r \<or> rw_created e = rw_created r \<and> rw_run_id e < rw_run_id r"

definition operator_head :: "run_row list \<Rightarrow> run_row \<Rightarrow> bool" where
  "operator_head rs r \<longleftrightarrow> rw_state r = Queued
     \<and> \<not> list_ex (\<lambda>e. rw_state e = Queued \<and> rw_submitted_by e = rw_submitted_by r \<and> earlier_run e r) rs"

definition last_served :: "fairness_row list \<Rightarrow> string \<Rightarrow> instant option" where
  "last_served t operator = map_option fa_last (lookup_row fa_operator operator t)"

definition fair_order :: "fairness_row list \<Rightarrow> run_row list \<Rightarrow> run_row list" where
  "fair_order t rs = sort_key (\<lambda>r. last_served t (rw_submitted_by r)) (sort_key rw_created (sort_key rw_run_id rs))"

definition fair_claim :: "'x run_store \<Rightarrow> run_row option" where
  "fair_claim st = (case fair_order (rs_fairness st) (filter (operator_head (rs_runs st)) (rs_runs st)) of
       [] \<Rightarrow> None | r # _ \<Rightarrow> Some r)"

definition active_count :: "'x run_store \<Rightarrow> int" where
  "active_count st = int (count_where (\<lambda>r. active_state (ar_state r)) (rs_attempts st))"

definition last_number :: "string \<Rightarrow> 'x run_store \<Rightarrow> int" where
  "last_number run_id st = fold (\<lambda>r m. if ar_run_id r = run_id then max m (ar_number r) else m) (rs_attempts st) 0"

definition served :: "string \<Rightarrow> instant \<Rightarrow> fairness_row list \<Rightarrow> fairness_row list" where
  "served operator now t =
     (case lookup_row fa_operator operator t of
        None \<Rightarrow> t @ [\<lparr>fa_operator = operator, fa_last = now, fa_count = 1\<rparr>]
      | Some _ \<Rightarrow> update_where (\<lambda>r. fa_operator r = operator)
                    (\<lambda>r. r\<lparr>fa_last := now, fa_count := fa_count r + 1\<rparr>) t)"

definition new_attempt ::
  "run_codec \<Rightarrow> string \<Rightarrow> string \<Rightarrow> int \<Rightarrow> string \<Rightarrow> int \<Rightarrow> int \<Rightarrow> string \<Rightarrow> instant \<Rightarrow> int \<Rightarrow> int \<Rightarrow> exec_snapshot \<Rightarrow> attempt" where
  "new_attempt C aid run_id number token fencing epoch executor now lease deadline x =
     \<lparr>at_id = aid, at_run_id = run_id, at_number = number, at_state = Running, at_version = 1,
      at_token = token, at_fencing = fencing, at_activation = epoch, at_executor = executor,
      at_heartbeat = now, at_lease = now + seconds lease, at_deadline = now + seconds deadline,
      at_snapshot = x, at_sha = exec_snapshot_digest C x, at_result = no_result, at_failure = None,
      at_created = now, at_updated = now\<rparr>"

definition new_attempt_row :: "attempt \<Rightarrow> attempt_row" where
  "new_attempt_row a = \<lparr>ar_id = at_id a, ar_run_id = at_run_id a, ar_number = at_number a,
     ar_state = at_state a, ar_version = at_version a, ar_fencing = at_fencing a, ar_token = at_token a,
     ar_activation = at_activation a, ar_executor = at_executor a, ar_heartbeat = at_heartbeat a,
     ar_lease = at_lease a, ar_deadline = at_deadline a, ar_result = at_result a,
     ar_failure = at_failure a, ar_json = a, ar_created = at_created a, ar_updated = at_updated a\<rparr>"

definition running_record :: "run_row \<Rightarrow> instant \<Rightarrow> queue_record" where
  "running_record r now = \<lparr>qr_request = rw_request r, qr_sha = rw_sha r, qr_state = Running,
     qr_version = rw_version r + 1, qr_result = no_result, qr_failure = None,
     qr_enqueued = rw_enqueued r, qr_started = Some now, qr_completed = None, qr_updated = now\<rparr>"

text \<open>
  The claim transaction once a run was selected; \<open>aid\<close>, \<open>token\<close> are the fresh identifiers and
  \<open>factory\<close> the snapshot authority.
\<close>

definition start_run :: "instant \<Rightarrow> run_row \<Rightarrow> run_row" where
  "start_run now r = r\<lparr>rw_state := Running, rw_version := rw_version r + 1, rw_started := Some now,
     rw_updated := now\<rparr>"

definition unclaimed :: "run_row \<Rightarrow> run_row \<Rightarrow> bool" where
  "unclaimed r x \<longleftrightarrow> rw_run_id x = rw_run_id r \<and> rw_state x = Queued \<and> rw_version x = rw_version r"

definition claim_run ::
  "run_codec \<Rightarrow> string \<Rightarrow> int \<Rightarrow> instant \<Rightarrow> int \<Rightarrow> int \<Rightarrow> (run_request \<Rightarrow> string \<Rightarrow> int \<Rightarrow> instant \<Rightarrow> run_error + exec_snapshot)
     \<Rightarrow> string \<Rightarrow> string \<Rightarrow> run_row \<Rightarrow> 'x run_store \<Rightarrow> run_error + (claim \<times> 'x run_store)" where
  "claim_run C executor epoch now lease deadline factory aid token r st =
     (if \<not> request_ok (rw_request r) then Inl Run_validation_error
      else let request = rw_request r; number = last_number (rw_run_id r) st + 1; fencing = rs_fence st + 1
      in rbind (factory request aid number now) (\<lambda>x.
         if xs_run_id x \<noteq> rq_run_id request \<or> xs_attempt_id x \<noteq> aid \<or> xs_attempt_number x \<noteq> number
         then Inl (Run_value_error ''Snapshot authority returned a mismatched Run identity'')
         else let a = new_attempt C aid (rq_run_id request) number token fencing epoch executor now lease deadline x
         in if \<not> attempt_ok C a then Inl Run_validation_error
         else if lookup_row ar_id aid (rs_attempts st) \<noteq> None then Inl Run_integrity_error
         else if \<not> queue_record_ok C (running_record r now) then Inl Run_validation_error
         else if \<not> run_row_checks (start_run now r) then Inl Run_integrity_error
         else if count_where (unclaimed r) (rs_runs st) \<noteq> 1
         then Inl (Claim_rejected ''Queued Run changed during its claim'')
         else if \<not> claim_ok C \<lparr>cl_request = request, cl_attempt = a\<rparr> then Inl Run_validation_error
         else Inr (\<lparr>cl_request = request, cl_attempt = a\<rparr>,
                st\<lparr>rs_attempts := rs_attempts st @ [new_attempt_row a], rs_fence := fencing,
                   rs_runs := update_where (unclaimed r) (start_run now) (rs_runs st),
                   rs_fairness := served (rq_operator request) now (rs_fairness st)\<rparr>)))"

definition claim_bounds_ok :: "int \<Rightarrow> int \<Rightarrow> run_error + unit" where
  "claim_bounds_ok lease deadline =
     (if \<not> (1 \<le> lease \<and> lease \<le> max_deadline)
      then Inl (Run_value_error ''Run lease seconds are outside the supported envelope'')
      else if \<not> (1 \<le> deadline \<and> deadline \<le> max_deadline)
      then Inl (Run_value_error ''Run deadline seconds are outside the supported envelope'')
      else if deadline \<le> lease
      then Inl (Run_value_error ''Run lease must be shorter than the Attempt deadline'')
      else Inr ())"

definition rq_claim_next ::
  "run_codec \<Rightarrow> int \<Rightarrow> string \<Rightarrow> int \<Rightarrow> clock \<Rightarrow> int \<Rightarrow> int \<Rightarrow> (run_request \<Rightarrow> string \<Rightarrow> int \<Rightarrow> instant \<Rightarrow> run_error + exec_snapshot)
     \<Rightarrow> string \<Rightarrow> string \<Rightarrow> 'x run_store \<Rightarrow> run_error + (claim option \<times> 'x run_store)" where
  "rq_claim_next C slot executor epoch c lease deadline factory aid token st =
     rbind (aware_run_time c) (\<lambda>now.
     rbind (claim_bounds_ok lease deadline) (\<lambda>_.
     rbind (require_active_role slot executor epoch now False st) (\<lambda>_.
       if max_active \<le> active_count st then Inr (None, st)
       else case fair_claim st of
              None \<Rightarrow> Inr (None, st)
            | Some r \<Rightarrow> rbind (claim_run C executor epoch now lease deadline factory aid token r st)
                          (\<lambda>(cl, st'). Inr (Some cl, st')))))"

end
