(* ===== verification/Run_Commands.thy ===== *)
theory Run_Commands
  imports Run_Queue
begin

text \<open>
  The commands of the run authority on a claimed run: heartbeat, finalization, cancellation, the
  two terminal commits and the reaping of expired leases. Each first proves that the caller still
  owns the attempt (role slot, role lease, claim token, fencing epoch, lease, deadline) and then
  writes the attempt and its run with conditional updates.
\<close>

subsection \<open>Ownership\<close>

text \<open>The active slot of the claim's activation; more than one is impossible under its index.\<close>

definition active_slot_for_claim :: "claim \<Rightarrow> 'x run_store \<Rightarrow> run_error + int" where
  "active_slot_for_claim cl st =
     (case find (\<lambda>r. sl_state r = Role_active \<and> sl_epoch r = at_activation (cl_attempt cl)
                  \<and> sl_executor r = Some (at_executor (cl_attempt cl))) (rs_slots st) of
        None \<Rightarrow> Inl (Claim_rejected ''Run Executor activation is stale'')
      | Some r \<Rightarrow> Inr (sl_slot r))"

definition claim_matches :: "attempt \<Rightarrow> attempt_row \<Rightarrow> bool" where
  "claim_matches a r \<longleftrightarrow> ar_run_id r = at_run_id a \<and> ar_token r = at_token a \<and> ar_fencing r = at_fencing a
     \<and> ar_activation r = at_activation a \<and> ar_executor r = at_executor a"

definition lock_owned_attempt ::
  "claim \<Rightarrow> instant \<Rightarrow> bool \<Rightarrow> 'x run_store \<Rightarrow> run_error + attempt_row" where
  "lock_owned_attempt cl now allow_deadline_expired st =
     rbind (active_slot_for_claim cl st) (\<lambda>slot.
     rbind (require_active_role slot (at_executor (cl_attempt cl)) (at_activation (cl_attempt cl)) now True st) (\<lambda>_.
       case lookup_row ar_id (at_id (cl_attempt cl)) (rs_attempts st) of
         None \<Rightarrow> Inl (Claim_rejected ''Run Attempt does not exist'')
       | Some r \<Rightarrow>
           if \<not> claim_matches (cl_attempt cl) r
           then Inl (Claim_rejected ''Run Attempt claim is stale or fenced'')
           else if \<not> active_state (ar_state r) then Inl (Claim_rejected ''Run Attempt is already terminal'')
           else if ar_lease r \<le> now then Inl (Claim_rejected ''Run Attempt lease has expired'')
           else if \<not> allow_deadline_expired \<and> ar_deadline r \<le> now
           then Inl (Claim_rejected ''Run Attempt deadline has expired'')
           else Inr r))"

subsection \<open>Heartbeat and finalization\<close>

definition rq_heartbeat ::
  "run_codec \<Rightarrow> claim \<Rightarrow> clock \<Rightarrow> int \<Rightarrow> 'x run_store \<Rightarrow> run_error + (claim \<times> 'x run_store)" where
  "rq_heartbeat C cl c lease st =
     rbind (aware_run_time c) (\<lambda>now.
       if \<not> (1 \<le> lease \<and> lease \<le> max_deadline)
       then Inl (Run_value_error ''Run lease seconds are outside the supported envelope'')
       else rbind (lock_owned_attempt cl now False st) (\<lambda>row.
         rbind (attempt_from_row C row) (\<lambda>a.
           let expiry = min (now + seconds lease) (at_deadline a) in
           if expiry \<le> now then Inl (Claim_rejected ''Run Attempt deadline has expired'')
           else let renewed = a\<lparr>at_heartbeat := now, at_lease := expiry, at_updated := now\<rparr>
             in rbind (write_attempt renewed (at_version a) st) (\<lambda>st'.
                  if \<not> claim_ok C \<lparr>cl_request = cl_request cl, cl_attempt = renewed\<rparr>
                  then Inl Run_validation_error
                  else Inr (\<lparr>cl_request = cl_request cl, cl_attempt = renewed\<rparr>, st')))))"

text \<open>Advancing an attempt and its run to the same state, with the same outcome.\<close>

definition advanced_attempt ::
  "run_state \<Rightarrow> run_result \<Rightarrow> run_failure option \<Rightarrow> instant \<Rightarrow> attempt \<Rightarrow> attempt" where
  "advanced_attempt target result failure now a = a\<lparr>at_state := target, at_version := at_version a + 1,
     at_result := result, at_failure := failure, at_updated := now\<rparr>"

definition advanced_run ::
  "run_state \<Rightarrow> run_result \<Rightarrow> run_failure option \<Rightarrow> instant option \<Rightarrow> instant \<Rightarrow> queue_record \<Rightarrow> queue_record" where
  "advanced_run target result failure completed now q = q\<lparr>qr_state := target, qr_version := qr_version q + 1,
     qr_result := result, qr_failure := failure, qr_completed := completed, qr_updated := now\<rparr>"

definition rq_mark_finalizing ::
  "run_codec \<Rightarrow> claim \<Rightarrow> clock \<Rightarrow> 'x run_store \<Rightarrow> run_error + (claim \<times> 'x run_store)" where
  "rq_mark_finalizing C cl c st =
     rbind (aware_run_time c) (\<lambda>now.
     rbind (lock_owned_attempt cl now False st) (\<lambda>row.
     rbind (attempt_from_row C row) (\<lambda>a.
     rbind (assert_run_transition (at_state a) Finalizing) (\<lambda>_.
       let fa = advanced_attempt Finalizing (at_result a) (at_failure a) now a in
     rbind (write_attempt fa (at_version a) st) (\<lambda>st1.
     rbind (locked_run C (rq_run_id (cl_request cl)) st1) (\<lambda>q.
       if qr_state q \<noteq> Running then Inl (Claim_rejected ''Run is no longer running'')
       else rbind (write_run (advanced_run Finalizing (qr_result q) (qr_failure q) (qr_completed q) now q)
                     Running (qr_version q) st1) (\<lambda>st2.
         if \<not> claim_ok C \<lparr>cl_request = cl_request cl, cl_attempt = fa\<rparr> then Inl Run_validation_error
         else Inr (\<lparr>cl_request = cl_request cl, cl_attempt = fa\<rparr>, st2))))))))"

subsection \<open>Cancellation\<close>

text \<open>The latest attempt of the run that is in the run's own state.\<close>

definition cancellable_attempt :: "string \<Rightarrow> run_state \<Rightarrow> 'x run_store \<Rightarrow> attempt_row option" where
  "cancellable_attempt run_id s st =
     (case rev (sort_key ar_number (filter (\<lambda>r. ar_run_id r = run_id \<and> ar_state r = s) (rs_attempts st))) of
        [] \<Rightarrow> None | r # _ \<Rightarrow> Some r)"

definition cancel_run ::
  "run_codec \<Rightarrow> string \<Rightarrow> instant \<Rightarrow> queue_record \<Rightarrow> 'x run_store \<Rightarrow> run_error + (queue_record \<times> 'x run_store)" where
  "cancel_run C run_id now q st =
     (if run_terminal (qr_state q) \<or> qr_state q = Cancel_requested then Inr (q, st)
      else if qr_state q = Queued
      then let cancelled = advanced_run Run_cancelled (qr_result q)
                 (Some \<lparr>rf_code = Code_cancelled, rf_detail = None\<rparr>) (Some now) now q
           in rbind (write_run cancelled Queued (qr_version q) st) (\<lambda>st'. Inr (cancelled, st'))
      else case cancellable_attempt run_id (qr_state q) st of
             None \<Rightarrow> Inl (Claim_rejected ''Run has no cancellable Attempt'')
           | Some row \<Rightarrow>
               rbind (attempt_from_row C row) (\<lambda>a.
               rbind (assert_run_transition (at_state a) Cancel_requested) (\<lambda>_.
               rbind (write_attempt (advanced_attempt Cancel_requested (at_result a) (at_failure a) now a)
                        (at_version a) st) (\<lambda>st1.
                 let cancel = advanced_run Cancel_requested (qr_result q) (qr_failure q) (qr_completed q) now q
                 in rbind (write_run cancel (qr_state q) (qr_version q) st1) (\<lambda>st2. Inr (cancel, st2))))))"

definition rq_request_cancel ::
  "run_codec \<Rightarrow> string \<Rightarrow> string \<Rightarrow> clock \<Rightarrow> 'x run_store \<Rightarrow> run_error + (queue_record \<times> 'x run_store)" where
  "rq_request_cancel C run_id operator c st =
     rbind (aware_run_time c) (\<lambda>now.
     rbind (locked_run C run_id st) (\<lambda>q.
       if rq_operator (qr_request q) \<noteq> operator
       then Inl (Claim_rejected ''Run is not owned by this operator'')
       else cancel_run C run_id now q st))"

subsection \<open>Task bookkeeping\<close>

definition task_owner :: "run_request \<Rightarrow> owner" where
  "task_owner q = \<lparr>actor_subject = rq_operator q, owner_agent_id = rq_agent_id q,
     owner_agent_version = rq_agent_version q\<rparr>"

definition lift_task :: "task_error + 'a \<Rightarrow> run_error + 'a" where
  "lift_task r = map_sum Task_raised id r"

lemma lift_task_Inr [simp]: "lift_task r = Inr a \<longleftrightarrow> r = Inr a"
  by (cases r) (auto simp: lift_task_def)

definition record_failed_task ::
  "run_codec \<Rightarrow> run_request \<Rightarrow> instant \<Rightarrow> 'x run_store \<Rightarrow> run_error + 'x run_store" where
  "record_failed_task C q now st =
     (case rq_task_id q of
        None \<Rightarrow> Inr st
      | Some tid \<Rightarrow>
          if \<not> owner_ok (task_owner q) then Inl (Task_raised Validation_error)
          else rbind (lift_task (svc_record_failed_run (pg_repo (rc_tasks C)) tid (rq_run_id q) (task_owner q)
                        (Aware now) (rs_tasks st))) (\<lambda>(_, tasks). Inr (st\<lparr>rs_tasks := tasks\<rparr>)))"

subsection \<open>Terminal commits\<close>

definition rq_commit_failure ::
  "run_codec \<Rightarrow> claim \<Rightarrow> run_state \<Rightarrow> run_failure \<Rightarrow> clock \<Rightarrow> 'x run_store \<Rightarrow> run_error + (queue_record \<times> 'x run_store)" where
  "rq_commit_failure C cl target failure c st =
     (if target \<notin> {Run_failed, Timed_out, Run_cancelled}
      then Inl (Run_value_error ''Terminal failure target is invalid'')
      else rbind (aware_run_time c) (\<lambda>now.
        rbind (lock_owned_attempt cl now (target = Timed_out) st) (\<lambda>row.
        rbind (attempt_from_row C row) (\<lambda>a.
        rbind (assert_run_transition (at_state a) target) (\<lambda>_.
        rbind (write_attempt (advanced_attempt target no_result (Some failure) now a) (at_version a) st) (\<lambda>st1.
        rbind (locked_run C (rq_run_id (cl_request cl)) st1) (\<lambda>q.
        rbind (assert_run_transition (qr_state q) target) (\<lambda>_.
          let q' = advanced_run target no_result (Some failure) (Some now) now q in
        rbind (write_run q' (qr_state q) (qr_version q) st1) (\<lambda>st2.
        rbind (record_failed_task C (qr_request q) now st2) (\<lambda>st3. Inr (q', st3)))))))))))"

definition success_arguments_ok ::
  "claim \<Rightarrow> manifest \<Rightarrow> object_version \<Rightarrow> turn option \<Rightarrow> int option \<Rightarrow> task_update option \<Rightarrow> run_error + unit" where
  "success_arguments_ok cl m ref turn count upd =
     (let q = cl_request cl in
      if (rq_task_id q = None) \<noteq> (upd = None)
      then Inl (Run_value_error ''Task Run completion requires its exact internal task update'')
      else if ov_kind ref \<noteq> Artifact_manifest
      then Inl (Run_value_error ''Run success requires an artifact manifest object'')
      else if ao_type (mf_owner m) \<noteq> ''run_attempt'' \<or> ao_id (mf_owner m) \<noteq> at_id (cl_attempt cl)
              \<or> ov_owner ref \<noteq> mf_owner m
      then Inl (Run_value_error ''Run artifact manifest owner does not match the Attempt'')
      else case rq_conversation q of
             None \<Rightarrow> ensure (turn = None \<and> count = None)
               (Run_value_error ''Conversation Turn cannot be attached to a standalone Run'')
           | Some _ \<Rightarrow>
               (case turn of
                  None \<Rightarrow> Inl (Run_value_error ''Conversation Run success requires its frozen Turn append'')
                | Some t \<Rightarrow>
                    if count = None \<or> rq_turn_count q \<noteq> count
                    then Inl (Run_value_error ''Conversation Run success requires its frozen Turn append'')
                    else ensure (tn_run_id t = rq_run_id q \<and> tn_agent_id t = rq_agent_id q
                                 \<and> tn_question t = rq_question q)
                           (Run_value_error ''Conversation Turn does not match the frozen Run request'')))"

definition append_turn_step ::
  "'x authorities \<Rightarrow> run_request \<Rightarrow> turn option \<Rightarrow> int option \<Rightarrow> 'x run_store \<Rightarrow> run_error + 'x run_store" where
  "append_turn_step A q turn count st =
     (case (rq_conversation q, turn, count) of
        (Some cid, Some t, Some n) \<Rightarrow> rbind (au_append A cid t n (rs_ext st)) (\<lambda>x. Inr (st\<lparr>rs_ext := x\<rparr>))
      | _ \<Rightarrow> Inr st)"

definition task_update_step ::
  "run_codec \<Rightarrow> run_request \<Rightarrow> task_update option \<Rightarrow> instant \<Rightarrow> 'x run_store \<Rightarrow> run_error + 'x run_store" where
  "task_update_step C q upd now st =
     (case upd of
        None \<Rightarrow> Inr st
      | Some u \<Rightarrow>
          (case rq_task_sha q of
             None \<Rightarrow> Inl (Claim_rejected ''task update does not match the claimed Run'')
           | Some sha \<Rightarrow>
               if Some (upd_task_id u) \<noteq> rq_task_id q \<or> Some (upd_expected_version u) \<noteq> rq_task_version q
               then Inl (Claim_rejected ''task update does not match the claimed Run'')
               else if \<not> owner_ok (task_owner q) then Inl (Task_raised Validation_error)
               else rbind (lift_task (svc_apply_update (rc_tasks C) (pg_repo (rc_tasks C)) u (task_owner q)
                             (Aware now) (rq_run_id q) sha (rs_tasks st)))
                      (\<lambda>(_, tasks). Inr (st\<lparr>rs_tasks := tasks\<rparr>))))"

definition rq_commit_success ::
  "run_codec \<Rightarrow> 'x authorities \<Rightarrow> claim \<Rightarrow> manifest \<Rightarrow> object_version \<Rightarrow> clock \<Rightarrow> receipt_outcome option
     \<Rightarrow> turn option \<Rightarrow> int option \<Rightarrow> task_update option \<Rightarrow> 'x run_store
     \<Rightarrow> run_error + (queue_record \<times> 'x run_store)" where
  "rq_commit_success C A cl m ref c receipt turn count upd st =
     rbind (aware_run_time c) (\<lambda>now.
     rbind (success_arguments_ok cl m ref turn count upd) (\<lambda>_.
     rbind (lock_owned_attempt cl now False st) (\<lambda>row.
     rbind (attempt_from_row C row) (\<lambda>a.
       if at_state a \<noteq> Finalizing then Inl (Claim_rejected ''Only a finalizing Attempt can succeed'')
       else rbind (locked_run C (rq_run_id (cl_request cl)) st) (\<lambda>q.
         if qr_state q \<noteq> Finalizing then Inl (Claim_rejected ''Run is no longer finalizing'')
         else rbind (au_bind A m ref (rs_ext st)) (\<lambda>(available, x).
           if \<not> available then Inl (Claim_rejected ''Artifact authority did not expose the result'')
           else let result = \<lparr>res_available = True, res_manifest = Some (mf_id m), res_receipt = receipt\<rparr>;
                    q' = advanced_run Succeeded result None (Some now) now q
             in if \<not> result_ok result then Inl Run_validation_error
             else rbind (write_attempt (advanced_attempt Succeeded result None now a) (at_version a)
                           (st\<lparr>rs_ext := x\<rparr>)) (\<lambda>st1.
                  rbind (write_run q' Finalizing (qr_version q) st1) (\<lambda>st2.
                  rbind (append_turn_step A (cl_request cl) turn count st2) (\<lambda>st3.
                  rbind (task_update_step C (cl_request cl) upd now st3) (\<lambda>st4. Inr (q', st4)))))))))))"

subsection \<open>Reaping\<close>

definition reap_row :: "run_codec \<Rightarrow> instant \<Rightarrow> attempt_row \<Rightarrow> 'x run_store \<Rightarrow> run_error + 'x run_store" where
  "reap_row C now row st =
     rbind (attempt_from_row C row) (\<lambda>a.
       let failure = Some \<lparr>rf_code = Executor_lost, rf_detail = None\<rparr> in
     rbind (write_attempt (advanced_attempt Run_failed no_result failure now a) (at_version a) st) (\<lambda>st1.
     rbind (locked_run C (at_run_id a) st1) (\<lambda>q.
       if \<not> active_state (qr_state q)
       then Inl (Claim_rejected ''Expired Attempt disagrees with durable Run state'')
       else rbind (write_run (advanced_run Run_failed no_result failure (Some now) now q) (qr_state q)
                     (qr_version q) st1) (\<lambda>st2.
            record_failed_task C (qr_request q) now st2))))"

fun reap_rows :: "run_codec \<Rightarrow> instant \<Rightarrow> attempt_row list \<Rightarrow> int \<Rightarrow> 'x run_store \<Rightarrow> run_error + (int \<times> 'x run_store)" where
  "reap_rows C now [] n st = Inr (n, st)"
| "reap_rows C now (row # rows) n st = rbind (reap_row C now row st) (reap_rows C now rows (n + 1))"

text \<open>
  The reaper selects with \<open>skip_locked\<close>: it passes over a row that another transaction has locked at
  that moment, as a heartbeat does, which does not take the queue's advisory lock. \<open>busy\<close> tells which
  attempts are locked; it may be any.
\<close>

definition expired_attempts :: "(string \<Rightarrow> bool) \<Rightarrow> instant \<Rightarrow> 'x run_store \<Rightarrow> attempt_row list" where
  "expired_attempts busy now st =
     sort_key ar_lease (filter (\<lambda>r. active_state (ar_state r) \<and> ar_lease r \<le> now \<and> \<not> busy (ar_id r)) (rs_attempts st))"

definition rq_reap :: "run_codec \<Rightarrow> (string \<Rightarrow> bool) \<Rightarrow> clock \<Rightarrow> 'x run_store \<Rightarrow> run_error + (int \<times> 'x run_store)" where
  "rq_reap C busy c st = rbind (aware_run_time c) (\<lambda>now. reap_rows C now (expired_attempts busy now st) 0 st)"

end
