(* ===== verification/Run_Core.thy ===== *)
theory Run_Core
  imports Run_Commands
begin

text \<open>
  The abstract run queue: runs, attempts and the fencing sequence, and the six kinds of change the
  repository's commands make to them. The invariant of the queue is proved here once for the six
  kinds of change; \<open>Run_Refinement\<close> shows that every command of the code is a sequence of them.
\<close>

subsection \<open>Row consistency\<close>

text \<open>A row that decodes, with its key columns copied from the decoded record.\<close>

definition run_row_good :: "run_codec \<Rightarrow> run_row \<Rightarrow> bool" where
  "run_row_good C r \<longleftrightarrow> (\<exists>q. record_from_row C r = Inr q) \<and> rw_run_id r = rq_run_id (rw_request r)
     \<and> rw_submitted_by r = rq_operator (rw_request r) \<and> rw_key r = rq_key (rw_request r)
     \<and> rw_conversation r = rq_conversation (rw_request r) \<and> rw_created r = rw_enqueued r"

definition attempt_row_good :: "run_codec \<Rightarrow> attempt_row \<Rightarrow> bool" where
  "attempt_row_good C x \<longleftrightarrow> attempt_ok C (ar_json x) \<and> ar_id x = at_id (ar_json x)
     \<and> ar_run_id x = at_run_id (ar_json x) \<and> ar_number x = at_number (ar_json x)
     \<and> ar_state x = at_state (ar_json x) \<and> ar_version x = at_version (ar_json x)
     \<and> ar_fencing x = at_fencing (ar_json x) \<and> ar_token x = at_token (ar_json x)
     \<and> ar_activation x = at_activation (ar_json x) \<and> ar_executor x = at_executor (ar_json x)
     \<and> ar_heartbeat x = at_heartbeat (ar_json x) \<and> ar_lease x = at_lease (ar_json x)
     \<and> ar_deadline x = at_deadline (ar_json x) \<and> ar_result x = at_result (ar_json x)
     \<and> ar_failure x = at_failure (ar_json x) \<and> ar_state x \<noteq> Queued"

text \<open>What no command changes of a run or of an attempt.\<close>

definition same_run :: "run_row \<Rightarrow> run_row \<Rightarrow> bool" where
  "same_run r r' \<longleftrightarrow> rw_run_id r' = rw_run_id r \<and> rw_submitted_by r' = rw_submitted_by r \<and> rw_key r' = rw_key r
     \<and> rw_sha r' = rw_sha r \<and> rw_conversation r' = rw_conversation r \<and> rw_request r' = rw_request r
     \<and> rw_created r' = rw_created r"

definition same_attempt :: "attempt_row \<Rightarrow> attempt_row \<Rightarrow> bool" where
  "same_attempt x x' \<longleftrightarrow> ar_id x' = ar_id x \<and> ar_run_id x' = ar_run_id x \<and> ar_fencing x' = ar_fencing x
     \<and> ar_activation x' = ar_activation x \<and> ar_token x' = ar_token x \<and> ar_deadline x' = ar_deadline x"

definition open_run :: "run_row \<Rightarrow> bool" where
  "open_run r \<longleftrightarrow> rw_state r = Queued \<or> active_state (rw_state r)"

definition open_attempt :: "attempt_row \<Rightarrow> bool" where
  "open_attempt x \<longleftrightarrow> active_state (ar_state x)"

lemma same_run_refl [simp]: "same_run r r"
  by (simp add: same_run_def)

lemma same_run_trans: "same_run a b \<Longrightarrow> same_run b c \<Longrightarrow> same_run a c"
  by (simp add: same_run_def)

subsection \<open>Changes\<close>

type_synonym queue = "run_row list \<times> attempt_row list \<times> int"

definition queue_of :: "'x run_store \<Rightarrow> queue" where
  "queue_of st = (rs_runs st, rs_attempts st, rs_fence st)"

inductive queue_change :: "run_codec \<Rightarrow> queue \<Rightarrow> queue \<Rightarrow> bool" for C :: run_codec where
  admit: "lookup_row rw_run_id (rw_run_id r) rs = None \<Longrightarrow>
    \<forall>x \<in> set rs. \<not> (rw_submitted_by x = rw_submitted_by r \<and> rw_key x = rw_key r) \<Longrightarrow>
    int (count_where (\<lambda>x. rw_state x = Queued) rs) < max_queued \<Longrightarrow>
    \<forall>x \<in> set rs. open_run x \<longrightarrow> rw_conversation r \<noteq> None \<longrightarrow> rw_conversation x \<noteq> rw_conversation r \<Longrightarrow>
    run_row_good C r \<Longrightarrow> rw_state r = Queued \<Longrightarrow> queue_change C (rs, xs, n) (rs @ [r], xs, n)"
| start: "r \<in> set rs \<Longrightarrow> rw_state r = Queued \<Longrightarrow> same_run r r' \<Longrightarrow> run_row_good C r' \<Longrightarrow>
    rw_state r' = Running \<Longrightarrow> rw_version r < rw_version r' \<Longrightarrow>
    int (count_where open_attempt xs) < max_active \<Longrightarrow> lookup_row ar_id (ar_id x) xs = None \<Longrightarrow>
    attempt_row_good C x \<Longrightarrow> ar_run_id x = rw_run_id r \<Longrightarrow> ar_state x = Running \<Longrightarrow> ar_fencing x = n + 1 \<Longrightarrow>
    queue_change C (rs, xs, n) (put_row rw_run_id r' rs, xs @ [x], n + 1)"
| renew: "x \<in> set xs \<Longrightarrow> same_attempt x x' \<Longrightarrow> attempt_row_good C x' \<Longrightarrow> ar_state x' = ar_state x \<Longrightarrow>
    queue_change C (rs, xs, n) (rs, put_row ar_id x' xs, n)"
| withdraw: "r \<in> set rs \<Longrightarrow> rw_state r = Queued \<Longrightarrow> same_run r r' \<Longrightarrow> run_row_good C r' \<Longrightarrow>
    rw_state r' = Run_cancelled \<Longrightarrow> rw_version r < rw_version r' \<Longrightarrow>
    queue_change C (rs, xs, n) (put_row rw_run_id r' rs, xs, n)"
| advance: "x \<in> set xs \<Longrightarrow> r \<in> set rs \<Longrightarrow> ar_run_id x = rw_run_id r \<Longrightarrow> rw_state r = ar_state x \<Longrightarrow>
    allowed_run_transition (rw_state r) (rw_state r') \<Longrightarrow> active_state (rw_state r) \<Longrightarrow>
    same_run r r' \<Longrightarrow> run_row_good C r' \<Longrightarrow> rw_version r < rw_version r' \<Longrightarrow>
    same_attempt x x' \<Longrightarrow> attempt_row_good C x' \<Longrightarrow> ar_state x' = rw_state r' \<Longrightarrow>
    queue_change C (rs, xs, n) (put_row rw_run_id r' rs, put_row ar_id x' xs, n)"

subsection \<open>The invariant\<close>

definition runs_inv :: "run_codec \<Rightarrow> run_row list \<Rightarrow> bool" where
  "runs_inv C rs \<longleftrightarrow> keys_unique rw_run_id rs \<and> keys_unique (\<lambda>r. (rw_submitted_by r, rw_key r)) rs
     \<and> (\<forall>r \<in> set rs. run_row_good C r)
     \<and> (\<forall>r \<in> set rs. \<forall>r' \<in> set rs. open_run r \<longrightarrow> open_run r' \<longrightarrow> rw_conversation r \<noteq> None \<longrightarrow>
          rw_conversation r' = rw_conversation r \<longrightarrow> r' = r)"

definition attempts_inv :: "run_codec \<Rightarrow> int \<Rightarrow> attempt_row list \<Rightarrow> bool" where
  "attempts_inv C n xs \<longleftrightarrow> keys_unique ar_id xs \<and> keys_unique ar_fencing xs
     \<and> (\<forall>x \<in> set xs. attempt_row_good C x \<and> ar_fencing x \<le> n)"

text \<open>
  Every open attempt belongs to a run in the same state; every active run has an open attempt; no
  run has two.
\<close>

definition agreement :: "run_row list \<Rightarrow> attempt_row list \<Rightarrow> bool" where
  "agreement rs xs \<longleftrightarrow>
     (\<forall>x \<in> set xs. open_attempt x \<longrightarrow> (\<exists>r \<in> set rs. rw_run_id r = ar_run_id x \<and> rw_state r = ar_state x))
     \<and> (\<forall>r \<in> set rs. active_state (rw_state r) \<longrightarrow> (\<exists>x \<in> set xs. open_attempt x \<and> ar_run_id x = rw_run_id r))
     \<and> (\<forall>x \<in> set xs. \<forall>y \<in> set xs. open_attempt x \<longrightarrow> open_attempt y \<longrightarrow> ar_run_id x = ar_run_id y \<longrightarrow> x = y)"

lemma agreement_runE:
  assumes "agreement rs xs" and "x \<in> set xs" and "open_attempt x"
  obtains r where "r \<in> set rs" "rw_run_id r = ar_run_id x" "rw_state r = ar_state x"
  using assms unfolding agreement_def by blast

lemma agreement_attemptE:
  assumes "agreement rs xs" and "r \<in> set rs" and "active_state (rw_state r)"
  obtains x where "x \<in> set xs" "open_attempt x" "ar_run_id x = rw_run_id r"
  using assms unfolding agreement_def by blast

lemma agreement_same:
  "agreement rs xs \<Longrightarrow> x \<in> set xs \<Longrightarrow> y \<in> set xs \<Longrightarrow> open_attempt x \<Longrightarrow> open_attempt y \<Longrightarrow>
     ar_run_id x = ar_run_id y \<Longrightarrow> x = y"
  unfolding agreement_def by blast

lemma agreementI:
  assumes "\<And>x. x \<in> set xs \<Longrightarrow> open_attempt x \<Longrightarrow> \<exists>r \<in> set rs. rw_run_id r = ar_run_id x \<and> rw_state r = ar_state x"
    and "\<And>r. r \<in> set rs \<Longrightarrow> active_state (rw_state r) \<Longrightarrow> \<exists>x \<in> set xs. open_attempt x \<and> ar_run_id x = rw_run_id r"
    and "\<And>x y. x \<in> set xs \<Longrightarrow> y \<in> set xs \<Longrightarrow> open_attempt x \<Longrightarrow> open_attempt y \<Longrightarrow>
           ar_run_id x = ar_run_id y \<Longrightarrow> x = y"
  shows "agreement rs xs"
  unfolding agreement_def using assms by blast

definition bounded :: "run_row list \<Rightarrow> attempt_row list \<Rightarrow> bool" where
  "bounded rs xs \<longleftrightarrow> int (count_where (\<lambda>r. rw_state r = Queued) rs) \<le> max_queued
     \<and> int (count_where open_attempt xs) \<le> max_active"

definition queue_inv :: "run_codec \<Rightarrow> queue \<Rightarrow> bool" where
  "queue_inv C k \<longleftrightarrow> (case k of (rs, xs, n) \<Rightarrow>
     runs_inv C rs \<and> attempts_inv C n xs \<and> agreement rs xs \<and> bounded rs xs)"

lemma queue_invE:
  assumes "queue_inv C (rs, xs, n)"
  shows "runs_inv C rs" "attempts_inv C n xs" "agreement rs xs" "bounded rs xs"
    "keys_unique rw_run_id rs" "keys_unique ar_id xs"
    "\<And>r. r \<in> set rs \<Longrightarrow> run_row_good C r" "\<And>x. x \<in> set xs \<Longrightarrow> attempt_row_good C x"
  using assms by (auto simp: queue_inv_def runs_inv_def attempts_inv_def)

lemma open_attempt_run:
  assumes "queue_inv C (rs, xs, n)" and "x \<in> set xs" and "open_attempt x" and "r \<in> set rs"
    and "rw_run_id r = ar_run_id x"
  shows "rw_state r = ar_state x"
proof -
  note inv = queue_invE [OF assms(1)]
  from inv(3) assms(2,3) obtain r2 where r2: "r2 \<in> set rs" "rw_run_id r2 = ar_run_id x" "rw_state r2 = ar_state x"
    by (rule agreement_runE)
  with keys_unique_same [OF inv(5) assms(4), of r2] assms(5) show ?thesis by simp
qed

subsection \<open>Preservation\<close>

lemma runs_inv_put:
  assumes inv: "runs_inv C rs" and r: "r \<in> set rs" "same_run r r'" "run_row_good C r'"
    and op: "open_run r' \<Longrightarrow> open_run r"
  shows "runs_inv C (put_row rw_run_id r' rs)"
proof -
  have k: "keys_unique rw_run_id rs" and id: "rw_run_id r' = rw_run_id r"
    and conv: "rw_conversation r' = rw_conversation r"
    using inv r(2) by (auto simp: runs_inv_def same_run_def)
  note sets = set_put_row [OF k r(1) id]
  have excl: "\<forall>a \<in> set rs. \<forall>b \<in> set rs. open_run a \<longrightarrow> open_run b \<longrightarrow> rw_conversation a \<noteq> None \<longrightarrow>
      rw_conversation b = rw_conversation a \<longrightarrow> b = a" using inv by (simp add: runs_inv_def)
  have "b = a" if "a \<in> insert r' (set rs - {r})" "b \<in> insert r' (set rs - {r})" "open_run a" "open_run b"
    "rw_conversation a \<noteq> None" "rw_conversation b = rw_conversation a" for a b
    using that excl r(1) op conv by (elim insertE DiffE) auto
  moreover have "keys_unique rw_run_id (put_row rw_run_id r' rs)"
    using keys_unique_put_row [OF k r(1) id, of rw_run_id] k id by simp
  moreover have "keys_unique (\<lambda>x. (rw_submitted_by x, rw_key x)) (put_row rw_run_id r' rs)"
    using keys_unique_put_row [OF k r(1) id, of "\<lambda>x. (rw_submitted_by x, rw_key x)"] inv r(2)
    by (simp add: same_run_def runs_inv_def)
  moreover have "\<forall>a \<in> set (put_row rw_run_id r' rs). run_row_good C a"
    using inv r(3) by (simp add: runs_inv_def sets)
  ultimately show ?thesis unfolding runs_inv_def sets by blast
qed

lemma attempts_inv_put:
  assumes inv: "attempts_inv C n xs" and x: "x \<in> set xs" "same_attempt x x'" "attempt_row_good C x'"
  shows "attempts_inv C n (put_row ar_id x' xs)"
proof -
  have k: "keys_unique ar_id xs" and id: "ar_id x' = ar_id x" and f: "ar_fencing x' = ar_fencing x"
    using inv x(2) by (auto simp: attempts_inv_def same_attempt_def)
  note sets = set_put_row [OF k x(1) id]
  show ?thesis
    using inv x keys_unique_put_row [OF k x(1) id, of ar_id] keys_unique_put_row [OF k x(1) id f] id f
    by (auto simp: attempts_inv_def sets)
qed

lemma agreement_put:
  assumes ag: "agreement rs xs" and kr: "keys_unique rw_run_id rs" and kx: "keys_unique ar_id xs"
    and x: "x \<in> set xs" "same_attempt x x'" and r: "r \<in> set rs" "same_run r r'"
    and xr: "ar_run_id x = rw_run_id r" "open_attempt x" "ar_state x' = rw_state r'"
  shows "agreement (put_row rw_run_id r' rs) (put_row ar_id x' xs)"
proof -
  have idr: "rw_run_id r' = rw_run_id r" and idx: "ar_id x' = ar_id x" "ar_run_id x' = ar_run_id x"
    using x r by (auto simp: same_run_def same_attempt_def)
  have other_run: "a = r" if "a \<in> set rs" "rw_run_id a = rw_run_id r" for a
    using keys_unique_same [OF kr that(1) r(1) that(2)] .
  have only: "y = x" if "y \<in> set xs" "open_attempt y" "ar_run_id y = ar_run_id x" for y
    by (rule agreement_same [OF ag that(1) x(1) that(2) xr(2) that(3)])
  have a1: "\<exists>a \<in> insert r' (set rs - {r}). rw_run_id a = ar_run_id y \<and> rw_state a = ar_state y"
    if "y \<in> insert x' (set xs - {x})" "open_attempt y" for y
    using that
  proof (elim insertE DiffE)
    assume "y = x'" then show ?thesis using xr(1,3) idr idx by auto
  next
    assume y: "y \<in> set xs" "y \<notin> {x}" "open_attempt y"
    obtain a where a: "a \<in> set rs" "rw_run_id a = ar_run_id y" "rw_state a = ar_state y"
      by (rule agreement_runE [OF ag y(1,3)])
    with y only [of y] xr(1) have "a \<noteq> r" by auto
    with a show ?thesis by auto
  qed
  have a2: "\<exists>y \<in> insert x' (set xs - {x}). open_attempt y \<and> ar_run_id y = rw_run_id a"
    if mem: "a \<in> insert r' (set rs - {r})" and act: "active_state (rw_state a)" for a
    using mem
  proof (elim insertE DiffE)
    assume "a = r'" with act show ?thesis using xr idr idx by (auto simp: open_attempt_def)
  next
    assume a: "a \<in> set rs" "a \<notin> {r}"
    obtain y where y: "y \<in> set xs" "open_attempt y" "ar_run_id y = rw_run_id a"
      by (rule agreement_attemptE [OF ag a(1) act])
    with a other_run [of a] xr(1) have "y \<noteq> x" by auto
    with y show ?thesis by auto
  qed
  have u: "y = x'" if "y \<in> insert x' (set xs - {x})" "open_attempt y" "ar_run_id y = ar_run_id x" for y
    using that only [of y] by blast
  have a3: "y = z" if y: "y \<in> insert x' (set xs - {x})" "open_attempt y"
    and z: "z \<in> insert x' (set xs - {x})" "open_attempt z" and same: "ar_run_id y = ar_run_id z" for y z
  proof (cases "ar_run_id y = ar_run_id x")
    case True
    with u [OF y True] u [OF z] same show ?thesis by simp
  next
    case False
    with y(1) z(1) same idx(2) have "y \<in> set xs" "z \<in> set xs" by auto
    then show ?thesis by (rule agreement_same [OF ag _ _ y(2) z(2) same])
  qed
  show ?thesis
    by (rule agreementI) (simp_all only: set_put_row [OF kr r(1) idr] set_put_row [OF kx x(1) idx(1)] a1 a2 a3)
qed

text \<open>Renewal leaves the run alone: the same with the run put back unchanged.\<close>

lemma put_row_same: "keys_unique key t \<Longrightarrow> r \<in> set t \<Longrightarrow> put_row key r t = t"
  unfolding put_row_def update_where_def by (rule map_idI) (metis keys_unique_same)

lemma queue_change_inv:
  assumes "queue_change C k k'" and "queue_inv C k"
  shows "queue_inv C k'"
  using assms
proof (induction rule: queue_change.induct)
  case (admit r rs xs n)
  note inv = queue_invE [OF admit.prems]
  have "runs_inv C (rs @ [r])"
    unfolding runs_inv_def
  proof (intro conjI ballI impI)
    show "keys_unique rw_run_id (rs @ [r])" using inv(5) admit.hyps(1) by (simp add: table_simps)
    show "keys_unique (\<lambda>r. (rw_submitted_by r, rw_key r)) (rs @ [r])"
      using inv(1) admit.hyps(2) by (auto simp: runs_inv_def table_simps lookup_row_None_iff)
    show "run_row_good C a" if "a \<in> set (rs @ [r])" for a using that inv(7) admit.hyps(5) by auto
    fix a b assume "a \<in> set (rs @ [r])" "b \<in> set (rs @ [r])" "open_run a" "open_run b"
      "rw_conversation a \<noteq> None" "rw_conversation b = rw_conversation a"
    with admit.hyps(4) show "b = a" using inv(1) unfolding runs_inv_def set_append by fastforce
  qed
  moreover have "agreement (rs @ [r]) xs"
  proof (rule agreementI)
    fix x assume "x \<in> set xs" "open_attempt x"
    then show "\<exists>a \<in> set (rs @ [r]). rw_run_id a = ar_run_id x \<and> rw_state a = ar_state x"
      using inv(3) by (auto elim: agreement_runE)
  next
    fix a assume "a \<in> set (rs @ [r])" "active_state (rw_state a)"
    with admit.hyps(6) have "a \<in> set rs" by auto
    then show "\<exists>x \<in> set xs. open_attempt x \<and> ar_run_id x = rw_run_id a"
      using inv(3) \<open>active_state (rw_state a)\<close> by (auto elim: agreement_attemptE)
  qed (rule agreement_same [OF inv(3)])
  moreover have "bounded (rs @ [r]) xs"
    using inv(4) admit.hyps(3,6) by (simp add: bounded_def)
  ultimately show ?case using inv(2) by (simp add: queue_inv_def)
next
  case (start r rs r' xs x n)
  note inv = queue_invE [OF start.prems] and h = start.hyps
  have idr: "rw_run_id r' = rw_run_id r" using h(3) by (simp add: same_run_def)
  note sets = set_put_row [OF inv(5) h(1) idr]
  have runs: "runs_inv C (put_row rw_run_id r' rs)"
    by (rule runs_inv_put [OF inv(1) h(1,3,4)]) (simp add: open_run_def h)
  have att: "attempts_inv C (n + 1) (xs @ [x])"
    using inv(2) h(8,9,12) by (fastforce simp: attempts_inv_def table_simps lookup_row_None_iff)
  have none: "\<not> (open_attempt y \<and> ar_run_id y = rw_run_id r)" if y: "y \<in> set xs" for y
  proof
    assume o: "open_attempt y \<and> ar_run_id y = rw_run_id r"
    with open_attempt_run [OF start.prems y _ h(1)] h(2) show False by (auto simp: open_attempt_def)
  qed
  have "agreement (put_row rw_run_id r' rs) (xs @ [x])"
  proof (rule agreementI)
    fix y assume y: "y \<in> set (xs @ [x])" "open_attempt y"
    show "\<exists>a \<in> set (put_row rw_run_id r' rs). rw_run_id a = ar_run_id y \<and> rw_state a = ar_state y"
    proof (cases "y \<in> set xs")
      case True
      from inv(3) this y(2) obtain a where "a \<in> set rs" "rw_run_id a = ar_run_id y" "rw_state a = ar_state y"
        by (rule agreement_runE)
      with none [OF True] y(2) show ?thesis by (intro bexI [of _ a]) (auto simp: sets)
    next
      case False with y h(5,10,11) idr show ?thesis by (simp add: sets)
    qed
  next
    fix a assume a: "a \<in> set (put_row rw_run_id r' rs)" "active_state (rw_state a)"
    show "\<exists>y \<in> set (xs @ [x]). open_attempt y \<and> ar_run_id y = rw_run_id a"
    proof (cases "a = r'")
      case True with h(10,11) idr show ?thesis by (simp add: open_attempt_def)
    next
      case False
      with a(1) sets have "a \<in> set rs" by simp
      from inv(3) this a(2) obtain y where "y \<in> set xs" "open_attempt y" "ar_run_id y = rw_run_id a"
        by (rule agreement_attemptE)
      then show ?thesis by auto
    qed
  next
    have new: "y = x" if "y \<in> set (xs @ [x])" "open_attempt y" "ar_run_id y = rw_run_id r" for y
      using that none [of y] by (cases "y = x") simp_all
    fix y z assume yz: "y \<in> set (xs @ [x])" "z \<in> set (xs @ [x])" "open_attempt y" "open_attempt z"
      "ar_run_id y = ar_run_id z"
    show "y = z"
    proof (cases "ar_run_id y = rw_run_id r")
      case True
      with new [of y] new [of z] yz show ?thesis by simp
    next
      case False
      with yz h(10) have "y \<in> set xs" "z \<in> set xs" by auto
      then show ?thesis by (rule agreement_same [OF inv(3) _ _ yz(3-5)])
    qed
  qed
  moreover have "bounded (put_row rw_run_id r' rs) (xs @ [x])"
    using inv(4) count_put_row_le [OF inv(5) h(1) idr, of "\<lambda>r. rw_state r = Queued"] h(2,7)
    by (auto simp: bounded_def)
  ultimately show ?case using runs att by (simp add: queue_inv_def)
next
  case (renew x xs x' rs n)
  note inv = queue_invE [OF renew.prems] and h = renew.hyps
  have idx: "ar_id x' = ar_id x" using h(2) by (simp add: same_attempt_def)
  have att: "attempts_inv C n (put_row ar_id x' xs)" by (rule attempts_inv_put [OF inv(2) h(1-3)])
  have "agreement rs (put_row ar_id x' xs)"
  proof (cases "open_attempt x")
    case True
    from inv(3) h(1) this obtain r where r: "r \<in> set rs" "rw_run_id r = ar_run_id x" "rw_state r = ar_state x"
      by (rule agreement_runE)
    have "agreement (put_row rw_run_id r rs) (put_row ar_id x' xs)"
      by (rule agreement_put [OF inv(3,5,6) h(1,2) r(1) same_run_refl]) (simp_all add: r True h(4))
    then show ?thesis by (simp add: put_row_same [OF inv(5) r(1)])
  next
    case False
    with h(4) have "\<not> open_attempt x'" by (simp add: open_attempt_def)
    then have same: "y \<in> set (put_row ar_id x' xs) \<and> open_attempt y \<longleftrightarrow> y \<in> set xs \<and> open_attempt y" for y
      using False unfolding set_put_row [OF inv(6) h(1) idx] by blast
    show ?thesis
    proof (rule agreementI)
      fix y assume "y \<in> set (put_row ar_id x' xs)" "open_attempt y"
      with same [of y] have "y \<in> set xs" "open_attempt y" by simp_all
      with inv(3) obtain a where "a \<in> set rs" "rw_run_id a = ar_run_id y" "rw_state a = ar_state y"
        by (rule agreement_runE)
      then show "\<exists>a \<in> set rs. rw_run_id a = ar_run_id y \<and> rw_state a = ar_state y" by blast
    next
      fix a assume "a \<in> set rs" "active_state (rw_state a)"
      with inv(3) obtain y where "y \<in> set xs" "open_attempt y" "ar_run_id y = rw_run_id a"
        by (rule agreement_attemptE)
      with same [of y] show "\<exists>y \<in> set (put_row ar_id x' xs). open_attempt y \<and> ar_run_id y = rw_run_id a" by blast
    next
      fix y z assume "y \<in> set (put_row ar_id x' xs)" "z \<in> set (put_row ar_id x' xs)" "open_attempt y"
        "open_attempt z" "ar_run_id y = ar_run_id z"
      with same [of y] same [of z] show "y = z" using agreement_same [OF inv(3), of y z] by simp
    qed
  qed
  moreover have "bounded rs (put_row ar_id x' xs)"
    using inv(4) count_put_row_le [OF inv(6) h(1) idx, of open_attempt] h(4)
    by (auto simp: bounded_def open_attempt_def)
  ultimately show ?case using inv(1) att by (simp add: queue_inv_def)
next
  case (withdraw r rs r' xs n)
  note inv = queue_invE [OF withdraw.prems] and h = withdraw.hyps
  have idr: "rw_run_id r' = rw_run_id r" using h(3) by (simp add: same_run_def)
  have runs: "runs_inv C (put_row rw_run_id r' rs)"
    by (rule runs_inv_put [OF inv(1) h(1,3,4)]) (simp add: open_run_def h)
  have "agreement (put_row rw_run_id r' rs) xs"
    unfolding agreement_def set_put_row [OF inv(5) h(1) idr]
  proof (intro conjI ballI impI)
    fix y assume y: "y \<in> set xs" "open_attempt y"
    from inv(3) this obtain a where a: "a \<in> set rs" "rw_run_id a = ar_run_id y" "rw_state a = ar_state y"
      by (rule agreement_runE)
    with y(2) h(2) have "a \<noteq> r" by (auto simp: open_attempt_def)
    with a show "\<exists>a \<in> insert r' (set rs - {r}). rw_run_id a = ar_run_id y \<and> rw_state a = ar_state y" by blast
  next
    fix a assume "a \<in> insert r' (set rs - {r})" "active_state (rw_state a)"
    with h(5) have "a \<in> set rs" by auto
    from inv(3) this \<open>active_state (rw_state a)\<close> obtain y where
      "y \<in> set xs" "open_attempt y" "ar_run_id y = rw_run_id a" by (rule agreement_attemptE)
    then show "\<exists>y \<in> set xs. open_attempt y \<and> ar_run_id y = rw_run_id a" by blast
  qed (rule agreement_same [OF inv(3)])
  moreover have "bounded (put_row rw_run_id r' rs) xs"
    using inv(4) count_put_row_le [OF inv(5) h(1) idr, of "\<lambda>r. rw_state r = Queued"] h(2)
    by (auto simp: bounded_def)
  ultimately show ?case using inv(2) runs by (simp add: queue_inv_def)
next
  case (advance x xs r rs r' x' n)
  note inv = queue_invE [OF advance.prems] and h = advance.hyps
  have idr: "rw_run_id r' = rw_run_id r" and idx: "ar_id x' = ar_id x"
    using h(7,10) by (simp_all add: same_run_def same_attempt_def)
  have open_x: "open_attempt x" using h(4,6) by (simp add: open_attempt_def)
  have nq: "rw_state r' \<noteq> Queued" using h(5,6) by (cases "rw_state r") auto
  have "runs_inv C (put_row rw_run_id r' rs)"
    by (rule runs_inv_put [OF inv(1) h(2,7,8)]) (use h(6) in \<open>simp add: open_run_def\<close>)
  moreover have "attempts_inv C n (put_row ar_id x' xs)" by (rule attempts_inv_put [OF inv(2) h(1,10,11)])
  moreover have "agreement (put_row rw_run_id r' rs) (put_row ar_id x' xs)"
    by (rule agreement_put [OF inv(3,5,6) h(1,10,2,7,3) open_x h(12)])
  moreover have "bounded (put_row rw_run_id r' rs) (put_row ar_id x' xs)"
    using inv(4) count_put_row_le [OF inv(5) h(2) idr, of "\<lambda>r. rw_state r = Queued"]
      count_put_row_le [OF inv(6) h(1) idx, of open_attempt] open_x nq
    by (auto simp: bounded_def)
  ultimately show ?case by (simp add: queue_inv_def)
qed

subsection \<open>Histories\<close>

text \<open>Everything a run owes its past, over any number of changes.\<close>

definition run_evolves :: "run_row \<Rightarrow> run_row \<Rightarrow> bool" where
  "run_evolves r r' \<longleftrightarrow> same_run r r' \<and> rw_version r \<le> rw_version r'
     \<and> allowed_run_transition\<^sup>*\<^sup>* (rw_state r) (rw_state r')
     \<and> (run_terminal (rw_state r) \<longrightarrow> r' = r)"

lemma run_evolves_refl [simp]: "run_evolves r r"
  by (simp add: run_evolves_def)

lemma run_evolves_trans: "run_evolves a b \<Longrightarrow> run_evolves b c \<Longrightarrow> run_evolves a c"
  by (auto simp: run_evolves_def intro: same_run_trans)

lemma run_evolves_step:
  "same_run r r' \<Longrightarrow> rw_version r < rw_version r' \<Longrightarrow> allowed_run_transition (rw_state r) (rw_state r') \<Longrightarrow>
     run_evolves r r'"
  by (auto simp: run_evolves_def dest: terminal_no_transition)

lemma put_row_evolves:
  assumes "keys_unique rw_run_id rs" and "r \<in> set rs" and "run_evolves r r'" and "a \<in> set rs"
  shows "\<exists>b \<in> set (put_row rw_run_id r' rs). run_evolves a b"
proof -
  have "rw_run_id r' = rw_run_id r" using assms(3) by (simp add: run_evolves_def same_run_def)
  note sets = set_put_row [OF assms(1,2) this]
  show ?thesis
  proof (cases "a = r")
    case True with assms(3) sets show ?thesis by auto
  next
    case False
    with assms(4) sets show ?thesis by (intro bexI [of _ a]) auto
  qed
qed

lemma queue_change_evolves:
  assumes "queue_change C k k'" and "queue_inv C k" and "a \<in> set (fst k)"
  shows "\<exists>b \<in> set (fst k'). run_evolves a b"
  using assms
proof (induction rule: queue_change.induct)
  case (start r rs r' xs x n)
  have "run_evolves r r'" by (rule run_evolves_step) (use start.hyps in simp_all)
  with start show ?case using queue_invE(5) [OF start.prems(1)] put_row_evolves by simp
next
  case (withdraw r rs r' xs n)
  have "run_evolves r r'" by (rule run_evolves_step) (use withdraw.hyps in simp_all)
  with withdraw show ?case using queue_invE(5) [OF withdraw.prems(1)] put_row_evolves by simp
next
  case (advance x xs r rs r' x' n)
  have "run_evolves r r'" by (rule run_evolves_step) (use advance.hyps in simp_all)
  with advance show ?case using queue_invE(5) [OF advance.prems(1)] put_row_evolves by simp
qed (auto intro: run_evolves_refl)

lemma queue_history:
  assumes "(queue_change C)\<^sup>*\<^sup>* k k'" and "queue_inv C k"
  shows "queue_inv C k' \<and> (\<forall>a \<in> set (fst k). \<exists>b \<in> set (fst k'). run_evolves a b)"
  using assms(1)
proof (induction rule: rtranclp_induct)
  case base with assms(2) show ?case by (auto intro: run_evolves_refl)
next
  case (step y z)
  then have "queue_inv C z" using queue_change_inv by blast
  moreover have "\<exists>b \<in> set (fst z). run_evolves a b" if "a \<in> set (fst k)" for a
  proof -
    from step.IH that obtain m where "m \<in> set (fst y)" "run_evolves a m" by blast
    with queue_change_evolves [OF step.hyps(2), of m] step.IH show ?thesis by (blast intro: run_evolves_trans)
  qed
  ultimately show ?case by blast
qed

end
