(* ===== verification/Run_Refinement.thy ===== *)
theory Run_Refinement
  imports Run_Core Task_Histories
begin

text \<open>
  Every command of the run repository, when it succeeds, makes a change of the abstract queue (or
  none, or for the reaper a sequence of them). With \<open>Run_Core\<close> this gives the invariant and the
  history of runs for the code's own operations.
\<close>

subsection \<open>Conditional updates\<close>

lemma write_attemptE:
  assumes "write_attempt a v st = Inr st'" and "keys_unique ar_id (rs_attempts st)"
  obtains x where "x \<in> set (rs_attempts st)" "attempt_fence a v x" "attempt_row_checks (attempt_columns a x)"
    "st' = st\<lparr>rs_attempts := put_row ar_id (attempt_columns a x) (rs_attempts st)\<rparr>"
proof -
  from assms(1) have one: "count_where (attempt_fence a v) (rs_attempts st) = 1"
    and ok: "\<forall>x \<in> set (rs_attempts st). attempt_fence a v x \<longrightarrow> attempt_row_checks (attempt_columns a x)"
    and st': "st' = st\<lparr>rs_attempts := update_where (attempt_fence a v) (attempt_columns a) (rs_attempts st)\<rparr>"
    by (auto simp: write_attempt_def list_ex_iff)
  from one obtain x where x: "x \<in> set (rs_attempts st)" "attempt_fence a v x" by (rule count_where_eq1E)
  have "update_where (attempt_fence a v) (attempt_columns a) (rs_attempts st)
      = put_row ar_id (attempt_columns a x) (rs_attempts st)"
    by (rule update_where_is_put_row [OF assms(2) x(1), of "attempt_fence a v"])
       (use x(2) in \<open>auto simp: attempt_fence_def attempt_columns_def\<close>)
  with x ok st' show ?thesis by (intro that) auto
qed

lemma write_runE:
  assumes "write_run q s v st = Inr st'" and "keys_unique rw_run_id (rs_runs st)"
  obtains r where "r \<in> set (rs_runs st)" "run_fence q s v r" "run_row_checks (run_columns q r)"
    "st' = st\<lparr>rs_runs := put_row rw_run_id (run_columns q r) (rs_runs st)\<rparr>"
proof -
  from assms(1) have one: "count_where (run_fence q s v) (rs_runs st) = 1"
    and ok: "\<forall>r \<in> set (rs_runs st). run_fence q s v r \<longrightarrow> run_row_checks (run_columns q r)"
    and st': "st' = st\<lparr>rs_runs := update_where (run_fence q s v) (run_columns q) (rs_runs st)\<rparr>"
    by (auto simp: write_run_def list_ex_iff)
  from one obtain r where r: "r \<in> set (rs_runs st)" "run_fence q s v r" by (rule count_where_eq1E)
  have "update_where (run_fence q s v) (run_columns q) (rs_runs st)
      = put_row rw_run_id (run_columns q r) (rs_runs st)"
    by (rule update_where_is_put_row [OF assms(2) r(1), of "run_fence q s v"])
       (use r(2) in \<open>auto simp: run_fence_def run_columns_def\<close>)
  with r ok st' show ?thesis by (intro that) auto
qed

lemma locked_runE:
  assumes "locked_run C rid st = Inr q"
  obtains r where "r \<in> set (rs_runs st)" "rw_run_id r = rid" "record_from_row C r = Inr q"
  using assms by (auto simp: locked_run_def dest: lookup_row_SomeD split: option.splits if_splits)

subsection \<open>Records and rows\<close>

lemma record_from_rowD:
  assumes "record_from_row C r = Inr q"
  shows "queue_record_ok C q" "qr_request q = rw_request r" "qr_sha q = rw_sha r" "qr_state q = rw_state r"
    "qr_version q = rw_version r" "qr_result q = rw_result r" "qr_failure q = rw_failure r"
    "qr_enqueued q = rw_enqueued r" "qr_started q = rw_started r" "qr_completed q = rw_completed r"
  using assms by (auto simp: record_from_row_def Let_def split: if_splits)

text \<open>The row of a record that was written over its own row.\<close>

lemma run_columns_good:
  assumes "run_row_good C r" and "record_from_row C r = Inr q0" and "queue_record_ok C q"
    and "qr_request q = qr_request q0" and "qr_sha q = qr_sha q0" and "qr_enqueued q = qr_enqueued q0"
  shows "run_row_good C (run_columns q r)" and "same_run r (run_columns q r)"
    and "record_from_row C (run_columns q r) = Inr q"
proof -
  note q0 = record_from_rowD [OF assms(2)]
  show rec: "record_from_row C (run_columns q r) = Inr q"
    using assms(3-6) q0 by (cases q) (simp add: record_from_row_def run_columns_def)
  with assms(1) show "run_row_good C (run_columns q r)"
    by (simp add: run_row_good_def run_columns_def)
qed (simp add: same_run_def run_columns_def)

lemma queue_record_ok_advanced:
  assumes "queue_record_ok C q" and "outcome_ok t res f" and "result_ok res" and "opt_ok failure_ok f"
    and "run_terminal t \<longleftrightarrow> fin \<noteq> None" and "opt_ok (\<lambda>u. qr_enqueued q \<le> u) fin"
  shows "queue_record_ok C (advanced_run t res f fin now q)"
  using assms unfolding queue_record_ok_def advanced_run_def by auto

lemma advanced_run_simps [simp]:
  "qr_request (advanced_run t res f d now q) = qr_request q" "qr_sha (advanced_run t res f d now q) = qr_sha q"
  "qr_enqueued (advanced_run t res f d now q) = qr_enqueued q" "qr_state (advanced_run t res f d now q) = t"
  "qr_version (advanced_run t res f d now q) = qr_version q + 1"
  "qr_updated (advanced_run t res f d now q) = now" "qr_result (advanced_run t res f d now q) = res"
  "qr_failure (advanced_run t res f d now q) = f"
  by (simp_all add: advanced_run_def)

lemma attempt_ok_advanced:
  assumes "attempt_ok C a" and "outcome_ok t res f" and "result_ok res" and "opt_ok failure_ok f"
  shows "attempt_ok C (advanced_attempt t res f now a)"
  using assms unfolding attempt_ok_def advanced_attempt_def by auto

lemma attempt_columns_good:
  assumes "attempt_row_good C x" and "attempt_ok C a" and "at_id a = ar_id x" and "at_run_id a = ar_run_id x"
    and "at_number a = ar_number x" and "at_fencing a = ar_fencing x" and "at_token a = ar_token x"
    and "at_activation a = ar_activation x" and "at_executor a = ar_executor x"
    and "at_deadline a = ar_deadline x" and "at_state a \<noteq> Queued"
  shows "attempt_row_good C (attempt_columns a x)" and "same_attempt x (attempt_columns a x)"
  using assms by (auto simp: attempt_row_good_def attempt_columns_def same_attempt_def)

lemma advanced_attempt_good:
  assumes "attempt_row_good C x" and "outcome_ok t res f" and "result_ok res" and "opt_ok failure_ok f"
    and "t \<noteq> Queued"
  shows "attempt_row_good C (attempt_columns (advanced_attempt t res f now (ar_json x)) x)"
    and "same_attempt x (attempt_columns (advanced_attempt t res f now (ar_json x)) x)"
    and "ar_state (attempt_columns (advanced_attempt t res f now (ar_json x)) x) = t"
proof -
  have "attempt_ok C (advanced_attempt t res f now (ar_json x))"
    using assms by (intro attempt_ok_advanced) (auto simp: attempt_row_good_def)
  then show "attempt_row_good C (attempt_columns (advanced_attempt t res f now (ar_json x)) x)"
    "same_attempt x (attempt_columns (advanced_attempt t res f now (ar_json x)) x)"
    using assms(1,5) by (auto simp: attempt_row_good_def advanced_attempt_def attempt_columns_def same_attempt_def)
qed (simp add: attempt_columns_def advanced_attempt_def)

lemma outcome_ok_open:
  "\<not> run_terminal s \<Longrightarrow> outcome_ok s res f \<Longrightarrow> \<not> run_terminal t \<Longrightarrow> outcome_ok t res f"
  by (cases s; cases t) (auto simp: outcome_ok_def)

subsection \<open>The common step\<close>

text \<open>
  Writing an attempt and then its run, both advanced to the same state: the attempt row was read
  in this transaction, the run is the one it belongs to.
\<close>

lemma advance_refines:
  assumes inv: "queue_inv C (queue_of st)" and x: "x \<in> set (rs_attempts st)" "active_state (ar_state x)"
    and wa: "write_attempt (advanced_attempt t res f now (ar_json x)) (at_version (ar_json x)) st = Inr st1"
    and q: "locked_run C (ar_run_id x) st0 = Inr q" "rs_runs st0 = rs_runs st"
    and wr: "write_run (advanced_run t res' f' fin now q) s (qr_version q) st1 = Inr st2"
    and tr: "allowed_run_transition (ar_state x) t"
    and o: "outcome_ok t res f" "result_ok res" "opt_ok failure_ok f"
    and o': "outcome_ok t res' f'" "result_ok res'" "opt_ok failure_ok f'"
    and d: "run_terminal t \<longleftrightarrow> fin \<noteq> None" "fin \<in> {None, Some now}"
  shows "queue_change C (queue_of st) (queue_of st2)"
    and "\<exists>x' r'. rs_attempts st2 = put_row ar_id x' (rs_attempts st) \<and> ar_id x' = ar_id x \<and> ar_state x' = t
      \<and> rs_runs st2 = put_row rw_run_id r' (rs_runs st) \<and> rw_run_id r' = ar_run_id x \<and> rw_state r' = t
      \<and> record_from_row C r' = Inr (advanced_run t res' f' fin now q) \<and> rs_tasks st2 = rs_tasks st
      \<and> rs_slots st2 = rs_slots st \<and> rs_roles st2 = rs_roles st"
proof -
  note qi = queue_invE [OF inv [unfolded queue_of_def]]
  let ?a = "advanced_attempt t res f now (ar_json x)" and ?q = "advanced_run t res' f' fin now q"
  have gx: "attempt_row_good C x" using qi(8) x(1) .
  have tq: "t \<noteq> Queued" using tr by (cases "ar_state x") auto
  from wa qi(6) obtain y where y: "y \<in> set (rs_attempts st)" "attempt_fence ?a (at_version (ar_json x)) y"
    and st1: "st1 = st\<lparr>rs_attempts := put_row ar_id (attempt_columns ?a y) (rs_attempts st)\<rparr>"
    by (rule write_attemptE)
  have "ar_id y = ar_id x" using y(2) gx by (simp add: attempt_fence_def advanced_attempt_def attempt_row_good_def)
  then have [simp]: "y = x" using keys_unique_same [OF qi(6) y(1) x(1)] by simp
  from q(1) obtain r where r: "r \<in> set (rs_runs st)" "rw_run_id r = ar_run_id x" "record_from_row C r = Inr q"
    using q(2) by (metis locked_runE)
  have gr: "run_row_good C r" using qi(7) r(1) .
  have state: "rw_state r = ar_state x"
    using open_attempt_run [OF inv [unfolded queue_of_def] x(1) _ r(1,2)] x(2) by (simp add: open_attempt_def)
  have "keys_unique rw_run_id (rs_runs st1)" using qi(5) by (simp add: st1)
  with wr obtain r1 where r1: "r1 \<in> set (rs_runs st)" "run_fence ?q s (qr_version q) r1"
    "run_row_checks (run_columns ?q r1)"
    and st2: "st2 = st1\<lparr>rs_runs := put_row rw_run_id (run_columns ?q r1) (rs_runs st)\<rparr>"
    by (rule write_runE) (use st1 in auto)
  have "rw_run_id r1 = rw_run_id r"
    using r1(2) gr record_from_rowD(2) [OF r(3)] by (simp add: run_fence_def run_row_good_def)
  then have [simp]: "r1 = r" using keys_unique_same [OF qi(5) r1(1) r(1)] by simp
  have "opt_ok (\<lambda>u. qr_enqueued q \<le> u) fin"
    using r1(3) gr d(2) record_from_rowD(8) [OF r(3)]
    by (auto simp: run_row_checks_def run_columns_def run_row_good_def)
  then have okq: "queue_record_ok C ?q"
    by (intro queue_record_ok_advanced [OF record_from_rowD(1) [OF r(3)] o' d(1)])
  note good_run = run_columns_good [OF gr r(3) okq, simplified]
  note good_attempt = advanced_attempt_good [OF gx o tq, of now]
  have "queue_change C (rs_runs st, rs_attempts st, rs_fence st)
      (put_row rw_run_id (run_columns ?q r) (rs_runs st), put_row ar_id (attempt_columns ?a x) (rs_attempts st),
       rs_fence st)"
  proof (rule queue_change.advance [OF x(1) r(1)])
    show "allowed_run_transition (rw_state r) (rw_state (run_columns ?q r))"
      using tr state by (simp add: run_columns_def)
    show "rw_version r < rw_version (run_columns ?q r)"
      using record_from_rowD(5) [OF r(3)] by (simp add: run_columns_def)
    show "ar_state (attempt_columns ?a x) = rw_state (run_columns ?q r)"
      using good_attempt(3) by (simp add: run_columns_def)
  qed (use state x r good_run good_attempt in simp_all)
  then show "queue_change C (queue_of st) (queue_of st2)" by (simp add: queue_of_def st2 st1)
  show "\<exists>x' r'. rs_attempts st2 = put_row ar_id x' (rs_attempts st) \<and> ar_id x' = ar_id x \<and> ar_state x' = t
      \<and> rs_runs st2 = put_row rw_run_id r' (rs_runs st) \<and> rw_run_id r' = ar_run_id x \<and> rw_state r' = t
      \<and> record_from_row C r' = Inr ?q \<and> rs_tasks st2 = rs_tasks st
      \<and> rs_slots st2 = rs_slots st \<and> rs_roles st2 = rs_roles st"
  proof (intro exI conjI)
    show "rs_attempts st2 = put_row ar_id (attempt_columns ?a x) (rs_attempts st)" by (simp add: st2 st1)
    show "rs_runs st2 = put_row rw_run_id (run_columns ?q r) (rs_runs st)" by (simp add: st2 st1)
  qed (use good_run(3) good_attempt(3) r(2) in
       \<open>simp_all add: st2 st1 attempt_columns_def run_columns_def\<close>)
qed

subsection \<open>Commands\<close>

lemma lock_owned_attemptE:
  assumes "lock_owned_attempt cl now al st = Inr row"
  obtains "row \<in> set (rs_attempts st)" "ar_id row = at_id (cl_attempt cl)" "claim_matches (cl_attempt cl) row"
    "active_state (ar_state row)" "now < ar_lease row" "\<not> al \<Longrightarrow> now < ar_deadline row"
  using assms
  by (auto simp: lock_owned_attempt_def not_le dest: lookup_row_SomeD split: option.splits if_splits)

lemma attempt_from_row_Inr [simp]:
  "attempt_from_row C row = Inr a \<longleftrightarrow> a = ar_json row \<and> attempt_ok C (ar_json row)"
  by (auto simp: attempt_from_row_def)

lemma write_attempt_same:
  "write_attempt a v st = Inr st' \<Longrightarrow> rs_runs st' = rs_runs st \<and> rs_tasks st' = rs_tasks st
     \<and> rs_slots st' = rs_slots st \<and> rs_roles st' = rs_roles st \<and> rs_fence st' = rs_fence st"
  by (auto simp: write_attempt_def)

lemma write_run_same:
  "write_run q s v st = Inr st' \<Longrightarrow> rs_attempts st' = rs_attempts st \<and> rs_tasks st' = rs_tasks st
     \<and> rs_slots st' = rs_slots st \<and> rs_roles st' = rs_roles st \<and> rs_fence st' = rs_fence st"
  by (auto simp: write_run_def)

lemma queue_of_simps [simp]:
  "queue_of (st\<lparr>rs_ext := x\<rparr>) = queue_of st" "queue_of (st\<lparr>rs_tasks := t\<rparr>) = queue_of st"
  "queue_of (st\<lparr>rs_slots := s\<rparr>) = queue_of st" "queue_of (st\<lparr>rs_roles := ro\<rparr>) = queue_of st"
  "queue_of (st\<lparr>rs_versions := v\<rparr>) = queue_of st"
  by (simp_all add: queue_of_def)

lemma admit_refines:
  assumes "rq_admit C q st = Inr ((rec, fresh), st')"
  shows "if fresh then queue_change C (queue_of st) (queue_of st') else st' = st"
proof (cases fresh)
  case False with assms show ?thesis
    by (auto simp: rq_admit_def insert_run_def Let_def split: option.splits if_splits)
next
  case True
  let ?r = "new_run_row C q"
  have key: "\<forall>x \<in> set (rs_runs st). \<not> (rw_submitted_by x = rw_submitted_by ?r \<and> rw_key x = rw_key ?r)"
    and room: "queued_count st < max_queued"
    and conv: "\<not> (case rq_conversation q of None \<Rightarrow> False | Some cid \<Rightarrow> busy_conversation cid st)"
    and ok: "queue_record_ok C (new_queue_record C q)"
    and new: "lookup_row rw_run_id (rw_run_id ?r) (rs_runs st) = None"
    and st': "st' = st\<lparr>rs_runs := rs_runs st @ [?r]\<rparr>"
    using assms True
    by (auto simp: rq_admit_def insert_run_def find_None_iff new_run_row_def split: option.splits if_splits)
  have "record_from_row C ?r = Inr (new_queue_record C q)"
    using ok by (simp add: record_from_row_def new_run_row_def new_queue_record_def)
  then have good: "run_row_good C ?r" by (auto simp: run_row_good_def new_run_row_def)
  have "queue_change C (rs_runs st, rs_attempts st, rs_fence st) (rs_runs st @ [?r], rs_attempts st, rs_fence st)"
  proof (rule queue_change.admit [OF new key _ _ good])
    show "int (count_where (\<lambda>x. rw_state x = Queued) (rs_runs st)) < max_queued"
      using room by (simp add: queued_count_def)
    show "\<forall>x \<in> set (rs_runs st). open_run x \<longrightarrow> rw_conversation ?r \<noteq> None \<longrightarrow> rw_conversation x \<noteq> rw_conversation ?r"
      using conv by (auto simp: new_run_row_def busy_conversation_def list_ex_iff open_run_def split: option.splits)
  qed (simp add: new_run_row_def)
  with True show ?thesis by (simp add: st' queue_of_def)
qed

lemma fair_claimD: "fair_claim st = Some r \<Longrightarrow> r \<in> set (rs_runs st) \<and> operator_head (rs_runs st) r"
proof -
  assume "fair_claim st = Some r"
  then have "r \<in> set (fair_order (rs_fairness st) (filter (operator_head (rs_runs st)) (rs_runs st)))"
    by (auto simp: fair_claim_def split: list.splits)
  then show ?thesis by (auto simp: fair_order_def set_sort)
qed

lemma claim_run_refines:
  assumes inv: "queue_inv C (queue_of st)" and r: "r \<in> set (rs_runs st)" "rw_state r = Queued"
    and room: "active_count st < max_active"
    and cl: "claim_run C executor epoch now lease deadline factory aid token r st = Inr (cl, st')"
  shows "queue_change C (queue_of st) (queue_of st')"
proof -
  note qi = queue_invE [OF inv [unfolded queue_of_def]]
  let ?n = "last_number (rw_run_id r) st + 1"
  let ?na = "\<lambda>x. new_attempt C aid (rq_run_id (rw_request r)) ?n token (rs_fence st + 1) epoch executor now
      lease deadline x"
  have gr: "run_row_good C r" using qi(7) r(1) .
  from cl obtain x where
    ok: "attempt_ok C (?na x)"
    and new: "lookup_row ar_id aid (rs_attempts st) = None"
    and rok: "queue_record_ok C (running_record r now)"
    and st': "st' = st\<lparr>rs_attempts := rs_attempts st @ [new_attempt_row (?na x)], rs_fence := rs_fence st + 1,
         rs_runs := update_where (unclaimed r) (start_run now) (rs_runs st),
         rs_fairness := served (rq_operator (rw_request r)) now (rs_fairness st)\<rparr>"
    by (auto simp: claim_run_def Let_def split: if_splits)
  have upd: "update_where (unclaimed r) (start_run now) (rs_runs st) = put_row rw_run_id (start_run now r) (rs_runs st)"
    by (rule update_where_is_put_row [OF qi(5) r(1), of "unclaimed r"])
       (use r(2) in \<open>auto simp: unclaimed_def start_run_def\<close>)
  have started: "run_row_good C (start_run now r)"
    using gr rok r(2) unfolding run_row_good_def record_from_row_def start_run_def running_record_def
      queue_record_ok_def outcome_ok_def Let_def by (auto split: if_splits)
  have attempt: "attempt_row_good C (new_attempt_row (?na x))"
    using ok by (simp add: attempt_row_good_def new_attempt_row_def new_attempt_def)
  have "queue_change C (rs_runs st, rs_attempts st, rs_fence st)
      (put_row rw_run_id (start_run now r) (rs_runs st), rs_attempts st @ [new_attempt_row (?na x)], rs_fence st + 1)"
  proof (rule queue_change.start [OF r _ started])
    show "ar_run_id (new_attempt_row (?na x)) = rw_run_id r"
      using gr by (simp add: new_attempt_row_def new_attempt_def run_row_good_def)
    show "int (count_where open_attempt (rs_attempts st)) < max_active"
      using room by (simp add: active_count_def open_attempt_def [abs_def])
  qed (use new attempt in \<open>simp_all add: start_run_def same_run_def new_attempt_row_def new_attempt_def\<close>)
  then show ?thesis by (simp add: st' queue_of_def upd)
qed

lemma claim_next_refines:
  assumes inv: "queue_inv C (queue_of st)"
    and cl: "rq_claim_next C slot executor epoch c lease deadline factory aid token st = Inr (res, st')"
  shows "if res = None then st' = st else queue_change C (queue_of st) (queue_of st')"
proof -
  from cl consider "res = None" "st' = st"
    | r now k where "fair_claim st = Some r" "active_count st < max_active" "res = Some k"
        "claim_run C executor epoch now lease deadline factory aid token r st = Inr (k, st')"
    by (auto simp: rq_claim_next_def split: option.splits if_splits)
  then show ?thesis
  proof cases
    case 2
    from fair_claimD [OF 2(1)] have r: "r \<in> set (rs_runs st)" "rw_state r = Queued"
      by (simp_all add: operator_head_def)
    from claim_run_refines [OF inv r 2(2,4)] 2(3) show ?thesis by simp
  qed simp
qed

lemma heartbeat_refines:
  assumes inv: "queue_inv C (queue_of st)" and hb: "rq_heartbeat C cl c lease st = Inr (cl', st')"
  shows "queue_change C (queue_of st) (queue_of st')"
proof -
  note qi = queue_invE [OF inv [unfolded queue_of_def]]
  from hb obtain now x a where x: "lock_owned_attempt cl now False st = Inr x"
    and a: "a = (ar_json x)\<lparr>at_heartbeat := now, at_lease := min (now + seconds lease) (at_deadline (ar_json x)),
        at_updated := now\<rparr>" "now < min (now + seconds lease) (at_deadline (ar_json x))"
    and wa: "write_attempt a (at_version (ar_json x)) st = Inr st'"
    by (auto simp: rq_heartbeat_def Let_def not_le)
  from x have xm: "x \<in> set (rs_attempts st)" "active_state (ar_state x)" by (auto elim: lock_owned_attemptE)
  have gx: "attempt_row_good C x" using qi(8) xm(1) .
  from wa qi(6) obtain y where y: "y \<in> set (rs_attempts st)" "attempt_fence a (at_version (ar_json x)) y"
    and st': "st' = st\<lparr>rs_attempts := put_row ar_id (attempt_columns a y) (rs_attempts st)\<rparr>"
    by (rule write_attemptE)
  have "ar_id y = ar_id x" using y(2) gx by (simp add: attempt_fence_def a attempt_row_good_def)
  then have [simp]: "y = x" using keys_unique_same [OF qi(6) y(1) xm(1)] by simp
  have "attempt_ok C a" using gx a(2) unfolding attempt_row_good_def attempt_ok_def a(1) by auto
  then have "attempt_row_good C (attempt_columns a x)" "same_attempt x (attempt_columns a x)"
    using gx by (auto simp: attempt_row_good_def a(1) attempt_columns_def same_attempt_def)
  then have "queue_change C (rs_runs st, rs_attempts st, rs_fence st)
      (rs_runs st, put_row ar_id (attempt_columns a x) (rs_attempts st), rs_fence st)"
    by (intro queue_change.renew [OF xm(1)]) (use gx in \<open>simp_all add: attempt_columns_def a(1) attempt_row_good_def\<close>)
  then show ?thesis by (simp add: st' queue_of_def)
qed

lemma good_outcome:
  "attempt_row_good C x \<Longrightarrow> result_ok (at_result (ar_json x)) \<and> opt_ok failure_ok (at_failure (ar_json x))
     \<and> outcome_ok (ar_state x) (at_result (ar_json x)) (at_failure (ar_json x))"
  by (simp add: attempt_row_good_def attempt_ok_def)

lemma record_outcome:
  "queue_record_ok C q \<Longrightarrow> result_ok (qr_result q) \<and> opt_ok failure_ok (qr_failure q)
     \<and> outcome_ok (qr_state q) (qr_result q) (qr_failure q)
     \<and> (run_terminal (qr_state q) \<longleftrightarrow> qr_completed q \<noteq> None)"
  by (simp add: queue_record_ok_def)

lemma locked_run_ok: "locked_run C rid st = Inr q \<Longrightarrow> queue_record_ok C q"
  by (elim locked_runE) (rule record_from_rowD(1))

lemma claim_run_id:
  "claim_ok C cl \<Longrightarrow> claim_matches (cl_attempt cl) x \<Longrightarrow> rq_run_id (cl_request cl) = ar_run_id x"
  by (simp add: claim_ok_def claim_matches_def)

lemma mark_finalizing_refines:
  assumes inv: "queue_inv C (queue_of st)" and ok: "claim_ok C cl"
    and m: "rq_mark_finalizing C cl c st = Inr (cl', st')"
  shows "queue_change C (queue_of st) (queue_of st')"
proof -
  from m obtain now x st1 q where x: "lock_owned_attempt cl now False st = Inr x"
    and tr: "allowed_run_transition (at_state (ar_json x)) Finalizing"
    and wa: "write_attempt (advanced_attempt Finalizing (at_result (ar_json x)) (at_failure (ar_json x)) now (ar_json x))
        (at_version (ar_json x)) st = Inr st1"
    and q: "locked_run C (rq_run_id (cl_request cl)) st1 = Inr q" "qr_state q = Running"
    and wr: "write_run (advanced_run Finalizing (qr_result q) (qr_failure q) (qr_completed q) now q)
        Running (qr_version q) st1 = Inr st'"
    by (auto simp: rq_mark_finalizing_def Let_def)
  from x have xm: "x \<in> set (rs_attempts st)" "active_state (ar_state x)" "claim_matches (cl_attempt cl) x"
    by (auto elim: lock_owned_attemptE)
  have gx: "attempt_row_good C x" using queue_invE(8) [OF inv [unfolded queue_of_def] xm(1)] .
  note go = good_outcome [OF gx] and ro = record_outcome [OF locked_run_ok [OF q(1)]]
  have ra: "rs_runs st1 = rs_runs st" using write_attempt_same [OF wa] by simp
  have q': "locked_run C (ar_run_id x) st1 = Inr q" using q(1) claim_run_id [OF ok xm(3)] by simp
  have na: "\<not> run_terminal (ar_state x)" using xm(2) by simp
  show ?thesis
  proof (rule advance_refines(1) [OF inv xm(1,2) wa q' ra wr])
    show "allowed_run_transition (ar_state x) Finalizing" using tr gx by (simp add: attempt_row_good_def)
    show "outcome_ok Finalizing (at_result (ar_json x)) (at_failure (ar_json x))"
      using outcome_ok_open [OF na, of _ _ Finalizing] go by simp
    show "outcome_ok Finalizing (qr_result q) (qr_failure q)"
      using outcome_ok_open [of Running _ _ Finalizing] ro q(2) by simp
  qed (use go ro q(2) in auto)
qed

lemma cancellable_attemptD:
  assumes "cancellable_attempt rid s st = Some x"
  shows "x \<in> set (rs_attempts st) \<and> ar_run_id x = rid \<and> ar_state x = s"
proof -
  let ?l = "rev (sort_key ar_number (filter (\<lambda>r. ar_run_id r = rid \<and> ar_state r = s) (rs_attempts st)))"
  obtain ys where l: "?l = x # ys"
    using assms unfolding cancellable_attempt_def by (cases ?l) simp_all
  have "x \<in> set ?l" unfolding l by simp
  then show ?thesis by simp
qed

lemma withdraw_refines:
  assumes inv: "queue_inv C (queue_of st)" and q: "locked_run C rid st = Inr q" "qr_state q = Queued"
    and w: "write_run (advanced_run Run_cancelled (qr_result q) (Some \<lparr>rf_code = Code_cancelled, rf_detail = None\<rparr>)
             (Some now) now q) Queued (qr_version q) st = Inr st'"
  shows "queue_change C (queue_of st) (queue_of st')"
proof -
  note qi = queue_invE [OF inv [unfolded queue_of_def]]
  let ?q = "advanced_run Run_cancelled (qr_result q) (Some \<lparr>rf_code = Code_cancelled, rf_detail = None\<rparr>)
             (Some now) now q"
  from q(1) obtain r where r: "r \<in> set (rs_runs st)" "record_from_row C r = Inr q" by (rule locked_runE)
  note rec = record_from_rowD [OF r(2)]
  have gr: "run_row_good C r" using qi(7) r(1) .
  from w qi(5) obtain r1 where r1: "r1 \<in> set (rs_runs st)" "run_fence ?q Queued (qr_version q) r1"
    "run_row_checks (run_columns ?q r1)" "st' = st\<lparr>rs_runs := put_row rw_run_id (run_columns ?q r1) (rs_runs st)\<rparr>"
    by (rule write_runE)
  have "rw_run_id r1 = rw_run_id r" using r1(2) gr rec(2) by (simp add: run_fence_def run_row_good_def)
  then have [simp]: "r1 = r" using keys_unique_same [OF qi(5) r1(1) r(1)] by simp
  have "opt_ok (\<lambda>u. qr_enqueued q \<le> u) (Some now)"
    using r1(3) gr rec(8) by (auto simp: run_row_checks_def run_columns_def run_row_good_def)
  moreover have "outcome_ok Run_cancelled (qr_result q) (Some \<lparr>rf_code = Code_cancelled, rf_detail = None\<rparr>)"
    using record_outcome [OF rec(1)] q(2) by (auto simp: outcome_ok_def)
  ultimately have okq: "queue_record_ok C ?q"
    using record_outcome [OF rec(1)] by (intro queue_record_ok_advanced [OF rec(1)]) (simp_all add: failure_ok_def)
  note good = run_columns_good [OF gr r(2) okq, simplified]
  have "queue_change C (rs_runs st, rs_attempts st, rs_fence st)
      (put_row rw_run_id (run_columns ?q r) (rs_runs st), rs_attempts st, rs_fence st)"
    using good rec(4,5) q(2) by (intro queue_change.withdraw [OF r(1)]) (simp_all add: run_columns_def)
  then show ?thesis by (simp add: r1(4) queue_of_def)
qed

lemma cancel_refines:
  assumes inv: "queue_inv C (queue_of st)" and m: "rq_request_cancel C rid operator c st = Inr (q', st')"
  shows "st' = st \<or> queue_change C (queue_of st) (queue_of st')"
proof -
  from m obtain now q where q: "locked_run C rid st = Inr q"
    and rest: "cancel_run C rid now q st = Inr (q', st')"
    by (auto simp: rq_request_cancel_def)
  show ?thesis
  proof (cases "run_terminal (qr_state q) \<or> qr_state q = Cancel_requested")
    case True with rest show ?thesis by (auto simp: cancel_run_def)
  next
    case open_run: False
    show ?thesis
    proof (cases "qr_state q = Queued")
      case True
      with rest open_run show ?thesis using withdraw_refines [OF inv q True] by (auto simp: cancel_run_def Let_def)
    next
      case False
      with rest open_run obtain x st1 where c: "cancellable_attempt rid (qr_state q) st = Some x"
        and tr: "allowed_run_transition (at_state (ar_json x)) Cancel_requested"
        and wa: "write_attempt (advanced_attempt Cancel_requested (at_result (ar_json x)) (at_failure (ar_json x)) now
            (ar_json x)) (at_version (ar_json x)) st = Inr st1"
        and wr: "write_run (advanced_run Cancel_requested (qr_result q) (qr_failure q) (qr_completed q) now q)
            (qr_state q) (qr_version q) st1 = Inr st'"
        by (auto simp: cancel_run_def Let_def split: option.splits)
      from cancellable_attemptD [OF c] have x: "x \<in> set (rs_attempts st)" "ar_run_id x = rid" "ar_state x = qr_state q"
        by simp_all
      have act: "active_state (ar_state x)" using run_state_cases [of "qr_state q"] open_run False x(3) by auto
      have gx: "attempt_row_good C x" using queue_invE(8) [OF inv [unfolded queue_of_def] x(1)] .
      note go = good_outcome [OF gx] and ro = record_outcome [OF locked_run_ok [OF q]]
      have "queue_change C (queue_of st) (queue_of st')"
      proof (rule advance_refines(1) [OF inv x(1) act wa _ refl wr])
        show "locked_run C (ar_run_id x) st = Inr q" using q x(2) by simp
        show "allowed_run_transition (ar_state x) Cancel_requested" using tr gx by (simp add: attempt_row_good_def)
        show "outcome_ok Cancel_requested (at_result (ar_json x)) (at_failure (ar_json x))"
          using outcome_ok_open [of "ar_state x" _ _ Cancel_requested] go act by simp
        show "outcome_ok Cancel_requested (qr_result q) (qr_failure q)"
          using outcome_ok_open [of "qr_state q" _ _ Cancel_requested] ro act x(3) by simp
      qed (use go ro open_run in auto)
      then show ?thesis by simp
    qed
  qed
qed

lemma record_failed_task_same:
  "record_failed_task C q now st = Inr st' \<Longrightarrow> queue_of st' = queue_of st \<and> rs_slots st' = rs_slots st
     \<and> rs_roles st' = rs_roles st \<and> (service_step (rc_tasks C) (pg_repo (rc_tasks C)))\<^sup>*\<^sup>* (rs_tasks st) (rs_tasks st')"
  by (auto simp: record_failed_task_def split: option.splits if_splits dest!: service_step.failed_run)

lemma outcome_ok_failed:
  "t \<in> {Run_failed, Timed_out, Run_cancelled} \<Longrightarrow> outcome_ok t no_result (Some f)"
  by (auto simp: outcome_ok_def no_result_def)

lemma commit_failure_refines:
  assumes inv: "queue_inv C (queue_of st)" and ok: "claim_ok C cl" and f: "failure_ok failure"
    and m: "rq_commit_failure C cl target failure c st = Inr (q', st')"
  shows "queue_change C (queue_of st) (queue_of st')"
    and "(service_step (rc_tasks C) (pg_repo (rc_tasks C)))\<^sup>*\<^sup>* (rs_tasks st) (rs_tasks st')"
    and "rs_slots st' = rs_slots st \<and> rs_roles st' = rs_roles st"
proof -
  from m obtain now x st1 q st2 where t: "target \<in> {Run_failed, Timed_out, Run_cancelled}"
    and x: "lock_owned_attempt cl now (target = Timed_out) st = Inr x"
    and tr: "allowed_run_transition (at_state (ar_json x)) target"
    and wa: "write_attempt (advanced_attempt target no_result (Some failure) now (ar_json x))
        (at_version (ar_json x)) st = Inr st1"
    and q: "locked_run C (rq_run_id (cl_request cl)) st1 = Inr q"
    and wr: "write_run (advanced_run target no_result (Some failure) (Some now) now q)
        (qr_state q) (qr_version q) st1 = Inr st2"
    and rf: "record_failed_task C (qr_request q) now st2 = Inr st'"
    by (auto simp: rq_commit_failure_def Let_def)
  from x have xm: "x \<in> set (rs_attempts st)" "active_state (ar_state x)" "claim_matches (cl_attempt cl) x"
    by (auto elim: lock_owned_attemptE)
  have gx: "attempt_row_good C x" using queue_invE(8) [OF inv [unfolded queue_of_def] xm(1)] .
  have ra: "rs_runs st1 = rs_runs st" using write_attempt_same [OF wa] by simp
  have q': "locked_run C (ar_run_id x) st1 = Inr q" using q(1) claim_run_id [OF ok xm(3)] by simp
  note of = outcome_ok_failed [OF t, of failure]
  have "queue_change C (queue_of st) (queue_of st2)"
  proof (rule advance_refines(1) [OF inv xm(1,2) wa q' ra wr])
    show "allowed_run_transition (ar_state x) target" using tr gx by (simp add: attempt_row_good_def)
  qed (use of f t in auto)
  with record_failed_task_same [OF rf] write_attempt_same [OF wa] write_run_same [OF wr]
  show "queue_change C (queue_of st) (queue_of st')"
    and "(service_step (rc_tasks C) (pg_repo (rc_tasks C)))\<^sup>*\<^sup>* (rs_tasks st) (rs_tasks st')"
    and "rs_slots st' = rs_slots st \<and> rs_roles st' = rs_roles st" by simp_all
qed

lemma append_turn_same:
  "append_turn_step A q turn count st = Inr st' \<Longrightarrow> queue_of st' = queue_of st \<and> rs_slots st' = rs_slots st
     \<and> rs_roles st' = rs_roles st \<and> rs_tasks st' = rs_tasks st"
  by (auto simp: append_turn_step_def split: option.splits)

lemma task_update_same:
  "task_update_step C q upd now st = Inr st' \<Longrightarrow> queue_of st' = queue_of st \<and> rs_slots st' = rs_slots st
     \<and> rs_roles st' = rs_roles st \<and> (service_step (rc_tasks C) (pg_repo (rc_tasks C)))\<^sup>*\<^sup>* (rs_tasks st) (rs_tasks st')"
  by (auto simp: task_update_step_def split: option.splits if_splits dest!: service_step.apply_update)

lemma commit_successE:
  assumes m: "rq_commit_success C A cl m ref c receipt turn count upd st = Inr (q', st')"
    and inv: "queue_inv C (queue_of st)" and ok: "claim_ok C cl"
  obtains now x q ext st2 st3 where "c = Aware now" "lock_owned_attempt cl now False st = Inr x"
    "ar_state x = Finalizing" "locked_run C (ar_run_id x) st = Inr q" "qr_state q = Finalizing"
    "au_bind A m ref (rs_ext st) = Inr (True, ext)"
    "q' = advanced_run Succeeded \<lparr>res_available = True, res_manifest = Some (mf_id m), res_receipt = receipt\<rparr>
            None (Some now) now q"
    "queue_change C (queue_of st) (queue_of st2)" "rs_ext st2 = ext"
    "rs_tasks st2 = rs_tasks st" "rs_slots st2 = rs_slots st" "rs_roles st2 = rs_roles st"
    "\<exists>r'. rs_runs st2 = put_row rw_run_id r' (rs_runs st) \<and> rw_run_id r' = ar_run_id x \<and> record_from_row C r' = Inr q'"
    "append_turn_step A (cl_request cl) turn count st2 = Inr st3"
    "task_update_step C (cl_request cl) upd now st3 = Inr st'"
proof -
  from m obtain now x q ext st1 st2 st3 where now: "c = Aware now"
    and x: "lock_owned_attempt cl now False st = Inr x"
    and fin: "at_state (ar_json x) = Finalizing"
    and q: "locked_run C (rq_run_id (cl_request cl)) st = Inr q" "qr_state q = Finalizing"
    and b: "au_bind A m ref (rs_ext st) = Inr (True, ext)"
    and ro: "result_ok \<lparr>res_available = True, res_manifest = Some (mf_id m), res_receipt = receipt\<rparr>"
    and wa: "write_attempt (advanced_attempt Succeeded \<lparr>res_available = True, res_manifest = Some (mf_id m),
        res_receipt = receipt\<rparr> None now (ar_json x)) (at_version (ar_json x)) (st\<lparr>rs_ext := ext\<rparr>) = Inr st1"
    and wr: "write_run (advanced_run Succeeded \<lparr>res_available = True, res_manifest = Some (mf_id m),
        res_receipt = receipt\<rparr> None (Some now) now q) Finalizing (qr_version q) st1 = Inr st2"
    and tn: "append_turn_step A (cl_request cl) turn count st2 = Inr st3"
    and up: "task_update_step C (cl_request cl) upd now st3 = Inr st'"
    and q': "q' = advanced_run Succeeded \<lparr>res_available = True, res_manifest = Some (mf_id m),
        res_receipt = receipt\<rparr> None (Some now) now q"
    by (auto simp: rq_commit_success_def Let_def)
  from x have xm: "x \<in> set (rs_attempts st)" "active_state (ar_state x)" "claim_matches (cl_attempt cl) x"
    by (auto elim: lock_owned_attemptE)
  have gx: "attempt_row_good C x" using queue_invE(8) [OF inv [unfolded queue_of_def] xm(1)] .
  have fx: "ar_state x = Finalizing" using fin gx by (simp add: attempt_row_good_def)
  have qx: "locked_run C (ar_run_id x) st = Inr q" using q(1) claim_run_id [OF ok xm(3)] by simp
  have oo: "outcome_ok Succeeded \<lparr>res_available = True, res_manifest = Some (mf_id m), res_receipt = receipt\<rparr> None"
    by (simp add: outcome_ok_def)
  have adv: "queue_change C (queue_of (st\<lparr>rs_ext := ext\<rparr>)) (queue_of st2)"
    "\<exists>x' r'. rs_attempts st2 = put_row ar_id x' (rs_attempts (st\<lparr>rs_ext := ext\<rparr>)) \<and> ar_id x' = ar_id x
      \<and> ar_state x' = Succeeded
      \<and> rs_runs st2 = put_row rw_run_id r' (rs_runs (st\<lparr>rs_ext := ext\<rparr>)) \<and> rw_run_id r' = ar_run_id x
      \<and> rw_state r' = Succeeded
      \<and> record_from_row C r' = Inr q' \<and> rs_tasks st2 = rs_tasks (st\<lparr>rs_ext := ext\<rparr>)
      \<and> rs_slots st2 = rs_slots (st\<lparr>rs_ext := ext\<rparr>) \<and> rs_roles st2 = rs_roles (st\<lparr>rs_ext := ext\<rparr>)"
    unfolding q'
    by (rule advance_refines [OF _ _ xm(2) wa qx _ wr _ oo ro _ oo ro]; use inv xm fx in simp)+
  have "rs_ext st1 = ext" using wa by (auto simp: write_attempt_def)
  then have "rs_ext st2 = ext" using wr by (auto simp: write_run_def)
  with that [OF now x fx qx q(2) b q' _ _ _ _ _ _ tn up] adv show thesis by auto
qed

lemma commit_success_refines:
  assumes inv: "queue_inv C (queue_of st)" and ok: "claim_ok C cl"
    and m: "rq_commit_success C A cl m ref c receipt turn count upd st = Inr (q', st')"
  shows "queue_change C (queue_of st) (queue_of st')"
    and "(service_step (rc_tasks C) (pg_repo (rc_tasks C)))\<^sup>*\<^sup>* (rs_tasks st) (rs_tasks st')"
    and "rs_slots st' = rs_slots st \<and> rs_roles st' = rs_roles st"
  using commit_successE [OF m inv ok] append_turn_same task_update_same by metis+

end
