(* ===== verification/Run_Histories.thy ===== *)
theory Run_Histories
  imports Run_Refinement
begin

text \<open>
  Reaping, executor slots and worker roles, and the step relation of the run authority: one rule
  per command of the repository, of the worker-role repository and of the task service, in any
  order. Its histories keep the store invariant and evolve every run along allowed transitions.
\<close>

subsection \<open>Reaping\<close>

lemma reap_row_refines:
  assumes inv: "queue_inv C (queue_of st)" and x: "x \<in> set (rs_attempts st)" "active_state (ar_state x)"
    and m: "reap_row C now x st = Inr st'"
  shows "queue_change C (queue_of st) (queue_of st')"
    and "(service_step (rc_tasks C) (pg_repo (rc_tasks C)))\<^sup>*\<^sup>* (rs_tasks st) (rs_tasks st')"
    and "rs_slots st' = rs_slots st \<and> rs_roles st' = rs_roles st"
    and "\<exists>x'. rs_attempts st' = put_row ar_id x' (rs_attempts st) \<and> ar_id x' = ar_id x \<and> ar_state x' = Run_failed"
proof -
  let ?f = "\<lparr>rf_code = Executor_lost, rf_detail = None\<rparr>"
  from m obtain st1 q st2 where
    wa: "write_attempt (advanced_attempt Run_failed no_result (Some ?f) now (ar_json x)) (at_version (ar_json x)) st = Inr st1"
    and q: "locked_run C (at_run_id (ar_json x)) st1 = Inr q"
    and wr: "write_run (advanced_run Run_failed no_result (Some ?f) (Some now) now q) (qr_state q) (qr_version q) st1 = Inr st2"
    and rf: "record_failed_task C (qr_request q) now st2 = Inr st'"
    by (auto simp: reap_row_def Let_def split: if_splits)
  have gx: "attempt_row_good C x" using queue_invE(8) [OF inv [unfolded queue_of_def] x(1)] .
  have ra: "rs_runs st1 = rs_runs st" using write_attempt_same [OF wa] by simp
  have q': "locked_run C (ar_run_id x) st1 = Inr q" using q gx by (simp add: attempt_row_good_def)
  have tr: "allowed_run_transition (ar_state x) Run_failed" using x(2) by (cases "ar_state x") auto
  have oo: "outcome_ok Run_failed no_result (Some ?f)" by (rule outcome_ok_failed) simp
  have fo: "opt_ok failure_ok (Some ?f)" by (simp add: failure_ok_def)
  note adv = advance_refines [OF inv x wa q' ra wr tr oo no_result_ok(1) fo oo no_result_ok(1) fo, simplified]
  note same = record_failed_task_same [OF rf] write_attempt_same [OF wa] write_run_same [OF wr]
  show "queue_change C (queue_of st) (queue_of st')" using adv(1) same by simp
  show "(service_step (rc_tasks C) (pg_repo (rc_tasks C)))\<^sup>*\<^sup>* (rs_tasks st) (rs_tasks st')" using same by simp
  show "rs_slots st' = rs_slots st \<and> rs_roles st' = rs_roles st" using same by simp
  have "rs_attempts st' = rs_attempts st2" using same(1) by (simp add: queue_of_def)
  with adv(2) show "\<exists>x'. rs_attempts st' = put_row ar_id x' (rs_attempts st) \<and> ar_id x' = ar_id x \<and> ar_state x' = Run_failed"
    by auto
qed

text \<open>The rows still to be reaped stay in the table, as they were read.\<close>

lemma reap_rows_refine:
  assumes "reap_rows C now rows n st = Inr (m, st')" and "queue_inv C (queue_of st)"
    and "\<forall>x \<in> set rows. x \<in> set (rs_attempts st) \<and> active_state (ar_state x)" and "keys_unique ar_id rows"
  shows "(queue_change C)\<^sup>*\<^sup>* (queue_of st) (queue_of st')
    \<and> (service_step (rc_tasks C) (pg_repo (rc_tasks C)))\<^sup>*\<^sup>* (rs_tasks st) (rs_tasks st')
    \<and> rs_slots st' = rs_slots st \<and> rs_roles st' = rs_roles st \<and> m = n + len rows
    \<and> (\<forall>y \<in> set (rs_attempts st'). active_state (ar_state y) \<longrightarrow> y \<in> set (rs_attempts st) \<and> y \<notin> set rows)"
  using assms
proof (induction rows arbitrary: n st)
  case (Cons x rows)
  from Cons.prems(1) obtain st1 where one: "reap_row C now x st = Inr st1"
    and rest: "reap_rows C now rows (n + 1) st1 = Inr (m, st')" by auto
  from Cons.prems(3) have x: "x \<in> set (rs_attempts st)" "active_state (ar_state x)" by simp_all
  note r = reap_row_refines [OF Cons.prems(2) x one]
  note qi = queue_invE [OF Cons.prems(2) [unfolded queue_of_def]]
  obtain x' where x': "rs_attempts st1 = put_row ar_id x' (rs_attempts st)" "ar_id x' = ar_id x" "ar_state x' = Run_failed"
    using r(4) by blast
  note sets = set_put_row [OF qi(6) x(1) x'(2)]
  have fresh: "y \<noteq> x" if "y \<in> set rows" for y
    using keys_unique_Cons_mem [OF Cons.prems(4) that] by auto
  have "(queue_change C)\<^sup>*\<^sup>* (queue_of st1) (queue_of st')
    \<and> (service_step (rc_tasks C) (pg_repo (rc_tasks C)))\<^sup>*\<^sup>* (rs_tasks st1) (rs_tasks st')
    \<and> rs_slots st' = rs_slots st1 \<and> rs_roles st' = rs_roles st1 \<and> m = n + 1 + len rows
    \<and> (\<forall>y \<in> set (rs_attempts st'). active_state (ar_state y) \<longrightarrow> y \<in> set (rs_attempts st1) \<and> y \<notin> set rows)"
  proof (rule Cons.IH [OF rest])
    show "queue_inv C (queue_of st1)" using queue_change_inv [OF r(1) Cons.prems(2)] .
    show "\<forall>y \<in> set rows. y \<in> set (rs_attempts st1) \<and> active_state (ar_state y)"
      using Cons.prems(3) fresh by (auto simp: x'(1) sets)
    show "keys_unique ar_id rows" using Cons.prems(4) by (simp add: table_simps)
  qed
  moreover have "y \<in> set (rs_attempts st) \<and> y \<noteq> x" if "y \<in> set (rs_attempts st1)" "active_state (ar_state y)" for y
    using that x'(3) unfolding x'(1) sets by (cases "y = x'") simp_all
  ultimately show ?case
    using r(1-3) by (auto intro: converse_rtranclp_into_rtranclp rtranclp_trans)
qed simp

lemma expired_attempts_mem:
  "y \<in> set (expired_attempts busy now st) \<longleftrightarrow> y \<in> set (rs_attempts st) \<and> active_state (ar_state y) \<and> ar_lease y \<le> now
     \<and> \<not> busy (ar_id y)"
  by (auto simp: expired_attempts_def)

lemma expired_attempts_unique:
  assumes "keys_unique ar_id (rs_attempts st)"
  shows "keys_unique ar_id (expired_attempts busy now st)"
proof -
  have "distinct (rs_attempts st)" and "inj_on ar_id (set (rs_attempts st))"
    using assms by (auto simp: keys_unique_def distinct_map)
  then show ?thesis
    by (auto simp: keys_unique_def distinct_map expired_attempts_def intro: inj_on_subset)
qed

lemma reap_refines:
  assumes "queue_inv C (queue_of st)" and "rq_reap C busy c st = Inr (m, st')"
  shows "(queue_change C)\<^sup>*\<^sup>* (queue_of st) (queue_of st')
    \<and> (service_step (rc_tasks C) (pg_repo (rc_tasks C)))\<^sup>*\<^sup>* (rs_tasks st) (rs_tasks st')
    \<and> rs_slots st' = rs_slots st \<and> rs_roles st' = rs_roles st"
    and "c = Aware now \<Longrightarrow> m = len (expired_attempts busy now st)
      \<and> (\<forall>y \<in> set (rs_attempts st'). active_state (ar_state y) \<longrightarrow> now < ar_lease y \<or> busy (ar_id y))"
proof -
  from assms(2) obtain t where t: "c = Aware t" "reap_rows C t (expired_attempts busy t st) 0 st = Inr (m, st')"
    by (auto simp: rq_reap_def)
  note u = expired_attempts_unique [OF queue_invE(6) [OF assms(1) [unfolded queue_of_def]], of busy t]
  have pre: "\<forall>x \<in> set (expired_attempts busy t st). x \<in> set (rs_attempts st) \<and> active_state (ar_state x)"
    by (simp add: expired_attempts_mem)
  note r = reap_rows_refine [OF t(2) assms(1) pre u]
  show "(queue_change C)\<^sup>*\<^sup>* (queue_of st) (queue_of st')
    \<and> (service_step (rc_tasks C) (pg_repo (rc_tasks C)))\<^sup>*\<^sup>* (rs_tasks st) (rs_tasks st')
    \<and> rs_slots st' = rs_slots st \<and> rs_roles st' = rs_roles st" using r by simp
  assume "c = Aware now"
  with t(1) have [simp]: "t = now" by simp
  show "m = len (expired_attempts busy now st)
      \<and> (\<forall>y \<in> set (rs_attempts st'). active_state (ar_state y) \<longrightarrow> now < ar_lease y \<or> busy (ar_id y))"
    using r by (auto simp: expired_attempts_mem not_le)
qed

subsection \<open>Executor slots\<close>

text \<open>At most one slot is active, and it holds the highest epoch handed out.\<close>

definition slots_inv :: "slot_row list \<Rightarrow> bool" where
  "slots_inv t \<longleftrightarrow> keys_unique sl_slot t \<and> (\<forall>r \<in> set t. \<forall>r' \<in> set t. sl_state r = Role_active \<longrightarrow> sl_epoch r' \<le> sl_epoch r)
     \<and> (\<forall>r \<in> set t. \<forall>r' \<in> set t. sl_state r = Role_active \<longrightarrow> sl_state r' = Role_active \<longrightarrow> r' = r)"

lemma fold_max_epoch: "fold (\<lambda>r m. max m (sl_epoch r)) t m0 = Max (insert m0 (sl_epoch ` set t))"
proof (induction t arbitrary: m0)
  case (Cons r t)
  have "Max (insert (max m0 (sl_epoch r)) (sl_epoch ` set t)) = Max (insert m0 (insert (sl_epoch r) (sl_epoch ` set t)))"
    by (cases "set t = {}") (simp_all add: max.assoc)
  with Cons show ?case by simp
qed simp

lemma epoch_le_max: "r \<in> set (rs_slots st) \<Longrightarrow> sl_epoch r \<le> max_epoch st"
  by (simp add: max_epoch_def fold_max_epoch)

lemma max_epoch_leI: "0 \<le> n \<Longrightarrow> (\<And>r. r \<in> set (rs_slots st) \<Longrightarrow> sl_epoch r \<le> n) \<Longrightarrow> max_epoch st \<le> n"
  by (simp add: max_epoch_def fold_max_epoch)

lemma max_epoch_same: "rs_slots st' = rs_slots st \<Longrightarrow> max_epoch st' = max_epoch st"
  by (simp add: max_epoch_def)

lemma set_dict_put_key:
  assumes "keys_unique key t"
  shows "set (dict_put key v t) = insert v {r \<in> set t. key r \<noteq> key v}"
  using assms
proof (induction t)
  case (Cons x t)
  show ?case
  proof (cases "key x = key v")
    case True
    with Cons.prems have "\<forall>r \<in> set t. key r \<noteq> key v" by (auto dest: keys_unique_Cons_mem)
    with True show ?thesis by auto
  next
    case False with Cons show ?thesis by (auto simp: table_simps)
  qed
qed simp

lemma keys_unique_dict_put: "keys_unique key t \<Longrightarrow> keys_unique key (dict_put key v t)"
  by (auto simp: keys_unique_def keys_dict_put distinct_map)

lemma activate_roleE:
  assumes "rq_activate_role slot executor c st = Inr (a, st')" and "slots_inv (rs_slots st)"
  obtains now where "c = Aware now" "a = \<lparr>sl_slot = slot, sl_state = Role_active, sl_epoch = max_epoch st + 1,
      sl_executor = Some executor, sl_updated = now\<rparr>"
    "worker_lease_live slot executor now False st" "slots_inv (rs_slots st')"
    "\<And>r. r \<in> set (rs_slots st') \<Longrightarrow> sl_state r = Role_active \<Longrightarrow> r = a"
    "a \<in> set (rs_slots st')" "max_epoch st' = max_epoch st + 1"
    "queue_of st' = queue_of st" "rs_tasks st' = rs_tasks st" "rs_roles st' = rs_roles st"
proof -
  from assms(1) obtain now where now: "c = Aware now"
    and a: "a = \<lparr>sl_slot = slot, sl_state = Role_active, sl_epoch = max_epoch st + 1,
      sl_executor = Some executor, sl_updated = now\<rparr>"
    and live: "worker_lease_live slot executor now False st"
    and st': "st' = st\<lparr>rs_slots := dict_put sl_slot a
        (update_where (\<lambda>r. sl_state r = Role_active) (standby_slot now) (rs_slots st))\<rparr>"
    by (auto simp: rq_activate_role_def Let_def require_worker_lease_def split: if_splits)
  let ?t = "update_where (\<lambda>r. sl_state r = Role_active) (standby_slot now) (rs_slots st)"
  have kt: "keys_unique sl_slot ?t"
    using assms(2) by (simp add: slots_inv_def table_simps standby_slot_def)
  have old: "sl_state r \<noteq> Role_active \<and> sl_epoch r \<le> max_epoch st" if "r \<in> set ?t" for r
    using that by (elim mem_update_whereE) (auto simp: standby_slot_def epoch_le_max)
  have mem: "r = a \<or> r \<in> set ?t" if "r \<in> set (rs_slots st')" for r
    using that by (auto simp: st' set_dict_put_key [OF kt])
  have am: "a \<in> set (rs_slots st')" by (simp add: st' set_dict_put_key [OF kt])
  have only: "r = a" if "r \<in> set (rs_slots st')" "sl_state r = Role_active" for r
    using mem [OF that(1)] old [of r] that(2) by blast
  have top: "sl_epoch r \<le> sl_epoch a" if "r \<in> set (rs_slots st')" for r
    using mem [OF that] old [of r] by (auto simp: a)
  have inv: "slots_inv (rs_slots st')"
    using only top keys_unique_dict_put [OF kt, of a] unfolding slots_inv_def by (auto simp: st')
  have "0 \<le> max_epoch st" by (simp add: max_epoch_def fold_max_epoch)
  then have "max_epoch st' = max_epoch st + 1"
    using max_epoch_leI [of "max_epoch st + 1" st'] epoch_le_max [OF am] top by (force simp: a)
  with that [OF now a live inv only am] st' show thesis by simp
qed

subsection \<open>Steps of the whole store\<close>

text \<open>
  The commands of the run repository, those of the worker-role repository and of the task service
  on their own tables, and \<open>outside\<close>: what other parts of the system do to the agent versions and
  to the artifact and conversation tables.
\<close>

inductive run_step :: "run_codec \<Rightarrow> 'x authorities \<Rightarrow> 'x run_store \<Rightarrow> 'x run_store \<Rightarrow> bool"
  for C :: run_codec and A :: "'x authorities" where
  admit: "rq_admit C q st = Inr (r, st') \<Longrightarrow> run_step C A st st'"
| activate_role: "rq_activate_role slot executor c st = Inr (a, st') \<Longrightarrow> run_step C A st st'"
| claim: "rq_claim_next C slot executor epoch c lease deadline factory aid token st = Inr (r, st') \<Longrightarrow>
    run_step C A st st'"
| heartbeat: "claim_ok C cl \<Longrightarrow> rq_heartbeat C cl c lease st = Inr (r, st') \<Longrightarrow> run_step C A st st'"
| finalizing: "claim_ok C cl \<Longrightarrow> rq_mark_finalizing C cl c st = Inr (r, st') \<Longrightarrow> run_step C A st st'"
| cancel: "rq_request_cancel C rid operator c st = Inr (r, st') \<Longrightarrow> run_step C A st st'"
| failure: "claim_ok C cl \<Longrightarrow> failure_ok f \<Longrightarrow> rq_commit_failure C cl target f c st = Inr (r, st') \<Longrightarrow>
    run_step C A st st'"
| success: "claim_ok C cl \<Longrightarrow> rq_commit_success C A cl m ref c receipt turn count upd st = Inr (r, st') \<Longrightarrow>
    run_step C A st st'"
| reap: "rq_reap C busy c st = Inr (n, st') \<Longrightarrow> run_step C A st st'"
| role: "role_step (rs_roles st) t \<Longrightarrow> run_step C A st (st\<lparr>rs_roles := t\<rparr>)"
| task: "service_step (rc_tasks C) (pg_repo (rc_tasks C)) (rs_tasks st) t \<Longrightarrow> run_step C A st (st\<lparr>rs_tasks := t\<rparr>)"
| outside: "run_step C A st (st\<lparr>rs_versions := v, rs_ext := x\<rparr>)"

definition store_good :: "run_codec \<Rightarrow> 'x run_store \<Rightarrow> bool" where
  "store_good C st \<longleftrightarrow> queue_inv C (queue_of st) \<and> slots_inv (rs_slots st) \<and> roles_inv (rs_roles st)
     \<and> pg_good (rc_tasks C) (rs_tasks st) \<and> store_inv pg_view (rs_tasks st)"

text \<open>What one step does, table by table.\<close>

definition store_steps :: "run_codec \<Rightarrow> 'x run_store \<Rightarrow> 'x run_store \<Rightarrow> bool" where
  "store_steps C st st' \<longleftrightarrow> (queue_change C)\<^sup>*\<^sup>* (queue_of st) (queue_of st')
     \<and> (service_step (rc_tasks C) (pg_repo (rc_tasks C)))\<^sup>*\<^sup>* (rs_tasks st) (rs_tasks st')
     \<and> slots_inv (rs_slots st') \<and> max_epoch st \<le> max_epoch st'
     \<and> role_step\<^sup>*\<^sup>* (rs_roles st) (rs_roles st')"

lemma store_stepsI:
  assumes "slots_inv (rs_slots st)" and "(queue_change C)\<^sup>*\<^sup>* (queue_of st) (queue_of st')"
    and "(service_step (rc_tasks C) (pg_repo (rc_tasks C)))\<^sup>*\<^sup>* (rs_tasks st) (rs_tasks st')"
    and "rs_slots st' = rs_slots st" and "rs_roles st' = rs_roles st"
  shows "store_steps C st st'"
  using assms by (simp add: store_steps_def max_epoch_same [OF assms(4)])

lemma queue_parts:
  "rq_admit C q st = Inr (r1, st') \<Longrightarrow> rs_slots st' = rs_slots st \<and> rs_roles st' = rs_roles st \<and> rs_tasks st' = rs_tasks st"
  "rq_claim_next C slot executor epoch c lease deadline factory aid token st = Inr (r2, st') \<Longrightarrow>
     rs_slots st' = rs_slots st \<and> rs_roles st' = rs_roles st \<and> rs_tasks st' = rs_tasks st"
  "rq_heartbeat C cl c lease st = Inr (r3, st') \<Longrightarrow> rs_slots st' = rs_slots st \<and> rs_roles st' = rs_roles st \<and> rs_tasks st' = rs_tasks st"
  "rq_mark_finalizing C cl c st = Inr (r4, st') \<Longrightarrow> rs_slots st' = rs_slots st \<and> rs_roles st' = rs_roles st \<and> rs_tasks st' = rs_tasks st"
  "rq_request_cancel C rid operator c st = Inr (r5, st') \<Longrightarrow> rs_slots st' = rs_slots st \<and> rs_roles st' = rs_roles st \<and> rs_tasks st' = rs_tasks st"
      apply (auto simp: rq_admit_def insert_run_def split: option.splits if_splits) [1]
     apply (auto simp: rq_claim_next_def claim_run_def Let_def split: option.splits if_splits) [1]
    apply (auto simp: rq_heartbeat_def Let_def dest!: write_attempt_same) [1]
   apply (auto simp: rq_mark_finalizing_def Let_def dest!: write_attempt_same write_run_same) [1]
  apply (auto simp: rq_request_cancel_def cancel_run_def Let_def split: option.splits if_splits
      dest!: write_attempt_same write_run_same) [1]
  done

lemma run_step_steps:
  assumes "run_step C A st st'" and good: "store_good C st"
  shows "store_steps C st st'"
proof -
  have inv: "queue_inv C (queue_of st)" and sl: "slots_inv (rs_slots st)"
    using good by (simp_all add: store_good_def)
  from assms(1) show ?thesis
  proof cases
    case (admit q r)
    obtain rec fresh where r: "r = (rec, fresh)" by force
    show ?thesis using admit_refines [OF admit [unfolded r]] queue_parts(1) [OF admit]
      by (intro store_stepsI [OF sl]) (auto split: if_splits)
  next
    case (activate_role slot executor c a)
    from activate_roleE [OF this sl] have "slots_inv (rs_slots st')" "max_epoch st' = max_epoch st + 1"
      "queue_of st' = queue_of st" "rs_tasks st' = rs_tasks st" "rs_roles st' = rs_roles st" by metis+
    then show ?thesis by (simp add: store_steps_def)
  next
    case (claim slot executor epoch c lease deadline factory aid token r)
    show ?thesis using claim_next_refines [OF inv claim] queue_parts(2) [OF claim]
      by (intro store_stepsI [OF sl]) (auto split: if_splits)
  next
    case (heartbeat cl c lease r)
    obtain cl' where r: "r = cl'" by simp
    show ?thesis using heartbeat_refines [OF inv heartbeat(2)] queue_parts(3) [OF heartbeat(2)]
      by (intro store_stepsI [OF sl]) auto
  next
    case (finalizing cl c r)
    show ?thesis using mark_finalizing_refines [OF inv finalizing] queue_parts(4) [OF finalizing(2)]
      by (intro store_stepsI [OF sl]) auto
  next
    case (cancel rid operator c r)
    show ?thesis using cancel_refines [OF inv cancel] queue_parts(5) [OF cancel]
      by (intro store_stepsI [OF sl]) auto
  next
    case (failure cl f target c r)
    show ?thesis using commit_failure_refines [OF inv failure] by (intro store_stepsI [OF sl]) auto
  next
    case (success cl m ref c receipt turn count upd r)
    show ?thesis using commit_success_refines [OF inv success] by (intro store_stepsI [OF sl]) auto
  next
    case (reap busy c n)
    show ?thesis using reap_refines(1) [OF inv reap] by (intro store_stepsI [OF sl]) auto
  next
    case (role t)
    then show ?thesis using sl by (auto simp: store_steps_def max_epoch_def)
  next
    case (task t)
    then show ?thesis using sl by (auto simp: store_steps_def max_epoch_def)
  next
    case (outside v x)
    then show ?thesis using sl by (simp add: store_steps_def max_epoch_def queue_of_def)
  qed
qed

lemma store_steps_good:
  assumes "store_steps C st st'" and "store_good C st"
  shows "store_good C st'"
  using assms queue_history [of C "queue_of st" "queue_of st'"]
    postgres.history_keeps [of "rc_tasks C" "rs_tasks st" "rs_tasks st'"]
    role_history_keeps [of "rs_roles st" "rs_roles st'"]
  by (simp add: store_steps_def store_good_def)

lemma store_steps_trans: "store_steps C a b \<Longrightarrow> store_steps C b d \<Longrightarrow> store_steps C a d"
  by (auto simp: store_steps_def)

lemma run_history_keeps:
  assumes "(run_step C A)\<^sup>*\<^sup>* st st'" and "store_good C st"
  shows "store_good C st' \<and> store_steps C st st'"
  using assms(1)
proof (induction rule: rtranclp_induct)
  case base with assms(2) show ?case by (simp add: store_steps_def store_good_def)
next
  case (step y z)
  with run_step_steps [OF step.hyps(2)] show ?case
    by (blast intro: store_steps_good store_steps_trans)
qed

lemma run_history_evolves:
  assumes "(run_step C A)\<^sup>*\<^sup>* st st'" and "store_good C st" and "r \<in> set (rs_runs st)"
  shows "\<exists>r' \<in> set (rs_runs st'). run_evolves r r'"
  using run_history_keeps [OF assms(1,2)] queue_history [of C "queue_of st" "queue_of st'"] assms(2,3)
  by (simp add: store_steps_def store_good_def queue_of_def)

end
