(* ===== verification/Run_Demo.thy ===== *)
theory Run_Demo
  imports Run_Histories Task_Properties
begin

text \<open>
  The fresh store that histories start from, and the concrete history the run properties are
  exercised on: two operators admit a run each, an executor takes the worker-role lease, activates
  its slot and claims the first run.
\<close>

subsection \<open>Fresh stores\<close>

text \<open>A store as migrations leave it: no runs, and the one worker role on standby.\<close>

definition standby_role :: activation where
  "standby_role = \<lparr>wr_role = Run_executor, wr_slot = 1, wr_state = Standby, wr_epoch = 0, wr_owner = None,
     wr_heartbeat = None, wr_lease = None, wr_updated = 0\<rparr>"

definition fresh_store :: "string list \<Rightarrow> 'x \<Rightarrow> 'x run_store" where
  "fresh_store versions x = \<lparr>rs_runs = [], rs_attempts = [], rs_slots = [], rs_fairness = [], rs_fence = 0,
     rs_roles = [standby_role], rs_versions = versions, rs_tasks = empty_pg, rs_ext = x\<rparr>"

lemma fresh_store_good [simp]: "store_good C (fresh_store v x)"
  by (simp add: store_good_def fresh_store_def queue_of_def queue_inv_def runs_inv_def attempts_inv_def
      agreement_def bounded_def keys_unique_def slots_inv_def roles_inv_def standby_role_def activation_ok_def
      count_where_def max_queued_def max_active_def)

lemma history_good:
  assumes "(run_step C A)\<^sup>*\<^sup>* (fresh_store v x) st"
  shows "store_good C st" "queue_inv C (rs_runs st, rs_attempts st, rs_fence st)"
proof -
  show "store_good C st" using run_history_keeps [OF assms] by simp
  then show "queue_inv C (rs_runs st, rs_attempts st, rs_fence st)" by (simp add: store_good_def queue_of_def)
qed

subsection \<open>A concrete history\<close>

definition demo_hex :: string where
  "demo_hex = replicate 64 (CHR ''a'')"

definition demo_uuid :: "char \<Rightarrow> string" where
  "demo_uuid c = replicate 8 c @ ''-'' @ replicate 4 c @ ''-'' @ replicate 4 c @ ''-'' @ replicate 4 c @ ''-'' @ replicate 12 c"

definition demo_run_codec :: run_codec where
  "demo_run_codec = \<lparr>rc_request = (\<lambda>q. rq_key q), rc_snapshot = (\<lambda>_. []),
     rc_sha = (\<lambda>s. if s = ''k9'' then replicate 64 (CHR ''b'') else demo_hex), rc_tasks = demo_codec\<rparr>"

lemma demo_hex_ok [simp]: "hex64_ok demo_hex"
  by code_simp

lemma demo_uuid_ok [simp]:
  "uuid_ok (demo_uuid (CHR ''1''))" "uuid_ok (demo_uuid (CHR ''2''))" "uuid_ok (demo_uuid (CHR ''3''))"
  "uuid_ok (demo_uuid (CHR ''4''))" "uuid_ok (demo_uuid (CHR ''d''))" "uuid_ok (demo_uuid (CHR ''e''))"
  "uuid_ok (demo_uuid (CHR ''f''))"
  by code_simp+

lemma demo_uuid_eq [simp]: "demo_uuid c = demo_uuid d \<longleftrightarrow> c = d"
  by (auto simp: demo_uuid_def)

lemma demo_uuid_less [simp]: "demo_uuid (CHR ''1'') < demo_uuid (CHR ''2'')"
  by code_simp

definition demo_request :: "char \<Rightarrow> string \<Rightarrow> string \<Rightarrow> run_request" where
  "demo_request c operator key = \<lparr>rq_run_id = demo_uuid c, rq_operator = operator, rq_key = key,
     rq_purpose = Production, rq_agent_id = ''agent'', rq_agent_version = demo_uuid (CHR ''f''),
     rq_question = [65], rq_allow_web = False, rq_conversation = None, rq_turn_count = None,
     rq_task_id = None, rq_task_version = None, rq_task_sha = None,
     rq_mapping_version = demo_uuid (CHR ''e''), rq_permission_epoch = 1,
     rq_authorization = \<lparr>authz_institutions = [], authz_regions = [], authz_channels = [], authz_roles = [],
       authz_business_lines = [], authz_public_only = True\<rparr>, rq_submitted = 0\<rparr>"

definition demo_frozen :: "run_request \<Rightarrow> string \<Rightarrow> int \<Rightarrow> instant \<Rightarrow> exec_snapshot" where
  "demo_frozen q aid n now = \<lparr>xs_run_id = rq_run_id q, xs_attempt_id = aid, xs_attempt_number = n,
     xs_release_id = ''r1'', xs_image_digest = demo_hex, xs_agent_id = rq_agent_id q,
     xs_agent_version = rq_agent_version q, xs_agent_sha = demo_hex, xs_knowledge_sha = demo_hex,
     xs_model_sha = demo_hex, xs_egress_version = demo_uuid (CHR ''d''), xs_egress_sha = demo_hex,
     xs_mapping_version = rq_mapping_version q, xs_mapping_sha = demo_hex, xs_permission_epoch = 1,
     xs_authorization_sha = demo_hex, xs_tool_sha = demo_hex, xs_handles = [], xs_frozen_at = now\<rparr>"

definition demo_factory :: "run_request \<Rightarrow> string \<Rightarrow> int \<Rightarrow> instant \<Rightarrow> run_error + exec_snapshot" where
  "demo_factory q aid n now = Inr (demo_frozen q aid n now)"

definition demo_authorities :: "int authorities" where
  "demo_authorities = \<lparr>au_bind = (\<lambda>_ _ n. Inr (True, n + 1)), au_append = (\<lambda>_ _ _ n. Inr n)\<rparr>"

definition demo_q1 :: run_request where "demo_q1 = demo_request (CHR ''1'') ''alice'' ''k1''"
definition demo_q2 :: run_request where "demo_q2 = demo_request (CHR ''2'') ''bob'' ''k1''"

definition demo_token :: string where "demo_token = replicate 32 (CHR ''t'')"

definition demo_attempt :: attempt where
  "demo_attempt = new_attempt demo_run_codec (demo_uuid (CHR ''3'')) (demo_uuid (CHR ''1'')) 1 demo_token 1 1
     ''exec-1'' (seconds 2) 30 60 (demo_frozen demo_q1 (demo_uuid (CHR ''3'')) 1 (seconds 2))"

definition demo_claim :: claim where
  "demo_claim = \<lparr>cl_request = demo_q1, cl_attempt = demo_attempt\<rparr>"

definition demo_s0 :: "int run_store" where
  "demo_s0 = fresh_store [demo_uuid (CHR ''f'')] 0"

definition demo_s1 :: "int run_store" where
  "demo_s1 = demo_s0\<lparr>rs_runs := [new_run_row demo_run_codec demo_q1]\<rparr>"

definition demo_s2 :: "int run_store" where
  "demo_s2 = demo_s1\<lparr>rs_runs := [new_run_row demo_run_codec demo_q1, new_run_row demo_run_codec demo_q2]\<rparr>"

definition demo_lease :: activation where
  "demo_lease = \<lparr>wr_role = Run_executor, wr_slot = 1, wr_state = Role_active, wr_epoch = 1,
     wr_owner = Some ''exec-1'', wr_heartbeat = Some 0, wr_lease = Some (seconds 300), wr_updated = 0\<rparr>"

definition demo_s3 :: "int run_store" where
  "demo_s3 = demo_s2\<lparr>rs_roles := [demo_lease]\<rparr>"

definition demo_slot :: slot_row where
  "demo_slot = \<lparr>sl_slot = 1, sl_state = Role_active, sl_epoch = 1, sl_executor = Some ''exec-1'', sl_updated = seconds 1\<rparr>"

definition demo_s4 :: "int run_store" where
  "demo_s4 = demo_s3\<lparr>rs_slots := [demo_slot]\<rparr>"

definition demo_s5 :: "int run_store" where
  "demo_s5 = demo_s4\<lparr>rs_attempts := [new_attempt_row demo_attempt], rs_fence := 1,
     rs_runs := [start_run (seconds 2) (new_run_row demo_run_codec demo_q1), new_run_row demo_run_codec demo_q2],
     rs_fairness := [\<lparr>fa_operator = ''alice'', fa_last = seconds 2, fa_count = 1\<rparr>]\<rparr>"

lemmas demo_stores = demo_s0_def demo_s1_def demo_s2_def demo_s3_def demo_s4_def demo_s5_def fresh_store_def

lemma demo_digest [simp]: "request_digest demo_run_codec demo_q1 = demo_hex" "request_digest demo_run_codec demo_q2 = demo_hex"
  by (simp_all add: request_digest_def demo_run_codec_def demo_q1_def demo_q2_def demo_request_def)

lemma demo_q_simps [simp]:
  "rq_run_id demo_q1 = demo_uuid (CHR ''1'')" "rq_run_id demo_q2 = demo_uuid (CHR ''2'')"
  "rq_operator demo_q1 = ''alice''" "rq_operator demo_q2 = ''bob''" "rq_key demo_q1 = ''k1''" "rq_key demo_q2 = ''k1''"
  "rq_agent_version demo_q1 = demo_uuid (CHR ''f'')" "rq_agent_version demo_q2 = demo_uuid (CHR ''f'')"
  "rq_conversation demo_q1 = None" "rq_conversation demo_q2 = None" "rq_task_id demo_q1 = None" "rq_task_id demo_q2 = None"
  "rq_agent_id demo_q1 = ''agent''" "rq_agent_id demo_q2 = ''agent''" "rq_submitted demo_q1 = 0" "rq_submitted demo_q2 = 0"
  by (simp_all add: demo_q1_def demo_q2_def demo_request_def)

lemma demo_request_ok [simp]: "request_ok demo_q1" "request_ok demo_q2"
  by code_simp+

lemma demo_record_ok [simp]:
  "queue_record_ok demo_run_codec (new_queue_record demo_run_codec demo_q1)"
  "queue_record_ok demo_run_codec (new_queue_record demo_run_codec demo_q2)"
  by (simp_all add: queue_record_ok_def new_queue_record_def outcome_ok_def)

lemma demo_attempt_ok [simp]: "attempt_ok demo_run_codec demo_attempt"
  by code_simp

lemma demo_admitted:
  "rq_admit demo_run_codec demo_q1 demo_s0 = Inr ((new_queue_record demo_run_codec demo_q1, True), demo_s1)"
  "rq_admit demo_run_codec demo_q2 demo_s1 = Inr ((new_queue_record demo_run_codec demo_q2, True), demo_s2)"
  by (simp_all add: rq_admit_def insert_run_def demo_stores new_run_row_def queued_count_def count_where_def
      max_queued_def lookup_row_def)

lemma demo_leased:
  "role_activate Run_executor 1 ''exec-1'' 0 (Aware 0) 300 (rs_roles demo_s2) = Inr (demo_lease, [demo_lease])"
  by code_simp

lemma demo_activated:
  "rq_activate_role 1 ''exec-1'' (Aware (seconds 1)) demo_s3 = Inr (demo_slot, demo_s4)"
  by (simp add: rq_activate_role_def demo_stores require_worker_lease_def worker_lease_live_def demo_lease_def
      lease_after_def seconds_def max_epoch_def slot_ok_def demo_slot_def update_where_def aware_run_time_def
      ensure_def len_def length_between_def Let_def)

text \<open>The claim, piece by piece: the run that fairness picks, then the claim transaction.\<close>

abbreviation demo_row1 :: run_row where "demo_row1 \<equiv> new_run_row demo_run_codec demo_q1"
abbreviation demo_row2 :: run_row where "demo_row2 \<equiv> new_run_row demo_run_codec demo_q2"

lemma demo_row_simps [simp]:
  "rw_run_id (new_run_row C q) = rq_run_id q" "rw_state (new_run_row C q) = Queued" "rw_version (new_run_row C q) = 1"
  "rw_submitted_by (new_run_row C q) = rq_operator q" "rw_created (new_run_row C q) = rq_submitted q"
  "rw_request (new_run_row C q) = q" "rw_sha (new_run_row C q) = request_digest C q"
  "rw_enqueued (new_run_row C q) = rq_submitted q" "rw_result (new_run_row C q) = no_result"
  "rw_key (new_run_row C q) = rq_key q" "rw_conversation (new_run_row C q) = rq_conversation q"
  by (simp_all add: new_run_row_def)

lemma demo_row_record:
  "record_from_row demo_run_codec demo_row1 = Inr (new_queue_record demo_run_codec demo_q1)"
  "record_from_row demo_run_codec demo_row2 = Inr (new_queue_record demo_run_codec demo_q2)"
proof -
  have "\<lparr>qr_request = rw_request r, qr_sha = rw_sha r, qr_state = rw_state r, qr_version = rw_version r,
      qr_result = rw_result r, qr_failure = rw_failure r, qr_enqueued = rw_enqueued r, qr_started = rw_started r,
      qr_completed = rw_completed r, qr_updated = rw_updated r\<rparr> = new_queue_record demo_run_codec q"
    if "r = new_run_row demo_run_codec q" for r q by (simp add: that new_run_row_def new_queue_record_def)
  then show "record_from_row demo_run_codec demo_row1 = Inr (new_queue_record demo_run_codec demo_q1)"
    "record_from_row demo_run_codec demo_row2 = Inr (new_queue_record demo_run_codec demo_q2)"
    by (simp_all only: record_from_row_def Let_def demo_record_ok if_True)
qed

lemma demo_fair: "fair_claim demo_s4 = Some demo_row1"
  by (simp add: fair_claim_def fair_order_def demo_stores operator_head_def earlier_run_def last_served_def
      lookup_row_def less_imp_le not_le)

lemma demo_running_ok: "queue_record_ok demo_run_codec (running_record demo_row1 (seconds 2))"
  by (simp add: queue_record_ok_def running_record_def outcome_ok_def seconds_def)

lemma demo_claim_ok [simp]: "claim_ok demo_run_codec demo_claim"
  by (simp add: claim_ok_def demo_claim_def) (simp add: demo_attempt_def new_attempt_def demo_frozen_def)

lemma demo_claim_run:
  "claim_run demo_run_codec ''exec-1'' 1 (seconds 2) 30 60 demo_factory (demo_uuid (CHR ''3'')) demo_token demo_row1 demo_s4
     = Inr (demo_claim, demo_s5)"
proof -
  have n: "last_number (demo_uuid (CHR ''1'')) demo_s4 = 0" "rs_fence demo_s4 = 0" "rs_attempts demo_s4 = []"
    "rs_runs demo_s4 = [demo_row1, demo_row2]" "rs_fairness demo_s4 = []"
    by (simp_all add: last_number_def demo_stores)
  have f: "demo_factory demo_q1 (demo_uuid (CHR ''3'')) 1 (seconds 2)
      = Inr (demo_frozen demo_q1 (demo_uuid (CHR ''3'')) 1 (seconds 2))" by (simp add: demo_factory_def)
  have id: "xs_run_id (demo_frozen q aid k now) = rq_run_id q" "xs_attempt_id (demo_frozen q aid k now) = aid"
    "xs_attempt_number (demo_frozen q aid k now) = k" for q aid k now by (simp_all add: demo_frozen_def)
  have ck: "run_row_checks (start_run (seconds 2) demo_row1)"
    by (simp add: run_row_checks_def start_run_def result_bound_def no_result_def seconds_def new_run_row_def)
  have un: "unclaimed demo_row1 demo_row1" "\<not> unclaimed demo_row1 demo_row2" by (simp_all add: unclaimed_def)
  have upd: "update_where (unclaimed demo_row1) (start_run (seconds 2)) [demo_row1, demo_row2]
      = [start_run (seconds 2) demo_row1, demo_row2]"
    by (simp add: update_where_def un)
  have c: "claim_ok demo_run_codec \<lparr>cl_request = demo_q1, cl_attempt = demo_attempt\<rparr>"
    using demo_claim_ok by (simp add: demo_claim_def)
  show ?thesis
    by (simp add: claim_run_def n f id demo_attempt_def [symmetric] lookup_row_def demo_running_ok ck un upd c
        served_def demo_s5_def demo_claim_def)
qed

lemma demo_claim_next:
  "rq_claim_next demo_run_codec 1 ''exec-1'' 1 (Aware (seconds 2)) 30 60 demo_factory (demo_uuid (CHR ''3'')) demo_token demo_s4
     = Inr (Some demo_claim, demo_s5)"
proof -
  have "require_active_role 1 ''exec-1'' 1 (seconds 2) False demo_s4 = Inr ()"
    by (simp add: require_active_role_def require_worker_lease_def worker_lease_live_def demo_stores demo_slot_def
        demo_lease_def lease_after_def seconds_def ensure_def)
  moreover have "active_count demo_s4 = 0" by (simp add: active_count_def demo_stores count_where_def)
  ultimately show ?thesis
    by (simp add: rq_claim_next_def aware_run_time_def claim_bounds_ok_def max_deadline_def max_active_def demo_fair
        demo_claim_run)
qed

lemma demo_steps:
  "run_step demo_run_codec demo_authorities demo_s0 demo_s1" "run_step demo_run_codec demo_authorities demo_s1 demo_s2"
  "run_step demo_run_codec demo_authorities demo_s2 demo_s3" "run_step demo_run_codec demo_authorities demo_s3 demo_s4"
  "run_step demo_run_codec demo_authorities demo_s4 demo_s5"
proof -
  show "run_step demo_run_codec demo_authorities demo_s0 demo_s1" by (rule run_step.admit [OF demo_admitted(1)])
  show "run_step demo_run_codec demo_authorities demo_s1 demo_s2" by (rule run_step.admit [OF demo_admitted(2)])
  show "run_step demo_run_codec demo_authorities demo_s2 demo_s3"
    unfolding demo_s3_def by (rule run_step.role [OF role_step.activate [OF demo_leased]])
  show "run_step demo_run_codec demo_authorities demo_s3 demo_s4" by (rule run_step.activate_role [OF demo_activated])
  show "run_step demo_run_codec demo_authorities demo_s4 demo_s5" by (rule run_step.claim [OF demo_claim_next])
qed

text \<open>The history up to the slot activation, and up to the claim.\<close>

lemma demo_run_history:
  "(run_step demo_run_codec demo_authorities)\<^sup>*\<^sup>* (fresh_store [demo_uuid (CHR ''f'')] 0) demo_s4"
  "(run_step demo_run_codec demo_authorities)\<^sup>*\<^sup>* (fresh_store [demo_uuid (CHR ''f'')] 0) demo_s5"
proof -
  note more = rtranclp.rtrancl_into_rtrancl [where r = "run_step demo_run_codec demo_authorities"]
  have "(run_step demo_run_codec demo_authorities)\<^sup>*\<^sup>* demo_s0 demo_s1" by (rule r_into_rtranclp) (rule demo_steps)
  from more [OF more [OF more [OF this demo_steps(2)] demo_steps(3)] demo_steps(4)]
  show h: "(run_step demo_run_codec demo_authorities)\<^sup>*\<^sup>* (fresh_store [demo_uuid (CHR ''f'')] 0) demo_s4"
    by (simp only: demo_s0_def)
  show "(run_step demo_run_codec demo_authorities)\<^sup>*\<^sup>* (fresh_store [demo_uuid (CHR ''f'')] 0) demo_s5"
    by (rule more [OF h demo_steps(5)])
qed

subsection \<open>After the claim\<close>

lemma seconds_order:
  "seconds a \<le> seconds b \<longleftrightarrow> a \<le> b" "seconds a < seconds b \<longleftrightarrow> a < b" "0 \<le> seconds b \<longleftrightarrow> 0 \<le> b"
  by (simp_all add: seconds_def)

abbreviation demo_running :: queue_record where
  "demo_running \<equiv> running_record demo_row1 (seconds 2)"

lemma demo_attempt_simps [simp]:
  "at_id demo_attempt = demo_uuid (CHR ''3'')" "at_run_id demo_attempt = demo_uuid (CHR ''1'')"
  "at_number demo_attempt = 1" "at_state demo_attempt = Running" "at_version demo_attempt = 1"
  "at_token demo_attempt = demo_token" "at_fencing demo_attempt = 1" "at_activation demo_attempt = 1"
  "at_executor demo_attempt = ''exec-1''" "at_result demo_attempt = no_result" "at_failure demo_attempt = None"
  "at_created demo_attempt = seconds 2" "at_lease demo_attempt = seconds 32" "at_deadline demo_attempt = seconds 62"
  by (simp_all add: demo_attempt_def new_attempt_def seconds_def)

lemma demo_running_simps [simp]:
  "qr_state demo_running = Running" "qr_version demo_running = 2" "qr_result demo_running = no_result"
  "qr_failure demo_running = None" "qr_completed demo_running = None" "qr_request demo_running = demo_q1"
  "qr_updated demo_running = seconds 2"
  by (simp_all add: running_record_def)

lemma demo_start_simps [simp]:
  "rw_run_id (start_run now r) = rw_run_id r" "rw_state (start_run now r) = Running"
  "rw_version (start_run now r) = rw_version r + 1" "rw_created (start_run now r) = rw_created r"
  "rw_request (start_run now r) = rw_request r"
  by (simp_all add: start_run_def)

lemma demo_new_attempt_simps [simp]:
  "ar_id (new_attempt_row a) = at_id a" "ar_run_id (new_attempt_row a) = at_run_id a"
  "ar_state (new_attempt_row a) = at_state a" "ar_version (new_attempt_row a) = at_version a"
  "ar_token (new_attempt_row a) = at_token a" "ar_fencing (new_attempt_row a) = at_fencing a"
  "ar_activation (new_attempt_row a) = at_activation a" "ar_executor (new_attempt_row a) = at_executor a"
  "ar_json (new_attempt_row a) = a" "ar_created (new_attempt_row a) = at_created a"
  "ar_lease (new_attempt_row a) = at_lease a" "ar_deadline (new_attempt_row a) = at_deadline a"
  "ar_number (new_attempt_row a) = at_number a"
  by (simp_all add: new_attempt_row_def)

lemma demo_s5_simps [simp]:
  "rs_runs demo_s5 = [start_run (seconds 2) demo_row1, demo_row2]" "rs_attempts demo_s5 = [new_attempt_row demo_attempt]"
  "rs_slots demo_s5 = [demo_slot]" "rs_roles demo_s5 = [demo_lease]"
  by (simp_all add: demo_stores)

lemma demo_start_record:
  "record_from_row demo_run_codec (start_run (seconds 2) demo_row1) = Inr demo_running"
proof -
  have "\<lparr>qr_request = rw_request r, qr_sha = rw_sha r, qr_state = rw_state r, qr_version = rw_version r,
      qr_result = rw_result r, qr_failure = rw_failure r, qr_enqueued = rw_enqueued r, qr_started = rw_started r,
      qr_completed = rw_completed r, qr_updated = rw_updated r\<rparr> = demo_running"
    if "r = start_run (seconds 2) demo_row1" for r
    by (simp add: that start_run_def running_record_def new_run_row_def)
  then show ?thesis by (simp only: record_from_row_def Let_def demo_running_ok if_True)
qed

lemma demo_locked: "locked_run demo_run_codec (demo_uuid (CHR ''1'')) demo_s5 = Inr demo_running"
  by (simp add: locked_run_def lookup_row_def demo_start_record)

text \<open>One run and its attempt advanced together, from the claimed store.\<close>

definition demo_advanced :: "attempt \<Rightarrow> queue_record \<Rightarrow> int run_store" where
  "demo_advanced a q = demo_s5\<lparr>rs_attempts := [attempt_columns a (new_attempt_row demo_attempt)],
     rs_runs := [run_columns q (start_run (seconds 2) demo_row1), demo_row2]\<rparr>"

lemma demo_write_attempt:
  assumes "at_id a = at_id demo_attempt" "at_token a = demo_token" "at_fencing a = 1" "at_activation a = 1"
    and "0 < at_version a" "seconds 2 \<le> at_updated a" "at_state a \<noteq> Queued" "result_bound (at_state a) (at_result a)"
  shows "write_attempt a 1 demo_s5 = Inr (demo_s5\<lparr>rs_attempts := [attempt_columns a (new_attempt_row demo_attempt)]\<rparr>)"
proof -
  have "attempt_fence a 1 (new_attempt_row demo_attempt)" using assms by (simp add: attempt_fence_def)
  moreover have "attempt_row_checks (attempt_columns a (new_attempt_row demo_attempt))"
    using assms by (simp add: attempt_row_checks_def attempt_columns_def)
  ultimately show ?thesis by (simp add: write_attempt_def update_where_def)
qed

lemma demo_write_run:
  assumes "qr_request q = demo_q1" "0 < qr_version q" "0 \<le> qr_updated q" "result_bound (qr_state q) (qr_result q)"
    and "rs_runs st = [start_run (seconds 2) demo_row1, demo_row2]"
  shows "write_run q Running 2 st = Inr (st\<lparr>rs_runs := [run_columns q (start_run (seconds 2) demo_row1), demo_row2]\<rparr>)"
proof -
  have "run_fence q Running 2 (start_run (seconds 2) demo_row1)" "\<not> run_fence q Running 2 demo_row2"
    using assms by (simp_all add: run_fence_def)
  moreover have "run_row_checks (run_columns q (start_run (seconds 2) demo_row1))"
    using assms by (simp add: run_row_checks_def run_columns_def)
  ultimately show ?thesis using assms by (simp add: write_run_def update_where_def)
qed

lemma demo_advanced_get:
  assumes "queue_record_ok demo_run_codec q" and "q = advanced_run t res f fin now demo_running"
  shows "rq_get demo_run_codec (demo_uuid (CHR ''1'')) (demo_advanced a q) = Inr (Some q)"
proof -
  have "\<lparr>qr_request = rw_request r, qr_sha = rw_sha r, qr_state = rw_state r, qr_version = rw_version r,
      qr_result = rw_result r, qr_failure = rw_failure r, qr_enqueued = rw_enqueued r, qr_started = rw_started r,
      qr_completed = rw_completed r, qr_updated = rw_updated r\<rparr> = q"
    if "r = run_columns q (start_run (seconds 2) demo_row1)" for r
    using that by (simp add: assms(2) start_run_def running_record_def run_columns_def advanced_run_def)
  then have "record_from_row demo_run_codec (run_columns q (start_run (seconds 2) demo_row1)) = Inr q"
    using assms(1) by (simp only: record_from_row_def Let_def if_True)
  moreover have "rw_run_id (run_columns q (start_run (seconds 2) demo_row1)) = demo_uuid (CHR ''1'')"
    by (simp add: run_columns_def)
  ultimately show ?thesis by (simp add: rq_get_def demo_advanced_def lookup_row_def)
qed

lemma write_attempt_one:
  "rs_attempts st = [x] \<Longrightarrow> attempt_fence a v x \<Longrightarrow> attempt_row_checks (attempt_columns a x) \<Longrightarrow>
     write_attempt a v st = Inr (st\<lparr>rs_attempts := [attempt_columns a x]\<rparr>)"
  by (simp add: write_attempt_def update_where_def)

lemma write_run_first:
  "rs_runs st = [r, r2] \<Longrightarrow> run_fence q s v r \<Longrightarrow> \<not> run_fence q s v r2 \<Longrightarrow> run_row_checks (run_columns q r) \<Longrightarrow>
     write_run q s v st = Inr (st\<lparr>rs_runs := [run_columns q r, r2]\<rparr>)"
  by (simp add: write_run_def update_where_def)

text \<open>The claimed run, finalizing one second later.\<close>

definition demo_fin_attempt :: attempt where
  "demo_fin_attempt = advanced_attempt Finalizing no_result None (seconds 3) demo_attempt"

definition demo_fin_record :: queue_record where
  "demo_fin_record = advanced_run Finalizing no_result None None (seconds 3) demo_running"

definition demo_s6 :: "int run_store" where
  "demo_s6 = demo_advanced demo_fin_attempt demo_fin_record"

lemma demo_fin_simps [simp]:
  "at_id demo_fin_attempt = demo_uuid (CHR ''3'')" "at_run_id demo_fin_attempt = demo_uuid (CHR ''1'')"
  "at_state demo_fin_attempt = Finalizing" "at_version demo_fin_attempt = 2" "at_token demo_fin_attempt = demo_token"
  "at_fencing demo_fin_attempt = 1" "at_activation demo_fin_attempt = 1" "at_executor demo_fin_attempt = ''exec-1''"
  "at_updated demo_fin_attempt = seconds 3" "at_result demo_fin_attempt = no_result" "at_lease demo_fin_attempt = seconds 32"
  "at_deadline demo_fin_attempt = seconds 62"
  "qr_state demo_fin_record = Finalizing" "qr_version demo_fin_record = 3" "qr_request demo_fin_record = demo_q1"
  "qr_updated demo_fin_record = seconds 3" "qr_result demo_fin_record = no_result"
  by (simp_all add: demo_fin_attempt_def demo_fin_record_def advanced_attempt_def advanced_run_def)

lemma demo_fin_ok: "attempt_ok demo_run_codec demo_fin_attempt" "queue_record_ok demo_run_codec demo_fin_record"
proof -
  show "attempt_ok demo_run_codec demo_fin_attempt"
    using demo_attempt_ok by (auto simp: attempt_ok_def demo_fin_attempt_def advanced_attempt_def outcome_ok_def)
  show "queue_record_ok demo_run_codec demo_fin_record"
    using demo_running_ok by (auto simp: queue_record_ok_def demo_fin_record_def advanced_run_def outcome_ok_def)
qed

lemma demo_owned:
  assumes "now < seconds 32" and "rs_slots st = [demo_slot]" and "rs_roles st = [demo_lease]"
    and "rs_attempts st = [x]" and "ar_id x = demo_uuid (CHR ''3'')" and "claim_matches demo_attempt x"
    and "active_state (ar_state x)" and "ar_lease x = seconds 32" and "ar_deadline x = seconds 62"
  shows "lock_owned_attempt demo_claim now False st = Inr x"
proof -
  have l: "now < seconds 62" "now < seconds 300" using assms(1) by (simp_all add: seconds_def)
  have "active_slot_for_claim demo_claim st = Inr 1"
    by (simp add: active_slot_for_claim_def assms(2) demo_slot_def demo_claim_def)
  moreover have "require_active_role 1 ''exec-1'' 1 now True st = Inr ()"
    using l by (simp add: require_active_role_def require_worker_lease_def worker_lease_live_def assms(2,3) demo_slot_def
        demo_lease_def lease_after_def ensure_def)
  ultimately show ?thesis
    using assms l by (simp add: lock_owned_attempt_def demo_claim_def lookup_row_def)
qed

lemma demo_finalizing:
  "rq_mark_finalizing demo_run_codec demo_claim (Aware (seconds 3)) demo_s5
     = Inr (\<lparr>cl_request = demo_q1, cl_attempt = demo_fin_attempt\<rparr>, demo_s6)"
proof -
  have own: "lock_owned_attempt demo_claim (seconds 3) False demo_s5 = Inr (new_attempt_row demo_attempt)"
    by (rule demo_owned) (simp_all add: claim_matches_def seconds_order)
  have wa: "write_attempt demo_fin_attempt 1 demo_s5
      = Inr (demo_s5\<lparr>rs_attempts := [attempt_columns demo_fin_attempt (new_attempt_row demo_attempt)]\<rparr>)"
    by (rule demo_write_attempt) (simp_all add: seconds_order result_bound_def no_result_def)
  have wr: "write_run demo_fin_record Running 2 (demo_s5\<lparr>rs_attempts := x\<rparr>)
      = Inr (demo_s5\<lparr>rs_attempts := x, rs_runs := [run_columns demo_fin_record (start_run (seconds 2) demo_row1), demo_row2]\<rparr>)" for x
    by (rule demo_write_run [THEN trans]) (simp_all add: seconds_order result_bound_def no_result_def)
  have lk: "locked_run demo_run_codec (demo_uuid (CHR ''1'')) (demo_s5\<lparr>rs_attempts := x\<rparr>) = Inr demo_running" for x
    using demo_locked by (simp add: locked_run_def)
  have cl: "claim_ok demo_run_codec \<lparr>cl_request = demo_q1, cl_attempt = demo_fin_attempt\<rparr>"
    using demo_claim_ok demo_fin_ok(1) by (simp add: claim_ok_def demo_claim_def) (simp add: demo_fin_attempt_def advanced_attempt_def)
  have rq: "cl_request demo_claim = demo_q1" by (simp add: demo_claim_def)
  show ?thesis
    by (simp add: rq_mark_finalizing_def aware_run_time_def own attempt_from_row_def assert_run_transition_def ensure_def
        demo_fin_attempt_def [symmetric] demo_fin_record_def [symmetric] wa wr lk rq Let_def cl demo_s6_def demo_advanced_def)
qed

lemma demo_finalized_history:
  "(run_step demo_run_codec demo_authorities)\<^sup>*\<^sup>* (fresh_store [demo_uuid (CHR ''f'')] 0) demo_s6"
  by (rule rtranclp.rtrancl_into_rtrancl [where r = "run_step demo_run_codec demo_authorities", OF demo_run_history(2)])
     (rule run_step.finalizing [OF demo_claim_ok demo_finalizing])

end
