(* ===== verification/Run_Properties.thy ===== *)
theory Run_Properties
  imports Run_Demo "HOL-Library.Product_Lexorder"
begin

text \<open>
  Properties of the run authority, stated on the repository's commands. Their witnesses run on the
  store of \<open>Run_Demo\<close>.
\<close>

subsection \<open>Histories\<close>

text \<open>
  C11. However admissions, claims, heartbeats, finalizations, cancellations, commits, reaping, lease
  commands and task commands are interleaved from a fresh database, at most 50 runs are queued and
  at most 5 attempts occupy a slot; every occupied slot belongs to a run in the same state and
  every active run has exactly one such attempt; no two open runs share a conversation; and no two
  attempts ever share a fencing token.
\<close>

theorem run_history_invariant:
  assumes "(run_step C A)\<^sup>*\<^sup>* (fresh_store v x) st"
  shows "queued_count st \<le> 50 \<and> active_count st \<le> 5
    \<and> (\<forall>a \<in> set (rs_attempts st). active_state (ar_state a) \<longrightarrow>
         (\<exists>r \<in> set (rs_runs st). rw_run_id r = ar_run_id a \<and> rw_state r = ar_state a))
    \<and> (\<forall>r \<in> set (rs_runs st). active_state (rw_state r) \<longrightarrow>
         (\<exists>!a. a \<in> set (rs_attempts st) \<and> active_state (ar_state a) \<and> ar_run_id a = rw_run_id r))
    \<and> (\<forall>r \<in> set (rs_runs st). \<forall>r' \<in> set (rs_runs st). rw_conversation r \<noteq> None \<longrightarrow>
         rw_conversation r' = rw_conversation r \<longrightarrow> \<not> run_terminal (rw_state r) \<longrightarrow>
         \<not> run_terminal (rw_state r') \<longrightarrow> r' = r)
    \<and> distinct (List.map ar_fencing (rs_attempts st))"
proof -
  note inv = queue_invE [OF history_good(2) [OF assms]]
  have "\<exists>!a. a \<in> set (rs_attempts st) \<and> active_state (ar_state a) \<and> ar_run_id a = rw_run_id r"
    if r: "r \<in> set (rs_runs st)" "active_state (rw_state r)" for r
  proof -
    obtain a where a: "a \<in> set (rs_attempts st)" "open_attempt a" "ar_run_id a = rw_run_id r"
      by (rule agreement_attemptE [OF inv(3) r])
    then show ?thesis using agreement_same [OF inv(3)] by (auto simp: open_attempt_def)
  qed
  moreover have "open_run r \<longleftrightarrow> \<not> run_terminal (rw_state r)" for r
    using run_state_cases [of "rw_state r"] by (cases "rw_state r") (auto simp: open_run_def)
  ultimately show ?thesis
    using inv(1-4) unfolding runs_inv_def attempts_inv_def bounded_def agreement_def open_attempt_def
      queued_count_def active_count_def max_queued_def max_active_def keys_unique_def
    by (intro conjI) blast+
qed

theorem run_history_invariant_witness:
  "active_count demo_s5 \<le> 5 \<and> distinct (List.map ar_fencing (rs_attempts demo_s5)) \<and> active_count demo_s5 = 1"
proof -
  have "active_count demo_s5 = 1"
    by (simp add: active_count_def demo_stores count_where_def new_attempt_row_def demo_attempt_def new_attempt_def)
  with run_history_invariant [OF demo_run_history(2)] show ?thesis by simp
qed

text \<open>
  C12. A run never disappears, keeps its request, owner, key and digest, moves only along allowed
  transitions while its version grows, and never changes again once it is terminal.
\<close>

theorem run_history_monotone:
  assumes "(run_step C A)\<^sup>*\<^sup>* (fresh_store v x) st" and "(run_step C A)\<^sup>*\<^sup>* st st'"
    and "rq_get C rid st = Inr (Some q)"
  shows "\<exists>q'. rq_get C rid st' = Inr (Some q') \<and> qr_request q' = qr_request q \<and> qr_sha q' = qr_sha q
    \<and> qr_version q \<le> qr_version q' \<and> allowed_run_transition\<^sup>*\<^sup>* (qr_state q) (qr_state q')
    \<and> (run_terminal (qr_state q) \<longrightarrow> q' = q)"
proof -
  note good = history_good [OF assms(1)]
  from assms(3) obtain r where r: "uuid_ok rid" "lookup_row rw_run_id rid (rs_runs st) = Some r" "record_from_row C r = Inr q"
    by (auto simp: rq_get_def split: if_splits option.splits)
  note rm = lookup_row_SomeD [OF r(2)]
  obtain r' where r': "r' \<in> set (rs_runs st')" "run_evolves r r'"
    using run_history_evolves [OF assms(2) good(1)] rm by blast
  note inv' = queue_invE [OF history_good(2) [OF rtranclp_trans [OF assms(1,2)]]]
  have "rw_run_id r' = rid" using r'(2) rm by (simp add: run_evolves_def same_run_def)
  then have l: "lookup_row rw_run_id rid (rs_runs st') = Some r'" by (rule lookup_row_eqI [OF inv'(5) r'(1)])
  obtain q' where q': "record_from_row C r' = Inr q'" using inv'(7) [OF r'(1)] by (auto simp: run_row_good_def)
  have get: "rq_get C rid st' = Inr (Some q')" by (simp add: rq_get_def r(1) l q')
  have "qr_request q' = qr_request q \<and> qr_sha q' = qr_sha q
    \<and> qr_version q \<le> qr_version q' \<and> allowed_run_transition\<^sup>*\<^sup>* (qr_state q) (qr_state q')
    \<and> (run_terminal (qr_state q) \<longrightarrow> q' = q)"
    using r(3) q' r'(2) by (auto simp: run_evolves_def same_run_def record_from_row_def Let_def split: if_splits)
  with get show ?thesis by blast
qed

theorem run_history_monotone_witness:
  "\<exists>q'. rq_get demo_run_codec (demo_uuid (CHR ''1'')) demo_s5 = Inr (Some q') \<and> qr_request q' = demo_q1
     \<and> 1 \<le> qr_version q'"
proof -
  have g: "rq_get demo_run_codec (demo_uuid (CHR ''1'')) demo_s4 = Inr (Some (new_queue_record demo_run_codec demo_q1))"
    by (simp add: rq_get_def demo_stores lookup_row_def demo_row_record)
  from demo_steps(5) have h: "(run_step demo_run_codec demo_authorities)\<^sup>*\<^sup>* demo_s4 demo_s5" by blast
  from run_history_monotone [OF demo_run_history(1) h g] show ?thesis by (auto simp: new_queue_record_def)
qed

text \<open>From a state that is no longer running toward success, success is out of reach.\<close>

lemma cancelled_never_succeeds:
  assumes "allowed_run_transition\<^sup>*\<^sup>* s t" and "s \<in> {Cancel_requested, Run_cancelled, Run_failed, Timed_out}"
  shows "t \<in> {Cancel_requested, Run_cancelled, Run_failed, Timed_out}"
  using assms by (induction rule: rtranclp_induct) auto

lemma write_run_stored:
  assumes "write_run q s v st = Inr st'" and "keys_unique rw_run_id (rs_runs st)"
  shows "\<exists>r. lookup_row rw_run_id (rq_run_id (qr_request q)) (rs_runs st') = Some r \<and> rw_state r = qr_state q"
proof -
  from assms obtain r where r: "r \<in> set (rs_runs st)" "run_fence q s v r"
    "st' = st\<lparr>rs_runs := put_row rw_run_id (run_columns q r) (rs_runs st)\<rparr>" by (rule write_runE)
  have "rw_run_id (run_columns q r) = rw_run_id r" "rw_run_id r = rq_run_id (qr_request q)"
    using r(2) by (simp_all add: run_columns_def run_fence_def)
  with lookup_put_row [OF assms(2) r(1) this(1)] show ?thesis by (auto simp: r(3) run_columns_def)
qed

lemma locked_run_id:
  assumes "locked_run C rid st = Inr q" and "queue_inv C (queue_of st)"
  shows "rq_run_id (qr_request q) = rid \<and> uuid_ok rid \<and> rq_get C rid st = Inr (Some q)"
proof -
  from assms(1) obtain r where r: "r \<in> set (rs_runs st)" "rw_run_id r = rid" "record_from_row C r = Inr q"
    by (rule locked_runE)
  have "run_row_good C r" using queue_invE(7) [OF assms(2) [unfolded queue_of_def] r(1)] .
  with r record_from_rowD(2) [OF r(3)] have "rq_run_id (qr_request q) = rid" by (simp add: run_row_good_def)
  moreover have "rq_get C rid st = Inr (Some q)" "uuid_ok rid"
    using assms(1) by (auto simp: rq_get_def locked_run_def split: if_splits option.splits)
  ultimately show ?thesis by simp
qed

lemma cancel_stored:
  assumes inv: "queue_inv C (queue_of st)" and m: "rq_request_cancel C rid operator c st = Inr (q, st')"
  shows "\<exists>r. lookup_row rw_run_id rid (rs_runs st') = Some r \<and> rw_state r = qr_state q"
    and "qr_state q \<in> {Cancel_requested, Run_cancelled, Run_failed, Timed_out, Succeeded}"
proof -
  note k = queue_invE(5) [OF inv [unfolded queue_of_def]]
  from m obtain now q0 where q0: "locked_run C rid st = Inr q0" and cr: "cancel_run C rid now q0 st = Inr (q, st')"
    by (auto simp: rq_request_cancel_def split: if_splits)
  note id = locked_run_id [OF q0 inv]
  show "qr_state q \<in> {Cancel_requested, Run_cancelled, Run_failed, Timed_out, Succeeded}"
    using cr by (cases "qr_state q0") (auto simp: cancel_run_def advanced_run_def Let_def split: option.splits)
  from cr consider "q = q0" "st' = st"
    | s v st1 where "write_run q s v st1 = Inr st'" "rs_runs st1 = rs_runs st" "qr_request q = qr_request q0"
    by (auto simp: cancel_run_def Let_def advanced_run_def split: option.splits if_splits dest!: write_attempt_same)
  then show "\<exists>r. lookup_row rw_run_id rid (rs_runs st') = Some r \<and> rw_state r = qr_state q"
  proof cases
    case 1
    from q0 obtain r where r: "r \<in> set (rs_runs st)" "rw_run_id r = rid" "record_from_row C r = Inr q0"
      by (rule locked_runE)
    with 1 lookup_row_eqI [OF k r(1,2)] record_from_rowD(4) [OF r(3)] show ?thesis by simp
  next
    case 2
    with write_run_stored [OF 2(1)] k id show ?thesis by simp
  qed
qed

text \<open>
  C13. A cancellation that was accepted before the run succeeded wins: whatever the executor, the
  reaper or anyone else does afterwards, the run never becomes succeeded and never exposes a
  result.
\<close>

theorem accepted_cancel_wins:
  assumes "(run_step C A)\<^sup>*\<^sup>* (fresh_store v x) st"
    and "rq_request_cancel C rid operator c st = Inr (q, st')" and "qr_state q \<noteq> Succeeded"
    and "(run_step C A)\<^sup>*\<^sup>* st' st''" and "rq_get C rid st'' = Inr (Some q'')"
  shows "qr_state q'' \<noteq> Succeeded \<and> \<not> res_available (qr_result q'')"
proof -
  have h': "(run_step C A)\<^sup>*\<^sup>* (fresh_store v x) st'"
    using assms(1) run_step.cancel [OF assms(2)] by (rule rtranclp.rtrancl_into_rtrancl)
  note inv = history_good(2) [OF assms(1), folded queue_of_def] and good' = history_good(1) [OF h']
  obtain r where r: "lookup_row rw_run_id rid (rs_runs st') = Some r" "rw_state r = qr_state q"
    using cancel_stored(1) [OF inv assms(2)] by blast
  note rm = lookup_row_SomeD [OF r(1)]
  obtain r'' where r'': "r'' \<in> set (rs_runs st'')" "run_evolves r r''"
    using run_history_evolves [OF assms(4) good'] rm by blast
  note inv'' = queue_invE [OF history_good(2) [OF rtranclp_trans [OF h' assms(4)]]]
  have "lookup_row rw_run_id rid (rs_runs st'') = Some r''"
    by (rule lookup_row_eqI [OF inv''(5) r''(1)]) (use r''(2) rm in \<open>simp add: run_evolves_def same_run_def\<close>)
  with assms(5) have rec: "record_from_row C r'' = Inr q''" by (auto simp: rq_get_def split: if_splits)
  note d = record_from_rowD [OF rec]
  have "rw_state r'' \<in> {Cancel_requested, Run_cancelled, Run_failed, Timed_out}"
    by (rule cancelled_never_succeeds [of "rw_state r"])
       (use r''(2) r(2) cancel_stored(2) [OF inv assms(2)] assms(3) in \<open>auto simp: run_evolves_def\<close>)
  with record_outcome [OF d(1)] d(4) show ?thesis by (auto simp: outcome_ok_def)
qed

text \<open>The claimed run of the example, after its owner asked to cancel it.\<close>

definition demo_cancel_record :: queue_record where
  "demo_cancel_record = advanced_run Cancel_requested no_result None None (seconds 3) demo_running"

definition demo_cancel_store :: "int run_store" where
  "demo_cancel_store = demo_advanced (advanced_attempt Cancel_requested no_result None (seconds 3) demo_attempt) demo_cancel_record"

theorem accepted_cancel_wins_witness:
  "rq_request_cancel demo_run_codec (demo_uuid (CHR ''1'')) ''alice'' (Aware (seconds 3)) demo_s5
      = Inr (demo_cancel_record, demo_cancel_store)
   \<and> rq_get demo_run_codec (demo_uuid (CHR ''1'')) demo_cancel_store = Inr (Some demo_cancel_record)
   \<and> qr_state demo_cancel_record \<noteq> Succeeded \<and> \<not> res_available (qr_result demo_cancel_record)"
proof -
  let ?a = "advanced_attempt Cancel_requested no_result None (seconds 3) demo_attempt"
  have cand: "cancellable_attempt (demo_uuid (CHR ''1'')) Running demo_s5 = Some (new_attempt_row demo_attempt)"
    by (simp add: cancellable_attempt_def)
  have wa: "write_attempt ?a 1 demo_s5 = Inr (demo_s5\<lparr>rs_attempts := [attempt_columns ?a (new_attempt_row demo_attempt)]\<rparr>)"
    by (rule demo_write_attempt) (simp_all add: advanced_attempt_def seconds_order result_bound_def no_result_def)
  have wr: "write_run demo_cancel_record Running 2 (demo_s5\<lparr>rs_attempts := x\<rparr>)
      = Inr (demo_s5\<lparr>rs_attempts := x, rs_runs := [run_columns demo_cancel_record (start_run (seconds 2) demo_row1), demo_row2]\<rparr>)" for x
    by (rule demo_write_run [THEN trans])
       (simp_all add: demo_cancel_record_def advanced_run_def seconds_order result_bound_def no_result_def)
  have c: "rq_request_cancel demo_run_codec (demo_uuid (CHR ''1'')) ''alice'' (Aware (seconds 3)) demo_s5
      = Inr (demo_cancel_record, demo_cancel_store)"
    by (simp add: rq_request_cancel_def aware_run_time_def demo_locked cancel_run_def cand attempt_from_row_def
        assert_run_transition_def ensure_def wa wr Let_def demo_cancel_record_def [symmetric] demo_cancel_store_def demo_advanced_def)
  have ok: "queue_record_ok demo_run_codec demo_cancel_record"
    using demo_running_ok by (auto simp: queue_record_ok_def demo_cancel_record_def advanced_run_def outcome_ok_def)
  have g: "rq_get demo_run_codec (demo_uuid (CHR ''1'')) demo_cancel_store = Inr (Some demo_cancel_record)"
    unfolding demo_cancel_store_def by (rule demo_advanced_get [OF ok]) (simp only: demo_cancel_record_def)
  have n: "qr_state demo_cancel_record \<noteq> Succeeded" by (simp add: demo_cancel_record_def advanced_run_def)
  show ?thesis using accepted_cancel_wins [OF demo_run_history(2) c n rtranclp.rtrancl_refl g] c g n by blast
qed

subsection \<open>Admission\<close>

lemma same_key_row:
  assumes "runs_inv C rs" and "r \<in> set rs"
  shows "find (\<lambda>x. rw_submitted_by x = rw_submitted_by r \<and> rw_key x = rw_key r) rs = Some r"
proof -
  have "keys_unique (\<lambda>x. (rw_submitted_by x, rw_key x)) rs" using assms(1) by (simp add: runs_inv_def)
  from lookup_row_unique [OF this assms(2)] show ?thesis by (simp add: lookup_row_def)
qed

text \<open>
  C14. Admission is idempotent for good: after a request was admitted, a request of the same operator
  with the same idempotency key never admits a second run, whatever happened in between. With the
  same content it returns the run first admitted, in its current state, and changes nothing; with
  other content it is rejected as a conflict.
\<close>

theorem admission_idempotent:
  assumes "(run_step C A)\<^sup>*\<^sup>* (fresh_store v x) st" and "rq_admit C q st = Inr ((rec, True), st')"
    and "(run_step C A)\<^sup>*\<^sup>* st' st''" and "rq_operator q' = rq_operator q" and "rq_key q' = rq_key q"
  shows "if request_digest C q' = request_digest C q
         then \<exists>rec'. rq_admit C q' st'' = Inr ((rec', False), st'') \<and> qr_request rec' = q
                \<and> rq_get C (rq_run_id q) st'' = Inr (Some rec')
         else rq_admit C q' st'' = Inl Run_idempotency_conflict"
proof -
  have h': "(run_step C A)\<^sup>*\<^sup>* (fresh_store v x) st'"
    using assms(1) run_step.admit [OF assms(2)] by (rule rtranclp.rtrancl_into_rtrancl)
  note good' = history_good(1) [OF h'] and inv = queue_invE [OF history_good(2) [OF rtranclp_trans [OF h' assms(3)]]]
  have new: "new_run_row C q \<in> set (rs_runs st')" and u: "uuid_ok (rq_run_id q)"
    using assms(2) by (auto simp: rq_admit_def insert_run_def queue_record_ok_def request_ok_def new_queue_record_def
        split: option.splits if_splits)
  obtain r where r: "r \<in> set (rs_runs st'')" "run_evolves (new_run_row C q) r"
    using run_history_evolves [OF assms(3) good' new] by blast
  have same: "rw_submitted_by r = rq_operator q" "rw_key r = rq_key q" "rw_sha r = request_digest C q" "rw_request r = q"
    "rw_run_id r = rq_run_id q"
    using r(2) by (simp_all add: run_evolves_def same_run_def new_run_row_def)
  obtain rec' where rec': "record_from_row C r = Inr rec'" using inv(7) [OF r(1)] by (auto simp: run_row_good_def)
  have "find (\<lambda>x. rw_submitted_by x = rq_operator q' \<and> rw_key x = rq_key q') (rs_runs st'') = Some r"
    using same_key_row [OF inv(1) r(1)] same assms(4,5) by simp
  then have ad: "rq_admit C q' st'' = (if request_digest C q' = request_digest C q then Inr ((rec', False), st'')
      else Inl Run_idempotency_conflict)"
    by (simp add: rq_admit_def same rec')
  have "rq_get C (rq_run_id q) st'' = Inr (Some rec')"
    using u lookup_row_eqI [OF inv(5) r(1) same(5)] by (simp add: rq_get_def rec')
  with ad record_from_rowD(2) [OF rec'] same(4) show ?thesis by simp
qed

theorem admission_idempotent_witness:
  "\<exists>rec'. rq_admit demo_run_codec (demo_q1\<lparr>rq_run_id := demo_uuid (CHR ''4''), rq_submitted := seconds 9\<rparr>) demo_s4
     = Inr ((rec', False), demo_s4) \<and> qr_request rec' = demo_q1"
proof -
  let ?q = "demo_q1\<lparr>rq_run_id := demo_uuid (CHR ''4''), rq_submitted := seconds 9\<rparr>"
  have h: "(run_step demo_run_codec demo_authorities)\<^sup>*\<^sup>* (fresh_store [demo_uuid (CHR ''f'')] 0) demo_s0"
    by (simp add: demo_s0_def)
  have "(run_step demo_run_codec demo_authorities)\<^sup>*\<^sup>* demo_s1 demo_s2" by (rule r_into_rtranclp) (rule demo_steps)
  then have "(run_step demo_run_codec demo_authorities)\<^sup>*\<^sup>* demo_s1 demo_s4"
    using demo_steps(3,4) by (auto intro: rtranclp.rtrancl_into_rtrancl)
  note again = admission_idempotent [OF h demo_admitted(1) this, of ?q]
  have "request_digest demo_run_codec ?q = request_digest demo_run_codec demo_q1" by (simp add: request_digest_def)
  with again show ?thesis by auto
qed

text \<open>
  C15. The queue's bound: at fifty queued runs a request with a new idempotency key is turned away
  with the overload error and the bound, whoever asks.
\<close>

theorem full_queue_rejects:
  assumes "queued_count st = 50"
    and "\<forall>r \<in> set (rs_runs st). \<not> (rw_submitted_by r = rq_operator q \<and> rw_key r = rq_key q)"
  shows "rq_admit C q st = Inl (Queue_overloaded 50)"
proof -
  have "find (\<lambda>r. rw_submitted_by r = rq_operator q \<and> rw_key r = rq_key q) (rs_runs st) = None"
    using assms(2) by (simp add: find_None_iff)
  then show ?thesis by (simp add: rq_admit_def assms(1) max_queued_def)
qed

theorem full_queue_rejects_witness:
  "rq_admit demo_run_codec demo_q2 (demo_s0\<lparr>rs_runs := replicate 50 demo_row1\<rparr>) = Inl (Queue_overloaded 50)"
  by (rule full_queue_rejects) (simp_all add: queued_count_def count_where_def)

subsection \<open>Fencing\<close>

text \<open>Only the latest activation is active.\<close>

lemma active_slot_epoch:
  assumes "slots_inv (rs_slots st)" and "r \<in> set (rs_slots st)" and "sl_state r = Role_active"
  shows "sl_epoch r = max_epoch st \<or> max_epoch st = 0"
proof -
  have top: "\<forall>r' \<in> set (rs_slots st). sl_epoch r' \<le> sl_epoch r" using assms by (simp add: slots_inv_def)
  have "max_epoch st = Max (insert 0 (sl_epoch ` set (rs_slots st)))" by (simp add: max_epoch_def fold_max_epoch)
  then have "max_epoch st \<in> insert 0 (sl_epoch ` set (rs_slots st))" using Max_in by (metis finite_insert finite_imageI
      List.finite_set insert_not_empty)
  with top epoch_le_max [OF assms(2)] show ?thesis by force
qed

lemma stale_activation:
  assumes "slots_inv (rs_slots st)" and "0 < at_activation (cl_attempt cl)"
    and "at_activation (cl_attempt cl) < max_epoch st"
  shows "lock_owned_attempt cl now b st = Inl (Claim_rejected ''Run Executor activation is stale'')"
proof -
  have "\<not> (sl_state r = Role_active \<and> sl_epoch r = at_activation (cl_attempt cl)
      \<and> sl_executor r = Some (at_executor (cl_attempt cl)))" if "r \<in> set (rs_slots st)" for r
    using active_slot_epoch [OF assms(1) that] assms(2,3) by auto
  then have "find (\<lambda>r. sl_state r = Role_active \<and> sl_epoch r = at_activation (cl_attempt cl)
      \<and> sl_executor r = Some (at_executor (cl_attempt cl))) (rs_slots st) = None"
    by (simp add: find_None_iff)
  then show ?thesis by (simp add: lock_owned_attempt_def active_slot_for_claim_def)
qed

text \<open>
  C16. Once an executor slot was activated again, every claim taken under an earlier activation is
  fenced off: its heartbeat, its finalization and both of its terminal commits are refused in every
  later store, so a paused executor that wakes up cannot write over the work of its successor.
\<close>

theorem superseded_claim_is_fenced:
  assumes "(run_step C A)\<^sup>*\<^sup>* (fresh_store v x) st" and "rq_activate_role slot executor c st = Inr (a, st')"
    and "(run_step C A)\<^sup>*\<^sup>* st' st''" and "claim_ok C cl" and "at_activation (cl_attempt cl) < sl_epoch a"
  shows "rq_mark_finalizing C cl (Aware now) st'' = Inl (Claim_rejected ''Run Executor activation is stale'')
    \<and> (\<forall>lease. 1 \<le> lease \<and> lease \<le> 120 \<longrightarrow>
         rq_heartbeat C cl (Aware now) lease st'' = Inl (Claim_rejected ''Run Executor activation is stale''))
    \<and> (\<forall>target \<in> {Run_failed, Timed_out, Run_cancelled}.
         rq_commit_failure C cl target f (Aware now) st'' = Inl (Claim_rejected ''Run Executor activation is stale''))
    \<and> (\<forall>m ref receipt turn count upd r.
         rq_commit_success C A cl m ref (Aware now) receipt turn count upd st'' \<noteq> Inr r)"
proof -
  have good: "store_good C st" using history_good [OF assms(1)] by simp
  then have sl: "slots_inv (rs_slots st)" by (simp add: store_good_def)
  have a': "sl_epoch a = max_epoch st + 1 \<and> max_epoch st' = max_epoch st + 1"
    by (rule activate_roleE [OF assms(2) sl]) (metis slot_row.select_convs(3))
  have "store_good C st'"
    by (rule store_steps_good [OF run_step_steps [OF run_step.activate_role [where A = A, OF assms(2)] good] good])
  from run_history_keeps [OF assms(3) this] have later: "slots_inv (rs_slots st'')" "max_epoch st' \<le> max_epoch st''"
    by (simp_all add: store_steps_def)
  have "0 < at_activation (cl_attempt cl)" using assms(4) by (simp add: claim_ok_def attempt_ok_def)
  from stale_activation [OF later(1) this] later(2) a' assms(5)
  have stale: "lock_owned_attempt cl t b st'' = Inl (Claim_rejected ''Run Executor activation is stale'')" for t b by simp
  show ?thesis
    by (simp add: rq_mark_finalizing_def rq_heartbeat_def rq_commit_failure_def rq_commit_success_def
        aware_run_time_def max_deadline_def stale)
qed

definition demo_slot2 :: slot_row where
  "demo_slot2 = \<lparr>sl_slot = 1, sl_state = Role_active, sl_epoch = 2, sl_executor = Some ''exec-1'', sl_updated = seconds 4\<rparr>"

theorem superseded_claim_is_fenced_witness:
  "rq_mark_finalizing demo_run_codec demo_claim (Aware (seconds 5)) (demo_s5\<lparr>rs_slots := [demo_slot2]\<rparr>)
     = Inl (Claim_rejected ''Run Executor activation is stale'')"
proof -
  have act: "rq_activate_role 1 ''exec-1'' (Aware (seconds 4)) demo_s5 = Inr (demo_slot2, demo_s5\<lparr>rs_slots := [demo_slot2]\<rparr>)"
    by (simp add: rq_activate_role_def require_worker_lease_def worker_lease_live_def demo_lease_def
        lease_after_def seconds_def max_epoch_def slot_ok_def demo_slot_def demo_slot2_def update_where_def aware_run_time_def
        ensure_def len_def length_between_def Let_def standby_slot_def)
  have old: "at_activation (cl_attempt demo_claim) < sl_epoch demo_slot2" by (simp add: demo_claim_def demo_slot2_def)
  show ?thesis
    using superseded_claim_is_fenced [OF demo_run_history(2) act rtranclp.rtrancl_refl demo_claim_ok old] by blast
qed

subsection \<open>Claims\<close>

lemma earlier_run_key: "earlier_run e r \<longleftrightarrow> (rw_created e, rw_run_id e) < (rw_created r, rw_run_id r)"
  by (auto simp: earlier_run_def)

lemma operator_head_exists:
  assumes "r \<in> set rs" and "rw_state r = Queued"
  obtains h where "h \<in> set rs" "operator_head rs h" "rw_submitted_by h = rw_submitted_by r"
proof -
  let ?S = "{x \<in> set rs. rw_state x = Queued \<and> rw_submitted_by x = rw_submitted_by r}"
  let ?k = "\<lambda>x. (rw_created x, rw_run_id x)"
  have "finite (?k ` ?S)" "?k ` ?S \<noteq> {}" using assms by auto
  from Min_in [OF this] obtain h where h: "h \<in> ?S" "?k h = Min (?k ` ?S)" by auto
  have "\<not> earlier_run e h" if "e \<in> ?S" for e
    unfolding earlier_run_key not_less h(2) using that by (intro Min_le) auto
  with h(1) have "operator_head rs h" by (auto simp: operator_head_def list_ex_iff)
  with h(1) show thesis by (intro that [of h]) simp_all
qed

lemma fair_claim_least:
  assumes "fair_claim st = Some r" and "r2 \<in> set (rs_runs st)" and "rw_state r2 = Queued"
  shows "last_served (rs_fairness st) (rw_submitted_by r) \<le> last_served (rs_fairness st) (rw_submitted_by r2)"
proof -
  let ?f = "\<lambda>r. last_served (rs_fairness st) (rw_submitted_by r)"
  let ?l = "fair_order (rs_fairness st) (filter (operator_head (rs_runs st)) (rs_runs st))"
  obtain h where h: "h \<in> set (rs_runs st)" "operator_head (rs_runs st) h" "rw_submitted_by h = rw_submitted_by r2"
    by (rule operator_head_exists [OF assms(2,3)])
  have "h \<in> set ?l" using h(1,2) by (simp add: fair_order_def)
  moreover obtain t where "?l = r # t" using assms(1) by (auto simp: fair_claim_def split: list.splits)
  moreover have "sorted (map ?f ?l)" by (simp add: fair_order_def)
  ultimately show ?thesis using h(3) by auto
qed

lemma last_served_update:
  "last_served (update_where (\<lambda>r. fa_operator r = operator) (\<lambda>r. r\<lparr>fa_last := now, fa_count := fa_count r + 1\<rparr>) t) o'
     = (if o' = operator \<and> lookup_row fa_operator operator t \<noteq> None then Some now else last_served t o')"
  by (induction t) (auto simp: last_served_def lookup_row_def update_where_def)

lemma last_served_served:
  "last_served (served operator now t) o' = (if o' = operator then Some now else last_served t o')"
proof (cases "lookup_row fa_operator operator t")
  case None
  then have "last_served (t @ [\<lparr>fa_operator = operator, fa_last = now, fa_count = 1\<rparr>]) o'
      = (if o' = operator then Some now else last_served t o')"
    by (induction t) (auto simp: last_served_def lookup_row_def split: if_splits)
  with None show ?thesis by (simp add: served_def)
next
  case (Some r)
  then show ?thesis by (simp add: served_def last_served_update)
qed

text \<open>
  C17. Claims are fair: the run claimed is a queued one; its operator has no older queued run; among
  all operators with a queued run, its operator was served longest ago, those never served first;
  and the claim moves that operator, and nobody else, to the back of the line.
\<close>

theorem claim_is_fair:
  assumes "rq_claim_next C slot executor epoch (Aware now) lease deadline factory aid token st = Inr (Some cl, st')"
  shows "\<exists>r \<in> set (rs_runs st). rw_request r = cl_request cl \<and> rw_state r = Queued
    \<and> (\<forall>r2 \<in> set (rs_runs st). rw_state r2 = Queued \<longrightarrow>
         (rw_submitted_by r2 = rw_submitted_by r \<longrightarrow> \<not> earlier_run r2 r)
         \<and> last_served (rs_fairness st) (rw_submitted_by r) \<le> last_served (rs_fairness st) (rw_submitted_by r2))
    \<and> (\<forall>operator. last_served (rs_fairness st') operator =
         (if operator = rq_operator (cl_request cl) then Some now else last_served (rs_fairness st) operator))"
proof -
  from assms obtain r where r: "fair_claim st = Some r"
    and cl: "claim_run C executor epoch now lease deadline factory aid token r st = Inr (cl, st')"
    by (auto simp: rq_claim_next_def aware_run_time_def split: option.splits if_splits)
  note head = fair_claimD [OF r]
  have req: "rw_request r = cl_request cl"
    and fair: "rs_fairness st' = served (rq_operator (cl_request cl)) now (rs_fairness st)"
    using cl by (auto simp: claim_run_def Let_def split: if_splits)
  show ?thesis
  proof (intro bexI conjI)
    show "\<forall>r2 \<in> set (rs_runs st). rw_state r2 = Queued \<longrightarrow>
         (rw_submitted_by r2 = rw_submitted_by r \<longrightarrow> \<not> earlier_run r2 r)
         \<and> last_served (rs_fairness st) (rw_submitted_by r) \<le> last_served (rs_fairness st) (rw_submitted_by r2)"
      using head fair_claim_least [OF r] by (auto simp: operator_head_def list_ex_iff)
  qed (use head req in \<open>simp_all add: operator_head_def fair last_served_served\<close>)
qed

theorem claim_is_fair_witness:
  "\<forall>operator. last_served (rs_fairness demo_s5) operator =
     (if operator = ''alice'' then Some (seconds 2) else last_served (rs_fairness demo_s4) operator)"
  using claim_is_fair [OF demo_claim_next] by (auto simp: demo_claim_def)

subsection \<open>Success and reaping\<close>

text \<open>
  C18. A run succeeds only from finalization, under a live lease and before its deadline, and as one
  step: the artifact authority has exposed the manifest, the run reads back as succeeded with that
  manifest, and the task of the request was advanced by exactly the given update at the version
  the request froze, or no task is touched when the request has none.
\<close>

theorem success_is_atomic:
  assumes "(run_step C A)\<^sup>*\<^sup>* (fresh_store v x) st" and "claim_ok C cl"
    and "rq_commit_success C A cl m ref (Aware now) receipt turn count upd st = Inr (q', st')"
  shows "(\<exists>q a ext. rq_get C (rq_run_id (cl_request cl)) st = Inr (Some q) \<and> qr_state q = Finalizing
       \<and> a \<in> set (rs_attempts st) \<and> ar_id a = at_id (cl_attempt cl) \<and> now < ar_lease a \<and> now < ar_deadline a
       \<and> au_bind A m ref (rs_ext st) = Inr (True, ext))
    \<and> rq_get C (rq_run_id (cl_request cl)) st' = Inr (Some q') \<and> qr_state q' = Succeeded
    \<and> res_manifest (qr_result q') = Some (mf_id m)
    \<and> (case upd of
         None \<Rightarrow> rq_task_id (cl_request cl) = None \<and> rs_tasks st' = rs_tasks st
       | Some u \<Rightarrow> rq_task_id (cl_request cl) = Some (upd_task_id u)
           \<and> rq_task_version (cl_request cl) = Some (upd_expected_version u)
           \<and> (\<exists>s sha. rq_task_sha (cl_request cl) = Some sha
                \<and> svc_apply_update (rc_tasks C) (pg_repo (rc_tasks C)) u (task_owner (cl_request cl)) (Aware now)
                    (rq_run_id (cl_request cl)) sha (rs_tasks st) = Inr (s, rs_tasks st')))"
proof -
  note inv = history_good(2) [OF assms(1), folded queue_of_def]
  from commit_successE [OF assms(3) inv assms(2)] obtain now' a q ext st2 st3 where n: "Aware now = Aware now'"
    and a: "lock_owned_attempt cl now' False st = Inr a" and q: "locked_run C (ar_run_id a) st = Inr q" "qr_state q = Finalizing"
    and b: "au_bind A m ref (rs_ext st) = Inr (True, ext)"
    and q': "q' = advanced_run Succeeded \<lparr>res_available = True, res_manifest = Some (mf_id m), res_receipt = receipt\<rparr>
            None (Some now') now' q"
    and st2: "rs_tasks st2 = rs_tasks st"
    and row: "\<exists>r'. rs_runs st2 = put_row rw_run_id r' (rs_runs st) \<and> rw_run_id r' = ar_run_id a \<and> record_from_row C r' = Inr q'"
    and tn: "append_turn_step A (cl_request cl) turn count st2 = Inr st3"
    and up: "task_update_step C (cl_request cl) upd now' st3 = Inr st'" by metis
  have now: "now' = now" using n by simp
  from a have am: "a \<in> set (rs_attempts st)" "ar_id a = at_id (cl_attempt cl)" "claim_matches (cl_attempt cl) a"
    "now < ar_lease a" "now < ar_deadline a" unfolding now by (auto elim: lock_owned_attemptE)
  have rid: "ar_run_id a = rq_run_id (cl_request cl)" using claim_run_id [OF assms(2) am(3)] by simp
  note run = locked_run_id [OF q(1) inv]
  have args: "(rq_task_id (cl_request cl) = None) = (upd = None)"
    using assms(3) by (auto simp: rq_commit_success_def success_arguments_ok_def Let_def split: if_splits)
  from append_turn_same [OF tn] st2 have t3: "rs_tasks st3 = rs_tasks st" "queue_of st3 = queue_of st2" by simp_all
  have runs: "rs_runs st' = rs_runs st2"
    using task_update_same [OF up] t3(2) by (simp add: queue_of_def)
  obtain r' where r': "rs_runs st2 = put_row rw_run_id r' (rs_runs st)" "rw_run_id r' = ar_run_id a"
    "record_from_row C r' = Inr q'" using row by blast
  obtain r where r: "r \<in> set (rs_runs st)" "rw_run_id r = ar_run_id a" by (rule locked_runE [OF q(1)])
  have "lookup_row rw_run_id (ar_run_id a) (rs_runs st') = Some r'"
    using lookup_put_row [OF queue_invE(5) [OF inv [unfolded queue_of_def]] r(1), of r'] r r'(2) by (simp add: runs r'(1))
  then have "rq_get C (ar_run_id a) st' = Inr (Some q')" using run r'(3) by (simp add: rq_get_def)
  moreover have "case upd of
         None \<Rightarrow> rq_task_id (cl_request cl) = None \<and> rs_tasks st' = rs_tasks st
       | Some u \<Rightarrow> rq_task_id (cl_request cl) = Some (upd_task_id u)
           \<and> rq_task_version (cl_request cl) = Some (upd_expected_version u)
           \<and> (\<exists>s sha. rq_task_sha (cl_request cl) = Some sha
                \<and> svc_apply_update (rc_tasks C) (pg_repo (rc_tasks C)) u (task_owner (cl_request cl)) (Aware now)
                    (rq_run_id (cl_request cl)) sha (rs_tasks st) = Inr (s, rs_tasks st'))"
    using up args t3(1) unfolding now
    by (cases upd) (auto simp: task_update_step_def split: option.splits if_splits)
  ultimately show ?thesis using q(2) run am b by (auto simp: rid q' advanced_run_def)
qed

definition demo_manifest :: manifest where
  "demo_manifest = \<lparr>mf_id = demo_uuid (CHR ''4''), mf_owner = \<lparr>ao_type = ''run_attempt'', ao_id = demo_uuid (CHR ''3'')\<rparr>,
     mf_members = [], mf_created = 0\<rparr>"

definition demo_object :: object_version where
  "demo_object = \<lparr>ov_id = demo_uuid (CHR ''4''), ov_bucket = ''b'', ov_key = ''k'', ov_version = ''v'', ov_sha = demo_hex,
     ov_size = 1, ov_kind = Artifact_manifest, ov_owner = mf_owner demo_manifest, ov_content_type = ''json'',
     ov_created = 0, ov_expires = None, ov_filename = None\<rparr>"

definition demo_result :: run_result where
  "demo_result = \<lparr>res_available = True, res_manifest = Some (demo_uuid (CHR ''4'')), res_receipt = Some Answered_with_citations\<rparr>"

definition demo_success :: queue_record where
  "demo_success = advanced_run Succeeded demo_result None (Some (seconds 4)) (seconds 4) demo_fin_record"

text \<open>The claimed run succeeds over any store with the demo's tables whose artifact authority accepts the bundle.\<close>

lemma demo_commits:
  assumes st: "rs_slots st = rs_slots demo_s6" "rs_roles st = rs_roles demo_s6" "rs_attempts st = rs_attempts demo_s6"
      "rs_runs st = rs_runs demo_s6"
    and args: "success_arguments_ok demo_claim m ref None None None = Inr ()" and id: "mf_id m = demo_uuid (CHR ''4'')"
    and bind: "au_bind A m ref (rs_ext st) = Inr (True, x)"
  shows "\<exists>st'. rq_commit_success demo_run_codec A demo_claim m ref (Aware (seconds 4))
     (Some Answered_with_citations) None None None st = Inr (demo_success, st')"
proof -
  let ?x = "attempt_columns demo_fin_attempt (new_attempt_row demo_attempt)"
  let ?r = "run_columns demo_fin_record (start_run (seconds 2) demo_row1)"
  let ?a = "advanced_attempt Succeeded demo_result None (seconds 4) demo_fin_attempt"
  have tables: "rs_slots st = [demo_slot]" "rs_roles st = [demo_lease]" "rs_attempts st = [?x]" "rs_runs st = [?r, demo_row2]"
    unfolding st by (simp_all add: demo_s6_def demo_advanced_def)
  have own: "lock_owned_attempt demo_claim (seconds 4) False st = Inr ?x"
    by (rule demo_owned) (simp_all add: tables claim_matches_def seconds_order attempt_columns_def)
  have lk: "locked_run demo_run_codec (demo_uuid (CHR ''1'')) st = Inr demo_fin_record"
    using demo_advanced_get [OF demo_fin_ok(2) demo_fin_record_def, of demo_fin_attempt] st(4)
    by (auto simp: rq_get_def locked_run_def demo_s6_def split: option.splits)
  have wa: "write_attempt ?a 2 (st\<lparr>rs_ext := n\<rparr>) = Inr (st\<lparr>rs_ext := n, rs_attempts := [attempt_columns ?a ?x]\<rparr>)" for n
    by (subst write_attempt_one [where x = ?x])
       (simp_all add: tables attempt_fence_def attempt_columns_def advanced_attempt_def attempt_row_checks_def seconds_order
          result_bound_def demo_result_def)
  have wr: "write_run demo_success Finalizing 3 (st\<lparr>rs_ext := n, rs_attempts := y\<rparr>)
      = Inr (st\<lparr>rs_ext := n, rs_attempts := y, rs_runs := [run_columns demo_success ?r, demo_row2]\<rparr>)" for n y
    by (subst write_run_first [where r = ?r and ?r2.0 = demo_row2])
       (simp_all add: tables run_fence_def run_columns_def demo_success_def advanced_run_def run_row_checks_def seconds_order
          result_bound_def demo_result_def)
  have res: "\<lparr>res_available = True, res_manifest = Some (mf_id m), res_receipt = Some Answered_with_citations\<rparr> = demo_result"
    "result_ok demo_result" by (simp_all add: demo_result_def id result_ok_def)
  have json: "attempt_from_row demo_run_codec ?x = Inr demo_fin_attempt"
    using demo_fin_ok(1) by (simp add: attempt_from_row_def attempt_columns_def)
  have rq: "cl_request demo_claim = demo_q1" by (simp add: demo_claim_def)
  show ?thesis
    by (simp add: rq_commit_success_def aware_run_time_def args own json lk bind res Let_def wa rq
        demo_success_def [symmetric] wr append_turn_step_def task_update_step_def)
qed

lemma demo_committed:
  "\<exists>st'. rq_commit_success demo_run_codec demo_authorities demo_claim demo_manifest demo_object (Aware (seconds 4))
     (Some Answered_with_citations) None None None demo_s6 = Inr (demo_success, st')"
  by (rule demo_commits)
    (simp_all add: success_arguments_ok_def demo_claim_def demo_object_def demo_manifest_def ensure_def Let_def demo_authorities_def)

theorem success_is_atomic_witness:
  "\<exists>st' :: int run_store. rq_get demo_run_codec (demo_uuid (CHR ''1'')) st' = Inr (Some demo_success) \<and> qr_state demo_success = Succeeded
     \<and> rs_tasks st' = rs_tasks demo_s6"
proof -
  obtain st' where c: "rq_commit_success demo_run_codec demo_authorities demo_claim demo_manifest demo_object
      (Aware (seconds 4)) (Some Answered_with_citations) None None None demo_s6 = Inr (demo_success, st')"
    using demo_committed by blast
  from success_is_atomic [OF demo_finalized_history demo_claim_ok c] show ?thesis
    by (intro exI [of _ st']) (simp add: demo_claim_def)
qed

text \<open>
  Reaping at a time leaves no occupied slot whose lease has run out by then, but for rows that another
  transaction has locked, and reports exactly how many it reaped.
\<close>

theorem reap_clears_expired:
  assumes "(run_step C A)\<^sup>*\<^sup>* (fresh_store v x) st" and "rq_reap C busy (Aware now) st = Inr (n, st')"
  shows "expired_attempts busy now st' = [] \<and> n = len (expired_attempts busy now st)"
proof -
  note r = reap_refines(2) [OF history_good(2) [OF assms(1), folded queue_of_def] assms(2) refl]
  have "filter (\<lambda>r. active_state (ar_state r) \<and> ar_lease r \<le> now \<and> \<not> busy (ar_id r)) (rs_attempts st') = []"
    using r by (auto simp: filter_empty_conv)
  then have "expired_attempts busy now st' = []" by (simp add: expired_attempts_def)
  with r show ?thesis by simp
qed

theorem reap_clears_expired_witness:
  "\<exists>st'. rq_reap demo_run_codec (\<lambda>_. False) (Aware (seconds 40)) demo_s5 = Inr (1, st') \<and> expired_attempts (\<lambda>_. False) (seconds 40) st' = []"
proof -
  let ?f = "Some \<lparr>rf_code = Executor_lost, rf_detail = None\<rparr>"
  let ?a = "advanced_attempt Run_failed no_result ?f (seconds 40) demo_attempt"
  let ?q = "advanced_run Run_failed no_result ?f (Some (seconds 40)) (seconds 40) demo_running"
  have ex: "expired_attempts (\<lambda>_. False) (seconds 40) demo_s5 = [new_attempt_row demo_attempt]"
    by (simp add: expired_attempts_def seconds_order)
  have wa: "write_attempt ?a 1 demo_s5 = Inr (demo_s5\<lparr>rs_attempts := [attempt_columns ?a (new_attempt_row demo_attempt)]\<rparr>)"
    by (rule demo_write_attempt) (simp_all add: advanced_attempt_def seconds_order result_bound_def no_result_def)
  have wr: "write_run ?q Running 2 (demo_s5\<lparr>rs_attempts := x\<rparr>)
      = Inr (demo_s5\<lparr>rs_attempts := x, rs_runs := [run_columns ?q (start_run (seconds 2) demo_row1), demo_row2]\<rparr>)" for x
    by (rule demo_write_run [THEN trans]) (simp_all add: advanced_run_def seconds_order result_bound_def no_result_def)
  have lk: "locked_run demo_run_codec (demo_uuid (CHR ''1'')) (demo_s5\<lparr>rs_attempts := x\<rparr>) = Inr demo_running" for x
    using demo_locked by (simp add: locked_run_def)
  have "\<exists>st'. rq_reap demo_run_codec (\<lambda>_. False) (Aware (seconds 40)) demo_s5 = Inr (1, st')"
    by (simp add: rq_reap_def aware_run_time_def ex reap_row_def attempt_from_row_def wa wr lk Let_def record_failed_task_def)
  then obtain st' where m: "rq_reap demo_run_codec (\<lambda>_. False) (Aware (seconds 40)) demo_s5 = Inr (1, st')" by blast
  with reap_clears_expired [OF demo_run_history(2) m] show ?thesis by blast
qed

subsection \<open>Worker roles\<close>

text \<open>
  A worker role is never taken over while its lease is live: as long as the current row is
  active or draining with an unexpired lease, every activation at that time fails, whoever asks
  for whichever slot, and the table is unchanged.
\<close>

theorem live_role_not_taken:
  assumes "roles_inv t" and "lookup_row wr_role role t = Some r" and "is_live r now"
  shows "\<exists>e. role_activate role slot owner expected (Aware now) lease t = Inl e"
proof (rule ccontr)
  assume "\<not> (\<exists>e. role_activate role slot owner expected (Aware now) lease t = Inl e)"
  then obtain a t' where m: "role_activate role slot owner expected (Aware now) lease t = Inr (a, t')"
    by (cases "role_activate role slot owner expected (Aware now) lease t") auto
  from role_activateE [OF m assms(1)] obtain cur where "role_get role t = Inr cur" "\<not> is_live cur now"
    by (metis clock.inject)
  with role_getE(4) [of role t cur] assms(2,3) show False by simp
qed

theorem live_role_not_taken_witness:
  "\<exists>e. role_activate Run_executor 2 ''exec-2'' 1 (Aware (seconds 299)) 30 [demo_lease] = Inl e"
proof -
  have "roles_inv [demo_lease]"
    by (simp add: roles_inv_def keys_unique_def demo_lease_def activation_ok_def length_between_def len_def seconds_def)
  from live_role_not_taken [OF this, of Run_executor demo_lease "seconds 299" 2 "''exec-2''" 1 30]
  show ?thesis by (simp add: lookup_row_def demo_lease_def is_live_def seconds_def)
qed

text \<open>
  C19. A lost lease stays lost: once the role was activated with a later epoch, no lease of an
  earlier epoch can be renewed, drained, resumed or released, whatever happened to the role in
  the meantime, so a former owner cannot prolong or end the lease of its successor.
\<close>

theorem lost_lease_stays_lost:
  assumes "roles_inv t" and "role_activate role slot owner expected c lease t = Inr (b, t')"
    and "role_step\<^sup>*\<^sup>* t' t''" and "wr_role a = role" and "wr_epoch a < wr_epoch b"
  shows "(\<forall>r. role_heartbeat a c' lease' t'' \<noteq> Inr r) \<and> (\<forall>r. role_begin_draining a c' t'' \<noteq> Inr r)
    \<and> (\<forall>r. role_resume_active a c' t'' \<noteq> Inr r) \<and> (\<forall>r. role_release a c' t'' \<noteq> Inr r)"
proof -
  have inv': "roles_inv t'" using role_step_keeps [OF role_step.activate [OF assms(2)] assms(1)] by simp
  have k: "keys_unique wr_role t" using assms(1) by (simp add: roles_inv_def)
  from role_activateE [OF assms(2,1)] obtain cur where cur: "role_get role t = Inr cur" and t': "t' = put_row wr_role b t"
    and b: "wr_role b = role" by (metis activation.select_convs(1))
  note g = role_getE [OF cur]
  have "lookup_row wr_role role t' = Some b"
    using lookup_put_row [OF k g(1), of b role] g(2) b by (simp add: t')
  with role_history_keeps [OF assms(3) inv'] obtain r where inv'': "roles_inv t''"
    and r: "lookup_row wr_role role t'' = Some r" "role_evolves b r"
    by (auto simp: roles_evolve_def)
  have gone: "count_where (\<lambda>x. owns_lease a x \<and> P x) t'' = 0" "count_where (owns_lease a) t'' = 0" for P
    using owns_lease_epoch [OF inv'', of a r] r assms(4,5) by (auto simp: role_evolves_def)
  show ?thesis
    by (simp add: role_heartbeat_def role_begin_draining_def role_resume_active_def role_release_def role_update_def
        gone Let_def)
qed

definition demo_lease2 :: activation where
  "demo_lease2 = \<lparr>wr_role = Run_executor, wr_slot = 2, wr_state = Role_active, wr_epoch = 2,
     wr_owner = Some ''exec-2'', wr_heartbeat = Some (seconds 400), wr_lease = Some (seconds 430), wr_updated = seconds 400\<rparr>"

theorem lost_lease_stays_lost_witness:
  "\<forall>r. role_release demo_lease (Aware (seconds 401)) [demo_lease2] \<noteq> Inr r"
proof -
  have inv: "roles_inv [demo_lease]"
    by (simp add: roles_inv_def keys_unique_def demo_lease_def activation_ok_def length_between_def len_def seconds_def)
  have m: "role_activate Run_executor 2 ''exec-2'' 1 (Aware (seconds 400)) 30 [demo_lease] = Inr (demo_lease2, [demo_lease2])"
    by code_simp
  have e: "wr_epoch demo_lease < wr_epoch demo_lease2" "wr_role demo_lease = Run_executor"
    by (simp_all add: demo_lease_def demo_lease2_def)
  from lost_lease_stays_lost [OF inv m rtranclp.rtrancl_refl e(2,1)] show ?thesis by blast
qed

end
