(* ===== verification/Deployment_State.thy ===== *)
theory Deployment_State
  imports Spec_Prelude
begin

text \<open>
  The records of a fenced blue/green deployment, \<open>deployment/state.py\<close>: candidate bindings,
  requests, step records and results with the checks of their constructors, and the retention
  deadline of rollback assets. Instants count microseconds from the start of 1970 in UTC; the
  support zone Asia/Shanghai is UTC plus eight hours, as it has been since September 1991.
\<close>

subsection \<open>Vocabulary\<close>

datatype slot = Blue | Green

datatype outcome = Deployed | Aborted | Abort_failed | Rolled_back | Rollback_failed

datatype step_status = Step_succeeded | Step_failed

datatype step_name = Validate_prechecks | Locked_expand_migration | Start_candidate_standby
  | Candidate_readiness | Isolated_smoke | Bidirectional_queue_contract | Pause_admission
  | Old_workers_draining | Old_claims_zero | Gateway_switch | Candidate_activation
  | Stable_origin_smoke | Soak | Stop_old_compute | Resume_admission
  | Abort_old_workers_active | Abort_candidate_standby
  | Rollback_old_api_readiness | Rollback_gateway | Rollback_candidate_draining
  | Rollback_candidate_claims_zero | Rollback_candidate_fenced | Rollback_old_activation
  | Rollback_fail_lost_attempts

subsection \<open>Patterns\<close>

definition ascii_lower :: "char \<Rightarrow> bool" where "ascii_lower c \<longleftrightarrow> char_between 97 122 c"
definition ascii_upper :: "char \<Rightarrow> bool" where "ascii_upper c \<longleftrightarrow> char_between 65 90 c"
definition ascii_digit :: "char \<Rightarrow> bool" where "ascii_digit c \<longleftrightarrow> char_between 48 57 c"

definition label_mark :: "char \<Rightarrow> bool" where
  "label_mark c \<longleftrightarrow> c = CHR ''.'' \<or> c = CHR ''_'' \<or> c = CHR ''-''"

text \<open>\<open>^[A-Za-z0-9][A-Za-z0-9._-]*$\<close> and \<open>^[a-z0-9][a-z0-9._-]*$\<close>.\<close>

fun mixed_label :: "string \<Rightarrow> bool" where
  "mixed_label [] = False"
| "mixed_label (c # s) = ((ascii_lower c \<or> ascii_upper c \<or> ascii_digit c)
     \<and> list_all (\<lambda>d. ascii_lower d \<or> ascii_upper d \<or> ascii_digit d \<or> label_mark d) s)"

fun lower_label :: "string \<Rightarrow> bool" where
  "lower_label [] = False"
| "lower_label (c # s) = ((ascii_lower c \<or> ascii_digit c)
     \<and> list_all (\<lambda>d. ascii_lower d \<or> ascii_digit d \<or> label_mark d) s)"

text \<open>
  \<open>str.islower\<close> and \<open>str.isdigit\<close> of one character, on the code points below 256 that HOL
  characters cover: they hold beyond ASCII, for instance of \<open>e\<close> with an accent or of a
  superscript two.
\<close>

definition py_islower :: "char \<Rightarrow> bool" where
  "py_islower c \<longleftrightarrow> ascii_lower c \<or> of_char c \<in> {170, 181, 186 :: int} \<or> char_between 223 246 c \<or> char_between 248 255 c"

definition py_isdigit :: "char \<Rightarrow> bool" where
  "py_isdigit c \<longleftrightarrow> ascii_digit c \<or> of_char c \<in> {178, 179, 185 :: int}"

subsection \<open>Immutable image references\<close>

text \<open>The first occurrence of a marker, as the text before and after it.\<close>

fun split_sub :: "string \<Rightarrow> string \<Rightarrow> (string \<times> string) option" where
  "split_sub m [] = (if m = [] then Some ([], []) else None)"
| "split_sub m (c # s) = (if prefix m (c # s) then Some ([], drop (length m) (c # s))
     else map_option (\<lambda>(a, b). (c # a, b)) (split_sub m s))"

definition digest_marker :: string where "digest_marker = ''@sha256:''"

text \<open>
  \<open>value.count(marker) == 1\<close>: one occurrence, and none after it; then \<open>rsplit\<close> cuts there.
\<close>

definition image_ok :: "string \<Rightarrow> bool" where
  "image_ok v \<longleftrightarrow> stripped v \<and> list_all (\<lambda>c. (33::int) \<le> of_char c) v
     \<and> (case split_sub digest_marker v of
          None \<Rightarrow> False
        | Some (name, digest) \<Rightarrow> split_sub digest_marker digest = None \<and> name \<noteq> [] \<and> hex64_ok digest)"

record binding =
  bd_release_id :: string
  bd_image :: string
  bd_manifest_sha :: string
  bd_migration_sha :: string
  bd_schema_revision :: string

definition binding_ok :: "binding \<Rightarrow> bool" where
  "binding_ok b \<longleftrightarrow> length_between 1 128 (bd_release_id b) \<and> mixed_label (bd_release_id b)
     \<and> length_between 80 512 (bd_image b) \<and> image_ok (bd_image b)
     \<and> hex64_ok (bd_manifest_sha b) \<and> hex64_ok (bd_migration_sha b)
     \<and> length_between 1 128 (bd_schema_revision b) \<and> lower_label (bd_schema_revision b)"

record deploy_request =
  dr_binding :: binding
  dr_old_slot :: slot
  dr_candidate_slot :: slot
  dr_old_epoch :: int
  dr_generation :: int
  dr_drain_timeout :: int
  dr_soak :: int
  dr_pause_authorized :: bool

definition deploy_request_ok :: "deploy_request \<Rightarrow> bool" where
  "deploy_request_ok r \<longleftrightarrow> binding_ok (dr_binding r) \<and> 1 \<le> dr_old_epoch r \<and> 1 \<le> dr_generation r
     \<and> 1 \<le> dr_drain_timeout r \<and> dr_drain_timeout r \<le> 150 \<and> dr_soak r = 1800
     \<and> dr_old_slot r \<noteq> dr_candidate_slot r"

subsection \<open>Step records and results\<close>

record step_record =
  sr_name :: step_name
  sr_status :: step_status
  sr_binding_sha :: string
  sr_release_id :: string
  sr_started :: instant
  sr_completed :: instant
  sr_error :: "string option"

definition step_record_ok :: "step_record \<Rightarrow> bool" where
  "step_record_ok s \<longleftrightarrow> hex64_ok (sr_binding_sha s)
     \<and> length_between 1 128 (sr_release_id s) \<and> mixed_label (sr_release_id s)
     \<and> opt_ok (\<lambda>e. length_between 1 128 e \<and> lower_label e) (sr_error s)
     \<and> sr_started s \<le> sr_completed s \<and> (sr_status s = Step_failed \<longleftrightarrow> sr_error s \<noteq> None)"

record deploy_result =
  dl_outcome :: outcome
  dl_binding_sha :: string
  dl_steps :: "step_record list"
  dl_generation :: "int option"
  dl_epoch :: "int option"
  dl_switched :: "instant option"
  dl_retention :: "instant option"

definition deploy_result_ok :: "deploy_result \<Rightarrow> bool" where
  "deploy_result_ok r \<longleftrightarrow> hex64_ok (dl_binding_sha r) \<and> dl_steps r \<noteq> []
     \<and> opt_ok (\<lambda>n. 1 \<le> n) (dl_generation r) \<and> opt_ok (\<lambda>n. 1 \<le> n) (dl_epoch r)
     \<and> list_all (\<lambda>s. sr_binding_sha s = dl_binding_sha r) (dl_steps r)
     \<and> (dl_switched r = None \<longleftrightarrow> dl_retention r = None)
     \<and> (case (dl_switched r, dl_retention r) of (Some s, Some t) \<Rightarrow> s < t | _ \<Rightarrow> True)"

subsection \<open>Retention of rollback assets\<close>

definition hours :: "int \<Rightarrow> int" where "hours n = n * 3600000000"

text \<open>Local calendar: the day number and the time of day; day 0 is a Thursday, Monday is 0.\<close>

definition local_time :: "instant \<Rightarrow> int" where "local_time t = t + hours 8"
definition local_day :: "instant \<Rightarrow> int" where "local_day t = local_time t div hours 24"
definition weekday :: "int \<Rightarrow> int" where "weekday d = (d + 3) mod 7"
definition at_hour :: "int \<Rightarrow> int \<Rightarrow> instant" where "at_hour d h = d * hours 24 + hours h - hours 8"

text \<open>\<open>while candidate_day.weekday() >= 5: candidate_day += 1\<close>.\<close>

function skip_weekend :: "int \<Rightarrow> int" where
  "skip_weekend d = (if 5 \<le> weekday d then skip_weekend (d + 1) else d)"
  by pat_completeness auto
termination
proof (relation "measure (\<lambda>d. if 5 \<le> weekday d then nat (7 - weekday d) else 0)")
  fix d :: int assume "5 \<le> weekday d"
  then show "(d + 1, d) \<in> measure (\<lambda>d. if 5 \<le> weekday d then nat (7 - weekday d) else 0)"
    unfolding weekday_def by simp presburger
qed simp

declare skip_weekend.simps [simp del]

definition retention_deadline :: "clock \<Rightarrow> string + instant" where
  "retention_deadline c = (case c of
     Naive \<Rightarrow> Inl ''Gateway switch time must be timezone-aware''
   | Aware t \<Rightarrow>
       let day = local_day t; window_start = at_hour day 9;
           day1 = (if 5 \<le> weekday day \<or> window_start \<le> t then day + 1 else day)
       in Inr (max (t + hours 24) (at_hour (skip_weekend day1) 18)))"

text \<open>The skipped days are weekend days, and the search stops at a weekday.\<close>

lemma skip_weekend_props:
  "d \<le> skip_weekend d \<and> skip_weekend d \<le> d + 2 \<and> weekday (skip_weekend d) < 5
   \<and> (\<forall>e. d \<le> e \<longrightarrow> e < skip_weekend d \<longrightarrow> 5 \<le> weekday e)"
proof -
  have w: "5 \<le> weekday d \<Longrightarrow> weekday d = 5 \<or> weekday d = 6" for d
    unfolding weekday_def by presburger
  have s: "weekday d = 5 \<Longrightarrow> weekday (d + 1) = 6" "weekday d = 6 \<Longrightarrow> weekday (d + 1) = 0" for d
    unfolding weekday_def by presburger+
  show ?thesis
  proof (cases "5 \<le> weekday d")
    case False then show ?thesis by (simp add: skip_weekend.simps)
  next
    case True
    with w consider "weekday d = 6" | "weekday d = 5" by blast
    then show ?thesis
    proof cases
      case 1
      with s(2) have "skip_weekend d = d + 1" by (simp add: skip_weekend.simps)
      with 1 s(2) show ?thesis by (auto simp: order_le_less)
    next
      case 2
      with s(1) [of d] s(2) [of "d + 1"] have "weekday (d + 1) = 6" "weekday (2 + d) = 0" by (simp_all add: add.commute)
      then have sk: "skip_weekend d = d + 2"
        using 2 by (simp add: skip_weekend.simps [of d] skip_weekend.simps [of "d + 1"] skip_weekend.simps [of "2 + d"])
      have "5 \<le> weekday e" if "d \<le> e" "e < d + 2" for e
      proof -
        from that have "e = d \<or> e = d + 1" by linarith
        then show ?thesis by (elim disjE) (simp_all add: 2 s(1) [OF 2])
      qed
      with s(2) [OF s(1) [OF 2]] sk show ?thesis by (auto simp: add.assoc)
    qed
  qed
qed

end
