(* ===== verification/Deployment_Gateway.thy ===== *)
theory Deployment_Gateway
  imports Deployment_State
begin

text \<open>
  The atomic gateway switch of \<open>deployment/gateway.py\<close>: the include file it renders, the observed
  routes it requires, and \<open>AtomicNginxGatewaySwitcher\<close>, which replaces the include once, reloads,
  verifies, and restores the old file when verification fails. The file system and nginx are
  parameters: each file operation, validation and reload may fail, and a probe returns routes. At
  the end, the contract that the choreography relies on, and the nginx switcher as a provider of
  it.
\<close>

subsection \<open>The rendered include\<close>

fun slot_value :: "slot \<Rightarrow> string" where
  "slot_value Blue = ''blue''"
| "slot_value Green = ''green''"

definition nl :: string where "nl = [CHR 0x0A]"
definition quot :: string where "quot = [CHR 0x22]"

definition include_text :: "slot \<Rightarrow> int \<Rightarrow> string \<Rightarrow> string" where
  "include_text s g sha =
     ''# Deployment-controller-owned file; do not edit in place.'' @ nl
     @ ''# deployment-binding-sha256: '' @ sha @ nl
     @ ''# routing-generation: '' @ decimal g @ nl
     @ ''map $host $proofagent_routing_generation {'' @ nl
     @ ''    default '' @ quot @ decimal g @ quot @ '';'' @ nl
     @ ''}'' @ nl
     @ ''map $host $proofagent_routing_slot {'' @ nl
     @ ''    default '' @ quot @ slot_value s @ quot @ '';'' @ nl
     @ ''}'' @ nl @ nl
     @ ''upstream proofagent_api {'' @ nl
     @ ''    server '' @ slot_value s @ ''-api:8000;'' @ nl
     @ ''    keepalive 32;'' @ nl
     @ ''}'' @ nl @ nl
     @ ''upstream proofagent_dashboard {'' @ nl
     @ ''    server '' @ slot_value s @ ''-dashboard:8080;'' @ nl
     @ ''    keepalive 16;'' @ nl
     @ ''}'' @ nl @ nl
     @ ''upstream proofagent_operator_chat {'' @ nl
     @ ''    server '' @ slot_value s @ ''-operator-chat:8080;'' @ nl
     @ ''    keepalive 16;'' @ nl
     @ ''}'' @ nl"

text \<open>
  What a switch may raise: a \<open>GatewaySwitchError\<close> with its code, or any other exception (a
  rejected argument, an operating-system error).
\<close>

datatype switch_error = Switch_error string | Switch_exception

definition render_include :: "slot \<Rightarrow> int \<Rightarrow> string \<Rightarrow> switch_error + string" where
  "render_include s g sha =
     (if g < 1 then Inl Switch_exception
      else if \<not> hex64_ok sha then Inl Switch_exception
      else Inr (include_text s g sha))"

subsection \<open>Observed routes\<close>

datatype surface = Dashboard | Operator_chat | Api | Oidc_callback | Sse

record route =
  rt_surface :: surface
  rt_generation :: int
  rt_slot :: slot

definition all_surfaces :: "surface list" where
  "all_surfaces = [Dashboard, Operator_chat, Api, Oidc_callback, Sse]"

definition verify_routes :: "route list \<Rightarrow> slot \<Rightarrow> int \<Rightarrow> switch_error + unit" where
  "verify_routes rs s g =
     (if length rs \<noteq> length all_surfaces \<or> set (map rt_surface rs) \<noteq> set all_surfaces
      then Inl (Switch_error ''gateway_surface_set_mismatch'')
      else if list_ex (\<lambda>r. rt_slot r \<noteq> s \<or> rt_generation r \<noteq> g) rs
      then Inl (Switch_error ''gateway_mixed_routing_generation'')
      else Inr ())"

record routing =
  rg_generation :: int
  rg_slot :: slot
  rg_binding_sha :: string
  rg_include_sha :: string

subsection \<open>The atomic switch\<close>

text \<open>
  The environment: writing a temporary file, replacing the include with it, flushing the
  directory, nginx validation and reload each succeed or raise; probing the routes returns them
  or raises. The temporary files themselves are not part of the state.
\<close>

record 'c gateway_env =
  ge_write :: "string \<Rightarrow> 'c \<Rightarrow> bool \<times> 'c"
  ge_replace :: "string \<Rightarrow> 'c \<Rightarrow> bool \<times> 'c"
  ge_fsync :: "'c \<Rightarrow> bool \<times> 'c"
  ge_validate :: "string \<Rightarrow> 'c \<Rightarrow> bool \<times> 'c"
  ge_reload :: "'c \<Rightarrow> bool \<times> 'c"
  ge_observe :: "'c \<Rightarrow> route list option \<times> 'c"
  ge_sha :: "string \<Rightarrow> string"

record 'c gateway_state =
  gw_include :: "string option"
  gw_env :: 'c

definition env_call :: "('c \<Rightarrow> bool \<times> 'c) \<Rightarrow> 'c gateway_state \<Rightarrow> bool \<times> 'c gateway_state" where
  "env_call f st = (case f (gw_env st) of (ok, c) \<Rightarrow> (ok, st\<lparr>gw_env := c\<rparr>))"

text \<open>\<open>os.replace(temporary, active)\<close>: atomic, the old file stays when it raises.\<close>

definition replace_include :: "'c gateway_env \<Rightarrow> string \<Rightarrow> 'c gateway_state \<Rightarrow> bool \<times> 'c gateway_state" where
  "replace_include E content st =
     (case env_call (ge_replace E content) st of
        (True, st') \<Rightarrow> (True, st'\<lparr>gw_include := Some content\<rparr>)
      | (False, st') \<Rightarrow> (False, st'))"

text \<open>\<open>_restore\<close>: a failure to write the temporary file raises as it is, a later one is wrapped.\<close>

definition restore_include ::
  "'c gateway_env \<Rightarrow> string \<Rightarrow> 'c gateway_state \<Rightarrow> (switch_error + unit) \<times> 'c gateway_state" where
  "restore_include E content st =
     (case env_call (ge_write E content) st of
        (False, st1) \<Rightarrow> (Inl Switch_exception, st1)
      | (True, st1) \<Rightarrow> (case replace_include E content st1 of
          (False, st2) \<Rightarrow> (Inl (Switch_error ''gateway_restore_failed''), st2)
        | (True, st2) \<Rightarrow> (case env_call (ge_fsync E) st2 of
            (False, st3) \<Rightarrow> (Inl (Switch_error ''gateway_restore_failed''), st3)
          | (True, st3) \<Rightarrow> (case env_call (ge_reload E) st3 of
              (False, st4) \<Rightarrow> (Inl (Switch_error ''gateway_restore_failed''), st4)
            | (True, st4) \<Rightarrow> (Inr (), st4)))))"

text \<open>Reload, probe, verify; whatever raises here, the old include is restored.\<close>

definition verify_reload ::
  "'c gateway_env \<Rightarrow> slot \<Rightarrow> int \<Rightarrow> 'c gateway_state \<Rightarrow> bool \<times> 'c gateway_state" where
  "verify_reload E s g st =
     (case env_call (ge_reload E) st of
        (False, st1) \<Rightarrow> (False, st1)
      | (True, st1) \<Rightarrow> (case ge_observe E (gw_env st1) of
          (None, c) \<Rightarrow> (False, st1\<lparr>gw_env := c\<rparr>)
        | (Some rs, c) \<Rightarrow> (verify_routes rs s g = Inr (), st1\<lparr>gw_env := c\<rparr>)))"

definition switch_include ::
  "'c gateway_env \<Rightarrow> slot \<Rightarrow> string \<Rightarrow> int \<Rightarrow> 'c gateway_state
     \<Rightarrow> (switch_error + routing) \<times> 'c gateway_state" where
  "switch_include E target sha current st =
     (case gw_include st of
        None \<Rightarrow> (Inl (Switch_error ''gateway_active_include_missing''), st)
      | Some old \<Rightarrow>
        (case render_include target (current + 1) sha of
           Inl e \<Rightarrow> (Inl e, st)
         | Inr candidate \<Rightarrow>
           (case env_call (ge_write E candidate) st of
              (False, st1) \<Rightarrow> (Inl Switch_exception, st1)
            | (True, st1) \<Rightarrow>
              (case env_call (ge_validate E candidate) st1 of
                 (False, st2) \<Rightarrow> (Inl (Switch_error ''gateway_candidate_invalid''), st2)
               | (True, st2) \<Rightarrow>
                 (case replace_include E candidate st2 of
                    (False, st3) \<Rightarrow> (Inl Switch_exception, st3)
                  | (True, st3) \<Rightarrow>
                    (case env_call (ge_fsync E) st3 of
                       (False, st4) \<Rightarrow> (Inl Switch_exception, st4)
                     | (True, st4) \<Rightarrow>
                       (case verify_reload E target (current + 1) st4 of
                          (False, st5) \<Rightarrow>
                            (case restore_include E old st5 of
                               (Inl e, st6) \<Rightarrow> (Inl e, st6)
                             | (Inr _, st6) \<Rightarrow>
                                 (Inl (Switch_error ''gateway_generation_verification_failed''), st6))
                        | (True, st5) \<Rightarrow>
                            (Inr \<lparr>rg_generation = current + 1, rg_slot = target, rg_binding_sha = sha,
                                  rg_include_sha = ge_sha E candidate\<rparr>, st5))))))))"

subsection \<open>What a switch leaves in the file\<close>

lemma env_call_include: "env_call f st = (ok, st') \<Longrightarrow> gw_include st' = gw_include st"
  by (auto simp: env_call_def split: prod.splits)

lemma replace_include_cases:
  assumes "replace_include E content st = (ok, st')"
  shows "gw_include st' = (if ok then Some content else gw_include st)"
  using assms by (auto simp: replace_include_def split: prod.splits bool.splits dest: env_call_include)

lemma verify_reload_include: "verify_reload E s g st = (ok, st') \<Longrightarrow> gw_include st' = gw_include st"
  by (auto simp: verify_reload_def split: prod.splits bool.splits option.splits dest: env_call_include)

lemma restore_include_cases:
  assumes "restore_include E old st = (r, st')"
  shows "case r of Inr _ \<Rightarrow> gw_include st' = Some old
    | Inl e \<Rightarrow> gw_include st' \<in> {gw_include st, Some old} \<and> e \<in> {Switch_exception, Switch_error ''gateway_restore_failed''}"
  using assms
  by (auto simp: restore_include_def split: prod.splits bool.splits dest!: env_call_include replace_include_cases)

text \<open>
  On success the include is the rendering of the new generation. On failure with one of the clean
  codes it is what it was before; otherwise it is one of the two, but which is not known.
\<close>

definition clean_failure :: "switch_error \<Rightarrow> bool" where
  "clean_failure e \<longleftrightarrow> e \<in> {Switch_error ''gateway_active_include_missing'', Switch_error ''gateway_candidate_invalid'',
     Switch_error ''gateway_generation_verification_failed''}"

lemma switch_include_cases:
  assumes "switch_include E target sha current st = (r, st')"
  shows "case r of
      Inr g \<Rightarrow> rg_generation g = current + 1 \<and> rg_slot g = target \<and> rg_binding_sha g = sha
        \<and> gw_include st' = Some (include_text target (current + 1) sha) \<and> gw_include st \<noteq> None
        \<and> rg_include_sha g = ge_sha E (include_text target (current + 1) sha)
    | Inl e \<Rightarrow> gw_include st' \<in> {gw_include st, Some (include_text target (current + 1) sha)}
        \<and> (clean_failure e \<longrightarrow> gw_include st' = gw_include st)"
proof (cases "gw_include st")
  case None with assms show ?thesis by (auto simp: switch_include_def clean_failure_def)
next
  case (Some old)
  show ?thesis
  proof (cases "render_include target (current + 1) sha")
    case (Inl e) with assms Some show ?thesis by (auto simp: switch_include_def)
  next
    case (Inr candidate)
    then have c: "candidate = include_text target (current + 1) sha" by (auto simp: render_include_def split: if_splits)
    show ?thesis
      using assms Some Inr
      by (auto simp: switch_include_def c clean_failure_def split: prod.splits bool.splits sum.splits
          dest!: env_call_include replace_include_cases verify_reload_include restore_include_cases)
  qed
qed

subsection \<open>The contract of a gateway switcher\<close>

text \<open>
  What the choreography relies on: a successful switch reports exactly the generation asked for
  and leaves its rendering in place; a failed one leaves the old include, unless its code says
  that the outcome is uncertain.
\<close>

locale gateway_switcher =
  fixes switch :: "slot \<Rightarrow> string \<Rightarrow> int \<Rightarrow> 'g \<Rightarrow> (switch_error + routing) \<times> 'g"
    and active :: "'g \<Rightarrow> string option"
  assumes switched: "switch t sha n g = (Inr x, g') \<Longrightarrow> rg_slot x = t \<and> rg_generation x = n + 1 \<and> rg_binding_sha x = sha
      \<and> active g' = Some (include_text t (n + 1) sha)"
    and restored: "switch t sha n g = (Inl e, g') \<Longrightarrow> clean_failure e \<Longrightarrow> active g' = active g"
    and either: "switch t sha n g = (Inl e, g') \<Longrightarrow> active g' \<in> {active g, Some (include_text t (n + 1) sha)}"

interpretation nginx: gateway_switcher "switch_include E" gw_include
proof
  fix t sha n g x g' assume "switch_include E t sha n g = (Inr x, g')"
  from switch_include_cases [OF this] show "rg_slot x = t \<and> rg_generation x = n + 1 \<and> rg_binding_sha x = sha
      \<and> gw_include g' = Some (include_text t (n + 1) sha)" by simp
next
  fix t sha n g e g' assume m: "switch_include E t sha n g = (Inl e, g')"
  from switch_include_cases [OF this]
  show "gw_include g' \<in> {gw_include g, Some (include_text t (n + 1) sha)}" by simp
  show "gw_include g' = gw_include g" if "clean_failure e" using switch_include_cases [OF m] that by simp
qed

text \<open>With a file system and a reload that do not fail, every failure is a clean one.\<close>

definition reliable_files :: "'c gateway_env \<Rightarrow> bool" where
  "reliable_files E \<longleftrightarrow> (\<forall>x c. fst (ge_write E x c) \<and> fst (ge_replace E x c)) \<and> (\<forall>c. fst (ge_fsync E c) \<and> fst (ge_reload E c))"

lemma env_call_reliable: "(\<And>c. fst (f c)) \<Longrightarrow> \<exists>st'. env_call f st = (True, st')"
  by (cases "f (gw_env st)") (auto simp: env_call_def, metis fst_conv)

lemma files_reliable:
  assumes "reliable_files E"
  shows "\<exists>st'. env_call (ge_write E x) st = (True, st')" "\<exists>st'. env_call (ge_fsync E) st = (True, st')"
    "\<exists>st'. env_call (ge_reload E) st = (True, st')" "\<exists>st'. replace_include E x st = (True, st')"
proof -
  have "\<exists>st'. env_call (ge_replace E x) st = (True, st')"
    by (rule env_call_reliable) (use assms in \<open>simp add: reliable_files_def\<close>)
  then show "\<exists>st'. replace_include E x st = (True, st')" by (auto simp: replace_include_def)
qed (rule env_call_reliable, use assms in \<open>simp add: reliable_files_def\<close>)+

lemma restore_reliable: 
  assumes r: "reliable_files E"
  shows "\<exists>st'. restore_include E x st = (Inr (), st')"
proof -
  obtain st1 where 1: "env_call (ge_write E x) st = (True, st1)" using files_reliable(1) [OF r] by blast
  obtain st2 where 2: "replace_include E x st1 = (True, st2)" using files_reliable(4) [OF r] by blast
  obtain st3 where 3: "env_call (ge_fsync E) st2 = (True, st3)" using files_reliable(2) [OF r] by blast
  obtain st4 where 4: "env_call (ge_reload E) st3 = (True, st4)" using files_reliable(3) [OF r] by blast
  show ?thesis by (simp add: restore_include_def 1 2 3 4)
qed

lemma switch_reliable:
  assumes f: "reliable_files E" and "hex64_ok sha" and "0 \<le> n" and m: "switch_include E t sha n g = (Inl e, g')"
  shows "clean_failure e"
proof -
  have r: "render_include t (n + 1) sha = Inr (include_text t (n + 1) sha)" using assms(2,3) by (simp add: render_include_def)
  obtain st1 where 1: "env_call (ge_write E (include_text t (n + 1) sha)) g = (True, st1)"
    using files_reliable(1) [OF f] by blast
  show ?thesis
  proof (cases "gw_include g")
    case None with m show ?thesis by (auto simp: switch_include_def clean_failure_def)
  next
    case (Some old)
    obtain b st2 where v: "env_call (ge_validate E (include_text t (n + 1) sha)) st1 = (b, st2)" by force
    obtain st3 where st3: "replace_include E (include_text t (n + 1) sha) st2 = (True, st3)" using files_reliable(4) [OF f] by blast
    obtain st4 where st4: "env_call (ge_fsync E) st3 = (True, st4)" using files_reliable(2) [OF f] by blast
    obtain c st5 where st5: "verify_reload E t (n + 1) st4 = (c, st5)" by force
    obtain st6 where st6: "restore_include E old st5 = (Inr (), st6)" using restore_reliable [OF f] by blast
    from m show ?thesis
      by (cases b; cases c) (auto simp: switch_include_def Some r 1 v st3 st4 st5 st6 clean_failure_def)
  qed
qed

end
