(* ===== verification/Deployment_Choreography.thy ===== *)
theory Deployment_Choreography
  imports Deployment_Gateway
begin

text \<open>
  \<open>BlueGreenChoreographer\<close> of \<open>deployment/choreography.py\<close>. The operations on the two slots, the
  gateway switch and the clock are parameters over a world they may change, and may raise; the
  choreography threads the world, its step records and its local variables, so that a failed step
  leaves the locals as the \<open>except\<close> clause sees them.
\<close>

subsection \<open>Operations\<close>

text \<open>A \<open>DeploymentActionError\<close> with its code, or any other exception.\<close>

datatype action_error = Action_error string | Other_exception

text \<open>
  The constructor of \<open>DeploymentActionError\<close> refuses codes that are not trace-safe with a
  \<open>ValueError\<close>, which is what its caller then raises.
\<close>

definition trace_safe :: "string \<Rightarrow> bool" where
  "trace_safe e \<longleftrightarrow> e \<noteq> [] \<and> len e \<le> 128 \<and> list_all (\<lambda>c. py_islower c \<or> py_isdigit c \<or> label_mark c) e"

definition deployment_action_error :: "string \<Rightarrow> action_error" where
  "deployment_action_error e = (if trace_safe e then Action_error e else Other_exception)"

type_synonym ('w, 'a) action = "'w \<Rightarrow> (action_error + 'a) \<times> 'w"

record 'w operations =
  op_prechecks :: "('w, unit) action"
  op_expand_migration :: "('w, unit) action"
  op_start_candidate :: "('w, unit) action"
  op_candidate_ready :: "('w, unit) action"
  op_isolated_smoke :: "('w, unit) action"
  op_queue_compatible :: "('w, bool) action"
  op_pause_admission :: "('w, unit) action"
  op_resume_admission :: "('w, unit) action"
  op_drain_old :: "('w, unit) action"
  op_old_claims_zero :: "int \<Rightarrow> ('w, bool) action"
  op_restore_old :: "int \<Rightarrow> ('w, unit) action"
  op_keep_standby :: "('w, unit) action"
  op_activate_candidate :: "int \<Rightarrow> ('w, int) action"
  op_stable_smoke :: "('w, unit) action"
  op_soak :: "int \<Rightarrow> ('w, unit) action"
  op_stop_old :: "('w, unit) action"
  op_old_api_ready :: "('w, unit) action"
  op_drain_candidate :: "('w, unit) action"
  op_candidate_claims_zero :: "int \<Rightarrow> ('w, bool) action"
  op_fence_candidate :: "('w, unit) action"
  op_activate_old :: "int \<Rightarrow> ('w, int) action"
  op_fail_lost :: "('w, unit) action"
  op_switch :: "slot \<Rightarrow> string \<Rightarrow> int \<Rightarrow> 'w \<Rightarrow> (switch_error + routing) \<times> 'w"
  op_clock :: "'w \<Rightarrow> clock \<times> 'w"
  op_digest :: "binding \<Rightarrow> string"

subsection \<open>State and sequencing\<close>

record 'w chor =
  ch_world :: 'w
  ch_steps :: "step_record list"
  ch_started :: bool
  ch_draining :: bool
  ch_paused :: bool
  ch_gateway :: "routing option"
  ch_switched :: "instant option"
  ch_epoch :: "int option"

text \<open>\<open>_StepFailed\<close>, caught by the handlers, or an exception nothing catches.\<close>

datatype chor_error = Step_failed_error | Escaped string

type_synonym ('w, 'a) chor_act = "'w chor \<Rightarrow> (chor_error + 'a) \<times> 'w chor"

definition ret :: "'a \<Rightarrow> ('w, 'a) chor_act" where
  "ret a = (\<lambda>st. (Inr a, st))"

definition seq :: "('w, 'a) chor_act \<Rightarrow> ('a \<Rightarrow> ('w, 'b) chor_act) \<Rightarrow> ('w, 'b) chor_act" where
  "seq m f = (\<lambda>st. case m st of (Inl e, st') \<Rightarrow> (Inl e, st') | (Inr a, st') \<Rightarrow> f a st')"

definition assign :: "('w chor \<Rightarrow> 'w chor) \<Rightarrow> ('w, unit) chor_act" where
  "assign f = (\<lambda>st. (Inr (), f st))"

text \<open>\<open>_now\<close>.\<close>

definition chor_now :: "'w operations \<Rightarrow> ('w, instant) chor_act" where
  "chor_now P = (\<lambda>st. case op_clock P (ch_world st) of
     (Naive, w) \<Rightarrow> (Inl (Escaped ''deployment clock must be timezone-aware''), st\<lparr>ch_world := w\<rparr>)
   | (Aware t, w) \<Rightarrow> (Inr t, st\<lparr>ch_world := w\<rparr>))"

text \<open>\<open>_append_step\<close>: the record's own validation may raise.\<close>

definition append_step ::
  "'w operations \<Rightarrow> deploy_request \<Rightarrow> step_name \<Rightarrow> instant \<Rightarrow> step_status \<Rightarrow> string option \<Rightarrow> ('w, unit) chor_act" where
  "append_step P r name started status error =
     seq (chor_now P) (\<lambda>completed st.
       let s = \<lparr>sr_name = name, sr_status = status, sr_binding_sha = op_digest P (dr_binding r),
                sr_release_id = bd_release_id (dr_binding r), sr_started = started, sr_completed = completed,
                sr_error = error\<rparr>
       in if step_record_ok s then (Inr (), st\<lparr>ch_steps := ch_steps st @ [s]\<rparr>)
          else (Inl (Escaped ''step record validation''), st))"

definition run_step ::
  "'w operations \<Rightarrow> deploy_request \<Rightarrow> step_name \<Rightarrow> ('w, 'a) action \<Rightarrow> ('w, 'a) chor_act" where
  "run_step P r name act =
     seq (chor_now P) (\<lambda>started st.
       case act (ch_world st) of
         (Inl (Action_error e), w) \<Rightarrow>
           seq (append_step P r name started Step_failed (Some e)) (\<lambda>_ st. (Inl Step_failed_error, st))
             (st\<lparr>ch_world := w\<rparr>)
       | (Inl Other_exception, w) \<Rightarrow>
           seq (append_step P r name started Step_failed (Some ''deployment_operation_failed''))
             (\<lambda>_ st. (Inl Step_failed_error, st)) (st\<lparr>ch_world := w\<rparr>)
       | (Inr a, w) \<Rightarrow>
           seq (append_step P r name started Step_succeeded None) (\<lambda>_. ret a) (st\<lparr>ch_world := w\<rparr>))"

definition recover ::
  "'w operations \<Rightarrow> deploy_request \<Rightarrow> step_name \<Rightarrow> ('w, 'a) action \<Rightarrow> ('w, bool) chor_act" where
  "recover P r name act = (\<lambda>st. case run_step P r name act st of
     (Inl Step_failed_error, st') \<Rightarrow> (Inr False, st')
   | (Inl (Escaped e), st') \<Rightarrow> (Inl (Escaped e), st')
   | (Inr _, st') \<Rightarrow> (Inr True, st'))"

subsection \<open>Guarded actions\<close>

definition act_then :: "('w, 'a) action \<Rightarrow> ('a \<Rightarrow> action_error + 'b) \<Rightarrow> ('w, 'b) action" where
  "act_then m f = (\<lambda>w. case m w of (Inl e, w') \<Rightarrow> (Inl e, w') | (Inr a, w') \<Rightarrow> (f a, w'))"

definition require_queue_policy :: "'w operations \<Rightarrow> deploy_request \<Rightarrow> ('w, bool) action" where
  "require_queue_policy P r = act_then (op_queue_compatible P) (\<lambda>compatible.
     if \<not> compatible \<and> \<not> dr_pause_authorized r then Inl (deployment_action_error ''queue_contract_incompatible'')
     else Inr compatible)"

definition require_old_claims_zero :: "'w operations \<Rightarrow> deploy_request \<Rightarrow> ('w, unit) action" where
  "require_old_claims_zero P r = act_then (op_old_claims_zero P (dr_drain_timeout r)) (\<lambda>zero.
     if \<not> zero then Inl (deployment_action_error ''old_claims_drain_timeout'') else Inr ())"

definition activate_candidate :: "'w operations \<Rightarrow> deploy_request \<Rightarrow> ('w, int) action" where
  "activate_candidate P r = act_then (op_activate_candidate P (dr_old_epoch r)) (\<lambda>epoch.
     if epoch \<le> dr_old_epoch r then Inl (deployment_action_error ''candidate_activation_epoch_not_higher'')
     else Inr epoch)"

definition switch_gateway :: "'w operations \<Rightarrow> deploy_request \<Rightarrow> slot \<Rightarrow> int \<Rightarrow> ('w, routing) action" where
  "switch_gateway P r target current = (\<lambda>w.
     case op_switch P target (op_digest P (dr_binding r)) current w of
       (Inl (Switch_error e), w') \<Rightarrow> (Inl (deployment_action_error e), w')
     | (Inl Switch_exception, w') \<Rightarrow> (Inl Other_exception, w')
     | (Inr g, w') \<Rightarrow>
         (if rg_slot g \<noteq> target \<or> rg_generation g \<noteq> current + 1 \<or> rg_binding_sha g \<noteq> op_digest P (dr_binding r)
          then Inl (deployment_action_error ''gateway_generation_mismatch'') else Inr g, w'))"

definition wait_candidate :: "'w operations \<Rightarrow> deploy_request \<Rightarrow> ('w, unit) action" where
  "wait_candidate P r = act_then (op_candidate_claims_zero P (dr_drain_timeout r)) (\<lambda>drained.
     if \<not> drained then Inl (deployment_action_error ''candidate_claims_drain_timeout'') else Inr ())"

definition activate_old :: "'w operations \<Rightarrow> int \<Rightarrow> ('w, unit) action" where
  "activate_old P authority = act_then (op_activate_old P authority) (\<lambda>epoch.
     if epoch \<le> authority then Inl (deployment_action_error ''rollback_activation_epoch_not_higher'')
     else Inr ())"

subsection \<open>The forward sequence\<close>

text \<open>The body of the \<open>try\<close> in \<open>deploy\<close>, up to the switch and after it.\<close>

definition before_switch :: "'w operations \<Rightarrow> deploy_request \<Rightarrow> ('w, unit) chor_act" where
  "before_switch P r =
     seq (run_step P r Validate_prechecks (op_prechecks P)) (\<lambda>_.
     seq (run_step P r Locked_expand_migration (op_expand_migration P)) (\<lambda>_.
     seq (run_step P r Start_candidate_standby (op_start_candidate P)) (\<lambda>_.
     seq (assign (\<lambda>st. st\<lparr>ch_started := True\<rparr>)) (\<lambda>_.
     seq (run_step P r Candidate_readiness (op_candidate_ready P)) (\<lambda>_.
     seq (run_step P r Isolated_smoke (op_isolated_smoke P)) (\<lambda>_.
     seq (run_step P r Bidirectional_queue_contract (require_queue_policy P r)) (\<lambda>compatible.
     seq (if \<not> compatible
          then seq (run_step P r Pause_admission (op_pause_admission P)) (\<lambda>_.
               assign (\<lambda>st. st\<lparr>ch_paused := True\<rparr>))
          else ret ()) (\<lambda>_.
     seq (run_step P r Old_workers_draining (op_drain_old P)) (\<lambda>_.
     seq (assign (\<lambda>st. st\<lparr>ch_draining := True\<rparr>)) (\<lambda>_.
     seq (run_step P r Old_claims_zero (require_old_claims_zero P r)) (\<lambda>_.
     seq (run_step P r Gateway_switch (switch_gateway P r (dr_candidate_slot r) (dr_generation r))) (\<lambda>g.
     assign (\<lambda>st. st\<lparr>ch_gateway := Some g\<rparr>)))))))))))))"

definition after_switch :: "'w operations \<Rightarrow> deploy_request \<Rightarrow> ('w, unit) chor_act" where
  "after_switch P r =
     seq (chor_now P) (\<lambda>t.
     seq (assign (\<lambda>st. st\<lparr>ch_switched := Some t\<rparr>)) (\<lambda>_.
     seq (run_step P r Candidate_activation (activate_candidate P r)) (\<lambda>epoch.
     seq (assign (\<lambda>st. st\<lparr>ch_epoch := Some epoch\<rparr>)) (\<lambda>_.
     seq (run_step P r Stable_origin_smoke (op_stable_smoke P)) (\<lambda>_.
     seq (run_step P r Soak (op_soak P (dr_soak r))) (\<lambda>_.
     seq (run_step P r Stop_old_compute (op_stop_old P)) (\<lambda>_ st.
       if ch_paused st then run_step P r Resume_admission (op_resume_admission P) st else ret () st)))))))"

subsection \<open>Recovery\<close>

text \<open>\<open>ok &= ...\<close>: every recovery step runs; the flag is their conjunction.\<close>

definition abort_before_switch :: "'w operations \<Rightarrow> deploy_request \<Rightarrow> ('w, bool) chor_act" where
  "abort_before_switch P r = (\<lambda>st0.
     seq (if ch_draining st0 then recover P r Abort_old_workers_active (op_restore_old P (dr_old_epoch r)) else ret True) (\<lambda>a.
     seq (if ch_started st0 then recover P r Abort_candidate_standby (op_keep_standby P) else ret True) (\<lambda>b.
     seq (if ch_paused st0 then recover P r Resume_admission (op_resume_admission P) else ret True) (\<lambda>c.
     ret (a \<and> b \<and> c)))) st0)"

text \<open>
  \<open>route_old\<close> sets \<open>rollback_gateway\<close> when the switch returned; the sum carries it out of
  \<open>_recover\<close>, which drops results.
\<close>

definition recover_gateway ::
  "'w operations \<Rightarrow> deploy_request \<Rightarrow> int \<Rightarrow> ('w, bool \<times> routing option) chor_act" where
  "recover_gateway P r current = (\<lambda>st.
     case run_step P r Rollback_gateway (switch_gateway P r (dr_old_slot r) current) st of
       (Inl Step_failed_error, st') \<Rightarrow> (Inr (False, None), st')
     | (Inl (Escaped e), st') \<Rightarrow> (Inl (Escaped e), st')
     | (Inr g, st') \<Rightarrow> (Inr (True, Some g), st'))"

definition rollback_after_switch ::
  "'w operations \<Rightarrow> deploy_request \<Rightarrow> int \<Rightarrow> int \<Rightarrow> bool \<Rightarrow> ('w, bool \<times> routing option) chor_act" where
  "rollback_after_switch P r current authority paused =
     seq (recover P r Rollback_old_api_readiness (op_old_api_ready P)) (\<lambda>a.
     seq (recover_gateway P r current) (\<lambda>(b, g).
     seq (recover P r Rollback_candidate_draining (op_drain_candidate P)) (\<lambda>draining.
     seq (if draining then recover P r Rollback_candidate_claims_zero (wait_candidate P r) else ret False) (\<lambda>drained.
     seq (if \<not> drained then recover P r Rollback_candidate_fenced (op_fence_candidate P) else ret True) (\<lambda>d.
     seq (recover P r Rollback_old_activation (activate_old P authority)) (\<lambda>e.
     seq (recover P r Rollback_fail_lost_attempts (op_fail_lost P)) (\<lambda>f.
     seq (if paused then recover P r Resume_admission (op_resume_admission P) else ret True) (\<lambda>h.
     ret (a \<and> b \<and> draining \<and> d \<and> e \<and> f \<and> h, g)))))))))"

subsection \<open>Deploy\<close>

text \<open>\<open>_result\<close>: the retention deadline follows from the switch time; the record validates itself.\<close>

definition make_result ::
  "'w operations \<Rightarrow> deploy_request \<Rightarrow> outcome \<Rightarrow> routing option \<Rightarrow> int option \<Rightarrow> instant option
     \<Rightarrow> ('w, deploy_result) chor_act" where
  "make_result P r out g epoch switched = (\<lambda>st.
     let retention = (case switched of None \<Rightarrow> None
            | Some t \<Rightarrow> (case retention_deadline (Aware t) of Inl _ \<Rightarrow> None | Inr d \<Rightarrow> Some d));
         res = \<lparr>dl_outcome = out, dl_binding_sha = op_digest P (dr_binding r), dl_steps = ch_steps st,
                dl_generation = map_option rg_generation g, dl_epoch = epoch, dl_switched = switched,
                dl_retention = retention\<rparr>
     in if deploy_result_ok res then (Inr res, st) else (Inl (Escaped ''deployment result validation''), st))"

definition initial_chor :: "'w \<Rightarrow> 'w chor" where
  "initial_chor w = \<lparr>ch_world = w, ch_steps = [], ch_started = False, ch_draining = False, ch_paused = False,
     ch_gateway = None, ch_switched = None, ch_epoch = None\<rparr>"

definition handle_failure :: "'w operations \<Rightarrow> deploy_request \<Rightarrow> ('w, deploy_result) chor_act" where
  "handle_failure P r = (\<lambda>st. case ch_gateway st of
     None \<Rightarrow> seq (abort_before_switch P r) (\<lambda>ok.
       make_result P r (if ok then Aborted else Abort_failed) None None None) st
   | Some g \<Rightarrow>
       seq (rollback_after_switch P r (rg_generation g)
              (case ch_epoch st of None \<Rightarrow> dr_old_epoch r | Some e \<Rightarrow> if e = 0 then dr_old_epoch r else e) (ch_paused st))
         (\<lambda>(ok, back). make_result P r (if ok then Rolled_back else Rollback_failed)
            (case back of None \<Rightarrow> Some g | Some b \<Rightarrow> Some b) (ch_epoch st) (ch_switched st)) st)"

definition deploy :: "'w operations \<Rightarrow> deploy_request \<Rightarrow> 'w \<Rightarrow> (chor_error + deploy_result) \<times> 'w chor" where
  "deploy P r w =
     (case seq (before_switch P r) (\<lambda>_. after_switch P r) (initial_chor w) of
        (Inr _, st) \<Rightarrow> make_result P r Deployed (ch_gateway st) (ch_epoch st) (ch_switched st) st
      | (Inl Step_failed_error, st) \<Rightarrow> handle_failure P r st
      | (Inl (Escaped e), st) \<Rightarrow> (Inl (Escaped e), st))"

end
