(* ===== verification/Deployment_Traces.thy ===== *)
theory Deployment_Traces
  imports Deployment_Choreography
begin

text \<open>
  The steps a deployment can record. A small Hoare logic over the choreography's state follows
  the trace of step names and outcomes, the local variables, and a predicate on the world that
  the operations preserve; from it the trace of every outcome is determined.
\<close>

subsection \<open>Traces and assertions\<close>

definition step_trace :: "step_record list \<Rightarrow> (step_name \<times> bool) list" where
  "step_trace ss = map (\<lambda>s. (sr_name s, sr_status s = Step_succeeded)) ss"

lemma step_trace_simps [simp]:
  "step_trace [] = []" "step_trace (ss @ ts) = step_trace ss @ step_trace ts"
  "step_trace [s] = [(sr_name s, sr_status s = Step_succeeded)]"
  by (simp_all add: step_trace_def)

definition all_ok :: "step_name list \<Rightarrow> (step_name \<times> bool) list" where
  "all_ok ns = map (\<lambda>n. (n, True)) ns"

lemma all_ok_simps [simp]: "all_ok [] = []" "all_ok (n # ns) = (n, True) # all_ok ns"
  "all_ok (ns @ ms) = all_ok ns @ all_ok ms" "set (all_ok ns) = (\<lambda>n. (n, True)) ` set ns"
  by (simp_all add: all_ok_def)

type_synonym chor_locals = "bool \<times> bool \<times> bool \<times> routing option \<times> instant option \<times> int option"

definition locals_of :: "'w chor \<Rightarrow> chor_locals" where
  "locals_of st = (ch_started st, ch_draining st, ch_paused st, ch_gateway st, ch_switched st, ch_epoch st)"

text \<open>The trace so far, the locals, and what is known of the world.\<close>

definition at_point :: "(step_name \<times> bool) list \<Rightarrow> chor_locals \<Rightarrow> ('w \<Rightarrow> bool) \<Rightarrow> 'w chor \<Rightarrow> bool" where
  "at_point T l W st \<longleftrightarrow> step_trace (ch_steps st) = T \<and> locals_of st = l \<and> W (ch_world st)"

lemma at_pointI [intro]:
  "step_trace (ch_steps st) = T \<Longrightarrow> locals_of st = l \<Longrightarrow> W (ch_world st) \<Longrightarrow> at_point T l W st"
  by (simp add: at_point_def)

lemma locals_simps [simp]:
  "locals_of (st\<lparr>ch_world := w\<rparr>) = locals_of st" "locals_of (st\<lparr>ch_steps := s\<rparr>) = locals_of st"
  by (simp_all add: locals_of_def)

text \<open>What holds of the outcome of an action: escaping exceptions promise nothing.\<close>

fun holds :: "('a \<Rightarrow> 'w chor \<Rightarrow> bool) \<Rightarrow> ('w chor \<Rightarrow> bool) \<Rightarrow> (chor_error + 'a) \<times> 'w chor \<Rightarrow> bool" where
  "holds Q E (Inr a, st) = Q a st"
| "holds Q E (Inl Step_failed_error, st) = E st"
| "holds Q E (Inl (Escaped e), st) = True"

definition hoare ::
  "('w chor \<Rightarrow> bool) \<Rightarrow> ('w, 'a) chor_act \<Rightarrow> ('a \<Rightarrow> 'w chor \<Rightarrow> bool) \<Rightarrow> ('w chor \<Rightarrow> bool) \<Rightarrow> bool" where
  "hoare P m Q E \<longleftrightarrow> (\<forall>st. P st \<longrightarrow> holds Q E (m st))"

lemma hoareD: "hoare P m Q E \<Longrightarrow> P st \<Longrightarrow> holds Q E (m st)"
  by (simp add: hoare_def)

lemma outcome_cases:
  obtains a st where "x = (Inr a, st)" | st where "x = (Inl Step_failed_error, st)"
    | e st where "x = (Inl (Escaped e), st)"
proof (cases x)
  case (Pair r st)
  show thesis
  proof (cases r)
    case (Inl e) with Pair that show thesis by (cases e) auto
  qed (use Pair that in auto)
qed

lemma hoare_ret: "(\<And>st. P st \<Longrightarrow> Q a st) \<Longrightarrow> hoare P (ret a) Q E"
  by (simp add: hoare_def ret_def)

lemma hoare_assign:
  "(\<And>st. P st \<Longrightarrow> Q () (f st)) \<Longrightarrow> hoare P (assign f) Q E"
  by (simp add: hoare_def assign_def)

lemma seq_simps [simp]:
  "m st = (Inr a, st') \<Longrightarrow> seq m k st = k a st'"
  "m st = (Inl e, st') \<Longrightarrow> seq m k st = (Inl e, st')"
  by (simp_all add: seq_def)

lemma hoare_seq:
  assumes "hoare P m R E" and "\<And>a. hoare (R a) (k a) Q E"
  shows "hoare P (seq m k) Q E"
  unfolding hoare_def
proof (intro allI impI)
  fix st assume "P st"
  note m = hoareD [OF assms(1) this]
  show "holds Q E (seq m k st)"
    by (rule outcome_cases [of "m st"]) (use m hoareD [OF assms(2)] in auto)
qed

lemma holds_weaken:
  "holds Q E x \<Longrightarrow> (\<And>a st. Q a st \<Longrightarrow> Q' a st) \<Longrightarrow> (\<And>st. E st \<Longrightarrow> E' st) \<Longrightarrow> holds Q' E' x"
  by (rule outcome_cases [of x]) auto

lemma hoare_ex: "(\<And>p. hoare (A p) m Q E) \<Longrightarrow> hoare (\<lambda>st. \<exists>p. A p st) m Q E"
  by (auto simp: hoare_def)

lemma hoare_weaken:
  "hoare P m Q E \<Longrightarrow> (\<And>a st. Q a st \<Longrightarrow> Q' a st) \<Longrightarrow> (\<And>st. E st \<Longrightarrow> E' st) \<Longrightarrow> hoare P m Q' E'"
  by (auto simp: hoare_def intro: holds_weaken)

subsection \<open>Steps\<close>

definition keeps :: "('w \<Rightarrow> bool) \<Rightarrow> ('w \<Rightarrow> 'b \<times> 'w) \<Rightarrow> bool" where
  "keeps W f \<longleftrightarrow> (\<forall>w. W w \<longrightarrow> W (snd (f w)))"

lemma chor_now_hoare:
  assumes "keeps W (op_clock P)"
  shows "hoare (at_point T l W) (chor_now P) (\<lambda>t. at_point T l W) E"
  unfolding hoare_def
proof (intro allI impI)
  fix st assume pre: "at_point T l W st"
  obtain t w where t: "op_clock P (ch_world st) = (t, w)" by force
  with pre assms have "W w" by (auto simp: at_point_def keeps_def dest: spec [of _ "ch_world st"])
  with pre t show "holds (\<lambda>t. at_point T l W) E (chor_now P st)"
    by (cases t) (auto simp: chor_now_def at_point_def)
qed

lemma append_step_hoare:
  assumes "keeps W (op_clock P)"
  shows "hoare (at_point T l W) (append_step P r n t s e) (\<lambda>_. at_point (T @ [(n, s = Step_succeeded)]) l W) (\<lambda>_. False)"
  unfolding append_step_def
  by (rule hoare_seq [OF chor_now_hoare [OF assms]]) (auto simp: hoare_def at_point_def Let_def)

text \<open>
  The rule of one step. \<open>W2\<close> is what a success establishes of the world and \<open>R\<close> what its result
  satisfies; \<open>W3\<close> is what a failure leaves.
\<close>

lemma run_step_hoare:
  assumes c: "keeps W (op_clock P)" "keeps W2 (op_clock P)" "keeps W3 (op_clock P)"
    and ok: "\<And>w a w'. W w \<Longrightarrow> act w = (Inr a, w') \<Longrightarrow> R a \<and> W2 w'"
    and bad: "\<And>w e w'. W w \<Longrightarrow> act w = (Inl e, w') \<Longrightarrow> W3 w'"
  shows "hoare (at_point T l W) (run_step P r n act)
    (\<lambda>a st. at_point (T @ [(n, True)]) l W2 st \<and> R a) (at_point (T @ [(n, False)]) l W3)"
  unfolding run_step_def
proof (rule hoare_seq [OF chor_now_hoare [OF c(1)]], unfold hoare_def, intro allI impI, goal_cases)
  case (1 t st)
  obtain res w' where act: "act (ch_world st) = (res, w')" by force
  show ?case
  proof (cases res)
    case (Inr a)
    with ok act 1 have R: "R a" and p: "at_point T l W2 (st\<lparr>ch_world := w'\<rparr>)" by (auto simp: at_point_def)
    note h = hoareD [OF append_step_hoare [where r = r and n = n and t = t and s = Step_succeeded and e = None, OF c(2)] p]
    show ?thesis
      by (rule outcome_cases [of "append_step P r n t Step_succeeded None (st\<lparr>ch_world := w'\<rparr>)"])
         (use h R act Inr in \<open>auto simp: ret_def\<close>)
  next
    case (Inl e)
    with bad act 1 have p: "at_point T l W3 (st\<lparr>ch_world := w'\<rparr>)" by (auto simp: at_point_def)
    let ?e = "case e of Action_error c \<Rightarrow> c | Other_exception \<Rightarrow> ''deployment_operation_failed''"
    note h = hoareD [OF append_step_hoare [where r = r and n = n and t = t and s = Step_failed and e = "Some ?e", OF c(3)] p]
    show ?thesis
      by (rule outcome_cases [of "append_step P r n t Step_failed (Some ?e) (st\<lparr>ch_world := w'\<rparr>)"])
         (use h act Inl in \<open>auto split: action_error.splits\<close>)
  qed
qed

lemma recover_hoare:
  assumes "hoare (at_point T l W) (run_step P r n act)
    (\<lambda>a st. at_point (T @ [(n, True)]) l W2 st \<and> R a) (at_point (T @ [(n, False)]) l W3)"
    and "\<And>w. W2 w \<Longrightarrow> W w" and "\<And>w. W3 w \<Longrightarrow> W w"
  shows "hoare (at_point T l W) (recover P r n act) (\<lambda>b. at_point (T @ [(n, b)]) l W) E"
  unfolding hoare_def
proof (intro allI impI)
  fix st assume "at_point T l W st"
  note h = hoareD [OF assms(1) this]
  show "holds (\<lambda>b. at_point (T @ [(n, b)]) l W) E (recover P r n act st)"
    by (rule outcome_cases [of "run_step P r n act st"])
       (use h assms(2,3) in \<open>auto simp: recover_def at_point_def\<close>)
qed

subsection \<open>Sequences of steps\<close>

definition ops_keep :: "'w operations \<Rightarrow> ('w \<Rightarrow> bool) \<Rightarrow> bool" where
  "ops_keep P W \<longleftrightarrow> keeps W (op_clock P) \<and> keeps W (op_prechecks P) \<and> keeps W (op_expand_migration P)
     \<and> keeps W (op_start_candidate P) \<and> keeps W (op_candidate_ready P) \<and> keeps W (op_isolated_smoke P)
     \<and> keeps W (op_queue_compatible P) \<and> keeps W (op_pause_admission P) \<and> keeps W (op_resume_admission P)
     \<and> keeps W (op_drain_old P) \<and> (\<forall>n. keeps W (op_old_claims_zero P n)) \<and> (\<forall>n. keeps W (op_restore_old P n))
     \<and> keeps W (op_keep_standby P) \<and> (\<forall>n. keeps W (op_activate_candidate P n)) \<and> keeps W (op_stable_smoke P)
     \<and> (\<forall>n. keeps W (op_soak P n)) \<and> keeps W (op_stop_old P) \<and> keeps W (op_old_api_ready P)
     \<and> keeps W (op_drain_candidate P) \<and> (\<forall>n. keeps W (op_candidate_claims_zero P n))
     \<and> keeps W (op_fence_candidate P) \<and> (\<forall>n. keeps W (op_activate_old P n)) \<and> keeps W (op_fail_lost P)"

lemma keeps_act_then [intro]: "keeps W m \<Longrightarrow> keeps W (act_then m f)"
  by (auto simp: keeps_def act_then_def split: prod.splits sum.splits)

lemma ops_keepD [intro]:
  assumes "ops_keep P W"
  shows "keeps W (op_clock P)" "keeps W (op_prechecks P)" "keeps W (op_expand_migration P)"
    "keeps W (op_start_candidate P)" "keeps W (op_candidate_ready P)" "keeps W (op_isolated_smoke P)"
    "keeps W (require_queue_policy P r)" "keeps W (op_pause_admission P)" "keeps W (op_resume_admission P)"
    "keeps W (op_drain_old P)" "keeps W (require_old_claims_zero P r)" "keeps W (op_restore_old P n)"
    "keeps W (op_keep_standby P)" "keeps W (activate_candidate P r)" "keeps W (op_stable_smoke P)"
    "keeps W (op_soak P n)" "keeps W (op_stop_old P)" "keeps W (op_old_api_ready P)" "keeps W (op_drain_candidate P)"
    "keeps W (wait_candidate P r)" "keeps W (op_fence_candidate P)" "keeps W (activate_old P n)" "keeps W (op_fail_lost P)"
  using assms by (auto simp: ops_keep_def require_queue_policy_def require_old_claims_zero_def activate_candidate_def
      wait_candidate_def activate_old_def)

lemma keepsD: "keeps W f \<Longrightarrow> W w \<Longrightarrow> f w = (r, w') \<Longrightarrow> W w'"
  by (force simp: keeps_def)

lemma seq_step:
  assumes "hoare (at_point T l W) (run_step P r n act) (\<lambda>a st. at_point T' l W2 st \<and> R a) (at_point F l W3)"
    and "\<And>st. at_point F l W3 st \<Longrightarrow> E st"
    and "\<And>a. R a \<Longrightarrow> hoare (at_point T' l W2) (k a) Q E"
  shows "hoare (at_point T l W) (seq (run_step P r n act) k) Q E"
proof (rule hoare_seq)
  show "hoare (at_point T l W) (run_step P r n act) (\<lambda>a st. at_point T' l W2 st \<and> R a) E"
    by (rule hoare_weaken [OF assms(1)]) (simp_all add: assms(2))
  show "hoare (\<lambda>st. at_point T' l W2 st \<and> R a) (k a) Q E" for a
    using assms(3) by (auto simp: hoare_def)
qed

text \<open>A step whose action keeps what is known of the world.\<close>

lemma plain_step_hoare:
  assumes "keeps W (op_clock P)" and "keeps W act"
  shows "hoare (at_point T l W) (run_step P r n act) (\<lambda>a st. at_point (T @ [(n, True)]) l W st \<and> True)
    (at_point (T @ [(n, False)]) l W)"
  by (rule run_step_hoare) (use assms in \<open>auto dest: keepsD\<close>)

lemma plain_recover_hoare:
  assumes "keeps W (op_clock P)" and "keeps W act"
  shows "hoare (at_point T l W) (recover P r n act) (\<lambda>b. at_point (T @ [(n, b)]) l W) E"
  by (rule recover_hoare [OF plain_step_hoare [OF assms]])

lemma seq_assign:
  assumes "\<And>st. locals_of st = l \<Longrightarrow> step_trace (ch_steps (f st)) = step_trace (ch_steps st)
      \<and> ch_world (f st) = ch_world st \<and> locals_of (f st) = l'"
    and "hoare (at_point T l' W) (k ()) Q E"
  shows "hoare (at_point T l W) (seq (assign f) k) Q E"
proof -
  have "hoare (at_point T l W) (assign f) (\<lambda>_. at_point T l' W) E"
    by (rule hoare_assign) (use assms(1) in \<open>auto simp: at_point_def\<close>)
  from hoare_seq [OF this, of k] assms(2) show ?thesis by simp
qed

subsection \<open>The plan\<close>

definition plan_before :: "bool \<Rightarrow> step_name list" where
  "plan_before paused = [Validate_prechecks, Locked_expand_migration, Start_candidate_standby, Candidate_readiness,
     Isolated_smoke, Bidirectional_queue_contract] @ (if paused then [Pause_admission] else [])
     @ [Old_workers_draining, Old_claims_zero, Gateway_switch]"

definition plan_after :: "bool \<Rightarrow> step_name list" where
  "plan_after paused = [Candidate_activation, Stable_origin_smoke, Soak, Stop_old_compute]
     @ (if paused then [Resume_admission] else [])"

definition flags :: "step_name list \<Rightarrow> chor_locals" where
  "flags ns = (Start_candidate_standby \<in> set ns, Old_workers_draining \<in> set ns, Pause_admission \<in> set ns,
     None, None, None)"

text \<open>A failure before the switch: the plan was followed up to the failing step.\<close>

definition failed_before :: "('w \<Rightarrow> bool) \<Rightarrow> ('w \<Rightarrow> bool) \<Rightarrow> 'w chor \<Rightarrow> bool" where
  "failed_before W W' st \<longleftrightarrow> (\<exists>p ns n rest. plan_before p = ns @ n # rest
     \<and> at_point (all_ok ns @ [(n, False)]) (flags ns) (if n = Gateway_switch then W' else W) st)"

lemma before_step:
  assumes "plan_before p = ns @ n # rest" and "keeps W (op_clock P)" "keeps W act" and "n \<noteq> Gateway_switch"
    and "flags ns = l" and "\<And>a. hoare (at_point (all_ok (ns @ [n])) l W) (k a) Q (failed_before W W')"
  shows "hoare (at_point (all_ok ns) l W) (seq (run_step P r n act) k) Q (failed_before W W')"
proof (rule seq_step [OF plain_step_hoare [OF assms(2,3)]])
  fix st assume a: "at_point (all_ok ns @ [(n, False)]) l W st"
  show "failed_before W W' st"
    unfolding failed_before_def
    by (rule exI [of _ p], rule exI [of _ ns], rule exI [of _ n], rule exI [of _ rest]) (use assms a in simp)
next
  fix a show "hoare (at_point (all_ok ns @ [(n, True)]) l W) (k a) Q (failed_before W W')" using assms(6) by simp
qed

definition switched_to :: "'w operations \<Rightarrow> deploy_request \<Rightarrow> routing \<Rightarrow> bool" where
  "switched_to P r g \<longleftrightarrow> rg_slot g = dr_candidate_slot r \<and> rg_generation g = dr_generation r + 1
     \<and> rg_binding_sha g = op_digest P (dr_binding r)"

lemma switch_gateway_Inr:
  "switch_gateway P r s n w = (Inr g, w') \<Longrightarrow> op_switch P s (op_digest P (dr_binding r)) n w = (Inr g, w')
     \<and> rg_slot g = s \<and> rg_generation g = n + 1 \<and> rg_binding_sha g = op_digest P (dr_binding r)"
  by (auto simp: switch_gateway_def split: prod.splits sum.splits switch_error.splits if_splits)

lemma before_switch_hoare:
  assumes ops: "ops_keep P W" and clk: "keeps W1 (op_clock P)" "keeps W' (op_clock P)"
    and sw: "\<And>w g w'. W w \<Longrightarrow> switch_gateway P r (dr_candidate_slot r) (dr_generation r) w = (Inr g, w') \<Longrightarrow> W1 w'"
    and bad: "\<And>w e w'. W w \<Longrightarrow> switch_gateway P r (dr_candidate_slot r) (dr_generation r) w = (Inl e, w') \<Longrightarrow> W' w'"
  shows "hoare (at_point [] (False, False, False, None, None, None) W) (before_switch P r)
    (\<lambda>_ st. \<exists>p g. at_point (all_ok (plan_before p)) (True, True, p, Some g, None, None) W1 st \<and> switched_to P r g)
    (failed_before W W')"
proof -
  note k = ops_keepD [OF ops]
  let ?Q = "\<lambda>_ st. \<exists>p g. at_point (all_ok (plan_before p)) (True, True, p, Some g, None, None) W1 st \<and> switched_to P r g"
  let ?pre = "[Validate_prechecks, Locked_expand_migration, Start_candidate_standby, Candidate_readiness,
     Isolated_smoke, Bidirectional_queue_contract]"
  have last: "hoare (at_point (all_ok (?pre @ (if p then [Pause_admission] else []))) (True, False, p, None, None, None) W)
      (seq (run_step P r Old_workers_draining (op_drain_old P)) (\<lambda>_.
       seq (assign (\<lambda>st. st\<lparr>ch_draining := True\<rparr>)) (\<lambda>_.
       seq (run_step P r Old_claims_zero (require_old_claims_zero P r)) (\<lambda>_.
       seq (run_step P r Gateway_switch (switch_gateway P r (dr_candidate_slot r) (dr_generation r))) (\<lambda>g.
       assign (\<lambda>st. st\<lparr>ch_gateway := Some g\<rparr>)))))) ?Q (failed_before W W')" for p
  proof (rule before_step [where p = p], simp add: plan_before_def, rule k, rule k, simp, simp add: flags_def,
      rule seq_assign [where l' = "(True, True, p, None, None, None)"], simp add: locals_of_def,
      rule before_step [where p = p and rest = "[Gateway_switch]"], simp add: plan_before_def, rule k, rule k, simp,
      simp add: flags_def, rule seq_step [OF run_step_hoare [where R = "switched_to P r" and ?W2.0 = W1 and ?W3.0 = W']],
      goal_cases)
    case (5 w e w') with bad show ?case by simp
  next
    case (6 st)
    then show ?case unfolding failed_before_def
      by (intro exI [of _ p] exI [of _ "butlast (plan_before p)"] exI [of _ Gateway_switch] exI [of _ "[]"])
         (auto simp: plan_before_def flags_def)
  next
    case (7 g)
    then show ?case
      by (intro hoare_assign) (use 7 in \<open>auto simp: plan_before_def at_point_def locals_of_def\<close>)
  qed (use k clk sw in \<open>auto simp: switched_to_def dest: switch_gateway_Inr\<close>)
  have pause: "hoare (at_point (all_ok ?pre) (True, False, False, None, None, None) W)
      (if \<not> compatible
          then seq (run_step P r Pause_admission (op_pause_admission P)) (\<lambda>_.
               assign (\<lambda>st. st\<lparr>ch_paused := True\<rparr>))
          else ret ())
      (\<lambda>_ st. \<exists>p. at_point (all_ok (?pre @ (if p then [Pause_admission] else []))) (True, False, p, None, None, None) W st)
      (failed_before W W')" for compatible
  proof (cases compatible)
    case True then show ?thesis by (auto intro!: hoare_ret exI [of _ False])
  next
    case False
    have "hoare (at_point (all_ok ?pre) (True, False, False, None, None, None) W)
       (seq (run_step P r Pause_admission (op_pause_admission P)) (\<lambda>_. assign (\<lambda>st. st\<lparr>ch_paused := True\<rparr>)))
       (\<lambda>_ st. \<exists>p. at_point (all_ok (?pre @ (if p then [Pause_admission] else []))) (True, False, p, None, None, None) W st)
       (failed_before W W')"
    proof (rule before_step [where p = True], simp add: plan_before_def, rule k, rule k, simp, simp add: flags_def,
        rule hoare_assign, goal_cases)
      case (1 a st) then show ?case by (intro exI [of _ True]) (auto simp: at_point_def locals_of_def)
    qed
    with False show ?thesis by simp
  qed
  have mid: "hoare (\<lambda>st. \<exists>p. at_point (all_ok (?pre @ (if p then [Pause_admission] else []))) (True, False, p, None, None, None) W st)
      (seq (run_step P r Old_workers_draining (op_drain_old P)) (\<lambda>_.
       seq (assign (\<lambda>st. st\<lparr>ch_draining := True\<rparr>)) (\<lambda>_.
       seq (run_step P r Old_claims_zero (require_old_claims_zero P r)) (\<lambda>_.
       seq (run_step P r Gateway_switch (switch_gateway P r (dr_candidate_slot r) (dr_generation r))) (\<lambda>g.
       assign (\<lambda>st. st\<lparr>ch_gateway := Some g\<rparr>)))))) ?Q (failed_before W W')"
    by (rule hoare_ex) (rule last)
  have start: "all_ok [] = []" "flags [] = (False, False, False, None, None, None)" by (simp_all add: flags_def)
  show ?thesis
    unfolding before_switch_def start(1) [symmetric]
    apply (rule before_step [where p = False], simp add: plan_before_def, rule k, rule k, simp, simp add: flags_def)
    apply (rule before_step [where p = False], simp add: plan_before_def, rule k, rule k, simp, simp add: flags_def)
    apply (rule before_step [where p = False], simp add: plan_before_def, rule k, rule k, simp, simp add: flags_def)
    apply (rule seq_assign [where l' = "(True, False, False, None, None, None)"], simp add: locals_of_def)
    apply (rule before_step [where p = False], simp add: plan_before_def, rule k, rule k, simp, simp add: flags_def)
    apply (rule before_step [where p = False], simp add: plan_before_def, rule k, rule k, simp, simp add: flags_def)
    apply (rule before_step [where p = False], simp add: plan_before_def, rule k, rule k, simp, simp add: flags_def)
    apply (rule hoare_seq [OF _ mid])
    using pause apply simp
    done
qed

text \<open>A failure after the switch: the candidate has authority from its activation on.\<close>

definition failed_after :: "'w operations \<Rightarrow> deploy_request \<Rightarrow> ('w \<Rightarrow> bool) \<Rightarrow> 'w chor \<Rightarrow> bool" where
  "failed_after P r W st \<longleftrightarrow> (\<exists>p ns n rest g t e. plan_after p = ns @ n # rest \<and> switched_to P r g
     \<and> (e \<noteq> None \<longleftrightarrow> Candidate_activation \<in> set ns) \<and> opt_ok (\<lambda>x. dr_old_epoch r < x) e
     \<and> at_point (all_ok (plan_before p @ ns) @ [(n, False)]) (True, True, p, Some g, Some t, e) W st)"

lemma after_fail:
  assumes "plan_after p = ns @ n # rest" and "switched_to P r g"
    and "e \<noteq> None \<longleftrightarrow> Candidate_activation \<in> set ns" and "opt_ok (\<lambda>x. dr_old_epoch r < x) e"
    and "at_point (all_ok (plan_before p @ ns) @ [(n, False)]) (True, True, p, Some g, Some t, e) W st"
  shows "failed_after P r W st"
  unfolding failed_after_def
  by (rule exI [of _ p], rule exI [of _ ns], rule exI [of _ n], rule exI [of _ rest], rule exI [of _ g],
      rule exI [of _ t], rule exI [of _ e]) (use assms in simp)

lemma after_step:
  assumes "plan_after p = ns @ n # rest" and "switched_to P r g"
    and "e \<noteq> None \<longleftrightarrow> Candidate_activation \<in> set ns" and "opt_ok (\<lambda>x. dr_old_epoch r < x) e"
    and "keeps W (op_clock P)" and "\<And>w a w'. W w \<Longrightarrow> act w = (Inr a, w') \<Longrightarrow> R a \<and> W w'"
    and "\<And>w x w'. W w \<Longrightarrow> act w = (Inl x, w') \<Longrightarrow> W w'"
    and "\<And>a. R a \<Longrightarrow> hoare (at_point (all_ok (plan_before p @ ns @ [n])) (True, True, p, Some g, Some t, e) W) (k a) Q
      (failed_after P r W)"
  shows "hoare (at_point (all_ok (plan_before p @ ns)) (True, True, p, Some g, Some t, e) W)
    (seq (run_step P r n act) k) Q (failed_after P r W)"
proof (rule seq_step [OF run_step_hoare [OF assms(5,5,5,6,7)]])
  fix st assume "at_point (all_ok (plan_before p @ ns) @ [(n, False)]) (True, True, p, Some g, Some t, e) W st"
  with assms show "failed_after P r W st" by (intro after_fail)
next
  fix a assume "R a"
  with assms(8) show "hoare (at_point (all_ok (plan_before p @ ns) @ [(n, True)]) (True, True, p, Some g, Some t, e) W) (k a) Q
      (failed_after P r W)" by simp
qed auto

lemma activate_candidate_Inr:
  "activate_candidate P r w = (Inr e, w') \<Longrightarrow> dr_old_epoch r < e"
  by (auto simp: activate_candidate_def act_then_def split: prod.splits sum.splits if_splits)

lemma after_switch_hoare:
  assumes ops: "ops_keep P W" and g: "switched_to P r g"
  shows "hoare (at_point (all_ok (plan_before p)) (True, True, p, Some g, None, None) W) (after_switch P r)
    (\<lambda>_ st. \<exists>t e. dr_old_epoch r < e
       \<and> at_point (all_ok (plan_before p @ plan_after p)) (True, True, p, Some g, Some t, Some e) W st)
    (failed_after P r W)"
proof -
  note k = ops_keepD [OF ops]
  let ?Q = "\<lambda>_ st. \<exists>t e. dr_old_epoch r < e
       \<and> at_point (all_ok (plan_before p @ plan_after p)) (True, True, p, Some g, Some t, Some e) W st"
  have nil: "plan_before p = plan_before p @ []" by simp
  have resume: "hoare (at_point (all_ok (plan_before p @ [Candidate_activation, Stable_origin_smoke, Soak, Stop_old_compute]))
      (True, True, p, Some g, Some t, Some e) W)
      (\<lambda>st. if ch_paused st then run_step P r Resume_admission (op_resume_admission P) st else ret () st)
      ?Q (failed_after P r W)" if e: "dr_old_epoch r < e" for t e
  proof (cases p)
    case True
    have "hoare (at_point (all_ok (plan_before p @ [Candidate_activation, Stable_origin_smoke, Soak, Stop_old_compute]))
      (True, True, p, Some g, Some t, Some e) W) (run_step P r Resume_admission (op_resume_admission P)) ?Q (failed_after P r W)"
    proof (rule hoare_weaken [OF plain_step_hoare [OF k(1,9)]], goal_cases)
      case (1 a st) with e True show ?case
        by (intro exI [of _ t] exI [of _ e]) (simp add: plan_after_def)
    next
      case (2 st)
      then show ?case
        by (intro after_fail [where p = p and rest = "[]", OF _ g _ _ 2]) (use e True in \<open>simp_all add: plan_after_def\<close>)
    qed
    with True show ?thesis by (auto simp: hoare_def at_point_def locals_of_def)
  next
    case False
    with e show ?thesis
      by (auto simp: hoare_def at_point_def locals_of_def ret_def plan_after_def)
  qed
  show ?thesis
    unfolding after_switch_def
  proof (rule hoare_seq [OF chor_now_hoare [OF k(1)]], subst nil,
      rule seq_assign [where l' = "(True, True, p, Some g, Some t, None)" for t], simp add: locals_of_def, goal_cases)
    case (1 t)
    show ?case
    proof (rule after_step [where R = "\<lambda>e. dr_old_epoch r < e" and rest = "tl (plan_after p)"], simp add: plan_after_def,
        rule g, simp, simp, rule k, goal_cases)
      case (3 e)
      then show ?case
        apply (intro seq_assign [where l' = "(True, True, p, Some g, Some t, Some e)"])
         apply (simp add: locals_of_def)
        apply (rule after_step [where R = "\<lambda>_. True" and rest = "drop 2 (plan_after p)"], simp add: plan_after_def,
            rule g, simp, simp, rule k, use k(15) in \<open>blast dest: keepsD\<close>, use k(15) in \<open>blast dest: keepsD\<close>)
        apply (simp only: append.simps)
        apply (rule after_step [where R = "\<lambda>_. True" and rest = "drop 3 (plan_after p)"], simp add: plan_after_def,
            rule g, simp, simp, rule k, use k(16) in \<open>blast dest: keepsD\<close>, use k(16) in \<open>blast dest: keepsD\<close>)
        apply (simp only: append.simps)
        apply (rule after_step [where R = "\<lambda>_. True" and rest = "drop 4 (plan_after p)"], simp add: plan_after_def,
            rule g, simp, simp, rule k, use k(17) in \<open>blast dest: keepsD\<close>, use k(17) in \<open>blast dest: keepsD\<close>)
        apply (simp only: append.simps)
        apply (rule resume)
        apply assumption
        done
    qed (use k(14) in \<open>auto dest: keepsD activate_candidate_Inr\<close>)
  qed
qed

subsection \<open>Recovery\<close>

definition opt_step :: "bool \<Rightarrow> step_name \<Rightarrow> bool \<Rightarrow> (step_name \<times> bool) list" where
  "opt_step c n b = (if c then [(n, b)] else [])"

definition abort_trace :: "bool \<Rightarrow> bool \<Rightarrow> bool \<Rightarrow> bool \<Rightarrow> bool \<Rightarrow> bool \<Rightarrow> (step_name \<times> bool) list" where
  "abort_trace draining started paused a b c = opt_step draining Abort_old_workers_active a
     @ opt_step started Abort_candidate_standby b @ opt_step paused Resume_admission c"

definition rollback_trace ::
  "bool \<Rightarrow> bool \<Rightarrow> bool \<Rightarrow> bool \<Rightarrow> bool \<Rightarrow> bool \<Rightarrow> bool \<Rightarrow> bool \<Rightarrow> bool \<Rightarrow> (step_name \<times> bool) list" where
  "rollback_trace paused a b c d e f g h = [(Rollback_old_api_readiness, a), (Rollback_gateway, b),
     (Rollback_candidate_draining, c)] @ opt_step c Rollback_candidate_claims_zero d
     @ opt_step (\<not> (c \<and> d)) Rollback_candidate_fenced e
     @ [(Rollback_old_activation, f), (Rollback_fail_lost_attempts, g)] @ opt_step paused Resume_admission h"

lemma opt_recover_hoare:
  assumes "keeps W (op_clock P)" and "keeps W act"
  shows "hoare (at_point T l W) (if c then recover P r n act else ret d)
    (\<lambda>b st. at_point (T @ opt_step c n b) l W st \<and> (\<not> c \<longrightarrow> b = d)) E"
proof (cases c)
  case True
  with hoare_weaken [OF plain_recover_hoare [OF assms]] show ?thesis by (simp add: opt_step_def)
qed (simp add: hoare_ret opt_step_def)

lemma hoare_seq_pure:
  assumes "hoare P m (\<lambda>a st. A a st \<and> B a) E" and "\<And>a. B a \<Longrightarrow> hoare (A a) (k a) Q E"
  shows "hoare P (seq m k) Q E"
  by (rule hoare_seq [OF assms(1)]) (use assms(2) in \<open>auto simp: hoare_def\<close>)

lemma abort_hoare:
  assumes ops: "ops_keep P W" and l: "l = (s, d, p, None, None, None)"
  shows "hoare (at_point T l W) (abort_before_switch P r)
    (\<lambda>ok st. \<exists>a b c. at_point (T @ abort_trace d s p a b c) l W st \<and> (\<not> d \<longrightarrow> a) \<and> (\<not> s \<longrightarrow> b) \<and> (\<not> p \<longrightarrow> c)
       \<and> ok = (a \<and> b \<and> c)) E"
proof -
  note k = ops_keepD [OF ops]
  have "hoare (at_point T l W)
     (seq (if d then recover P r Abort_old_workers_active (op_restore_old P (dr_old_epoch r)) else ret True) (\<lambda>a.
      seq (if s then recover P r Abort_candidate_standby (op_keep_standby P) else ret True) (\<lambda>b.
      seq (if p then recover P r Resume_admission (op_resume_admission P) else ret True) (\<lambda>c.
      ret (a \<and> b \<and> c)))))
    (\<lambda>ok st. \<exists>a b c. at_point (T @ abort_trace d s p a b c) l W st \<and> (\<not> d \<longrightarrow> a) \<and> (\<not> s \<longrightarrow> b) \<and> (\<not> p \<longrightarrow> c)
       \<and> ok = (a \<and> b \<and> c)) E"
    apply (rule hoare_seq_pure [OF opt_recover_hoare [OF k(1,12)]])
    apply (rule hoare_seq_pure [OF opt_recover_hoare [OF k(1,13)]])
    apply (rule hoare_seq_pure [OF opt_recover_hoare [OF k(1,9)]])
    apply (rule hoare_ret)
    subgoal for a b c st by (intro exI [of _ a] exI [of _ b] exI [of _ c]) (simp add: abort_trace_def)
    done
  moreover have "ch_draining st = d \<and> ch_started st = s \<and> ch_paused st = p" if "at_point T l W st" for st
    using that l by (simp add: at_point_def locals_of_def)
  ultimately show ?thesis by (simp add: hoare_def abort_before_switch_def)
qed

lemma recover_gateway_hoare:
  assumes "keeps W (op_clock P)" "keeps W2 (op_clock P)" "keeps W3 (op_clock P)"
    and ok: "\<And>w g w'. W w \<Longrightarrow> switch_gateway P r (dr_old_slot r) n w = (Inr g, w') \<Longrightarrow> W2 w'"
    and bad: "\<And>w e w'. W w \<Longrightarrow> switch_gateway P r (dr_old_slot r) n w = (Inl e, w') \<Longrightarrow> W3 w'"
  shows "hoare (at_point T l W) (recover_gateway P r n)
    (\<lambda>(b, g) st. at_point (T @ [(Rollback_gateway, b)]) l (if b then W2 else W3) st
       \<and> (b \<longleftrightarrow> g \<noteq> None) \<and> opt_ok (\<lambda>x. rg_generation x = n + 1) g) E"
proof -
  have h: "hoare (at_point T l W) (run_step P r Rollback_gateway (switch_gateway P r (dr_old_slot r) n))
    (\<lambda>g st. at_point (T @ [(Rollback_gateway, True)]) l W2 st \<and> rg_generation g = n + 1)
    (at_point (T @ [(Rollback_gateway, False)]) l W3)"
    by (rule run_step_hoare) (use assms in \<open>auto dest: switch_gateway_Inr\<close>)
  show ?thesis
    unfolding hoare_def
  proof (intro allI impI, goal_cases)
    case (1 st)
    note m = hoareD [OF h 1]
    show ?case
      by (rule outcome_cases [of "run_step P r Rollback_gateway (switch_gateway P r (dr_old_slot r) n) st"])
         (use m in \<open>auto simp: recover_gateway_def\<close>)
  qed
qed

lemma rollback_hoare:
  assumes ops: "ops_keep P W" "ops_keep P W2" "ops_keep P W3"
    and ok: "\<And>w g w'. W w \<Longrightarrow> switch_gateway P r (dr_old_slot r) n w = (Inr g, w') \<Longrightarrow> W2 w'"
    and bad: "\<And>w e w'. W w \<Longrightarrow> switch_gateway P r (dr_old_slot r) n w = (Inl e, w') \<Longrightarrow> W3 w'"
  shows "hoare (at_point T l W) (rollback_after_switch P r n authority paused)
    (\<lambda>(ok, x) st. \<exists>a b c d e f g h. at_point (T @ rollback_trace paused a b c d e f g h) l (if b then W2 else W3) st
       \<and> (b \<longleftrightarrow> x \<noteq> None) \<and> opt_ok (\<lambda>y. rg_generation y = n + 1) x
       \<and> (ok \<longleftrightarrow> a \<and> b \<and> c \<and> (c \<and> d \<or> e) \<and> f \<and> g \<and> (paused \<longrightarrow> h))) E"
proof -
  have kb: "ops_keep P (if b then W2 else W3)" for b using ops(2,3) by simp
  note k = ops_keepD [OF ops(1)] and k' = ops_keepD [OF kb]
  show ?thesis
    unfolding rollback_after_switch_def
    apply (rule hoare_seq [OF plain_recover_hoare [OF k(1,18)]])
    apply (rule hoare_seq [OF recover_gateway_hoare [OF k(1) ops_keepD(1) [OF ops(2)] ops_keepD(1) [OF ops(3)] ok bad]])
      apply assumption+
    subgoal for a bg
      apply (cases bg)
      subgoal for b x
        apply (simp only: prod.case)
        apply (rule hoare_seq_pure [where A = "\<lambda>c. at_point ((T @ [(Rollback_old_api_readiness, a)]) @ [(Rollback_gateway, b)]
            @ [(Rollback_candidate_draining, c)]) l (if b then W2 else W3)"
            and B = "\<lambda>c. (b \<longleftrightarrow> x \<noteq> None) \<and> opt_ok (\<lambda>y. rg_generation y = n + 1) x"])
         subgoal
           using plain_recover_hoare [where W = "if b then W2 else W3" and l = l and r = r and n = Rollback_candidate_draining
               and T = "(T @ [(Rollback_old_api_readiness, a)]) @ [(Rollback_gateway, b)]" and E = E, OF k'(1,19)]
           by (auto simp: hoare_def intro: holds_weaken)
        subgoal for c
          apply (rule hoare_seq_pure [OF opt_recover_hoare [OF k'(1,20)]])
          subgoal for d
            apply (rule hoare_seq_pure [OF opt_recover_hoare [OF k'(1,21)]])
            subgoal for e
              apply (rule hoare_seq [OF plain_recover_hoare [OF k'(1,22)]])
              subgoal for f
                apply (rule hoare_seq [OF plain_recover_hoare [OF k'(1,23)]])
                subgoal for g
                  apply (rule hoare_seq_pure [OF opt_recover_hoare [OF k'(1,9)]])
                  subgoal for h
                    apply (rule hoare_ret)
                    apply (simp only: prod.case)
                    apply (rule exI [of _ a], rule exI [of _ b], rule exI [of _ c], rule exI [of _ d], rule exI [of _ e],
                        rule exI [of _ f], rule exI [of _ g], rule exI [of _ h])
                    apply (auto simp: rollback_trace_def opt_step_def)
                    done
                  done
                done
              done
            done
          done
        done
      done
    done
qed

subsection \<open>Outcomes\<close>

text \<open>The traces each outcome admits.\<close>

inductive legal_trace :: "outcome \<Rightarrow> (step_name \<times> bool) list \<Rightarrow> bool" where
  deployed: "legal_trace Deployed (all_ok (plan_before p @ plan_after p))"
| aborted: "plan_before p = ns @ n # rest \<Longrightarrow>
    out = (if (Old_workers_draining \<in> set ns \<longrightarrow> a) \<and> (Start_candidate_standby \<in> set ns \<longrightarrow> b)
              \<and> (Pause_admission \<in> set ns \<longrightarrow> c) then Aborted else Abort_failed) \<Longrightarrow>
    legal_trace out (all_ok ns @ [(n, False)] @ abort_trace (Old_workers_draining \<in> set ns)
      (Start_candidate_standby \<in> set ns) (Pause_admission \<in> set ns) a b c)"
| rolled_back: "plan_after p = ns @ n # rest \<Longrightarrow>
    out = (if a \<and> b \<and> c \<and> (d \<or> e) \<and> f \<and> g \<and> (p \<longrightarrow> h) then Rolled_back else Rollback_failed) \<Longrightarrow> (\<not> c \<longrightarrow> \<not> d) \<Longrightarrow>
    legal_trace out (all_ok (plan_before p @ ns) @ [(n, False)] @ rollback_trace p a b c d e f g h)"

inductive_cases legal_traceE: "legal_trace out tr"

lemma opt_step_irrelevant: "opt_step c n b = opt_step c n (c \<longrightarrow> b)"
  by (simp add: opt_step_def)

lemma make_result_Inr:
  assumes "make_result P r out g e t st = (Inr res, st')"
  shows "st' = st" "dl_outcome res = out" "dl_steps res = ch_steps st" "dl_generation res = map_option rg_generation g"
    "dl_epoch res = e" "dl_switched res = t" "dl_binding_sha res = op_digest P (dr_binding r)" "deploy_result_ok res"
  using assms by (auto simp: make_result_def Let_def split: if_splits)

text \<open>
  The world along a deployment: \<open>W0\<close> until the switch, \<open>W0'\<close> when the switch failed, \<open>W1\<close> once
  it succeeded, \<open>W2\<close> and \<open>W3\<close> after a rollback switch that succeeded or failed; and the
  generation that the result reports at each of these points.
\<close>

definition outcome_facts ::
  "deploy_request \<Rightarrow> ('w \<Rightarrow> bool) \<Rightarrow> ('w \<Rightarrow> bool) \<Rightarrow> ('w \<Rightarrow> bool) \<Rightarrow> ('w \<Rightarrow> bool) \<Rightarrow> ('w \<Rightarrow> bool) \<Rightarrow> deploy_result \<Rightarrow> 'w \<Rightarrow> bool" where
  "outcome_facts r W0 W0' W1 W2 W3 res w \<longleftrightarrow> (let S = set (step_trace (dl_steps res)) in
     legal_trace (dl_outcome res) (step_trace (dl_steps res))
     \<and> (if (Rollback_gateway, True) \<in> S then W2 w \<and> dl_generation res = Some (dr_generation r + 2)
        else if (Rollback_gateway, False) \<in> S then W3 w \<and> dl_generation res = Some (dr_generation r + 1)
        else if (Gateway_switch, True) \<in> S then W1 w \<and> dl_generation res = Some (dr_generation r + 1)
        else if (Gateway_switch, False) \<in> S then W0' w \<and> dl_generation res = None
        else W0 w \<and> dl_generation res = None)
     \<and> opt_ok (\<lambda>e. dr_old_epoch r < e) (dl_epoch res))"

lemma plan_before_split:
  assumes "plan_before p = ns @ n # rest"
  shows "Gateway_switch \<notin> set ns" "Rollback_gateway \<notin> set ns" "n \<noteq> Rollback_gateway"
proof -
  have d: "distinct (plan_before p)" and l: "last (plan_before p) = Gateway_switch"
    and s: "Rollback_gateway \<notin> set (plan_before p)" by (cases p; simp add: plan_before_def)+
  have "Gateway_switch \<in> set (n # rest)" using l last_in_set [of "n # rest"] unfolding assms by simp
  with d show "Gateway_switch \<notin> set ns" unfolding assms by auto
  show "Rollback_gateway \<notin> set ns" "n \<noteq> Rollback_gateway" using s unfolding assms by auto
qed

lemma plan_after_split:
  assumes "plan_after p = ns @ n # rest"
  shows "Rollback_gateway \<notin> set ns" "n \<noteq> Rollback_gateway" "Gateway_switch \<notin> set ns" "n \<noteq> Gateway_switch"
proof -
  have "Rollback_gateway \<notin> set (plan_after p)" "Gateway_switch \<notin> set (plan_after p)" by (cases p; simp add: plan_after_def)+
  then show "Rollback_gateway \<notin> set ns" "n \<noteq> Rollback_gateway" "Gateway_switch \<notin> set ns" "n \<noteq> Gateway_switch"
    unfolding assms by auto
qed

lemma plan_before_mem: "Gateway_switch \<in> set (plan_before p)" "Rollback_gateway \<notin> set (plan_before p)"
  by (cases p; simp add: plan_before_def)+

lemma abort_outcome:
  assumes f: "failed_before W0 W0' st0" and m: "handle_failure P r st0 = (Inr res, st)"
    and ops: "ops_keep P W0" "ops_keep P W0'"
  shows "outcome_facts r W0 W0' W1 W2 W3 res (ch_world st)"
proof -
  from f obtain p ns n rest where plan: "plan_before p = ns @ n # rest"
    and pt: "at_point (all_ok ns @ [(n, False)]) (flags ns) (if n = Gateway_switch then W0' else W0) st0"
    by (auto simp: failed_before_def)
  let ?d = "Old_workers_draining \<in> set ns" and ?s = "Start_candidate_standby \<in> set ns" and ?p = "Pause_admission \<in> set ns"
  have ops': "ops_keep P (if n = Gateway_switch then W0' else W0)" using ops by simp
  have fl: "flags ns = (?s, ?d, ?p, None, None, None)" by (simp add: flags_def)
  have g: "ch_gateway st0 = None" using pt by (simp add: at_point_def fl locals_of_def)
  note h = hoareD [OF abort_hoare [OF ops' fl, of "all_ok ns @ [(n, False)]" r "\<lambda>_. False"] pt]
  obtain ok st1 where ab: "abort_before_switch P r st0 = (Inr ok, st1)"
    and mk: "make_result P r (if ok then Aborted else Abort_failed) None None None st1 = (Inr res, st)"
    using m g by (auto simp: handle_failure_def seq_def split: prod.splits sum.splits)
  from h ab obtain a b c where
    pt1: "at_point ((all_ok ns @ [(n, False)]) @ abort_trace ?d ?s ?p a b c) (flags ns) (if n = Gateway_switch then W0' else W0) st1"
    and ok: "\<not> ?d \<longrightarrow> a" "\<not> ?s \<longrightarrow> b" "\<not> ?p \<longrightarrow> c" "ok = (a \<and> b \<and> c)" by auto
  note res = make_result_Inr [OF mk]
  have tr: "step_trace (dl_steps res) = all_ok ns @ [(n, False)] @ abort_trace ?d ?s ?p a b c"
    and world: "(if n = Gateway_switch then W0' else W0) (ch_world st)"
    using pt1 res by (simp_all add: at_point_def)
  have "legal_trace (dl_outcome res) (step_trace (dl_steps res))"
    unfolding tr by (rule legal_trace.aborted [OF plan]) (use res ok in auto)
  moreover have other: "(m, v) \<notin> set (abort_trace ?d ?s ?p a b c)"
    if "m \<notin> {Abort_old_workers_active, Abort_candidate_standby, Resume_admission}" for m v
    using that by (auto simp: abort_trace_def opt_step_def)
  have "(Rollback_gateway, v) \<notin> set (step_trace (dl_steps res))" "(Gateway_switch, True) \<notin> set (step_trace (dl_steps res))"
    "(Gateway_switch, False) \<in> set (step_trace (dl_steps res)) \<longleftrightarrow> n = Gateway_switch" for v
    unfolding tr using plan_before_split [OF plan] other [of Rollback_gateway] other [of Gateway_switch] by auto
  ultimately show ?thesis
    unfolding outcome_facts_def Let_def using world res(4,5) by (cases "n = Gateway_switch") simp_all
qed

lemma rollback_outcome:
  assumes f: "failed_after P r W1 st0" and m: "handle_failure P r st0 = (Inr res, st)"
    and ops: "ops_keep P W1" "ops_keep P W2" "ops_keep P W3" and epoch: "1 \<le> dr_old_epoch r"
    and sw: "\<And>w g w'. W1 w \<Longrightarrow> switch_gateway P r (dr_old_slot r) (dr_generation r + 1) w = (Inr g, w') \<Longrightarrow> W2 w'"
    and bad: "\<And>w e w'. W1 w \<Longrightarrow> switch_gateway P r (dr_old_slot r) (dr_generation r + 1) w = (Inl e, w') \<Longrightarrow> W3 w'"
  shows "outcome_facts r W0 W0' W1 W2 W3 res (ch_world st)"
proof -
  from f obtain p ns n rest g t e where plan: "plan_after p = ns @ n # rest" and g: "switched_to P r g"
    and e: "opt_ok (\<lambda>x. dr_old_epoch r < x) e"
    and pt: "at_point (all_ok (plan_before p @ ns) @ [(n, False)]) (True, True, p, Some g, Some t, e) W1 st0"
    unfolding failed_after_def by blast
  let ?l = "(True, True, p, Some g, Some t, e)" and ?T = "all_ok (plan_before p @ ns) @ [(n, False)]"
  have loc: "ch_gateway st0 = Some g" "ch_paused st0 = p" "ch_epoch st0 = e" "ch_switched st0 = Some t"
    using pt by (simp_all add: at_point_def locals_of_def)
  let ?auth = "case e of None \<Rightarrow> dr_old_epoch r | Some e \<Rightarrow> if e = 0 then dr_old_epoch r else e"
  have gen: "rg_generation g = dr_generation r + 1" using g by (simp add: switched_to_def)
  have "hoare (at_point ?T ?l W1) (rollback_after_switch P r (dr_generation r + 1) ?auth p)
    (\<lambda>(ok, x) st. \<exists>a b c d e f g h. at_point (?T @ rollback_trace p a b c d e f g h) ?l (if b then W2 else W3) st
       \<and> (b \<longleftrightarrow> x \<noteq> None) \<and> opt_ok (\<lambda>y. rg_generation y = dr_generation r + 1 + 1) x
       \<and> (ok \<longleftrightarrow> a \<and> b \<and> c \<and> (c \<and> d \<or> e) \<and> f \<and> g \<and> (p \<longrightarrow> h))) (\<lambda>_. False)"
    by (rule rollback_hoare [OF ops]) (simp_all add: sw bad)
  note h = hoareD [OF this pt]
  obtain ok x st1 where rb: "rollback_after_switch P r (dr_generation r + 1) ?auth p st0 = (Inr (ok, x), st1)"
    and mk: "make_result P r (if ok then Rolled_back else Rollback_failed) (case x of None \<Rightarrow> Some g | Some b \<Rightarrow> Some b)
      e (Some t) st1 = (Inr res, st)"
    using m loc gen by (auto simp: handle_failure_def seq_def split: prod.splits sum.splits)
  from h have "\<exists>a b c d e f g h. at_point (?T @ rollback_trace p a b c d e f g h) ?l (if b then W2 else W3) st1
       \<and> (b \<longleftrightarrow> x \<noteq> None) \<and> opt_ok (\<lambda>y. rg_generation y = dr_generation r + 1 + 1) x
       \<and> (ok \<longleftrightarrow> a \<and> b \<and> c \<and> (c \<and> d \<or> e) \<and> f \<and> g \<and> (p \<longrightarrow> h))"
    unfolding rb holds.simps prod.case .
  then obtain a b c d e' f g' h' where
    pt1: "at_point (?T @ rollback_trace p a b c d e' f g' h') ?l (if b then W2 else W3) st1"
    and x: "b \<longleftrightarrow> x \<noteq> None" "opt_ok (\<lambda>y. rg_generation y = dr_generation r + 1 + 1) x"
    and ok: "ok \<longleftrightarrow> a \<and> b \<and> c \<and> (c \<and> d \<or> e') \<and> f \<and> g' \<and> (p \<longrightarrow> h')" by blast
  note res = make_result_Inr [OF mk]
  have same: "rollback_trace p a b c d e' f g' h' = rollback_trace p a b c (c \<and> d) e' f g' h'"
    by (simp add: rollback_trace_def opt_step_def)
  have tr: "step_trace (dl_steps res) = ?T @ rollback_trace p a b c (c \<and> d) e' f g' h'"
    and world: "(if b then W2 else W3) (ch_world st)"
    using pt1 res same by (simp_all add: at_point_def)
  have legal: "legal_trace (dl_outcome res) (step_trace (dl_steps res))"
    unfolding tr append.assoc by (rule legal_trace.rolled_back [OF plan]) (use res ok in auto)
  have mem: "(Rollback_gateway, v) \<in> set (step_trace (dl_steps res)) \<longleftrightarrow> v = b" for v
    unfolding tr using plan_before_mem(2) [of p] plan_after_split(1,2) [OF plan]
    by (auto simp: rollback_trace_def opt_step_def)
  have gens: "dl_generation res = Some (if b then dr_generation r + 2 else dr_generation r + 1)"
    using x gen res(4) by (auto split: option.splits)
  show ?thesis
    unfolding outcome_facts_def Let_def mem using legal world gens e res(5) by auto
qed

text \<open>The whole of \<open>deploy\<close>.\<close>

lemma deploy_outcome:
  assumes run: "deploy P r w = (Inr res, st)" and w: "W0 w" and epoch: "1 \<le> dr_old_epoch r"
    and ops: "ops_keep P W0" "ops_keep P W0'" "ops_keep P W1" "ops_keep P W2" "ops_keep P W3"
    and sw: "\<And>w g w'. W0 w \<Longrightarrow> switch_gateway P r (dr_candidate_slot r) (dr_generation r) w = (Inr g, w') \<Longrightarrow> W1 w'"
    and bad: "\<And>w e w'. W0 w \<Longrightarrow> switch_gateway P r (dr_candidate_slot r) (dr_generation r) w = (Inl e, w') \<Longrightarrow> W0' w'"
    and sw': "\<And>w g w'. W1 w \<Longrightarrow> switch_gateway P r (dr_old_slot r) (dr_generation r + 1) w = (Inr g, w') \<Longrightarrow> W2 w'"
    and bad': "\<And>w e w'. W1 w \<Longrightarrow> switch_gateway P r (dr_old_slot r) (dr_generation r + 1) w = (Inl e, w') \<Longrightarrow> W3 w'"
  shows "outcome_facts r W0 W0' W1 W2 W3 res (ch_world st)"
proof -
  have pre: "at_point [] (False, False, False, None, None, None) W0 (initial_chor w)"
    using w by (auto simp: initial_chor_def locals_of_def)
  let ?E = "\<lambda>st. failed_before W0 W0' st \<or> failed_after P r W1 st"
  let ?Q = "\<lambda>_ st. \<exists>p g t e. switched_to P r g \<and> dr_old_epoch r < e
     \<and> at_point (all_ok (plan_before p @ plan_after p)) (True, True, p, Some g, Some t, Some e) W1 st"
  have after: "hoare (\<lambda>st. \<exists>p g. at_point (all_ok (plan_before p)) (True, True, p, Some g, None, None) W1 st \<and> switched_to P r g)
      (after_switch P r) ?Q ?E"
  proof (intro hoare_ex)
    fix p g
    show "hoare (\<lambda>st. at_point (all_ok (plan_before p)) (True, True, p, Some g, None, None) W1 st \<and> switched_to P r g)
      (after_switch P r) ?Q ?E"
    proof (cases "switched_to P r g")
      case True
      from hoare_weaken [OF after_switch_hoare [OF ops(3) True], of p ?Q ?E] True show ?thesis
        by (auto simp: hoare_def)
    qed (simp add: hoare_def)
  qed
  have "hoare (at_point [] (False, False, False, None, None, None) W0) (seq (before_switch P r) (\<lambda>_. after_switch P r)) ?Q ?E"
  proof (rule hoare_seq [OF _ after])
    show "hoare (at_point [] (False, False, False, None, None, None) W0) (before_switch P r)
      (\<lambda>_ st. \<exists>p g. at_point (all_ok (plan_before p)) (True, True, p, Some g, None, None) W1 st \<and> switched_to P r g) ?E"
      by (rule hoare_weaken [OF before_switch_hoare [OF ops(1) ops_keepD(1) [OF ops(3)] ops_keepD(1) [OF ops(2)]]])
         (auto simp: sw bad)
  qed
  note h = hoareD [OF this pre]
  show ?thesis
  proof (rule outcome_cases [of "seq (before_switch P r) (\<lambda>_. after_switch P r) (initial_chor w)"])
    fix u st0 assume s: "seq (before_switch P r) (\<lambda>_. after_switch P r) (initial_chor w) = (Inr u, st0)"
    with h obtain p g t e where g: "switched_to P r g" "dr_old_epoch r < e"
      and pt: "at_point (all_ok (plan_before p @ plan_after p)) (True, True, p, Some g, Some t, Some e) W1 st0" by auto
    from run s have mk: "make_result P r Deployed (ch_gateway st0) (ch_epoch st0) (ch_switched st0) st0 = (Inr res, st)"
      by (simp add: deploy_def)
    note res = make_result_Inr [OF mk]
    have tr: "step_trace (dl_steps res) = all_ok (plan_before p @ plan_after p)" and world: "W1 (ch_world st)"
      and loc: "ch_gateway st0 = Some g" "ch_epoch st0 = Some e"
      using pt res by (simp_all add: at_point_def locals_of_def)
    have "Rollback_gateway \<notin> set (plan_before p @ plan_after p)" "Gateway_switch \<in> set (plan_before p)"
      by (cases p; simp add: plan_before_def plan_after_def)+
    then have "(Rollback_gateway, v) \<notin> set (step_trace (dl_steps res))" "(Gateway_switch, True) \<in> set (step_trace (dl_steps res))" for v
      unfolding tr by auto
    moreover have "legal_trace (dl_outcome res) (step_trace (dl_steps res))"
      unfolding tr res(2) by (rule legal_trace.deployed)
    moreover have "dl_generation res = Some (dr_generation r + 1)" "opt_ok (\<lambda>e. dr_old_epoch r < e) (dl_epoch res)"
      using res(4,5) loc g by (simp_all add: switched_to_def)
    ultimately show ?thesis
      using world unfolding outcome_facts_def Let_def by simp
  next
    fix st0 assume s: "seq (before_switch P r) (\<lambda>_. after_switch P r) (initial_chor w) = (Inl Step_failed_error, st0)"
    with run have m: "handle_failure P r st0 = (Inr res, st)" by (simp add: deploy_def)
    from h s have "?E st0" by simp
    then show ?thesis
    proof
      assume "failed_before W0 W0' st0" then show ?thesis by (rule abort_outcome [OF _ m ops(1,2)])
    next
      assume "failed_after P r W1 st0"
      then show ?thesis by (rule rollback_outcome [OF _ m ops(3,4,5) epoch]) (simp_all add: sw' bad')
    qed
  next
    fix e st0 assume "seq (before_switch P r) (\<lambda>_. after_switch P r) (initial_chor w) = (Inl (Escaped e), st0)"
    with run show ?thesis by (simp add: deploy_def)
  qed
qed

end
