(* ===== verification/Deployment_Routes.thy ===== *)
theory Deployment_Routes
  imports Deployment_Traces
begin

text \<open>
  The choreography together with a gateway switcher: the world is the gateway and everything else,
  the operations on the slots touch only the latter, and the contract of the switcher determines
  which include is active after each outcome.
\<close>

subsection \<open>Operations beside a gateway\<close>

definition beside :: "('o \<Rightarrow> 'a \<times> 'o) \<Rightarrow> 'g \<times> 'o \<Rightarrow> 'a \<times> ('g \<times> 'o)" where
  "beside f w = (case f (snd w) of (a, z) \<Rightarrow> (a, (fst w, z)))"

definition with_gateway ::
  "'o operations \<Rightarrow> (slot \<Rightarrow> string \<Rightarrow> int \<Rightarrow> 'g \<Rightarrow> (switch_error + routing) \<times> 'g) \<Rightarrow> ('g \<times> 'o) operations" where
  "with_gateway P switch = \<lparr>op_prechecks = beside (op_prechecks P), op_expand_migration = beside (op_expand_migration P),
     op_start_candidate = beside (op_start_candidate P), op_candidate_ready = beside (op_candidate_ready P),
     op_isolated_smoke = beside (op_isolated_smoke P), op_queue_compatible = beside (op_queue_compatible P),
     op_pause_admission = beside (op_pause_admission P), op_resume_admission = beside (op_resume_admission P),
     op_drain_old = beside (op_drain_old P), op_old_claims_zero = (\<lambda>n. beside (op_old_claims_zero P n)),
     op_restore_old = (\<lambda>n. beside (op_restore_old P n)), op_keep_standby = beside (op_keep_standby P),
     op_activate_candidate = (\<lambda>n. beside (op_activate_candidate P n)), op_stable_smoke = beside (op_stable_smoke P),
     op_soak = (\<lambda>n. beside (op_soak P n)), op_stop_old = beside (op_stop_old P), op_old_api_ready = beside (op_old_api_ready P),
     op_drain_candidate = beside (op_drain_candidate P), op_candidate_claims_zero = (\<lambda>n. beside (op_candidate_claims_zero P n)),
     op_fence_candidate = beside (op_fence_candidate P), op_activate_old = (\<lambda>n. beside (op_activate_old P n)),
     op_fail_lost = beside (op_fail_lost P),
     op_switch = (\<lambda>t sha n w. case switch t sha n (fst w) of (x, g) \<Rightarrow> (x, (g, snd w))),
     op_clock = beside (op_clock P), op_digest = op_digest P\<rparr>"

lemma beside_keeps [simp]: "keeps (\<lambda>w. I (fst w)) (beside f)"
  by (auto simp: keeps_def beside_def split: prod.splits)

lemma with_gateway_keeps [simp]: "ops_keep (with_gateway P switch) (\<lambda>w. I (fst w))"
  by (simp add: ops_keep_def with_gateway_def)

lemma with_gateway_digest [simp]: "op_digest (with_gateway P switch) = op_digest P"
  by (simp add: with_gateway_def)

lemma with_gateway_switch:
  assumes "switch_gateway (with_gateway P switch) r t n w = (res, w')"
  obtains x where "switch t (op_digest P (dr_binding r)) n (fst w) = (x, fst w')"
    "(\<exists>g. res = Inr g) \<Longrightarrow> \<exists>g. x = Inr g"
    "\<And>e. res = Inl e \<Longrightarrow> (\<exists>e. x = Inl e) \<or> (\<exists>g. x = Inr g \<and> (rg_slot g \<noteq> t \<or> rg_generation g \<noteq> n + 1
        \<or> rg_binding_sha g \<noteq> op_digest P (dr_binding r)))"
proof -
  obtain x g where sw: "switch t (op_digest P (dr_binding r)) n (fst w) = (x, g)" by force
  with assms have "fst w' = g"
    by (auto simp: switch_gateway_def with_gateway_def split: sum.splits switch_error.splits)
  with sw assms show thesis
    by (intro that [of x])
       (auto simp: switch_gateway_def with_gateway_def split: sum.splits switch_error.splits if_splits)
qed

subsection \<open>The active include\<close>

definition routed_by :: "('g \<Rightarrow> string option) \<Rightarrow> string option \<Rightarrow> 'g \<times> 'o \<Rightarrow> bool" where
  "routed_by active i w \<longleftrightarrow> active (fst w) = i"

lemma routed_by_keeps [simp]: "ops_keep (with_gateway P switch) (routed_by active i)"
  using with_gateway_keeps [of P switch "\<lambda>g. active g = i"] by (simp add: routed_by_def [abs_def])

context gateway_switcher
begin

lemma deploy_include:
  assumes run: "deploy (with_gateway P switch) r w = (Inr res, st)" and epoch: "1 \<le> dr_old_epoch r"
    and clean: "\<And>t n g e g'. 1 \<le> n \<Longrightarrow> switch t (op_digest P (dr_binding r)) n g = (Inl e, g') \<Longrightarrow> clean_failure e"
    and gen: "1 \<le> dr_generation r"
  shows "outcome_facts r (routed_by active (active (fst w))) (routed_by active (active (fst w)))
    (routed_by active (Some (include_text (dr_candidate_slot r) (dr_generation r + 1) (op_digest P (dr_binding r)))))
    (routed_by active (Some (include_text (dr_old_slot r) (dr_generation r + 2) (op_digest P (dr_binding r)))))
    (routed_by active (Some (include_text (dr_candidate_slot r) (dr_generation r + 1) (op_digest P (dr_binding r)))))
    res (ch_world st)"
proof (rule deploy_outcome [OF run])
  let ?sha = "op_digest P (dr_binding r)" and ?G = "with_gateway P switch"
  have ok: "routed_by active (Some (include_text t (n + 1) ?sha)) w'"
    if "switch_gateway ?G r t n w = (Inr g, w')" for t n w g w'
    by (rule with_gateway_switch [OF that]) (use switched in \<open>auto simp: routed_by_def\<close>)
  have bad: "active (fst w') = active (fst w)" if m: "switch_gateway ?G r t n w = (Inl e, w')" and n: "1 \<le> n" for t n w e w'
  proof (rule with_gateway_switch [OF m])
    fix x assume x: "switch t ?sha n (fst w) = (x, fst w')"
      and i: "\<And>e'. (Inl e :: action_error + routing) = Inl e' \<Longrightarrow> (\<exists>e. x = Inl e) \<or> (\<exists>g. x = Inr g \<and> (rg_slot g \<noteq> t \<or> rg_generation g \<noteq> n + 1
        \<or> rg_binding_sha g \<noteq> ?sha))"
    from i [OF refl] x switched obtain e' where "x = Inl e'" by blast
    with x clean [OF n] restored show ?thesis by blast
  qed
  show "routed_by active (active (fst w)) w" by (simp add: routed_by_def)
  show "1 \<le> dr_old_epoch r" by (rule epoch)
  show "routed_by active (Some (include_text (dr_candidate_slot r) (dr_generation r + 1) ?sha)) w'"
    if "switch_gateway ?G r (dr_candidate_slot r) (dr_generation r) wa = (Inr g, w')" for wa g w'
    by (rule ok [OF that])
  show "routed_by active (Some (include_text (dr_old_slot r) (dr_generation r + 2) ?sha)) w'"
    if "switch_gateway ?G r (dr_old_slot r) (dr_generation r + 1) wa = (Inr g, w')" for wa g w'
    using ok [OF that] by (simp add: add.assoc)
  show "routed_by active (active (fst w)) w'" if "routed_by active (active (fst w)) wa"
    "switch_gateway ?G r (dr_candidate_slot r) (dr_generation r) wa = (Inl e, w')" for wa e w'
    using bad [OF that(2) gen] that(1) by (simp add: routed_by_def)
  show "routed_by active (Some (include_text (dr_candidate_slot r) (dr_generation r + 1) ?sha)) w'"
    if "routed_by active (Some (include_text (dr_candidate_slot r) (dr_generation r + 1) ?sha)) wa"
      "switch_gateway ?G r (dr_old_slot r) (dr_generation r + 1) wa = (Inl e, w')" for wa e w'
    using bad [OF that(2)] gen that(1) by (simp add: routed_by_def)
qed simp_all

end

subsection \<open>Traces by outcome\<close>

lemma legal_trace_gateway:
  assumes "legal_trace out tr"
  shows "case out of Deployed \<Rightarrow> (Gateway_switch, True) \<in> set tr \<and> (\<forall>b. (Rollback_gateway, b) \<notin> set tr)
    | Rolled_back \<Rightarrow> (Rollback_gateway, True) \<in> set tr
    | Rollback_failed \<Rightarrow> \<exists>b. (Rollback_gateway, b) \<in> set tr
    | _ \<Rightarrow> (Gateway_switch, True) \<notin> set tr \<and> (\<forall>b. (Rollback_gateway, b) \<notin> set tr)"
  using assms
proof (cases rule: legal_trace.cases)
  case (deployed p)
  have "Rollback_gateway \<notin> set (plan_before p @ plan_after p)" by (cases p; simp add: plan_before_def plan_after_def)
  with deployed plan_before_mem [of p] show ?thesis by auto
next
  case (aborted p ns n rest a b c)
  have "fst x \<in> {Abort_old_workers_active, Abort_candidate_standby, Resume_admission}"
    if "x \<in> set (abort_trace (Old_workers_draining \<in> set ns) (Start_candidate_standby \<in> set ns) (Pause_admission \<in> set ns) a b c)" for x
    using that by (auto simp: abort_trace_def opt_step_def split: if_splits)
  then have "(Gateway_switch, True) \<notin> set tr \<and> (Rollback_gateway, v) \<notin> set tr" for v
    using plan_before_split [OF aborted(2)] unfolding aborted(1) by fastforce
  moreover have "out \<in> {Aborted, Abort_failed}" using aborted(3) by (auto split: if_splits)
  ultimately show ?thesis by auto
next
  case (rolled_back p ns n rest a b c d e f g h)
  have "(Rollback_gateway, b) \<in> set tr" unfolding rolled_back(1) by (simp add: rollback_trace_def)
  with rolled_back show ?thesis by (auto split: if_splits)
qed

end
