(* ===== verification/Deployment_Properties.thy ===== *)
theory Deployment_Properties
  imports Deployment_Routes "HOL-Library.Multiset"
begin

text \<open>
  Properties of deployments, of the gateway switch and of the retention deadline, with a concrete
  environment: operations that all succeed, a clock that advances by a second at each reading, and
  an nginx whose files and probes behave.
\<close>

subsection \<open>A concrete environment\<close>

text \<open>The world is the reading of the clock, in seconds.\<close>

definition demo_sha :: string where "demo_sha = replicate 64 (CHR ''a'')"

definition demo_binding :: binding where
  "demo_binding = \<lparr>bd_release_id = ''r2'', bd_image = ''registry.example.org/pa'' @ digest_marker @ demo_sha,
     bd_manifest_sha = demo_sha, bd_migration_sha = demo_sha, bd_schema_revision = ''0021''\<rparr>"

definition demo_deploy_request :: deploy_request where
  "demo_deploy_request = \<lparr>dr_binding = demo_binding, dr_old_slot = Blue, dr_candidate_slot = Green, dr_old_epoch = 3,
     dr_generation = 7, dr_drain_timeout = 150, dr_soak = 1800, dr_pause_authorized = True\<rparr>"

definition tick :: "'a \<Rightarrow> int \<Rightarrow> 'a \<times> int" where "tick a n = (a, n + 1)"

definition demo_ops :: "bool \<Rightarrow> (action_error + unit) \<Rightarrow> int operations" where
  "demo_ops compatible smoke = \<lparr>op_prechecks = tick (Inr ()), op_expand_migration = tick (Inr ()),
     op_start_candidate = tick (Inr ()), op_candidate_ready = tick (Inr ()), op_isolated_smoke = tick (Inr ()),
     op_queue_compatible = tick (Inr compatible), op_pause_admission = tick (Inr ()), op_resume_admission = tick (Inr ()),
     op_drain_old = tick (Inr ()), op_old_claims_zero = (\<lambda>_. tick (Inr True)), op_restore_old = (\<lambda>_. tick (Inr ())),
     op_keep_standby = tick (Inr ()), op_activate_candidate = (\<lambda>e. tick (Inr (e + 1))), op_stable_smoke = tick smoke,
     op_soak = (\<lambda>_. tick (Inr ())), op_stop_old = tick (Inr ()), op_old_api_ready = tick (Inr ()),
     op_drain_candidate = tick (Inr ()), op_candidate_claims_zero = (\<lambda>_. tick (Inr True)), op_fence_candidate = tick (Inr ()),
     op_activate_old = (\<lambda>e. tick (Inr (e + 1))), op_fail_lost = tick (Inr ()),
     op_switch = (\<lambda>t sha n. tick (Inr \<lparr>rg_generation = n + 1, rg_slot = t, rg_binding_sha = sha, rg_include_sha = sha\<rparr>)),
     op_clock = (\<lambda>n. (Aware (seconds n), n + 1)), op_digest = (\<lambda>_. demo_sha)\<rparr>"

definition demo_deployed :: "(chor_error + deploy_result) \<times> int chor" where
  "demo_deployed = deploy (demo_ops False (Inr ())) demo_deploy_request 0"

definition demo_rolled_back :: "(chor_error + deploy_result) \<times> int chor" where
  "demo_rolled_back = deploy (demo_ops False (Inl (Action_error ''smoke_failed''))) demo_deploy_request 0"

definition summary :: "(chor_error + deploy_result) \<times> 'w chor \<Rightarrow> (chor_error + outcome \<times> (step_name \<times> bool) list)" where
  "summary x = map_sum id (\<lambda>res. (dl_outcome res, step_trace (dl_steps res))) (fst x)"

lemma summary_Inr:
  assumes "summary x = Inr (out, tr)"
  obtains res st where "x = (Inr res, st)" "dl_outcome res = out" "step_trace (dl_steps res) = tr"
  using assms by (cases x) (auto simp: summary_def map_sum_def split: sum.splits)

lemma demo_deployed_summary:
  "summary demo_deployed = Inr (Deployed, all_ok (plan_before True @ plan_after True))"
  by code_simp

lemma demo_rolled_back_summary:
  "summary demo_rolled_back = Inr (Rolled_back, all_ok (plan_before True @ [Candidate_activation]) @ [(Stable_origin_smoke, False)]
     @ rollback_trace True True True True True True True True True)"
  by code_simp

subsection \<open>Traces\<close>

text \<open>
  C24. Whatever the operations do, a deployment that returns a result has recorded one of the traces
  that its outcome admits. Deployed: the whole plan in order, every step successful. Aborted or abort
  failed: the plan up to a failing step at or before the gateway switch, then the recovery of exactly what
  had been started (old workers, candidate, admission), aborted only if all of it succeeded. Rolled back
  or rollback failed: the whole plan up to and including the switch, then the plan up to a later failing
  step, then old API readiness, the gateway, draining the candidate, waiting for its claims if the draining
  succeeded, fencing it unless that wait succeeded, the old activation, failing lost attempts, and resuming
  admission if it was paused; rolled back only if all of these steps succeeded, where a failed wait is made
  good by a successful fence.
\<close>

theorem deployment_trace_is_legal:
  assumes "deploy P r w = (Inr res, st)" and "deploy_request_ok r"
  shows "legal_trace (dl_outcome res) (step_trace (dl_steps res))"
proof -
  have keep: "ops_keep P (\<lambda>_. True)" by (simp add: ops_keep_def keeps_def)
  have "outcome_facts r (\<lambda>_. True) (\<lambda>_. True) (\<lambda>_. True) (\<lambda>_. True) (\<lambda>_. True) res (ch_world st)"
    by (rule deploy_outcome [OF assms(1)]) (use assms(2) keep in \<open>simp_all add: deploy_request_ok_def\<close>)
  then show ?thesis by (simp add: outcome_facts_def Let_def)
qed

lemma demo_deploy_request_ok: "deploy_request_ok demo_deploy_request"
  by code_simp

theorem deployment_trace_is_legal_witness:
  "legal_trace Rolled_back (all_ok (plan_before True @ [Candidate_activation]) @ [(Stable_origin_smoke, False)]
     @ rollback_trace True True True True True True True True True)"
proof (rule summary_Inr [OF demo_rolled_back_summary])
  fix res st assume r: "demo_rolled_back = (Inr res, st)" "dl_outcome res = Rolled_back"
    "step_trace (dl_steps res) = all_ok (plan_before True @ [Candidate_activation]) @ [(Stable_origin_smoke, False)]
     @ rollback_trace True True True True True True True True True"
  from deployment_trace_is_legal [OF r(1) [unfolded demo_rolled_back_def] demo_deploy_request_ok] r(2,3)
  show ?thesis by simp
qed

text \<open>Where a step of the plan can occur in a legal trace.\<close>

lemma plan_before_names: "Candidate_activation \<notin> set (plan_before p)" "Stop_old_compute \<notin> set (plan_before p)"
  by (cases p; simp add: plan_before_def)+

lemma fst_all_ok [simp]: "fst ` set (all_ok ns) = set ns"
  by force

lemma abort_trace_names: "m \<in> {Candidate_activation, Stop_old_compute} \<Longrightarrow> m \<notin> fst ` set (abort_trace x y z a b c)"
  by (auto simp: abort_trace_def opt_step_def split: if_splits)

lemma rollback_trace_names: "m \<in> {Candidate_activation, Stop_old_compute} \<Longrightarrow> m \<notin> fst ` set (rollback_trace p a b c d e f g h)"
  by (auto simp: rollback_trace_def opt_step_def split: if_splits)

definition after_gate :: "step_name \<Rightarrow> step_name list" where
  "after_gate n = (if n = Stop_old_compute then [Candidate_activation, Stable_origin_smoke, Soak] else [])"

lemma plan_after_split_at:
  assumes "plan_after p = us @ m # vs" and "m \<in> {Candidate_activation, Stop_old_compute}"
  shows "us = after_gate m"
proof -
  have "distinct (plan_after p)" by (cases p; simp add: plan_after_def)
  then have "takeWhile (\<lambda>x. x \<noteq> m) (plan_after p) = us" unfolding assms(1) by (induction us) auto
  moreover have "takeWhile (\<lambda>x. x \<noteq> m) (plan_after p) = after_gate m"
    using assms(2) by (cases p) (auto simp: plan_after_def after_gate_def)
  ultimately show ?thesis by simp
qed

lemma plan_after_gate:
  assumes plan: "plan_after p = ns @ n # rest" and m: "m \<in> {Candidate_activation, Stop_old_compute}" and mem: "m \<in> set (ns @ [n])"
  shows "(ns = after_gate m \<and> n = m) \<or> (\<exists>ms. ns = after_gate m @ m # ms \<and> n \<noteq> m)"
proof (cases "m \<in> set ns")
  case True
  then obtain us vs where ns: "ns = us @ m # vs" by (meson split_list)
  have "us = after_gate m" by (rule plan_after_split_at [OF _ m, of p us "vs @ n # rest"]) (simp only: plan ns append.simps append.assoc)
  moreover have "n \<noteq> m"
  proof -
    have "distinct (plan_after p)" by (cases p; simp add: plan_after_def)
    then show ?thesis unfolding plan ns by (simp only: distinct_append distinct.simps set_append list.set) blast
  qed
  ultimately show ?thesis unfolding ns by blast
next
  case False
  with mem have n: "n = m" by simp
  have "ns = after_gate m" by (rule plan_after_split_at [OF _ m, of p ns rest]) (simp only: plan n)
  with n show ?thesis by simp
qed

lemma legal_trace_gate:
  assumes "legal_trace out tr" and m: "m \<in> {Candidate_activation, Stop_old_compute}" and mem: "(m, b) \<in> set tr"
  shows "\<exists>p ys. tr = all_ok (plan_before p @ after_gate m) @ (m, b) # ys"
  using assms(1)
proof (cases rule: legal_trace.cases)
  case (deployed p)
  with m mem plan_before_names [of p] show ?thesis
    by (intro exI [of _ p]) (auto simp: plan_after_def after_gate_def)
next
  case (aborted p ns n rest a b' c)
  then have "m \<notin> set (ns @ [n])" using m plan_before_names [of p] by auto
  moreover have "m \<notin> fst ` set (abort_trace (Old_workers_draining \<in> set ns)
      (Start_candidate_standby \<in> set ns) (Pause_admission \<in> set ns) a b' c)"
    by (rule abort_trace_names [OF m])
  ultimately have "m \<notin> fst ` set tr" unfolding aborted(1) set_append image_Un fst_all_ok by simp
  with mem have False by force
  then show ?thesis ..
next
  case (rolled_back p ns n rest a b' c d e f g h)
  let ?R = "rollback_trace p a b' c d e f g h"
  have out: "m \<notin> fst ` set ?R" by (rule rollback_trace_names [OF m])
  have "m \<notin> set (plan_before p)" using m plan_before_names [of p] by auto
  with out have "(m, b) \<notin> set (all_ok (plan_before p))" "(m, b) \<notin> set ?R" by force+
  with mem have here: "(m, b) \<in> set (all_ok ns @ [(n, False)])" unfolding rolled_back(1) by auto
  then have "m \<in> set (ns @ [n])" by auto
  from plan_after_gate [OF rolled_back(2) m this] show ?thesis
  proof
    assume a: "ns = after_gate m \<and> n = m"
    have "m \<notin> set (after_gate m)" using m by (auto simp: after_gate_def)
    with a here have "\<not> b" by auto
    with a show ?thesis unfolding rolled_back(1) by (intro exI [of _ p]) auto
  next
    assume "\<exists>ms. ns = after_gate m @ m # ms \<and> n \<noteq> m"
    then obtain ms where a: "ns = after_gate m @ m # ms" "n \<noteq> m" by blast
    with here have b by auto
    with a show ?thesis unfolding rolled_back(1) by (intro exI [of _ p]) auto
  qed
qed

lemma resumed_after:
  assumes "(m, True) \<in> set (all_ok ns)" and "x \<in> set zs"
  shows "\<exists>xs ys. all_ok ns @ zs = xs @ (m, True) # ys \<and> x \<in> set ys"
proof -
  obtain xs ys where "all_ok ns = xs @ (m, True) # ys" using assms(1) by (meson split_list)
  with assms(2) show ?thesis by (intro exI [of _ xs] exI [of _ "ys @ zs"]) simp
qed

lemma legal_trace_resumes:
  assumes "legal_trace out tr" and "(Pause_admission, True) \<in> set tr"
  shows "\<exists>b xs ys. tr = xs @ (Pause_admission, True) # ys \<and> (Resume_admission, b) \<in> set ys"
  using assms(1)
proof (cases rule: legal_trace.cases)
  case (deployed p)
  with assms(2) have p by (cases p) (auto simp: plan_before_def plan_after_def)
  then have "(Pause_admission, True) \<in> set (all_ok (plan_before p))" "(Resume_admission, True) \<in> set (all_ok (plan_after p))"
    by (simp_all add: plan_before_def plan_after_def)
  from resumed_after [OF this] show ?thesis unfolding deployed all_ok_simps(3) by blast
next
  case (aborted p ns n rest a b c)
  from assms(2) have "Pause_admission \<in> set ns"
    unfolding aborted(1) by (auto simp: abort_trace_def opt_step_def split: if_splits)
  then have "(Pause_admission, True) \<in> set (all_ok ns)" "(Resume_admission, c) \<in> set ([(n, False)] @ abort_trace
      (Old_workers_draining \<in> set ns) (Start_candidate_standby \<in> set ns) (Pause_admission \<in> set ns) a b c)"
    by (auto simp: abort_trace_def opt_step_def)
  from resumed_after [OF this] show ?thesis unfolding aborted(1) by blast
next
  case (rolled_back p ns n rest a b c d e f g h)
  have "Pause_admission \<notin> set (plan_after p)" by (cases p; simp add: plan_after_def)
  then have "Pause_admission \<notin> set ns" unfolding rolled_back(2) by auto
  with assms(2) have "Pause_admission \<in> set (plan_before p)"
    unfolding rolled_back(1) by (auto simp: rollback_trace_def opt_step_def split: if_splits)
  then have p by (cases p) (auto simp: plan_before_def)
  then have "(Pause_admission, True) \<in> set (all_ok (plan_before p @ ns))"
    "(Resume_admission, h) \<in> set ([(n, False)] @ rollback_trace p a b c d e f g h)"
    using \<open>Pause_admission \<in> set (plan_before p)\<close> by (auto simp: rollback_trace_def opt_step_def)
  from resumed_after [OF this] show ?thesis unfolding rolled_back(1) by blast
qed

text \<open>
  The gates of a deployment that returns a result, whichever its outcome (an exception that is not
  an operation's failure escapes without a result and without recovery): candidate workers are activated
  only as the next step after all prechecks, the migration, readiness, smoke, the drain of the old claims
  and the gateway switch have succeeded; the old slot is stopped only after activation, the stable-origin
  smoke and the soak succeeded as well; and if admission was paused, a later step of the trace is the
  attempt to resume it.
\<close>

theorem deployment_gates:
  assumes "deploy P r w = (Inr res, st)" and "deploy_request_ok r"
  defines "T \<equiv> step_trace (dl_steps res)"
  shows "((Candidate_activation, b) \<in> set T \<longrightarrow> (\<exists>p ys. T = all_ok (plan_before p) @ (Candidate_activation, b) # ys))
    \<and> ((Stop_old_compute, b) \<in> set T \<longrightarrow>
         (\<exists>p ys. T = all_ok (plan_before p @ [Candidate_activation, Stable_origin_smoke, Soak]) @ (Stop_old_compute, b) # ys))
    \<and> ((Pause_admission, True) \<in> set T \<longrightarrow>
         (\<exists>c xs ys. T = xs @ (Pause_admission, True) # ys \<and> (Resume_admission, c) \<in> set ys))"
proof -
  have keep: "ops_keep P (\<lambda>_. True)" by (simp add: ops_keep_def keeps_def)
  have "outcome_facts r (\<lambda>_. True) (\<lambda>_. True) (\<lambda>_. True) (\<lambda>_. True) (\<lambda>_. True) res (ch_world st)"
    by (rule deploy_outcome [OF assms(1)]) (use assms(2) keep in \<open>simp_all add: deploy_request_ok_def\<close>)
  then have legal: "legal_trace (dl_outcome res) T" by (simp add: outcome_facts_def Let_def T_def)
  show ?thesis
    using legal_trace_gate [OF legal, of Candidate_activation b] legal_trace_gate [OF legal, of Stop_old_compute b]
      legal_trace_resumes [OF legal] by (simp add: after_gate_def)
qed

theorem deployment_gates_witness:
  "\<exists>p ys. all_ok (plan_before True @ plan_after True)
     = all_ok (plan_before p @ [Candidate_activation, Stable_origin_smoke, Soak]) @ (Stop_old_compute, True) # ys"
proof (rule summary_Inr [OF demo_deployed_summary])
  fix res st assume r: "demo_deployed = (Inr res, st)" "step_trace (dl_steps res) = all_ok (plan_before True @ plan_after True)"
  have "(Stop_old_compute, True) \<in> set (step_trace (dl_steps res))" unfolding r(2) by (simp add: plan_after_def)
  with deployment_gates [OF r(1) [unfolded demo_deployed_def] demo_deploy_request_ok, of True]
  show ?thesis unfolding r(2) by blast
qed

subsection \<open>Routing\<close>

text \<open>
  C25. The choreography over the real gateway switch, with a file system and a reload that do not
  fail (validation, probes and every other operation may): a deployed candidate is what the active
  include routes to, at the next generation; a rolled-back deployment routes to the old slot, two
  generations on; an abort leaves the include as it was; and after a failed rollback the include is
  one of the two, and the reported generation says which.
\<close>

theorem deployment_routes:
  assumes "deploy (with_gateway P (switch_include E)) r w = (Inr res, st)"
    and "deploy_request_ok r" and "hex64_ok (op_digest P (dr_binding r))" and "reliable_files E"
  shows "let sha = op_digest P (dr_binding r);
           new = (Some (include_text (dr_candidate_slot r) (dr_generation r + 1) sha), Some (dr_generation r + 1));
           returned = (Some (include_text (dr_old_slot r) (dr_generation r + 2) sha), Some (dr_generation r + 2));
           final = (gw_include (fst (ch_world st)), dl_generation res)
         in case dl_outcome res of
              Deployed \<Rightarrow> final = new
            | Rolled_back \<Rightarrow> final = returned
            | Rollback_failed \<Rightarrow> final = new \<or> final = returned
            | Aborted \<Rightarrow> final = (gw_include (fst w), None)
            | Abort_failed \<Rightarrow> final = (gw_include (fst w), None)"
proof -
  have ok: "1 \<le> dr_old_epoch r" "1 \<le> dr_generation r" using assms(2) by (simp_all add: deploy_request_ok_def)
  have clean: "clean_failure e"
    if "1 \<le> n" "switch_include E t (op_digest P (dr_binding r)) n g = (Inl e, g')" for t n g e g'
    by (rule switch_reliable [OF assms(4,3) _ that(2)]) (use that(1) in simp)
  let ?sha = "op_digest P (dr_binding r)" and ?S = "set (step_trace (dl_steps res))"
  let ?new = "Some (include_text (dr_candidate_slot r) (dr_generation r + 1) ?sha)"
    and ?returned = "Some (include_text (dr_old_slot r) (dr_generation r + 2) ?sha)"
  have f: "outcome_facts r (routed_by gw_include (gw_include (fst w))) (routed_by gw_include (gw_include (fst w)))
      (routed_by gw_include ?new) (routed_by gw_include ?returned) (routed_by gw_include ?new) res (ch_world st)"
    by (rule nginx.deploy_include [OF assms(1) ok(1) _ ok(2)]) (rule clean)
  then have legal: "legal_trace (dl_outcome res) (step_trace (dl_steps res))"
    by (simp add: outcome_facts_def Let_def)
  from f have cases: "if (Rollback_gateway, True) \<in> ?S then gw_include (fst (ch_world st)) = ?returned \<and> dl_generation res = Some (dr_generation r + 2)
      else if (Rollback_gateway, False) \<in> ?S then gw_include (fst (ch_world st)) = ?new \<and> dl_generation res = Some (dr_generation r + 1)
      else if (Gateway_switch, True) \<in> ?S then gw_include (fst (ch_world st)) = ?new \<and> dl_generation res = Some (dr_generation r + 1)
      else gw_include (fst (ch_world st)) = gw_include (fst w) \<and> dl_generation res = None"
    by (simp add: outcome_facts_def Let_def routed_by_def split: if_splits)
  show ?thesis
  proof (cases "dl_outcome res")
    case Rollback_failed
    with legal_trace_gateway [OF legal] obtain b where "(Rollback_gateway, b) \<in> ?S" by auto
    with cases Rollback_failed show ?thesis by (cases b) (auto split: if_splits)
  qed (use cases legal_trace_gateway [OF legal] in simp_all)
qed

text \<open>A concrete gateway: files behave, and the probes observe the slots in the order of a script.\<close>

definition demo_nginx :: "(slot \<times> int) list gateway_env" where
  "demo_nginx = \<lparr>ge_write = (\<lambda>_ c. (True, c)), ge_replace = (\<lambda>_ c. (True, c)), ge_fsync = (\<lambda>c. (True, c)),
     ge_validate = (\<lambda>_ c. (True, c)), ge_reload = (\<lambda>c. (True, c)),
     ge_observe = (\<lambda>c. case c of [] \<Rightarrow> (None, [])
       | (s, g) # rest \<Rightarrow> (Some (map (\<lambda>x. \<lparr>rt_surface = x, rt_generation = g, rt_slot = s\<rparr>) all_surfaces), rest)),
     ge_sha = (\<lambda>_. demo_sha)\<rparr>"

definition demo_gateway :: "(slot \<times> int) list \<Rightarrow> (slot \<times> int) list gateway_state" where
  "demo_gateway script = \<lparr>gw_include = Some (include_text Blue 7 demo_sha), gw_env = script\<rparr>"

lemma demo_nginx_reliable: "reliable_files demo_nginx"
  by (simp add: reliable_files_def demo_nginx_def)

definition demo_routed :: "(chor_error + deploy_result) \<times> ((slot \<times> int) list gateway_state \<times> int) chor" where
  "demo_routed = deploy (with_gateway (demo_ops True (Inl (Action_error ''smoke_failed''))) (switch_include demo_nginx))
     demo_deploy_request (demo_gateway [(Green, 8), (Blue, 9)], 0)"

text \<open>The run is evaluated a step at a time, with the contents of the include kept folded.\<close>

abbreviation demo_gate_ops :: "'c gateway_env \<Rightarrow> ('c gateway_state \<times> int) operations" where
  "demo_gate_ops E \<equiv> with_gateway (demo_ops True (Inl (Action_error ''smoke_failed''))) (switch_include E)"

fun demo_code :: "action_error \<Rightarrow> string" where
  "demo_code (Action_error e) = e"
| "demo_code Other_exception = ''deployment_operation_failed''"

definition demo_step :: "step_name \<Rightarrow> int \<Rightarrow> int \<Rightarrow> string option \<Rightarrow> step_record" where
  "demo_step name n m e = \<lparr>sr_name = name, sr_status = (if e = None then Step_succeeded else Step_failed), sr_binding_sha = demo_sha,
     sr_release_id = ''r2'', sr_started = seconds n, sr_completed = seconds m, sr_error = e\<rparr>"

lemma demo_step_checks: "hex64_ok demo_sha" "length_between 1 128 ''r2''" "mixed_label ''r2''"
  "length_between 1 128 ''smoke_failed''" "lower_label ''smoke_failed''"
  "length_between 1 128 ''deployment_operation_failed''" "lower_label ''deployment_operation_failed''"
  by code_simp+

lemma demo_step_ok: "n \<le> m \<Longrightarrow> e \<in> {None, Some ''smoke_failed'', Some ''deployment_operation_failed''} \<Longrightarrow> step_record_ok (demo_step name n m e)"
  by (auto simp: step_record_ok_def demo_step_def demo_step_checks seconds_def simp del: mixed_label.simps lower_label.simps)

lemma demo_run_step:
  assumes "ch_world st = (g, n)" and "act (g, n + 1) = (x, (g', m))" and "n \<le> m" and "\<And>e. x = Inl e \<Longrightarrow> e \<in> {Action_error ''smoke_failed'', Other_exception}"
  shows "run_step (demo_gate_ops E) demo_deploy_request name act st
    = (case x of Inl _ \<Rightarrow> Inl Step_failed_error | Inr a \<Rightarrow> Inr a, st\<lparr>ch_world := (g', m + 1),
        ch_steps := ch_steps st @ [demo_step name n m (case x of Inl e \<Rightarrow> Some (demo_code e) | Inr _ \<Rightarrow> None)]\<rparr>)"
proof -
  have clock: "op_clock (demo_gate_ops E) (h, m) = (Aware (seconds m), (h, m + 1))" for h m
    by (simp add: with_gateway_def demo_ops_def beside_def)
  have sha: "op_digest (demo_ops b y) z = demo_sha"
    "bd_release_id (dr_binding demo_deploy_request) = ''r2''"
    for b y z by (simp_all add: demo_ops_def demo_deploy_request_def demo_binding_def)
  note eval = run_step_def seq_def chor_now_def assms(1,2) clock append_step_def Let_def sha ret_def
  show ?thesis
  proof (cases x)
    case (Inl e)
    with assms(4) [OF Inl] demo_step_ok [OF assms(3), of "Some (demo_code e)" name] show ?thesis
      by (cases e) (auto simp: eval demo_step_def)
  next
    case (Inr a)
    then show ?thesis using demo_step_ok [OF assms(3), of None name] by (simp add: eval) (simp add: demo_step_def)
  qed
qed

lemma demo_plain_step:
  assumes "ch_world st = (g, n)" and "act = beside (tick (Inr a))"
  shows "run_step (demo_gate_ops E) demo_deploy_request name act st
    = (Inr a, st\<lparr>ch_world := (g, n + 3), ch_steps := ch_steps st @ [demo_step name n (n + 2) None]\<rparr>)"
  by (subst demo_run_step [OF assms(1), where x = "Inr a" and g' = g and m = "n + 2"]) (simp_all add: assms(2) beside_def tick_def)

lemma demo_include_switch:
  assumes "gw_include g = Some old" and "gw_env g = (t, n + 1) # rest" and "0 \<le> n"
  shows "switch_include demo_nginx t demo_sha n g = (Inr \<lparr>rg_generation = n + 1, rg_slot = t, rg_binding_sha = demo_sha, rg_include_sha = demo_sha\<rparr>,
     \<lparr>gw_include = Some (include_text t (n + 1) demo_sha), gw_env = rest\<rparr>)"
proof -
  have "verify_routes (map (\<lambda>x. \<lparr>rt_surface = x, rt_generation = n + 1, rt_slot = t\<rparr>) all_surfaces) t (n + 1) = Inr ()"
    by (simp add: verify_routes_def all_surfaces_def)
  then show ?thesis
    using assms by (cases g) (simp add: switch_include_def demo_nginx_def env_call_def replace_include_def verify_reload_def
      render_include_def demo_step_checks(1))
qed

lemma demo_switch_step:
  assumes "ch_world st = (g, m)" and "gw_include g = Some old" and "gw_env g = (t, n + 1) # rest" and "0 \<le> n"
  shows "run_step (demo_gate_ops demo_nginx) demo_deploy_request name (switch_gateway (demo_gate_ops demo_nginx) demo_deploy_request t n) st
    = (Inr \<lparr>rg_generation = n + 1, rg_slot = t, rg_binding_sha = demo_sha, rg_include_sha = demo_sha\<rparr>,
       st\<lparr>ch_world := (\<lparr>gw_include = Some (include_text t (n + 1) demo_sha), gw_env = rest\<rparr>, m + 2),
          ch_steps := ch_steps st @ [demo_step name m (m + 1) None]\<rparr>)"
proof -
  let ?g = "\<lparr>rg_generation = n + 1, rg_slot = t, rg_binding_sha = demo_sha, rg_include_sha = demo_sha\<rparr>"
  have sha: "op_digest (demo_ops b y) z = demo_sha" for b y z by (simp add: demo_ops_def)
  have "switch_gateway (demo_gate_ops demo_nginx) demo_deploy_request t n (g, m + 1)
    = (Inr ?g, (\<lparr>gw_include = Some (include_text t (n + 1) demo_sha), gw_env = rest\<rparr>, m + 1))"
    using demo_include_switch [OF assms(2,3,4)] by (simp add: switch_gateway_def sha) (simp add: with_gateway_def sha)
  from demo_run_step [where act = "switch_gateway (demo_gate_ops demo_nginx) demo_deploy_request t n", OF assms(1) this] show ?thesis by simp
qed

lemma demo_guarded_steps:
  "require_queue_policy (demo_gate_ops E) demo_deploy_request = beside (tick (Inr True))"
  "require_old_claims_zero (demo_gate_ops E) demo_deploy_request = beside (tick (Inr ()))"
  "activate_candidate (demo_gate_ops E) demo_deploy_request = beside (tick (Inr 4))"
  "wait_candidate (demo_gate_ops E) demo_deploy_request = beside (tick (Inr ()))"
  "activate_old (demo_gate_ops E) 4 = beside (tick (Inr ()))"
  by (auto simp: fun_eq_iff require_queue_policy_def require_old_claims_zero_def activate_candidate_def wait_candidate_def
      activate_old_def act_then_def with_gateway_def demo_ops_def demo_deploy_request_def beside_def tick_def)

lemma demo_plain_ops:
  "op_prechecks (demo_gate_ops E) = beside (tick (Inr ()))" "op_expand_migration (demo_gate_ops E) = beside (tick (Inr ()))"
  "op_start_candidate (demo_gate_ops E) = beside (tick (Inr ()))" "op_candidate_ready (demo_gate_ops E) = beside (tick (Inr ()))"
  "op_isolated_smoke (demo_gate_ops E) = beside (tick (Inr ()))" "op_drain_old (demo_gate_ops E) = beside (tick (Inr ()))"
  "op_old_api_ready (demo_gate_ops E) = beside (tick (Inr ()))" "op_drain_candidate (demo_gate_ops E) = beside (tick (Inr ()))"
  "op_fail_lost (demo_gate_ops E) = beside (tick (Inr ()))"
  "op_stable_smoke (demo_gate_ops E) = beside (tick (Inl (Action_error ''smoke_failed'')))"
  by (simp_all add: with_gateway_def demo_ops_def)

lemma demo_smoke_step:
  assumes "ch_world st = (g, n)"
  shows "run_step (demo_gate_ops E) demo_deploy_request name (beside (tick (Inl (Action_error ''smoke_failed'')))) st
    = (Inl Step_failed_error, st\<lparr>ch_world := (g, n + 3), ch_steps := ch_steps st @ [demo_step name n (n + 2) (Some ''smoke_failed'')]\<rparr>)"
  by (subst demo_run_step [OF assms, where x = "Inl (Action_error ''smoke_failed'')" and g' = g and m = "n + 2"])
     (simp_all add: beside_def tick_def)

lemma demo_before:
  "seq (before_switch (demo_gate_ops demo_nginx) demo_deploy_request) (\<lambda>_. after_switch (demo_gate_ops demo_nginx) demo_deploy_request)
     (initial_chor (demo_gateway [(Green, 8), (Blue, 9)], 0)) = (Inl Step_failed_error,
     \<lparr>ch_world = (\<lparr>gw_include = Some (include_text Green 8 demo_sha), gw_env = [(Blue, 9)]\<rparr>, 33),
      ch_steps = [demo_step Validate_prechecks 0 2 None, demo_step Locked_expand_migration 3 5 None,
        demo_step Start_candidate_standby 6 8 None, demo_step Candidate_readiness 9 11 None, demo_step Isolated_smoke 12 14 None,
        demo_step Bidirectional_queue_contract 15 17 None, demo_step Old_workers_draining 18 20 None,
        demo_step Old_claims_zero 21 23 None, demo_step Gateway_switch 24 25 None, demo_step Candidate_activation 27 29 None,
        demo_step Stable_origin_smoke 30 32 (Some ''smoke_failed'')],
      ch_started = True, ch_draining = True, ch_paused = False,
      ch_gateway = Some \<lparr>rg_generation = 8, rg_slot = Green, rg_binding_sha = demo_sha, rg_include_sha = demo_sha\<rparr>,
      ch_switched = Some (seconds 26), ch_epoch = Some 4\<rparr>)"
proof -
  have fields: "dr_candidate_slot demo_deploy_request = Green" "dr_generation demo_deploy_request = 7"
    by (simp_all add: demo_deploy_request_def)
  have now: "op_clock (demo_gate_ops demo_nginx) (g, n) = (Aware (seconds n), (g, n + 1))" for g n
    by (simp add: with_gateway_def demo_ops_def beside_def)
  show ?thesis
    by (simp add: before_switch_def after_switch_def seq_def demo_plain_ops demo_guarded_steps demo_plain_step initial_chor_def
        assign_def ret_def demo_switch_step [where n = 7, simplified] demo_gateway_def fields chor_now_def now demo_smoke_step)
qed

lemma demo_routed_outcome: "map_sum id dl_outcome (fst demo_routed) = Inr Rolled_back"
proof -
  have fields: "dr_old_slot demo_deploy_request = Blue" 
    by (simp_all add: demo_deploy_request_def)
  have sha: "op_digest (demo_ops b y) z = demo_sha" for b y z by (simp add: demo_ops_def)
  obtain d where d: "retention_deadline (Aware (seconds 26)) = Inr d" "seconds 26 < d"
    by (simp add: retention_deadline_def Let_def hours_def seconds_def less_max_iff_disj)
  show ?thesis
    unfolding demo_routed_def deploy_def demo_before
    by (simp add: handle_failure_def rollback_after_switch_def seq_def demo_plain_ops demo_guarded_steps demo_plain_step recover_def
        recover_gateway_def ret_def demo_switch_step [where n = 8, simplified] fields make_result_def Let_def d sha
        deploy_result_ok_def demo_step_def demo_step_checks(1))
qed

theorem deployment_routes_witness:
  "gw_include (fst (ch_world (snd demo_routed))) = Some (include_text Blue 9 demo_sha)"
proof (cases demo_routed)
  case (Pair x st)
  obtain res where x: "x = Inr res" "dl_outcome res = Rolled_back"
    using demo_routed_outcome [unfolded Pair fst_conv] by (cases x) simp_all
  have "hex64_ok (op_digest (demo_ops True (Inl (Action_error ''smoke_failed''))) (dr_binding demo_deploy_request))"
    using demo_step_checks(1) by (simp add: demo_ops_def)
  from deployment_routes [OF Pair [unfolded x(1) demo_routed_def] demo_deploy_request_ok this demo_nginx_reliable] x(2)
  show ?thesis unfolding Pair by (simp add: Let_def demo_ops_def demo_deploy_request_def)
qed


subsection \<open>Two ways to end on the wrong slot\<close>

text \<open>The same gateway on a file system where flushing the directory fails.\<close>

definition demo_unflushed :: "(slot \<times> int) list gateway_env" where
  "demo_unflushed = demo_nginx\<lparr>ge_fsync := (\<lambda>c. (False, c))\<rparr>"

definition demo_aborted :: "(chor_error + deploy_result) \<times> ((slot \<times> int) list gateway_state \<times> int) chor" where
  "demo_aborted = deploy (demo_gate_ops demo_unflushed) demo_deploy_request (demo_gateway [], 0)"

lemma demo_unflushed_switch:
  "switch_include demo_unflushed Green demo_sha 7 (demo_gateway [])
    = (Inl Switch_exception, \<lparr>gw_include = Some (include_text Green 8 demo_sha), gw_env = []\<rparr>)"
  by (simp add: switch_include_def demo_gateway_def demo_unflushed_def demo_nginx_def env_call_def replace_include_def
      render_include_def demo_step_checks(1))

lemma demo_unflushed_step:
  assumes "ch_world st = (demo_gateway [], m)"
  shows "run_step (demo_gate_ops demo_unflushed) demo_deploy_request name
      (switch_gateway (demo_gate_ops demo_unflushed) demo_deploy_request Green 7) st
    = (Inl Step_failed_error, st\<lparr>ch_world := (\<lparr>gw_include = Some (include_text Green 8 demo_sha), gw_env = []\<rparr>, m + 2),
          ch_steps := ch_steps st @ [demo_step name m (m + 1) (Some ''deployment_operation_failed'')]\<rparr>)"
proof -
  have sha: "op_digest (demo_ops b y) z = demo_sha" for b y z by (simp add: demo_ops_def)
  have "switch_gateway (demo_gate_ops demo_unflushed) demo_deploy_request Green 7 (demo_gateway [], m + 1)
    = (Inl Other_exception, (\<lparr>gw_include = Some (include_text Green 8 demo_sha), gw_env = []\<rparr>, m + 1))"
    using demo_unflushed_switch by (simp add: switch_gateway_def sha) (simp add: with_gateway_def sha)
  from demo_run_step [where act = "switch_gateway (demo_gate_ops demo_unflushed) demo_deploy_request Green 7", OF assms this]
  show ?thesis by simp
qed

text \<open>
  An aborted deployment is not always one that left the gateway alone. When the directory
  cannot be flushed after the include has been replaced, the switch raises without restoring it;
  the choreography takes this for a failure before the switch, returns the workers to the old slot
  and reports a successful abort with no gateway generation, while the include on disk routes to
  the candidate.
\<close>

theorem abort_can_leave_candidate_include:
  "\<exists>res st. demo_aborted = (Inr res, st) \<and> dl_outcome res = Aborted \<and> dl_generation res = None
     \<and> gw_include (fst (ch_world st)) = Some (include_text Green 8 demo_sha)"
proof -
  have fields: "dr_candidate_slot demo_deploy_request = Green" "dr_generation demo_deploy_request = 7"
    by (simp_all add: demo_deploy_request_def)
  have sha: "op_digest (demo_ops b y) z = demo_sha" for b y z by (simp add: demo_ops_def)
  have restore: "op_restore_old (demo_gate_ops E) n = beside (tick (Inr ()))" "op_keep_standby (demo_gate_ops E) = beside (tick (Inr ()))" for E n
    by (simp_all add: with_gateway_def demo_ops_def)
  show ?thesis
    unfolding demo_aborted_def deploy_def before_switch_def
    by (simp add: seq_def demo_plain_ops demo_guarded_steps demo_plain_step initial_chor_def assign_def ret_def demo_unflushed_step fields
        handle_failure_def abort_before_switch_def recover_def restore make_result_def Let_def sha deploy_result_ok_def
        demo_step_def demo_step_checks(1))
qed

text \<open>A clock that is set back by a few seconds while the candidate is being activated.\<close>

definition demo_set_back :: "(chor_error + deploy_result) \<times> int chor" where
  "demo_set_back = deploy ((demo_ops True (Inr ()))\<lparr>op_clock := (\<lambda>n. (Aware (seconds (if n = 30 then 20 else n)), n + 1))\<rparr>)
     demo_deploy_request 0"

text \<open>
  A wall clock that steps back while a step runs ends the deployment with an exception that no
  handler catches: the record of the step fails its own validation outside the handlers. After the
  gateway switch this means that traffic stays on the candidate with neither a result nor a
  rollback, and the activation that had succeeded is not recorded.
\<close>

theorem clock_step_back_skips_rollback:
  "case demo_set_back of (outcome, st) \<Rightarrow>
     outcome = Inl (Escaped ''step record validation'') \<and> step_trace (ch_steps st) = all_ok (plan_before False)
     \<and> map_option rg_slot (ch_gateway st) = Some Green"
  by code_simp

end
