(* ===== verification/Text_Search.thy ===== *)
theory Text_Search
  imports Spec_Prelude
begin

text \<open>
  Python's \<open>str.count\<close> on texts made of lines, and decimal numerals: what the deployment
  controller needs to look for markers in the include that it rendered.
\<close>

subsection \<open>Counting occurrences\<close>

text \<open>
  \<open>s.count(p)\<close> of a non-empty \<open>p\<close>: occurrences that do not overlap, from the left. The counter is
  the number of characters still covered by the last match.
\<close>

fun count_sub :: "string \<Rightarrow> nat \<Rightarrow> string \<Rightarrow> nat" where
  "count_sub p k [] = 0"
| "count_sub p (Suc k) (c # s) = count_sub p k s"
| "count_sub p 0 (c # s) = (if prefix p (c # s) then Suc (count_sub p (length p - 1) s) else count_sub p 0 s)"

definition py_count :: "string \<Rightarrow> string \<Rightarrow> nat" where
  "py_count p s = count_sub p 0 s"

lemma count_sub_covered: "length s \<le> k \<Longrightarrow> count_sub p k s = 0"
  by (induction p k s rule: count_sub.induct) auto

lemma count_sub_absent:
  assumes "x \<in> set p" and "x \<notin> set s"
  shows "count_sub p k s = 0"
  using assms
proof (induction p k s rule: count_sub.induct)
  case (3 p c s)
  then have "\<not> prefix p (c # s)" using set_mono_prefix [of p "c # s"] by auto
  with 3 show ?case by simp
qed auto

lemma py_count_absent: "x \<in> set p \<Longrightarrow> x \<notin> set s \<Longrightarrow> py_count p s = 0"
  by (simp add: py_count_def count_sub_absent)

lemma prefix_before:
  assumes "c \<notin> set p"
  shows "prefix p (s @ c # r) \<longleftrightarrow> prefix p s"
proof
  assume "prefix p (s @ c # r)"
  then consider "prefix p s" | us where "p = s @ us" "prefix us (c # r)" by (auto simp: prefix_append)
  then show "prefix p s"
  proof cases
    case 2
    with assms have "us = []" by (cases us) auto
    with 2 show ?thesis by simp
  qed
qed (auto simp: prefix_def)

text \<open>A character that the pattern lacks separates the text.\<close>

lemma count_sub_separated:
  assumes "c \<notin> set p" and "p \<noteq> []" and "k \<le> length s"
  shows "count_sub p k (s @ c # r) = count_sub p k s + count_sub p 0 r"
  using assms
proof (induction p k s rule: count_sub.induct)
  case (1 p k)
  then have "\<not> prefix p (c # r)" using prefix_before [of c p "[]" r] by auto
  with 1 show ?case by simp
next
  case (3 p d s)
  have eq: "prefix p (d # s @ c # r) \<longleftrightarrow> prefix p (d # s)" using prefix_before [OF 3(3), of "d # s" r] by simp
  show ?case
  proof (cases "prefix p (d # s)")
    case True
    then have "length p - 1 \<le> length s" using prefix_length_le by fastforce
    with 3 True eq show ?thesis by simp
  qed (use 3 eq in simp)
qed auto

definition joined_lines :: "char \<Rightarrow> string list \<Rightarrow> string" where
  "joined_lines c ls = concat (map (\<lambda>l. l @ [c]) ls)"

lemma py_count_lines:
  assumes "c \<notin> set p" and "p \<noteq> []"
  shows "py_count p (joined_lines c ls) = sum_list (map (py_count p) ls)"
proof (induction ls)
  case (Cons l ls)
  then show ?case using count_sub_separated [OF assms, of 0 l "joined_lines c ls"] by (simp add: joined_lines_def py_count_def)
qed (simp add: joined_lines_def py_count_def)

text \<open>A pattern that can only match at the head of a text, because its first character does not come back.\<close>

lemma py_count_head:
  assumes "c \<notin> set s" and "p = c # q"
  shows "py_count p (c # s) = (if prefix q s then 1 else 0)"
proof -
  have "count_sub p k s = 0" for k by (rule count_sub_absent [where x = c]) (use assms in auto)
  then show ?thesis using assms by (simp add: py_count_def)
qed

subsection \<open>Numerals\<close>

fun numeral_value :: "string \<Rightarrow> int" where
  "numeral_value s = foldl (\<lambda>n c. 10 * n + (of_char c - 48)) 0 s"

lemma numeral_value_digits: "numeral_value (nat_digits n) = int n"
proof (induction n rule: nat_digits.induct)
  case (1 n)
  have d: "of_char (char_of (48 + m) :: char) = (48 + m :: nat)" if "m < 10" for m :: nat
    using that by (simp add: of_char_of)
  have i: "of_char c = int (of_char c)" for c :: char by (simp add: of_nat_of_char)
  show ?case
  proof (cases "n < 10")
    case True with d [of n] show ?thesis by (simp add: nat_digits.simps [of n] i)
  next
    case False
    have "10 * int (n div 10) + int (n mod 10) = int n" by presburger
    with False 1 d [of "n mod 10"] show ?thesis by (simp add: nat_digits.simps [of n] i)
  qed
qed

lemma nat_digits_chars: "c \<in> set (nat_digits n) \<Longrightarrow> char_between 48 57 c"
proof (induction n rule: nat_digits.induct)
  case (1 n)
  have d: "char_between 48 57 (char_of (48 + m))" if "m < 10" for m :: nat
  proof -
    have "(of_char (char_of (48 + m) :: char) :: nat) = 48 + m" using that by (simp add: of_char_of)
    then have "(of_char (char_of (48 + m) :: char) :: int) = int (48 + m)" by (metis of_nat_of_char)
    with that show ?thesis by (simp add: char_between_def)
  qed
  show ?case
  proof (cases "n < 10")
    case True with 1(2) d [of n] show ?thesis by (simp add: nat_digits.simps [of n])
  next
    case False
    with 1 d [of "n mod 10"] show ?thesis by (auto simp: nat_digits.simps [of n])
  qed
qed

lemma decimal_inj: "0 \<le> i \<Longrightarrow> 0 \<le> j \<Longrightarrow> decimal i = decimal j \<longleftrightarrow> i = j"
  by (auto simp: decimal_def dest: arg_cong [where f = numeral_value] simp: numeral_value_digits simp del: numeral_value.simps)

lemma decimal_chars: "0 \<le> i \<Longrightarrow> c \<in> set (decimal i) \<Longrightarrow> char_between 48 57 c"
  by (auto simp: decimal_def dest: nat_digits_chars)

lemma decimal_nonempty: "decimal i \<noteq> []"
  by (auto simp: decimal_def nat_digits.simps [of "nat i"])

end
