(* ===== verification/Compose_Driver.thy ===== *)
theory Compose_Driver
  imports Deployment_Choreography Text_Search
begin

text \<open>
  Parts of \<open>scripts/deployment/compose_driver.py\<close>, the Docker Compose driver behind the deployment
  operations: the precheck that the active include is the one the request was made for, and the
  two polling loops that wait for claims to drain and for a worker epoch. Running a probe script in
  a container, the clock and sleeping are parameters over the world they may change.
\<close>

subsection \<open>The active include\<close>

definition gateway_markers :: "deploy_request \<Rightarrow> string list" where
  "gateway_markers r = [''# routing-generation: '' @ decimal (dr_generation r),
     ''default '' @ quot @ slot_value (dr_old_slot r) @ quot @ '';'',
     ''server '' @ slot_value (dr_old_slot r) @ ''-api:8000;'',
     ''server '' @ slot_value (dr_old_slot r) @ ''-dashboard:8080;'',
     ''server '' @ slot_value (dr_old_slot r) @ ''-operator-chat:8080;'']"

definition validate_active_gateway :: "string \<Rightarrow> deploy_request \<Rightarrow> action_error + unit" where
  "validate_active_gateway content r =
     (if list_ex (\<lambda>m. py_count m content \<noteq> 1) (gateway_markers r)
      then Inl (deployment_action_error ''gateway_active_state_mismatch'') else Inr ())"

subsection \<open>Polling\<close>

text \<open>
  One poll runs a script in the API container and parses what it prints: an error ends the loop.
  The loop counts down the polls that are left; the deadline is only consulted between polls, and
  a naive clock raises.
\<close>

record 'w poll_env =
  pe_clock :: "'w \<Rightarrow> clock \<times> 'w"
  pe_sleep :: "int \<Rightarrow> 'w \<Rightarrow> 'w"

definition driver_now :: "'w poll_env \<Rightarrow> ('w, instant) action" where
  "driver_now E w = (case pe_clock E w of
     (Naive, w') \<Rightarrow> (Inl (deployment_action_error ''compose_driver_clock_invalid''), w')
   | (Aware t, w') \<Rightarrow> (Inr t, w'))"

definition max_polls :: "int \<Rightarrow> nat" where
  "max_polls timeout = nat ((timeout + 1) div 2 + 1)"

text \<open>
  The body of both loops: poll, stop when the poll is satisfied, stop when polls or time run out,
  sleep two seconds.
\<close>

fun poll_until :: "'w poll_env \<Rightarrow> ('w, bool) action \<Rightarrow> instant \<Rightarrow> nat \<Rightarrow> ('w, bool) action" where
  "poll_until E poll deadline 0 w = (Inr False, w)"
| "poll_until E poll deadline (Suc n) w = (case poll w of
     (Inl e, w1) \<Rightarrow> (Inl e, w1)
   | (Inr True, w1) \<Rightarrow> (Inr True, w1)
   | (Inr False, w1) \<Rightarrow>
       if n = 0 then (Inr False, w1)
       else (case driver_now E w1 of
         (Inl e, w2) \<Rightarrow> (Inl e, w2)
       | (Inr t, w2) \<Rightarrow> if deadline \<le> t then (Inr False, w2) else poll_until E poll deadline n (pe_sleep E 2 w2)))"

text \<open>\<open>_wait_claims_zero\<close>: the parsed claim count of the slot's executor must reach zero.\<close>

definition parse_claim_count :: "int \<Rightarrow> action_error + int" where
  "parse_claim_count n = (if n < 0 then Inl (deployment_action_error ''claim_count_result_invalid'') else Inr n)"

definition wait_claims_zero :: "'w poll_env \<Rightarrow> ('w, int) action \<Rightarrow> int \<Rightarrow> int \<Rightarrow> ('w, bool) action" where
  "wait_claims_zero E claims timeout expected w =
     (if timeout \<noteq> expected \<or> \<not> (1 \<le> timeout \<and> timeout \<le> 150)
      then (Inl (deployment_action_error ''claim_drain_timeout_invalid''), w)
      else case driver_now E w of
        (Inl e, w1) \<Rightarrow> (Inl e, w1)
      | (Inr t, w1) \<Rightarrow> poll_until E (act_then (act_then claims parse_claim_count) (\<lambda>n. Inr (n = 0))) (t + seconds timeout) (max_polls timeout) w1)"

text \<open>\<open>_wait_worker_epoch\<close>: the worker must be ready at exactly the expected epoch.\<close>

definition parse_worker_epoch :: "bool \<times> int \<Rightarrow> int \<Rightarrow> action_error + bool" where
  "parse_worker_epoch result expected =
     (if snd result < 0 then Inl (deployment_action_error ''worker_epoch_result_invalid'')
      else Inr (fst result \<and> snd result = expected))"

definition wait_worker_epoch :: "'w poll_env \<Rightarrow> ('w, bool \<times> int) action \<Rightarrow> int \<Rightarrow> int \<Rightarrow> ('w, unit) action" where
  "wait_worker_epoch E probe expected timeout w =
     (if expected < 0 \<or> \<not> (1 \<le> timeout \<and> timeout \<le> 60)
      then (Inl (deployment_action_error ''worker_epoch_wait_invalid''), w)
      else case driver_now E w of
        (Inl e, w1) \<Rightarrow> (Inl e, w1)
      | (Inr t, w1) \<Rightarrow>
          act_then (poll_until E (act_then probe (\<lambda>x. parse_worker_epoch x expected)) (t + seconds timeout) (max_polls timeout))
            (\<lambda>ready. if ready then Inr () else Inl (deployment_action_error ''worker_epoch_state_mismatch'')) w1)"

subsection \<open>Markers in a rendered include\<close>

definition include_lines :: "slot \<Rightarrow> int \<Rightarrow> string \<Rightarrow> string list" where
  "include_lines s g sha =
     [''# Deployment-controller-owned file; do not edit in place.'',
      ''# deployment-binding-sha256: '' @ sha,
      ''# routing-generation: '' @ decimal g,
      ''map $host $proofagent_routing_generation {'',
      ''    default '' @ quot @ decimal g @ quot @ '';'',
      ''}'',
      ''map $host $proofagent_routing_slot {'',
      ''    default '' @ quot @ slot_value s @ quot @ '';'',
      ''}'', '''',
      ''upstream proofagent_api {'', ''    server '' @ slot_value s @ ''-api:8000;'', ''    keepalive 32;'', ''}'', '''',
      ''upstream proofagent_dashboard {'', ''    server '' @ slot_value s @ ''-dashboard:8080;'', ''    keepalive 16;'', ''}'', '''',
      ''upstream proofagent_operator_chat {'', ''    server '' @ slot_value s @ ''-operator-chat:8080;'', ''    keepalive 16;'', ''}'']"

lemma include_text_lines: "include_text s g sha = joined_lines (CHR 0x0A) (include_lines s g sha)"
  by (simp add: include_text_def include_lines_def joined_lines_def nl_def)

lemma hex_chars: "hex64_ok sha \<Longrightarrow> c \<in> set sha \<Longrightarrow> hex_char c"
  by (simp add: hex64_ok_def list_all_iff)

text \<open>Counts in the lines that depend on the generation and on the digest.\<close>

lemma py_count_include:
  assumes "CHR 0x0A \<notin> set p" and "p \<noteq> []"
  shows "py_count p (include_text s g sha) = sum_list (map (py_count p) (include_lines s g sha))"
  unfolding include_text_lines by (rule py_count_lines [OF assms])

lemma sum_first_three:
  assumes "\<And>l. l \<in> set ls \<Longrightarrow> f l = (0 :: nat)"
  shows "sum_list (map f (a # b # c # ls)) = f a + f b + f c"
proof -
  have "sum_list (map f ls) = 0" unfolding sum_list_eq_0_iff set_map using assms by auto
  then show ?thesis by simp
qed

lemma generation_marker_count:
  assumes "1 \<le> g" "1 \<le> a" "hex64_ok sha"
  shows "py_count (''# routing-generation: '' @ decimal a) (include_text s g sha) = (if prefix (decimal a) (decimal g) then 1 else 0)"
proof -
  define p where "p = ''# routing-generation: '' @ decimal a"
  have digits: "CHR 0x0A \<notin> set (decimal a)" "CHR ''#'' \<notin> set (decimal g)"
    using decimal_chars [of a "CHR 0x0A"] decimal_chars [of g "CHR ''#''"] assms by (auto simp: char_between_def)
  have slot: "CHR ''#'' \<notin> set (slot_value s)" by (cases s) auto
  have sha: "CHR ''r'' \<notin> set sha" using hex_chars [OF assms(3), of "CHR ''r''"] by (auto simp: hex_char_def char_between_def)
  have mem: "CHR ''#'' \<in> set p" "CHR '':'' \<in> set p" "CHR ''r'' \<in> set p" by (simp_all add: p_def)
  have "p \<noteq> []" "CHR 0x0A \<notin> set p" using digits(1) by (simp_all add: p_def)
  note cnt = py_count_include [OF this(2,1), of s g sha]
  have no_hash: "\<forall>l \<in> set (drop 3 (include_lines s g sha)). CHR ''#'' \<notin> set l"
    using slot digits(2) by (simp add: include_lines_def quot_def)
  then have rest: "py_count p l = 0" if "l \<in> set (drop 3 (include_lines s g sha))" for l
    using that py_count_absent [OF mem(1)] by blast
  have first: "py_count p ''# Deployment-controller-owned file; do not edit in place.'' = 0"
    by (rule py_count_absent [OF mem(2)]) simp
  have second: "py_count p (''# deployment-binding-sha256: '' @ sha) = 0"
    by (rule py_count_absent [OF mem(3)]) (use sha in simp)
  have third: "py_count p (''# routing-generation: '' @ decimal g) = (if prefix (decimal a) (decimal g) then 1 else 0)"
    using py_count_head [of "CHR ''#''" "tl (''# routing-generation: '' @ decimal g)" p "tl p"] digits(2) by (simp add: p_def)
  have lines: "include_lines s g sha = ''# Deployment-controller-owned file; do not edit in place.''
      # (''# deployment-binding-sha256: '' @ sha) # (''# routing-generation: '' @ decimal g) # drop 3 (include_lines s g sha)"
    by (simp add: include_lines_def)
  have "sum_list (map (py_count p) (include_lines s g sha)) = (if prefix (decimal a) (decimal g) then 1 else 0)"
    by (subst lines, subst sum_first_three [OF rest]) (simp_all only: first second third add_0)
  with cnt show ?thesis unfolding p_def by (simp only:)
qed

text \<open>The markers of a slot occur once each in an include for that slot, and in no other.\<close>

definition slot_markers :: "slot \<Rightarrow> string list" where
  "slot_markers t = [''default '' @ quot @ slot_value t @ quot @ '';'', ''server '' @ slot_value t @ ''-api:8000;'',
     ''server '' @ slot_value t @ ''-dashboard:8080;'', ''server '' @ slot_value t @ ''-operator-chat:8080;'']"

definition fixed_lines :: "slot \<Rightarrow> string list" where
  "fixed_lines s = [''# Deployment-controller-owned file; do not edit in place.'', ''map $host $proofagent_routing_generation {'', ''}'']
     @ drop 6 (include_lines s 0 [])"

definition fixed_counts :: "slot \<Rightarrow> slot \<Rightarrow> nat list" where
  "fixed_counts s t = map (\<lambda>p. sum_list (map (py_count p) (fixed_lines s))) (slot_markers t)"

lemma fixed_counts_slot:
  "fixed_counts Blue Blue = [1, 1, 1, 1]" "fixed_counts Blue Green = [0, 0, 0, 0]"
  "fixed_counts Green Blue = [0, 0, 0, 0]" "fixed_counts Green Green = [1, 1, 1, 1]"
  by code_simp+

lemma fixed_count:
  assumes "p \<in> set (slot_markers t)"
  shows "sum_list (map (py_count p) (fixed_lines s)) = (if s = t then 1 else 0)"
proof -
  have "\<forall>n \<in> set (fixed_counts s t). n = (if s = t then 1 else 0)"
    by (cases s; cases t) (simp_all add: fixed_counts_slot)
  with assms show ?thesis by (auto simp: fixed_counts_def)
qed

lemma sum_lines_split:
  assumes "py_count p b = 0" "py_count p c = 0" "py_count p e = (0 :: nat)"
  shows "sum_list (map (py_count p) (a # b # c # d # e # f # ls)) = sum_list (map (py_count p) ([a, d, f] @ ls))"
  using assms by simp

lemma slot_marker_chars:
  assumes "p \<in> set (slot_markers t)"
  shows "CHR 0x0A \<notin> set p" "p \<noteq> []"
    "CHR ''v'' \<in> set p \<or> (CHR 0x22 \<in> set p \<and> (CHR ''b'' \<in> set p \<or> CHR ''g'' \<in> set p))"
  using assms by (cases t; auto simp: slot_markers_def quot_def)+

lemma slot_marker_count:
  assumes p: "p \<in> set (slot_markers t)" and g: "1 \<le> g" and sha: "hex64_ok sha"
  shows "py_count p (include_text s g sha) = (if s = t then 1 else 0)"
proof -
  have digits: "c \<notin> set (decimal g)" if "c \<in> {CHR ''v'', CHR 0x22, CHR ''b'', CHR ''g''}" for c
    using that decimal_chars [of g c] g by (auto simp: char_between_def)
  have hex: "c \<notin> set sha" if "c \<in> {CHR ''v'', CHR 0x22}" for c
    using that hex_chars [OF sha, of c] by (auto simp: hex_char_def char_between_def)
  have second: "py_count p (''# deployment-binding-sha256: '' @ sha) = 0"
  proof -
    have "c \<notin> set (''# deployment-binding-sha256: '' @ sha)" if "c \<in> {CHR ''v'', CHR 0x22}" for c
      using that hex [of c] by auto
    with slot_marker_chars(3) [OF p] py_count_absent [of _ p] show ?thesis by blast
  qed
  have third: "py_count p (''# routing-generation: '' @ decimal g) = 0"
  proof -
    have "c \<notin> set (''# routing-generation: '' @ decimal g)" if "c \<in> {CHR ''v'', CHR 0x22}" for c
      using that digits [of c] by auto
    with slot_marker_chars(3) [OF p] py_count_absent [of _ p] show ?thesis by blast
  qed
  have fifth: "py_count p (''    default '' @ quot @ decimal g @ quot @ '';'') = 0"
  proof -
    have "c \<notin> set (''    default '' @ quot @ decimal g @ quot @ '';'')" if "c \<in> {CHR ''v'', CHR ''b'', CHR ''g''}" for c
      using that digits [of c] by (auto simp: quot_def)
    with slot_marker_chars(3) [OF p] py_count_absent [of _ p] show ?thesis by blast
  qed
  have lines: "include_lines s g sha = ''# Deployment-controller-owned file; do not edit in place.''
      # (''# deployment-binding-sha256: '' @ sha) # (''# routing-generation: '' @ decimal g)
      # ''map $host $proofagent_routing_generation {'' # (''    default '' @ quot @ decimal g @ quot @ '';'')
      # ''}'' # drop 6 (include_lines s 0 [])"
    by (simp add: include_lines_def)
  have "py_count p (include_text s g sha) = sum_list (map (py_count p) (fixed_lines s))"
    unfolding py_count_include [OF slot_marker_chars(1,2) [OF p]] lines fixed_lines_def
    by (rule sum_lines_split [OF second third fifth])
  with fixed_count [OF p] show ?thesis by simp
qed

text \<open>
  What the precheck accepts, exactly: the slot must be the one of the request, but of the
  generation only a leading part is compared.
\<close>

lemma validate_active_gateway_iff:
  assumes "1 \<le> dr_generation r" "1 \<le> g" "hex64_ok sha"
  shows "validate_active_gateway (include_text s g sha) r = Inr ()
    \<longleftrightarrow> s = dr_old_slot r \<and> prefix (decimal (dr_generation r)) (decimal g)"
proof -
  have markers: "gateway_markers r = (''# routing-generation: '' @ decimal (dr_generation r)) # slot_markers (dr_old_slot r)"
    by (simp add: gateway_markers_def slot_markers_def)
  have slots: "list_ex (\<lambda>m. py_count m (include_text s g sha) \<noteq> 1) (slot_markers (dr_old_slot r)) \<longleftrightarrow> s \<noteq> dr_old_slot r"
    using slot_marker_count [OF _ assms(2,3)] by (auto simp: list_ex_iff slot_markers_def)
  have cons: "list_ex P (x # xs) \<longleftrightarrow> P x \<or> list_ex P xs" for P and x :: string and xs by simp
  show ?thesis
    unfolding validate_active_gateway_def markers cons generation_marker_count [OF assms(2,1,3)] slots by simp
qed

end
