(* ===== verification/Gateway_Properties.thy ===== *)
theory Gateway_Properties
  imports Compose_Driver Deployment_Properties "HOL-Library.Multiset"
begin

text \<open>
  Properties of the gateway switch, of the driver's prechecks and polling, and of the retention
  deadline.
\<close>

subsection \<open>Routes\<close>

lemma verify_routes_iff:
  "verify_routes rs s g = Inr () \<longleftrightarrow> mset rs = mset (map (\<lambda>x. \<lparr>rt_surface = x, rt_generation = g, rt_slot = s\<rparr>) all_surfaces)"
    (is "_ \<longleftrightarrow> _ = mset (map ?f _)")
proof
  assume ok: "verify_routes rs s g = Inr ()"
  then have len: "length (map rt_surface rs) = length all_surfaces" and surf: "set (map rt_surface rs) = set all_surfaces"
    and here: "\<And>r. r \<in> set rs \<Longrightarrow> rt_slot r = s \<and> rt_generation r = g"
    by (auto simp: verify_routes_def list_ex_iff split: if_splits)
  have d: "distinct all_surfaces" by (simp add: all_surfaces_def)
  then have "distinct (map rt_surface rs)"
    using len surf by (metis card_distinct distinct_card)
  then have "mset (map rt_surface rs) = mset all_surfaces" using set_eq_iff_mset_eq_distinct [OF _ d] surf by blast
  moreover have "map (\<lambda>r. ?f (rt_surface r)) rs = rs" by (rule map_idI) (use here in simp)
  ultimately show "mset rs = mset (map ?f all_surfaces)"
    by (metis (no_types, lifting) map_map comp_apply map_cong mset_map)
next
  assume m: "mset rs = mset (map ?f all_surfaces)"
  then have "length rs = length all_surfaces" "set rs = ?f ` set all_surfaces"
    using mset_eq_length [OF m] mset_eq_setD [OF m] by simp_all
  then show "verify_routes rs s g = Inr ()"
    by (simp add: verify_routes_def list_ex_iff image_image)
qed

text \<open>
  C27. Route verification accepts exactly one complete picture: each of the five surfaces observed
  once, in any order, all on the expected slot and generation.
\<close>

theorem verify_routes_exact:
  "verify_routes rs s g = Inr () \<longleftrightarrow> mset rs = mset (map (\<lambda>x. \<lparr>rt_surface = x, rt_generation = g, rt_slot = s\<rparr>) all_surfaces)"
  by (rule verify_routes_iff)

subsection \<open>The switch\<close>

lemma verify_reload_observed:
  "verify_reload E t g st = (True, st') \<Longrightarrow>
     \<exists>c rs. ge_observe E c = (Some rs, gw_env st') \<and> verify_routes rs t g = Inr ()"
  by (auto simp: verify_reload_def env_call_def split: prod.splits bool.splits option.splits) blast+

lemma switch_observed:
  "switch_include E t sha n st = (Inr x, st') \<Longrightarrow>
     \<exists>c rs. ge_observe E c = (Some rs, gw_env st') \<and> verify_routes rs t (n + 1) = Inr ()"
  by (auto simp: switch_include_def split: option.splits sum.splits prod.splits bool.splits dest: verify_reload_observed)

text \<open>
  C26. What a gateway switch leaves in the active include. Success: exactly the rendering of the next
  generation for the target slot, which the result reports with its digest, and the last thing done was a
  probe whose five surfaces all showed that slot and generation. Failure: the old include or that new one,
  and certainly the old one if the code says that the include was missing, the candidate invalid or the
  verification failed; the remaining failures (an exception, as when flushing the directory fails, or
  \<open>gateway_restore_failed\<close>) leave it open which of the two it is. If file operations and reloads do not
  fail, every failure leaves the old include.
\<close>

theorem switch_all_or_nothing:
  assumes "switch_include E t sha n st = (res, st')"
  shows "(case res of
      Inr x \<Rightarrow> rg_generation x = n + 1 \<and> rg_slot x = t \<and> rg_binding_sha x = sha
        \<and> rg_include_sha x = ge_sha E (include_text t (n + 1) sha)
        \<and> gw_include st' = Some (include_text t (n + 1) sha)
        \<and> (\<exists>c rs. ge_observe E c = (Some rs, gw_env st')
             \<and> mset rs = mset (map (\<lambda>x. \<lparr>rt_surface = x, rt_generation = n + 1, rt_slot = t\<rparr>) all_surfaces))
    | Inl e \<Rightarrow> gw_include st' \<in> {gw_include st, Some (include_text t (n + 1) sha)}
        \<and> (e \<noteq> Switch_exception \<and> e \<noteq> Switch_error ''gateway_restore_failed'' \<longrightarrow> gw_include st' = gw_include st)
        \<and> (reliable_files E \<and> hex64_ok sha \<and> 0 \<le> n \<longrightarrow> gw_include st' = gw_include st))"
proof (cases res)
  case (Inr x)
  with assms switch_observed [of E t sha n st x st'] obtain c rs where
    o: "ge_observe E c = (Some rs, gw_env st')" "verify_routes rs t (n + 1) = Inr ()" by blast
  with switch_include_cases [OF assms] Inr show ?thesis
    by (auto simp: verify_routes_iff)
next
  case (Inl e)
  have "e = Switch_exception \<or> e = Switch_error ''gateway_restore_failed'' \<or> clean_failure e"
    using assms Inl
    by (auto simp: switch_include_def clean_failure_def render_include_def split: option.splits sum.splits prod.splits
        bool.splits if_splits dest!: restore_include_cases)
  with switch_include_cases [OF assms] switch_reliable [of E sha n t st e st'] assms Inl show ?thesis by auto
qed

theorem switch_all_or_nothing_witness:
  "gw_include (snd (switch_include demo_nginx Green demo_sha 7 (demo_gateway [(Green, 8)]))) = Some (include_text Green 8 demo_sha)"
proof -
  have g: "gw_include (demo_gateway [(Green, 8)]) = Some (include_text Blue 7 demo_sha)"
    "gw_env (demo_gateway [(Green, 8)]) = (Green, 7 + 1) # []" by (simp_all add: demo_gateway_def)
  note run = demo_include_switch [OF g, simplified]
  from switch_all_or_nothing [OF run] show ?thesis unfolding run by simp
qed

subsection \<open>Rendering\<close>

lemma split_at_newline:
  assumes "CHR 0x0A \<notin> set a" "CHR 0x0A \<notin> set b" and "a @ nl @ r = b @ nl @ r'"
  shows "a = b \<and> r = r'"
proof -
  have "takeWhile (\<lambda>c. c \<noteq> CHR 0x0A) (a @ nl @ r) = a" if "CHR 0x0A \<notin> set a" for a r :: string
    using that by (induction a) (auto simp: nl_def)
  from this [OF assms(1), of r] this [OF assms(2), of r'] assms(3) have "a = b" by simp
  with assms(3) show ?thesis by (simp add: nl_def)
qed

text \<open>
  The include determines what it routes to: no two different combinations of slot, routing generation
  and binding digest render to the same text.
\<close>

theorem include_roundtrip:
  assumes "render_include s g sha = Inr text" and "render_include s' g' sha' = Inr text"
  shows "s = s' \<and> g = g' \<and> sha = sha'"
proof -
  have g: "1 \<le> g" "1 \<le> g'" and sha: "hex64_ok sha" "hex64_ok sha'"
    and eq: "include_text s g sha = include_text s' g' sha'"
    using assms by (auto simp: render_include_def split: if_splits)
  have n: "CHR 0x0A \<notin> set (decimal g)" "CHR 0x0A \<notin> set (decimal g')" "CHR 0x0A \<notin> set sha" "CHR 0x0A \<notin> set sha'"
    using decimal_chars [of g "CHR 0x0A"] decimal_chars [of g' "CHR 0x0A"] hex_chars [OF sha(1), of "CHR 0x0A"]
      hex_chars [OF sha(2), of "CHR 0x0A"] g by (auto simp: char_between_def hex_char_def)
  obtain r r' where "sha @ nl @ (''# routing-generation: '' @ decimal g @ nl @ r) = sha' @ nl @ (''# routing-generation: '' @ decimal g' @ nl @ r')"
    by (rule that) (rule eq [unfolded include_text_def same_append_eq])
  from split_at_newline [OF n(3,4) this] have same: "sha = sha'" and rest: "decimal g @ nl @ r = decimal g' @ nl @ r'"
    by (simp_all only: same_append_eq)
  have "decimal g = decimal g'" by (rule conjunct1 [OF split_at_newline [OF n(1,2) rest]])
  then have "g = g'" using decimal_inj [of g g'] g by linarith
  have m: "''server '' @ slot_value s @ ''-api:8000;'' \<in> set (slot_markers s)" by (simp add: slot_markers_def)
  have "s = s'" using slot_marker_count [OF m g(1) sha(1), of s] slot_marker_count [OF m g(2) sha(2), of s'] eq
    by (simp split: if_splits)
  with same \<open>g = g'\<close> show ?thesis by blast
qed

theorem include_roundtrip_witness:
  "render_include Blue 7 demo_sha = Inr (include_text Blue 7 demo_sha) \<and> Blue = Blue \<and> (7 :: int) = 7 \<and> demo_sha = demo_sha"
proof -
  have r: "render_include Blue 7 demo_sha = Inr (include_text Blue 7 demo_sha)"
    using demo_step_checks(1) by (simp add: render_include_def)
  with include_roundtrip [OF r r] show ?thesis by blast
qed

text \<open>
  C29. What the driver's precheck of the active include establishes, exactly, for an include the
  controller has rendered: the include routes to the old slot of the request, and the decimal
  digits of the request's generation are a leading part of those of the include. Equal generations
  are always accepted and another slot never, but so is, say, generation 1 against an include of
  generation 12.
\<close>

theorem active_gateway_check:
  assumes "1 \<le> dr_generation r" "1 \<le> g" "hex64_ok sha"
  shows "(validate_active_gateway (include_text s g sha) r = Inr ()
      \<longleftrightarrow> s = dr_old_slot r \<and> prefix (decimal (dr_generation r)) (decimal g))"
  by (rule validate_active_gateway_iff [OF assms])

theorem active_gateway_check_witness:
  "validate_active_gateway (include_text Blue 12 demo_sha) (demo_deploy_request\<lparr>dr_generation := 1\<rparr>) = Inr ()"
proof -
  have "prefix (decimal 1) (decimal 12)" by code_simp
  with active_gateway_check [of "demo_deploy_request\<lparr>dr_generation := 1\<rparr>" 12 demo_sha Blue] demo_step_checks(1)
  show ?thesis by (simp add: demo_deploy_request_def)
qed

subsection \<open>Polling\<close>

text \<open>The same loop in a world that counts its polls.\<close>

definition counted :: "('w, 'a) action \<Rightarrow> ('w \<times> nat, 'a) action" where
  "counted f w = (case f (fst w) of (x, w') \<Rightarrow> (x, (w', snd w + 1)))"

definition beside_count :: "'w poll_env \<Rightarrow> ('w \<times> nat) poll_env" where
  "beside_count E = \<lparr>pe_clock = (\<lambda>w. case pe_clock E (fst w) of (t, w') \<Rightarrow> (t, (w', snd w))),
     pe_sleep = (\<lambda>s w. (pe_sleep E s (fst w), snd w))\<rparr>"

lemma beside_count_now:
  "driver_now (beside_count E) w = (case driver_now E (fst w) of (x, w') \<Rightarrow> (x, (w', snd w)))"
  by (simp add: driver_now_def beside_count_def split: prod.splits clock.splits)

lemma poll_until_counted:
  "poll_until (beside_count E) (counted poll) d n w = (x, w')
    \<Longrightarrow> snd w \<le> snd w' \<and> snd w' \<le> snd w + n \<and> (x = Inr True \<longrightarrow> snd w < snd w') \<and> poll_until E poll d n (fst w) = (x, fst w')"
proof (induction n arbitrary: w)
  case (Suc n)
  obtain y w1 where p: "poll (fst w) = (y, w1)" by force
  then have c: "counted poll w = (y, (w1, snd w + 1))" by (simp add: counted_def)
  show ?case
  proof (cases "y = Inr False \<and> n \<noteq> 0")
    case False
    with Suc.prems p c show ?thesis by (cases y) (auto split: bool.splits)
  next
    case True
    obtain t w2 where now: "driver_now E w1 = (t, w2)" by force
    then have now': "driver_now (beside_count E) (w1, snd w + 1) = (t, (w2, snd w + 1))" by (simp add: beside_count_now)
    have sl: "pe_sleep (beside_count E) 2 (w2, snd w + 1) = (pe_sleep E 2 w2, snd w + 1)" by (simp add: beside_count_def)
    show ?thesis
    proof (cases "\<exists>v. t = Inr v \<and> v < d")
      case False
      with Suc.prems True p c now now' show ?thesis by (cases t) auto
    next
      case later: True
      with Suc.prems True p c now now' sl
      have "poll_until (beside_count E) (counted poll) d n (pe_sleep E 2 w2, snd w + 1) = (x, w')" by auto
      from Suc.IH [OF this] True later p now show ?thesis by auto
    qed
  qed
qed auto

lemma poll_until_True:
  "poll_until E poll d n w = (Inr True, w') \<Longrightarrow> \<exists>v. poll v = (Inr True, w')"
proof (induction n arbitrary: w)
  case (Suc n)
  then show ?case by (auto split: prod.splits sum.splits bool.splits if_splits)
qed simp

lemma act_then_counted: "act_then (counted m) f = counted (act_then m f)"
  by (auto simp: fun_eq_iff act_then_def counted_def split: prod.splits sum.splits)

lemma claims_poll_True:
  "act_then (act_then claims parse_claim_count) (\<lambda>n. Inr (n = 0)) v = (Inr True, w) \<Longrightarrow> claims v = (Inr 0, w)"
  by (auto simp: act_then_def parse_claim_count_def split: prod.splits sum.splits if_splits)

text \<open>
  Waiting for claims to drain. The wait reports zero only if its last poll read a claim count of zero;
  it makes at most 76 polls, whatever the timeout; and a timeout other than the one of the request, or outside 1 to 150 seconds, is refused
  before anything is polled.
\<close>

theorem drain_wait_bounded:
  assumes "wait_claims_zero (beside_count E) (counted claims) timeout expected (w, 0) = (x, (w', n))"
  shows "n \<le> 76 \<and> (x = Inr True \<longrightarrow> 1 \<le> n \<and> (\<exists>v. claims v = (Inr 0, w')))
    \<and> (timeout \<noteq> expected \<or> timeout < 1 \<or> 150 < timeout \<longrightarrow> n = 0 \<and> (\<exists>e. x = Inl e))"
proof (cases "timeout \<noteq> expected \<or> \<not> (1 \<le> timeout \<and> timeout \<le> 150)")
  case True
  with assms show ?thesis by (auto simp: wait_claims_zero_def)
next
  case False
  let ?poll = "act_then (act_then claims parse_claim_count) (\<lambda>n. Inr (n = 0))"
  obtain t w1 where now: "driver_now E w = (t, w1)" by force
  show ?thesis
  proof (cases t)
    case (Inl e)
    with False assms now show ?thesis by (auto simp: wait_claims_zero_def beside_count_now)
  next
    case (Inr v)
    with False assms now have run: "poll_until (beside_count E) (counted ?poll) (v + seconds timeout) (max_polls timeout) (w1, 0) = (x, (w', n))"
      by (auto simp: wait_claims_zero_def beside_count_now act_then_counted)
    have "(timeout + 1) div 2 + 1 \<le> 76" using False by linarith
    then have "max_polls timeout \<le> 76" by (simp add: max_polls_def)
    with poll_until_counted [OF run] claims_poll_True poll_until_True [of E ?poll] False show ?thesis by fastforce
  qed
qed

text \<open>A concrete wait: a claim ends during each sleep, two are left at the start.\<close>

definition demo_polls :: "int poll_env" where
  "demo_polls = \<lparr>pe_clock = (\<lambda>w. (Aware 0, w)), pe_sleep = (\<lambda>_ w. w - 1)\<rparr>"

definition demo_claims :: "(int, int) action" where
  "demo_claims w = (Inr w, w)"

lemma demo_wait: "wait_claims_zero (beside_count demo_polls) (counted demo_claims) 150 150 (2, 0) = (Inr True, (0, 3))"
  by code_simp

theorem drain_wait_bounded_witness:
  "(3 :: nat) \<le> 76 \<and> (\<exists>v. demo_claims v = (Inr 0, 0))"
  using drain_wait_bounded [OF demo_wait] by simp

subsection \<open>Retention\<close>

text \<open>
  C28. The rollback assets are kept at least a full day after the switch, and until the end of the
  first support window (nine to six on a weekday, Shanghai time) that had not started at the
  switch: no later weekday would do, and no earlier one starts after the switch.
\<close>

theorem retention_covers_next_window:
  "\<exists>d. weekday d < 5 \<and> t < at_hour d 9 \<and> (\<forall>e. weekday e < 5 \<longrightarrow> t < at_hour e 9 \<longrightarrow> d \<le> e)
    \<and> retention_deadline (Aware t) = Inr (max (t + hours 24) (at_hour d 18))"
proof -
  define day where "day = local_day t"
  have day: "day * hours 24 \<le> t + hours 8" "t + hours 8 < (day + 1) * hours 24"
  proof -
    have "hours 24 * day + local_time t mod hours 24 = t + hours 8"
      unfolding day_def local_day_def by (simp only: mult_div_mod_eq) (simp add: local_time_def)
    moreover have "0 \<le> local_time t mod hours 24" "local_time t mod hours 24 < hours 24" by (simp_all add: hours_def)
    ultimately show "day * hours 24 \<le> t + hours 8" "t + hours 8 < (day + 1) * hours 24" by (simp_all add: algebra_simps)
  qed
  have from_day: "day \<le> e" if "t < at_hour e 9" for e
  proof (rule ccontr)
    assume "\<not> day \<le> e"
    then have "e * hours 24 \<le> (day - 1) * hours 24" by (intro mult_right_mono) (simp_all add: hours_def)
    with that day(1) show False by (simp add: at_hour_def hours_def)
  qed
  have later: "t < at_hour e 9" if "day < e" for e
  proof -
    have "(day + 1) * hours 24 \<le> e * hours 24" using that by (intro mult_right_mono) (simp_all add: hours_def)
    with day(2) show ?thesis by (simp add: at_hour_def hours_def)
  qed
  let ?late = "5 \<le> weekday day \<or> at_hour day 9 \<le> t"
  define d where "d = skip_weekend (if ?late then day + 1 else day)"
  have deadline: "retention_deadline (Aware t) = Inr (max (t + hours 24) (at_hour d 18))"
    by (simp add: retention_deadline_def Let_def d_def flip: day_def)
  show ?thesis
  proof (cases ?late)
    case True
    then have d: "d = skip_weekend (day + 1)" by (simp add: d_def)
    note sk = skip_weekend_props [of "day + 1", folded d]
    have "d \<le> e" if e: "weekday e < 5" "t < at_hour e 9" for e
    proof -
      from from_day [OF e(2)] True e have "day + 1 \<le> e" by (cases "e = day") auto
      with sk e(1) show ?thesis by (metis not_le)
    qed
    with sk later [of d] deadline show ?thesis by (intro exI [of _ d]) auto
  next
    case False
    then have "d = day" by (simp add: d_def skip_weekend.simps)
    with False deadline from_day show ?thesis by (intro exI [of _ d]) auto
  qed
qed

theorem retention_covers_next_window_witness:
  "retention_deadline (Aware (at_hour 1 10)) = Inr (at_hour 4 18)"
proof -
  obtain d where d: "weekday d < 5" "at_hour 1 10 < at_hour d 9"
    "\<forall>e. weekday e < 5 \<longrightarrow> at_hour 1 10 < at_hour e 9 \<longrightarrow> d \<le> e"
    "retention_deadline (Aware (at_hour 1 10)) = Inr (max (at_hour 1 10 + hours 24) (at_hour d 18))"
    using retention_covers_next_window [of "at_hour 1 10"] by blast
  have "d \<le> 4" using d(3) by (auto simp: weekday_def at_hour_def hours_def dest: spec [of _ 4])
  moreover have "1 < d" using d(2) by (simp add: at_hour_def hours_def)
  moreover have "d \<noteq> 2" "d \<noteq> 3" using d(1) by (auto simp: weekday_def)
  ultimately have "d = 4" by linarith
  with d(4) show ?thesis by (simp add: at_hour_def hours_def)
qed

end
