(* ===== verification/Workflow_Policy.thy ===== *)
theory Workflow_Policy
  imports Spec_Prelude
begin

text \<open>
  The execution, interaction and assurance policies of \<open>contracts/workflow_policy.py\<close>, the registered
  workflow template of \<open>control/workflow/templates.py\<close> as its graph of stages, and the compiler
  \<open>control/workflow/execution_compiler.py\<close> that turns the policies into an execution plan. The digest of
  the configuration is a parameter.
\<close>

subsection \<open>Vocabulary\<close>

datatype complexity = Lite | Standard | Deep

datatype effort = Effort_off | Effort_low | Effort_medium | Effort_high | Effort_xhigh | Effort_max

datatype clarification = Minimal | Balanced | Thorough

datatype interaction_stage = Stage_goal | Stage_plan | Stage_evidence | Stage_tool_input | Stage_finalization

datatype interaction_reason = Required_context | Material_ambiguity | Preference | Retrievable | Scope_change
  | Budget_change | Applicability_unresolved | Required_parameter | User_preference_blocking

datatype interaction_mode = Autonomous | Adaptive | Interactive

datatype unavailable = Return_missing_context | Pause_task

datatype assurance_level = Basic | Grounded | Strict

datatype metadata_name = Meta_source_id | Meta_document_version | Meta_effective_date

fun complexity_rank :: "complexity \<Rightarrow> nat" where
  "complexity_rank Lite = 0"
| "complexity_rank Standard = 1"
| "complexity_rank Deep = 2"

instantiation complexity :: linorder
begin

definition less_eq_complexity :: "complexity \<Rightarrow> complexity \<Rightarrow> bool" where
  "a \<le> b \<longleftrightarrow> complexity_rank a \<le> complexity_rank b"

definition less_complexity :: "complexity \<Rightarrow> complexity \<Rightarrow> bool" where
  "a < b \<longleftrightarrow> complexity_rank a < complexity_rank b"

instance
proof
  fix a b :: complexity
  show "a \<le> b \<Longrightarrow> b \<le> a \<Longrightarrow> a = b" by (cases a; cases b) (simp_all add: less_eq_complexity_def)
qed (auto simp: less_eq_complexity_def less_complexity_def)

end

subsection \<open>Policies\<close>

record workflow_budget =
  wb_model_calls :: int
  wb_retrieval_calls :: int
  wb_tool_calls :: int
  wb_total_tokens :: int
  wb_output_tokens :: int
  wb_active_seconds :: int

definition workflow_budget_ok :: "workflow_budget \<Rightarrow> bool" where
  "workflow_budget_ok b \<longleftrightarrow> 2 \<le> wb_model_calls b \<and> wb_model_calls b \<le> 128
     \<and> 1 \<le> wb_retrieval_calls b \<and> wb_retrieval_calls b \<le> 32
     \<and> 0 \<le> wb_tool_calls b \<and> wb_tool_calls b \<le> 8
     \<and> 512 \<le> wb_total_tokens b \<and> wb_total_tokens b \<le> 1000000
     \<and> 64 \<le> wb_output_tokens b \<and> wb_output_tokens b \<le> 131072
     \<and> 1 \<le> wb_active_seconds b \<and> wb_active_seconds b \<le> 1800
     \<and> wb_output_tokens b < wb_total_tokens b"

definition default_budget :: workflow_budget where
  "default_budget = \<lparr>wb_model_calls = 16, wb_retrieval_calls = 5, wb_tool_calls = 4,
     wb_total_tokens = 262144, wb_output_tokens = 65536, wb_active_seconds = 600\<rparr>"

record execution_policy =
  ep_complexity :: complexity
  ep_ceiling :: complexity
  ep_auto_escalate :: bool
  ep_effort :: "effort option"
  ep_budget :: workflow_budget

definition execution_policy_ok :: "execution_policy \<Rightarrow> bool" where
  "execution_policy_ok p \<longleftrightarrow> workflow_budget_ok (ep_budget p) \<and> \<not> ep_ceiling p < ep_complexity p"

definition default_execution :: execution_policy where
  "default_execution = \<lparr>ep_complexity = Standard, ep_ceiling = Deep, ep_auto_escalate = True,
     ep_effort = None, ep_budget = default_budget\<rparr>"

record interaction_checkpoint =
  ic_intensity :: "clarification option"
  ic_ask_on :: "interaction_reason list"

definition interaction_checkpoint_ok :: "interaction_checkpoint \<Rightarrow> bool" where
  "interaction_checkpoint_ok c \<longleftrightarrow> len (ic_ask_on c) \<le> 10"

record interaction_policy =
  ip_mode :: interaction_mode
  ip_intensity :: clarification
  ip_rounds :: int
  ip_questions :: int
  ip_unavailable :: unavailable
  ip_wait :: int
  ip_checkpoints :: "(interaction_stage \<times> interaction_checkpoint) list"

definition interaction_policy_ok :: "interaction_policy \<Rightarrow> bool" where
  "interaction_policy_ok p \<longleftrightarrow> 0 \<le> ip_rounds p \<and> ip_rounds p \<le> 16 \<and> 1 \<le> ip_questions p \<and> ip_questions p \<le> 3
     \<and> 1 \<le> ip_wait p \<and> ip_wait p \<le> 604800 \<and> list_all (\<lambda>(_, c). interaction_checkpoint_ok c) (ip_checkpoints p)"

record assurance_requirements =
  ar_min_sources :: int
  ar_max_age :: "int option"
  ar_metadata :: "metadata_name list"

definition assurance_requirements_ok :: "assurance_requirements \<Rightarrow> bool" where
  "assurance_requirements_ok r \<longleftrightarrow> 1 \<le> ar_min_sources r \<and> ar_min_sources r \<le> 8
     \<and> opt_ok (\<lambda>n. 0 \<le> n \<and> n \<le> 36500) (ar_max_age r)"

record assurance_policy =
  as_level :: assurance_level
  as_evidence :: assurance_requirements
  as_checkpoints :: "(interaction_stage \<times> assurance_requirements) list"

definition assurance_policy_ok :: "assurance_policy \<Rightarrow> bool" where
  "assurance_policy_ok p \<longleftrightarrow> assurance_requirements_ok (as_evidence p)
     \<and> list_all (\<lambda>(_, r). assurance_requirements_ok r) (as_checkpoints p)"

subsection \<open>The workflow template\<close>

text \<open>The stages of \<open>react_enterprise_qa_v3\<close> in their order, with the edges their descriptors declare.\<close>

datatype workflow_stage = Intent_resolution | Plan | Clarification | Retrieval_review | Retrieval
  | Model_answer | Tool_review | Tool | Memory | Response

definition template_stages :: "workflow_stage list" where
  "template_stages = [Intent_resolution, Plan, Clarification, Retrieval_review, Retrieval, Model_answer,
     Tool_review, Tool, Memory, Response]"

fun stage_successors :: "workflow_stage \<Rightarrow> workflow_stage list" where
  "stage_successors Intent_resolution = [Plan]"
| "stage_successors Plan = [Clarification, Retrieval_review, Tool_review, Response]"
| "stage_successors Clarification = [Response]"
| "stage_successors Retrieval_review = [Retrieval, Response]"
| "stage_successors Retrieval = [Plan, Memory, Model_answer, Response]"
| "stage_successors Model_answer = [Plan, Model_answer, Response]"
| "stage_successors Tool_review = [Tool, Response]"
| "stage_successors Tool = [Memory, Response]"
| "stage_successors Memory = [Response]"
| "stage_successors Response = []"

fun stage_predecessors :: "workflow_stage \<Rightarrow> workflow_stage list" where
  "stage_predecessors Intent_resolution = []"
| "stage_predecessors Plan = [Intent_resolution]"
| "stage_predecessors Clarification = [Plan]"
| "stage_predecessors Retrieval_review = [Plan]"
| "stage_predecessors Retrieval = [Retrieval_review]"
| "stage_predecessors Model_answer = [Plan, Retrieval, Model_answer]"
| "stage_predecessors Tool_review = [Plan]"
| "stage_predecessors Tool = [Tool_review]"
| "stage_predecessors Memory = [Retrieval, Tool]"
| "stage_predecessors Response = [Plan, Clarification, Retrieval_review, Retrieval, Model_answer,
     Tool_review, Tool, Memory]"

subsection \<open>The compiled plan\<close>

datatype stage_mode = Execute | Conditional | Deterministic | Bypass

text \<open>\<open>None\<close> stands for the complexity \<open>legacy\<close>, used when no execution policy is configured.\<close>

record stage_plan =
  sp_stage :: workflow_stage
  sp_mode :: stage_mode
  sp_reason :: string
  sp_checks :: "string list"

record execution_plan =
  xp_requested :: "complexity option"
  xp_effective :: "complexity option"
  xp_digest :: string
  xp_stages :: "stage_plan list"
  xp_budget :: "workflow_budget option"
  xp_effort :: "effort option"
  xp_blocked :: "string option"
  xp_escalated :: bool

definition execution_plan_ok :: "execution_plan \<Rightarrow> bool" where
  "execution_plan_ok p \<longleftrightarrow> hex64_ok (xp_digest p) \<and> opt_ok workflow_budget_ok (xp_budget p)"

fun mandatory_checks :: "workflow_stage \<Rightarrow> string list" where
  "mandatory_checks Intent_resolution = [''required_context'', ''business_flow_admission'']"
| "mandatory_checks Plan = [''required_queries'', ''action_eligibility'', ''budget'']"
| "mandatory_checks Clarification = [''required_context'', ''typed_answer_binding'']"
| "mandatory_checks Retrieval_review = [''policy'', ''review'']"
| "mandatory_checks Retrieval = [''evidence_admission'', ''required_query_completion'']"
| "mandatory_checks Model_answer = [''evidence_binding'', ''answer_validation'']"
| "mandatory_checks Tool_review = [''policy'', ''server_authorization'']"
| "mandatory_checks Tool = [''parameter_binding'', ''tool_gateway'']"
| "mandatory_checks Response = [''answer_validation'', ''assurance'', ''goal_acceptance'']"
| "mandatory_checks Memory = []"

definition plan_mode :: "complexity option \<Rightarrow> bool \<Rightarrow> bool \<Rightarrow> workflow_stage \<Rightarrow> stage_mode \<times> string" where
  "plan_mode effective tools memory s =
     (if s = Clarification then (Conditional, ''interaction_policy_and_missing_context'')
      else if s = Tool \<or> s = Tool_review
      then (if tools then (Conditional, ''tool_action_requires_all_gates'') else (Bypass, ''capability_disabled''))
      else if s = Memory \<and> (\<not> memory \<or> effective = Some Lite)
      then (Bypass, if \<not> memory then ''capability_disabled'' else ''lite_optional_memory'')
      else if s = Plan \<and> effective = Some Lite then (Deterministic, ''single_required_query_or_terminal_intent'')
      else if s = Retrieval_review \<and> effective = Some Lite then (Conditional, ''existing_low_risk_review_rules'')
      else if s = Retrieval_review \<and> effective = Some Deep then (Execute, ''deep_configured_review_without_fast_path'')
      else (Execute, if effective = None then ''legacy_execution'' else ''required_workflow_stage''))"

definition plan_stage :: "complexity option \<Rightarrow> bool \<Rightarrow> bool \<Rightarrow> workflow_stage \<Rightarrow> stage_plan" where
  "plan_stage effective tools memory s = \<lparr>sp_stage = s, sp_mode = fst (plan_mode effective tools memory s),
     sp_reason = snd (plan_mode effective tools memory s), sp_checks = mandatory_checks s\<rparr>"

text \<open>A lite request that needs more than one query or a tool escalates to standard, or blocks.\<close>

definition resolve_complexity :: "execution_policy option \<Rightarrow> int \<Rightarrow> bool \<Rightarrow> complexity option \<times> string option" where
  "resolve_complexity execution queries tool_tasks =
     (case execution of
        None \<Rightarrow> (None, None)
      | Some p \<Rightarrow>
          if ep_complexity p = Lite \<and> (1 < queries \<or> tool_tasks)
          then if ep_auto_escalate p \<and> ep_ceiling p \<noteq> Lite then (Some Standard, None)
               else (Some Lite, Some ''complexity_ceiling_exceeded'')
          else (Some (ep_complexity p), None))"

type_synonym plan_digest =
  "execution_policy option \<Rightarrow> interaction_policy option \<Rightarrow> assurance_policy option \<Rightarrow> bool \<Rightarrow> bool \<Rightarrow> string"

definition compile_execution_plan ::
  "plan_digest \<Rightarrow> execution_policy option \<Rightarrow> interaction_policy option \<Rightarrow> assurance_policy option
     \<Rightarrow> bool \<Rightarrow> bool \<Rightarrow> int \<Rightarrow> bool \<Rightarrow> string + execution_plan" where
  "compile_execution_plan digest execution interaction assurance tools memory queries tool_tasks =
     (if \<not> (0 \<le> queries \<and> queries \<le> 5)
      then Inl ''required_query_count must be between zero and five''
      else let requested = map_option ep_complexity execution;
               (effective, blocked) = resolve_complexity execution queries tool_tasks;
               plan = \<lparr>xp_requested = requested, xp_effective = effective,
                  xp_digest = digest execution interaction assurance tools memory,
                  xp_stages = map (plan_stage effective tools memory) template_stages,
                  xp_budget = map_option ep_budget execution,
                  xp_effort = (case execution of None \<Rightarrow> None | Some p \<Rightarrow> ep_effort p),
                  xp_blocked = blocked, xp_escalated = (requested \<noteq> effective)\<rparr>
           in if execution_plan_ok plan then Inr plan else Inl ''execution plan validation'')"

end
