(* ===== verification/Budget_Ledger.thy ===== *)
theory Budget_Ledger
  imports Workflow_Policy
begin

text \<open>
  The workflow budget ledger and the budgeted model provider of
  \<open>control/workflow/execution_budget.py\<close>. A ledger charges a model call when it is reserved and settles
  it when the call completes. Readings of the monotonic clock are arguments, one for each time the
  code reads it; seconds are exact rationals. The lock makes each operation atomic.
\<close>

subsection \<open>Values handed over from outside\<close>

text \<open>
  What a usage mapping may hold under a key, as far as the checks distinguish it: an integer, a
  Boolean, a finite float, a float that is not finite, \<open>None\<close>, or anything else.
\<close>

datatype raw = Raw_int int | Raw_bool bool | Raw_float rat | Raw_not_finite | Raw_none | Raw_other

datatype budget_reason = Model_calls_exhausted | Retrieval_calls_exhausted | Tool_calls_exhausted
  | Token_budget_exhausted | Active_time_exhausted

datatype ledger_error = Budget_exceeded budget_reason | Ledger_value_error string

definition counter :: "raw \<Rightarrow> ledger_error + int" where
  "counter v = (case v of
     Raw_int n \<Rightarrow> if n < 0 then Inl (Ledger_value_error ''budget counters must be nonnegative integers'') else Inr n
   | _ \<Rightarrow> Inl (Ledger_value_error ''budget counters must be nonnegative integers''))"

text \<open>A usage mapping: \<open>None\<close> for a missing key.\<close>

record usage_map =
  um_model_calls :: "raw option"
  um_retrieval_calls :: "raw option"
  um_tool_calls :: "raw option"
  um_tokens :: "raw option"
  um_unknown_calls :: "raw option"
  um_active_seconds :: "raw option"

definition no_usage :: usage_map where
  "no_usage = \<lparr>um_model_calls = None, um_retrieval_calls = None, um_tool_calls = None, um_tokens = None,
     um_unknown_calls = None, um_active_seconds = None\<rparr>"

definition get_raw :: "raw option \<Rightarrow> raw" where
  "get_raw v = (case v of None \<Rightarrow> Raw_int 0 | Some r \<Rightarrow> r)"

definition elapsed_of :: "raw \<Rightarrow> ledger_error + rat" where
  "elapsed_of v = (case v of
     Raw_int n \<Rightarrow> if n < 0 then Inl (Ledger_value_error ''active_seconds must be a finite nonnegative number'')
       else Inr (of_int n)
   | Raw_float x \<Rightarrow> if x < 0 then Inl (Ledger_value_error ''active_seconds must be a finite nonnegative number'')
       else Inr x
   | _ \<Rightarrow> Inl (Ledger_value_error ''active_seconds must be a finite nonnegative number''))"

subsection \<open>The ledger\<close>

record reservation =
  rv_id :: string
  rv_input :: int
  rv_output :: int
  rv_timeout :: rat

definition rv_tokens :: "reservation \<Rightarrow> int" where
  "rv_tokens r = rv_input r + rv_output r"

record ledger =
  lg_budget :: workflow_budget
  lg_started :: rat
  lg_model_calls :: int
  lg_retrieval_calls :: int
  lg_tool_calls :: int
  lg_tokens :: int
  lg_unknown_calls :: int
  lg_prior :: rat
  lg_pending :: "reservation list"
  lg_used :: bool
  lg_restored :: bool

definition new_ledger :: "workflow_budget \<Rightarrow> usage_map option \<Rightarrow> rat \<Rightarrow> ledger_error + ledger" where
  "new_ledger B usage now =
     (let previous = (case usage of None \<Rightarrow> no_usage | Some u \<Rightarrow> u) in
      rbind (counter (get_raw (um_model_calls previous))) (\<lambda>models.
      rbind (counter (get_raw (um_retrieval_calls previous))) (\<lambda>retrievals.
      rbind (counter (get_raw (um_tool_calls previous))) (\<lambda>tools.
      rbind (if get_raw (um_tokens previous) = Raw_none then Inr (wb_total_tokens B)
             else counter (get_raw (um_tokens previous))) (\<lambda>tokens.
      rbind (counter (get_raw (um_unknown_calls previous))) (\<lambda>unknown.
      rbind (elapsed_of (get_raw (um_active_seconds previous))) (\<lambda>elapsed.
        Inr \<lparr>lg_budget = B, lg_started = now, lg_model_calls = models, lg_retrieval_calls = retrievals,
             lg_tool_calls = tools, lg_tokens = tokens, lg_unknown_calls = unknown, lg_prior = elapsed,
             lg_pending = [], lg_used = False, lg_restored = (usage \<noteq> None)\<rparr>)))))))"

definition restore_usage :: "usage_map \<Rightarrow> rat \<Rightarrow> ledger \<Rightarrow> ledger_error + ledger" where
  "restore_usage usage now L =
     rbind (new_ledger (lg_budget L) (Some usage) now) (\<lambda>restored.
       if lg_used L \<or> lg_restored L
       then Inl (Ledger_value_error ''workflow budget usage can only be restored before first use'')
       else Inr (L\<lparr>lg_model_calls := lg_model_calls restored, lg_retrieval_calls := lg_retrieval_calls restored,
              lg_tool_calls := lg_tool_calls restored, lg_tokens := lg_tokens restored,
              lg_unknown_calls := lg_unknown_calls restored, lg_prior := lg_prior restored,
              lg_started := lg_started restored, lg_restored := True\<rparr>))"

definition elapsed_seconds :: "ledger \<Rightarrow> rat \<Rightarrow> rat" where
  "elapsed_seconds L now = lg_prior L + max 0 (now - lg_started L)"

record counters =
  ct_model_calls :: int
  ct_retrieval_calls :: int
  ct_tool_calls :: int
  ct_tokens :: int
  ct_active_seconds :: rat
  ct_unknown_calls :: int

definition ledger_snapshot :: "ledger \<Rightarrow> rat \<Rightarrow> counters" where
  "ledger_snapshot L now = \<lparr>ct_model_calls = lg_model_calls L, ct_retrieval_calls = lg_retrieval_calls L,
     ct_tool_calls = lg_tool_calls L, ct_tokens = lg_tokens L, ct_active_seconds = elapsed_seconds L now,
     ct_unknown_calls = lg_unknown_calls L + len (lg_pending L)\<rparr>"

definition ensure_available :: "ledger \<Rightarrow> rat \<Rightarrow> ledger_error + unit" where
  "ensure_available L now =
     (if of_int (wb_active_seconds (lg_budget L)) \<le> elapsed_seconds L now then Inl (Budget_exceeded Active_time_exhausted)
      else if wb_total_tokens (lg_budget L) \<le> lg_tokens L then Inl (Budget_exceeded Token_budget_exhausted)
      else Inr ())"

text \<open>The checks of the arguments of \<open>reserve_model\<close>, before the lock is taken.\<close>

definition output_limit :: "workflow_budget \<Rightarrow> raw option \<Rightarrow> ledger_error + int" where
  "output_limit B limit = (case limit of
     None \<Rightarrow> Inr (wb_output_tokens B)
   | Some v \<Rightarrow> rbind (counter v) (\<lambda>n.
       if n = 0 then Inl (Ledger_value_error ''max_output_tokens must be positive'')
       else Inr (min (wb_output_tokens B) n)))"

definition timeout_limit :: "raw option \<Rightarrow> ledger_error + rat option" where
  "timeout_limit limit = (case limit of
     None \<Rightarrow> Inr None
   | Some (Raw_int n) \<Rightarrow> if n \<le> 0 then Inl (Ledger_value_error ''timeout_seconds must be finite and positive'')
       else Inr (Some (of_int n))
   | Some (Raw_float x) \<Rightarrow> if x \<le> 0 then Inl (Ledger_value_error ''timeout_seconds must be finite and positive'')
       else Inr (Some x)
   | Some _ \<Rightarrow> Inl (Ledger_value_error ''timeout_seconds must be finite and positive''))"

text \<open>
  The clock is read once by the availability check and once for the remaining time; \<open>rid\<close> is the
  fresh identifier.
\<close>

definition reserve_model ::
  "string \<Rightarrow> raw \<Rightarrow> raw option \<Rightarrow> raw option \<Rightarrow> rat \<Rightarrow> rat \<Rightarrow> ledger \<Rightarrow> ledger_error + (reservation \<times> ledger)" where
  "reserve_model rid estimate limit timeout t1 t2 L =
     rbind (counter estimate) (\<lambda>estimated.
     let input = max 1 estimated in
     rbind (output_limit (lg_budget L) limit) (\<lambda>output.
     rbind (timeout_limit timeout) (\<lambda>requested.
     rbind (ensure_available L t1) (\<lambda>_.
       if wb_model_calls (lg_budget L) \<le> lg_model_calls L then Inl (Budget_exceeded Model_calls_exhausted)
       else if wb_total_tokens (lg_budget L) < lg_tokens L + input + output then Inl (Budget_exceeded Token_budget_exhausted)
       else let remaining = of_int (wb_active_seconds (lg_budget L)) - elapsed_seconds L t2 in
         if remaining \<le> 0 then Inl (Budget_exceeded Active_time_exhausted)
         else let r = \<lparr>rv_id = rid, rv_input = input, rv_output = output,
                       rv_timeout = min (case requested of None \<Rightarrow> remaining | Some x \<Rightarrow> x) remaining\<rparr>
              in Inr (r, L\<lparr>lg_model_calls := lg_model_calls L + 1, lg_used := True,
                        lg_tokens := lg_tokens L + rv_tokens r,
                        lg_pending := dict_put rv_id r (lg_pending L)\<rparr>)))))"

record token_usage =
  tu_input :: int
  tu_output :: int
  tu_total :: "int option"

text \<open>The fields were validated as integers; negative ones count as malformed.\<close>

definition actual_usage_tokens :: "token_usage option \<Rightarrow> int option" where
  "actual_usage_tokens usage = (case usage of
     None \<Rightarrow> None
   | Some u \<Rightarrow>
       if tu_input u < 0 \<or> tu_output u < 0 \<or> (case tu_total u of None \<Rightarrow> False | Some t \<Rightarrow> t < 0) then None
       else let total = max (tu_input u + tu_output u) (case tu_total u of None \<Rightarrow> 0 | Some t \<Rightarrow> t)
            in if 0 < total then Some total else None)"

definition complete_model :: "reservation \<Rightarrow> token_usage option \<Rightarrow> ledger \<Rightarrow> ledger_error + ledger" where
  "complete_model r usage L =
     (if find (\<lambda>p. rv_id p = rv_id r) (lg_pending L) \<noteq> Some r
      then Inl (Ledger_value_error ''unknown or completed model reservation'')
      else let settled = (case actual_usage_tokens usage of
                   None \<Rightarrow> L\<lparr>lg_unknown_calls := lg_unknown_calls L + 1\<rparr>
                 | Some n \<Rightarrow> L\<lparr>lg_tokens := lg_tokens L + (n - rv_tokens r)\<rparr>)
           in Inr (settled\<lparr>lg_pending := filter (\<lambda>p. rv_id p \<noteq> rv_id r) (lg_pending L)\<rparr>))"

definition consume_retrieval :: "rat \<Rightarrow> ledger \<Rightarrow> ledger_error + ledger" where
  "consume_retrieval now L =
     rbind (ensure_available L now) (\<lambda>_.
       if wb_retrieval_calls (lg_budget L) \<le> lg_retrieval_calls L then Inl (Budget_exceeded Retrieval_calls_exhausted)
       else Inr (L\<lparr>lg_retrieval_calls := lg_retrieval_calls L + 1, lg_used := True\<rparr>))"

definition consume_tool :: "rat \<Rightarrow> ledger \<Rightarrow> ledger_error + ledger" where
  "consume_tool now L =
     rbind (ensure_available L now) (\<lambda>_.
       if wb_tool_calls (lg_budget L) \<le> lg_tool_calls L then Inl (Budget_exceeded Tool_calls_exhausted)
       else Inr (L\<lparr>lg_tool_calls := lg_tool_calls L + 1, lg_used := True\<rparr>))"

subsection \<open>Reasoning effort\<close>

text \<open>
  \<open>capabilities/models/reasoning.py\<close>: which effort a provider and model admit. The host is the one
  \<open>urlsplit\<close> reads from the base URL or from the provider's default one.
\<close>

datatype protocol = Openai | Deepseek

record resolution =
  re_requested :: effort
  re_effective :: effort
  re_protocol :: protocol

text \<open>The effective value \<open>none\<close> is the effort that is off.\<close>

definition thinking_enabled :: "resolution \<Rightarrow> bool" where
  "thinking_enabled r \<longleftrightarrow> re_effective r \<noteq> Effort_off"

definition openai_efforts :: "(string \<times> effort list) list" where
  "openai_efforts = [(''gpt-5'', [Effort_low, Effort_medium, Effort_high]),
     (''gpt-5-2025-08-07'', [Effort_low, Effort_medium, Effort_high]),
     (''gpt-5.1'', [Effort_off, Effort_low, Effort_medium, Effort_high]),
     (''gpt-5.1-2025-11-13'', [Effort_off, Effort_low, Effort_medium, Effort_high]),
     (''gpt-5.2'', [Effort_off, Effort_low, Effort_medium, Effort_high, Effort_xhigh]),
     (''gpt-5.2-2025-12-11'', [Effort_off, Effort_low, Effort_medium, Effort_high, Effort_xhigh]),
     (''gpt-5.4'', [Effort_off, Effort_low, Effort_medium, Effort_high, Effort_xhigh]),
     (''gpt-5.5'', [Effort_off, Effort_low, Effort_medium, Effort_high, Effort_xhigh]),
     (''gpt-6-astra'', [Effort_low, Effort_medium, Effort_high, Effort_xhigh, Effort_max])]"

definition deepseek_models :: "string list" where
  "deepseek_models = [''deepseek-flash'', ''deepseek-v4-pro'', ''deepseek-v4-flash'', ''deepseek-v4-flash-vision-exp'']"

definition official_provider :: "string option \<Rightarrow> string option" where
  "official_provider host = (if host = Some ''api.openai.com'' then Some ''openai''
     else if host = Some ''api.deepseek.com'' then Some ''deepseek'' else None)"

definition effort_supported :: "string \<Rightarrow> effort \<Rightarrow> bool" where
  "effort_supported model e = (case map_of openai_efforts model of None \<Rightarrow> False | Some es \<Rightarrow> e \<in> set es)"

definition resolve_reasoning_effort ::
  "string \<Rightarrow> string \<Rightarrow> string option \<Rightarrow> effort option \<Rightarrow> string + resolution option" where
  "resolve_reasoning_effort provider model host requested =
     (case requested of None \<Rightarrow> Inr None
      | Some e \<Rightarrow>
        if provider \<in> {''openai'', ''deepseek''} \<and> official_provider host \<noteq> None \<and> Some provider \<noteq> official_provider host
        then Inl ''reasoning_effort provider conflicts with its official endpoint.''
        else if provider = ''deepseek'' \<or> (provider = ''openai_compatible'' \<and> host = Some ''api.deepseek.com'')
        then if model \<notin> set deepseek_models then Inl ''reasoning_effort is unsupported for the configured model.''
             else Inr (Some \<lparr>re_requested = e, re_effective = (if e \<in> {Effort_medium, Effort_xhigh} then Effort_high else e),
                    re_protocol = Deepseek\<rparr>)
        else if provider = ''openai'' \<or> (provider = ''openai_compatible'' \<and> host = Some ''api.openai.com'')
        then if \<not> effort_supported model e then Inl ''reasoning_effort is unsupported for the configured model.''
             else Inr (Some \<lparr>re_requested = e, re_effective = e, re_protocol = Openai\<rparr>)
        else Inl ''reasoning_effort has no admitted provider capability.'')"

subsection \<open>The budgeted provider\<close>

text \<open>
  A model request as far as budgeting reads or changes it; \<open>mq_body\<close> is the rest. The provider
  behind the decorator is a parameter: its token estimate (any value, only a positive integer is
  used), the byte length of the canonical payload, and the call, which returns a response or
  raises.
\<close>

record 'm model_request =
  mq_body :: 'm
  mq_effort :: "effort option"
  mq_temperature :: "rat option"
  mq_max_output :: "raw option"
  mq_timeout :: "raw option"

record ('m, 'r, 'w) provider =
  pv_name :: string
  pv_model :: string
  pv_estimate :: "'m model_request \<Rightarrow> raw"
  pv_bytes :: "'m model_request \<Rightarrow> int"
  pv_generate :: "'m model_request \<Rightarrow> 'w \<Rightarrow> ('r \<times> token_usage option) option \<times> 'w"

record provider_defaults =
  pd_effort :: "effort option"
  pd_temperature :: "rat option"
  pd_host :: "string option"
  pd_max_output :: "raw option"
  pd_timeout :: "raw option"

datatype generate_error = Model_error string | Ledger_failed ledger_error | Provider_raised

definition first_some :: "'a option \<Rightarrow> 'a option \<Rightarrow> 'a option" where
  "first_some a b = (case a of None \<Rightarrow> b | Some x \<Rightarrow> Some x)"

text \<open>The temperature that is sent: none while reasoning is enabled, unless an explicit one conflicts.\<close>

definition controlled_temperature :: "provider_defaults \<Rightarrow> resolution option \<Rightarrow> rat option \<Rightarrow> generate_error + rat option" where
  "controlled_temperature D res t =
     (case res of None \<Rightarrow> Inr t
      | Some r \<Rightarrow> if thinking_enabled r \<and> t \<noteq> None
          then if t \<noteq> pd_temperature D
               then Inl (Model_error ''explicit temperature conflicts with reasoning_effort.'') else Inr None
          else Inr t)"

definition estimated_tokens :: "('m, 'r, 'w) provider \<Rightarrow> 'm model_request \<Rightarrow> raw" where
  "estimated_tokens P q = (case pv_estimate P q of
     Raw_int n \<Rightarrow> if 0 < n then Raw_int n else Raw_int (max 1 (pv_bytes P q))
   | _ \<Rightarrow> Raw_int (max 1 (pv_bytes P q)))"

definition controlled_request ::
  "('m, 'r, 'w) provider \<Rightarrow> provider_defaults \<Rightarrow> 'm model_request \<Rightarrow> generate_error + 'm model_request" where
  "controlled_request P D q =
     (let effort = first_some (mq_effort q) (pd_effort D) in
      case resolve_reasoning_effort (pv_name P) (pv_model P) (pd_host D) effort of
        Inl e \<Rightarrow> Inl (Model_error e)
      | Inr res \<Rightarrow> rbind (controlled_temperature D res (mq_temperature q)) (\<lambda>t.
          Inr (q\<lparr>mq_effort := effort, mq_temperature := t\<rparr>)))"

definition lift_ledger :: "ledger_error + 'a \<Rightarrow> generate_error + 'a" where
  "lift_ledger r = map_sum Ledger_failed id r"

definition budgeted_generate ::
  "('m, 'r, 'w) provider \<Rightarrow> provider_defaults \<Rightarrow> string \<Rightarrow> rat \<Rightarrow> rat \<Rightarrow> 'm model_request \<Rightarrow> ledger \<Rightarrow> 'w
     \<Rightarrow> (generate_error + 'r) \<times> ledger \<times> 'w" where
  "budgeted_generate P D rid t1 t2 q L w =
     (case rbind (controlled_request P D q) (\<lambda>c.
             rbind (lift_ledger (reserve_model rid (estimated_tokens P c) (first_some (mq_max_output q) (pd_max_output D))
                      (first_some (mq_timeout q) (pd_timeout D)) t1 t2 L)) (\<lambda>(r, L1). Inr (c, r, L1))) of
        Inl e \<Rightarrow> (Inl e, L, w)
      | Inr (c, r, L1) \<Rightarrow>
          (case pv_generate P (c\<lparr>mq_max_output := Some (Raw_int (rv_output r)), mq_timeout := Some (Raw_float (rv_timeout r))\<rparr>) w of
             (None, w') \<Rightarrow>
               (case complete_model r None L1 of Inl e \<Rightarrow> (Inl (Ledger_failed e), L1, w') | Inr L2 \<Rightarrow> (Inl Provider_raised, L2, w'))
           | (Some (response, usage), w') \<Rightarrow>
               (case complete_model r usage L1 of Inl e \<Rightarrow> (Inl (Ledger_failed e), L1, w') | Inr L2 \<Rightarrow> (Inr response, L2, w'))))"

end
