(* ===== verification/Budget_Runs.thy ===== *)
theory Budget_Runs
  imports Budget_Ledger Task_Service
begin

text \<open>
  Histories of one ledger, and of the ledgers of a task's successive runs: each run restores its
  ledger from the task's usage (\<open>ControlledReActOrchestrator.start\<close>) and either commits what it
  consumed as a delta or is recorded as lost.
\<close>

subsection \<open>Events of a ledger\<close>

datatype ledger_event = Model_reserved reservation | Model_completed reservation "token_usage option"
  | Retrieval_consumed | Tool_consumed

text \<open>Identifiers of reservations are fresh among the pending ones.\<close>

inductive ledger_step :: "ledger \<Rightarrow> ledger_event \<Rightarrow> ledger \<Rightarrow> bool" where
  reserve: "reserve_model rid estimate limit timeout t1 t2 L = Inr (r, L') \<Longrightarrow> rid \<notin> rv_id ` set (lg_pending L) \<Longrightarrow>
    ledger_step L (Model_reserved r) L'"
| complete: "complete_model r usage L = Inr L' \<Longrightarrow> ledger_step L (Model_completed r usage) L'"
| retrieval: "consume_retrieval t L = Inr L' \<Longrightarrow> ledger_step L Retrieval_consumed L'"
| tool: "consume_tool t L = Inr L' \<Longrightarrow> ledger_step L Tool_consumed L'"

inductive_cases reserve_stepE: "ledger_step L (Model_reserved r) L'"
inductive_cases complete_stepE: "ledger_step L (Model_completed r usage) L'"
inductive_cases retrieval_stepE: "ledger_step L Retrieval_consumed L'"
inductive_cases tool_stepE: "ledger_step L Tool_consumed L'"

inductive ledger_run :: "ledger \<Rightarrow> ledger_event list \<Rightarrow> ledger \<Rightarrow> bool" where
  none: "ledger_run L [] L"
| more: "ledger_run L es M \<Longrightarrow> ledger_step M e L' \<Longrightarrow> ledger_run L (es @ [e]) L'"

definition model_calls :: "ledger_event list \<Rightarrow> int" where
  "model_calls es = int (length (filter (\<lambda>e. \<exists>r. e = Model_reserved r) es))"

definition retrieval_calls :: "ledger_event list \<Rightarrow> int" where
  "retrieval_calls es = int (length (filter (\<lambda>e. e = Retrieval_consumed) es))"

definition tool_calls :: "ledger_event list \<Rightarrow> int" where
  "tool_calls es = int (length (filter (\<lambda>e. e = Tool_consumed) es))"

text \<open>What an event adds to the token count.\<close>

fun event_charge :: "ledger_event \<Rightarrow> int" where
  "event_charge (Model_reserved r) = rv_tokens r"
| "event_charge (Model_completed r usage) =
     (case actual_usage_tokens usage of None \<Rightarrow> 0 | Some n \<Rightarrow> n - rv_tokens r)"
| "event_charge e = 0"

lemma calls_simps [simp]:
  "model_calls [] = 0" "retrieval_calls [] = 0" "tool_calls [] = 0"
  "model_calls (e # es) = model_calls es + (if \<exists>r. e = Model_reserved r then 1 else 0)"
  "retrieval_calls (e # es) = retrieval_calls es + (if e = Retrieval_consumed then 1 else 0)"
  "tool_calls (e # es) = tool_calls es + (if e = Tool_consumed then 1 else 0)"
  "model_calls (es @ fs) = model_calls es + model_calls fs"
  "retrieval_calls (es @ fs) = retrieval_calls es + retrieval_calls fs"
  "tool_calls (es @ fs) = tool_calls es + tool_calls fs"
  "0 \<le> model_calls es" "0 \<le> retrieval_calls es" "0 \<le> tool_calls es"
  by (simp_all add: model_calls_def retrieval_calls_def tool_calls_def)

subsection \<open>Invariants\<close>

definition pending_tokens :: "ledger \<Rightarrow> int" where
  "pending_tokens L = sum_list (map rv_tokens (lg_pending L))"

text \<open>Settled charges are not negative: pending reservations are fully contained in the token count.\<close>

definition ledger_ok :: "ledger \<Rightarrow> bool" where
  "ledger_ok L \<longleftrightarrow> workflow_budget_ok (lg_budget L) \<and> 0 \<le> lg_model_calls L \<and> 0 \<le> lg_retrieval_calls L \<and> 0 \<le> lg_tool_calls L
     \<and> 0 \<le> lg_unknown_calls L \<and> 0 \<le> lg_prior L \<and> distinct (map rv_id (lg_pending L))
     \<and> pending_tokens L \<le> lg_tokens L \<and> (\<forall>r \<in> set (lg_pending L). 0 < rv_input r \<and> 0 < rv_output r)"

lemma counter_Inr [simp]: "counter v = Inr n \<longleftrightarrow> v = Raw_int n \<and> 0 \<le> n"
  by (auto simp: counter_def split: raw.splits if_splits)

lemma elapsed_of_nonneg: "elapsed_of v = Inr x \<Longrightarrow> 0 \<le> x"
  by (auto simp: elapsed_of_def split: raw.splits if_splits)

lemma new_ledgerE:
  assumes "new_ledger B usage now = Inr L"
  obtains "lg_budget L = B" "lg_started L = now" "0 \<le> lg_model_calls L" "0 \<le> lg_retrieval_calls L" "0 \<le> lg_tool_calls L"
    "0 \<le> lg_unknown_calls L" "0 \<le> lg_prior L" "lg_pending L = []" "\<not> lg_used L" "lg_restored L \<longleftrightarrow> usage \<noteq> None"
    "0 \<le> lg_tokens L \<or> lg_tokens L = wb_total_tokens B"
  using assms by (auto simp: new_ledger_def Let_def dest!: elapsed_of_nonneg split: if_splits)

lemma new_ledger_ok:
  assumes "new_ledger B usage now = Inr L" and "workflow_budget_ok B"
  shows "ledger_ok L"
proof (rule new_ledgerE [OF assms(1)])
  assume a: "lg_budget L = B" "0 \<le> lg_model_calls L" "0 \<le> lg_retrieval_calls L" "0 \<le> lg_tool_calls L"
    "0 \<le> lg_unknown_calls L" "0 \<le> lg_prior L" "lg_pending L = []" "0 \<le> lg_tokens L \<or> lg_tokens L = wb_total_tokens B"
  moreover have "0 \<le> wb_total_tokens B" using assms(2) by (simp add: workflow_budget_ok_def)
  ultimately show ?thesis using assms(2) by (auto simp: ledger_ok_def pending_tokens_def)
qed

lemma restore_usageE:
  assumes "restore_usage usage now L = Inr L'"
  obtains R where "new_ledger (lg_budget L) (Some usage) now = Inr R" "\<not> lg_used L" "\<not> lg_restored L"
    "L' = R\<lparr>lg_pending := lg_pending L, lg_used := lg_used L\<rparr>"
proof -
  from assms obtain R where R: "new_ledger (lg_budget L) (Some usage) now = Inr R" and n: "\<not> lg_used L" "\<not> lg_restored L"
    and L': "L' = L\<lparr>lg_model_calls := lg_model_calls R, lg_retrieval_calls := lg_retrieval_calls R,
              lg_tool_calls := lg_tool_calls R, lg_tokens := lg_tokens R, lg_unknown_calls := lg_unknown_calls R,
              lg_prior := lg_prior R, lg_started := lg_started R, lg_restored := True\<rparr>"
    by (auto simp: restore_usage_def split: if_splits)
  from R have "lg_budget R = lg_budget L" "lg_restored R" by (auto elim: new_ledgerE)
  then have "L' = R\<lparr>lg_pending := lg_pending L, lg_used := lg_used L\<rparr>" unfolding L' by (cases L; cases R) simp
  with that R n show thesis by blast
qed

text \<open>The effect of each operation.\<close>

lemma ensure_availableD:
  "ensure_available L now = Inr u \<Longrightarrow> lg_tokens L < wb_total_tokens (lg_budget L)"
  by (auto simp: ensure_available_def split: if_splits)

lemma output_limit_pos: "output_limit B limit = Inr n \<Longrightarrow> workflow_budget_ok B \<Longrightarrow> 0 < n \<and> n \<le> wb_output_tokens B"
  by (auto simp: output_limit_def workflow_budget_ok_def split: option.splits if_splits)

lemma dict_put_fresh: "rv_id r \<notin> rv_id ` set xs \<Longrightarrow> dict_put rv_id r xs = xs @ [r]"
  by (induction xs) auto

lemma reserve_modelE:
  assumes "reserve_model rid estimate limit timeout t1 t2 L = Inr (r, L')"
  obtains "lg_model_calls L < wb_model_calls (lg_budget L)" "lg_tokens L < wb_total_tokens (lg_budget L)"
    "lg_tokens L + rv_tokens r \<le> wb_total_tokens (lg_budget L)" "rv_id r = rid" "1 \<le> rv_input r"
    "output_limit (lg_budget L) limit = Inr (rv_output r)"
    "rv_timeout r \<le> of_int (wb_active_seconds (lg_budget L)) - elapsed_seconds L t2"
    "L' = L\<lparr>lg_model_calls := lg_model_calls L + 1, lg_used := True, lg_tokens := lg_tokens L + rv_tokens r,
       lg_pending := dict_put rv_id r (lg_pending L)\<rparr>"
  using assms by (auto simp: reserve_model_def Let_def rv_tokens_def dest!: ensure_availableD split: if_splits)

lemma complete_modelE:
  assumes "complete_model r usage L = Inr L'"
  obtains "r \<in> set (lg_pending L)"
    "L' = (case actual_usage_tokens usage of
        None \<Rightarrow> L\<lparr>lg_unknown_calls := lg_unknown_calls L + 1\<rparr> | Some n \<Rightarrow> L\<lparr>lg_tokens := lg_tokens L + (n - rv_tokens r)\<rparr>)
      \<lparr>lg_pending := filter (\<lambda>p. rv_id p \<noteq> rv_id r) (lg_pending L)\<rparr>"
  using assms by (auto simp: complete_model_def Let_def dest: find_SomeD split: if_splits)

lemma filter_other_id:
  "distinct (map rv_id xs) \<Longrightarrow> r \<in> set xs \<Longrightarrow> filter (\<lambda>p. rv_id p \<noteq> rv_id r) xs = remove1 r xs"
proof (induction xs)
  case (Cons x xs)
  show ?case
  proof (cases "x = r")
    case True
    with Cons.prems(1) have "\<forall>p \<in> set xs. rv_id p \<noteq> rv_id r" by (auto simp: image_iff)
    then have "filter (\<lambda>p. rv_id p \<noteq> rv_id r) xs = xs" by (simp add: filter_id_conv)
    with True show ?thesis by simp
  next
    case False
    with Cons.prems have "rv_id x \<noteq> rv_id r" by auto
    with False Cons show ?thesis by auto
  qed
qed simp

lemma actual_usage_pos: "actual_usage_tokens usage = Some n \<Longrightarrow> 0 < n"
  by (auto simp: actual_usage_tokens_def Let_def split: option.splits if_splits)

lemma ledger_step_ok:
  assumes "ledger_step L e L'" and ok: "ledger_ok L"
  shows "ledger_ok L' \<and> lg_budget L' = lg_budget L"
  using assms(1)
proof cases
  case (reserve rid estimate limit timeout t1 t2 r)
  from reserve(2) show ?thesis
  proof (rule reserve_modelE)
    assume a: "rv_id r = rid" "1 \<le> rv_input r" "output_limit (lg_budget L) limit = Inr (rv_output r)"
      "L' = L\<lparr>lg_model_calls := lg_model_calls L + 1, lg_used := True, lg_tokens := lg_tokens L + rv_tokens r,
         lg_pending := dict_put rv_id r (lg_pending L)\<rparr>"
    have "dict_put rv_id r (lg_pending L) = lg_pending L @ [r]" using a(1) reserve(3) by (intro dict_put_fresh) simp
    moreover have "0 < rv_output r" using output_limit_pos [OF a(3)] ok by (simp add: ledger_ok_def)
    ultimately show ?thesis using a ok reserve(3) by (auto simp: ledger_ok_def pending_tokens_def)
  qed
next
  case (complete r usage)
  from complete(2) show ?thesis
  proof (rule complete_modelE)
    let ?f = "filter (\<lambda>p. rv_id p \<noteq> rv_id r) (lg_pending L)"
    assume r: "r \<in> set (lg_pending L)" and L': "L' = (case actual_usage_tokens usage of
        None \<Rightarrow> L\<lparr>lg_unknown_calls := lg_unknown_calls L + 1\<rparr> | Some n \<Rightarrow> L\<lparr>lg_tokens := lg_tokens L + (n - rv_tokens r)\<rparr>)
      \<lparr>lg_pending := ?f\<rparr>"
    have f: "?f = remove1 r (lg_pending L)" using filter_other_id [OF _ r] ok by (simp add: ledger_ok_def)
    have "sum_list (map rv_tokens ?f) = pending_tokens L - rv_tokens r"
      unfolding f pending_tokens_def using sum_list_map_remove1 [OF r, of rv_tokens] by simp
    moreover have "0 < rv_tokens r" using r ok by (auto simp: ledger_ok_def rv_tokens_def)
    moreover have "distinct (map rv_id ?f)" using ok by (simp add: ledger_ok_def distinct_map_filter)
    ultimately show ?thesis
      unfolding L' using ok by (auto simp: ledger_ok_def pending_tokens_def dest!: actual_usage_pos split: option.splits)
  qed
qed (use ok in \<open>auto simp: consume_retrieval_def consume_tool_def ledger_ok_def pending_tokens_def split: if_splits\<close>)

lemma ledger_run_ok:
  assumes "ledger_run L es L'" and "ledger_ok L"
  shows "ledger_ok L' \<and> lg_budget L' = lg_budget L"
  using assms by (induction rule: ledger_run.induct) (auto dest: ledger_step_ok)

text \<open>Counters are what happened, and a counter moves only below its bound.\<close>

definition bounded_count :: "int \<Rightarrow> int \<Rightarrow> int \<Rightarrow> int \<Rightarrow> bool" where
  "bounded_count before n after bound \<longleftrightarrow> after = before + n \<and> (0 < n \<longrightarrow> after \<le> bound)"

lemma ledger_run_counts:
  assumes "ledger_run L es L'" and "ledger_ok L"
  shows "bounded_count (lg_model_calls L) (model_calls es) (lg_model_calls L') (wb_model_calls (lg_budget L))
    \<and> bounded_count (lg_retrieval_calls L) (retrieval_calls es) (lg_retrieval_calls L') (wb_retrieval_calls (lg_budget L))
    \<and> bounded_count (lg_tool_calls L) (tool_calls es) (lg_tool_calls L') (wb_tool_calls (lg_budget L))
    \<and> lg_tokens L' = lg_tokens L + sum_list (map event_charge es)"
  using assms
proof (induction rule: ledger_run.induct)
  case (more L es M e L')
  have b: "lg_budget M = lg_budget L" using ledger_run_ok [OF more(1,4)] by simp
  from more(2) show ?case
  proof cases
    case (reserve rid estimate limit timeout t1 t2 r)
    from reserve(2) show ?thesis
      by (rule reserve_modelE) (use more(3) [OF more(4)] reserve(1) b in \<open>auto simp: bounded_count_def\<close>)
  next
    case (complete r usage)
    from complete(2) show ?thesis
      by (rule complete_modelE) (use more(3) [OF more(4)] complete(1) in \<open>auto simp: bounded_count_def split: option.splits\<close>)
  qed (use more(3) [OF more(4)] b in \<open>auto simp: consume_retrieval_def consume_tool_def bounded_count_def split: if_splits\<close>)
qed (simp add: bounded_count_def)

text \<open>With the tokens exhausted and nothing pending, nothing more is admitted.\<close>

lemma exhausted_run:
  assumes "ledger_run L es L'" and "wb_total_tokens (lg_budget L) \<le> lg_tokens L" and "lg_pending L = []"
  shows "es = [] \<and> L' = L"
  using assms
proof (induction rule: ledger_run.induct)
  case (more L es M e L')
  then have M: "M = L" by simp
  have "\<not> ledger_step L e L'"
  proof
    assume "ledger_step L e L'"
    then show False
    proof cases
      case (reserve rid estimate limit timeout t1 t2 r)
      from reserve(2) show False by (rule reserve_modelE) (use more in simp)
    next
      case (complete r usage)
      from complete(2) show False by (rule complete_modelE) (use more in simp)
    qed (use more in \<open>auto simp: consume_retrieval_def consume_tool_def dest!: ensure_availableD\<close>)
  qed
  with more(2) M show ?case by blast
qed simp

text \<open>Settled tokens, those no longer pending, never decrease.\<close>

lemma ledger_step_settled:
  assumes "ledger_step L e L'" and ok: "ledger_ok L"
  shows "lg_tokens L - pending_tokens L \<le> lg_tokens L' - pending_tokens L'"
  using assms(1)
proof cases
  case (reserve rid estimate limit timeout t1 t2 r)
  from reserve(2) show ?thesis
  proof (rule reserve_modelE)
    assume a: "rv_id r = rid" "L' = L\<lparr>lg_model_calls := lg_model_calls L + 1, lg_used := True,
       lg_tokens := lg_tokens L + rv_tokens r, lg_pending := dict_put rv_id r (lg_pending L)\<rparr>"
    have "dict_put rv_id r (lg_pending L) = lg_pending L @ [r]" using a(1) reserve(3) by (intro dict_put_fresh) simp
    with a(2) show ?thesis by (simp add: pending_tokens_def)
  qed
next
  case (complete r usage)
  from complete(2) show ?thesis
  proof (rule complete_modelE)
    let ?f = "filter (\<lambda>p. rv_id p \<noteq> rv_id r) (lg_pending L)"
    assume r: "r \<in> set (lg_pending L)" and L': "L' = (case actual_usage_tokens usage of
        None \<Rightarrow> L\<lparr>lg_unknown_calls := lg_unknown_calls L + 1\<rparr> | Some n \<Rightarrow> L\<lparr>lg_tokens := lg_tokens L + (n - rv_tokens r)\<rparr>)
      \<lparr>lg_pending := ?f\<rparr>"
    have f: "?f = remove1 r (lg_pending L)" using filter_other_id [OF _ r] ok by (simp add: ledger_ok_def)
    have "sum_list (map rv_tokens ?f) = pending_tokens L - rv_tokens r"
      unfolding f pending_tokens_def using sum_list_map_remove1 [OF r, of rv_tokens] by simp
    moreover have "0 < rv_tokens r" using r ok by (auto simp: ledger_ok_def rv_tokens_def)
    ultimately show ?thesis unfolding L' by (auto simp: pending_tokens_def dest!: actual_usage_pos split: option.splits)
  qed
qed (auto simp: consume_retrieval_def consume_tool_def pending_tokens_def split: if_splits)

lemma ledger_run_settled:
  assumes "ledger_run L es L'" and "ledger_ok L"
  shows "lg_tokens L - pending_tokens L \<le> lg_tokens L' - pending_tokens L'"
  using assms
proof (induction rule: ledger_run.induct)
  case (more L es M e L')
  from ledger_run_ok [OF more(1,4)] ledger_step_settled [OF more(2)] more(3) [OF more(4)] show ?case by simp
qed simp

lemma pending_nonneg: "ledger_ok L \<Longrightarrow> 0 \<le> pending_tokens L"
  unfolding pending_tokens_def by (rule sum_list_nonneg) (auto simp: ledger_ok_def rv_tokens_def)

text \<open>A provider is honest when no call reports more tokens than were reserved for it.\<close>

definition honest :: "ledger_event list \<Rightarrow> bool" where
  "honest es \<longleftrightarrow> list_all (\<lambda>e. case e of
     Model_completed r usage \<Rightarrow> opt_ok (\<lambda>n. n \<le> rv_tokens r) (actual_usage_tokens usage) | _ \<Rightarrow> True) es"

lemma honest_append [simp]: "honest (es @ fs) \<longleftrightarrow> honest es \<and> honest fs"
  by (simp add: honest_def)

lemma ledger_run_tokens:
  assumes "ledger_run L es L'" and "ledger_ok L" and "honest es" and "lg_tokens L \<le> wb_total_tokens (lg_budget L)"
  shows "lg_tokens L' \<le> wb_total_tokens (lg_budget L)"
  using assms
proof (induction rule: ledger_run.induct)
  case (more L es M e L')
  have b: "lg_budget M = lg_budget L" and M: "lg_tokens M \<le> wb_total_tokens (lg_budget L)"
    using ledger_run_ok [OF more(1,4)] more by auto
  from more(2) show ?case
  proof cases
    case (reserve rid estimate limit timeout t1 t2 r)
    from reserve(2) show ?thesis by (rule reserve_modelE) (use b in simp)
  next
    case (complete r usage)
    from complete(2) show ?thesis
      by (rule complete_modelE) (use complete(1) more(5) M in \<open>auto simp: honest_def split: option.splits\<close>)
  qed (use M in \<open>auto simp: consume_retrieval_def consume_tool_def split: if_splits\<close>)
qed simp

subsection \<open>The ledgers of a task\<close>

text \<open>\<open>task.budget_usage.model_dump()\<close>, and what a run opens its ledger with.\<close>

definition usage_raw :: "usage \<Rightarrow> usage_map" where
  "usage_raw u = \<lparr>um_model_calls = Some (Raw_int (bu_model_calls u)), um_retrieval_calls = Some (Raw_int (bu_retrieval_calls u)),
     um_tool_calls = Some (Raw_int (bu_tool_calls u)),
     um_tokens = Some (case bu_tokens u of None \<Rightarrow> Raw_none | Some n \<Rightarrow> Raw_int n),
     um_unknown_calls = Some (Raw_int (bu_unknown_model_calls u)), um_active_seconds = Some (Raw_float (bu_active_seconds u))\<rparr>"

definition open_ledger :: "workflow_budget \<Rightarrow> usage \<Rightarrow> rat \<Rightarrow> rat \<Rightarrow> ledger_error + ledger" where
  "open_ledger B u t0 t1 = rbind (new_ledger B None t0) (restore_usage (usage_raw u) t1)"

text \<open>The delta that a finished run reports.\<close>

definition run_delta :: "counters \<Rightarrow> usage \<Rightarrow> usage" where
  "run_delta now before = \<lparr>bu_model_calls = max 0 (ct_model_calls now - bu_model_calls before),
     bu_retrieval_calls = max 0 (ct_retrieval_calls now - bu_retrieval_calls before),
     bu_tool_calls = max 0 (ct_tool_calls now - bu_tool_calls before),
     bu_tokens = map_option (\<lambda>n. max 0 (ct_tokens now - n)) (bu_tokens before),
     bu_unknown_model_calls = max 0 (ct_unknown_calls now - bu_unknown_model_calls before),
     bu_active_seconds = max 0 (ct_active_seconds now - bu_active_seconds before)\<rparr>"

definition lost_usage :: "usage \<Rightarrow> usage" where
  "lost_usage u = u\<lparr>bu_tokens := None, bu_unknown_model_calls := bu_unknown_model_calls u + 1\<rparr>"

datatype run_end = Finished rat | Lost

fun settle :: "ledger \<Rightarrow> usage \<Rightarrow> run_end \<Rightarrow> usage" where
  "settle L u (Finished t) = add_usage u (run_delta (ledger_snapshot L t) u)"
| "settle L u Lost = lost_usage u"

text \<open>The runs of a task one after another, with all their events.\<close>

inductive task_runs :: "workflow_budget \<Rightarrow> usage \<Rightarrow> ledger_event list \<Rightarrow> bool" for B where
  created: "task_runs B zero_usage []"
| run: "task_runs B u es \<Longrightarrow> open_ledger B u t0 t1 = Inr L \<Longrightarrow> ledger_run L fs L' \<Longrightarrow>
    task_runs B (settle L' u e) (es @ fs)"

lemma open_ledgerE:
  assumes "open_ledger B u t0 t1 = Inr L" and "usage_ok u" and "workflow_budget_ok B"
  obtains "ledger_ok L" "lg_budget L = B" "lg_pending L = []" "lg_model_calls L = bu_model_calls u"
    "lg_retrieval_calls L = bu_retrieval_calls u" "lg_tool_calls L = bu_tool_calls u"
    "lg_unknown_calls L = bu_unknown_model_calls u" "lg_prior L = bu_active_seconds u"
    "lg_tokens L = (case bu_tokens u of None \<Rightarrow> wb_total_tokens B | Some n \<Rightarrow> n)"
proof -
  from assms(1) obtain F where F: "new_ledger B None t0 = Inr F" and r: "restore_usage (usage_raw u) t1 F = Inr L"
    by (auto simp: open_ledger_def)
  from r obtain R where R: "new_ledger (lg_budget F) (Some (usage_raw u)) t1 = Inr R"
    and L: "L = R\<lparr>lg_pending := lg_pending F, lg_used := lg_used F\<rparr>" by (rule restore_usageE)
  from F have b: "lg_budget F = B" "lg_pending F = []" "\<not> lg_used F" by (auto elim: new_ledgerE)
  have "ledger_ok R" by (rule new_ledger_ok [OF R]) (use b assms(3) in simp)
  moreover have "lg_pending R = []" using R by (auto elim: new_ledgerE)
  ultimately have "ledger_ok L" "lg_pending L = []" using L b by (simp_all add: ledger_ok_def pending_tokens_def)
  moreover have "lg_budget L = B" using R L b by (auto elim: new_ledgerE)
  ultimately show thesis
    using that R L b assms(2) by (auto simp: new_ledger_def Let_def get_raw_def usage_raw_def elapsed_of_def usage_ok_def split: option.splits if_splits)
qed

definition charges :: "ledger_event list \<Rightarrow> int" where
  "charges es = sum_list (map event_charge es)"

lemma charges_append [simp]: "charges (es @ fs) = charges es + charges fs" "charges [] = 0"
  by (simp_all add: charges_def)

definition accounted :: "workflow_budget \<Rightarrow> usage \<Rightarrow> ledger_event list \<Rightarrow> bool" where
  "accounted B u es \<longleftrightarrow> usage_ok u \<and> model_calls es \<le> wb_model_calls B \<and> retrieval_calls es \<le> wb_retrieval_calls B
     \<and> tool_calls es \<le> wb_tool_calls B
     \<and> (bu_tokens u \<noteq> None \<longrightarrow> bu_model_calls u = model_calls es \<and> bu_retrieval_calls u = retrieval_calls es
          \<and> bu_tool_calls u = tool_calls es \<and> bu_tokens u = Some (charges es))
     \<and> (honest es \<longrightarrow> opt_ok (\<lambda>n. n \<le> wb_total_tokens B) (bu_tokens u))"

lemma settle_ok: "usage_ok u \<Longrightarrow> usage_ok (settle L u e)"
  by (cases e) (auto simp: usage_ok_def lost_usage_def add_usage_def run_delta_def opt_ok_def split: option.splits)

lemma task_runs_accounted:
  assumes "task_runs B u es" and B: "workflow_budget_ok B"
  shows "accounted B u es"
  using assms(1)
proof (induction rule: task_runs.induct)
  case created
  then show ?case using B by (simp add: accounted_def usage_ok_def zero_usage_def workflow_budget_ok_def)
next
  case (run u es t0 t1 L fs L' e)
  then have u: "usage_ok u" by (simp add: accounted_def)
  from run(2) u B show ?case
  proof (rule open_ledgerE)
    assume L: "ledger_ok L" "lg_budget L = B" "lg_pending L = []" "lg_model_calls L = bu_model_calls u"
      "lg_retrieval_calls L = bu_retrieval_calls u" "lg_tool_calls L = bu_tool_calls u"
      "lg_tokens L = (case bu_tokens u of None \<Rightarrow> wb_total_tokens B | Some n \<Rightarrow> n)"
    note counts = ledger_run_counts [OF run(3) L(1), unfolded bounded_count_def L(2,4,5,6)]
    show ?thesis
    proof (cases "bu_tokens u")
      case None
      then have "fs = []" using exhausted_run [OF run(3)] L by simp
      moreover have "bu_tokens (settle L' u e) = None"
        using None by (cases e) (simp_all add: add_usage_def lost_usage_def run_delta_def)
      ultimately show ?thesis using run.IH settle_ok [OF u] by (simp add: accounted_def)
    next
      case (Some n)
      have before: "bu_model_calls u = model_calls es" "bu_retrieval_calls u = retrieval_calls es"
        "bu_tool_calls u = tool_calls es" "n = charges es"
        using run.IH Some by (auto simp: accounted_def)
      have bounds: "model_calls es \<le> wb_model_calls B" "retrieval_calls es \<le> wb_retrieval_calls B" "tool_calls es \<le> wb_tool_calls B"
        using run.IH by (simp_all add: accounted_def)
      have total: "lg_tokens L' = charges es + charges fs"
        using counts Some before L(7) by (simp add: charges_def)
      have "lg_tokens L \<le> lg_tokens L'"
        using ledger_run_settled [OF run(3) L(1)] pending_nonneg ledger_run_ok [OF run(3) L(1)] L(3) by (fastforce simp: pending_tokens_def)
      then have pos: "0 \<le> charges fs" using total Some before L(7) by simp
      have "lg_tokens L' \<le> wb_total_tokens B" if "honest (es @ fs)"
        using ledger_run_tokens [OF run(3) L(1)] that run.IH Some L(2,7) by (simp add: accounted_def)
      then have tokens: "honest (es @ fs) \<longrightarrow> charges es + charges fs \<le> wb_total_tokens B" unfolding total by blast
      have call_bounds: "model_calls (es @ fs) \<le> wb_model_calls B" "retrieval_calls (es @ fs) \<le> wb_retrieval_calls B"
        "tool_calls (es @ fs) \<le> wb_tool_calls B"
        using counts before bounds calls_simps(10-12) [of fs] by (smt (verit) calls_simps(7-9))+
      show ?thesis
      proof (cases e)
        case Lost
        then have "bu_tokens (settle L' u e) = None" by (simp add: lost_usage_def)
        with call_bounds settle_ok [OF u, of L' e] show ?thesis by (simp add: accounted_def)
      next
        case (Finished t)
        have "bu_model_calls (settle L' u e) = model_calls (es @ fs)" "bu_retrieval_calls (settle L' u e) = retrieval_calls (es @ fs)"
          "bu_tool_calls (settle L' u e) = tool_calls (es @ fs)" "bu_tokens (settle L' u e) = Some (charges (es @ fs))"
          using counts before total pos Some Finished calls_simps(10-12) [of fs]
          by (simp_all add: add_usage_def run_delta_def ledger_snapshot_def)
        with call_bounds settle_ok [OF u, of L' e] tokens show ?thesis by (simp add: accounted_def)
      qed
    qed
  qed
qed

end
