(* ===== verification/Budget_Properties.thy ===== *)
theory Budget_Properties
  imports Budget_Runs
begin

text \<open>
  Properties of the workflow budget: restoring a ledger from its snapshot, the budget of a task over
  all its runs, and the execution plan compiled from the policies.
\<close>

subsection \<open>Restoring a snapshot\<close>

text \<open>The snapshot is a dictionary, and is handed over as the usage of the next ledger.\<close>

definition counters_raw :: "counters \<Rightarrow> usage_map" where
  "counters_raw c = \<lparr>um_model_calls = Some (Raw_int (ct_model_calls c)),
     um_retrieval_calls = Some (Raw_int (ct_retrieval_calls c)), um_tool_calls = Some (Raw_int (ct_tool_calls c)),
     um_tokens = Some (Raw_int (ct_tokens c)), um_unknown_calls = Some (Raw_int (ct_unknown_calls c)),
     um_active_seconds = Some (Raw_float (ct_active_seconds c))\<rparr>"

lemma ledger_ok_tokens: "ledger_ok L \<Longrightarrow> 0 \<le> lg_tokens L"
  using pending_nonneg [of L] by (simp add: ledger_ok_def)

lemma restored_snapshot:
  assumes "ledger_ok L"
  shows "new_ledger (lg_budget L) (Some (counters_raw (ledger_snapshot L t))) t' =
    Inr \<lparr>lg_budget = lg_budget L, lg_started = t', lg_model_calls = lg_model_calls L,
      lg_retrieval_calls = lg_retrieval_calls L, lg_tool_calls = lg_tool_calls L, lg_tokens = lg_tokens L,
      lg_unknown_calls = lg_unknown_calls L + len (lg_pending L), lg_prior = elapsed_seconds L t,
      lg_pending = [], lg_used = False, lg_restored = True\<rparr>"
proof -
  have "\<not> elapsed_seconds L t < 0" using assms by (simp add: elapsed_seconds_def ledger_ok_def not_less)
  with assms ledger_ok_tokens [OF assms] show ?thesis
    by (simp add: new_ledger_def counters_raw_def ledger_snapshot_def get_raw_def counter_def elapsed_of_def
        ledger_ok_def len_def Let_def)
qed

text \<open>A ledger and one restored from its snapshot run on with the same counters and the same clock.\<close>

definition in_step :: "ledger \<Rightarrow> rat \<Rightarrow> ledger \<Rightarrow> rat \<Rightarrow> bool" where
  "in_step L t R t' \<longleftrightarrow> lg_budget R = lg_budget L \<and> lg_started L \<le> t \<and> lg_started R = t' \<and> lg_prior R = elapsed_seconds L t
     \<and> lg_model_calls R = lg_model_calls L \<and> lg_retrieval_calls R = lg_retrieval_calls L
     \<and> lg_tool_calls R = lg_tool_calls L \<and> lg_tokens R = lg_tokens L
     \<and> lg_unknown_calls R + len (lg_pending R) = lg_unknown_calls L + len (lg_pending L)"

lemma in_step_elapsed: "in_step L t R t' \<Longrightarrow> 0 \<le> d \<Longrightarrow> elapsed_seconds R (t' + d) = elapsed_seconds L (t + d)"
  by (simp add: in_step_def elapsed_seconds_def)

lemma in_step_snapshot: "in_step L t R t' \<Longrightarrow> 0 \<le> d \<Longrightarrow> ledger_snapshot R (t' + d) = ledger_snapshot L (t + d)"
  using in_step_elapsed [of L t R t' d] by (simp add: ledger_snapshot_def in_step_def)

lemma in_step_available: "in_step L t R t' \<Longrightarrow> 0 \<le> d \<Longrightarrow> ensure_available R (t' + d) = ensure_available L (t + d)"
  using in_step_elapsed [of L t R t' d] by (simp add: ensure_available_def in_step_def)

lemma rel_rbind: "(\<And>x. a = Inr x \<Longrightarrow> rel_sum (=) Q (f x) (g x)) \<Longrightarrow> rel_sum (=) Q (rbind a f) (rbind a g)"
  by (cases a) (simp_all add: rbind_def)

lemma in_step_reserve:
  assumes s: "in_step L t R t'" and "0 \<le> d" "0 \<le> e" and fresh: "rid \<notin> rv_id ` set (lg_pending L)" "rid \<notin> rv_id ` set (lg_pending R)"
  shows "rel_sum (=) (\<lambda>(r, L1) (q, R1). r = q \<and> in_step L1 t R1 t')
    (reserve_model rid estimate limit timeout (t + d) (t + e) L) (reserve_model rid estimate limit timeout (t' + d) (t' + e) R)"
proof -
  have b: "lg_budget R = lg_budget L" "lg_model_calls R = lg_model_calls L" "lg_tokens R = lg_tokens L" using s by (simp_all add: in_step_def)
  note same = b in_step_elapsed [OF s \<open>0 \<le> e\<close>] in_step_available [OF s \<open>0 \<le> d\<close>]
  have "in_step (L\<lparr>lg_model_calls := n, lg_used := True, lg_tokens := k, lg_pending := dict_put rv_id r (lg_pending L)\<rparr>) t
      (R\<lparr>lg_model_calls := n, lg_used := True, lg_tokens := k, lg_pending := dict_put rv_id r (lg_pending R)\<rparr>) t'"
    if "rv_id r = rid" for n k r
    using s fresh that by (simp add: in_step_def dict_put_fresh elapsed_seconds_def len_def)
  then show ?thesis
    unfolding reserve_model_def Let_def same by (intro rel_rbind) simp
qed

lemma in_step_consume:
  assumes s: "in_step L t R t'" and "0 \<le> d"
  shows "rel_sum (=) (\<lambda>L1 R1. in_step L1 t R1 t') (consume_retrieval (t + d) L) (consume_retrieval (t' + d) R)"
    and "rel_sum (=) (\<lambda>L1 R1. in_step L1 t R1 t') (consume_tool (t + d) L) (consume_tool (t' + d) R)"
  unfolding consume_retrieval_def consume_tool_def in_step_available [OF assms]
  by (intro rel_rbind; use s in \<open>auto simp: in_step_def elapsed_seconds_def\<close>)+

lemma rel_sum_map: "rel_sum (=) Q a b \<Longrightarrow> (\<And>x y. Q x y \<Longrightarrow> f x = g y) \<Longrightarrow> map_sum id f a = map_sum id g b"
  by (cases a; cases b) simp_all

subsection \<open>A task with two runs\<close>

text \<open>The first run makes one model call and finishes; the second makes a retrieval and is lost.\<close>

definition demo_call :: reservation where
  "demo_call = \<lparr>rv_id = ''r1'', rv_input = 100, rv_output = 1000, rv_timeout = 599\<rparr>"

definition demo_usage :: "token_usage option" where
  "demo_usage = Some \<lparr>tu_input = 90, tu_output = 400, tu_total = None\<rparr>"

definition demo_open :: "usage \<Rightarrow> ledger" where
  "demo_open u = (case open_ledger default_budget u 0 0 of Inr L \<Rightarrow> L)"

definition demo_reserved :: ledger where
  "demo_reserved = (case reserve_model ''r1'' (Raw_int 100) (Some (Raw_int 1000)) None 1 1 (demo_open zero_usage) of Inr (r, L) \<Rightarrow> L)"

definition demo_completed :: ledger where
  "demo_completed = (case complete_model demo_call demo_usage demo_reserved of Inr L \<Rightarrow> L)"

definition demo_spent :: usage where
  "demo_spent = settle demo_completed zero_usage (Finished 2)"

definition demo_searched :: ledger where
  "demo_searched = (case consume_retrieval 1 (demo_open demo_spent) of Inr L \<Rightarrow> L)"

lemma demo_reserve_run: "ledger_run (demo_open zero_usage) [Model_reserved demo_call] demo_reserved"
proof -
  have "reserve_model ''r1'' (Raw_int 100) (Some (Raw_int 1000)) None 1 1 (demo_open zero_usage) = Inr (demo_call, demo_reserved)"
    "''r1'' \<notin> rv_id ` set (lg_pending (demo_open zero_usage))" by code_simp+
  then have "ledger_step (demo_open zero_usage) (Model_reserved demo_call) demo_reserved" by (rule ledger_step.reserve)
  with ledger_run.more [OF ledger_run.none] show ?thesis by fastforce
qed

lemma demo_complete_run: "ledger_run (demo_open zero_usage) [Model_reserved demo_call, Model_completed demo_call demo_usage] demo_completed"
proof -
  have "complete_model demo_call demo_usage demo_reserved = Inr demo_completed" by code_simp
  then show ?thesis using ledger_run.more [OF demo_reserve_run] ledger_step.complete by fastforce
qed

lemma demo_search_run: "ledger_run (demo_open demo_spent) [Retrieval_consumed] demo_searched"
proof -
  have "consume_retrieval 1 (demo_open demo_spent) = Inr demo_searched" by code_simp
  then show ?thesis using ledger_run.more [OF ledger_run.none] ledger_step.retrieval by fastforce
qed

lemma demo_task_runs:
  "task_runs default_budget (settle demo_searched demo_spent Lost)
     [Model_reserved demo_call, Model_completed demo_call demo_usage, Retrieval_consumed]"
proof -
  have "open_ledger default_budget zero_usage 0 0 = Inr (demo_open zero_usage)" by code_simp
  from task_runs.run [OF task_runs.created this demo_complete_run, of "Finished 2"]
  have first: "task_runs default_budget demo_spent [Model_reserved demo_call, Model_completed demo_call demo_usage]"
    by (simp add: demo_spent_def)
  have "open_ledger default_budget demo_spent 0 0 = Inr (demo_open demo_spent)" by code_simp
  from task_runs.run [OF first this demo_search_run, of Lost] show ?thesis by simp
qed

lemma default_budget_ok: "workflow_budget_ok default_budget"
  by code_simp

subsection \<open>Properties\<close>

text \<open>
  C31. The snapshot of a ledger, taken at any time with calls still in flight, restores to a ledger that
  stands exactly where the original stood: at every later time it shows the same counters, it admits or
  refuses every model, retrieval and tool call with the same outcome, the same reservation included, and
  the counters after the call agree again. Nothing is refunded by the restart: the restored ledger has no
  call in flight, counts each call that was in flight as unknown on top of those unknown before, and keeps
  all tokens and model calls charged, those of the calls in flight included.
\<close>

lemma ledger_restore_refines:
  assumes "workflow_budget_ok B" and "new_ledger B usage t0 = Inr L0" and "ledger_run L0 es L"
    and "lg_started L \<le> t" and "0 \<le> d" and "0 \<le> e" and "rid \<notin> rv_id ` set (lg_pending L)"
  shows "\<exists>R. new_ledger B (Some (counters_raw (ledger_snapshot L t))) t' = Inr R
    \<and> lg_pending R = [] \<and> lg_unknown_calls R = lg_unknown_calls L + len (lg_pending L)
    \<and> lg_tokens R = lg_tokens L \<and> lg_model_calls R = lg_model_calls L
    \<and> ledger_snapshot R (t' + d) = ledger_snapshot L (t + d)
    \<and> map_sum id (\<lambda>(r, M). (r, ledger_snapshot M (t' + e))) (reserve_model rid estimate limit timeout (t' + d) (t' + e) R)
      = map_sum id (\<lambda>(r, M). (r, ledger_snapshot M (t + e))) (reserve_model rid estimate limit timeout (t + d) (t + e) L)
    \<and> map_sum id (\<lambda>M. ledger_snapshot M (t' + e)) (consume_retrieval (t' + d) R)
      = map_sum id (\<lambda>M. ledger_snapshot M (t + e)) (consume_retrieval (t + d) L)
    \<and> map_sum id (\<lambda>M. ledger_snapshot M (t' + e)) (consume_tool (t' + d) R)
      = map_sum id (\<lambda>M. ledger_snapshot M (t + e)) (consume_tool (t + d) L)"
proof -
  have "ledger_ok L0" "lg_budget L0 = B" using new_ledger_ok assms(1,2) by (auto elim: new_ledgerE)
  then have L: "ledger_ok L" "lg_budget L = B" using ledger_run_ok [OF assms(3)] by auto
  obtain R where R: "new_ledger B (Some (counters_raw (ledger_snapshot L t))) t' = Inr R" and s: "in_step L t R t'" and p: "lg_pending R = []"
    using restored_snapshot [OF L(1), of t t'] assms(4) L(2) by (auto simp: in_step_def)
  from s p have kept: "lg_unknown_calls R = lg_unknown_calls L + len (lg_pending L)" "lg_tokens R = lg_tokens L"
    "lg_model_calls R = lg_model_calls L" by (simp_all add: in_step_def)
  note snap = in_step_snapshot [OF _ assms(6)]
  show ?thesis
    using R in_step_snapshot [OF s assms(5)]
      rel_sum_map [OF in_step_reserve [OF s assms(5,6,7)], of "\<lambda>(r, M). (r, ledger_snapshot M (t + e))" "\<lambda>(r, M). (r, ledger_snapshot M (t' + e))"]
      rel_sum_map [OF in_step_consume(1) [OF s assms(5)], of "\<lambda>M. ledger_snapshot M (t + e)" "\<lambda>M. ledger_snapshot M (t' + e)"]
      rel_sum_map [OF in_step_consume(2) [OF s assms(5)], of "\<lambda>M. ledger_snapshot M (t + e)" "\<lambda>M. ledger_snapshot M (t' + e)"]
    by (intro exI [of _ R] conjI) (auto simp: p snap kept)
qed

lemma ledger_restore_refines_witness:
  "\<exists>R. new_ledger default_budget (Some (counters_raw (ledger_snapshot demo_reserved 3))) 50 = Inr R
    \<and> ledger_snapshot R 50 = \<lparr>ct_model_calls = 1, ct_retrieval_calls = 0, ct_tool_calls = 0, ct_tokens = 1100,
        ct_active_seconds = 3, ct_unknown_calls = 1\<rparr>
    \<and> (\<exists>r C. map_sum id (\<lambda>(r, M). (r, ledger_snapshot M 51)) (reserve_model ''r2'' (Raw_int 10) None None 50 51 R) = Inr (r, C)
         \<and> ct_model_calls C = 2 \<and> rv_timeout r = 596)"
proof -
  have opened: "new_ledger default_budget (Some (usage_raw zero_usage)) 0 = Inr (demo_open zero_usage)" by code_simp
  have side: "lg_started demo_reserved \<le> 3" "''r2'' \<notin> rv_id ` set (lg_pending demo_reserved)" by code_simp+
  have snap: "ledger_snapshot demo_reserved (3 + 0) = \<lparr>ct_model_calls = 1, ct_retrieval_calls = 0, ct_tool_calls = 0, ct_tokens = 1100,
        ct_active_seconds = 3, ct_unknown_calls = 1\<rparr>" by code_simp
  have res: "(case map_sum id (\<lambda>(r, M). (r, ledger_snapshot M (3 + 1))) (reserve_model ''r2'' (Raw_int 10) None None (3 + 0) (3 + 1) demo_reserved) of
      Inr (r, C) \<Rightarrow> ct_model_calls C = 2 \<and> rv_timeout r = 596 | Inl _ \<Rightarrow> False)" by code_simp
  show ?thesis
    using ledger_restore_refines [OF default_budget_ok opened demo_reserve_run side(1), of 0 1 "''r2''" 50 "Raw_int 10" None None]
      side(2) snap res by (auto split: sum.splits)
qed

text \<open>
  C30. The budget binds the task, not the run: over all runs of a task one after another, finished
  or lost, the model, retrieval and tool calls that took place never exceed the task's budget. As
  long as the recorded usage is known it is exactly what happened: the calls made and the tokens
  charged, within the token bound when no provider reports more than was reserved for it. Once a
  run is lost the usage is unknown, and no later run performs any call.
\<close>

lemma task_budget_is_cumulative:
  assumes "workflow_budget_ok B" and "task_runs B u es"
  shows "model_calls es \<le> wb_model_calls B \<and> retrieval_calls es \<le> wb_retrieval_calls B \<and> tool_calls es \<le> wb_tool_calls B
    \<and> (case bu_tokens u of
         Some n \<Rightarrow> bu_model_calls u = model_calls es \<and> bu_retrieval_calls u = retrieval_calls es \<and> bu_tool_calls u = tool_calls es
           \<and> n = charges es \<and> (honest es \<longrightarrow> n \<le> wb_total_tokens B)
       | None \<Rightarrow> (\<forall>t0 t1 L fs L'. open_ledger B u t0 t1 = Inr L \<and> ledger_run L fs L' \<longrightarrow> fs = []))"
proof -
  note a = task_runs_accounted [OF assms(2,1), unfolded accounted_def]
  have "fs = []" if "bu_tokens u = None" "open_ledger B u t0 t1 = Inr L" "ledger_run L fs L'" for t0 t1 L fs L'
    using that(2) conjunct1 [OF a] assms(1)
  proof (rule open_ledgerE)
    assume "lg_budget L = B" "lg_pending L = []" "lg_tokens L = (case bu_tokens u of None \<Rightarrow> wb_total_tokens B | Some n \<Rightarrow> n)"
    then show "fs = []" using exhausted_run [OF that(3)] that(1) by simp
  qed
  with a show ?thesis by (auto split: option.splits)
qed


lemma task_budget_is_cumulative_witness:
  "model_calls [Model_reserved demo_call, Model_completed demo_call demo_usage, Retrieval_consumed] = 1
    \<and> bu_tokens demo_spent = Some 490 \<and> bu_tokens (settle demo_searched demo_spent Lost) = None
    \<and> \<not> (\<exists>t0 t1 L fs L'. open_ledger default_budget (settle demo_searched demo_spent Lost) t0 t1 = Inr L \<and> ledger_run L fs L' \<and> fs \<noteq> [])"
proof -
  have "bu_tokens demo_spent = Some 490" by code_simp
  moreover have lost: "bu_tokens (settle demo_searched demo_spent Lost) = None" by (simp add: lost_usage_def)
  moreover note never = task_budget_is_cumulative [OF default_budget_ok demo_task_runs, unfolded lost option.case]
  moreover have "\<not> (\<exists>t0 t1 L fs L'. open_ledger default_budget (settle demo_searched demo_spent Lost) t0 t1 = Inr L \<and> ledger_run L fs L' \<and> fs \<noteq> [])"
    using never by blast
  ultimately show ?thesis by simp
qed

subsection \<open>The compiled plan\<close>

lemma bypassed_stage:
  "sp_mode (plan_stage effective tools memory s) = Bypass \<longleftrightarrow>
     (s \<in> {Tool, Tool_review} \<and> \<not> tools) \<or> (s = Memory \<and> (\<not> memory \<or> effective = Some Lite))"
  by (simp add: plan_stage_def plan_mode_def)

lemma resolved_complexity:
  "resolve_complexity execution queries tool_tasks = (c, b) \<Longrightarrow>
     (case execution of None \<Rightarrow> c = None \<and> b = None
      | Some p \<Rightarrow> (if ep_complexity p = Lite \<and> (1 < queries \<or> tool_tasks)
          then if ep_auto_escalate p \<and> ep_ceiling p \<noteq> Lite then c = Some Standard \<and> b = None
               else c = Some Lite \<and> b = Some ''complexity_ceiling_exceeded''
          else c = Some (ep_complexity p) \<and> b = None))"
  by (auto simp: resolve_complexity_def split: option.splits if_splits)

text \<open>
  Compiling valid policies always gives a valid execution plan. It runs through the ten stages of
  the template in their order, each with its mandatory checks, and bypasses nothing but the tool
  stages without tools and the memory stage without memory or for a lite request. The effective
  complexity lies between the configured one and the ceiling; it is raised only from lite to
  standard, when the policy allows it and the request needs several queries or a tool, and exactly
  when such a request may not be raised the plan is blocked.
\<close>

lemma compiled_plan_is_valid:
  assumes "\<And>e i a t m. hex64_ok (digest e i a t m)" and "opt_ok execution_policy_ok execution"
    and "0 \<le> queries" and "queries \<le> 5"
  shows "\<exists>p. compile_execution_plan digest execution interaction assurance tools memory queries tool_tasks = Inr p
    \<and> execution_plan_ok p \<and> map sp_stage (xp_stages p) = template_stages
    \<and> list_all (\<lambda>s. sp_checks s = mandatory_checks (sp_stage s)
        \<and> (sp_mode s = Bypass \<longleftrightarrow> (sp_stage s \<in> {Tool, Tool_review} \<and> \<not> tools)
              \<or> (sp_stage s = Memory \<and> (\<not> memory \<or> xp_effective p = Some Lite)))) (xp_stages p)
    \<and> (case execution of
         None \<Rightarrow> xp_requested p = None \<and> xp_effective p = None \<and> xp_budget p = None \<and> xp_blocked p = None
       | Some q \<Rightarrow> xp_requested p = Some (ep_complexity q) \<and> xp_budget p = Some (ep_budget q)
           \<and> (\<exists>c. xp_effective p = Some c \<and> ep_complexity q \<le> c \<and> c \<le> ep_ceiling q
                \<and> (c \<noteq> ep_complexity q \<longrightarrow> ep_complexity q = Lite \<and> c = Standard \<and> ep_auto_escalate q \<and> (1 < queries \<or> tool_tasks)))
           \<and> (xp_blocked p \<noteq> None \<longleftrightarrow> ep_complexity q = Lite \<and> (1 < queries \<or> tool_tasks) \<and> (\<not> ep_auto_escalate q \<or> ep_ceiling q = Lite)))"
proof -
  obtain c b where cb: "resolve_complexity execution queries tool_tasks = (c, b)" by fastforce
  define p where "p = \<lparr>xp_requested = map_option ep_complexity execution, xp_effective = c,
    xp_digest = digest execution interaction assurance tools memory, xp_stages = map (plan_stage c tools memory) template_stages,
    xp_budget = map_option ep_budget execution, xp_effort = (case execution of None \<Rightarrow> None | Some p \<Rightarrow> ep_effort p),
    xp_blocked = b, xp_escalated = (map_option ep_complexity execution \<noteq> c)\<rparr>"
  have ok: "execution_plan_ok p"
    using assms(1,2) by (simp add: p_def execution_plan_ok_def execution_policy_ok_def opt_ok_def split: option.splits)
  then have comp: "compile_execution_plan digest execution interaction assurance tools memory queries tool_tasks = Inr p"
    using assms(3,4) by (simp add: compile_execution_plan_def cb p_def Let_def)
  have stages: "map sp_stage (xp_stages p) = template_stages"
    by (simp add: p_def plan_stage_def comp_def)
  have checks: "list_all (\<lambda>s. sp_checks s = mandatory_checks (sp_stage s)
      \<and> (sp_mode s = Bypass \<longleftrightarrow> (sp_stage s \<in> {Tool, Tool_review} \<and> \<not> tools) \<or> (sp_stage s = Memory \<and> (\<not> memory \<or> xp_effective p = Some Lite))))
      (xp_stages p)"
    using bypassed_stage by (auto simp: p_def list_all_iff plan_stage_def)
  have range: "case execution of
         None \<Rightarrow> xp_requested p = None \<and> xp_effective p = None \<and> xp_budget p = None \<and> xp_blocked p = None
       | Some q \<Rightarrow> xp_requested p = Some (ep_complexity q) \<and> xp_budget p = Some (ep_budget q)
           \<and> (\<exists>c. xp_effective p = Some c \<and> ep_complexity q \<le> c \<and> c \<le> ep_ceiling q
                \<and> (c \<noteq> ep_complexity q \<longrightarrow> ep_complexity q = Lite \<and> c = Standard \<and> ep_auto_escalate q \<and> (1 < queries \<or> tool_tasks)))
           \<and> (xp_blocked p \<noteq> None \<longleftrightarrow> ep_complexity q = Lite \<and> (1 < queries \<or> tool_tasks) \<and> (\<not> ep_auto_escalate q \<or> ep_ceiling q = Lite))"
  proof (cases execution)
    case (Some q)
    have "ep_complexity q \<le> ep_ceiling q" using assms(2) Some by (simp add: execution_policy_ok_def not_less)
    moreover have "Standard \<le> ep_ceiling q" if "ep_ceiling q \<noteq> Lite"
      using that by (cases "ep_ceiling q") (simp_all add: less_eq_complexity_def)
    ultimately show ?thesis
      using resolved_complexity [OF cb] Some by (auto simp: p_def less_eq_complexity_def split: if_splits)
  qed (use resolved_complexity [OF cb] in \<open>simp add: p_def\<close>)
  show ?thesis using comp ok stages checks range by blast
qed

lemma compiled_plan_is_valid_witness:
  "\<exists>p. compile_execution_plan (\<lambda>_ _ _ _ _. replicate 64 CHR ''a'') (Some (default_execution\<lparr>ep_complexity := Lite\<rparr>)) None None True True 2 False = Inr p
    \<and> xp_effective p = Some Standard \<and> xp_blocked p = None \<and> map sp_stage (xp_stages p) = template_stages"
proof -
  have ok: "opt_ok execution_policy_ok (Some (default_execution\<lparr>ep_complexity := Lite\<rparr>))" by code_simp
  have lite: "ep_complexity (default_execution\<lparr>ep_complexity := Lite\<rparr>) = Lite" "ep_ceiling (default_execution\<lparr>ep_complexity := Lite\<rparr>) = Deep"
    "ep_auto_escalate (default_execution\<lparr>ep_complexity := Lite\<rparr>)" by code_simp+
  have hex: "hex64_ok (replicate 64 CHR ''a'')" by code_simp
  obtain p where p: "compile_execution_plan (\<lambda>_ _ _ _ _. replicate 64 CHR ''a'') (Some (default_execution\<lparr>ep_complexity := Lite\<rparr>)) None None True True 2 False = Inr p"
    and facts: "map sp_stage (xp_stages p) = template_stages" "xp_blocked p = None"
    using compiled_plan_is_valid [of "\<lambda>_ _ _ _ _. replicate 64 CHR ''a''", OF hex ok, of 2 None None True True False] lite by (auto simp: opt_ok_def)
  from p have "xp_effective p = Some Standard"
    by (auto simp: compile_execution_plan_def resolve_complexity_def lite Let_def split: if_splits)
  with p facts show ?thesis by blast
qed

end
