(* ===== verification/Python_Values.thy ===== *)
theory Python_Values
  imports Spec_Prelude
begin

text \<open>
  Python values in mappings of type \<open>Mapping[str, Any]\<close> (policy conditions, contexts, action
  parameters, summaries): the JSON values, with the equality, truth and integer conversion that the
  code applies to them. Lists and tuples are not distinguished; floats are finite.
\<close>

subsection \<open>Text\<close>

text \<open>A literal of the source.\<close>

definition lit :: "string \<Rightarrow> utext" where
  "lit s = map of_char s"

lemma lit_inject [simp]: "lit s = lit t \<longleftrightarrow> s = t"
proof -
  have "inj (of_char :: char \<Rightarrow> int)" by (rule injI) simp
  then show ?thesis by (simp add: lit_def inj_eq)
qed

lemma lit_append [simp]: "lit (s @ t) = lit s @ lit t" and lit_Nil [simp]: "lit [] = []"
  by (simp_all add: lit_def)

text \<open>\<open>str.strip()\<close>.\<close>

definition strip_text :: "utext \<Rightarrow> utext" where
  "strip_text s = rev (dropWhile py_space (rev (dropWhile py_space s)))"

definition utext_digits :: "nat \<Rightarrow> utext" where
  "utext_digits n = lit (nat_digits n)"

text \<open>\<open>str(n)\<close> of a Python integer.\<close>

definition int_text :: "int \<Rightarrow> utext" where
  "int_text i = lit (decimal i)"

subsection \<open>Values\<close>

datatype pyval = Py_none | Py_bool bool | Py_int int | Py_float rat | Py_text utext | Py_list "pyval list"
  | Py_dict "(utext \<times> pyval) list"

type_synonym pydict = "(utext \<times> pyval) list"

text \<open>\<open>key in d\<close> and \<open>d.get(key)\<close>.\<close>

definition dict_has :: "pydict \<Rightarrow> string \<Rightarrow> bool" where
  "dict_has d k \<longleftrightarrow> map_of d (lit k) \<noteq> None"

definition dict_get :: "pydict \<Rightarrow> string \<Rightarrow> pyval" where
  "dict_get d k = (case map_of d (lit k) of None \<Rightarrow> Py_none | Some v \<Rightarrow> v)"

definition dict_get_or :: "pydict \<Rightarrow> string \<Rightarrow> pyval \<Rightarrow> pyval" where
  "dict_get_or d k v = (case map_of d (lit k) of None \<Rightarrow> v | Some w \<Rightarrow> w)"

fun numeric :: "pyval \<Rightarrow> rat option" where
  "numeric (Py_bool b) = Some (if b then 1 else 0)"
| "numeric (Py_int n) = Some (of_int n)"
| "numeric (Py_float x) = Some x"
| "numeric _ = None"

text \<open>
  \<open>a == b\<close>: numbers compare across their types (\<open>True == 1 == 1.0\<close>), mappings as sets of items.
\<close>

fun py_eq :: "pyval \<Rightarrow> pyval \<Rightarrow> bool"
  and py_eqs :: "pyval list \<Rightarrow> pyval list \<Rightarrow> bool"
  and py_items_in :: "pydict \<Rightarrow> pydict \<Rightarrow> bool"
where
  "py_eq (Py_text s) b = (b = Py_text s)"
| "py_eq Py_none b = (b = Py_none)"
| "py_eq (Py_list xs) b = (case b of Py_list ys \<Rightarrow> py_eqs xs ys | _ \<Rightarrow> False)"
| "py_eq (Py_dict d) b = (case b of Py_dict e \<Rightarrow> length d = length e \<and> py_items_in d e | _ \<Rightarrow> False)"
| "py_eq (Py_bool x) b = (numeric b = numeric (Py_bool x))"
| "py_eq (Py_int x) b = (numeric b = numeric (Py_int x))"
| "py_eq (Py_float x) b = (numeric b = numeric (Py_float x))"
| "py_eqs [] ys = (ys = [])"
| "py_eqs (x # xs) ys = (case ys of [] \<Rightarrow> False | y # ys' \<Rightarrow> py_eq x y \<and> py_eqs xs ys')"
| "py_items_in [] e = True"
| "py_items_in ((k, v) # d) e = (case map_of e k of None \<Rightarrow> False | Some w \<Rightarrow> py_eq v w \<and> py_items_in d e)"

definition py_dict_eq :: "pydict \<Rightarrow> pydict \<Rightarrow> bool" where
  "py_dict_eq d e \<longleftrightarrow> py_eq (Py_dict d) (Py_dict e)"

text \<open>\<open>bool(v)\<close>.\<close>

fun py_truth :: "pyval \<Rightarrow> bool" where
  "py_truth Py_none = False"
| "py_truth (Py_bool b) = b"
| "py_truth (Py_int n) = (n \<noteq> 0)"
| "py_truth (Py_float x) = (x \<noteq> 0)"
| "py_truth (Py_text s) = (s \<noteq> [])"
| "py_truth (Py_list xs) = (xs \<noteq> [])"
| "py_truth (Py_dict d) = (d \<noteq> [])"

text \<open>
  \<open>int(v)\<close>: a text is read as decimal digits with single underscores between them, a sign and
  surrounding white space; more than 4300 digits are refused. Of the digits, those of ASCII are
  represented.
\<close>

datatype py_error = Py_type_error | Py_value_error

definition text_digit :: "int \<Rightarrow> bool" where
  "text_digit c \<longleftrightarrow> 48 \<le> c \<and> c \<le> 57"

fun read_digits :: "bool \<Rightarrow> int \<Rightarrow> utext \<Rightarrow> int option" where
  "read_digits d n [] = (if d then Some n else None)"
| "read_digits d n (c # cs) =
     (if text_digit c then read_digits True (n * 10 + (c - 48)) cs
      else if c = 95 \<and> d then read_digits False n cs else None)"

definition read_int :: "utext \<Rightarrow> int option" where
  "read_int s =
     (let t = strip_text s;
          body = (case t of c # cs \<Rightarrow> if c = 43 \<or> c = 45 then cs else t | [] \<Rightarrow> []);
          sign = (case t of c # cs \<Rightarrow> if c = 45 then -1 else 1 | [] \<Rightarrow> 1)
      in if 4300 < len (filter text_digit body) then None
         else map_option (\<lambda>n. sign * n) (read_digits False 0 body))"

fun py_int :: "pyval \<Rightarrow> py_error + int" where
  "py_int (Py_bool b) = Inr (if b then 1 else 0)"
| "py_int (Py_int n) = Inr n"
| "py_int (Py_float x) = Inr (if x < 0 then - \<lfloor>- x\<rfloor> else \<lfloor>x\<rfloor>)"
| "py_int (Py_text s) = (case read_int s of None \<Rightarrow> Inl Py_value_error | Some n \<Rightarrow> Inr n)"
| "py_int _ = Inl Py_type_error"


end
