(* ===== verification/Policy_Engine.thy ===== *)
theory Policy_Engine
  imports Python_Values
begin

text \<open>
  The policy engine (\<open>control/policy/engine.py\<close>, \<open>control/policy/review.py\<close>, \<open>contracts/policy.py\<close>) and the
  review of an action of the ReAct loop (\<open>control/workflow/controlled_react/review.py\<close>). The reviewer,
  a language model or a deterministic stand-in, is a parameter.
\<close>

subsection \<open>Contracts\<close>

datatype decision_type = Allow | Deny | Require_approval | Escalate

datatype enforcement_point = Before_retrieval | Before_retrieval_plan | Before_retrieval_step | Before_answer
  | Before_tool_call | Before_memory_write | Before_model_call

text \<open>\<open>PolicyDecisionType(value)\<close>, with the values of the enumeration.\<close>

fun decision_name :: "decision_type \<Rightarrow> string" where
  "decision_name Allow = ''allow''"
| "decision_name Deny = ''deny''"
| "decision_name Require_approval = ''require_approval''"
| "decision_name Escalate = ''escalate''"

definition read_decision :: "pyval \<Rightarrow> decision_type option" where
  "read_decision v = find (\<lambda>d. v = Py_text (lit (decision_name d))) [Allow, Deny, Require_approval, Escalate]"

definition allowed_review_decisions :: "enforcement_point \<Rightarrow> decision_type list" where
  "allowed_review_decisions p =
     (if p \<in> {Before_retrieval_plan, Before_retrieval_step, Before_model_call} then [Allow, Deny, Escalate]
      else if p = Before_tool_call then [Allow, Deny, Require_approval, Escalate]
      else [])"

record policy_rule =
  pr_id :: utext
  pr_point :: enforcement_point
  pr_condition :: pydict
  pr_decision :: pydict
  pr_reason :: utext

record policy_decision =
  pd_decision :: decision_type
  pd_point :: enforcement_point
  pd_reason :: utext
  pd_rule :: utext
  pd_metadata :: pydict
  pd_event_id :: utext

record review_decision =
  rd_id :: utext
  rd_point :: enforcement_point
  rd_suggested :: decision_type
  rd_reason :: utext
  rd_confidence :: rat
  rd_subject :: utext

subsection \<open>Evaluating one rule\<close>

definition decision_from_rule :: "policy_rule \<Rightarrow> string \<Rightarrow> py_error + decision_type" where
  "decision_from_rule rule key =
     (case read_decision (dict_get_or (pr_decision rule) key (Py_text (lit ''allow''))) of
        None \<Rightarrow> Inl Py_value_error | Some d \<Rightarrow> Inr d)"

definition evaluate_before_answer :: "policy_rule \<Rightarrow> pydict \<Rightarrow> py_error + decision_type" where
  "evaluate_before_answer rule context =
     (let condition = pr_condition rule in
      rbind (py_int (dict_get_or condition ''min_evidence_count'' (Py_int 0))) (\<lambda>min_count.
      rbind (py_int (dict_get_or context ''accepted_evidence_count'' (Py_int 0))) (\<lambda>accepted.
        let require_citations = py_truth (dict_get condition ''require_citations'');
            citations_present = py_truth (dict_get context ''citations_present'');
            evidence_passed = min_count \<le> accepted \<and> (\<not> require_citations \<or> citations_present);
            tool_result_passed = py_truth (dict_get context ''authorized_tool_result_support'')
        in decision_from_rule rule (if evidence_passed \<or> tool_result_passed then ''on_pass'' else ''on_fail''))))"

definition evaluate_before_tool_call :: "policy_rule \<Rightarrow> pydict \<Rightarrow> py_error + decision_type option" where
  "evaluate_before_tool_call rule context =
     (let condition = pr_condition rule in
      if \<not> py_eq (dict_get condition ''tool_name'') (dict_get context ''tool_name'') then Inr None
      else if dict_has condition ''risk_level''
        \<and> \<not> py_eq (dict_get condition ''risk_level'') (dict_get context ''risk_level'') then Inr None
      else map_sum id Some (decision_from_rule rule ''on_match''))"

text \<open>\<open>set(v)\<close>, of which a mapping's keys can meet the texts; a frozen mapping is not hashable.\<close>

fun py_hashable :: "pyval \<Rightarrow> bool" where
  "py_hashable (Py_dict d) = False"
| "py_hashable (Py_list vs) = list_all py_hashable vs"
| "py_hashable _ = True"

fun field_set :: "pyval \<Rightarrow> py_error + utext set" where
  "field_set (Py_text s) = Inr ((\<lambda>c. [c]) ` set s)"
| "field_set (Py_list vs) =
     (if list_all py_hashable vs then Inr (set (concat (map (\<lambda>v. case v of Py_text s \<Rightarrow> [s] | _ \<Rightarrow> []) vs)))
      else Inl Py_type_error)"
| "field_set (Py_dict d) = Inr (fst ` set d)"
| "field_set _ = Inl Py_type_error"

definition evaluate_before_memory_write :: "policy_rule \<Rightarrow> pydict \<Rightarrow> py_error + decision_type" where
  "evaluate_before_memory_write rule context =
     rbind (field_set (dict_get_or (pr_condition rule) ''deny_fields'' (Py_list []))) (\<lambda>deny_fields.
       case dict_get_or context ''write'' (Py_dict context) of
         Py_dict write \<Rightarrow> decision_from_rule rule (if deny_fields \<inter> fst ` set write \<noteq> {} then ''on_match'' else ''on_pass'')
       | _ \<Rightarrow> decision_from_rule rule ''on_pass'')"

definition evaluate_before_retrieval :: "policy_rule \<Rightarrow> py_error + decision_type" where
  "evaluate_before_retrieval rule =
     (if Py_text (lit ''deny'') \<in> snd ` set (pr_decision rule) then decision_from_rule rule ''on_match'' else Inr Allow)"

fun condition_differs :: "string list \<Rightarrow> pydict \<Rightarrow> pydict \<Rightarrow> bool" where
  "condition_differs [] condition context = False"
| "condition_differs (k # ks) condition context =
     ((dict_has condition k \<and> \<not> py_eq (dict_get condition k) (dict_get context k)) \<or> condition_differs ks condition context)"

definition evaluate_before_model_call :: "policy_rule \<Rightarrow> pydict \<Rightarrow> py_error + decision_type option" where
  "evaluate_before_model_call rule context =
     (let condition = pr_condition rule;
          max_tokens = dict_get condition ''max_estimated_tokens'';
          estimated = dict_get context ''estimated_tokens'' in
      if condition_differs [''provider'', ''model'', ''cost_class'', ''stream''] condition context then Inr None
      else if max_tokens = Py_none then map_sum id Some (decision_from_rule rule ''on_match'')
      else if estimated = Py_none then map_sum id Some (decision_from_rule rule ''on_fail'')
      else rbind (py_int estimated) (\<lambda>n. rbind (py_int max_tokens) (\<lambda>m.
             map_sum id Some (decision_from_rule rule (if m < n then ''on_fail'' else ''on_match'')))))"

definition evaluate_rule :: "policy_rule \<Rightarrow> pydict \<Rightarrow> py_error + decision_type option" where
  "evaluate_rule rule context = (case pr_point rule of
       Before_answer \<Rightarrow> map_sum id Some (evaluate_before_answer rule context)
     | Before_tool_call \<Rightarrow> evaluate_before_tool_call rule context
     | Before_memory_write \<Rightarrow> map_sum id Some (evaluate_before_memory_write rule context)
     | Before_retrieval \<Rightarrow> map_sum id Some (evaluate_before_retrieval rule)
     | Before_retrieval_plan \<Rightarrow> map_sum id Some (evaluate_before_retrieval rule)
     | Before_retrieval_step \<Rightarrow> map_sum id Some (evaluate_before_retrieval rule)
     | Before_model_call \<Rightarrow> evaluate_before_model_call rule context)"

subsection \<open>First match\<close>

definition default_allow :: "enforcement_point \<Rightarrow> pydict \<Rightarrow> utext \<Rightarrow> policy_decision" where
  "default_allow p context event_id = \<lparr>pd_decision = Allow, pd_point = p,
     pd_reason = lit ''No blocking policy rule matched.'', pd_rule = lit ''default.allow'',
     pd_metadata = context, pd_event_id = event_id\<rparr>"

fun evaluate_policy :: "policy_rule list \<Rightarrow> enforcement_point \<Rightarrow> pydict \<Rightarrow> utext \<Rightarrow> py_error + policy_decision" where
  "evaluate_policy [] p context event_id = Inr (default_allow p context event_id)"
| "evaluate_policy (rule # rules) p context event_id =
     (if pr_point rule \<noteq> p then evaluate_policy rules p context event_id
      else rbind (evaluate_rule rule context) (\<lambda>d. case d of
          None \<Rightarrow> evaluate_policy rules p context event_id
        | Some decision \<Rightarrow> Inr \<lparr>pd_decision = decision, pd_point = p, pd_reason = pr_reason rule,
            pd_rule = pr_id rule, pd_metadata = context, pd_event_id = event_id\<rparr>))"

subsection \<open>Review\<close>

fun strictness :: "decision_type \<Rightarrow> nat" where
  "strictness Allow = 0"
| "strictness Require_approval = 1"
| "strictness Escalate = 2"
| "strictness Deny = 3"

definition is_stricter_than :: "decision_type \<Rightarrow> decision_type \<Rightarrow> bool" where
  "is_stricter_than candidate baseline \<longleftrightarrow> strictness baseline < strictness candidate"

definition fail_closed_decision_type :: "enforcement_point \<Rightarrow> pydict \<Rightarrow> decision_type" where
  "fail_closed_decision_type p context =
     (if p = Before_tool_call then Require_approval
      else if p = Before_model_call then Deny
      else if p \<in> {Before_retrieval_plan, Before_retrieval_step}
      then (if dict_get context ''review_fallback_decision'' = Py_none then Deny
            else case read_decision (dict_get context ''review_fallback_decision'') of
                None \<Rightarrow> Deny
              | Some d \<Rightarrow> if d \<in> set (allowed_review_decisions p) then d else Deny)
      else Deny)"

fun point_name :: "enforcement_point \<Rightarrow> string" where
  "point_name Before_retrieval = ''before_retrieval''"
| "point_name Before_retrieval_plan = ''before_retrieval_plan''"
| "point_name Before_retrieval_step = ''before_retrieval_step''"
| "point_name Before_answer = ''before_answer''"
| "point_name Before_tool_call = ''before_tool_call''"
| "point_name Before_memory_write = ''before_memory_write''"
| "point_name Before_model_call = ''before_model_call''"

definition fail_closed_policy_decision :: "enforcement_point \<Rightarrow> pydict \<Rightarrow> utext \<Rightarrow> policy_decision" where
  "fail_closed_policy_decision p context event_id =
     (let d = fail_closed_decision_type p context in
      \<lparr>pd_decision = d, pd_point = p,
       pd_reason = lit (''Review output was invalid; failed closed with '' @ decision_name d @ ''.''),
       pd_rule = lit (''auto_review.'' @ point_name p @ ''.fail_closed''), pd_metadata = context, pd_event_id = event_id\<rparr>)"

text \<open>The event that records a review; \<open>None\<close> for a key that is absent.\<close>

record review_event =
  re_used :: bool
  re_final :: "decision_type option"
  re_overridden :: "bool option"
  re_review :: "review_decision option"
  re_error :: "utext option"
  re_subject :: "utext option"
  re_fast_path :: "utext option"

definition review_event_metadata :: "review_decision \<Rightarrow> policy_decision \<Rightarrow> bool \<Rightarrow> string option \<Rightarrow> review_event" where
  "review_event_metadata review final overridden code = \<lparr>re_used = True, re_final = Some (pd_decision final),
     re_overridden = Some overridden, re_review = Some review, re_error = map_option lit code, re_subject = None,
     re_fast_path = None\<rparr>"

definition no_review_event :: review_event where
  "no_review_event = \<lparr>re_used = False, re_final = None, re_overridden = None, re_review = None, re_error = None,
     re_subject = None, re_fast_path = None\<rparr>"

definition evaluate_with_review ::
  "policy_rule list \<Rightarrow> enforcement_point \<Rightarrow> pydict \<Rightarrow> review_decision option \<Rightarrow> utext
     \<Rightarrow> py_error + policy_decision \<times> review_event" where
  "evaluate_with_review rules p context review event_id =
     rbind (evaluate_policy rules p context event_id) (\<lambda>deterministic.
       case review of
         None \<Rightarrow> Inr (deterministic, no_review_event)
       | Some r \<Rightarrow>
           if rd_point r \<noteq> p
           then let final = fail_closed_policy_decision p context event_id in
                Inr (final, review_event_metadata r final False (Some ''review_enforcement_point_mismatch''))
           else if rd_suggested r \<notin> set (allowed_review_decisions p)
           then let final = fail_closed_policy_decision p context event_id in
                Inr (final, review_event_metadata r final False (Some ''invalid_review_decision''))
           else if is_stricter_than (pd_decision deterministic) (rd_suggested r)
           then Inr (deterministic, review_event_metadata r deterministic True None)
           else if is_stricter_than (rd_suggested r) (pd_decision deterministic)
           then let final = \<lparr>pd_decision = rd_suggested r, pd_point = p,
                      pd_reason = lit (''Auto review suggested a stricter decision at '' @ point_name p @ ''.''),
                      pd_rule = lit (''auto_review.'' @ point_name p), pd_metadata = context, pd_event_id = event_id\<rparr>
                in Inr (final, review_event_metadata r final False None)
           else Inr (deterministic, review_event_metadata r deterministic False None))"

end
