(* ===== verification/React_Contracts.thy ===== *)
theory React_Contracts
  imports Policy_Engine Budget_Ledger Task_Service Run_Execution
begin

text \<open>
  The contracts of the controlled ReAct loop: \<open>contracts/react_workflow.py\<close> and
  \<open>contracts/controlled_react.py\<close>, as far as the loop reads them. Texts and identifiers of a run are lists of code
  points. A run's state has neither a workflow task nor a package-bound tool task plan (see the
  header).
\<close>

datatype action_type = Ask_clarification | Plan_retrieval | Run_retrieval_step | Propose_tool_call
  | Generate_final_answer | Escalate_action | Stop_action | Refuse

fun action_name :: "action_type \<Rightarrow> string" where
  "action_name Ask_clarification = ''ask_clarification''"
| "action_name Plan_retrieval = ''plan_retrieval''"
| "action_name Run_retrieval_step = ''run_retrieval_step''"
| "action_name Propose_tool_call = ''propose_tool_call''"
| "action_name Generate_final_answer = ''generate_final_answer''"
| "action_name Escalate_action = ''escalate''"
| "action_name Stop_action = ''stop''"
| "action_name Refuse = ''refuse''"

record reasoning =
  rs_goal :: utext
  rs_observations :: "utext list"
  rs_candidates :: "action_type list"
  rs_selected :: action_type
  rs_rationale :: utext
  rs_risk_flags :: "utext list"
  rs_required :: "utext list"

record proposal =
  ap_id :: utext
  ap_type :: action_type
  ap_reasoning :: reasoning
  ap_parameters :: pydict
  ap_tool :: "utext option"
  ap_risk :: utext

text \<open>The admitted intent: its missing fields, recommended action, queries and deferred fields.\<close>

record query_item =
  qi_query :: utext
  qi_required :: bool

record intent_resolution =
  it_missing :: "utext list"
  it_next :: action_type
  it_queries :: "query_item list"
  it_deferred :: "utext list"

subsection \<open>Observations\<close>

datatype evidence_status = Candidate | Accepted | Rejected

record evidence_chunk =
  ec_source :: utext
  ec_content :: utext
  ec_status :: evidence_status
  ec_citation :: "utext option"
  ec_metadata :: pydict

record retrieval_truth =
  rt_ref :: utext
  rt_observation :: utext
  rt_action :: utext
  rt_accepted :: "evidence_chunk list"
  rt_rejected :: pydict
  rt_admission :: pydict
  rt_citations :: "utext list"

record tool_truth =
  tt_ref :: utext
  tt_observation :: utext
  tt_action :: utext
  tt_tool :: utext
  tt_result :: pydict
  tt_schema :: "utext option"
  tt_approval :: "utext option"
  tt_redaction :: pydict

datatype truth = Retrieval_truth retrieval_truth | Tool_truth tool_truth

fun truth_ref :: "truth \<Rightarrow> utext" where
  "truth_ref (Retrieval_truth t) = rt_ref t"
| "truth_ref (Tool_truth t) = tt_ref t"

fun truth_observation :: "truth \<Rightarrow> utext" where
  "truth_observation (Retrieval_truth t) = rt_observation t"
| "truth_observation (Tool_truth t) = tt_observation t"

fun truth_action :: "truth \<Rightarrow> utext" where
  "truth_action (Retrieval_truth t) = rt_action t"
| "truth_action (Tool_truth t) = tt_action t"

fun with_ref :: "utext \<Rightarrow> truth \<Rightarrow> truth" where
  "with_ref r (Retrieval_truth t) = Retrieval_truth (t\<lparr>rt_ref := r\<rparr>)"
| "with_ref r (Tool_truth t) = Tool_truth (t\<lparr>tt_ref := r\<rparr>)"

record observation =
  ob_id :: utext
  ob_action :: utext
  ob_type :: action_type
  ob_round :: int
  ob_ref :: utext
  ob_summary :: pydict
  ob_accepted :: int
  ob_new :: int
  ob_unresolved :: "utext list"
  ob_sources :: "utext list"
  ob_citations :: "utext list"

subsection \<open>Tool proposals\<close>

datatype parameter_source = User_supplied | Controlled_context | Authorized_resource_handle | System_generated
  | Planner_literal

fun parameter_source_name :: "parameter_source \<Rightarrow> string" where
  "parameter_source_name User_supplied = ''user_supplied''"
| "parameter_source_name Controlled_context = ''controlled_context''"
| "parameter_source_name Authorized_resource_handle = ''authorized_resource_handle''"
| "parameter_source_name System_generated = ''system_generated''"
| "parameter_source_name Planner_literal = ''planner_literal''"

record tool_parameter =
  tp_name :: utext
  tp_required :: bool
  tp_type :: utext
  tp_source :: parameter_source

record tool_interface =
  tf_id :: utext
  tf_risk :: utext
  tf_read_only :: bool
  tf_requires_approval :: bool
  tf_parameters :: "tool_parameter list"

record tool_scope =
  sc_interfaces :: "tool_interface list"
  sc_digest :: utext

record bound_tool =
  bt_action :: utext
  bt_tool :: utext
  bt_parameters :: pydict
  bt_sources :: pydict
  bt_digest :: utext
  bt_scope_digest :: "utext option"

record approved_tool =
  at_snapshot :: utext
  at_action_id :: utext
  at_tool :: utext
  at_parameters :: pydict
  at_parameter_digest :: utext
  at_scope_digest :: "utext option"
  at_decision :: decision_type
  at_risk :: utext

subsection \<open>The state of a run\<close>

datatype run_phase = Planning | Observing | Waiting_phase | Terminal_phase

record react_state =
  st_run :: utext
  st_institution :: pyval
  st_question :: utext
  st_max_tool_calls :: int
  st_phase :: run_phase
  st_round :: int
  st_history :: "proposal list"
  st_observations :: "observation list"
  st_intent :: "intent_resolution option"
  st_scope :: "tool_scope option"
  st_actions :: "action_type list"
  st_bound :: "bound_tool option"
  st_approved :: "approved_tool option"
  st_memory :: pydict
  st_memory_read :: bool
  st_projections :: "pydict list"

record run_snapshot =
  sn_id :: utext
  sn_run :: utext
  sn_state :: react_state

subsection \<open>Outcomes\<close>

record answer =
  an_outcome :: receipt_outcome
  an_message :: utext
  an_recovery :: "utext list"

record approval_pause =
  ps_approval :: utext
  ps_action :: utext
  ps_tool :: utext
  ps_checkpoint :: utext

record react_result =
  rr_outcome :: receipt_outcome
  rr_reason :: "utext option"
  rr_answer :: "answer option"
  rr_missing :: "utext list"
  rr_approval :: "approval_pause option"

subsection \<open>Errors\<close>

datatype react_error = Run_value_error string | Run_error string string | Run_key_error | Run_index_error
  | Out_of_budget budget_reason | Normalization_error string | Port_error

end
