(* ===== verification/React_Actions.thy ===== *)
theory React_Actions
  imports React_Contracts
begin

text \<open>
  The deterministic control of the planner's actions: \<open>controlled_react/action_control.py\<close>, the required
  retrievals and their completion of \<open>controlled_react/task_completion.py\<close>, the interaction decisions of
  \<open>control/workflow/interaction.py\<close>, and the review of an action in \<open>controlled_react/review.py\<close>.
\<close>

subsection \<open>Eligible actions\<close>

definition should_stop_for_plan_budget :: "int \<Rightarrow> int \<Rightarrow> bool" where
  "should_stop_for_plan_budget plan_rounds max_plan_rounds \<longleftrightarrow> max_plan_rounds \<le> plan_rounds"

definition plan_eligible_actions :: "action_type set" where
  "plan_eligible_actions = {Plan_retrieval, Propose_tool_call, Generate_final_answer, Ask_clarification, Refuse}"

definition terminal_narrowed_actions :: "action_type set" where
  "terminal_narrowed_actions = {Generate_final_answer, Refuse}"

text \<open>\<open>_action_fingerprint\<close>: equal types and equal parameters.\<close>

definition same_fingerprint :: "proposal \<Rightarrow> proposal \<Rightarrow> bool" where
  "same_fingerprint a b \<longleftrightarrow> ap_type a = ap_type b \<and> py_dict_eq (ap_parameters a) (ap_parameters b)"

definition latest_unresolved :: "observation list \<Rightarrow> bool" where
  "latest_unresolved obs \<longleftrightarrow> obs \<noteq> [] \<and> ob_unresolved (last obs) \<noteq> []"

definition detect_answer_ready :: "observation list \<Rightarrow> bool" where
  "detect_answer_ready obs \<longleftrightarrow> obs \<noteq> [] \<and> 0 < ob_accepted (last obs) \<and> \<not> latest_unresolved obs"

text \<open>The last three counts show no growth over the first of them.\<close>

definition detect_evidence_saturation :: "int list \<Rightarrow> bool" where
  "detect_evidence_saturation trajectory \<longleftrightarrow> 2 < length trajectory
     \<and> (case drop (length trajectory - 3) trajectory of [] \<Rightarrow> False | b # cs \<Rightarrow> list_all (\<lambda>c. c \<le> b) cs)"

definition detect_action_repetition :: "proposal list \<Rightarrow> bool" where
  "detect_action_repetition history \<longleftrightarrow> 2 \<le> length history
     \<and> same_fingerprint (history ! (length history - 2)) (history ! (length history - 1))"

definition answer_ready_blocked_actions :: "utext list \<Rightarrow> action_type set" where
  "answer_ready_blocked_actions codes =
     (if codes \<noteq> [] \<and> list_all (\<lambda>c. c \<in> {lit ''unresolved_subgoal'', lit ''variant_conflict''}) codes
      then {Ask_clarification, Refuse} else {Refuse})"

text \<open>The codes of the blockers are given stripped.\<close>

definition compute_eligible_action_set ::
  "int \<Rightarrow> int \<Rightarrow> proposal list \<Rightarrow> int list \<Rightarrow> observation list \<Rightarrow> utext list \<Rightarrow> action_type set \<times> string option" where
  "compute_eligible_action_set plan_rounds max_plan_rounds history trajectory obs blockers =
     (if should_stop_for_plan_budget plan_rounds max_plan_rounds then ({Refuse}, Some ''plan_budget_exhausted'')
      else if detect_answer_ready obs
      then if blockers \<noteq> [] then (answer_ready_blocked_actions blockers, Some ''answer_ready_blocked'')
           else ({Generate_final_answer}, Some ''answer_ready'')
      else if detect_action_repetition history then (terminal_narrowed_actions, Some ''action_repetition'')
      else if detect_evidence_saturation trajectory then (terminal_narrowed_actions, Some ''evidence_saturation'')
      else (plan_eligible_actions, None))"

definition should_block_duplicate :: "proposal \<Rightarrow> proposal list \<Rightarrow> observation list \<Rightarrow> bool" where
  "should_block_duplicate a history obs \<longleftrightarrow> ap_type a \<in> {Plan_retrieval, Propose_tool_call}
     \<and> list_ex (\<lambda>h. same_fingerprint h a) history \<and> \<not> latest_unresolved obs"

text \<open>\<open>sorted(actions, key=value)\<close>.\<close>

definition sorted_actions :: "action_type set \<Rightarrow> action_type list" where
  "sorted_actions S = filter (\<lambda>a. a \<in> S) [Ask_clarification, Escalate_action, Generate_final_answer, Plan_retrieval,
     Propose_tool_call, Refuse, Run_retrieval_step, Stop_action]"

definition constrain_action :: "proposal \<Rightarrow> action_type set \<Rightarrow> string option \<Rightarrow> react_error + proposal" where
  "constrain_action a eligible signal =
     (if ap_type a \<in> eligible then Inr a
      else if signal = Some ''plan_budget_exhausted'' \<and> Refuse \<in> eligible then Inr (a\<lparr>ap_type := Refuse\<rparr>)
      else if Generate_final_answer \<in> eligible then Inr (a\<lparr>ap_type := Generate_final_answer\<rparr>)
      else if Refuse \<in> eligible then Inr (a\<lparr>ap_type := Refuse\<rparr>)
      else if Ask_clarification \<in> eligible then Inr (a\<lparr>ap_type := Ask_clarification\<rparr>)
      else case sorted_actions eligible of [] \<Rightarrow> Inl Run_index_error | d # _ \<Rightarrow> Inr (a\<lparr>ap_type := d\<rparr>))"

subsection \<open>Required retrievals\<close>

record required_retrieval =
  rq_id :: utext
  rq_text :: utext

record requirement_progress =
  pg_requirement :: required_retrieval
  pg_attempted :: bool
  pg_support :: "utext list"

record retrieval_completion =
  cp_requirements :: "requirement_progress list"
  cp_missing :: "utext list"
  cp_supplementary :: "required_retrieval list"

definition completion_complete :: "retrieval_completion \<Rightarrow> bool" where
  "completion_complete c \<longleftrightarrow> cp_requirements c \<noteq> [] \<and> list_all (\<lambda>p. pg_support p \<noteq> []) (cp_requirements c) \<and> cp_missing c = []"

definition completion_pending :: "retrieval_completion \<Rightarrow> required_retrieval list" where
  "completion_pending c =
     (let required = map pg_requirement (filter (\<lambda>p. \<not> pg_attempted p) (cp_requirements c)) in
      if required \<noteq> [] \<or> list_ex (\<lambda>p. pg_support p = []) (cp_requirements c) then required
      else if cp_missing c \<noteq> [] then cp_supplementary c else [])"

text \<open>
  The text rules of a run are parameters: SHA-256 of a query, the answer requirements that the
  evidence for a performance comparison leaves open, and the heuristic for fields that a purchase
  question does not need (regular expressions over Chinese wording).
\<close>

record text_rules =
  tr_sha :: "utext \<Rightarrow> utext"
  tr_missing :: "utext \<Rightarrow> evidence_chunk list \<Rightarrow> utext list"
  tr_irrelevant :: "utext \<Rightarrow> utext \<Rightarrow> bool"

definition requirement_of :: "text_rules \<Rightarrow> utext \<Rightarrow> required_retrieval" where
  "requirement_of T q = \<lparr>rq_id = lit ''rq_'' @ tr_sha T q, rq_text = q\<rparr>"

definition invalid_requirement :: react_error where
  "invalid_requirement = Run_error ''PA_RUNTIME_001'' ''Required retrieval specification is invalid.''"

definition required_retrievals :: "text_rules \<Rightarrow> intent_resolution option \<Rightarrow> react_error + required_retrieval list" where
  "required_retrievals T intent = (case intent of
       None \<Rightarrow> Inr []
     | Some i \<Rightarrow>
         if 5 < length (it_queries i) \<or> list_ex (\<lambda>q. strip_text (qi_query q) = []) (it_queries i)
         then Inl invalid_requirement
         else Inr (map (requirement_of T)
                (dict_fromkeys (map (\<lambda>q. strip_text (qi_query q)) (filter qi_required (it_queries i))))))"

text \<open>The query of an admitted retrieval observation, and the evidence that supports it.\<close>

definition observed_query :: "observation \<Rightarrow> truth \<Rightarrow> utext option" where
  "observed_query o1 t = (case t of
       Tool_truth _ \<Rightarrow> None
     | Retrieval_truth r \<Rightarrow>
         if ob_type o1 \<noteq> Plan_retrieval then None
         else case dict_get (rt_admission r) ''query'' of
             Py_text q \<Rightarrow> if strip_text q = [] then None else Some (strip_text q)
           | _ \<Rightarrow> None)"

definition chunk_cited :: "observation \<Rightarrow> retrieval_truth \<Rightarrow> evidence_chunk \<Rightarrow> bool" where
  "chunk_cited o1 r c \<longleftrightarrow> ec_status c = Accepted \<and> ec_source c \<in> set (ob_sources o1)
     \<and> (case ec_citation c of None \<Rightarrow> False | Some k \<Rightarrow> k \<in> set (ob_citations o1) \<and> k \<in> set (rt_citations r))"

definition chunk_supports :: "observation \<Rightarrow> retrieval_truth \<Rightarrow> evidence_chunk \<Rightarrow> bool" where
  "chunk_supports o1 r c \<longleftrightarrow> chunk_cited o1 r c \<and> strip_text (ec_source c) \<noteq> []
     \<and> (case ec_citation c of None \<Rightarrow> False | Some k \<Rightarrow> strip_text k \<noteq> [])"

definition observed_evidence :: "observation \<Rightarrow> truth \<Rightarrow> evidence_chunk list" where
  "observed_evidence o1 t = (case t of Retrieval_truth r \<Rightarrow> filter (chunk_cited o1 r) (rt_accepted r) | Tool_truth _ \<Rightarrow> [])"

definition observed_support :: "observation \<Rightarrow> truth \<Rightarrow> bool" where
  "observed_support o1 t = (case t of Retrieval_truth r \<Rightarrow> list_ex (chunk_supports o1 r) (rt_accepted r) | Tool_truth _ \<Rightarrow> False)"

definition supplement_suffix :: utext where
  "supplement_suffix = [32, 23454, 38469, 25253, 21578, 26399, 32, 21508, 19994, 21153, 33829, 36816, 21033, 28070, 32, 26032,
     19994, 21153, 20215, 20540, 29575, 32, 20928, 24687, 24046, 32, 19979, 38477, 32, 20111, 25439, 32, 20943, 20540]"

text \<open>
  The assessment over records and the truths loaded for them; \<open>binding_run\<close> is the run that a bound
  reference names, and \<open>None\<close> when the reference is not bound to the truth.
\<close>

definition assess_retrieval_completion ::
  "text_rules \<Rightarrow> (truth \<Rightarrow> react_error + (utext \<times> utext)) \<Rightarrow> utext \<Rightarrow> required_retrieval list \<Rightarrow> observation list \<Rightarrow> truth list
     \<Rightarrow> utext \<Rightarrow> utext list \<Rightarrow> react_error + retrieval_completion" where
  "assess_retrieval_completion T binding run requirements records truths question optional =
     (let pairs = zip records truths in
      rbind (fold (\<lambda>(o1, t) acc. rbind acc (\<lambda>_. rbind (binding t) (\<lambda>(brun, ref).
             if brun \<noteq> run \<or> ob_ref o1 \<noteq> ref \<or> ob_id o1 \<noteq> truth_observation t \<or> ob_action o1 \<noteq> truth_action t
             then Inl (Run_error ''PA_RUNTIME_001'' ''Retrieval completion evidence identity is invalid.'')
             else Inr ()))) pairs (Inr ())) (\<lambda>_.
        if length records \<noteq> length truths then Inl (Run_value_error ''zip() argument length'') else
        let admitted = filter (\<lambda>(o1, t). observed_query o1 t \<noteq> None) pairs;
            attempted = map (\<lambda>(o1, t). the (observed_query o1 t)) admitted;
            support = (\<lambda>q. map (\<lambda>(o1, t). ob_ref o1)
                (filter (\<lambda>(o1, t). observed_query o1 t = Some q \<and> observed_support o1 t) admitted));
            evidence = concat (map (\<lambda>(o1, t). observed_evidence o1 t) admitted);
            missing = (if is_performance_comparison question then tr_missing T question evidence else []);
            supplementary = (if missing = [] then []
              else map (requirement_of T) (filter (\<lambda>q. q \<noteq> [] \<and> q \<notin> set attempted)
                     (dict_fromkeys (take 3 optional @ [take 150 question @ supplement_suffix]))))
        in Inr \<lparr>cp_requirements = map (\<lambda>r. \<lparr>pg_requirement = r, pg_attempted = (rq_text r \<in> set attempted),
                   pg_support = dict_fromkeys (support (rq_text r))\<rparr>) requirements,
                cp_missing = missing, cp_supplementary = supplementary\<rparr>))"

definition incomplete_refusal :: "proposal \<Rightarrow> string \<Rightarrow> proposal" where
  "incomplete_refusal a reason = a\<lparr>ap_type := Refuse, ap_parameters := [(lit ''refusal_reason'', Py_text (lit reason))],
     ap_tool := None, ap_reasoning := (ap_reasoning a)\<lparr>rs_selected := Refuse,
       rs_rationale := lit ''The retrieval completion gate does not permit a final answer.''\<rparr>\<rparr>"

definition pending_retrieval_action :: "proposal \<Rightarrow> required_retrieval \<Rightarrow> int \<Rightarrow> proposal" where
  "pending_retrieval_action a r plan_round = \<lparr>
     ap_id = lit ''act_required_'' @ int_text (plan_round + 1) @ lit ''_'' @ take 16 (drop 3 (rq_id r)),
     ap_type = Plan_retrieval,
     ap_reasoning = \<lparr>rs_goal = lit ''Complete the required retrieval evidence.'',
       rs_observations = [lit ''A required query has no verified evidence.''],
       rs_candidates = [Plan_retrieval, Refuse], rs_selected = Plan_retrieval,
       rs_rationale = lit ''Retrieve the pending requirement before finalizing.'',
       rs_risk_flags = rs_risk_flags (ap_reasoning a), rs_required = [rq_id r]\<rparr>,
     ap_parameters = [(lit ''query'', Py_text (rq_text r))], ap_tool = None, ap_risk = ap_risk a\<rparr>"

subsection \<open>Interaction\<close>

datatype interaction_decision = Continue_work | Ask_user | Missing_context | Pause_work

definition required_reasons :: "interaction_reason list" where
  "required_reasons = [Required_context, Scope_change, Budget_change, Applicability_unresolved, Required_parameter,
     User_preference_blocking]"

definition decide_interaction ::
  "interaction_policy \<Rightarrow> interaction_stage \<Rightarrow> interaction_reason \<Rightarrow> bool \<Rightarrow> int \<Rightarrow> interaction_decision" where
  "decide_interaction p stage reason has_default rounds =
     (let required = reason \<in> set required_reasons;
          checkpoint = map_of (ip_checkpoints p) stage;
          intensity = (case checkpoint of None \<Rightarrow> ip_intensity p
            | Some c \<Rightarrow> (case ic_intensity c of None \<Rightarrow> ip_intensity p | Some i \<Rightarrow> i));
          optional_ask = (case checkpoint of None \<Rightarrow> False | Some c \<Rightarrow> reason \<in> set (ic_ask_on c))
            \<or> ip_mode p = Interactive \<or> intensity = Thorough \<or> (intensity = Balanced \<and> \<not> has_default)
      in if reason = Retrievable then Continue_work
         else if \<not> required \<and> (\<not> optional_ask \<or> ip_mode p = Autonomous \<or> ip_rounds p \<le> rounds) then Continue_work
         else if ip_mode p = Autonomous \<or> ip_rounds p \<le> rounds
         then (if ip_unavailable p = Pause_task then Pause_work else Missing_context)
         else Ask_user)"

subsection \<open>Reviewing an action\<close>

text \<open>What a reviewer does: it returns a decision, its output fails normalisation, or it raises.\<close>

datatype reviewer_result = Reviewed review_decision | Output_invalid utext | Reviewer_raised

definition low_risk_fast_path ::
  "enforcement_point \<Rightarrow> pydict \<Rightarrow> proposal \<Rightarrow> bool \<Rightarrow> bool \<Rightarrow> bool \<Rightarrow> bool" where
  "low_risk_fast_path p context a enabled auto_review reviewer_available \<longleftrightarrow>
     enabled \<and> auto_review \<and> reviewer_available \<and> ap_risk a = lit ''low''
     \<and> ((p = Before_retrieval_plan \<and> ap_type a = Plan_retrieval)
       \<or> (p = Before_retrieval_step \<and> ap_type a = Run_retrieval_step)
       \<or> (p = Before_model_call \<and> ap_type a = Generate_final_answer
          \<and> (case py_int (dict_get context ''accepted_evidence_count'') of Inl _ \<Rightarrow> False | Inr n \<Rightarrow> 0 < n)
          \<and> py_truth (dict_get context ''citations_present'')))"

definition reviewer_failure :: "enforcement_point \<Rightarrow> pydict \<Rightarrow> utext \<Rightarrow> proposal \<Rightarrow> utext \<Rightarrow> policy_decision \<times> review_event" where
  "reviewer_failure p context event_id a code =
     (let final = fail_closed_policy_decision p context event_id in
      (final, no_review_event\<lparr>re_final := Some (pd_decision final), re_overridden := Some False, re_error := Some code,
         re_subject := Some (ap_id a)\<rparr>))"

definition review_action ::
  "policy_rule list \<Rightarrow> enforcement_point \<Rightarrow> pydict \<Rightarrow> proposal \<Rightarrow> bool \<Rightarrow> (proposal \<Rightarrow> pydict \<Rightarrow> reviewer_result) option \<Rightarrow> bool
     \<Rightarrow> utext \<Rightarrow> py_error + policy_decision \<times> review_event" where
  "review_action rules p context a auto_review reviewer fast_path_enabled event_id =
     (let review = (\<lambda>_. case (auto_review, reviewer) of
          (True, Some f) \<Rightarrow> (case f a context of
              Reviewed r \<Rightarrow> evaluate_with_review rules p context (Some r) event_id
            | Output_invalid code \<Rightarrow> Inr (reviewer_failure p context event_id a code)
            | Reviewer_raised \<Rightarrow> Inr (reviewer_failure p context event_id a (lit ''review_subagent_error'')))
        | _ \<Rightarrow> evaluate_with_review rules p context None event_id)
      in if low_risk_fast_path p context a fast_path_enabled auto_review (reviewer \<noteq> None)
         then rbind (evaluate_policy rules p context event_id) (\<lambda>d.
           if pd_decision d = Allow
           then Inr (d, no_review_event\<lparr>re_final := Some Allow, re_overridden := Some False, re_subject := Some (ap_id a),
                  re_fast_path := Some (lit ''low_risk_policy_allow'')\<rparr>)
           else review ())
         else review ())"

end
