(* ===== verification/React_Observations.thy ===== *)
theory React_Observations
  imports React_Actions
begin

text \<open>
  Committing an observation: the references of \<open>controlled_react/artifact_binding.py\<close>, the transition
  kernel of \<open>controlled_react/state_machine.py\<close>, and the committer with its in-memory truth store of
  \<open>controlled_react/observation_commit.py\<close>. The digests and the canonical JSON of a truth are parameters.
\<close>

subsection \<open>References\<close>

text \<open>
  The digest of the binding envelope of a run id and a truth with its base reference, and the
  canonical JSON of a truth.
\<close>

record truth_codec =
  tc_digest :: "utext \<Rightarrow> truth \<Rightarrow> utext"
  tc_canonical :: "truth \<Rightarrow> utext"

fun split_on :: "int \<Rightarrow> utext \<Rightarrow> utext list" where
  "split_on d [] = [[]]"
| "split_on d (c # cs) = (if c = d then [] # split_on d cs
     else case split_on d cs of [] \<Rightarrow> [[c]] | w # ws \<Rightarrow> (c # w) # ws)"

text \<open>
  \<open>require_safe_identifier\<close>: no separators, no NUL, not a dot name; a second character \<open>:\<close> is a
  Windows drive.
\<close>

definition safe_identifier :: "utext \<Rightarrow> bool" where
  "safe_identifier v \<longleftrightarrow> v \<noteq> [] \<and> v \<noteq> lit ''.'' \<and> v \<noteq> lit ''..'' \<and> 47 \<notin> set v \<and> 92 \<notin> set v \<and> 0 \<notin> set v
     \<and> \<not> (2 \<le> length v \<and> v ! 1 = 58)"

definition sha256_text :: "utext \<Rightarrow> bool" where
  "sha256_text d \<longleftrightarrow> length d = 64 \<and> list_all (\<lambda>c. text_digit c \<or> (97 \<le> c \<and> c \<le> 102)) d"

definition artifact_error :: "string \<Rightarrow> react_error" where
  "artifact_error what = Run_error ''PA_RUNTIME_001'' what"

definition observation_base_reference :: "utext \<Rightarrow> utext \<Rightarrow> utext" where
  "observation_base_reference run oid = lit ''observation://'' @ run @ lit ''/'' @ oid @ lit ''/truth''"

text \<open>The run, the observation and the digest that a reference names.\<close>

definition parse_observation_reference :: "utext \<Rightarrow> bool \<Rightarrow> react_error + (utext \<times> utext \<times> utext option)" where
  "parse_observation_reference ref digest_required =
     (if \<not> prefix (lit ''observation://'') ref then Inl (artifact_error ''invalid observation truth reference'')
      else let parts = split_on 47 (drop 14 ref);
               is_base = (length parts = 3 \<and> parts ! 2 = lit ''truth'');
               is_bound = (length parts = 5 \<and> parts ! 2 = lit ''truth'' \<and> parts ! 3 = lit ''sha256'')
           in if (digest_required \<and> \<not> is_bound) \<or> (\<not> is_base \<and> \<not> is_bound)
              then Inl (artifact_error ''invalid observation truth reference'')
              else if \<not> safe_identifier (parts ! 0) then Inl (artifact_error ''invalid controlled ReAct artifact run id'')
              else if \<not> safe_identifier (parts ! 1) then Inl (artifact_error ''invalid controlled ReAct artifact observation id'')
              else if is_bound \<and> \<not> sha256_text (parts ! 4) then Inl (artifact_error ''invalid SHA-256 artifact reference'')
              else Inr (parts ! 0, parts ! 1, if is_bound then Some (parts ! 4) else None))"

record truth_binding =
  tb_base :: utext
  tb_ref :: utext
  tb_run :: utext
  tb_truth :: truth

definition identity_error :: react_error where
  "identity_error = artifact_error ''controlled ReAct observation truth identity or digest does not match''"

definition bind_observation_truth :: "truth_codec \<Rightarrow> truth \<Rightarrow> react_error + truth_binding" where
  "bind_observation_truth C t =
     rbind (parse_observation_reference (truth_ref t) False) (\<lambda>(run, oid, supplied).
       if truth_observation t \<noteq> oid then Inl identity_error
       else let base = observation_base_reference run oid;
                digest = tc_digest C run (with_ref base t);
                ref = base @ lit ''/sha256/'' @ digest
            in case supplied of
                 Some d \<Rightarrow> if d \<noteq> digest \<or> truth_ref t \<noteq> ref then Inl identity_error
                   else Inr \<lparr>tb_base = base, tb_ref = ref, tb_run = run, tb_truth = with_ref ref t\<rparr>
               | None \<Rightarrow> Inr \<lparr>tb_base = base, tb_ref = ref, tb_run = run, tb_truth = with_ref ref t\<rparr>)"

definition require_bound_truth :: "truth_codec \<Rightarrow> truth \<Rightarrow> react_error + truth_binding" where
  "require_bound_truth C t = rbind (parse_observation_reference (truth_ref t) True) (\<lambda>_. bind_observation_truth C t)"

subsection \<open>The truth store\<close>

record truth_store =
  ts_truths :: "(utext \<times> truth) list"
  ts_bases :: "(utext \<times> utext) list"

definition empty_store :: truth_store where
  "empty_store = \<lparr>ts_truths = [], ts_bases = []\<rparr>"

definition save_truth :: "truth_codec \<Rightarrow> truth \<Rightarrow> truth_store \<Rightarrow> react_error + (utext \<times> truth_store)" where
  "save_truth C t S =
     rbind (require_bound_truth C t) (\<lambda>b.
       case map_of (ts_bases S) (tb_base b) of
         Some r \<Rightarrow> if r \<noteq> tb_ref b then Inl (Run_value_error ''conflicting observation truth already exists'')
           else Inr (tb_ref b, S\<lparr>ts_truths := dict_put fst (tb_ref b, tb_truth b) (ts_truths S),
                  ts_bases := dict_put fst (tb_base b, tb_ref b) (ts_bases S)\<rparr>)
       | None \<Rightarrow> Inr (tb_ref b, S\<lparr>ts_truths := dict_put fst (tb_ref b, tb_truth b) (ts_truths S),
             ts_bases := dict_put fst (tb_base b, tb_ref b) (ts_bases S)\<rparr>))"

definition load_truth :: "utext \<Rightarrow> truth_store \<Rightarrow> react_error + truth" where
  "load_truth ref S = (case map_of (ts_truths S) ref of None \<Rightarrow> Inl Run_key_error | Some t \<Rightarrow> Inr t)"

subsection \<open>The transition kernel\<close>

definition has_observation :: "react_state \<Rightarrow> observation \<Rightarrow> bool" where
  "has_observation s o1 \<longleftrightarrow> list_ex (\<lambda>e. ob_id e = ob_id o1 \<and> ob_action e = ob_action o1) (st_observations s)"

text \<open>\<open>advance\<close> for its one command, with the effect that carries the same command id.\<close>

definition record_observation :: "react_state \<Rightarrow> proposal \<Rightarrow> observation \<Rightarrow> react_error + react_state" where
  "record_observation s a o1 =
     (if ob_action o1 \<noteq> ap_id a then Inl (Run_value_error ''observation action_id does not match command action'')
      else if has_observation s o1 then Inr s
      else if st_phase s \<noteq> Observing then Inl (Run_value_error ''observation records can only be committed while observing'')
      else Inr (s\<lparr>st_phase := Planning, st_observations := st_observations s @ [o1]\<rparr>))"

subsection \<open>Committing\<close>

record identity =
  id_observation :: utext
  id_ref :: utext

definition allocate_identity :: "react_state \<Rightarrow> proposal \<Rightarrow> identity" where
  "allocate_identity s a =
     (let oid = lit ''obs_'' @ int_text (st_round s) @ lit ''_'' @ ap_id a in
      \<lparr>id_observation = oid, id_ref = observation_base_reference (st_run s) oid\<rparr>)"

record effect =
  ef_record :: observation
  ef_truth :: truth
  ef_projection :: pydict
  ef_fields :: "utext list"
  ef_summary :: "pydict option"

text \<open>\<open>int(value or 0)\<close>.\<close>

definition count_or_zero :: "pyval \<Rightarrow> react_error + int" where
  "count_or_zero v = (if \<not> py_truth v then Inr 0
     else case py_int v of Inl _ \<Rightarrow> Inl (Run_value_error ''int'') | Inr n \<Rightarrow> Inr n)"

definition build_summary :: "effect \<Rightarrow> react_error + pydict" where
  "build_summary e = (case ef_truth e of
       Retrieval_truth t \<Rightarrow>
         rbind (count_or_zero (dict_get (rt_rejected t) ''count'')) (\<lambda>n.
           Inr ([(lit ''truth_kind'', Py_text (lit ''retrieval'')),
                 (lit ''accepted_evidence_count'', Py_int (len (rt_accepted t))),
                 (lit ''rejected_evidence_count'', Py_int n),
                 (lit ''citation_count'', Py_int (len (rt_citations t)))]
               @ concat (map (\<lambda>k. case map_of (rt_admission t) k of None \<Rightarrow> [] | Some v \<Rightarrow> [(k, v)])
                   [lit ''min_score'', lit ''evidence_validation''])))
     | Tool_truth t \<Rightarrow>
         let fields = (case ef_summary e of Some d \<Rightarrow> d
               | None \<Rightarrow> concat (map (\<lambda>f. case map_of (tt_result t) f of None \<Rightarrow> [] | Some v \<Rightarrow> [(f, v)]) (dict_fromkeys (ef_fields e))))
         in rbind (count_or_zero (dict_get (tt_redaction t) ''redacted_field_count'')) (\<lambda>n.
           Inr [(lit ''truth_kind'', Py_text (lit ''tool'')), (lit ''tool_name'', Py_text (tt_tool t)),
                (lit ''result_schema_id'', case tt_schema t of None \<Rightarrow> Py_none | Some x \<Rightarrow> Py_text x),
                (lit ''fields'', Py_dict fields), (lit ''result'', Py_dict fields),
                (lit ''redacted_field_count'', Py_int n)]))"

text \<open>The dictionary display \<open>{**d, **e}\<close>.\<close>

fun merge_dict :: "pydict \<Rightarrow> pydict \<Rightarrow> pydict" where
  "merge_dict d [] = d"
| "merge_dict d (kv # e) = merge_dict (dict_put fst kv d) e"

definition trace_projection :: "observation \<Rightarrow> effect \<Rightarrow> pydict" where
  "trace_projection o1 e =
     (let base = merge_dict
        [(lit ''observation_id'', Py_text (ob_id o1)), (lit ''action_id'', Py_text (ob_action o1)),
         (lit ''action_type'', Py_text (lit (action_name (ob_type o1)))), (lit ''round'', Py_int (ob_round o1)),
         (lit ''truth_ref'', Py_text (ob_ref o1)), (lit ''accepted_evidence_count'', Py_int (ob_accepted o1)),
         (lit ''new_evidence_count'', Py_int (ob_new o1)), (lit ''source_refs'', Py_list (map Py_text (ob_sources o1))),
         (lit ''citation_refs'', Py_list (map Py_text (ob_citations o1)))] (ob_summary o1)
      in base @ filter (\<lambda>(k, v). k \<notin> fst ` set base) (ef_projection e))"

definition validate_effect :: "react_state \<Rightarrow> proposal \<Rightarrow> effect \<Rightarrow> identity \<Rightarrow> react_error + unit" where
  "validate_effect s a e i =
     (let r = ef_record e; t = ef_truth e in
      if ob_round r \<noteq> st_round s then Inl (Run_value_error ''observation round does not match current plan round'')
      else if ob_action r \<noteq> ap_id a then Inl (Run_value_error ''observation action_id does not match action'')
      else if ob_type r \<noteq> ap_type a then Inl (Run_value_error ''observation action_type does not match action'')
      else if truth_action t \<noteq> ap_id a then Inl (Run_value_error ''truth action_id does not match action'')
      else if ob_id r \<noteq> truth_observation t then Inl (Run_value_error ''observation_id does not match truth artifact'')
      else if ob_ref r \<noteq> truth_ref t then Inl (Run_value_error ''observation truth_ref does not match truth artifact'')
      else if ob_id r \<noteq> id_observation i then Inl (Run_value_error ''observation_id does not match allocated observation identity'')
      else if ob_ref r \<noteq> id_ref i then Inl (Run_value_error ''truth_ref does not match allocated observation identity'')
      else Inr ())"

definition verify_stored_truth :: "truth_codec \<Rightarrow> truth \<Rightarrow> utext \<Rightarrow> truth_store \<Rightarrow> react_error + unit" where
  "verify_stored_truth C t ref S =
     rbind (load_truth ref S) (\<lambda>stored. rbind (require_bound_truth C stored) (\<lambda>b.
       if tb_ref b \<noteq> ref then Inl (Run_value_error ''truth store loaded a mismatched truth_ref'')
       else if tc_canonical C (tb_truth b) \<noteq> tc_canonical C t
       then Inl (Run_value_error ''truth store loaded a mismatched observation payload'')
       else Inr ()))"

text \<open>The new state, the projection for the trace, and the store.\<close>

definition commit_observation ::
  "truth_codec \<Rightarrow> react_state \<Rightarrow> proposal \<Rightarrow> effect \<Rightarrow> identity \<Rightarrow> truth_store
     \<Rightarrow> react_error + (react_state \<times> pydict \<times> truth_store)" where
  "commit_observation C s a e i S =
     rbind (validate_effect s a e i) (\<lambda>_.
     rbind (build_summary e) (\<lambda>summary.
     rbind (bind_observation_truth C (ef_truth e)) (\<lambda>b.
       let r = (ef_record e)\<lparr>ob_summary := summary, ob_ref := tb_ref b\<rparr> in
       case find (\<lambda>x. ob_id x = ob_id r \<and> ob_action x = ob_action r) (st_observations s) of
         Some x \<Rightarrow>
           if ob_ref x \<noteq> tb_ref b
           then Inl (Run_value_error ''conflicting observation payload for committed observation identity'')
           else rbind (verify_stored_truth C (tb_truth b) (tb_ref b) S) (\<lambda>_. Inr (s, trace_projection x e, S))
       | None \<Rightarrow>
           rbind (record_observation s a r) (\<lambda>s'.
           rbind (save_truth C (tb_truth b) S) (\<lambda>(saved, S').
             if saved \<noteq> tb_ref b then Inl (Run_value_error ''truth store returned a mismatched truth_ref'')
             else rbind (verify_stored_truth C (tb_truth b) (tb_ref b) S') (\<lambda>_.
               Inr (s', trace_projection r e, S')))))))"

text \<open>\<open>_commit_observation_effect\<close>: the projections follow the records.\<close>

definition commit_effect ::
  "truth_codec \<Rightarrow> react_state \<Rightarrow> proposal \<Rightarrow> effect \<Rightarrow> identity \<Rightarrow> truth_store \<Rightarrow> react_error + (react_state \<times> truth_store)" where
  "commit_effect C s a e i S =
     rbind (commit_observation C s a e i S) (\<lambda>(s', p, S').
       if length (st_observations s') \<le> length (st_observations s) then Inr (s', S')
       else let existing = st_projections s';
                gap = drop (length existing) (butlast (st_observations s'))
            in Inr (s'\<lparr>st_projections := existing @ map ob_summary gap @ [p]\<rparr>, S'))"

end
