(* ===== verification/React_Planning.thy ===== *)
theory React_Planning
  imports React_Observations
begin

text \<open>
  The ports of the orchestrator (\<open>controlled_react/ports.py\<close>), the effects of calling them, and the
  planning of the next action: \<open>_plan_next_action\<close> of \<open>controlled_react/orchestrator.py\<close> with the functions it
  calls. The world behind the ports is a parameter; calls are logged in the order they happen.
\<close>

subsection \<open>Ports\<close>

type_synonym ('w, 'a) port = "'w \<Rightarrow> (react_error + 'a) \<times> 'w"

record 'w memory_port =
  mp_read :: "react_state \<Rightarrow> ('w, pydict) port"
  mp_prepare :: "react_state \<Rightarrow> answer \<Rightarrow> ('w, pydict option) port"
  mp_commit :: "pydict \<Rightarrow> ('w, bool) port"

record 'w policy_port =
  pp_tool :: "react_state \<Rightarrow> proposal \<Rightarrow> ('w, decision_type) port"
  pp_memory :: "(react_state \<Rightarrow> pydict \<Rightarrow> ('w, decision_type) port) option"
  pp_answer :: "(react_state \<Rightarrow> proposal \<Rightarrow> answer \<Rightarrow> ('w, decision_type) port) option"

record 'w snapshot_port =
  sp_save :: "run_snapshot \<Rightarrow> ('w, utext) port"
  sp_load :: "utext \<Rightarrow> ('w, run_snapshot) port"

record 'w budget_port =
  bp_restore :: "('w, unit) port"
  bp_ensure :: "('w, unit) port"

type_synonym 'w observation_port = "react_state \<Rightarrow> proposal \<Rightarrow> identity \<Rightarrow> ('w, effect) port"

record 'w ports =
  pt_planner :: "react_state \<Rightarrow> ('w, proposal) port"
  pt_synthesis :: "react_state \<Rightarrow> proposal \<Rightarrow> truth list \<Rightarrow> ('w, answer) port"
  pt_intent :: "(react_state \<Rightarrow> ('w, intent_resolution) port) option"
  pt_memory :: "'w memory_port option"
  pt_knowledge :: "'w observation_port option"
  pt_tool :: "'w observation_port option"
  pt_policy :: "'w policy_port option"
  pt_review :: "(react_state \<Rightarrow> proposal \<Rightarrow> ('w, decision_type) port) option"
  pt_scope :: "(react_state \<Rightarrow> ('w, tool_scope) port) option"
  pt_snapshots :: "'w snapshot_port option"
  pt_assurance_check :: "assurance_policy \<Rightarrow> evidence_chunk list \<Rightarrow> answer option \<Rightarrow> ('w, bool) port"
  pt_budget :: "'w budget_port option"
  pt_execution :: "execution_policy option"
  pt_interaction :: "interaction_policy option"
  pt_assurance :: "assurance_policy option"
  pt_tools_enabled :: "bool option"
  pt_memory_enabled :: "bool option"

text \<open>
  Pure functions of the run that are parameters: the text rules, the bindings of artifacts, the
  digest of a plan's configuration, the digest of tool parameters, and the answer requirements of a
  question with their source texts.
\<close>

record react_rules =
  ru_text :: text_rules
  ru_truths :: truth_codec
  ru_plan_digest :: plan_digest
  ru_digest :: "pydict \<Rightarrow> utext"
  ru_requirements :: "utext \<Rightarrow> (utext \<times> utext) list"
  ru_snapshot_digest :: "run_snapshot \<Rightarrow> utext"
  ru_snapshot_canonical :: "run_snapshot \<Rightarrow> utext"
  ru_pause_digest :: "int \<Rightarrow> utext \<Rightarrow> utext"

subsection \<open>Effects\<close>

datatype call = Called_planner | Called_intent | Called_scope
  | Called_review proposal decision_type | Called_policy proposal decision_type
  | Called_knowledge proposal | Called_tool proposal | Called_synthesis proposal
  | Called_answer_policy proposal decision_type | Called_memory_policy pydict decision_type
  | Called_memory_commit pydict | Called_snapshot_save

record 'w session =
  ss_world :: 'w
  ss_store :: truth_store
  ss_plan :: execution_plan
  ss_calls :: "call list"

type_synonym ('w, 'a) act = "'w session \<Rightarrow> (react_error + 'a) \<times> 'w session"

definition aret :: "'a \<Rightarrow> ('w, 'a) act" where
  "aret a w = (Inr a, w)"

definition araise :: "react_error \<Rightarrow> ('w, 'a) act" where
  "araise e w = (Inl e, w)"

definition abind :: "('w, 'a) act \<Rightarrow> ('a \<Rightarrow> ('w, 'b) act) \<Rightarrow> ('w, 'b) act" where
  "abind m f w = (case m w of (Inl e, w') \<Rightarrow> (Inl e, w') | (Inr a, w') \<Rightarrow> f a w')"

definition alift :: "react_error + 'a \<Rightarrow> ('w, 'a) act" where
  "alift r w = (r, w)"

definition log_call :: "call \<Rightarrow> ('w, unit) act" where
  "log_call c w = (Inr (), w\<lparr>ss_calls := ss_calls w @ [c]\<rparr>)"

definition call_port :: "('w, 'a) port \<Rightarrow> ('w, 'a) act" where
  "call_port p w = (case p (ss_world w) of (r, x) \<Rightarrow> (r, w\<lparr>ss_world := x\<rparr>))"

definition with_store :: "(truth_store \<Rightarrow> react_error + 'a) \<Rightarrow> ('w, 'a) act" where
  "with_store f w = (f (ss_store w), w)"

definition update_store :: "(truth_store \<Rightarrow> react_error + ('a \<times> truth_store)) \<Rightarrow> ('w, 'a) act" where
  "update_store f w = (case f (ss_store w) of Inl e \<Rightarrow> (Inl e, w) | Inr (a, S) \<Rightarrow> (Inr a, w\<lparr>ss_store := S\<rparr>))"

definition current_plan :: "('w, execution_plan) act" where
  "current_plan w = (Inr (ss_plan w), w)"

definition ensure_budget :: "'w ports \<Rightarrow> ('w, unit) act" where
  "ensure_budget P = (case pt_budget P of None \<Rightarrow> aret () | Some b \<Rightarrow> call_port (bp_ensure b))"

subsection \<open>Truths and completion\<close>

fun all_or_error :: "('a \<Rightarrow> 'e + 'b) \<Rightarrow> 'a list \<Rightarrow> 'e + 'b list" where
  "all_or_error f [] = Inr []"
| "all_or_error f (x # xs) = rbind (f x) (\<lambda>y. rbind (all_or_error f xs) (\<lambda>ys. Inr (y # ys)))"

definition record_matches_truth :: "observation \<Rightarrow> truth \<Rightarrow> react_error + unit" where
  "record_matches_truth o1 t =
     (if ob_ref o1 \<noteq> truth_ref t then Inl (Run_value_error ''observation record truth_ref does not match truth artifact'')
      else if ob_id o1 \<noteq> truth_observation t then Inl (Run_value_error ''observation record id does not match truth artifact'')
      else if ob_action o1 \<noteq> truth_action t then Inl (Run_value_error ''observation record action_id does not match truth artifact'')
      else case t of
        Retrieval_truth r \<Rightarrow> if \<not> set (ob_citations o1) \<subseteq> set (rt_citations r)
          then Inl (Run_value_error ''observation record citation_refs are missing from truth artifact'') else Inr ()
      | Tool_truth _ \<Rightarrow> if ob_citations o1 \<noteq> []
          then Inl (Run_value_error ''tool observation record must not carry citation_refs'') else Inr ())"

text \<open>\<open>_answer_evidence_context\<close>: the bound truths of all observations.\<close>

definition answer_truths :: "react_rules \<Rightarrow> react_state \<Rightarrow> truth_store \<Rightarrow> react_error + truth list" where
  "answer_truths R s S =
     rbind (all_or_error (\<lambda>o1. rbind (load_truth (ob_ref o1) S) (\<lambda>t. rbind (require_bound_truth (ru_truths R) t) (\<lambda>b.
              if tb_ref b \<noteq> ob_ref o1 then Inl (Run_value_error ''truth store loaded a mismatched truth_ref'')
              else Inr (tb_truth b)))) (st_observations s)) (\<lambda>truths.
     rbind (all_or_error (\<lambda>(o1, t). record_matches_truth o1 t) (zip (st_observations s) truths)) (\<lambda>_. Inr truths))"

definition truth_identity :: "react_rules \<Rightarrow> truth \<Rightarrow> react_error + (utext \<times> utext)" where
  "truth_identity R t = rbind (require_bound_truth (ru_truths R) t) (\<lambda>b. Inr (tb_run b, tb_ref b))"

definition optional_queries :: "intent_resolution option \<Rightarrow> utext list" where
  "optional_queries intent = (case intent of None \<Rightarrow> [] | Some i \<Rightarrow> map qi_query (filter (\<lambda>q. \<not> qi_required q) (it_queries i)))"

definition task_completion :: "react_rules \<Rightarrow> react_state \<Rightarrow> truth_store \<Rightarrow> react_error + retrieval_completion option" where
  "task_completion R s S =
     rbind (required_retrievals (ru_text R) (st_intent s)) (\<lambda>requirements.
       if requirements = [] then Inr None
       else rbind (answer_truths R s S) (\<lambda>truths.
         rbind (assess_retrieval_completion (ru_text R) (truth_identity R) (st_run s) requirements (st_observations s) truths
                  (st_question s) (optional_queries (st_intent s))) (\<lambda>c. Inr (Some c))))"

subsection \<open>The actions a state admits\<close>

definition eligible_actions_for_state ::
  "react_state \<Rightarrow> int \<Rightarrow> retrieval_completion option \<Rightarrow> action_type set \<times> string option" where
  "eligible_actions_for_state s max_rounds completion = (case completion of
       Some c \<Rightarrow>
         if completion_complete c
         then if list_ex (\<lambda>o1. list_ex (\<lambda>g. g \<noteq> lit ''tool_approval_denied'') (ob_unresolved o1)) (st_observations s)
              then ({Ask_clarification, Refuse}, Some ''unresolved_subgoals'')
              else ({Ask_clarification, Refuse, Generate_final_answer}, Some ''required_retrieval_complete'')
         else if max_rounds \<le> st_round s then ({Ask_clarification, Refuse}, Some ''plan_budget_exhausted'')
         else if completion_pending c = [] then ({Ask_clarification, Refuse}, Some ''requirements_unsatisfied'')
         else ({Plan_retrieval, Propose_tool_call, Ask_clarification, Refuse}, Some ''required_retrieval_pending'')
     | None \<Rightarrow> compute_eligible_action_set (st_round s) max_rounds (st_history s) (map ob_accepted (st_observations s))
         (st_observations s) [])"

definition prepare_plan_state :: "'w ports \<Rightarrow> react_rules \<Rightarrow> int \<Rightarrow> react_state \<Rightarrow> ('w, react_state) act" where
  "prepare_plan_state P R max_rounds s =
     abind (with_store (task_completion R s)) (\<lambda>completion.
     let eligible = fst (eligible_actions_for_state s max_rounds completion) in
     abind (case pt_scope P of None \<Rightarrow> aret None
            | Some f \<Rightarrow> abind (call_port (f s)) (\<lambda>sc. abind (log_call Called_scope) (\<lambda>_. aret (Some sc)))) (\<lambda>scope.
     let actions = (case scope of None \<Rightarrow> eligible
           | Some sc \<Rightarrow> if sc_interfaces sc = [] then eligible - {Propose_tool_call} else eligible)
     in aret (s\<lparr>st_scope := scope, st_actions := sorted_actions actions, st_bound := None, st_approved := None\<rparr>)))"

subsection \<open>Actions of the compiled workflow\<close>

definition required_context_action :: "utext list \<Rightarrow> string \<Rightarrow> proposal" where
  "required_context_action names stage = \<lparr>ap_id = lit ''act_required_context'', ap_type = Ask_clarification,
     ap_reasoning = \<lparr>rs_goal = lit ''Resolve required Task context.'', rs_observations = [],
       rs_candidates = [Ask_clarification], rs_selected = Ask_clarification,
       rs_rationale = lit ''The frozen goal requires information before execution.'',
       rs_risk_flags = [lit ''missing_required_context''], rs_required = []\<rparr>,
     ap_parameters = [(lit ''missing_fields'', Py_list (map Py_text names)), (lit ''interaction_stage'', Py_text (lit stage))],
     ap_tool = None, ap_risk = lit ''low''\<rparr>"

definition compiled_base :: "react_state \<Rightarrow> string option \<Rightarrow> proposal" where
  "compiled_base s reason =
     (let kind = (if reason \<noteq> None then Refuse else Generate_final_answer) in
      \<lparr>ap_id = lit ''act_compiled_'' @ int_text (st_round s), ap_type = kind,
       ap_reasoning = \<lparr>rs_goal = lit ''Complete the admitted task requirements.'', rs_observations = [],
         rs_candidates = [kind], rs_selected = kind,
         rs_rationale = lit ''The compiled workflow selects the next bounded action.'', rs_risk_flags = [], rs_required = []\<rparr>,
       ap_parameters = (case reason of None \<Rightarrow> [] | Some r \<Rightarrow> [(lit ''refusal_reason'', Py_text (lit r))]),
       ap_tool = None, ap_risk = lit ''low''\<rparr>)"

definition compiled_action ::
  "'w ports \<Rightarrow> react_rules \<Rightarrow> execution_plan \<Rightarrow> react_state \<Rightarrow> truth_store \<Rightarrow> react_error + proposal option" where
  "compiled_action P R plan s S =
     (let missing = (case st_intent s of None \<Rightarrow> [] | Some i \<Rightarrow> it_missing i);
          next_action = map_option it_next (st_intent s) in
      if (pt_execution P \<noteq> None \<or> pt_interaction P \<noteq> None) \<and> (missing \<noteq> [] \<or> next_action = Some Ask_clarification)
      then Inr (Some (required_context_action (if missing = [] then [lit ''required_context''] else missing) ''goal''))
      else if (pt_execution P \<noteq> None \<or> pt_interaction P \<noteq> None) \<and> next_action = Some Refuse
      then Inr (Some (incomplete_refusal (required_context_action [lit ''inadmissible_intent''] ''goal'') ''business_flow_admission_failed''))
      else if xp_blocked plan = None \<and> xp_effective plan \<noteq> Some Lite then Inr None
      else rbind (task_completion R s S) (\<lambda>completion.
        if xp_blocked plan = None \<and> completion = None then Inr None
        else case (xp_blocked plan, completion) of
            (None, Some c) \<Rightarrow> (case completion_pending c of
                [] \<Rightarrow> Inr (Some (compiled_base s None))
              | r # _ \<Rightarrow> Inr (Some (pending_retrieval_action (compiled_base s None) r (st_round s))))
          | _ \<Rightarrow> Inr (Some (compiled_base s (xp_blocked plan)))))"

subsection \<open>Clarifications\<close>

definition nonblank_texts :: "pyval list \<Rightarrow> utext list" where
  "nonblank_texts vs = filter (\<lambda>t. t \<noteq> []) (map (\<lambda>v. case v of Py_text t \<Rightarrow> strip_text t | _ \<Rightarrow> []) vs)"

definition clarification_missing_fields :: "proposal \<Rightarrow> utext list" where
  "clarification_missing_fields a =
     (let fields = nonblank_texts (case dict_get_or (ap_parameters a) ''missing_fields'' (Py_list []) of
            Py_text t \<Rightarrow> [Py_text t] | Py_list vs \<Rightarrow> vs | Py_dict d \<Rightarrow> map (\<lambda>(k, v). Py_text k) d | _ \<Rightarrow> [])
      in if fields = [] then [lit ''required_details''] else fields)"

definition stage_names :: "(string \<times> interaction_stage) list" where
  "stage_names = [(''goal'', Stage_goal), (''plan'', Stage_plan), (''evidence'', Stage_evidence),
     (''tool_input'', Stage_tool_input), (''finalization'', Stage_finalization)]"

definition action_stage :: "proposal \<Rightarrow> interaction_stage" where
  "action_stage a = (case find (\<lambda>(n, st). dict_get (ap_parameters a) ''interaction_stage'' = Py_text (lit n)) stage_names of
       None \<Rightarrow> Stage_plan | Some (n, st) \<Rightarrow> st)"

definition row_reason :: "pydict \<Rightarrow> interaction_reason" where
  "row_reason row = (let kind = dict_get row ''kind'' in
     if kind = Py_text (lit ''preference'') then Preference
     else if kind = Py_text (lit ''retrievable'') then Retrievable
     else if kind = Py_text (lit ''material_ambiguity'') then Material_ambiguity
     else Required_context)"

text \<open>The assessment rows by field, the last row of a field deciding.\<close>

definition assessment_rows :: "proposal \<Rightarrow> react_error + (pyval \<times> pydict) list" where
  "assessment_rows a = (case dict_get (ap_parameters a) ''clarification_assessments'' of
       Py_list vs \<Rightarrow>
         let rows = concat (map (\<lambda>v. case v of Py_dict d \<Rightarrow> [(dict_get d ''field'', d)] | _ \<Rightarrow> []) vs)
         in if list_all (\<lambda>(f, d). py_hashable f) rows then Inr (rev rows) else Inl (Run_value_error ''unhashable type'')
     | _ \<Rightarrow> Inr [])"

definition field_blocks ::
  "'w ports \<Rightarrow> react_rules \<Rightarrow> react_state \<Rightarrow> proposal \<Rightarrow> (pyval \<times> pydict) list \<Rightarrow> bool \<Rightarrow> utext \<Rightarrow> bool" where
  "field_blocks P R s a rows has_required name =
     (let stage = action_stage a;
          deferred = (case st_intent s of None \<Rightarrow> [] | Some i \<Rightarrow> it_deferred i);
          row = (case map_of rows (Py_text name) of None \<Rightarrow> [] | Some d \<Rightarrow> d) in
      if stage \<noteq> Stage_tool_input \<and> ap_tool a = None \<and> map_option it_next (st_intent s) \<noteq> Some Propose_tool_call
         \<and> has_required \<and> tr_irrelevant (ru_text R) (st_question s) name then False
      else if name \<in> set deferred \<and> stage \<noteq> Stage_tool_input then False
      else case pt_interaction P of
          None \<Rightarrow> True
        | Some p \<Rightarrow> decide_interaction p stage (row_reason row) (py_truth (dict_get row ''default_assumption'')) 0 \<noteq> Continue_work)"

definition apply_plan_interaction :: "'w ports \<Rightarrow> react_rules \<Rightarrow> react_state \<Rightarrow> proposal \<Rightarrow> react_error + proposal" where
  "apply_plan_interaction P R s a =
     (if ap_type a \<noteq> Ask_clarification then Inr a
      else rbind (assessment_rows a) (\<lambda>rows.
        rbind (required_retrievals (ru_text R) (st_intent s)) (\<lambda>required.
          let blocking = filter (field_blocks P R s a rows (required \<noteq> [])) (clarification_missing_fields a) in
          if blocking \<noteq> []
          then Inr (a\<lparr>ap_parameters := dict_put fst (lit ''missing_fields'', Py_list (map Py_text blocking)) (ap_parameters a)\<rparr>)
          else Inr (a\<lparr>ap_type := Generate_final_answer, ap_parameters := [],
                 ap_reasoning := (ap_reasoning a)\<lparr>rs_selected := Generate_final_answer\<rparr>\<rparr>))))"

subsection \<open>The next action\<close>

definition pending_query_proposed :: "retrieval_completion \<Rightarrow> proposal \<Rightarrow> bool" where
  "pending_query_proposed c a \<longleftrightarrow>
     list_ex (\<lambda>r. dict_get (ap_parameters a) ''query'' = Py_text (rq_text r)) (completion_pending c)"

definition constrain_next_action ::
  "react_rules \<Rightarrow> int \<Rightarrow> react_state \<Rightarrow> proposal \<Rightarrow> truth_store \<Rightarrow> react_error + proposal" where
  "constrain_next_action R max_rounds s a S =
     rbind (task_completion R s S) (\<lambda>completion.
     let (eligible0, signal) = eligible_actions_for_state s max_rounds completion;
         eligible = (if st_actions s = [] then eligible0 else eligible0 \<inter> set (st_actions s));
         proposed = (case completion of
             Some c \<Rightarrow> (case completion_pending c of
                 [] \<Rightarrow> a
               | r # _ \<Rightarrow> if Plan_retrieval \<in> eligible \<and> (ap_type a = Generate_final_answer
                     \<or> (ap_type a = Plan_retrieval \<and> \<not> pending_query_proposed c a))
                   then pending_retrieval_action a r (st_round s) else a)
           | None \<Rightarrow> a)
     in if completion \<noteq> None \<and> ap_type a \<in> {Refuse, Ask_clarification} then Inr a
        else if completion \<noteq> None
          \<and> signal \<in> {Some ''plan_budget_exhausted'', Some ''requirements_unsatisfied'', Some ''unresolved_subgoals''}
        then Inr (incomplete_refusal proposed (the signal))
        else rbind (constrain_action proposed eligible signal) (\<lambda>c.
          if should_block_duplicate c (st_history s) (st_observations s)
          then Inr (c\<lparr>ap_type := Refuse, ap_parameters := [(lit ''refusal_reason'', Py_text (lit ''observation_no_progress''))]\<rparr>)
          else Inr c))"

definition plan_next_action :: "'w ports \<Rightarrow> react_rules \<Rightarrow> int \<Rightarrow> react_state \<Rightarrow> ('w, react_state \<times> proposal) act" where
  "plan_next_action P R max_rounds s =
     abind (prepare_plan_state P R max_rounds s) (\<lambda>s1.
     abind (ensure_budget P) (\<lambda>_.
     abind current_plan (\<lambda>plan.
     abind (with_store (compiled_action P R plan s1)) (\<lambda>compiled.
     abind (case compiled of Some a \<Rightarrow> aret a
            | None \<Rightarrow> abind (call_port (pt_planner P s1)) (\<lambda>a. abind (log_call Called_planner) (\<lambda>_. aret a))) (\<lambda>a.
     abind (alift (apply_plan_interaction P R s1 a)) (\<lambda>b.
     abind (with_store (constrain_next_action R max_rounds s1 b)) (\<lambda>c. aret (s1, c))))))))"

end
