(* ===== verification/React_Loop.thy ===== *)
theory React_Loop
  imports React_Planning
begin

text \<open>
  The controlled ReAct loop of \<open>controlled_react/orchestrator.py\<close>: one turn of \<open>_run_loop\<close>, the loop itself,
  \<open>start\<close> and \<open>resume\<close>, with the binding of tool parameters of \<open>controlled_react/tool_proposal_binding.py\<close>. The
  fixed messages of refusals and the stage results shown to the user are left out; a result carries
  its outcome, the refusal reason, the answer, the missing fields and the approval pause.
\<close>

subsection \<open>Binding a tool proposal\<close>

definition binding_error :: "string \<Rightarrow> react_error" where
  "binding_error what = Run_error ''PA_TOOL_PROPOSAL_001'' what"

text \<open>The digest of a mapping with text values.\<close>

definition system_parameter_value :: "react_rules \<Rightarrow> react_state \<Rightarrow> proposal \<Rightarrow> tool_interface \<Rightarrow> tool_parameter \<Rightarrow> utext" where
  "system_parameter_value R s a f p =
     (if tp_name p = lit ''idempotency_key'' then st_run s @ lit '':'' @ ap_id a @ lit '':'' @ tf_id f
      else ru_digest R [(lit ''run_id'', Py_text (st_run s)), (lit ''action_id'', Py_text (ap_id a)),
             (lit ''tool_contract_id'', Py_text (tf_id f)), (lit ''parameter'', Py_text (tp_name p))])"

fun bind_parameters ::
  "react_rules \<Rightarrow> react_state \<Rightarrow> proposal \<Rightarrow> tool_interface \<Rightarrow> tool_parameter list \<Rightarrow> pydict \<Rightarrow> pydict
     \<Rightarrow> react_error + (pydict \<times> pydict)" where
  "bind_parameters R s a f [] bound sources = Inr (bound, sources)"
| "bind_parameters R s a f (p # ps) bound sources =
     (let source = (tp_name p, Py_text (lit (parameter_source_name (tp_source p)))) in
      if tp_source p = System_generated
      then bind_parameters R s a f ps (dict_put fst (tp_name p, Py_text (system_parameter_value R s a f p)) bound)
             (dict_put fst source sources)
      else case map_of (ap_parameters a) (tp_name p) of
          None \<Rightarrow> if tp_required p then Inl (binding_error ''tool proposal is missing required parameter.'')
            else bind_parameters R s a f ps bound sources
        | Some v \<Rightarrow> bind_parameters R s a f ps (dict_put fst (tp_name p, v) bound) (dict_put fst source sources))"

definition bind_tool :: "react_rules \<Rightarrow> react_state \<Rightarrow> proposal \<Rightarrow> tool_scope \<Rightarrow> react_error + bound_tool" where
  "bind_tool R s a scope =
     (case find (\<lambda>f. Some (tf_id f) = ap_tool a) (sc_interfaces scope) of
        None \<Rightarrow> Inl (binding_error ''tool proposal target is outside Effective Tool Proposal Scope.'')
      | Some f \<Rightarrow>
          if list_ex (\<lambda>p. tp_source p = System_generated \<and> map_of (ap_parameters a) (tp_name p) \<noteq> None) (tf_parameters f)
          then Inl (binding_error ''tool proposal includes planner-supplied system-generated parameter.'')
          else rbind (bind_parameters R s a f (tf_parameters f) [] []) (\<lambda>(bound, sources).
            if \<not> fst ` set (ap_parameters a) \<subseteq> tp_name ` set (tf_parameters f)
            then Inl (binding_error ''tool proposal includes unsupported parameter.'')
            else Inr \<lparr>bt_action = ap_id a, bt_tool = tf_id f, bt_parameters = bound, bt_sources = sources,
                   bt_digest = ru_digest R bound, bt_scope_digest = Some (sc_digest scope)\<rparr>))"

definition bind_tool_proposal :: "react_rules \<Rightarrow> react_state \<Rightarrow> proposal \<Rightarrow> react_error + (react_state \<times> proposal)" where
  "bind_tool_proposal R s a = (case st_scope s of
       None \<Rightarrow> Inr (s, a)
     | Some scope \<Rightarrow> rbind (bind_tool R s a scope) (\<lambda>b.
         Inr (s\<lparr>st_bound := Some b\<rparr>, a\<lparr>ap_parameters := bt_parameters b\<rparr>)))"

definition tool_scope_violation :: "react_state \<Rightarrow> proposal \<Rightarrow> bool" where
  "tool_scope_violation s a = (case st_scope s of
       None \<Rightarrow> False | Some sc \<Rightarrow> ap_tool a \<notin> Some ` tf_id ` set (sc_interfaces sc))"

text \<open>Names of the parameters that only the user can supply and has not.\<close>

definition tool_user_context :: "react_state \<Rightarrow> proposal \<Rightarrow> utext list" where
  "tool_user_context s a = (case st_scope s of
       None \<Rightarrow> []
     | Some sc \<Rightarrow> (case find (\<lambda>f. Some (tf_id f) = ap_tool a) (sc_interfaces sc) of
         None \<Rightarrow> []
       | Some f \<Rightarrow> map (\<lambda>p. lit ''tool:'' @ tf_id f @ lit '':'' @ tp_name p)
           (filter (\<lambda>p. tp_source p = User_supplied \<and> map_of (ap_parameters a) (tp_name p) = None \<and> tp_required p
               \<and> tp_type p \<in> {lit ''string'', lit ''integer'', lit ''number'', lit ''boolean''}) (tf_parameters f))))"

subsection \<open>Results\<close>

definition plain_result :: "receipt_outcome \<Rightarrow> utext option \<Rightarrow> react_result" where
  "plain_result oc reason = \<lparr>rr_outcome = oc, rr_reason = reason, rr_answer = None, rr_missing = [], rr_approval = None\<rparr>"

definition memory_policy :: "'w ports \<Rightarrow> react_state \<Rightarrow> pydict \<Rightarrow> ('w, decision_type option) act" where
  "memory_policy P s candidate = (case pt_policy P of
       None \<Rightarrow> aret None
     | Some p \<Rightarrow> (case pp_memory p of
         None \<Rightarrow> aret None
       | Some f \<Rightarrow> abind (call_port (f s candidate)) (\<lambda>d. abind (log_call (Called_memory_policy candidate d)) (\<lambda>_. aret (Some d)))))"

definition write_memory :: "'w ports \<Rightarrow> react_state \<Rightarrow> answer \<Rightarrow> ('w, unit) act" where
  "write_memory P s ans =
     abind current_plan (\<lambda>plan.
     case pt_memory P of
       None \<Rightarrow> aret ()
     | Some m \<Rightarrow>
         if xp_effective plan = Some Lite then aret ()
         else abind (call_port (mp_prepare m s ans)) (\<lambda>candidate. case candidate of
             None \<Rightarrow> aret ()
           | Some c \<Rightarrow> abind (memory_policy P s c) (\<lambda>d.
               if d \<noteq> None \<and> d \<noteq> Some Allow then aret ()
               else abind (ensure_budget P) (\<lambda>_. abind (log_call (Called_memory_commit c)) (\<lambda>_.
                      abind (call_port (mp_commit m c)) (\<lambda>_. aret ()))))))"

definition refusal_answer :: answer where
  "refusal_answer = \<lparr>an_outcome = Refused_no_evidence, an_message = [], an_recovery = []\<rparr>"

text \<open>\<open>_refuse_plan_budget_exhausted\<close>, which every refusal of the loop goes through.\<close>

definition refuse_result :: "'w ports \<Rightarrow> react_rules \<Rightarrow> react_state \<Rightarrow> proposal \<Rightarrow> ('w, react_result) act" where
  "refuse_result P R s a =
     abind (with_store (task_completion R s)) (\<lambda>completion.
     abind (write_memory P s refusal_answer) (\<lambda>_.
       let given = (case dict_get (ap_parameters a) ''refusal_reason'' of Py_text t \<Rightarrow> Some t | _ \<Rightarrow> None);
           reason = (if given \<in> Some ` lit ` {''business_flow_admission_failed'', ''policy_denied'', ''complexity_ceiling_exceeded'', ''unresolved_subgoals''}
             then given
             else if completion \<noteq> None
               \<and> given \<notin> Some ` lit ` {''requirements_unsatisfied'', ''plan_budget_exhausted'', ''observation_no_progress''}
             then Some (lit ''planner_refused'') else given)
       in aret (plain_result Refused_no_evidence reason)))"

definition ask_clarification :: "'w ports \<Rightarrow> proposal \<Rightarrow> ('w, react_result) act" where
  "ask_clarification P a =
     (let missing = clarification_missing_fields a in
      case pt_interaction P of
        None \<Rightarrow> aret (plain_result Waiting_for_user_clarification None\<lparr>rr_missing := missing\<rparr>)
      | Some p \<Rightarrow>
          let missing' = take (nat (ip_questions p)) missing in
          if decide_interaction p (action_stage a) Required_context False 0 \<noteq> Ask_user
          then aret (plain_result Refused_no_evidence None\<lparr>rr_missing := missing'\<rparr>)
          else aret (plain_result Waiting_for_user_clarification None\<lparr>rr_missing := missing'\<rparr>))"

subsection \<open>Observing\<close>

definition task_failure :: react_error where
  "task_failure = Run_error ''PA_RUNTIME_001'' ''Tool task result or dependency verification failed.''"

definition observing_state :: "react_state \<Rightarrow> proposal list \<Rightarrow> react_state" where
  "observing_state s as = s\<lparr>st_phase := Observing, st_round := st_round s + 1, st_history := st_history s @ as\<rparr>"

definition observe_through ::
  "react_rules \<Rightarrow> 'w observation_port \<Rightarrow> call \<Rightarrow> react_state \<Rightarrow> proposal \<Rightarrow> ('w, react_state) act" where
  "observe_through R f c s a =
     (let i = allocate_identity s a in
      abind (log_call c) (\<lambda>_. abind (call_port (f s a i)) (\<lambda>e. update_store (commit_effect (ru_truths R) s a e i))))"

definition observe_knowledge :: "'w ports \<Rightarrow> react_rules \<Rightarrow> react_state \<Rightarrow> proposal \<Rightarrow> ('w, react_state) act" where
  "observe_knowledge P R s a = (case pt_knowledge P of
       None \<Rightarrow> araise (Run_value_error ''knowledge observation port is required for retrieval actions'')
     | Some f \<Rightarrow> observe_through R f (Called_knowledge a) (observing_state s [a]) a)"

definition tool_observations :: "react_state \<Rightarrow> int" where
  "tool_observations s = len (filter (\<lambda>o1. ob_type o1 = Propose_tool_call) (st_observations s))"

definition observe_tool :: "'w ports \<Rightarrow> react_rules \<Rightarrow> react_state \<Rightarrow> proposal \<Rightarrow> ('w, react_state) act" where
  "observe_tool P R s a = (case pt_tool P of
       None \<Rightarrow> araise (Run_value_error ''tool observation port is required for allowed tool actions'')
     | Some f \<Rightarrow>
         if st_max_tool_calls s \<le> tool_observations s then araise task_failure
         else abind (with_store (answer_truths R s)) (\<lambda>_.
           observe_through R f (Called_tool a) (observing_state s [a]) a))"

subsection \<open>The approval pause\<close>

definition bind_snapshot :: "react_rules \<Rightarrow> run_snapshot \<Rightarrow> react_error + utext" where
  "bind_snapshot R sn =
     (if \<not> safe_identifier (sn_run sn) then Inl (artifact_error ''invalid controlled ReAct artifact run id'')
      else if \<not> safe_identifier (sn_id sn) then Inl (artifact_error ''invalid controlled ReAct artifact snapshot id'')
      else if st_run (sn_state sn) \<noteq> sn_run sn then Inl (artifact_error ''controlled ReAct snapshot identity or digest does not match'')
      else Inr (lit ''controlled-react://'' @ sn_run sn @ lit ''/'' @ sn_id sn @ lit ''/sha256/'' @ ru_snapshot_digest R sn))"

definition verify_snapshot :: "react_rules \<Rightarrow> run_snapshot \<Rightarrow> utext \<Rightarrow> react_error + unit" where
  "verify_snapshot R sn ref =
     rbind (bind_snapshot R sn) (\<lambda>r. if r \<noteq> ref
       then Inl (artifact_error ''controlled ReAct snapshot identity or digest does not match'') else Inr ())"

definition approved_tool_snapshot :: "react_state \<Rightarrow> proposal \<Rightarrow> approved_tool option" where
  "approved_tool_snapshot s a = map_option (\<lambda>b. \<lparr>at_snapshot = lit ''approved_'' @ ap_id a, at_action_id = ap_id a,
     at_tool = bt_tool b, at_parameters = bt_parameters b, at_parameter_digest = bt_digest b,
     at_scope_digest = bt_scope_digest b, at_decision = Require_approval, at_risk = ap_risk a\<rparr>) (st_bound s)"

definition pause_for_approval :: "'w ports \<Rightarrow> react_rules \<Rightarrow> react_state \<Rightarrow> proposal \<Rightarrow> ('w, react_result) act" where
  "pause_for_approval P R s a = (case pt_snapshots P of
       None \<Rightarrow> araise (Run_value_error ''snapshot store port is required for approval pause'')
     | Some store \<Rightarrow>
         let waiting = s\<lparr>st_phase := Waiting_phase, st_history := st_history s @ [a], st_approved := approved_tool_snapshot s a\<rparr>;
             sn = \<lparr>sn_id = lit ''snap_'' @ int_text (st_round s) @ lit ''_'' @ ru_pause_digest R (st_round s) (ap_id a),
                sn_run = st_run s, sn_state = waiting\<rparr>
         in abind (alift (bind_snapshot R sn)) (\<lambda>expected.
            abind (log_call Called_snapshot_save) (\<lambda>_.
            abind (call_port (sp_save store sn)) (\<lambda>ref.
              if ref \<noteq> expected then araise (Run_value_error ''snapshot store returned a mismatched snapshot_ref'')
              else abind (call_port (sp_load store ref)) (\<lambda>stored.
                abind (alift (verify_snapshot R stored ref)) (\<lambda>_.
                  if ru_snapshot_canonical R stored \<noteq> ru_snapshot_canonical R sn
                  then araise (Run_value_error ''snapshot store loaded a mismatched snapshot payload'')
                  else aret (plain_result Waiting_for_approval None\<lparr>rr_approval := Some \<lparr>ps_approval = lit ''appr_'' @ ap_id a,
                         ps_action = ap_id a, ps_tool = (case ap_tool a of None \<Rightarrow> lit ''unknown_tool'' | Some t \<Rightarrow> if t = [] then lit ''unknown_tool'' else t),
                         ps_checkpoint = ref\<rparr>\<rparr>)))))))"

subsection \<open>Answering\<close>

definition denied_tools :: "react_state \<Rightarrow> utext list" where
  "denied_tools s = concat (map (\<lambda>o1. if lit ''tool_approval_denied'' \<notin> set (ob_unresolved o1) then []
     else case find (\<lambda>r. prefix (lit ''tool://'') r) (ob_sources o1) of None \<Rightarrow> [] | Some r \<Rightarrow> [drop 7 r]) (st_observations s))"

definition answer_blocked_by_denied_tool :: "react_state \<Rightarrow> bool" where
  "answer_blocked_by_denied_tool s \<longleftrightarrow> denied_tools s \<noteq> [] \<and> list_all (\<lambda>o1. ob_accepted o1 \<le> 0) (st_observations s)"

definition accepted_evidence :: "truth list \<Rightarrow> evidence_chunk list" where
  "accepted_evidence truths = concat (map (\<lambda>t. case t of Retrieval_truth r \<Rightarrow> rt_accepted r | Tool_truth _ \<Rightarrow> []) truths)"

definition synthesize :: "'w ports \<Rightarrow> react_state \<Rightarrow> proposal \<Rightarrow> truth list \<Rightarrow> ('w, answer) act" where
  "synthesize P s a truths =
     abind (case pt_assurance P of None \<Rightarrow> aret True
            | Some pol \<Rightarrow> call_port (pt_assurance_check P pol (accepted_evidence truths) None)) (\<lambda>passed.
       if \<not> passed then aret refusal_answer
       else abind (log_call (Called_synthesis a)) (\<lambda>_. call_port (pt_synthesis P s a truths)))"

definition admit_final_answer :: "'w ports \<Rightarrow> react_state \<Rightarrow> proposal \<Rightarrow> truth list \<Rightarrow> answer \<Rightarrow> ('w, answer) act" where
  "admit_final_answer P s a truths ans =
     (if an_outcome ans \<noteq> Answered_with_citations then aret ans
      else abind (ensure_budget P) (\<lambda>_.
        abind (case pt_assurance P of None \<Rightarrow> aret True
               | Some pol \<Rightarrow> call_port (pt_assurance_check P pol (accepted_evidence truths) (Some ans))) (\<lambda>passed.
          if \<not> passed then aret refusal_answer
          else case pt_policy P of
              None \<Rightarrow> aret ans
            | Some p \<Rightarrow> (case pp_answer p of
                None \<Rightarrow> aret ans
              | Some f \<Rightarrow> abind (call_port (f s a ans)) (\<lambda>d. abind (log_call (Called_answer_policy a d)) (\<lambda>_.
                  if d = Allow then aret ans
                  else aret \<lparr>an_outcome = Policy_denied, an_message = lit ''The final answer was blocked by policy.'', an_recovery = []\<rparr>))))))"

definition recovery_prefix :: utext where
  "recovery_prefix = [32, 34917, 20805, 21407, 25991, 20381, 25454, 65306]"

definition recovery_exhausted :: utext where
  "recovery_exhausted = [37096, 20998, 38382, 39064, 20173, 32570, 23569, 21487, 39564, 35777, 20381, 25454, 65292, 24050, 20572, 27490,
     37325, 22797, 34917, 26597, 65307, 26412, 27425, 20219, 21153, 26410, 23436, 25104, 12290]"

text \<open>The first recovery query that was not attempted, when all recovery ids are known.\<close>

definition recovery_queries :: "react_rules \<Rightarrow> react_state \<Rightarrow> answer \<Rightarrow> required_retrieval list" where
  "recovery_queries R s ans =
     (let requirements = ru_requirements R (st_question s);
          attempted = concat (map (\<lambda>h. if ap_type h \<noteq> Plan_retrieval then []
            else case dict_get_or (ap_parameters h) ''query'' (Py_text []) of Py_text q \<Rightarrow> [q] | _ \<Rightarrow> []) (st_history s));
          queries = concat (map (\<lambda>i. case map_of (rev requirements) i of None \<Rightarrow> []
            | Some text \<Rightarrow> [\<lparr>rq_id = i, rq_text = take 1024 (st_question s) @ recovery_prefix @ take 512 text\<rparr>]) (an_recovery ans))
      in if length queries = length (an_recovery ans) then filter (\<lambda>q. rq_text q \<notin> set attempted) queries else [])"

definition wants_recovery :: "answer \<Rightarrow> bool" where
  "wants_recovery ans \<longleftrightarrow> an_recovery ans \<noteq> [] \<and> an_outcome ans \<in> {Failed_with_trace, Answered_with_citations}"

definition without_recovery :: "answer \<Rightarrow> answer" where
  "without_recovery ans = ans\<lparr>an_recovery := [],
     an_message := (if an_outcome ans = Answered_with_citations then an_message ans else recovery_exhausted)\<rparr>"

subsection \<open>One turn of the loop\<close>

datatype loop_step = Return react_result | Continue_with react_state proposal

definition answer_turn :: "'w ports \<Rightarrow> react_rules \<Rightarrow> int \<Rightarrow> react_state \<Rightarrow> proposal \<Rightarrow> ('w, loop_step) act" where
  "answer_turn P R max_rounds s a =
     (if answer_blocked_by_denied_tool s then aret (Return (plain_result Tool_approval_denied None))
      else abind (with_store (answer_truths R s)) (\<lambda>truths.
        abind (with_store (task_completion R s)) (\<lambda>completion.
          if completion \<noteq> None \<and> \<not> completion_complete (the completion)
          then abind (refuse_result P R s (incomplete_refusal a ''requirements_unsatisfied'')) (\<lambda>r. aret (Return r))
          else abind (synthesize P s a truths) (\<lambda>ans.
            if wants_recovery ans \<and> recovery_queries R s ans \<noteq> [] \<and> st_round s < max_rounds
            then aret (Continue_with s (pending_retrieval_action a (hd (recovery_queries R s ans)) (st_round s)))
            else abind (admit_final_answer P s a truths (if wants_recovery ans then without_recovery ans else ans)) (\<lambda>final.
              abind (write_memory P s final) (\<lambda>_.
                aret (Return (plain_result (an_outcome final) None\<lparr>rr_answer := Some final\<rparr>))))))))"

definition review_denies :: "'w ports \<Rightarrow> react_state \<Rightarrow> proposal \<Rightarrow> ('w, bool) act" where
  "review_denies P s a = (case pt_review P of
       None \<Rightarrow> aret False
     | Some f \<Rightarrow> abind (call_port (f s a)) (\<lambda>d. abind (log_call (Called_review a d)) (\<lambda>_. aret (d = Deny))))"

definition continue_planning :: "'w ports \<Rightarrow> react_rules \<Rightarrow> int \<Rightarrow> react_state \<Rightarrow> ('w, loop_step) act" where
  "continue_planning P R max_rounds s = abind (plan_next_action P R max_rounds s) (\<lambda>(s', a). aret (Continue_with s' a))"

definition retrieval_turn :: "'w ports \<Rightarrow> react_rules \<Rightarrow> int \<Rightarrow> react_state \<Rightarrow> proposal \<Rightarrow> ('w, loop_step) act" where
  "retrieval_turn P R max_rounds s a =
     abind (review_denies P s a) (\<lambda>denied.
       if denied then abind (with_store (task_completion R s)) (\<lambda>_. aret (Return (plain_result Refused_no_evidence (Some (lit ''review_denied'')))))
       else abind (observe_knowledge P R s a) (continue_planning P R max_rounds))"

definition tool_policy :: "'w ports \<Rightarrow> react_state \<Rightarrow> proposal \<Rightarrow> ('w, decision_type) act" where
  "tool_policy P s a = (case pt_policy P of
       None \<Rightarrow> aret Require_approval
     | Some p \<Rightarrow> abind (call_port (pp_tool p s a)) (\<lambda>d. abind (log_call (Called_policy a d)) (\<lambda>_. aret d)))"

definition tool_turn :: "'w ports \<Rightarrow> react_rules \<Rightarrow> int \<Rightarrow> react_state \<Rightarrow> proposal \<Rightarrow> ('w, loop_step) act" where
  "tool_turn P R max_rounds s a =
     (let missing = (if pt_interaction P = None then [] else tool_user_context s a) in
      if tool_scope_violation s a
      then abind (with_store (task_completion R s)) (\<lambda>_. aret (Return (plain_result Refused_no_evidence (Some (lit ''tool_scope_denied'')))))
      else if missing \<noteq> []
      then abind (ask_clarification P (required_context_action missing ''tool_input'')) (\<lambda>r. aret (Return r))
      else abind (alift (bind_tool_proposal R s a)) (\<lambda>(s1, b).
        abind (tool_policy P s1 b) (\<lambda>d.
          if d = Deny
          then abind (with_store (task_completion R s1)) (\<lambda>_. aret (Return (plain_result Tool_approval_denied (Some (lit ''policy_denied'')))))
          else if d = Allow then abind (observe_tool P R s1 b) (continue_planning P R max_rounds)
          else abind (pause_for_approval P R s1 b) (\<lambda>r. aret (Return r)))))"

definition loop_turn :: "'w ports \<Rightarrow> react_rules \<Rightarrow> int \<Rightarrow> react_state \<Rightarrow> proposal \<Rightarrow> ('w, loop_step) act" where
  "loop_turn P R max_rounds s a =
     (case ap_type a of
        Refuse \<Rightarrow> abind (refuse_result P R s a) (\<lambda>r. aret (Return r))
      | Ask_clarification \<Rightarrow> abind (ask_clarification P a) (\<lambda>r.
          abind (with_store (task_completion R s)) (\<lambda>_. aret (Return r)))
      | Generate_final_answer \<Rightarrow> answer_turn P R max_rounds s a
      | Plan_retrieval \<Rightarrow> retrieval_turn P R max_rounds s a
      | Propose_tool_call \<Rightarrow> tool_turn P R max_rounds s a
      | _ \<Rightarrow> araise (Run_value_error ''unsupported start action''))"

end
