(* ===== verification/React_Discipline.thy ===== *)
theory React_Discipline
  imports React_Loop
begin

text \<open>
  Rules for the effects of the loop, and the discipline of its calls: what each turn adds to the log,
  and how far it brings the plan rounds.
\<close>

subsection \<open>Rules for effects\<close>

text \<open>
  \<open>emits m Q\<close>: every execution of \<open>m\<close> appends calls to the log that are related to its result by \<open>Q\<close>.
\<close>

definition emits :: "('w, 'a) act \<Rightarrow> (react_error + 'a \<Rightarrow> call list \<Rightarrow> bool) \<Rightarrow> bool" where
  "emits m Q \<longleftrightarrow> (\<forall>w r w'. m w = (r, w') \<longrightarrow> (\<exists>cs. ss_calls w' = ss_calls w @ cs \<and> Q r cs))"

lemma emitsI: "(\<And>w r w'. m w = (r, w') \<Longrightarrow> \<exists>cs. ss_calls w' = ss_calls w @ cs \<and> Q r cs) \<Longrightarrow> emits m Q"
  by (simp add: emits_def)

lemma emitsD: "emits m Q \<Longrightarrow> m w = (r, w') \<Longrightarrow> \<exists>cs. ss_calls w' = ss_calls w @ cs \<and> Q r cs"
  by (simp add: emits_def)

lemma emits_weaken: "emits m Q \<Longrightarrow> (\<And>r cs. Q r cs \<Longrightarrow> Q' r cs) \<Longrightarrow> emits m Q'"
  unfolding emits_def by blast

lemma emits_bind:
  assumes "emits m A" and "\<And>a cs. A (Inr a) cs \<Longrightarrow> emits (f a) (B a)"
    and "\<And>e cs. A (Inl e) cs \<Longrightarrow> Q (Inl e) cs" and "\<And>a cs r ds. A (Inr a) cs \<Longrightarrow> B a r ds \<Longrightarrow> Q r (cs @ ds)"
  shows "emits (abind m f) Q"
proof (rule emitsI)
  fix w r w'
  assume run: "abind m f w = (r, w')"
  obtain x w1 where m: "m w = (x, w1)" by fastforce
  from emitsD [OF assms(1) m] obtain cs where cs: "ss_calls w1 = ss_calls w @ cs" "A x cs" by blast
  show "\<exists>cs. ss_calls w' = ss_calls w @ cs \<and> Q r cs"
  proof (cases x)
    case (Inl e)
    with run m cs assms(3) show ?thesis by (auto simp: abind_def)
  next
    case (Inr a)
    with run m have "f a w1 = (r, w')" by (simp add: abind_def)
    from emitsD [OF assms(2) [OF cs(2) [unfolded Inr]] this] obtain ds where "ss_calls w' = ss_calls w1 @ ds" "B a r ds" by blast
    with cs Inr assms(4) show ?thesis by auto
  qed
qed

lemma emits_ret: "Q (Inr a) [] \<Longrightarrow> emits (aret a) Q"
  by (simp add: emits_def aret_def)

lemma emits_raise: "Q (Inl e) [] \<Longrightarrow> emits (araise e) Q"
  by (simp add: emits_def araise_def)

lemma emits_lift: "Q r [] \<Longrightarrow> emits (alift r) Q"
  by (simp add: emits_def alift_def)

lemma emits_log: "Q (Inr ()) [c] \<Longrightarrow> emits (log_call c) Q"
  by (simp add: emits_def log_call_def)

lemma emits_port: "(\<And>r. Q r []) \<Longrightarrow> emits (call_port p) Q"
  by (auto simp: emits_def call_port_def split: prod.splits)

lemma emits_store: "(\<And>S. Q (f S) []) \<Longrightarrow> emits (with_store f) Q"
  by (simp add: emits_def with_store_def)

lemma emits_update: "(\<And>S. Q (map_sum id fst (g S)) []) \<Longrightarrow> emits (update_store g) Q"
proof (rule emitsI)
  fix w r w'
  assume Q: "\<And>S. Q (map_sum id fst (g S)) []" and run: "update_store g w = (r, w')"
  from run have "r = map_sum id fst (g (ss_store w))" "ss_calls w' = ss_calls w"
    by (auto simp: update_store_def split: sum.splits prod.splits)
  with Q [of "ss_store w"] show "\<exists>cs. ss_calls w' = ss_calls w @ cs \<and> Q r cs" by simp
qed

lemma emits_plan: "(\<And>x. Q (Inr x) []) \<Longrightarrow> emits current_plan Q"
  by (simp add: emits_def current_plan_def)

text \<open>A property of the calls alone that sequences keep.\<close>

definition segments :: "(call list \<Rightarrow> bool) \<Rightarrow> bool" where
  "segments I \<longleftrightarrow> I [] \<and> (\<forall>xs ys. I xs \<longrightarrow> I ys \<longrightarrow> I (xs @ ys))"

lemma segments_bind:
  assumes "segments I" and "emits m (\<lambda>_. I)" and "\<And>a. emits (f a) (\<lambda>_. I)"
  shows "emits (abind m f) (\<lambda>_. I)"
  by (rule emits_bind [OF assms(2), where B = "\<lambda>_ _. I"]) (use assms(1,3) in \<open>auto simp: segments_def\<close>)

lemma segments_bind_result:
  assumes "segments I" and "emits m (\<lambda>_. I)" and "\<And>a. emits (f a) (\<lambda>r cs. I cs \<and> (\<forall>x. r = Inr x \<longrightarrow> Q x))"
  shows "emits (abind m f) (\<lambda>r cs. I cs \<and> (\<forall>x. r = Inr x \<longrightarrow> Q x))"
  by (rule emits_bind [OF assms(2), where B = "\<lambda>_ r cs. I cs \<and> (\<forall>x. r = Inr x \<longrightarrow> Q x)"])
    (use assms(1,3) in \<open>auto simp: segments_def\<close>)

lemma emits_quiet:
  assumes "I []"
  shows "emits (aret a) (\<lambda>_. I)" "emits (araise e) (\<lambda>_. I)" "emits (alift r) (\<lambda>_. I)" "emits (call_port p) (\<lambda>_. I)"
    "emits (with_store f) (\<lambda>_. I)" "emits (update_store g) (\<lambda>_. I)" "emits current_plan (\<lambda>_. I)"
  using assms by (auto intro: emits_ret emits_raise emits_lift emits_port emits_store emits_update emits_plan)

subsection \<open>The discipline of the calls\<close>

text \<open>
  A tool is called right after the policy allowed this very proposal, a retrieval right after the
  review of it did not deny it (where there is a reviewer), and memory is written right after the
  policy allowed this very write (where the policy judges memory). \<open>prev\<close> is the call before.
\<close>

fun gated :: "bool \<Rightarrow> bool \<Rightarrow> call option \<Rightarrow> call list \<Rightarrow> bool" where
  "gated rv mp prev [] = True"
| "gated rv mp prev (c # cs) = ((case c of
       Called_tool a \<Rightarrow> prev = Some (Called_policy a Allow)
     | Called_knowledge a \<Rightarrow> (if rv then \<exists>d. d \<noteq> Deny \<and> prev = Some (Called_review a d) else True)
     | Called_memory_commit m \<Rightarrow> (if mp then prev = Some (Called_memory_policy m Allow) else True)
     | _ \<Rightarrow> True) \<and> gated rv mp (Some c) cs)"

definition is_observation :: "call \<Rightarrow> bool" where
  "is_observation c \<longleftrightarrow> (case c of Called_tool _ \<Rightarrow> True | Called_knowledge _ \<Rightarrow> True | _ \<Rightarrow> False)"

definition observing :: "call list \<Rightarrow> int" where
  "observing cs = len (filter is_observation cs)"

lemma observing_simps [simp]:
  "observing [] = 0" "observing (c # cs) = observing cs + (if is_observation c then 1 else 0)"
  "observing (cs @ ds) = observing cs + observing ds" "0 \<le> observing cs"
  by (simp_all add: observing_def)

lemma gated_append: "gated rv mp prev (cs @ ds) \<longleftrightarrow> gated rv mp prev cs \<and> gated rv mp (if cs = [] then prev else Some (last cs)) ds"
  by (induction cs arbitrary: prev) auto

text \<open>Calls that keep the discipline whatever came before, without observations.\<close>

definition orderly :: "bool \<Rightarrow> bool \<Rightarrow> call list \<Rightarrow> bool" where
  "orderly rv mp cs \<longleftrightarrow> (\<forall>prev. gated rv mp prev cs)"

definition calm :: "bool \<Rightarrow> bool \<Rightarrow> call list \<Rightarrow> bool" where
  "calm rv mp cs \<longleftrightarrow> orderly rv mp cs \<and> observing cs = 0"

lemma orderly_append: "orderly rv mp cs \<Longrightarrow> orderly rv mp ds \<Longrightarrow> orderly rv mp (cs @ ds)"
  by (simp add: orderly_def gated_append)

lemma orderly_segments: "segments (orderly rv mp)" and calm_segments: "segments (calm rv mp)"
  by (auto simp: segments_def calm_def orderly_append) (simp_all add: orderly_def)

lemma calm_Nil [simp]: "calm rv mp []"
  using calm_segments by (simp add: segments_def)

lemma calm_single:
  "\<not> is_observation c \<Longrightarrow> (\<And>m. c \<noteq> Called_memory_commit m) \<Longrightarrow> calm rv mp [c]"
  by (cases c) (auto simp: calm_def orderly_def is_observation_def)

lemma calm_log: "\<not> is_observation c \<Longrightarrow> (\<And>m. c \<noteq> Called_memory_commit m) \<Longrightarrow> emits (log_call c) (\<lambda>_. calm rv mp)"
  by (rule emits_log) (rule calm_single)

lemmas calm_bind = segments_bind [OF calm_segments]
lemmas calm_bind_result = segments_bind_result [OF calm_segments]
lemmas calm_intros = emits_quiet [of "calm rv mp" for rv mp, OF calm_Nil]

lemma calm_option: "(x = None \<Longrightarrow> emits m Q) \<Longrightarrow> (\<And>a. x = Some a \<Longrightarrow> emits (f a) Q) \<Longrightarrow> emits (case x of None \<Rightarrow> m | Some a \<Rightarrow> f a) Q"
  by (cases x) simp_all

lemma calm_if: "(b \<Longrightarrow> emits m Q) \<Longrightarrow> (\<not> b \<Longrightarrow> emits n Q) \<Longrightarrow> emits (if b then m else n) Q"
  by simp

lemma calm_pair: "(\<And>a b. emits (f a b) Q) \<Longrightarrow> emits (case p of (a, b) \<Rightarrow> f a b) Q"
  by (cases p) simp

lemma ensure_budget_calm: "emits (ensure_budget P) (\<lambda>_. calm rv mp)"
  unfolding ensure_budget_def by (intro calm_option calm_intros)

text \<open>A port that judges, and the log entry of its verdict.\<close>

lemma judged_call:
  assumes "\<And>d. \<not> is_observation (c d)" and "\<And>d m. c d \<noteq> Called_memory_commit m"
    and "\<And>e. Q (Inl e) []" and "\<And>d. calm rv mp [c d] \<Longrightarrow> Q (Inr (g d)) [c d]"
  shows "emits (abind (call_port p) (\<lambda>d. abind (log_call (c d)) (\<lambda>_. aret (g d)))) Q"
proof (rule emits_bind [where A = "\<lambda>_ cs. cs = []" and B = "\<lambda>d r cs. cs = [c d] \<and> r = Inr (g d)"], goal_cases)
  case (2 d cs)
  show ?case
    by (rule emits_bind [where A = "\<lambda>r cs. cs = [c d] \<and> r = Inr ()" and B = "\<lambda>_ r cs. cs = [] \<and> r = Inr (g d)"])
      (auto intro: emits_log emits_ret)
next
  case (4 d cs r ds)
  then show ?case using assms(4) [of d] calm_single [of "c d" rv mp] assms(1,2) by simp
qed (use assms(3) in \<open>auto intro: emits_port\<close>)

subsection \<open>Memory\<close>

definition reviewed :: "'w ports \<Rightarrow> bool" where
  "reviewed P \<longleftrightarrow> pt_review P \<noteq> None"

definition memory_judged :: "'w ports \<Rightarrow> bool" where
  "memory_judged P \<longleftrightarrow> (case pt_policy P of None \<Rightarrow> False | Some p \<Rightarrow> pp_memory p \<noteq> None)"

lemma memory_policy_emits:
  "emits (memory_policy P s c) (\<lambda>r cs. calm (reviewed P) (memory_judged P) cs
     \<and> (\<forall>d. r = Inr d \<longrightarrow> (if memory_judged P then \<exists>x. d = Some x \<and> cs = [Called_memory_policy c x] else d = None \<and> cs = [])))"
proof (cases "pt_policy P")
  case None
  then show ?thesis by (simp add: memory_policy_def memory_judged_def emits_ret)
next
  case (Some p)
  show ?thesis
  proof (cases "pp_memory p")
    case None
    with Some show ?thesis by (simp add: memory_policy_def memory_judged_def emits_ret)
  next
    case (Some f)
    then have j: "memory_judged P" using \<open>pt_policy P = Some p\<close> by (simp add: memory_judged_def)
    have "emits (abind (call_port (f s c)) (\<lambda>d. abind (log_call (Called_memory_policy c d)) (\<lambda>_. aret (Some d))))
      (\<lambda>r cs. calm (reviewed P) (memory_judged P) cs \<and> (\<forall>d. r = Inr d \<longrightarrow> (\<exists>x. d = Some x \<and> cs = [Called_memory_policy c x])))"
      by (rule judged_call [where c = "Called_memory_policy c" and g = Some]) (auto simp: is_observation_def)
    then show ?thesis using Some j \<open>pt_policy P = Some p\<close> by (simp add: memory_policy_def)
  qed
qed

lemma write_memory_calm: "emits (write_memory P s ans) (\<lambda>_. calm (reviewed P) (memory_judged P))"
proof -
  have commit: "emits (abind (memory_policy P s c) (\<lambda>d. if d \<noteq> None \<and> d \<noteq> Some Allow then aret ()
      else abind (ensure_budget P) (\<lambda>_. abind (log_call (Called_memory_commit c)) (\<lambda>_. abind (call_port (mp_commit m c)) (\<lambda>_. aret ())))))
    (\<lambda>_. calm (reviewed P) (memory_judged P))" for m :: "'a memory_port" and c
  proof (rule emits_bind [OF memory_policy_emits, where B = "\<lambda>d r cs. if d \<noteq> None \<and> d \<noteq> Some Allow then cs = [] else cs = [] \<or> cs = [Called_memory_commit c]"])
    fix d :: "decision_type option" and cs
    have e: "emits (ensure_budget P) (\<lambda>r cs. cs = [])"
      unfolding ensure_budget_def by (intro calm_option emits_ret emits_port) simp_all
    have "emits (abind (ensure_budget P) (\<lambda>_. abind (log_call (Called_memory_commit c)) (\<lambda>_. abind (call_port (mp_commit m c)) (\<lambda>_. aret ()))))
      (\<lambda>r cs. cs = [] \<or> cs = [Called_memory_commit c])"
    proof (rule emits_bind [OF e, where B = "\<lambda>_ r cs. cs = [Called_memory_commit c]"])
      show "emits (abind (log_call (Called_memory_commit c)) (\<lambda>_. abind (call_port (mp_commit m c)) (\<lambda>_. aret ()))) (\<lambda>r cs. cs = [Called_memory_commit c])"
        by (rule emits_bind [where A = "\<lambda>r cs. r = Inr () \<and> cs = [Called_memory_commit c]" and B = "\<lambda>_ r cs. cs = []"])
          (auto intro!: emits_log emits_bind [where A = "\<lambda>r cs. cs = []" and B = "\<lambda>_ r cs. cs = []"] emits_port emits_ret)
    qed simp_all
    then show "emits (if d \<noteq> None \<and> d \<noteq> Some Allow then aret () else abind (ensure_budget P) (\<lambda>_. abind (log_call (Called_memory_commit c)) (\<lambda>_. abind (call_port (mp_commit m c)) (\<lambda>_. aret ()))))
      (\<lambda>r cs. if d \<noteq> None \<and> d \<noteq> Some Allow then cs = [] else cs = [] \<or> cs = [Called_memory_commit c])"
      by (simp add: emits_ret)
  next
    fix d cs r ds
    assume a: "calm (reviewed P) (memory_judged P) cs
        \<and> (\<forall>d'. Inr d = Inr d' \<longrightarrow> (if memory_judged P then \<exists>x. d' = Some x \<and> cs = [Called_memory_policy c x] else d' = None \<and> cs = []))"
      and b: "if d \<noteq> None \<and> d \<noteq> Some Allow then ds = [] else ds = [] \<or> ds = [Called_memory_commit c]"
    show "calm (reviewed P) (memory_judged P) (cs @ ds)"
    proof (cases "ds = []")
      case False
      with b have "ds = [Called_memory_commit c]" "d = None \<or> d = Some Allow" by (auto split: if_splits)
      with a show ?thesis by (auto simp: calm_def orderly_def is_observation_def split: if_splits)
    qed (use a in simp)
  qed simp
  show ?thesis
    unfolding write_memory_def by (intro calm_bind calm_intros calm_option calm_if commit)
qed

subsection \<open>Planning\<close>

text \<open>When the plan rounds are used up, a planned action observes nothing.\<close>

definition observes :: "proposal \<Rightarrow> bool" where
  "observes a \<longleftrightarrow> ap_type a \<in> {Plan_retrieval, Propose_tool_call}"

definition admissible :: "int \<Rightarrow> react_state \<Rightarrow> proposal \<Rightarrow> bool" where
  "admissible max_rounds s a \<longleftrightarrow> (max_rounds \<le> st_round s \<longrightarrow> \<not> observes a)"

lemma constrain_action_in: "constrain_action a E signal = Inr c \<Longrightarrow> ap_type c \<in> E"
  by (auto simp: constrain_action_def sorted_actions_def split: if_splits list.splits dest!: Cons_eq_filterD)

lemma eligible_at_limit: "m \<le> st_round s \<Longrightarrow> fst (eligible_actions_for_state s m c) \<inter> {Plan_retrieval, Propose_tool_call} = {}"
  by (auto simp: eligible_actions_for_state_def compute_eligible_action_set_def should_stop_for_plan_budget_def
      split: option.splits if_splits)

lemma constrain_next_action_limit:
  assumes "constrain_next_action R m s a S = Inr c"
  shows "admissible m s c"
proof -
  obtain completion where completion: "task_completion R s S = Inr completion"
    using assms by (auto simp: constrain_next_action_def)
  obtain E signal where E: "eligible_actions_for_state s m completion = (E, signal)" by fastforce
  have "\<not> observes c" if limit: "m \<le> st_round s"
  proof -
    have "E \<inter> {Plan_retrieval, Propose_tool_call} = {}" using eligible_at_limit [OF limit, of completion] E by simp
    then have none: "ap_type x \<in> (if st_actions s = [] then E else E \<inter> set (st_actions s)) \<Longrightarrow> \<not> observes x" for x :: proposal
      by (auto simp: observes_def split: if_splits)
    show ?thesis
      using assms completion E none
      by (auto simp: constrain_next_action_def Let_def incomplete_refusal_def observes_def dest!: constrain_action_in split: if_splits)
  qed
  then show ?thesis by (simp add: admissible_def)
qed

lemma prepare_plan_state_emits:
  "emits (prepare_plan_state P R m s) (\<lambda>r cs. calm rv mp cs \<and> (\<forall>s'. r = Inr s' \<longrightarrow> st_round s' = st_round s))"
proof -
  have scope: "emits (case pt_scope P of None \<Rightarrow> aret None
      | Some f \<Rightarrow> abind (call_port (f s)) (\<lambda>sc. abind (log_call Called_scope) (\<lambda>_. aret (Some sc)))) (\<lambda>_. calm rv mp)"
    by (intro calm_option calm_intros calm_bind calm_log) (simp_all add: is_observation_def)
  show ?thesis
    unfolding prepare_plan_state_def Let_def
    by (intro calm_bind_result [OF calm_intros(5)] calm_bind_result [OF scope]) (rule emits_ret, simp)
qed

lemma plan_next_action_emits:
  "emits (plan_next_action P R m s) (\<lambda>r cs. calm rv mp cs
     \<and> (\<forall>x. r = Inr x \<longrightarrow> (case x of (s', a) \<Rightarrow> st_round s' = st_round s \<and> admissible m s' a)))"
proof -
  let ?Q = "\<lambda>x. case x of (s', a) \<Rightarrow> st_round s' = st_round s \<and> admissible m s' a"
  have planner: "emits (case c of Some a \<Rightarrow> aret a
      | None \<Rightarrow> abind (call_port (pt_planner P s1)) (\<lambda>a. abind (log_call Called_planner) (\<lambda>_. aret a))) (\<lambda>_. calm rv mp)" for c s1
    by (cases c) (auto intro!: calm_intros calm_bind calm_log simp: is_observation_def)
  have final: "emits (abind (with_store (constrain_next_action R m s1 b)) (\<lambda>c. aret (s1, c))) (\<lambda>r cs. calm rv mp cs \<and> (\<forall>x. r = Inr x \<longrightarrow> ?Q x))"
    if "st_round s1 = st_round s" for s1 b
    by (rule emits_bind [where A = "\<lambda>r cs. cs = [] \<and> (\<forall>c. r = Inr c \<longrightarrow> admissible m s1 c)" and B = "\<lambda>c r cs. cs = [] \<and> r = Inr (s1, c)"])
      (use that in \<open>auto intro!: emits_store emits_ret dest: constrain_next_action_limit\<close>)
  have rest: "emits (abind (ensure_budget P) (\<lambda>_. abind current_plan (\<lambda>plan. abind (with_store (compiled_action P R plan s1)) (\<lambda>compiled.
      abind (case compiled of Some a \<Rightarrow> aret a
            | None \<Rightarrow> abind (call_port (pt_planner P s1)) (\<lambda>a. abind (log_call Called_planner) (\<lambda>_. aret a))) (\<lambda>a.
      abind (alift (apply_plan_interaction P R s1 a)) (\<lambda>b.
      abind (with_store (constrain_next_action R m s1 b)) (\<lambda>c. aret (s1, c))))))))
      (\<lambda>r cs. calm rv mp cs \<and> (\<forall>x. r = Inr x \<longrightarrow> ?Q x))" if "st_round s1 = st_round s" for s1
    by (intro calm_bind_result [OF ensure_budget_calm] calm_bind_result [OF calm_intros(7)] calm_bind_result [OF calm_intros(5)]
        calm_bind_result [OF planner] calm_bind_result [OF calm_intros(3)] final that)
  show ?thesis
    unfolding plan_next_action_def
  proof (rule emits_bind [OF prepare_plan_state_emits [where rv = rv and mp = mp], where B = "\<lambda>_ r cs. calm rv mp cs \<and> (\<forall>x. r = Inr x \<longrightarrow> ?Q x)"], goal_cases)
    case (1 s1 cs)
    then show ?case by (intro rest) simp
  next
    case (3 s1 cs r ds)
    then show ?case using calm_segments [unfolded segments_def] by blast
  qed simp
qed

subsection \<open>Observing\<close>

lemma commit_effect_round:
  "commit_effect C s a e i S = Inr (s', S') \<Longrightarrow> st_round s' = st_round s"
  by (auto simp: commit_effect_def commit_observation_def record_observation_def Let_def split: option.splits if_splits)

text \<open>An observation is one call, and a plan round when it succeeds.\<close>

definition one_observation :: "call \<Rightarrow> react_state \<Rightarrow> react_error + react_state \<Rightarrow> call list \<Rightarrow> bool" where
  "one_observation c s r cs \<longleftrightarrow> (cs = [] \<and> (\<exists>e. r = Inl e)) \<or> (cs = [c] \<and> (\<forall>s'. r = Inr s' \<longrightarrow> st_round s' = st_round s + 1))"

lemma observe_through_emits: "emits (observe_through R f c s a) (\<lambda>r cs. cs = [c] \<and> (\<forall>s'. r = Inr s' \<longrightarrow> st_round s' = st_round s))"
proof -
  let ?i = "allocate_identity s a"
  have update: "emits (update_store (commit_effect (ru_truths R) s a e ?i)) (\<lambda>r cs. cs = [] \<and> (\<forall>s'. r = Inr s' \<longrightarrow> st_round s' = st_round s))" for e
  proof (rule emits_update)
    fix S
    show "[] = [] \<and> (\<forall>s'. map_sum id fst (commit_effect (ru_truths R) s a e ?i S) = Inr s' \<longrightarrow> st_round s' = st_round s)"
      by (cases "commit_effect (ru_truths R) s a e ?i S") (auto dest: commit_effect_round)
  qed
  have "emits (abind (call_port (f s a ?i)) (\<lambda>e. update_store (commit_effect (ru_truths R) s a e ?i)))
      (\<lambda>r cs. cs = [] \<and> (\<forall>s'. r = Inr s' \<longrightarrow> st_round s' = st_round s))"
    by (rule emits_bind [where A = "\<lambda>_ cs. cs = []", OF emits_port update]) simp_all
  then show ?thesis
    unfolding observe_through_def Let_def
    by (intro emits_bind [where A = "\<lambda>_ cs. cs = [c]", OF emits_log]) simp_all
qed

lemma observing_state_round [simp]: "st_round (observing_state s as) = st_round s + 1"
  by (simp add: observing_state_def)

lemma observe_knowledge_emits: "emits (observe_knowledge P R s a) (one_observation (Called_knowledge a) s)"
  unfolding observe_knowledge_def
  by (intro calm_option emits_raise emits_weaken [OF observe_through_emits]) (auto simp: one_observation_def)

lemma observe_tool_emits: "emits (observe_tool P R s a) (one_observation (Called_tool a) s)"
proof -
  have "emits (abind (with_store (answer_truths R s)) (\<lambda>_. observe_through R f (Called_tool a) (observing_state s [a]) a))
      (one_observation (Called_tool a) s)" for f :: "'a observation_port"
    by (rule emits_bind [where A = "\<lambda>_ cs. cs = []", OF emits_store emits_weaken [OF observe_through_emits]])
      (auto simp: one_observation_def)
  then show ?thesis
    unfolding observe_tool_def by (intro calm_option calm_if emits_raise) (simp_all add: one_observation_def)
qed

subsection \<open>Turns\<close>

text \<open>What the loop still has to do, decreasing with every turn that continues.\<close>

definition loop_measure :: "int \<Rightarrow> react_state \<Rightarrow> proposal \<Rightarrow> nat" where
  "loop_measure m s a = 3 * nat (m - st_round s)
     + (if ap_type a = Generate_final_answer \<and> st_round s < m then 2 else if observes a then 1 else 0)"

definition turn_ok :: "'w ports \<Rightarrow> int \<Rightarrow> react_state \<Rightarrow> proposal \<Rightarrow> react_error + loop_step \<Rightarrow> call list \<Rightarrow> bool" where
  "turn_ok P m s a r cs \<longleftrightarrow> orderly (reviewed P) (memory_judged P) cs \<and> observing cs \<le> (if observes a then 1 else 0)
     \<and> (\<forall>s' b. r = Inr (Continue_with s' b) \<longrightarrow>
          st_round s' = st_round s + observing cs \<and> admissible m s' b \<and> loop_measure m s' b < loop_measure m s a)"

lemma turn_ok_return:
  assumes "emits act (\<lambda>_. calm (reviewed P) (memory_judged P))"
  shows "emits (abind act (\<lambda>x. aret (Return (g x)))) (turn_ok P m s a)"
  by (rule emits_bind [OF assms, where B = "\<lambda>_ r cs. cs = [] \<and> (\<exists>x. r = Inr (Return x))"])
    (auto intro: emits_ret simp: turn_ok_def calm_def)

lemma turn_ok_return_plain: "emits (aret (Return x)) (turn_ok P m s a)"
  by (rule emits_ret) (simp add: turn_ok_def orderly_def)

lemma turn_ok_calm_bind:
  assumes "emits act (\<lambda>_. calm (reviewed P) (memory_judged P))" and "\<And>x. emits (f x) (turn_ok P m s a)"
  shows "emits (abind act f) (turn_ok P m s a)"
  by (rule emits_bind [OF assms(1), where B = "\<lambda>_. turn_ok P m s a"])
    (use assms(2) orderly_append in \<open>auto simp: turn_ok_def calm_def\<close>)

lemma continue_measure:
  assumes "observes a" and "st_round s' = st_round s + 1" and "admissible m s' b"
  shows "loop_measure m s' b < loop_measure m s a"
proof (cases "st_round s < m")
  case True
  then have "nat (m - st_round s') + 1 = nat (m - st_round s)" using assms(2) by simp
  then show ?thesis using assms(1) True by (auto simp: loop_measure_def observes_def)
next
  case False
  then have "\<not> observes b" using assms(2,3) by (simp add: admissible_def)
  then show ?thesis using False assms(1,2) by (auto simp: loop_measure_def observes_def)
qed

lemma refuse_result_calm: "emits (refuse_result P R s a) (\<lambda>_. calm (reviewed P) (memory_judged P))"
  unfolding refuse_result_def Let_def by (intro calm_bind calm_intros write_memory_calm)

lemma ask_clarification_calm: "emits (ask_clarification P a) (\<lambda>_. calm rv mp)"
  unfolding ask_clarification_def Let_def by (intro calm_option calm_if calm_intros)

lemma pause_for_approval_calm: "emits (pause_for_approval P R s a) (\<lambda>_. calm rv mp)"
  unfolding pause_for_approval_def Let_def
  by (intro calm_option calm_if calm_intros calm_bind calm_log) (simp_all add: is_observation_def)

lemma synthesize_calm: "emits (synthesize P s a truths) (\<lambda>_. calm rv mp)"
  unfolding synthesize_def
  by (intro calm_option calm_if calm_intros calm_bind calm_log) (simp_all add: is_observation_def)

lemma admit_final_answer_calm: "emits (admit_final_answer P s a truths ans) (\<lambda>_. calm rv mp)"
  unfolding admit_final_answer_def
  by (intro calm_option calm_if calm_intros calm_bind calm_log ensure_budget_calm) (simp_all add: is_observation_def)

lemma answer_turn_ok:
  assumes "ap_type a = Generate_final_answer"
  shows "emits (answer_turn P R m s a) (turn_ok P m s a)"
proof -
  have recover: "emits (aret (Continue_with s (pending_retrieval_action a q (st_round s)))) (turn_ok P m s a)" if "st_round s < m" for q
    by (rule emits_ret) (use that assms in \<open>auto simp: turn_ok_def orderly_def admissible_def loop_measure_def observes_def pending_retrieval_action_def\<close>)
  show ?thesis
    unfolding answer_turn_def
    by (intro calm_if turn_ok_calm_bind [OF calm_intros(5)] turn_ok_calm_bind [OF synthesize_calm] turn_ok_calm_bind [OF admit_final_answer_calm]
        turn_ok_return [OF refuse_result_calm] turn_ok_return [OF write_memory_calm] turn_ok_return_plain recover) simp
qed

lemma continue_planning_emits:
  "emits (continue_planning P R m s) (\<lambda>r cs. calm rv mp cs
     \<and> (\<forall>t. r = Inr t \<longrightarrow> (\<exists>s' b. t = Continue_with s' b \<and> st_round s' = st_round s \<and> admissible m s' b)))"
  unfolding continue_planning_def
proof (rule emits_bind [OF plan_next_action_emits [where rv = rv and mp = mp], where B = "\<lambda>x r cs. cs = [] \<and> r = Inr (Continue_with (fst x) (snd x))"], goal_cases)
  case (1 x cs)
  then show ?case by (auto intro: emits_ret split: prod.splits)
next
  case (3 x cs r ds)
  then show ?case by (cases x) simp
qed simp

definition observed_then :: "'w ports \<Rightarrow> call \<Rightarrow> int \<Rightarrow> react_state \<Rightarrow> react_error + loop_step \<Rightarrow> call list \<Rightarrow> bool" where
  "observed_then P c m s r cs \<longleftrightarrow> (cs = [] \<and> (\<exists>e. r = Inl e)) \<or> (\<exists>es. cs = c # es \<and> calm (reviewed P) (memory_judged P) es
     \<and> (\<forall>t. r = Inr t \<longrightarrow> (\<exists>s' b. t = Continue_with s' b \<and> st_round s' = st_round s + 1 \<and> admissible m s' b)))"

lemma observe_continue:
  assumes "emits act (one_observation c s)"
  shows "emits (abind act (continue_planning P R m)) (observed_then P c m s)"
proof (rule emits_bind [OF assms, where B = "\<lambda>s1 r cs. calm (reviewed P) (memory_judged P) cs
     \<and> (\<forall>t. r = Inr t \<longrightarrow> (\<exists>s' b. t = Continue_with s' b \<and> st_round s' = st_round s1 \<and> admissible m s' b))"], goal_cases)
  case (1 s1 cs)
  show ?case by (rule continue_planning_emits)
qed (auto simp: one_observation_def observed_then_def)

lemma observed_turn_ok:
  assumes "observed_then P c m s r ds" and "observes a" and "is_observation c"
    and "calm (reviewed P) (memory_judged P) cs" and "orderly (reviewed P) (memory_judged P) (cs @ [c])"
  shows "turn_ok P m s a r (cs @ ds)"
proof (cases "ds = []")
  case True
  with assms(1,4) show ?thesis by (auto simp: observed_then_def turn_ok_def calm_def)
next
  case False
  then obtain es where es: "ds = c # es" "calm (reviewed P) (memory_judged P) es"
    and t: "\<And>t. r = Inr t \<Longrightarrow> (\<exists>s' b. t = Continue_with s' b \<and> st_round s' = st_round s + 1 \<and> admissible m s' b)"
    using assms(1) by (auto simp: observed_then_def)
  have "orderly (reviewed P) (memory_judged P) ((cs @ [c]) @ es)"
    by (rule orderly_append [OF assms(5)]) (use es(2) in \<open>simp add: calm_def\<close>)
  moreover have "observing (cs @ ds) = 1" using assms(3,4) es by (simp add: calm_def)
  moreover have "st_round s' = st_round s + 1 \<and> admissible m s' b \<and> loop_measure m s' b < loop_measure m s a"
    if "r = Inr (Continue_with s' b)" for s' b
    using t [OF that] continue_measure [OF assms(2)] by auto
  ultimately show ?thesis using es(1) assms(2) by (simp add: turn_ok_def)
qed

lemma review_denies_emits:
  "emits (review_denies P s a) (\<lambda>r cs. calm (reviewed P) (memory_judged P) cs
     \<and> (\<forall>b. r = Inr b \<longrightarrow> (if reviewed P then \<exists>d. cs = [Called_review a d] \<and> b = (d = Deny) else cs = [] \<and> \<not> b)))"
proof (cases "pt_review P")
  case (Some f)
  have "emits (abind (call_port (f s a)) (\<lambda>d. abind (log_call (Called_review a d)) (\<lambda>_. aret (d = Deny))))
    (\<lambda>r cs. calm (reviewed P) (memory_judged P) cs \<and> (\<forall>b. r = Inr b \<longrightarrow> (\<exists>d. cs = [Called_review a d] \<and> b = (d = Deny))))"
    by (rule judged_call [where c = "Called_review a" and g = "\<lambda>d. d = Deny"]) (auto simp: is_observation_def)
  then show ?thesis using Some by (simp add: review_denies_def reviewed_def)
qed (simp add: review_denies_def reviewed_def emits_ret)

lemma retrieval_turn_ok:
  assumes "ap_type a = Plan_retrieval"
  shows "emits (retrieval_turn P R m s a) (turn_ok P m s a)"
  unfolding retrieval_turn_def
proof (rule emits_bind [OF review_denies_emits, where B = "\<lambda>denied r cs. if denied then turn_ok P m s a r cs else observed_then P (Called_knowledge a) m s r cs"], goal_cases)
  case (1 denied cs)
  show ?case
    using observe_continue [OF observe_knowledge_emits [of P R s a], of P R m]
    by (auto intro: turn_ok_calm_bind [OF calm_intros(5) turn_ok_return_plain])
next
  case (2 e cs)
  then show ?case by (simp add: turn_ok_def calm_def)
next
  case (3 denied cs r ds)
  show ?case
  proof (cases denied)
    case True
    then have "turn_ok P m s a r ds" and "calm (reviewed P) (memory_judged P) cs" using 3 by simp_all
    then show ?thesis using orderly_append by (auto simp: turn_ok_def calm_def)
  next
    case False
    have "orderly (reviewed P) (memory_judged P) (cs @ [Called_knowledge a])"
      using 3(1) False by (auto simp: orderly_def split: if_splits)
    then show ?thesis
      using 3 False assms by (intro observed_turn_ok [where c = "Called_knowledge a"]) (simp_all add: observes_def is_observation_def)
  qed
qed

lemma tool_policy_emits:
  "emits (tool_policy P s a) (\<lambda>r cs. calm (reviewed P) (memory_judged P) cs \<and> (r = Inr Allow \<longrightarrow> cs = [Called_policy a Allow]))"
proof (cases "pt_policy P")
  case (Some p)
  have "emits (abind (call_port (pp_tool p s a)) (\<lambda>d. abind (log_call (Called_policy a d)) (\<lambda>_. aret d)))
    (\<lambda>r cs. calm (reviewed P) (memory_judged P) cs \<and> (r = Inr Allow \<longrightarrow> cs = [Called_policy a Allow]))"
    by (rule judged_call [where c = "Called_policy a" and g = "\<lambda>d. d"]) (auto simp: is_observation_def)
  then show ?thesis using Some by (simp add: tool_policy_def)
qed (simp add: tool_policy_def emits_ret)

lemma bind_tool_proposal_round:
  "bind_tool_proposal R s a = Inr (s1, b) \<Longrightarrow> st_round s1 = st_round s \<and> ap_type b = ap_type a"
  by (auto simp: bind_tool_proposal_def split: option.splits)

lemma turn_ok_cong:
  "st_round s1 = st_round s \<Longrightarrow> ap_type b = ap_type a \<Longrightarrow> turn_ok P m s1 b = turn_ok P m s a"
  by (simp add: turn_ok_def loop_measure_def observes_def fun_eq_iff)

lemma tool_turn_ok:
  assumes "ap_type a = Propose_tool_call"
  shows "emits (tool_turn P R m s a) (turn_ok P m s a)"
proof -
  have bound: "emits (abind (tool_policy P s1 b) (\<lambda>d.
          if d = Deny
          then abind (with_store (task_completion R s1)) (\<lambda>_. aret (Return (plain_result Tool_approval_denied (Some (lit ''policy_denied'')))))
          else if d = Allow then abind (observe_tool P R s1 b) (continue_planning P R m)
          else abind (pause_for_approval P R s1 b) (\<lambda>r. aret (Return r)))) (turn_ok P m s1 b)"
    if "ap_type b = Propose_tool_call" for s1 b
  proof (rule emits_bind [OF tool_policy_emits, where B = "\<lambda>d r cs. if d = Allow then observed_then P (Called_tool b) m s1 r cs else turn_ok P m s1 b r cs"], goal_cases)
    case (1 d cs)
    show ?case
      using observe_continue [OF observe_tool_emits [of P R s1 b], of P R m]
      by (auto intro: turn_ok_calm_bind [OF calm_intros(5) turn_ok_return_plain] turn_ok_return [OF pause_for_approval_calm])
  next
    case (2 e cs)
    then show ?case by (simp add: turn_ok_def calm_def)
  next
    case (3 d cs r ds)
    show ?case
    proof (cases "d = Allow")
      case False
      then show ?thesis using 3 orderly_append by (auto simp: turn_ok_def calm_def)
    next
      case True
      have "orderly (reviewed P) (memory_judged P) (cs @ [Called_tool b])" using 3(1) True by (simp add: orderly_def)
      then show ?thesis
        using 3 True that by (intro observed_turn_ok [where c = "Called_tool b"]) (auto simp: observes_def is_observation_def)
    qed
  qed
  show ?thesis
    unfolding tool_turn_def Let_def
  proof (intro calm_if turn_ok_calm_bind [OF calm_intros(5) turn_ok_return_plain] turn_ok_return [OF ask_clarification_calm], goal_cases)
    case 1
    show ?case
    proof (rule emits_bind [where A = "\<lambda>r cs. r = bind_tool_proposal R s a \<and> cs = []" and B = "\<lambda>_. turn_ok P m s a"], goal_cases)
      case (2 x cs)
      then obtain s1 b where x: "x = (s1, b)" "bind_tool_proposal R s a = Inr (s1, b)" by (cases x) auto
      then have eq: "st_round s1 = st_round s" "ap_type b = ap_type a" by (auto dest: bind_tool_proposal_round)
      show ?case using bound [of b s1] turn_ok_cong [OF eq, of P m] eq assms x(1) by simp
    qed (auto intro: emits_lift simp: turn_ok_def orderly_def)
  qed
qed

lemma loop_turn_ok: "emits (loop_turn P R m s a) (turn_ok P m s a)"
proof (cases "ap_type a")
  case Refuse
  then show ?thesis by (simp add: loop_turn_def turn_ok_return [OF refuse_result_calm])
next
  case Ask_clarification
  then show ?thesis
    by (simp add: loop_turn_def turn_ok_calm_bind [OF ask_clarification_calm turn_ok_calm_bind [OF calm_intros(5) turn_ok_return_plain]])
qed (auto simp: loop_turn_def intro: answer_turn_ok retrieval_turn_ok tool_turn_ok emits_raise simp: turn_ok_def orderly_def)

end
