(* ===== verification/React_Execution.thy ===== *)
theory React_Execution
  imports React_Discipline
begin

text \<open>
  A whole run: the loop, \<open>start\<close> with the preparation of the state, and \<open>resume\<close> after a tool approval
  (\<open>ControlledReActOrchestrator\<close> of \<open>controlled_react/orchestrator.py\<close>). A started run has no workflow
  task, no task state of a conversation and no checkpoint.
\<close>

subsection \<open>The loop\<close>

lemma loop_turn_decreases:
  assumes "loop_turn P R m s a w = (Inr (Continue_with s' b), w')"
  shows "loop_measure m s' b < loop_measure m s a"
  using emitsD [OF loop_turn_ok assms] by (auto simp: turn_ok_def)

function run_loop :: "'w ports \<Rightarrow> react_rules \<Rightarrow> int \<Rightarrow> react_state \<Rightarrow> proposal \<Rightarrow> ('w, react_result) act" where
  "run_loop P R max_rounds s a w = (case loop_turn P R max_rounds s a w of
       (Inl e, w') \<Rightarrow> (Inl e, w')
     | (Inr (Return r), w') \<Rightarrow> (Inr r, w')
     | (Inr (Continue_with s' b), w') \<Rightarrow> run_loop P R max_rounds s' b w')"
  by pat_completeness auto
termination
  by (relation "measure (\<lambda>(P, R, max_rounds, s, a, w). loop_measure max_rounds s a)")
    (auto intro: loop_turn_decreases [OF sym])

declare run_loop.simps [simp del]

subsection \<open>Starting a run\<close>

definition resolve_plan :: "'w ports \<Rightarrow> react_rules \<Rightarrow> int \<Rightarrow> bool \<Rightarrow> react_error + execution_plan" where
  "resolve_plan P R queries tool_tasks =
     map_sum Run_value_error id (compile_execution_plan (ru_plan_digest R) (pt_execution P) (pt_interaction P) (pt_assurance P)
       (case pt_tools_enabled P of None \<Rightarrow> pt_tool P \<noteq> None | Some b \<Rightarrow> b)
       (case pt_memory_enabled P of None \<Rightarrow> pt_memory P \<noteq> None | Some b \<Rightarrow> b) queries tool_tasks)"

definition resolve_execution_plan :: "'w ports \<Rightarrow> react_rules \<Rightarrow> react_state \<Rightarrow> ('w, unit) act" where
  "resolve_execution_plan P R s w =
     (case rbind (required_retrievals (ru_text R) (st_intent s)) (\<lambda>required.
             resolve_plan P R (len required) (map_option it_next (st_intent s) = Some Propose_tool_call)) of
        Inl e \<Rightarrow> (Inl e, w) | Inr plan \<Rightarrow> (Inr (), w\<lparr>ss_plan := plan\<rparr>))"

definition prepare_pre_loop :: "'w ports \<Rightarrow> react_rules \<Rightarrow> react_state \<Rightarrow> ('w, react_state) act" where
  "prepare_pre_loop P R s =
     abind (case pt_intent P of None \<Rightarrow> aret s
            | Some f \<Rightarrow> abind (call_port (f s)) (\<lambda>i. abind (log_call Called_intent) (\<lambda>_. aret (s\<lparr>st_intent := Some i\<rparr>)))) (\<lambda>s1.
     abind (resolve_execution_plan P R s1) (\<lambda>_.
     abind current_plan (\<lambda>plan.
     case pt_memory P of
       None \<Rightarrow> aret s1
     | Some m \<Rightarrow> if xp_effective plan = Some Lite then aret s1
         else abind (call_port (mp_read m s1)) (\<lambda>d. aret (s1\<lparr>st_memory := d, st_memory_read := True\<rparr>)))))"

record start_request =
  sq_run :: utext
  sq_institution :: pyval
  sq_question :: utext
  sq_max_rounds :: int
  sq_max_tool_calls :: int

definition start_state :: "start_request \<Rightarrow> react_state" where
  "start_state q = \<lparr>st_run = sq_run q, st_institution = sq_institution q, st_question = sq_question q,
     st_max_tool_calls = sq_max_tool_calls q, st_phase = Planning, st_round = 0, st_history = [], st_observations = [],
     st_intent = None, st_scope = None, st_actions = [], st_bound = None, st_approved = None, st_memory = [],
     st_memory_read = False, st_projections = []\<rparr>"

text \<open>A normalisation error of the intent stage becomes a failed result; other errors propagate.\<close>

definition prepare_or_fail :: "'w ports \<Rightarrow> react_rules \<Rightarrow> react_state \<Rightarrow> ('w, react_result + react_state) act" where
  "prepare_or_fail P R s w = (case prepare_pre_loop P R s w of
       (Inr s1, w') \<Rightarrow> (Inr (Inr s1), w')
     | (Inl (Normalization_error role), w') \<Rightarrow>
         if role = ''intent_resolution'' then (Inr (Inl (plain_result Failed_with_trace None)), w')
         else (Inl (Normalization_error role), w')
     | (Inl e, w') \<Rightarrow> (Inl e, w'))"

definition run_from :: "'w ports \<Rightarrow> react_rules \<Rightarrow> int \<Rightarrow> react_state \<Rightarrow> ('w, react_result) act" where
  "run_from P R max_rounds s = abind (plan_next_action P R max_rounds s) (\<lambda>(s', a). run_loop P R max_rounds s' a)"

definition start_body :: "'w ports \<Rightarrow> react_rules \<Rightarrow> start_request \<Rightarrow> ('w, react_result) act" where
  "start_body P R q =
     abind (ensure_budget P) (\<lambda>_.
     abind (prepare_or_fail P R (start_state q)) (\<lambda>prepared.
     abind (case prepared of Inl r \<Rightarrow> aret r | Inr s \<Rightarrow> run_from P R (sq_max_rounds q) s) (\<lambda>r.
     abind (ensure_budget P) (\<lambda>_. aret r))))"

definition catch_budget :: "('w, react_result) act \<Rightarrow> ('w, react_result) act" where
  "catch_budget m w = (case m w of
       (Inl (Out_of_budget reason), w') \<Rightarrow> (Inr (plain_result Refused_no_evidence None), w')
     | x \<Rightarrow> x)"

definition react_start :: "'w ports \<Rightarrow> react_rules \<Rightarrow> start_request \<Rightarrow> ('w, react_result) act" where
  "react_start P R q =
     abind (case pt_budget P of None \<Rightarrow> aret () | Some b \<Rightarrow> call_port (bp_restore b)) (\<lambda>_. catch_budget (start_body P R q))"

subsection \<open>Resuming after an approval\<close>

record resume_request =
  zq_snapshot :: utext
  zq_approval :: utext
  zq_approved :: bool
  zq_actor :: utext
  zq_max_rounds :: int
  zq_expected_run :: "utext option"
  zq_institution :: pyval

definition action_token :: "nat \<Rightarrow> utext \<Rightarrow> bool" where
  "action_token n t \<longleftrightarrow> t \<noteq> [] \<and> length t \<le> n
     \<and> list_all (\<lambda>c. text_digit c \<or> (65 \<le> c \<and> c \<le> 90) \<or> (97 \<le> c \<and> c \<le> 122) \<or> c = 95 \<or> c = 45) t"

definition check_resume :: "react_rules \<Rightarrow> resume_request \<Rightarrow> run_snapshot \<Rightarrow> react_error + (react_state \<times> proposal)" where
  "check_resume R z sn =
     rbind (verify_snapshot R sn (zq_snapshot z)) (\<lambda>_.
       let s = sn_state sn in
       if zq_expected_run z \<noteq> None \<and> zq_expected_run z \<noteq> Some (st_run s)
       then Inl (Run_error ''PA_RUNTIME_001'' ''controlled ReAct resume run identity does not match signed context'')
       else if st_institution s \<noteq> zq_institution z
       then Inl (Run_error ''PA_RUNTIME_001'' ''controlled ReAct resume institution authorization does not match snapshot'')
       else if st_history s = [] then Inl (Run_value_error ''approval resume snapshot is missing pending action'')
       else let a = last (st_history s) in
         if \<not> action_token 128 (ap_id a)
         then Inl (Run_error ''PA_RUNTIME_001'' ''controlled ReAct resume action identity is invalid'')
         else if \<not> action_token 133 (zq_approval z) \<or> zq_approval z \<noteq> lit ''appr_'' @ ap_id a
         then Inl (Run_error ''PA_RUNTIME_001'' ''controlled ReAct resume approval identity does not match pending action'')
         else Inr (s, a))"

definition tool_name_of :: "proposal \<Rightarrow> utext" where
  "tool_name_of a = (case ap_tool a of None \<Rightarrow> lit ''unknown_tool'' | Some t \<Rightarrow> if t = [] then lit ''unknown_tool'' else t)"

definition denial_effect :: "react_state \<Rightarrow> proposal \<Rightarrow> resume_request \<Rightarrow> identity \<Rightarrow> effect" where
  "denial_effect s a z i =
     (let result = [(lit ''approval_state'', Py_text (lit ''denied'')), (lit ''actor'', Py_text (zq_actor z))]
      in \<lparr>ef_record = \<lparr>ob_id = id_observation i, ob_action = ap_id a, ob_type = ap_type a, ob_round = st_round s,
            ob_ref = id_ref i, ob_summary = [], ob_accepted = 0, ob_new = 0, ob_unresolved = [lit ''tool_approval_denied''],
            ob_sources = [lit ''tool://'' @ tool_name_of a], ob_citations = []\<rparr>,
          ef_truth = Tool_truth \<lparr>tt_ref = id_ref i, tt_observation = id_observation i, tt_action = ap_id a,
            tt_tool = tool_name_of a, tt_result = result, tt_schema = Some (tool_name_of a @ lit ''.approval.v1''),
            tt_approval = Some (zq_approval z), tt_redaction = []\<rparr>,
          ef_projection = result, ef_fields = [], ef_summary = Some result\<rparr>)"

definition observe_denial :: "react_rules \<Rightarrow> react_state \<Rightarrow> proposal \<Rightarrow> resume_request \<Rightarrow> ('w, react_state) act" where
  "observe_denial R s a z =
     (let s1 = observing_state s []; i = allocate_identity s1 a
      in update_store (commit_effect (ru_truths R) s1 a (denial_effect s1 a z i) i))"

definition integrity_mismatch :: "react_rules \<Rightarrow> react_state \<Rightarrow> proposal \<Rightarrow> bool" where
  "integrity_mismatch R s a = (case st_approved s of
       None \<Rightarrow> False
     | Some x \<Rightarrow> at_action_id x \<noteq> ap_id a \<or> at_tool x \<noteq> (case ap_tool a of None \<Rightarrow> [] | Some t \<Rightarrow> t)
         \<or> at_parameter_digest x \<noteq> ru_digest R (ap_parameters a))"

definition react_resume :: "'w ports \<Rightarrow> react_rules \<Rightarrow> resume_request \<Rightarrow> ('w, react_result) act" where
  "react_resume P R z = (case pt_snapshots P of
       None \<Rightarrow> araise (Run_value_error ''snapshot store port is required for approval resume'')
     | Some store \<Rightarrow>
         abind (call_port (sp_load store (zq_snapshot z))) (\<lambda>sn.
         abind (alift (check_resume R z sn)) (\<lambda>(s, a).
         abind (with_store (task_completion R s)) (\<lambda>_.
           if \<not> zq_approved z
           then abind (observe_denial R s a z) (run_from P R (zq_max_rounds z))
           else (case pt_tool P of
               None \<Rightarrow> araise (Run_value_error ''tool observation port is required for approval resume'')
             | Some f \<Rightarrow>
                 if integrity_mismatch R s a then aret (plain_result Refused_no_evidence None)
                 else abind (observe_through R f (Called_tool a) (observing_state s []) a) (run_from P R (zq_max_rounds z)))))))"

end
