(* ===== verification/React_Runs.thy ===== *)
theory React_Runs
  imports React_Execution
begin

text \<open>
  The rules of \<open>React_Discipline\<close> carried from one turn to the loop and to whole runs: the plan rounds
  bound the observations, every call keeps the discipline, a resumed run starts with at most the
  approved tool call, and an answer was admitted by the answer policy.
\<close>

subsection \<open>The loop\<close>

text \<open>The loop with a bound on its turns; \<open>None\<close> when they do not suffice.\<close>

fun loop_within :: "nat \<Rightarrow> 'w ports \<Rightarrow> react_rules \<Rightarrow> int \<Rightarrow> react_state \<Rightarrow> proposal \<Rightarrow> 'w session
    \<Rightarrow> ((react_error + react_result) \<times> 'w session) option" where
  "loop_within 0 P R m s a w = None"
| "loop_within (Suc n) P R m s a w = (case loop_turn P R m s a w of
       (Inl e, w') \<Rightarrow> Some (Inl e, w')
     | (Inr (Return r), w') \<Rightarrow> Some (Inr r, w')
     | (Inr (Continue_with s' b), w') \<Rightarrow> loop_within n P R m s' b w')"

lemma loop_within_measure: "loop_measure m s a < n \<Longrightarrow> loop_within n P R m s a w = Some (run_loop P R m s a w)"
proof (induction n arbitrary: s a w)
  case (Suc n)
  obtain x w1 where t: "loop_turn P R m s a w = (x, w1)" by fastforce
  show ?case
  proof (cases "\<exists>s' b. x = Inr (Continue_with s' b)")
    case True
    then obtain s' b where x: "x = Inr (Continue_with s' b)" by blast
    with t Suc.prems have "loop_measure m s' b < n" using loop_turn_decreases [of P R m s a w s' b w1] by simp
    with t x show ?thesis by (simp add: Suc.IH run_loop.simps [of P R m s a])
  next
    case False
    with t show ?thesis by (auto simp: run_loop.simps [of P R m s a] split: sum.splits loop_step.splits)
  qed
qed simp

text \<open>The calls of a run that may still make \<open>max 0 (m - round)\<close> observations.\<close>

definition run_ok :: "'w ports \<Rightarrow> int \<Rightarrow> call list \<Rightarrow> bool" where
  "run_ok P n cs \<longleftrightarrow> orderly (reviewed P) (memory_judged P) cs \<and> observing cs \<le> max 0 n"

lemma run_ok_calm: "calm (reviewed P) (memory_judged P) cs \<Longrightarrow> run_ok P n cs"
  by (simp add: run_ok_def calm_def)

lemma run_ok_append_calm:
  "run_ok P n cs \<Longrightarrow> calm (reviewed P) (memory_judged P) ds \<Longrightarrow> run_ok P n (cs @ ds)"
  "calm (reviewed P) (memory_judged P) ds \<Longrightarrow> run_ok P n cs \<Longrightarrow> run_ok P n (ds @ cs)"
  by (auto simp: run_ok_def calm_def orderly_append)

lemma run_loop_ok:
  assumes "admissible m s a"
  shows "emits (run_loop P R m s a) (\<lambda>_. run_ok P (m - st_round s))"
proof (rule emitsI)
  fix w r w'
  assume "run_loop P R m s a w = (r, w')"
  with assms show "\<exists>cs. ss_calls w' = ss_calls w @ cs \<and> run_ok P (m - st_round s) cs"
  proof (induction P R m s a w rule: run_loop.induct)
    case (1 P R m s a w)
    obtain x w1 where t: "loop_turn P R m s a w = (x, w1)" by fastforce
    from emitsD [OF loop_turn_ok t] obtain cs where cs: "ss_calls w1 = ss_calls w @ cs" and ok: "turn_ok P m s a x cs"
      by blast
    have step: "run_ok P (m - st_round s) cs"
      using ok "1.prems"(1) by (auto simp: turn_ok_def run_ok_def admissible_def split: if_splits)
    show ?case
    proof (cases "\<exists>s' b. x = Inr (Continue_with s' b)")
      case True
      then obtain s' b where x: "x = Inr (Continue_with s' b)" by blast
      then have rec: "run_loop P R m s' b w1 = (r, w')" using t "1.prems"(2) by (simp add: run_loop.simps [of P R m s a])
      have follows: "st_round s' = st_round s + observing cs" "admissible m s' b" using ok x by (simp_all add: turn_ok_def)
      from "1.IH" [of x w1 "Continue_with s' b" s' b] t x follows(2) rec
      obtain ds where ds: "ss_calls w' = ss_calls w1 @ ds" "run_ok P (m - st_round s') ds" by auto
      have "run_ok P (m - st_round s) (cs @ ds)"
        using step ds(2) follows(1) by (auto simp: run_ok_def orderly_append)
      with cs ds(1) show ?thesis by auto
    next
      case False
      with t "1.prems"(2) have "w' = w1" by (auto simp: run_loop.simps [of P R m s a] split: sum.splits loop_step.splits)
      with cs step show ?thesis by auto
    qed
  qed
qed

subsection \<open>Runs from the start\<close>

lemma run_from_ok: "emits (run_from P R m s) (\<lambda>_. run_ok P (m - st_round s))"
  unfolding run_from_def
proof (rule emits_bind [OF plan_next_action_emits [where rv = "reviewed P" and mp = "memory_judged P"],
      where B = "\<lambda>x r cs. run_ok P (m - st_round s) cs"], goal_cases)
  case (1 x cs)
  then show ?case by (auto split: prod.splits intro: emits_weaken [OF run_loop_ok])
qed (auto intro: run_ok_calm run_ok_append_calm)

lemma prepare_pre_loop_emits:
  "emits (prepare_pre_loop P R s) (\<lambda>r cs. calm rv mp cs \<and> (\<forall>s'. r = Inr s' \<longrightarrow> st_round s' = st_round s))"
proof -
  have resolve: "emits (resolve_execution_plan P R s1) (\<lambda>_. calm rv mp)" for s1
    by (rule emitsI) (auto simp: resolve_execution_plan_def split: sum.splits)
  have intent: "emits (case pt_intent P of None \<Rightarrow> aret s
      | Some f \<Rightarrow> abind (call_port (f s)) (\<lambda>i. abind (log_call Called_intent) (\<lambda>_. aret (s\<lparr>st_intent := Some i\<rparr>))))
      (\<lambda>r cs. calm rv mp cs \<and> (\<forall>s'. r = Inr s' \<longrightarrow> st_round s' = st_round s))"
    by (intro calm_option calm_bind_result [OF calm_intros(4)] calm_bind_result [OF calm_log] emits_ret)
      (simp_all add: is_observation_def)
  have memory: "emits (case pt_memory P of
       None \<Rightarrow> aret s1
     | Some m \<Rightarrow> if xp_effective plan = Some Lite then aret s1
         else abind (call_port (mp_read m s1)) (\<lambda>d. aret (s1\<lparr>st_memory := d, st_memory_read := True\<rparr>)))
      (\<lambda>r cs. calm rv mp cs \<and> (\<forall>s'. r = Inr s' \<longrightarrow> st_round s' = st_round s))" if "st_round s1 = st_round s" for s1 plan
    using that by (intro calm_option calm_if calm_bind_result [OF calm_intros(4)] emits_ret) simp_all
  show ?thesis
    unfolding prepare_pre_loop_def
  proof (rule emits_bind [OF intent, where B = "\<lambda>_ r cs. calm rv mp cs \<and> (\<forall>s'. r = Inr s' \<longrightarrow> st_round s' = st_round s)"], goal_cases)
    case (1 s1 cs)
    then show ?case by (intro calm_bind_result [OF resolve] calm_bind_result [OF calm_intros(7)] memory) simp
  next
    case (3 s1 cs r ds)
    then show ?case using calm_segments [unfolded segments_def] by blast
  qed simp
qed

lemma prepare_or_fail_emits:
  "emits (prepare_or_fail P R s) (\<lambda>r cs. calm rv mp cs \<and> (\<forall>s'. r = Inr (Inr s') \<longrightarrow> st_round s' = st_round s))"
proof (rule emitsI)
  fix w r w'
  assume run: "prepare_or_fail P R s w = (r, w')"
  obtain x where x: "prepare_pre_loop P R s w = (x, w')"
    using run by (auto simp: prepare_or_fail_def split: prod.splits sum.splits react_error.splits if_splits)
  from emitsD [OF prepare_pre_loop_emits this] run x
  show "\<exists>cs. ss_calls w' = ss_calls w @ cs \<and> calm rv mp cs \<and> (\<forall>s'. r = Inr (Inr s') \<longrightarrow> st_round s' = st_round s)"
    by (auto simp: prepare_or_fail_def split: sum.splits react_error.splits if_splits)
qed

lemma start_body_ok: "emits (start_body P R q) (\<lambda>_. run_ok P (sq_max_rounds q))"
proof -
  let ?rest = "\<lambda>r. abind (ensure_budget P) (\<lambda>_. aret r)"
  have last: "emits (?rest r) (\<lambda>_. calm (reviewed P) (memory_judged P))" for r
    by (intro calm_bind ensure_budget_calm calm_intros)
  have run: "emits (abind (case p of Inl r \<Rightarrow> aret r | Inr s \<Rightarrow> run_from P R (sq_max_rounds q) s) ?rest) (\<lambda>_. run_ok P (sq_max_rounds q))"
    if "\<forall>s'. p = Inr s' \<longrightarrow> st_round s' = 0" for p
  proof (rule emits_bind [where A = "\<lambda>_. run_ok P (sq_max_rounds q)" and B = "\<lambda>_ _. calm (reviewed P) (memory_judged P)", OF _ last])
    show "emits (case p of Inl r \<Rightarrow> aret r | Inr s \<Rightarrow> run_from P R (sq_max_rounds q) s) (\<lambda>_. run_ok P (sq_max_rounds q))"
    proof (cases p)
      case (Inr s)
      with that have "st_round s = 0" by simp
      with Inr run_from_ok [of P R "sq_max_rounds q" s] show ?thesis by simp
    qed (simp add: emits_ret run_ok_calm)
  qed (auto intro: run_ok_append_calm)
  have body: "emits (abind (prepare_or_fail P R (start_state q)) (\<lambda>p. abind (case p of Inl r \<Rightarrow> aret r | Inr s \<Rightarrow> run_from P R (sq_max_rounds q) s) ?rest))
      (\<lambda>_. run_ok P (sq_max_rounds q))"
  proof (rule emits_bind [OF prepare_or_fail_emits [where rv = "reviewed P" and mp = "memory_judged P"],
        where B = "\<lambda>_ _. run_ok P (sq_max_rounds q)"], goal_cases)
    case (1 p cs)
    then show ?case by (intro run) (simp add: start_state_def)
  qed (auto intro: run_ok_calm run_ok_append_calm)
  show ?thesis
    unfolding start_body_def
    by (rule emits_bind [OF ensure_budget_calm [where rv = "reviewed P" and mp = "memory_judged P"], where B = "\<lambda>_ _. run_ok P (sq_max_rounds q)", OF body])
      (auto intro: run_ok_calm run_ok_append_calm)
qed

lemma react_start_ok: "emits (react_start P R q) (\<lambda>_. run_ok P (sq_max_rounds q))"
proof -
  have caught: "emits (catch_budget (start_body P R q)) (\<lambda>_. run_ok P (sq_max_rounds q))"
  proof (rule emitsI)
    fix w r w'
    assume run: "catch_budget (start_body P R q) w = (r, w')"
    obtain x where "start_body P R q w = (x, w')"
      using run by (cases "start_body P R q w") (auto simp: catch_budget_def split: sum.splits react_error.splits)
    from emitsD [OF start_body_ok this] show "\<exists>cs. ss_calls w' = ss_calls w @ cs \<and> run_ok P (sq_max_rounds q) cs" .
  qed
  have restore: "emits (case pt_budget P of None \<Rightarrow> aret () | Some b \<Rightarrow> call_port (bp_restore b)) (\<lambda>_. calm (reviewed P) (memory_judged P))"
    by (intro calm_option calm_intros)
  show ?thesis
    unfolding react_start_def
    by (rule emits_bind [OF restore, where B = "\<lambda>_ _. run_ok P (sq_max_rounds q)", OF caught])
      (auto intro: run_ok_calm run_ok_append_calm)
qed

subsection \<open>Resumed runs\<close>

text \<open>What a resumed run may do first: execute the approved pending action of the loaded snapshot.\<close>

definition approved_action :: "'w ports \<Rightarrow> react_rules \<Rightarrow> resume_request \<Rightarrow> 'w \<Rightarrow> proposal \<Rightarrow> bool" where
  "approved_action P R z x a \<longleftrightarrow> zq_approved z
     \<and> (\<exists>store sn x'. pt_snapshots P = Some store \<and> sp_load store (zq_snapshot z) x = (Inr sn, x')
         \<and> check_resume R z sn = Inr (sn_state sn, a) \<and> \<not> integrity_mismatch R (sn_state sn) a)"

definition resume_ok :: "(proposal \<Rightarrow> bool) \<Rightarrow> 'w ports \<Rightarrow> call list \<Rightarrow> bool" where
  "resume_ok A P cs \<longleftrightarrow> orderly (reviewed P) (memory_judged P) cs
     \<or> (\<exists>a ds. cs = Called_tool a # ds \<and> A a \<and> orderly (reviewed P) (memory_judged P) ds)"

lemma resume_ok_calm: "calm (reviewed P) (memory_judged P) cs \<Longrightarrow> resume_ok A P cs"
  by (simp add: resume_ok_def calm_def)

lemma resume_ok_run: "run_ok P n cs \<Longrightarrow> resume_ok A P cs"
  by (simp add: resume_ok_def run_ok_def)

lemma check_resume_state:
  "check_resume R z sn = Inr (s, a) \<Longrightarrow> s = sn_state sn \<and> st_history s \<noteq> [] \<and> a = last (st_history s)
     \<and> verify_snapshot R sn (zq_snapshot z) = Inr () \<and> zq_approval z = lit ''appr_'' @ ap_id a"
  by (auto simp: check_resume_def Let_def split: if_splits)

definition resume_body :: "'w ports \<Rightarrow> react_rules \<Rightarrow> resume_request \<Rightarrow> react_state \<Rightarrow> proposal \<Rightarrow> ('w, react_result) act" where
  "resume_body P R z s a = abind (with_store (task_completion R s)) (\<lambda>_.
           if \<not> zq_approved z
           then abind (observe_denial R s a z) (run_from P R (zq_max_rounds z))
           else (case pt_tool P of
               None \<Rightarrow> araise (Run_value_error ''tool observation port is required for approval resume'')
             | Some f \<Rightarrow>
                 if integrity_mismatch R s a then aret (plain_result Refused_no_evidence None)
                 else abind (observe_through R f (Called_tool a) (observing_state s []) a) (run_from P R (zq_max_rounds z))))"

lemma resume_body_ok:
  "emits (resume_body P R z s a) (\<lambda>_. resume_ok (\<lambda>b. b = a \<and> zq_approved z \<and> \<not> integrity_mismatch R s a) P)"
proof -
  let ?Q = "resume_ok (\<lambda>b. b = a \<and> zq_approved z \<and> \<not> integrity_mismatch R s a) P"
  have denied: "emits (abind (observe_denial R s a z) (run_from P R (zq_max_rounds z))) (\<lambda>_. ?Q)"
    unfolding observe_denial_def Let_def
    by (rule emits_bind [where A = "\<lambda>_ cs. cs = []", OF emits_update emits_weaken [OF run_from_ok]])
      (auto intro: resume_ok_calm resume_ok_run)
  have approved: "emits (abind (observe_through R f (Called_tool a) (observing_state s []) a) (run_from P R (zq_max_rounds z))) (\<lambda>_. ?Q)"
    if "zq_approved z" "\<not> integrity_mismatch R s a" for f :: "'a observation_port"
    by (rule emits_bind [OF observe_through_emits run_from_ok])
      (use that in \<open>auto simp: resume_ok_def run_ok_def, simp add: orderly_def\<close>)
  have body: "emits (if \<not> zq_approved z then abind (observe_denial R s a z) (run_from P R (zq_max_rounds z))
       else (case pt_tool P of
               None \<Rightarrow> araise (Run_value_error ''tool observation port is required for approval resume'')
             | Some f \<Rightarrow>
                 if integrity_mismatch R s a then aret (plain_result Refused_no_evidence None)
                 else abind (observe_through R f (Called_tool a) (observing_state s []) a) (run_from P R (zq_max_rounds z)))) (\<lambda>_. ?Q)"
    using denied approved by (intro calm_if calm_option emits_raise emits_ret) (simp_all add: resume_ok_calm)
  show ?thesis
    unfolding resume_body_def
    by (rule emits_bind [where A = "\<lambda>_ cs. cs = []", OF emits_store body]) (simp_all add: resume_ok_calm)
qed

lemma react_resume_cases:
  assumes "react_resume P R z w = (r, w')"
  obtains (loaded) store sn x s a where "pt_snapshots P = Some store" and "sp_load store (zq_snapshot z) (ss_world w) = (Inr sn, x)"
      and "check_resume R z sn = Inr (s, a)" and "resume_body P R z s a (w\<lparr>ss_world := x\<rparr>) = (r, w')"
    | (failed) "ss_calls w' = ss_calls w" and "\<exists>e. r = Inl e"
proof (cases "pt_snapshots P")
  case None
  then show ?thesis using assms by (intro failed) (auto simp: react_resume_def araise_def)
next
  case (Some store)
  obtain y x where load: "sp_load store (zq_snapshot z) (ss_world w) = (y, x)" by fastforce
  show ?thesis
  proof (cases "\<exists>sn s a. y = Inr sn \<and> check_resume R z sn = Inr (s, a)")
    case True
    then obtain sn s a where y: "y = Inr sn" and check: "check_resume R z sn = Inr (s, a)" by blast
    then have "resume_body P R z s a (w\<lparr>ss_world := x\<rparr>) = (r, w')"
      using assms Some load by (simp add: react_resume_def resume_body_def abind_def call_port_def alift_def)
    with Some load y check show ?thesis using loaded by blast
  next
    case False
    then have "ss_calls w' = ss_calls w \<and> (\<exists>e. r = Inl e)"
      using assms Some load
      by (cases y) (auto simp: react_resume_def abind_def call_port_def alift_def split: sum.splits prod.splits)
    then show ?thesis using failed by simp
  qed
qed

lemma react_resume_ok:
  assumes "react_resume P R z w = (r, w')"
  shows "\<exists>cs. ss_calls w' = ss_calls w @ cs \<and> resume_ok (approved_action P R z (ss_world w)) P cs"
  using assms
proof (cases rule: react_resume_cases)
  case (loaded store sn x s a)
  from emitsD [OF resume_body_ok loaded(4)] obtain cs where cs: "ss_calls w' = ss_calls w @ cs"
    "resume_ok (\<lambda>b. b = a \<and> zq_approved z \<and> \<not> integrity_mismatch R s a) P cs" by auto
  moreover have "s = sn_state sn" using check_resume_state [OF loaded(3)] by simp
  ultimately show ?thesis using loaded(1-3) by (auto simp: resume_ok_def approved_action_def)
next
  case failed
  then show ?thesis by (auto intro: resume_ok_calm)
qed

subsection \<open>Answers\<close>

text \<open>A result that answers was admitted by the answer policy, where there is one.\<close>

definition answer_judged :: "'w ports \<Rightarrow> bool" where
  "answer_judged P \<longleftrightarrow> (case pt_policy P of None \<Rightarrow> False | Some p \<Rightarrow> pp_answer p \<noteq> None)"

definition admitted :: "'w ports \<Rightarrow> bool \<Rightarrow> call list \<Rightarrow> bool" where
  "admitted P answers cs \<longleftrightarrow> (answer_judged P \<longrightarrow> answers \<longrightarrow> (\<exists>a. Called_answer_policy a Allow \<in> set cs))"

lemma admitted_append: "admitted P b ds \<Longrightarrow> admitted P b (cs @ ds)"
  by (auto simp: admitted_def)

text \<open>What answers in a result of type \<open>'a\<close> is given by \<open>f\<close>.\<close>

definition answers_admitted :: "'w ports \<Rightarrow> ('a \<Rightarrow> bool) \<Rightarrow> react_error + 'a \<Rightarrow> call list \<Rightarrow> bool" where
  "answers_admitted P f r cs \<longleftrightarrow> (\<forall>x. r = Inr x \<longrightarrow> admitted P (f x) cs)"

lemma admitted_bind:
  assumes "emits m A" and "\<And>x. emits (g x) (answers_admitted P f)"
  shows "emits (abind m g) (answers_admitted P f)"
  by (rule emits_bind [OF assms(1), where B = "\<lambda>_. answers_admitted P f"])
    (use assms(2) in \<open>auto simp: answers_admitted_def admitted_append\<close>)

lemma admitted_ret: "\<not> f x \<Longrightarrow> emits (aret x) (answers_admitted P f)"
  by (rule emits_ret) (simp add: answers_admitted_def admitted_def)

lemma admitted_raise: "emits (araise e) (answers_admitted P f)"
  by (rule emits_raise) (simp add: answers_admitted_def)

definition answers :: "react_result \<Rightarrow> bool" where
  "answers r \<longleftrightarrow> rr_outcome r = Answered_with_citations"

fun turn_answers :: "loop_step \<Rightarrow> bool" where
  "turn_answers (Return r) = answers r"
| "turn_answers (Continue_with s a) = False"

lemma plain_answers [simp]:
  "answers (plain_result oc reason) \<longleftrightarrow> oc = Answered_with_citations"
  "answers (r\<lparr>rr_missing := m\<rparr>) = answers r" "answers (r\<lparr>rr_approval := p\<rparr>) = answers r"
  "answers (r\<lparr>rr_answer := a\<rparr>) = answers r"
  by (simp_all add: answers_def plain_result_def)

text \<open>Every step of a turn appends to the log, whatever it appends.\<close>

lemma emits_any: "emits m Q \<Longrightarrow> emits m (\<lambda>_ _. True)"
  unfolding emits_def by blast

text \<open>Most steps never answer.\<close>

definition never :: "('a \<Rightarrow> bool) \<Rightarrow> react_error + 'a \<Rightarrow> call list \<Rightarrow> bool" where
  "never f r cs \<longleftrightarrow> (\<forall>x. r = Inr x \<longrightarrow> \<not> f x)"

lemma never_bind: "emits m A \<Longrightarrow> (\<And>x. emits (g x) (never f)) \<Longrightarrow> emits (abind m g) (never f)"
  by (rule emits_bind [where B = "\<lambda>_. never f"]) (auto simp: never_def)

lemma never_ret: "\<not> f x \<Longrightarrow> emits (aret x) (never f)"
  by (rule emits_ret) (simp add: never_def)

lemma never_raise: "emits (araise e) (never f)"
  by (rule emits_raise) (simp add: never_def)

lemma never_admitted: "emits m (never f) \<Longrightarrow> emits m (answers_admitted P f)"
  by (erule emits_weaken) (simp add: never_def answers_admitted_def admitted_def)

lemma never_return: "emits m (never answers) \<Longrightarrow> emits (abind m (\<lambda>r. aret (Return r))) (never turn_answers)"
  by (erule emits_bind [where B = "\<lambda>x r cs. r = Inr (Return x)"]) (auto intro: emits_ret simp: never_def)

lemma refuse_result_never: "emits (refuse_result P R s a) (never answers)"
  unfolding refuse_result_def Let_def
  by (intro never_bind [OF emits_any [OF calm_intros(5)]] never_bind [OF write_memory_calm] never_ret) simp

lemma ask_clarification_never: "emits (ask_clarification P a) (never answers)"
  unfolding ask_clarification_def Let_def by (intro calm_option calm_if never_ret) simp_all

lemma pause_never: "emits (pause_for_approval P R s a) (never answers)"
  unfolding pause_for_approval_def Let_def
  by (intro calm_option calm_if never_raise never_ret never_bind [OF calm_intros(3)] never_bind [OF calm_intros(4)]
      never_bind [OF calm_log]) (simp_all add: is_observation_def)

lemma continue_planning_never: "emits (continue_planning P R m s) (never turn_answers)"
  by (rule emits_weaken [OF continue_planning_emits]) (auto simp: never_def)

lemma retrieval_turn_never: "emits (retrieval_turn P R m s a) (never turn_answers)"
  unfolding retrieval_turn_def
  by (intro calm_if never_bind [OF review_denies_emits] never_bind [OF calm_intros(5)] never_ret
      never_bind [OF observe_knowledge_emits] continue_planning_never) simp

lemma tool_turn_never: "emits (tool_turn P R m s a) (never turn_answers)"
  unfolding tool_turn_def Let_def
  by (intro calm_if calm_pair never_bind [OF calm_intros(5)] never_bind [OF calm_intros(3)] never_bind [OF tool_policy_emits]
      never_ret never_return ask_clarification_never pause_never never_bind [OF observe_tool_emits]
      continue_planning_never) simp_all

lemma ask_turn_never:
  "emits (abind (ask_clarification P a) (\<lambda>r. abind (with_store (task_completion R s)) (\<lambda>_. aret (Return r)))) (never turn_answers)"
proof (rule emits_bind [OF ask_clarification_never, where B = "\<lambda>x r cs. (\<exists>e. r = Inl e) \<or> r = Inr (Return x)"], goal_cases)
  case (1 x cs)
  show ?case
    by (rule emits_bind [where A = "\<lambda>_ _. True" and B = "\<lambda>_ r cs. r = Inr (Return x)"]) (auto intro: emits_store emits_ret)
qed (auto simp: never_def)

lemma loop_turn_never: "ap_type a \<noteq> Generate_final_answer \<Longrightarrow> emits (loop_turn P R m s a) (never turn_answers)"
  using ask_turn_never retrieval_turn_never tool_turn_never never_return [OF refuse_result_never]
  by (cases "ap_type a") (simp_all add: loop_turn_def never_raise)

lemma admit_final_answer_admitted:
  "emits (admit_final_answer P s a truths ans) (answers_admitted P (\<lambda>x. an_outcome x = Answered_with_citations))"
proof -
  let ?f = "\<lambda>x. an_outcome x = Answered_with_citations"
  have judged: "emits (case pt_policy P of
              None \<Rightarrow> aret ans
            | Some p \<Rightarrow> (case pp_answer p of
                None \<Rightarrow> aret ans
              | Some f \<Rightarrow> abind (call_port (f s a ans)) (\<lambda>d. abind (log_call (Called_answer_policy a d)) (\<lambda>_.
                  if d = Allow then aret ans
                  else aret \<lparr>an_outcome = Policy_denied, an_message = lit ''The final answer was blocked by policy.'', an_recovery = []\<rparr>))))
      (answers_admitted P ?f)"
  proof (cases "answer_judged P")
    case False
    then show ?thesis
      by (auto simp: answer_judged_def answers_admitted_def admitted_def intro!: emits_ret split: option.splits)
  next
    case True
    then obtain p f where p: "pt_policy P = Some p" "pp_answer p = Some f"
      by (auto simp: answer_judged_def split: option.splits)
    have verdict: "emits (abind (log_call (Called_answer_policy a d)) (\<lambda>_.
        if d = Allow then aret ans
        else aret \<lparr>an_outcome = Policy_denied, an_message = lit ''The final answer was blocked by policy.'', an_recovery = []\<rparr>))
      (answers_admitted P ?f)" for d
      by (rule emits_bind [where A = "\<lambda>_ cs. cs = [Called_answer_policy a d]"
            and B = "\<lambda>_ r cs. cs = [] \<and> (d \<noteq> Allow \<longrightarrow> (\<exists>x. r = Inr x \<and> \<not> ?f x))"])
        (auto intro!: emits_log emits_ret simp: answers_admitted_def admitted_def)
    show ?thesis unfolding p by (simp add: p admitted_bind [OF emits_port verdict])
  qed
  show ?thesis
    unfolding admit_final_answer_def
    by (intro calm_if admitted_bind [OF ensure_budget_calm] admitted_bind [where A = "\<lambda>_ _. True"] admitted_ret judged calm_option emits_ret emits_port)
      (simp_all add: refusal_answer_def)
qed

lemma answer_turn_admitted: "emits (answer_turn P R m s a) (answers_admitted P turn_answers)"
proof -
  have final: "emits (abind (admit_final_answer P s a truths ans) (\<lambda>final.
      abind (write_memory P s final) (\<lambda>_. aret (Return (plain_result (an_outcome final) None\<lparr>rr_answer := Some final\<rparr>)))))
      (answers_admitted P turn_answers)" for truths ans
  proof (rule emits_bind [OF admit_final_answer_admitted, where B = "\<lambda>x r cs. (\<exists>e. r = Inl e)
      \<or> r = Inr (Return (plain_result (an_outcome x) None\<lparr>rr_answer := Some x\<rparr>))"], goal_cases)
    case (1 x cs)
    show ?case
      by (rule emits_bind [OF emits_any [OF write_memory_calm], where B = "\<lambda>_ r cs. r = Inr (Return (plain_result (an_outcome x) None\<lparr>rr_answer := Some x\<rparr>))"])
        (auto intro: emits_ret)
  next
    case (3 x cs r ds)
    then show ?case by (auto simp: answers_admitted_def admitted_def)
  qed (simp add: answers_admitted_def)
  have refused: "emits (abind (refuse_result P R s b) (\<lambda>r. aret (Return r))) (answers_admitted P turn_answers)" for b
    by (rule never_admitted [OF never_return [OF refuse_result_never]])
  show ?thesis
    unfolding answer_turn_def
    by (intro calm_if admitted_bind [OF calm_intros(5)] admitted_bind [OF synthesize_calm] final refused admitted_ret) simp_all
qed

lemma loop_turn_admitted: "emits (loop_turn P R m s a) (answers_admitted P turn_answers)"
proof (cases "ap_type a = Generate_final_answer")
  case True
  then show ?thesis using answer_turn_admitted by (simp add: loop_turn_def)
next
  case False
  then show ?thesis by (rule never_admitted [OF loop_turn_never])
qed

lemma run_loop_admitted: "emits (run_loop P R m s a) (answers_admitted P answers)"
proof (rule emitsI)
  fix w r w'
  assume "run_loop P R m s a w = (r, w')"
  then show "\<exists>cs. ss_calls w' = ss_calls w @ cs \<and> answers_admitted P answers r cs"
  proof (induction P R m s a w rule: run_loop.induct)
    case (1 P R m s a w)
    obtain x w1 where t: "loop_turn P R m s a w = (x, w1)" by fastforce
    from emitsD [OF loop_turn_admitted t] obtain cs where cs: "ss_calls w1 = ss_calls w @ cs"
      and ok: "answers_admitted P turn_answers x cs" by blast
    show ?case
    proof (cases "\<exists>s' b. x = Inr (Continue_with s' b)")
      case True
      then obtain s' b where x: "x = Inr (Continue_with s' b)" by blast
      then have rec: "run_loop P R m s' b w1 = (r, w')" using t "1.prems" by (simp add: run_loop.simps [of P R m s a])
      from "1.IH" [of x w1 "Continue_with s' b" s' b] t x rec
      obtain ds where "ss_calls w' = ss_calls w1 @ ds" "answers_admitted P answers r ds" by auto
      with cs show ?thesis by (auto simp: answers_admitted_def admitted_append)
    next
      case False
      with t "1.prems" ok cs show ?thesis
        by (auto simp: run_loop.simps [of P R m s a] answers_admitted_def split: sum.splits loop_step.splits)
    qed
  qed
qed

lemma run_from_admitted: "emits (run_from P R m s) (answers_admitted P answers)"
  unfolding run_from_def
  by (intro admitted_bind [OF plan_next_action_emits] calm_pair run_loop_admitted)

lemma resume_body_admitted: "emits (resume_body P R z s a) (answers_admitted P answers)"
  unfolding resume_body_def observe_denial_def Let_def
  by (intro calm_if calm_option admitted_bind [OF calm_intros(5)] admitted_bind [OF calm_intros(6)] admitted_raise admitted_ret
      admitted_bind [OF observe_through_emits] run_from_admitted) simp

lemma react_start_admitted: "emits (react_start P R q) (answers_admitted P answers)"
proof -
  have body: "emits (start_body P R q) (answers_admitted P answers)"
  proof -
    have run: "emits (case p of Inl r \<Rightarrow> aret r | Inr s \<Rightarrow> run_from P R (sq_max_rounds q) s) (answers_admitted P answers)"
      if "\<forall>r. p = Inl r \<longrightarrow> \<not> answers r" for p
      using that by (cases p) (simp_all add: admitted_ret run_from_admitted)
    have tail: "emits (abind m (\<lambda>r. abind (ensure_budget P) (\<lambda>_. aret r))) (answers_admitted P answers)"
      if "emits m (answers_admitted P answers)" for m
      by (rule emits_bind [OF that, where B = "\<lambda>x r cs. (\<exists>e. r = Inl e) \<or> r = Inr x"])
        (auto intro!: emits_bind [OF ensure_budget_calm, where B = "\<lambda>_ r cs. r = Inr x" for x] emits_ret
          simp: answers_admitted_def admitted_def)
    have failed: "emits (prepare_or_fail P R s) (\<lambda>r cs. \<forall>x. r = Inr (Inl x) \<longrightarrow> \<not> answers x)" for s
    proof (rule emitsI)
      fix w r w'
      assume run: "prepare_or_fail P R s w = (r, w')"
      from emitsD [OF prepare_or_fail_emits run] obtain cs where "ss_calls w' = ss_calls w @ cs" by blast
      moreover have "\<forall>x. r = Inr (Inl x) \<longrightarrow> \<not> answers x"
        using run by (auto simp: prepare_or_fail_def split: prod.splits sum.splits react_error.splits if_splits)
      ultimately show "\<exists>cs. ss_calls w' = ss_calls w @ cs \<and> (\<forall>x. r = Inr (Inl x) \<longrightarrow> \<not> answers x)" by blast
    qed
    show ?thesis
      unfolding start_body_def
    proof (intro admitted_bind [OF ensure_budget_calm], rule emits_bind [OF failed, where B = "\<lambda>_. answers_admitted P answers"], goal_cases)
      case (1 x p cs)
      then show ?case by (intro tail run) simp
    qed (auto simp: answers_admitted_def admitted_append)
  qed
  have caught: "emits (catch_budget (start_body P R q)) (answers_admitted P answers)"
  proof (rule emitsI)
    fix w r w'
    assume run: "catch_budget (start_body P R q) w = (r, w')"
    obtain x where x: "start_body P R q w = (x, w')"
      using run by (cases "start_body P R q w") (auto simp: catch_budget_def split: sum.splits react_error.splits)
    from emitsD [OF body x] run x
    show "\<exists>cs. ss_calls w' = ss_calls w @ cs \<and> answers_admitted P answers r cs"
      by (auto simp: catch_budget_def answers_admitted_def admitted_def split: sum.splits react_error.splits)
  qed
  show ?thesis
    unfolding react_start_def
    by (rule admitted_bind [where A = "\<lambda>_ _. True", OF _ caught]) (auto intro: emits_ret emits_port split: option.splits)
qed

end
