(* ===== verification/React_Evidence.thy ===== *)
theory React_Evidence
  imports React_Runs
begin

text \<open>
  What the observations of a run rest on: every record refers to a truth of the store that is bound
  to its content, the loop keeps this, and an answer is returned only when every required
  retrieval has verified evidence.
\<close>

subsection \<open>Lists of fallible results\<close>

lemma all_or_error_zip:
  "all_or_error f xs = Inr ys \<Longrightarrow> length ys = length xs \<and> (\<forall>(x, y) \<in> set (zip xs ys). f x = Inr y)"
  by (induction xs arbitrary: ys) auto

lemma all_or_error_Inl: "all_or_error f xs = Inl e \<Longrightarrow> \<exists>x \<in> set xs. f x = Inl e"
  by (induction xs) (auto simp: rbind_Inl_iff)

lemma map_of_dict_put: "map_of (dict_put fst (k, v) d) r = (if r = k then Some v else map_of d r)"
  by (induction d) auto

subsection \<open>Grounded observations\<close>

text \<open>The truth that a record refers to is in the store, and its content binds the reference.\<close>

definition grounded_record :: "truth_codec \<Rightarrow> truth_store \<Rightarrow> observation \<Rightarrow> bool" where
  "grounded_record C S o1 \<longleftrightarrow> (case load_truth (ob_ref o1) S of
       Inl _ \<Rightarrow> False
     | Inr t \<Rightarrow> (case require_bound_truth C t of Inl _ \<Rightarrow> False | Inr b \<Rightarrow> tb_ref b = ob_ref o1))"

definition grounded :: "truth_codec \<Rightarrow> react_state \<Rightarrow> truth_store \<Rightarrow> bool" where
  "grounded C s S \<longleftrightarrow> list_all (grounded_record C S) (st_observations s)"

lemma verify_stored_grounded:
  "verify_stored_truth C t ref S = Inr u \<Longrightarrow> ob_ref o1 = ref \<Longrightarrow> grounded_record C S o1"
  by (auto simp: verify_stored_truth_def grounded_record_def split: if_splits)

lemma load_dict_put:
  "load_truth r (S\<lparr>ts_truths := dict_put fst (k, t) (ts_truths S), ts_bases := B\<rparr>)
     = (if r = k then Inr t else load_truth r S)"
  by (simp add: load_truth_def map_of_dict_put)

lemma save_truth_load:
  assumes "save_truth C t S = Inr (ref, S')"
  shows "(r = ref \<and> (\<exists>b. require_bound_truth C t = Inr b \<and> load_truth r S' = Inr (tb_truth b))) \<or> (r \<noteq> ref \<and> load_truth r S' = load_truth r S)"
  using assms by (auto simp: save_truth_def load_dict_put split: option.splits if_splits)

lemma save_truth_grounded:
  assumes "save_truth C t S = Inr (ref, S')" and "verify_stored_truth C t' ref S' = Inr u" and "grounded_record C S o1"
  shows "grounded_record C S' o1"
proof (cases "ob_ref o1 = ref")
  case True
  with assms(2) show ?thesis by (rule verify_stored_grounded)
next
  case False
  with save_truth_load [OF assms(1), of "ob_ref o1"] have "load_truth (ob_ref o1) S' = load_truth (ob_ref o1) S" by simp
  with assms(3) show ?thesis by (simp add: grounded_record_def)
qed

text \<open>A commit that is not a repetition records one observation and stores its truth.\<close>

lemma commit_observationE:
  assumes "commit_observation C s a e i S = Inr (s1, p, S1)"
  obtains (repeated) "s1 = s" and "S1 = S"
    | (recorded) b :: truth_binding and r :: observation where "record_observation s a r = Inr s1" and "ob_ref r = tb_ref b"
        and "save_truth C (tb_truth b) S = Inr (tb_ref b, S1)" and "verify_stored_truth C (tb_truth b) (tb_ref b) S1 = Inr ()"
proof -
  obtain summary b where b: "bind_observation_truth C (ef_truth e) = Inr b"
    and rest: "(let r = (ef_record e)\<lparr>ob_summary := summary, ob_ref := tb_ref b\<rparr> in
       case find (\<lambda>x. ob_id x = ob_id r \<and> ob_action x = ob_action r) (st_observations s) of
         Some x \<Rightarrow>
           if ob_ref x \<noteq> tb_ref b
           then Inl (Run_value_error ''conflicting observation payload for committed observation identity'')
           else rbind (verify_stored_truth C (tb_truth b) (tb_ref b) S) (\<lambda>_. Inr (s, trace_projection x e, S))
       | None \<Rightarrow>
           rbind (record_observation s a r) (\<lambda>s'.
           rbind (save_truth C (tb_truth b) S) (\<lambda>(saved, S').
             if saved \<noteq> tb_ref b then Inl (Run_value_error ''truth store returned a mismatched truth_ref'')
             else rbind (verify_stored_truth C (tb_truth b) (tb_ref b) S') (\<lambda>_.
               Inr (s', trace_projection r e, S'))))) = Inr (s1, p, S1)"
    using assms unfolding commit_observation_def by auto
  let ?r = "(ef_record e)\<lparr>ob_summary := summary, ob_ref := tb_ref b\<rparr>"
  show ?thesis
  proof (cases "find (\<lambda>x. ob_id x = ob_id ?r \<and> ob_action x = ob_action ?r) (st_observations s)")
    case (Some x)
    with rest have "s1 = s" "S1 = S" by (simp_all add: Let_def split: if_splits)
    then show ?thesis by (rule repeated)
  next
    case None
    with rest obtain s' saved S' where "record_observation s a ?r = Inr s'" "save_truth C (tb_truth b) S = Inr (saved, S')"
      and "(if saved \<noteq> tb_ref b then Inl (Run_value_error ''truth store returned a mismatched truth_ref'')
         else rbind (verify_stored_truth C (tb_truth b) (tb_ref b) S') (\<lambda>_. Inr (s', trace_projection ?r e, S'))) = Inr (s1, p, S1)"
      by (simp add: Let_def)
    then show ?thesis by (intro recorded [of ?r b]) (auto split: if_splits)
  qed
qed

text \<open>A commit appends at most one record, and grounds it.\<close>

lemma commit_effect_grounded:
  assumes "commit_effect C s a e i S = Inr (s', S')" and "grounded C s S"
  shows "grounded C s' S' \<and> st_intent s' = st_intent s \<and> (\<exists>os. st_observations s' = st_observations s @ os \<and> length os \<le> 1)"
proof -
  obtain s1 p S1 where commit: "commit_observation C s a e i S = Inr (s1, p, S1)"
    and s': "st_observations s' = st_observations s1" "S' = S1" "st_intent s' = st_intent s1"
    using assms(1) by (auto simp: commit_effect_def Let_def split: if_splits)
  show ?thesis using commit
  proof (cases rule: commit_observationE)
    case repeated
    with s' assms(2) show ?thesis by (simp add: grounded_def)
  next
    case (recorded b r)
    have obs: "st_intent s1 = st_intent s" "st_observations s1 = st_observations s \<or> st_observations s1 = st_observations s @ [r]"
      using recorded(1) by (auto simp: record_observation_def split: if_splits)
    have kept: "list_all (grounded_record C S1) (st_observations s)"
      using assms(2) save_truth_grounded [OF recorded(3,4)] by (auto simp: grounded_def list_all_iff)
    have "grounded_record C S1 r" by (rule verify_stored_grounded [OF recorded(4,2)])
    with obs kept s' show ?thesis by (auto simp: grounded_def)
  qed
qed

text \<open>With grounded records, loading the truths of the records fails only when a record contradicts its truth.\<close>

lemma answer_truths_grounded:
  assumes "grounded (ru_truths R) s S" and "answer_truths R s S = Inl e"
  shows "\<exists>o1 \<in> set (st_observations s). \<exists>t. record_matches_truth o1 t = Inl e"
proof -
  let ?f = "\<lambda>o1. rbind (load_truth (ob_ref o1) S) (\<lambda>t. rbind (require_bound_truth (ru_truths R) t) (\<lambda>b.
      if tb_ref b \<noteq> ob_ref o1 then Inl (Run_value_error ''truth store loaded a mismatched truth_ref'') else Inr (tb_truth b)))"
  have loads: "?f o1 \<noteq> Inl e'" if "o1 \<in> set (st_observations s)" for o1 e'
  proof -
    have "grounded_record (ru_truths R) S o1" using assms(1) that by (simp add: grounded_def list_all_iff)
    then obtain t b where "load_truth (ob_ref o1) S = Inr t" "require_bound_truth (ru_truths R) t = Inr b" "tb_ref b = ob_ref o1"
      by (auto simp: grounded_record_def split: sum.splits)
    then show ?thesis by simp
  qed
  then obtain truths where "all_or_error ?f (st_observations s) = Inr truths"
    by (cases "all_or_error ?f (st_observations s)") (auto dest: all_or_error_Inl)
  with assms(2) have "all_or_error (\<lambda>(o1, t). record_matches_truth o1 t) (zip (st_observations s) truths) = Inl e"
    by (simp add: answer_truths_def rbind_Inl_iff)
  from all_or_error_Inl [OF this] show ?thesis by (auto dest: set_zip_leftD)
qed

subsection \<open>Effects that leave the store alone\<close>

definition quiet :: "('w, 'a) act \<Rightarrow> ('a \<Rightarrow> bool) \<Rightarrow> bool" where
  "quiet m Q \<longleftrightarrow> (\<forall>w r w'. m w = (r, w') \<longrightarrow> ss_store w' = ss_store w \<and> (\<forall>x. r = Inr x \<longrightarrow> Q x))"

lemma quiet_bind: "quiet m A \<Longrightarrow> (\<And>x. A x \<Longrightarrow> quiet (g x) Q) \<Longrightarrow> quiet (abind m g) Q"
  unfolding quiet_def abind_def by (fastforce split: prod.splits sum.splits)

lemma quiet_any: "quiet m (\<lambda>_. True) \<Longrightarrow> (\<And>x. quiet (g x) Q) \<Longrightarrow> quiet (abind m g) Q"
  by (rule quiet_bind)

lemma quiet_ret: "Q x \<Longrightarrow> quiet (aret x) Q"
  by (simp add: quiet_def aret_def)

lemma quiet_raise: "quiet (araise e) Q"
  by (simp add: quiet_def araise_def)

lemma quiet_lift: "(\<And>x. r = Inr x \<Longrightarrow> Q x) \<Longrightarrow> quiet (alift r) Q"
  by (simp add: quiet_def alift_def)

lemma quiet_simple: "quiet (log_call c) (\<lambda>_. True)" "quiet (call_port p) (\<lambda>_. True)" "quiet (with_store f) (\<lambda>_. True)"
    "quiet current_plan (\<lambda>_. True)" "quiet (ensure_budget P) (\<lambda>_. True)"
  by (auto simp: quiet_def log_call_def call_port_def with_store_def current_plan_def ensure_budget_def aret_def
      split: prod.splits option.splits)

lemma quiet_option: "(x = None \<Longrightarrow> quiet m Q) \<Longrightarrow> (\<And>a. x = Some a \<Longrightarrow> quiet (f a) Q) \<Longrightarrow> quiet (case x of None \<Rightarrow> m | Some a \<Rightarrow> f a) Q"
  by (cases x) simp_all

lemma quiet_if: "(b \<Longrightarrow> quiet m Q) \<Longrightarrow> (\<not> b \<Longrightarrow> quiet n Q) \<Longrightarrow> quiet (if b then m else n) Q"
  by simp

lemmas quiet_intros = quiet_option quiet_if quiet_any [OF quiet_simple(1)] quiet_any [OF quiet_simple(2)]
  quiet_any [OF quiet_simple(3)] quiet_any [OF quiet_simple(4)] quiet_any [OF quiet_simple(5)] quiet_raise quiet_ret

lemma memory_policy_quiet: "quiet (memory_policy P s c) (\<lambda>_. True)"
  unfolding memory_policy_def by (intro quiet_intros) simp_all

lemma write_memory_quiet: "quiet (write_memory P s ans) (\<lambda>_. True)"
  unfolding write_memory_def by (intro quiet_intros quiet_any [OF memory_policy_quiet]) simp_all

lemma refuse_result_quiet: "quiet (refuse_result P R s a) (\<lambda>_. True)"
  unfolding refuse_result_def Let_def by (intro quiet_intros quiet_any [OF write_memory_quiet]) simp_all

lemma ask_clarification_quiet: "quiet (ask_clarification P a) (\<lambda>_. True)"
  unfolding ask_clarification_def Let_def by (intro quiet_intros) simp_all

lemma pause_quiet: "quiet (pause_for_approval P R s a) (\<lambda>_. True)"
  unfolding pause_for_approval_def Let_def by (intro quiet_intros quiet_any [OF quiet_lift]) simp_all

lemma synthesize_quiet: "quiet (synthesize P s a truths) (\<lambda>_. True)"
  unfolding synthesize_def
  by (intro quiet_any [of "case pt_assurance P of None \<Rightarrow> aret True | Some pol \<Rightarrow> f pol" for f] quiet_intros quiet_simple) simp_all

lemma admit_final_answer_quiet: "quiet (admit_final_answer P s a truths ans) (\<lambda>_. True)"
  unfolding admit_final_answer_def
  by (intro quiet_any [of "case pt_assurance P of None \<Rightarrow> aret True | Some pol \<Rightarrow> f pol" for f] quiet_intros quiet_simple) simp_all

lemma review_denies_quiet: "quiet (review_denies P s a) (\<lambda>_. True)"
  unfolding review_denies_def by (intro quiet_intros) simp_all

lemma tool_policy_quiet: "quiet (tool_policy P s a) (\<lambda>_. True)"
  unfolding tool_policy_def by (intro quiet_intros) simp_all

lemma plan_next_action_quiet:
  "quiet (plan_next_action P R m s) (\<lambda>(s', a). st_observations s' = st_observations s \<and> st_intent s' = st_intent s)"
proof -
  have scope: "quiet (case pt_scope P of None \<Rightarrow> aret None
      | Some f \<Rightarrow> abind (call_port (f s)) (\<lambda>sc. abind (log_call Called_scope) (\<lambda>_. aret (Some sc)))) (\<lambda>_. True)"
    by (intro quiet_intros) simp_all
  have prepared: "quiet (prepare_plan_state P R m s) (\<lambda>s'. st_observations s' = st_observations s \<and> st_intent s' = st_intent s)"
    unfolding prepare_plan_state_def Let_def by (intro quiet_intros quiet_any [OF scope]) simp
  have planner: "quiet (case c of Some a \<Rightarrow> aret a
      | None \<Rightarrow> abind (call_port (pt_planner P s1)) (\<lambda>a. abind (log_call Called_planner) (\<lambda>_. aret a))) (\<lambda>_. True)" for c s1
    by (cases c) (auto intro: quiet_intros)
  show ?thesis
    unfolding plan_next_action_def
    by (rule quiet_bind [OF prepared], intro quiet_intros quiet_any [OF planner] quiet_any [OF quiet_lift]) simp_all
qed

subsection \<open>Turns keep the observations grounded\<close>

definition extends :: "truth_codec \<Rightarrow> react_state \<Rightarrow> react_state \<Rightarrow> truth_store \<Rightarrow> bool" where
  "extends C s s' S' \<longleftrightarrow> grounded C s' S' \<and> st_intent s' = st_intent s \<and> (\<exists>os. st_observations s' = st_observations s @ os \<and> length os \<le> 1)"

text \<open>From a grounded state, what \<open>f\<close> finds in the result extends it.\<close>

definition grows :: "truth_codec \<Rightarrow> react_state \<Rightarrow> ('w, 'a) act \<Rightarrow> ('a \<Rightarrow> react_state option) \<Rightarrow> bool" where
  "grows C s m f \<longleftrightarrow> (\<forall>w r w' x s'. m w = (r, w') \<longrightarrow> grounded C s (ss_store w) \<longrightarrow> r = Inr x \<longrightarrow> f x = Some s' \<longrightarrow> extends C s s' (ss_store w'))"

fun continued :: "loop_step \<Rightarrow> react_state option" where
  "continued (Return r) = None"
| "continued (Continue_with s a) = Some s"

definition same_observations :: "react_state \<Rightarrow> ('a \<Rightarrow> react_state option) \<Rightarrow> 'a \<Rightarrow> bool" where
  "same_observations s f x \<longleftrightarrow> (\<forall>s'. f x = Some s' \<longrightarrow> st_observations s' = st_observations s \<and> st_intent s' = st_intent s)"

lemma grounded_cong: "st_observations s' = st_observations s \<Longrightarrow> grounded C s' S = grounded C s S"
  by (simp add: grounded_def)

lemma grows_quiet: "quiet m (same_observations s f) \<Longrightarrow> grows C s m f"
  by (auto simp: quiet_def grows_def same_observations_def extends_def grounded_def)

lemma grows_after_quiet:
  assumes "quiet m A" and "\<And>x. A x \<Longrightarrow> grows C s (g x) f"
  shows "grows C s (abind m g) f"
  unfolding grows_def
proof (intro allI impI)
  fix w r w' x s'
  assume run: "abind m g w = (r, w')" and pre: "grounded C s (ss_store w)" and r: "r = Inr x" "f x = Some s'"
  obtain y w1 where m: "m w = (y, w1)" by fastforce
  with run r obtain z where y: "y = Inr z" and rest: "g z w1 = (Inr x, w')"
    by (cases y) (auto simp: abind_def)
  have "ss_store w1 = ss_store w" "A z" using assms(1) m y by (auto simp: quiet_def)
  with assms(2) [of z] rest pre r show "extends C s s' (ss_store w')" by (auto simp: grows_def)
qed

lemma grows_then_quiet:
  assumes "grows C s m Some" and "\<And>s1. quiet (g s1) (same_observations s1 f)"
  shows "grows C s (abind m g) f"
  unfolding grows_def
proof (intro allI impI)
  fix w r w' x s'
  assume run: "abind m g w = (r, w')" and g: "grounded C s (ss_store w)" and r: "r = Inr x" "f x = Some s'"
  obtain y w1 where m: "m w = (y, w1)" by fastforce
  with run r obtain s1 where y: "y = Inr s1" and next_run: "g s1 w1 = (Inr x, w')"
    by (cases y) (auto simp: abind_def)
  have "extends C s s1 (ss_store w1)" using assms(1) m g y by (auto simp: grows_def)
  moreover have "ss_store w' = ss_store w1" "st_observations s' = st_observations s1" "st_intent s' = st_intent s1"
    using assms(2) [of s1] next_run r(2) by (auto simp: quiet_def same_observations_def)
  ultimately show "extends C s s' (ss_store w')" by (simp add: extends_def grounded_cong [of s' s1])
qed

lemma grows_cong: "st_observations s1 = st_observations s \<Longrightarrow> st_intent s1 = st_intent s \<Longrightarrow> grows C s1 m f = grows C s m f"
  by (simp add: grows_def extends_def grounded_cong [of s1 s])

lemma grows_option: "(x = None \<Longrightarrow> grows C s m Q) \<Longrightarrow> (\<And>a. x = Some a \<Longrightarrow> grows C s (f a) Q) \<Longrightarrow> grows C s (case x of None \<Rightarrow> m | Some a \<Rightarrow> f a) Q"
  by (cases x) simp_all

lemma grows_if: "(b \<Longrightarrow> grows C s m Q) \<Longrightarrow> (\<not> b \<Longrightarrow> grows C s n Q) \<Longrightarrow> grows C s (if b then m else n) Q"
  by simp

lemma grows_update:
  "grows (ru_truths R) s (update_store (commit_effect (ru_truths R) s a e i)) Some"
  unfolding grows_def
proof (intro allI impI)
  fix w r w' x s'
  assume "update_store (commit_effect (ru_truths R) s a e i) w = (r, w')" "grounded (ru_truths R) s (ss_store w)" "r = Inr x" "Some x = Some s'"
  then show "extends (ru_truths R) s s' (ss_store w')"
    using commit_effect_grounded [of "ru_truths R" s a e i "ss_store w" s']
    by (auto simp: update_store_def extends_def split: sum.splits)
qed

lemma observe_through_grows: "grows (ru_truths R) s (observe_through R f c s a) Some"
  unfolding observe_through_def Let_def
  by (intro grows_after_quiet [OF quiet_simple(1)] grows_after_quiet [OF quiet_simple(2)] grows_update)

lemma observing_state_grows: "grows C (observing_state s as) m f = grows C s m f"
  by (rule grows_cong) (simp_all add: observing_state_def)

lemma observe_knowledge_grows: "grows (ru_truths R) s (observe_knowledge P R s a) Some"
  unfolding observe_knowledge_def
  using observe_through_grows [of R "observing_state s [a]"]
  by (intro grows_option grows_quiet [OF quiet_raise]) (simp add: observing_state_grows)

lemma observe_tool_grows: "grows (ru_truths R) s (observe_tool P R s a) Some"
  unfolding observe_tool_def
  using observe_through_grows [of R "observing_state s [a]"]
  by (intro grows_option grows_if grows_quiet [OF quiet_raise] grows_after_quiet [OF quiet_simple(3)])
    (simp add: observing_state_grows)

lemma continue_planning_quiet: "quiet (continue_planning P R m s) (same_observations s continued)"
  unfolding continue_planning_def
  by (rule quiet_bind [OF plan_next_action_quiet]) (auto intro: quiet_ret simp: same_observations_def)

lemma returned_quiet: "quiet m (\<lambda>_. True) \<Longrightarrow> quiet (abind m (\<lambda>r. aret (Return r))) (same_observations s continued)"
  by (erule quiet_any) (simp add: quiet_ret same_observations_def)

lemma return_quiet: "quiet (aret (Return r)) (same_observations s continued)"
  by (simp add: quiet_ret same_observations_def)

lemma answer_turn_quiet: "quiet (answer_turn P R m s a) (same_observations s continued)"
  unfolding answer_turn_def
  by (intro quiet_if return_quiet quiet_any [OF quiet_simple(3)] returned_quiet refuse_result_quiet
      quiet_any [OF synthesize_quiet] quiet_any [OF admit_final_answer_quiet] quiet_any [OF write_memory_quiet])
    (simp_all add: quiet_ret same_observations_def)

lemma retrieval_turn_grows: "grows (ru_truths R) s (retrieval_turn P R m s a) continued"
  unfolding retrieval_turn_def
  by (intro grows_after_quiet [OF review_denies_quiet] grows_if grows_quiet [OF quiet_any [OF quiet_simple(3) return_quiet]]
      grows_then_quiet [OF observe_knowledge_grows continue_planning_quiet])

lemma tool_turn_grows: "grows (ru_truths R) s (tool_turn P R m s a) continued"
proof -
  have bound: "grows (ru_truths R) s (abind (tool_policy P s1 b) (\<lambda>d.
          if d = Deny
          then abind (with_store (task_completion R s1)) (\<lambda>_. aret (Return (plain_result Tool_approval_denied (Some (lit ''policy_denied'')))))
          else if d = Allow then abind (observe_tool P R s1 b) (continue_planning P R m)
          else abind (pause_for_approval P R s1 b) (\<lambda>r. aret (Return r)))) continued"
    if "st_observations s1 = st_observations s \<and> st_intent s1 = st_intent s" for s1 b
    unfolding grows_cong [OF conjunct1 [OF that] conjunct2 [OF that], symmetric]
    by (intro grows_after_quiet [OF tool_policy_quiet] grows_if grows_quiet [OF quiet_any [OF quiet_simple(3) return_quiet]]
        grows_then_quiet [OF observe_tool_grows continue_planning_quiet] grows_quiet [OF returned_quiet [OF pause_quiet]])
  have lifted: "quiet (alift (bind_tool_proposal R s a)) (\<lambda>(s1, b). st_observations s1 = st_observations s \<and> st_intent s1 = st_intent s)"
    by (rule quiet_lift) (auto simp: bind_tool_proposal_def split: option.splits)
  have proposed: "grows (ru_truths R) s (abind (alift (bind_tool_proposal R s a)) (\<lambda>(s1, b). abind (tool_policy P s1 b) (\<lambda>d.
          if d = Deny
          then abind (with_store (task_completion R s1)) (\<lambda>_. aret (Return (plain_result Tool_approval_denied (Some (lit ''policy_denied'')))))
          else if d = Allow then abind (observe_tool P R s1 b) (continue_planning P R m)
          else abind (pause_for_approval P R s1 b) (\<lambda>r. aret (Return r))))) continued"
    by (rule grows_after_quiet [OF lifted]) (auto intro: bound)
  show ?thesis
    unfolding tool_turn_def Let_def
    by (intro grows_if grows_quiet [OF quiet_any [OF quiet_simple(3) return_quiet]] grows_quiet [OF returned_quiet [OF ask_clarification_quiet]]
        proposed)
qed

lemma loop_turn_grows: "grows (ru_truths R) s (loop_turn P R m s a) continued"
proof (cases "ap_type a")
  case Refuse
  then show ?thesis by (simp add: loop_turn_def grows_quiet [OF returned_quiet [OF refuse_result_quiet]])
next
  case Ask_clarification
  then show ?thesis
    by (simp add: loop_turn_def grows_quiet [OF quiet_any [OF ask_clarification_quiet quiet_any [OF quiet_simple(3) return_quiet]]])
qed (auto simp: loop_turn_def intro: retrieval_turn_grows tool_turn_grows grows_quiet answer_turn_quiet quiet_raise)

subsection \<open>States of the loop\<close>

inductive loop_reaches ::
  "'w ports \<Rightarrow> react_rules \<Rightarrow> int \<Rightarrow> react_state \<Rightarrow> proposal \<Rightarrow> 'w session \<Rightarrow> react_state \<Rightarrow> proposal \<Rightarrow> 'w session \<Rightarrow> bool"
  for P R m s a w where
  start: "loop_reaches P R m s a w s a w"
| turn: "loop_reaches P R m s a w s1 a1 w1 \<Longrightarrow> loop_turn P R m s1 a1 w1 = (Inr (Continue_with s2 a2), w2)
     \<Longrightarrow> loop_reaches P R m s a w s2 a2 w2"

lemma loop_reaches_first:
  assumes "loop_turn P R m s a w = (Inr (Continue_with s1 a1), w1)" and "loop_reaches P R m s1 a1 w1 s2 a2 w2"
  shows "loop_reaches P R m s a w s2 a2 w2"
  using assms(2)
proof (induction rule: loop_reaches.induct)
  case start
  show ?case by (rule loop_reaches.turn [OF loop_reaches.start assms(1)])
qed (rule loop_reaches.turn)

lemma loop_reaches_grounded:
  assumes "loop_reaches P R m s a w s1 a1 w1" and "grounded (ru_truths R) s (ss_store w)"
  shows "grounded (ru_truths R) s1 (ss_store w1) \<and> st_intent s1 = st_intent s \<and> prefix (st_observations s) (st_observations s1)"
  using assms(1)
proof (induction rule: loop_reaches.induct)
  case start
  with assms(2) show ?case by simp
next
  case (turn s1 a1 w1 s2 a2 w2)
  then have "extends (ru_truths R) s1 s2 (ss_store w2)"
    using loop_turn_grows [of R s1 P m a1] by (auto simp: grows_def)
  with turn.IH show ?case by (auto simp: extends_def)
qed

text \<open>A run of the loop ends with a turn in a reached state.\<close>

lemma run_loop_last_turn:
  assumes "run_loop P R m s a w = (Inr result, w')"
  shows "\<exists>s1 a1 w1. loop_reaches P R m s a w s1 a1 w1 \<and> loop_turn P R m s1 a1 w1 = (Inr (Return result), w')"
  using assms
proof (induction P R m s a w rule: run_loop.induct)
  case (1 P R m s a w)
  obtain x w1 where t: "loop_turn P R m s a w = (x, w1)" by fastforce
  show ?case
  proof (cases "\<exists>s' b. x = Inr (Continue_with s' b)")
    case True
    then obtain s' b where x: "x = Inr (Continue_with s' b)" by blast
    then have "run_loop P R m s' b w1 = (Inr result, w')" using t "1.prems" by (simp add: run_loop.simps [of P R m s a])
    with "1.IH" [of x w1 "Continue_with s' b" s' b] t x
    obtain s2 a2 w2 where "loop_reaches P R m s' b w1 s2 a2 w2" "loop_turn P R m s2 a2 w2 = (Inr (Return result), w')" by auto
    with t x show ?thesis by (blast intro: loop_reaches_first)
  next
    case False
    with t "1.prems" have "loop_turn P R m s a w = (Inr (Return result), w')"
      by (auto simp: run_loop.simps [of P R m s a] split: sum.splits loop_step.splits)
    then show ?thesis by (blast intro: loop_reaches.start)
  qed
qed

subsection \<open>Evidence of required retrievals\<close>

text \<open>The record is a retrieval of the query, with accepted evidence that record and truth cite.\<close>

definition evidence_for :: "truth_codec \<Rightarrow> truth_store \<Rightarrow> observation \<Rightarrow> utext \<Rightarrow> bool" where
  "evidence_for C S o1 q \<longleftrightarrow> (\<exists>t b r chunk k. load_truth (ob_ref o1) S = Inr t \<and> require_bound_truth C t = Inr b \<and> tb_ref b = ob_ref o1
     \<and> tb_truth b = Retrieval_truth r \<and> observed_query o1 (Retrieval_truth r) = Some q
     \<and> chunk \<in> set (rt_accepted r) \<and> ec_status chunk = Accepted \<and> ec_source chunk \<in> set (ob_sources o1)
     \<and> ec_citation chunk = Some k \<and> k \<in> set (ob_citations o1) \<and> k \<in> set (rt_citations r))"

lemma answer_truths_zip:
  assumes "answer_truths R s S = Inr truths" and "(o1, t) \<in> set (zip (st_observations s) truths)"
  shows "\<exists>t0 b. load_truth (ob_ref o1) S = Inr t0 \<and> require_bound_truth (ru_truths R) t0 = Inr b \<and> tb_ref b = ob_ref o1 \<and> t = tb_truth b"
proof -
  have "all_or_error (\<lambda>o1. rbind (load_truth (ob_ref o1) S) (\<lambda>t. rbind (require_bound_truth (ru_truths R) t) (\<lambda>b.
      if tb_ref b \<noteq> ob_ref o1 then Inl (Run_value_error ''truth store loaded a mismatched truth_ref'')
      else Inr (tb_truth b)))) (st_observations s) = Inr truths"
    using assms(1) by (auto simp: answer_truths_def)
  from conjunct2 [OF all_or_error_zip [OF this]] assms(2) show ?thesis by (fastforce split: if_splits)
qed

lemma completion_support:
  assumes "assess_retrieval_completion T binding run requirements records truths question optional = Inr c"
    and "completion_complete c" and "q \<in> set requirements"
  shows "\<exists>o1 t. (o1, t) \<in> set (zip records truths) \<and> observed_query o1 t = Some (rq_text q) \<and> observed_support o1 t"
proof -
  let ?admitted = "filter (\<lambda>(o1, t). observed_query o1 t \<noteq> None) (zip records truths)"
  let ?support = "\<lambda>q. filter (\<lambda>(o1, t). observed_query o1 t = Some (rq_text q) \<and> observed_support o1 t) ?admitted"
  define found where "found = (\<lambda>q::required_retrieval. dict_fromkeys (map (\<lambda>(o1, t). ob_ref o1) (?support q)))"
  have "map pg_support (cp_requirements c) = map found requirements"
    using assms(1) by (auto simp: assess_retrieval_completion_def found_def Let_def simp del: filter_filter split: if_splits)
  moreover have "[] \<notin> set (map pg_support (cp_requirements c))"
    using assms(2) by (auto simp: completion_complete_def list_all_iff)
  ultimately have "found q \<noteq> []" using assms(3) by (metis imageI list.set_map)
  then have "dict_fromkeys (map (\<lambda>(o1, t). ob_ref o1) (?support q)) \<noteq> []" by (simp only: found_def not_False_eq_True)
  then have "?support q \<noteq> []" by auto
  then show ?thesis by (auto simp: filter_empty_conv)
qed

lemma answering_turn_evidence:
  assumes "loop_turn P R m s a w = (Inr (Return result), w')" and "rr_outcome result = Answered_with_citations"
    and "required_retrievals (ru_text R) (st_intent s) = Inr requirements" and "q \<in> set requirements"
  shows "\<exists>o1 \<in> set (st_observations s). evidence_for (ru_truths R) (ss_store w) o1 (rq_text q)"
proof -
  have "ap_type a = Generate_final_answer"
    using emitsD [OF loop_turn_never assms(1)] assms(2) by (cases "ap_type a = Generate_final_answer") (auto simp: never_def answers_def)
  then have turn: "answer_turn P R m s a w = (Inr (Return result), w')" using assms(1) by (simp add: loop_turn_def)
  moreover have "\<not> answer_blocked_by_denied_tool s"
    using turn assms(2) by (auto simp: answer_turn_def aret_def plain_result_def)
  moreover obtain truths completion where truths: "answer_truths R s (ss_store w) = Inr truths"
    and completion: "task_completion R s (ss_store w) = Inr completion"
    using calculation by (auto simp: answer_turn_def abind_def with_store_def split: sum.splits)
  moreover have "completion = None \<or> completion_complete (the completion)"
  proof (rule ccontr)
    assume incomplete: "\<not> ?thesis"
    then have "abind (refuse_result P R s (incomplete_refusal a ''requirements_unsatisfied'')) (\<lambda>r. aret (Return r)) w = (Inr (Return result), w')"
      using calculation by (simp add: answer_turn_def abind_def with_store_def)
    from emitsD [OF never_return [OF refuse_result_never] this] assms(2) show False by (auto simp: never_def answers_def)
  qed
  moreover have "requirements \<noteq> []" using assms(4) by auto
  ultimately obtain c where "completion = Some c" "completion_complete c"
      and assess: "assess_retrieval_completion (ru_text R) (truth_identity R) (st_run s) requirements (st_observations s) truths
                  (st_question s) (optional_queries (st_intent s)) = Inr c"
    using assms(3) by (auto simp: task_completion_def)
  from completion_support [OF assess this(2) assms(4)] obtain o1 t where pair: "(o1, t) \<in> set (zip (st_observations s) truths)"
    and query: "observed_query o1 t = Some (rq_text q)" and support: "observed_support o1 t" by blast
  from answer_truths_zip [OF truths pair] obtain t0 b where "load_truth (ob_ref o1) (ss_store w) = Inr t0"
    "require_bound_truth (ru_truths R) t0 = Inr b" "tb_ref b = ob_ref o1" "t = tb_truth b" by blast
  with query support have "evidence_for (ru_truths R) (ss_store w) o1 (rq_text q)"
    by (fastforce simp: evidence_for_def observed_support_def list_ex_iff chunk_supports_def chunk_cited_def
        split: truth.splits option.splits)
  with pair show ?thesis by (auto dest: set_zip_leftD)
qed

end
