(* ===== verification/React_Properties.thy ===== *)
theory React_Properties
  imports React_Evidence
begin

text \<open>
  Properties of the policy review and of the controlled ReAct loop, with a concrete run for the
  witnesses: a retrieval, a tool call, an answer and a memory write.
\<close>

subsection \<open>A concrete run\<close>

definition demo_text_rules :: text_rules where
  "demo_text_rules = \<lparr>tr_sha = (\<lambda>t. t), tr_missing = (\<lambda>_ _. []), tr_irrelevant = (\<lambda>_ _. False)\<rparr>"

definition demo_rules :: react_rules where
  "demo_rules = \<lparr>ru_text = demo_text_rules, ru_truths = \<lparr>tc_digest = (\<lambda>_ _. replicate 64 48), tc_canonical = truth_observation\<rparr>,
     ru_plan_digest = (\<lambda>_ _ _ _ _. replicate 64 CHR ''0''), ru_digest = (\<lambda>d. lit ''digest''), ru_requirements = (\<lambda>_. []),
     ru_snapshot_digest = (\<lambda>_. replicate 64 48), ru_snapshot_canonical = sn_id, ru_pause_digest = (\<lambda>_ a. a)\<rparr>"

definition demo_action :: "string \<Rightarrow> action_type \<Rightarrow> utext option \<Rightarrow> proposal" where
  "demo_action name kind tool = \<lparr>ap_id = lit name, ap_type = kind,
     ap_reasoning = \<lparr>rs_goal = [], rs_observations = [], rs_candidates = [kind], rs_selected = kind, rs_rationale = [],
       rs_risk_flags = [], rs_required = []\<rparr>,
     ap_parameters = (if kind = Plan_retrieval then [(lit ''query'', Py_text (lit ''claims''))] else []),
     ap_tool = tool, ap_risk = lit ''low''\<rparr>"

definition demo_planner :: "react_state \<Rightarrow> (unit, proposal) port" where
  "demo_planner s x = (Inr (if st_round s = 0 then demo_action ''retrieve'' Plan_retrieval None
     else if st_round s = 1 then demo_action ''call'' Propose_tool_call (Some (lit ''lookup''))
     else demo_action ''answer'' Generate_final_answer None), x)"

definition demo_record :: "react_state \<Rightarrow> proposal \<Rightarrow> identity \<Rightarrow> observation" where
  "demo_record s a i = \<lparr>ob_id = id_observation i, ob_action = ap_id a, ob_type = ap_type a, ob_round = st_round s,
     ob_ref = id_ref i, ob_summary = [], ob_accepted = 0, ob_new = 0, ob_unresolved = [], ob_sources = [], ob_citations = []\<rparr>"

definition demo_knowledge :: "unit observation_port" where
  "demo_knowledge s a i x = (Inr \<lparr>ef_record = demo_record s a i,
     ef_truth = Retrieval_truth \<lparr>rt_ref = id_ref i, rt_observation = id_observation i, rt_action = ap_id a, rt_accepted = [],
       rt_rejected = [], rt_admission = [], rt_citations = []\<rparr>,
     ef_projection = [], ef_fields = [], ef_summary = None\<rparr>, x)"

definition demo_tool :: "unit observation_port" where
  "demo_tool s a i x = (Inr \<lparr>ef_record = demo_record s a i,
     ef_truth = Tool_truth \<lparr>tt_ref = id_ref i, tt_observation = id_observation i, tt_action = ap_id a, tt_tool = lit ''lookup'',
       tt_result = [], tt_schema = None, tt_approval = None, tt_redaction = []\<rparr>,
     ef_projection = [], ef_fields = [], ef_summary = None\<rparr>, x)"

definition demo_policy :: "decision_type \<Rightarrow> unit policy_port" where
  "demo_policy tool = \<lparr>pp_tool = (\<lambda>s a x. (Inr tool, x)), pp_memory = Some (\<lambda>s c x. (Inr Allow, x)),
     pp_answer = Some (\<lambda>s a ans x. (Inr Allow, x))\<rparr>"

definition demo_memory :: "unit memory_port" where
  "demo_memory = \<lparr>mp_read = (\<lambda>s x. (Inr [], x)), mp_prepare = (\<lambda>s ans x. (Inr (Some [(lit ''note'', Py_none)]), x)),
     mp_commit = (\<lambda>c x. (Inr True, x))\<rparr>"

definition demo_ports :: "decision_type \<Rightarrow> decision_type \<Rightarrow> unit ports" where
  "demo_ports review tool = \<lparr>pt_planner = demo_planner,
     pt_synthesis = (\<lambda>s a ts x. (Inr \<lparr>an_outcome = Answered_with_citations, an_message = [], an_recovery = []\<rparr>, x)),
     pt_intent = None, pt_memory = Some demo_memory, pt_knowledge = Some demo_knowledge, pt_tool = Some demo_tool,
     pt_policy = Some (demo_policy tool), pt_review = Some (\<lambda>s a x. (Inr review, x)), pt_scope = None, pt_snapshots = None,
     pt_assurance_check = (\<lambda>_ _ _ x. (Inr True, x)), pt_budget = None, pt_execution = None, pt_interaction = None,
     pt_assurance = None, pt_tools_enabled = None, pt_memory_enabled = None\<rparr>"

definition demo_session :: "unit session" where
  "demo_session = \<lparr>ss_world = (), ss_store = empty_store,
     ss_plan = \<lparr>xp_requested = None, xp_effective = None, xp_digest = [], xp_stages = [], xp_budget = None, xp_effort = None,
       xp_blocked = None, xp_escalated = False\<rparr>, ss_calls = []\<rparr>"

definition demo_start :: "int \<Rightarrow> start_request" where
  "demo_start rounds = \<lparr>sq_run = lit ''run1'', sq_institution = Py_none, sq_question = lit ''q'', sq_max_rounds = rounds,
     sq_max_tool_calls = 2\<rparr>"

text \<open>A snapshot that waits for the approval of the tool call, and the requests that resume it.\<close>

definition waiting_snapshot :: run_snapshot where
  "waiting_snapshot = \<lparr>sn_id = lit ''snap1'', sn_run = lit ''run1'',
     sn_state = (start_state (demo_start 3))\<lparr>st_phase := Waiting_phase, st_round := 1,
       st_history := [demo_action ''call'' Propose_tool_call (Some (lit ''lookup''))]\<rparr>\<rparr>"

definition resume_ports :: "unit ports" where
  "resume_ports = (demo_ports Allow Deny)\<lparr>pt_snapshots := Some \<lparr>sp_save = (\<lambda>sn x. (Inl Port_error, x)),
     sp_load = (\<lambda>r x. (Inr waiting_snapshot, x))\<rparr>\<rparr>"

definition demo_resume :: "bool \<Rightarrow> resume_request" where
  "demo_resume approved = \<lparr>zq_snapshot = lit ''controlled-react://run1/snap1/sha256/'' @ replicate 64 48, zq_approval = lit ''appr_call'',
     zq_approved = approved, zq_actor = lit ''operator'', zq_max_rounds = 3, zq_expected_run = Some (lit ''run1''), zq_institution = Py_none\<rparr>"

definition called_tools :: "'w session \<Rightarrow> proposal list" where
  "called_tools w = concat (map (\<lambda>c. case c of Called_tool a \<Rightarrow> [a] | _ \<Rightarrow> []) (ss_calls w))"

lemma called_tools_mem: "a \<in> set (called_tools w) \<Longrightarrow> Called_tool a \<in> set (ss_calls w)"
  by (auto simp: called_tools_def split: call.splits)

subsection \<open>Review\<close>

text \<open>The outcome of a review that was asked for, by what the reviewer did.\<close>

lemma evaluate_with_review_decides:
  assumes "evaluate_policy rules p context eid = Inr d0"
  shows "\<exists>d ev. evaluate_with_review rules p context (Some r) eid = Inr (d, ev)
    \<and> (if rd_point r = p \<and> rd_suggested r \<in> set (allowed_review_decisions p)
       then pd_decision d = (if strictness (pd_decision d0) < strictness (rd_suggested r) then rd_suggested r else pd_decision d0)
         \<and> re_error ev = None
       else pd_decision d = fail_closed_decision_type p context \<and> re_error ev \<noteq> None)"
  using assms
  by (auto simp: evaluate_with_review_def Let_def is_stricter_than_def review_event_metadata_def fail_closed_policy_decision_def)

lemma reviewer_failure_decides:
  "\<exists>d ev. reviewer_failure p context eid a code = (d, ev) \<and> pd_decision d = fail_closed_decision_type p context \<and> re_error ev \<noteq> None"
  by (simp add: reviewer_failure_def Let_def fail_closed_policy_decision_def)

lemma no_review_decides:
  "evaluate_policy rules p context eid = Inr d0 \<Longrightarrow>
     evaluate_with_review rules p context None eid = Inr (d0, no_review_event) \<and> re_error no_review_event = None"
  by (simp add: evaluate_with_review_def no_review_event_def)

lemma fail_closed_exact:
  "fail_closed_decision_type p context =
     (if p = Before_tool_call then Require_approval
      else case read_decision (dict_get context ''review_fallback_decision'') of
          Some c \<Rightarrow> if p \<in> {Before_retrieval_plan, Before_retrieval_step} \<and> c \<in> set (allowed_review_decisions p) then c else Deny
        | None \<Rightarrow> Deny)"
  by (auto simp: fail_closed_decision_type_def read_decision_def split: option.splits)

text \<open>
  C32. What a reviewed action is decided to be, whenever the rules decide. Without a reviewer, with review
  switched off, or on the fast path of a low-risk action that the rules allow, it is the rules' decision.
  A review of this enforcement point that suggests a decision the point admits can only tighten: the
  stricter of the two decides (allow, require approval, escalate, deny, in this order). In every other case
  (the reviewer raises, its output is invalid, it judged another point or suggested what this one does not
  admit) the event carries an error and the decision is the fail-closed one, whatever the rules decided:
  approval required at a tool call; at retrieval the configured fallback if it is one the point admits;
  otherwise denial.
\<close>

theorem review_decides_exactly:
  assumes "evaluate_policy rules p context eid = Inr d0"
  defines "otherwise \<equiv> if p = Before_tool_call then Require_approval
      else case read_decision (dict_get context ''review_fallback_decision'') of
          Some c \<Rightarrow> if p \<in> {Before_retrieval_plan, Before_retrieval_step} \<and> c \<in> set (allowed_review_decisions p) then c else Deny
        | None \<Rightarrow> Deny"
  shows "\<exists>d ev. review_action rules p context a auto_review reviewer fast eid = Inr (d, ev)
    \<and> (case reviewer of
        None \<Rightarrow> d = d0 \<and> re_error ev = None
      | Some f \<Rightarrow>
          if \<not> auto_review \<or> (low_risk_fast_path p context a fast auto_review True \<and> pd_decision d0 = Allow)
          then d = d0 \<and> re_error ev = None
          else (case f a context of
              Reviewed r \<Rightarrow>
                if rd_point r = p \<and> rd_suggested r \<in> set (allowed_review_decisions p)
                then pd_decision d = (if strictness (pd_decision d0) < strictness (rd_suggested r) then rd_suggested r
                                      else pd_decision d0) \<and> re_error ev = None
                else pd_decision d = otherwise \<and> re_error ev \<noteq> None
            | _ \<Rightarrow> pd_decision d = otherwise \<and> re_error ev \<noteq> None))"
proof -
  have other: "otherwise = fail_closed_decision_type p context" by (simp add: otherwise_def fail_closed_exact)
  show ?thesis
  proof (cases reviewer)
    case None
    then show ?thesis using no_review_decides [OF assms(1)]
      by (cases auto_review) (simp_all add: review_action_def low_risk_fast_path_def Let_def)
  next
    case (Some f)
    show ?thesis
    proof (cases "\<not> auto_review \<or> (low_risk_fast_path p context a fast auto_review True \<and> pd_decision d0 = Allow)")
      case True
      then show ?thesis using assms(1) no_review_decides [OF assms(1)] Some
        by (cases auto_review) (simp_all add: review_action_def low_risk_fast_path_def no_review_event_def Let_def)
    next
      case False
      with assms(1) have run: "review_action rules p context a auto_review (Some f) fast eid = (case f a context of
              Reviewed r \<Rightarrow> evaluate_with_review rules p context (Some r) eid
            | Output_invalid code \<Rightarrow> Inr (reviewer_failure p context eid a code)
            | Reviewer_raised \<Rightarrow> Inr (reviewer_failure p context eid a (lit ''review_subagent_error'')))"
        by (simp add: review_action_def Let_def)
      show ?thesis
        unfolding Some option.case if_not_P [OF False] run other
        using evaluate_with_review_decides [OF assms(1)] reviewer_failure_decides [of p "context" eid a]
        by (cases "f a context") simp_all
    qed
  qed
qed

definition demo_rule :: "enforcement_point \<Rightarrow> string \<Rightarrow> policy_rule" where
  "demo_rule p decision = \<lparr>pr_id = lit ''rule1'', pr_point = p, pr_condition = [(lit ''tool_name'', Py_text (lit ''lookup''))],
     pr_decision = [(lit ''on_match'', Py_text (lit decision))], pr_reason = lit ''reason''\<rparr>"

definition demo_review :: "enforcement_point \<Rightarrow> decision_type \<Rightarrow> reviewer_result" where
  "demo_review p d = Reviewed \<lparr>rd_id = lit ''review1'', rd_point = p, rd_suggested = d, rd_reason = [], rd_confidence = 1, rd_subject = []\<rparr>"

definition demo_reviewed :: "enforcement_point \<Rightarrow> string \<Rightarrow> reviewer_result \<Rightarrow> policy_decision \<times> review_event" where
  "demo_reviewed p rule r = projr (review_action [demo_rule p rule] p [(lit ''tool_name'', Py_text (lit ''lookup''))]
     (demo_action ''act'' Plan_retrieval None) True (Some (\<lambda>_ _. r)) False (lit ''e1''))"

text \<open>A stricter review decides; a suggestion to allow what a rule denies is overridden.\<close>

theorem review_decides_exactly_witness:
  "pd_decision (fst (demo_reviewed Before_tool_call ''deny'' (demo_review Before_tool_call Allow))) = Deny
   \<and> pd_decision (fst (demo_reviewed Before_tool_call ''allow'' (demo_review Before_tool_call Escalate))) = Escalate"
proof -
  let ?ctx = "[(lit ''tool_name'', Py_text (lit ''lookup''))]" and ?a = "demo_action ''act'' Plan_retrieval None"
  have rule: "evaluate_policy [demo_rule Before_tool_call d] Before_tool_call ?ctx (lit ''e1'')
      = Inr \<lparr>pd_decision = v, pd_point = Before_tool_call, pd_reason = lit ''reason'', pd_rule = lit ''rule1'',
          pd_metadata = ?ctx, pd_event_id = lit ''e1''\<rparr>" if "(d, v) \<in> {(''deny'', Deny), (''allow'', Allow)}" for d v
  proof -
    from that consider "d = ''deny''" "v = Deny" | "d = ''allow''" "v = Allow" by blast
    then show ?thesis by cases (hypsubst, code_simp)+
  qed
  have off: "\<not> low_risk_fast_path Before_tool_call ?ctx ?a False True True" by (simp add: low_risk_fast_path_def)
  have adm: "Allow \<in> set (allowed_review_decisions Before_tool_call)" "Escalate \<in> set (allowed_review_decisions Before_tool_call)"
    by code_simp+
  show ?thesis
    using review_decides_exactly [OF rule [of "''deny''" Deny], of ?a True "Some (\<lambda>_ _. demo_review Before_tool_call Allow)" False]
      review_decides_exactly [OF rule [of "''allow''" Allow], of ?a True "Some (\<lambda>_ _. demo_review Before_tool_call Escalate)" False]
      off adm by (auto simp: demo_reviewed_def demo_review_def)
qed

text \<open>A review that fails at a tool call turns the denial of a rule into a request for approval.\<close>

lemma failed_review_relaxes_denial:
  "pd_decision (fst (demo_reviewed Before_tool_call ''deny'' Reviewer_raised)) = Require_approval"
  by code_simp

subsection \<open>The loop returns\<close>

text \<open>
  C33. The orchestrator's loop returns: after at most three turns for each plan round that is left, and
  three more, a result or an error is reached, whatever the planner proposes and the ports return.
  When the first action is one that the used-up plan rounds admit, the calls of knowledge and
  tools do not exceed the rounds left.
\<close>

theorem react_loop_returns:
  "loop_within (3 * nat (m - st_round s) + 3) P R m s a w = Some (run_loop P R m s a w)
   \<and> (admissible m s a \<longrightarrow> (\<exists>cs. ss_calls (snd (run_loop P R m s a w)) = ss_calls w @ cs \<and> observing cs \<le> max 0 (m - st_round s)))"
proof (intro conjI impI)
  show "loop_within (3 * nat (m - st_round s) + 3) P R m s a w = Some (run_loop P R m s a w)"
    by (rule loop_within_measure) (simp add: loop_measure_def)
  assume "admissible m s a"
  then obtain cs where "ss_calls (snd (run_loop P R m s a w)) = ss_calls w @ cs" "run_ok P (m - st_round s) cs"
    using emitsD [OF run_loop_ok, of m s a P R w "fst (run_loop P R m s a w)" "snd (run_loop P R m s a w)"] by auto
  then show "\<exists>cs. ss_calls (snd (run_loop P R m s a w)) = ss_calls w @ cs \<and> observing cs \<le> max 0 (m - st_round s)"
    by (auto simp: run_ok_def)
qed

theorem react_loop_returns_witness:
  "\<exists>r w'. loop_within 12 (demo_ports Allow Allow) demo_rules 3 (start_state (demo_start 3))
       (demo_action ''retrieve'' Plan_retrieval None) demo_session = Some (Inr r, w')
     \<and> rr_outcome r = Answered_with_citations \<and> observing (ss_calls w') \<le> 3"
proof -
  let ?run = "run_loop (demo_ports Allow Allow) demo_rules 3 (start_state (demo_start 3)) (demo_action ''retrieve'' Plan_retrieval None) demo_session"
  have eval: "map_sum (\<lambda>_. ()) rr_outcome (fst ?run) = Inr Answered_with_citations" by code_simp
  then obtain r where r: "fst ?run = Inr r" "rr_outcome r = Answered_with_citations" by (cases "fst ?run") auto
  have adm: "admissible 3 (start_state (demo_start 3)) (demo_action ''retrieve'' Plan_retrieval None)"
    by (simp add: admissible_def start_state_def)
  have start: "st_round (start_state (demo_start 3)) = 0" "ss_calls demo_session = []"
    by (simp_all add: start_state_def demo_session_def)
  note returns = react_loop_returns [of 3 "start_state (demo_start 3)" "demo_ports Allow Allow" demo_rules "demo_action ''retrieve'' Plan_retrieval None" demo_session]
  have "loop_within 12 (demo_ports Allow Allow) demo_rules 3 (start_state (demo_start 3))
      (demo_action ''retrieve'' Plan_retrieval None) demo_session = Some ?run"
    using conjunct1 [OF returns] start by simp
  moreover have "observing (ss_calls (snd ?run)) \<le> 3"
    using conjunct2 [OF returns] adm start by auto
  ultimately have "loop_within 12 (demo_ports Allow Allow) demo_rules 3 (start_state (demo_start 3))
      (demo_action ''retrieve'' Plan_retrieval None) demo_session = Some (Inr r, snd ?run)"
    using r(1) by (metis prod.collapse)
  with \<open>observing (ss_calls (snd ?run)) \<le> 3\<close> r(2) show ?thesis by blast
qed

subsection \<open>Actions are judged\<close>

lemma orderly_split:
  "orderly rv mp (pre @ c # post) \<Longrightarrow> gated rv mp (if pre = [] then None else Some (last pre)) [c]"
  by (auto simp: orderly_def gated_append dest: spec [where x = None] split: if_splits)

lemma orderly_tool: "orderly rv mp (pre @ Called_tool a # post) \<Longrightarrow> pre \<noteq> [] \<and> last pre = Called_policy a Allow"
  by (drule orderly_split) (auto split: if_splits)

lemma orderly_knowledge:
  "orderly True mp (pre @ Called_knowledge a # post) \<Longrightarrow> pre \<noteq> [] \<and> (\<exists>d. d \<noteq> Deny \<and> last pre = Called_review a d)"
  by (drule orderly_split) (auto split: if_splits)

lemma orderly_memory:
  "orderly rv True (pre @ Called_memory_commit c # post) \<Longrightarrow> pre \<noteq> [] \<and> last pre = Called_memory_policy c Allow"
  by (drule orderly_split) (auto split: if_splits)

text \<open>
  C34. In a started run every action is judged before it is executed: a tool is called immediately after
  the policy allowed this very proposal, a retrieval immediately after the reviewer, where there is
  one, did not deny it, and memory is written immediately after the policy, where it judges
  memory, allowed this very write. Knowledge and tools are called at most as often as there are
  plan rounds, and a result that answers was admitted by the answer policy, where there is one.
\<close>

theorem react_start_is_judged:
  assumes "react_start P R q w = (r, w')" and "ss_calls w = []"
  shows "(\<forall>pre a post. ss_calls w' = pre @ Called_tool a # post \<longrightarrow> pre \<noteq> [] \<and> last pre = Called_policy a Allow)
    \<and> (reviewed P \<longrightarrow> (\<forall>pre a post. ss_calls w' = pre @ Called_knowledge a # post
         \<longrightarrow> pre \<noteq> [] \<and> (\<exists>d. d \<noteq> Deny \<and> last pre = Called_review a d)))
    \<and> (memory_judged P \<longrightarrow> (\<forall>pre c post. ss_calls w' = pre @ Called_memory_commit c # post
         \<longrightarrow> pre \<noteq> [] \<and> last pre = Called_memory_policy c Allow))
    \<and> observing (ss_calls w') \<le> max 0 (sq_max_rounds q)
    \<and> (answer_judged P \<longrightarrow> (\<forall>result. r = Inr result \<longrightarrow> rr_outcome result = Answered_with_citations
         \<longrightarrow> (\<exists>a. Called_answer_policy a Allow \<in> set (ss_calls w'))))"
proof -
  from emitsD [OF react_start_ok assms(1)] assms(2)
  have ok: "orderly (reviewed P) (memory_judged P) (ss_calls w')" "observing (ss_calls w') \<le> max 0 (sq_max_rounds q)"
    by (auto simp: run_ok_def)
  from emitsD [OF react_start_admitted assms(1)] assms(2)
  have "answers_admitted P answers r (ss_calls w')" by auto
  then have "answer_judged P \<longrightarrow> (\<forall>result. r = Inr result \<longrightarrow> rr_outcome result = Answered_with_citations
      \<longrightarrow> (\<exists>a. Called_answer_policy a Allow \<in> set (ss_calls w')))"
    by (auto simp: answers_admitted_def admitted_def answers_def)
  moreover have "\<And>pre a post. ss_calls w' = pre @ Called_tool a # post \<Longrightarrow> pre \<noteq> [] \<and> last pre = Called_policy a Allow"
    using ok(1) orderly_tool by metis
  moreover have "\<And>pre a post. reviewed P \<Longrightarrow> ss_calls w' = pre @ Called_knowledge a # post
      \<Longrightarrow> pre \<noteq> [] \<and> (\<exists>d. d \<noteq> Deny \<and> last pre = Called_review a d)"
    using ok(1) orderly_knowledge by metis
  moreover have "\<And>pre c post. memory_judged P \<Longrightarrow> ss_calls w' = pre @ Called_memory_commit c # post
      \<Longrightarrow> pre \<noteq> [] \<and> last pre = Called_memory_policy c Allow"
    using ok(1) orderly_memory by metis
  ultimately show ?thesis using ok(2) by blast
qed

text \<open>The concrete run retrieves, calls the tool, answers and writes to memory.\<close>

definition run_summary :: "(react_error + react_result) \<times> 'w session \<Rightarrow> (unit + receipt_outcome) \<times> int \<times> proposal list" where
  "run_summary x = (map_sum (\<lambda>_. ()) rr_outcome (fst x), observing (ss_calls (snd x)), called_tools (snd x))"

theorem react_start_is_judged_witness:
  "\<exists>w' pre a. snd (react_start (demo_ports Allow Allow) demo_rules (demo_start 3) demo_session) = w'
     \<and> observing (ss_calls w') = 2 \<and> called_tools w' = [demo_action ''call'' Propose_tool_call (Some (lit ''lookup''))]
     \<and> (\<exists>post. ss_calls w' = pre @ Called_tool a # post) \<and> last pre = Called_policy a Allow
     \<and> (\<exists>b. Called_answer_policy b Allow \<in> set (ss_calls w'))"
proof -
  let ?run = "react_start (demo_ports Allow Allow) demo_rules (demo_start 3) demo_session"
  have "run_summary ?run = (Inr Answered_with_citations, 2, [demo_action ''call'' Propose_tool_call (Some (lit ''lookup''))])"
    by code_simp
  then have outcome: "map_sum (\<lambda>_. ()) rr_outcome (fst ?run) = Inr Answered_with_citations"
    and two: "observing (ss_calls (snd ?run)) = 2"
    and tool: "called_tools (snd ?run) = [demo_action ''call'' Propose_tool_call (Some (lit ''lookup''))]"
    by (simp_all add: run_summary_def)
  from outcome obtain r where r: "fst ?run = Inr r" "rr_outcome r = Answered_with_citations" by (cases "fst ?run") auto
  from tool have "\<exists>a. Called_tool a \<in> set (ss_calls (snd ?run))"
    using called_tools_mem [of _ "snd ?run"] by (metis list.set_intros(1))
  then obtain a pre post where split: "ss_calls (snd ?run) = pre @ Called_tool a # post" by (auto simp: in_set_conv_decomp)
  have judged: "answer_judged (demo_ports Allow Allow)" by (simp add: answer_judged_def demo_ports_def demo_policy_def)
  have run: "?run = (Inr r, snd ?run)" and empty: "ss_calls demo_session = []"
    using r(1) by (simp_all add: demo_session_def prod_eq_iff)
  have "last pre = Called_policy a Allow \<and> (\<exists>b. Called_answer_policy b Allow \<in> set (ss_calls (snd ?run)))"
    using react_start_is_judged [OF run empty] split judged r(2) by blast
  with two tool split show ?thesis by blast
qed

lemma approved_actionD:
  assumes "approved_action P R z (ss_world w) a"
  shows "zq_approved z \<and> zq_approval z = lit ''appr_'' @ ap_id a
      \<and> (\<exists>store sn x. pt_snapshots P = Some store \<and> sp_load store (zq_snapshot z) (ss_world w) = (Inr sn, x)
         \<and> zq_snapshot z = lit ''controlled-react://'' @ st_run (sn_state sn) @ lit ''/'' @ sn_id sn @ lit ''/sha256/'' @ ru_snapshot_digest R sn
         \<and> (\<forall>i. zq_expected_run z = Some i \<longrightarrow> st_run (sn_state sn) = i) \<and> st_institution (sn_state sn) = zq_institution z
         \<and> st_history (sn_state sn) \<noteq> [] \<and> a = last (st_history (sn_state sn))
         \<and> (\<forall>t. st_approved (sn_state sn) = Some t \<longrightarrow> at_action_id t = ap_id a
              \<and> at_tool t = (case ap_tool a of None \<Rightarrow> [] | Some n \<Rightarrow> n) \<and> at_parameter_digest t = ru_digest R (ap_parameters a)))"
proof -
  from assms obtain store sn x where load: "zq_approved z" "pt_snapshots P = Some store"
      "sp_load store (zq_snapshot z) (ss_world w) = (Inr sn, x)"
    and check: "check_resume R z sn = Inr (sn_state sn, a)" and match: "\<not> integrity_mismatch R (sn_state sn) a"
    by (auto simp: approved_action_def)
  have "st_institution (sn_state sn) = zq_institution z" "\<forall>i. zq_expected_run z = Some i \<longrightarrow> st_run (sn_state sn) = i"
    using check by (auto simp: check_resume_def Let_def split: if_splits)
  moreover have "zq_snapshot z = lit ''controlled-react://'' @ st_run (sn_state sn) @ lit ''/'' @ sn_id sn @ lit ''/sha256/'' @ ru_snapshot_digest R sn"
    using check_resume_state [OF check] by (auto simp: verify_snapshot_def bind_snapshot_def split: if_splits)
  ultimately show ?thesis using load check_resume_state [OF check] match by (auto simp: integrity_mismatch_def)
qed

text \<open>
  C35. A resumed run executes without a new judgement at most the one action that was paused: a
  tool call that does not immediately follow the policy's permission for it is the first call of
  the run, the approver approved, the approval names this action, the loaded snapshot is the one the
  request names by run, id and digest, its run is the expected one where the request has one and its
  institution that of the request, the action is the last one of its history, and the action's id, tool
  and parameters are those of the approved proposal where the snapshot recorded one. Retrievals and memory
  writes are judged as in a started run (where there is a reviewer and a memory policy), and a denied
  approval calls no tool that is not judged anew.
\<close>

theorem react_resume_is_judged:
  assumes "react_resume P R z w = (r, w')" and "ss_calls w = []"
  shows "(\<forall>pre a post. ss_calls w' = pre @ Called_tool a # post \<longrightarrow>
       (pre \<noteq> [] \<and> last pre = Called_policy a Allow)
       \<or> (pre = [] \<and> zq_approved z \<and> zq_approval z = lit ''appr_'' @ ap_id a
          \<and> (\<exists>store sn x. pt_snapshots P = Some store \<and> sp_load store (zq_snapshot z) (ss_world w) = (Inr sn, x)
             \<and> zq_snapshot z = lit ''controlled-react://'' @ st_run (sn_state sn) @ lit ''/'' @ sn_id sn @ lit ''/sha256/'' @ ru_snapshot_digest R sn
             \<and> (\<forall>i. zq_expected_run z = Some i \<longrightarrow> st_run (sn_state sn) = i) \<and> st_institution (sn_state sn) = zq_institution z
             \<and> st_history (sn_state sn) \<noteq> [] \<and> a = last (st_history (sn_state sn))
             \<and> (\<forall>t. st_approved (sn_state sn) = Some t \<longrightarrow> at_action_id t = ap_id a
                  \<and> at_tool t = (case ap_tool a of None \<Rightarrow> [] | Some n \<Rightarrow> n) \<and> at_parameter_digest t = ru_digest R (ap_parameters a)))))
    \<and> (reviewed P \<longrightarrow> (\<forall>pre a post. ss_calls w' = pre @ Called_knowledge a # post
         \<longrightarrow> pre \<noteq> [] \<and> (\<exists>d. d \<noteq> Deny \<and> last pre = Called_review a d)))
    \<and> (memory_judged P \<longrightarrow> (\<forall>pre c post. ss_calls w' = pre @ Called_memory_commit c # post
         \<longrightarrow> pre \<noteq> [] \<and> last pre = Called_memory_policy c Allow))"
proof -
  let ?A = "approved_action P R z (ss_world w)"
  from react_resume_ok [OF assms(1)] assms(2) have ok: "resume_ok ?A P (ss_calls w')" by auto
  have calls: "?thesis" if "ss_calls w' = Called_tool b # ds" "?A b" "orderly (reviewed P) (memory_judged P) ds" for b ds
  proof (intro conjI allI impI, goal_cases)
    case (1 pre a post)
    show ?case
    proof (cases pre)
      case Nil
      with 1 that(1) have "a = b" by simp
      with approved_actionD [OF that(2)] Nil show ?thesis by blast
    next
      case (Cons c cs)
      with 1 that(1) have "ds = cs @ Called_tool a # post" by simp
      with that(3) orderly_tool [of _ _ cs a post] Cons show ?thesis by auto
    qed
  next
    case (2 pre a post)
    then show ?case using that orderly_knowledge by (cases pre) fastforce+
  next
    case (3 pre a post)
    then show ?case using that orderly_knowledge by (cases pre) fastforce+
  next
    case (4 pre a post)
    then show ?case using that orderly_memory by (cases pre) fastforce+
  next
    case (5 pre a post)
    then show ?case using that orderly_memory by (cases pre) fastforce+
  qed
  show ?thesis
  proof (cases "orderly (reviewed P) (memory_judged P) (ss_calls w')")
    case True
    then have "\<And>pre a post. ss_calls w' = pre @ Called_tool a # post \<Longrightarrow> pre \<noteq> [] \<and> last pre = Called_policy a Allow"
      "\<And>pre a post. reviewed P \<Longrightarrow> ss_calls w' = pre @ Called_knowledge a # post \<Longrightarrow> pre \<noteq> [] \<and> (\<exists>d. d \<noteq> Deny \<and> last pre = Called_review a d)"
      "\<And>pre c post. memory_judged P \<Longrightarrow> ss_calls w' = pre @ Called_memory_commit c # post \<Longrightarrow> pre \<noteq> [] \<and> last pre = Called_memory_policy c Allow"
      using orderly_tool orderly_knowledge orderly_memory by metis+
    then show ?thesis by blast
  next
    case False
    with ok obtain b ds where "ss_calls w' = Called_tool b # ds" "?A b" "orderly (reviewed P) (memory_judged P) ds"
      by (auto simp: resume_ok_def)
    then show ?thesis by (rule calls)
  qed
qed

text \<open>
  With the approval, the paused tool call is the first call of the run; without it, the policy of the
  example denies every tool and none is called.
\<close>

theorem react_resume_is_judged_witness:
  "\<exists>a post. ss_calls (snd (react_resume resume_ports demo_rules (demo_resume True) demo_session)) = Called_tool a # post
     \<and> a = demo_action ''call'' Propose_tool_call (Some (lit ''lookup'')) \<and> lit ''appr_call'' = lit ''appr_'' @ ap_id a
     \<and> called_tools (snd (react_resume resume_ports demo_rules (demo_resume False) demo_session)) = []"
proof -
  let ?run = "react_resume resume_ports demo_rules (demo_resume True) demo_session"
  let ?a = "demo_action ''call'' Propose_tool_call (Some (lit ''lookup''))"
  have "take 1 (ss_calls (snd ?run)) = [Called_tool ?a]" by code_simp
  then obtain post where calls: "ss_calls (snd ?run) = [] @ Called_tool ?a # post" by (cases "ss_calls (snd ?run)") auto
  have run: "?run = (fst ?run, snd ?run)" and empty: "ss_calls demo_session = []" by (simp_all add: demo_session_def)
  have "zq_approval (demo_resume True) = lit ''appr_'' @ ap_id ?a"
    using conjunct1 [OF react_resume_is_judged [OF run empty]] calls by blast
  moreover have "zq_approval (demo_resume True) = lit ''appr_call''" by (simp add: demo_resume_def)
  moreover have "called_tools (snd (react_resume resume_ports demo_rules (demo_resume False) demo_session)) = []" by code_simp
  ultimately show ?thesis using calls by auto
qed

subsection \<open>A review that escalates\<close>

text \<open>
  The template says that a review that denies or escalates ends the branch of the retrieval; the
  orchestrator stops the retrieval only when the review denies.
\<close>

lemma escalated_retrieval_runs:
  "list_ex (\<lambda>c. case c of Called_knowledge a \<Rightarrow> True | _ \<Rightarrow> False)
     (ss_calls (snd (react_start (demo_ports Escalate Allow) demo_rules (demo_start 3) demo_session)))"
  by code_simp

subsection \<open>Evidence\<close>

text \<open>
  What the loop has observed stays grounded: in every state that the loop reaches, each record refers
  to a truth that the store holds and whose content binds the reference, records are only appended,
  and the context of an answer can be loaded unless a record contradicts the truth it refers to.
\<close>

theorem observations_stay_grounded:
  assumes "loop_reaches P R m s a w s1 a1 w1" and "grounded (ru_truths R) s (ss_store w)"
  shows "grounded (ru_truths R) s1 (ss_store w1) \<and> prefix (st_observations s) (st_observations s1)
    \<and> (\<forall>e. answer_truths R s1 (ss_store w1) = Inl e
         \<longrightarrow> (\<exists>o1 \<in> set (st_observations s1). \<exists>t. record_matches_truth o1 t = Inl e))"
  using loop_reaches_grounded [OF assms] answer_truths_grounded by blast

text \<open>An intent with one required query, and a source whose only document answers it.\<close>

definition required_intent :: intent_resolution where
  "required_intent = \<lparr>it_missing = [], it_next = Plan_retrieval, it_queries = [\<lparr>qi_query = lit ''claims'', qi_required = True\<rparr>],
     it_deferred = []\<rparr>"

definition demo_chunk :: evidence_chunk where
  "demo_chunk = \<lparr>ec_source = lit ''doc1'', ec_content = lit ''text'', ec_status = Accepted, ec_citation = Some (lit ''c1''), ec_metadata = []\<rparr>"

definition citing_knowledge :: "unit observation_port" where
  "citing_knowledge s a i x = (Inr \<lparr>ef_record = (demo_record s a i)\<lparr>ob_accepted := 1, ob_new := 1, ob_sources := [lit ''doc1''],
       ob_citations := [lit ''c1'']\<rparr>,
     ef_truth = Retrieval_truth \<lparr>rt_ref = id_ref i, rt_observation = id_observation i, rt_action = ap_id a,
       rt_accepted = [demo_chunk], rt_rejected = [], rt_admission = [(lit ''query'', Py_text (lit ''claims''))], rt_citations = [lit ''c1'']\<rparr>,
     ef_projection = [], ef_fields = [], ef_summary = None\<rparr>, x)"

definition citing_ports :: "unit ports" where
  "citing_ports = (demo_ports Allow Allow)\<lparr>pt_knowledge := Some citing_knowledge\<rparr>"

definition required_state :: react_state where
  "required_state = (start_state (demo_start 3))\<lparr>st_intent := Some required_intent\<rparr>"

lemma required_state_grounded: "grounded C required_state S"
  by (simp add: grounded_def required_state_def start_state_def)

text \<open>
  C36. The loop answers only with evidence: when it returns an answer, it passed a state in which
  every required query of the admitted intent has a retrieval record for this query, whose truth the
  store holds and binds to its content, with an accepted piece of evidence whose source the record
  names and whose citation both the record and the truth carry.
\<close>

theorem answers_have_required_evidence:
  assumes "run_loop P R m s a w = (Inr result, w')" and "rr_outcome result = Answered_with_citations"
    and "required_retrievals (ru_text R) (st_intent s) = Inr requirements" and "grounded (ru_truths R) s (ss_store w)"
  shows "\<exists>s1 a1 w1. loop_reaches P R m s a w s1 a1 w1
    \<and> (\<forall>q \<in> set requirements. \<exists>o1 \<in> set (st_observations s1). evidence_for (ru_truths R) (ss_store w1) o1 (rq_text q))"
proof -
  from run_loop_last_turn [OF assms(1)] obtain s1 a1 w1 where reached: "loop_reaches P R m s a w s1 a1 w1"
    and last: "loop_turn P R m s1 a1 w1 = (Inr (Return result), w')" by blast
  have "st_intent s1 = st_intent s" using loop_reaches_grounded [OF reached assms(4)] by simp
  with answering_turn_evidence [OF last assms(2)] assms(3)
  have "\<forall>q \<in> set requirements. \<exists>o1 \<in> set (st_observations s1). evidence_for (ru_truths R) (ss_store w1) o1 (rq_text q)" by simp
  with reached show ?thesis by blast
qed

definition citing_run :: "(react_error + react_result) \<times> unit session" where
  "citing_run = run_loop citing_ports demo_rules 3 required_state (demo_action ''retrieve'' Plan_retrieval None) demo_session"

theorem answers_have_required_evidence_witness:
  "\<exists>result s1 a1 w1. fst citing_run = Inr result \<and> rr_outcome result = Answered_with_citations
     \<and> loop_reaches citing_ports demo_rules 3 required_state (demo_action ''retrieve'' Plan_retrieval None) demo_session s1 a1 w1
     \<and> (\<exists>o1 \<in> set (st_observations s1). evidence_for (ru_truths demo_rules) (ss_store w1) o1 (lit ''claims''))"
proof -
  have "map_sum (\<lambda>_. ()) rr_outcome (fst citing_run) = Inr Answered_with_citations" by code_simp
  then obtain result where result: "fst citing_run = Inr result" "rr_outcome result = Answered_with_citations"
    by (cases "fst citing_run") auto
  then have run: "run_loop citing_ports demo_rules 3 required_state (demo_action ''retrieve'' Plan_retrieval None) demo_session
      = (Inr result, snd citing_run)" by (simp add: citing_run_def prod_eq_iff)
  let ?q = "requirement_of demo_text_rules (lit ''claims'')"
  have required: "required_retrievals (ru_text demo_rules) (st_intent required_state) = Inr [?q]" by code_simp
  have "rq_text ?q = lit ''claims''" by (simp add: requirement_of_def)
  with answers_have_required_evidence [OF run result(2) required required_state_grounded] result show ?thesis by auto
qed

end
