(* ===== verification/Egress_Policy.thy ===== *)
theory Egress_Policy
  imports Spec_Prelude "HOL-Library.Word" "HOL-Library.Char_ord" "HOL-Library.List_Lexorder"
begin

text \<open>
  The policy of outbound connections: \<open>contracts/egress.py\<close> and \<open>control/security/egress.py\<close>. A rule
  admits one exact HTTPS origin at the addresses of its networks. Addresses and networks are the
  words that \<open>ipaddress\<close> parses them into; splitting URLs (\<open>urllib\<close>) and the IDNA codec are arguments.
\<close>

unbundle bit_operations_syntax

subsection \<open>Addresses and networks\<close>

datatype ip_address = V4 "32 word" | V6 "128 word"

datatype ip_network = Net4 "32 word" nat | Net6 "128 word" nat

text \<open>
  \<open>ip_network(value, strict=True)\<close> refuses a network address with host bits; \<open>hostmask\<close> has the host
  bits set.
\<close>

definition strict_prefix_of :: "'a::len word \<Rightarrow> nat \<Rightarrow> bool" where
  "strict_prefix_of w p \<longleftrightarrow> p \<le> LENGTH('a) \<and> w AND mask (LENGTH('a) - p) = 0"

fun network_ok :: "ip_network \<Rightarrow> bool" where
  "network_ok (Net4 w p) = strict_prefix_of w p"
| "network_ok (Net6 w p) = strict_prefix_of w p"

text \<open>\<open>address.version == network.version and address in network\<close>.\<close>

definition in_prefix :: "'a::len word \<Rightarrow> nat \<Rightarrow> 'a word \<Rightarrow> bool" where
  "in_prefix w p a \<longleftrightarrow> a AND NOT (mask (LENGTH('a) - p)) = w"

fun address_in :: "ip_address \<Rightarrow> ip_network \<Rightarrow> bool" where
  "address_in (V4 a) (Net4 w p) = in_prefix w p a"
| "address_in (V6 a) (Net6 w p) = in_prefix w p a"
| "address_in _ _ = False"

text \<open>\<open>str(address)\<close>: dotted decimal, and hexadecimal groups with the longest run of zeros left out.\<close>

function hex_text :: "int \<Rightarrow> string" where
  "hex_text n = (let d = n mod 16; c = char_of (if d < 10 then 48 + d else 87 + d)
     in if n < 16 then [c] else hex_text (n div 16) @ [c])"
  by auto
termination by (relation "measure nat") auto

declare hex_text.simps [simp del]

fun joined :: "string \<Rightarrow> string list \<Rightarrow> string" where
  "joined sep [] = []"
| "joined sep [x] = x"
| "joined sep (x # y # xs) = x @ sep @ joined sep (y # xs)"

fun zero_run :: "string list \<Rightarrow> nat" where
  "zero_run (h # hs) = (if h = ''0'' then Suc (zero_run hs) else 0)"
| "zero_run [] = 0"

fun longest_zeros :: "nat \<Rightarrow> string list \<Rightarrow> nat \<times> nat" where
  "longest_zeros i [] = (0, 0)"
| "longest_zeros i (h # hs) =
     (let (j, n) = longest_zeros (Suc i) hs; m = zero_run (h # hs) in if n \<le> m \<and> 0 < m then (i, m) else (j, n))"

definition compress_hextets :: "string list \<Rightarrow> string list" where
  "compress_hextets hs =
     (let (i, n) = longest_zeros 0 hs
      in if n \<le> 1 then hs
         else (if i = 0 then [''''] else []) @ take i hs @ [''''] @ drop (i + n) hs
              @ (if i + n = length hs then [''''] else []))"

fun address_text :: "ip_address \<Rightarrow> string" where
  "address_text (V4 a) = joined ''.'' (map (\<lambda>k. decimal (uint (drop_bit k a) mod 256)) [24, 16, 8, 0])"
| "address_text (V6 a) = joined '':'' (compress_hextets
     (map (\<lambda>k. hex_text (uint (drop_bit k a) mod 65536)) [112, 96, 80, 64, 48, 32, 16, 0]))"

subsection \<open>Contracts\<close>

record origin =
  or_host :: string
  or_port :: int

definition origin_ok :: "origin \<Rightarrow> bool" where
  "origin_ok c \<longleftrightarrow> or_host c \<noteq> [] \<and> 1 \<le> or_port c \<and> or_port c \<le> 65535"

definition origin_value :: "origin \<Rightarrow> string" where
  "origin_value c = ''https://'' @ or_host c @ '':'' @ decimal (or_port c)"

record origin_rule =
  ru_origin :: origin
  ru_networks :: "ip_network list"

definition origin_rule_ok :: "origin_rule \<Rightarrow> bool" where
  "origin_rule_ok r \<longleftrightarrow> origin_ok (ru_origin r) \<and> ru_networks r \<noteq> [] \<and> list_all network_ok (ru_networks r)
     \<and> distinct (ru_networks r)"

record egress_version =
  ev_id :: string
  ev_revision :: int
  ev_rules :: "origin_rule list"
  ev_created_at :: clock
  ev_created_by :: utext

definition egress_version_ok :: "egress_version \<Rightarrow> bool" where
  "egress_version_ok v \<longleftrightarrow> ev_id v \<noteq> [] \<and> 1 \<le> ev_revision v \<and> list_all origin_rule_ok (ev_rules v)
     \<and> ev_created_by v \<noteq> [] \<and> distinct (map (\<lambda>r. (or_host (ru_origin r), or_port (ru_origin r))) (ev_rules v))"

subsection \<open>URLs\<close>

text \<open>
  The fields of \<open>urlsplit(url)\<close> that the code reads; \<open>None\<close> for the port stands for its \<open>ValueError\<close>, and
  \<open>up_port = Some 0\<close> covers "no port" and port 0, which \<open>parsed.port or 443\<close> does not distinguish.
\<close>

record url_parts =
  up_scheme :: string
  up_userinfo :: bool
  up_netloc :: string
  up_host :: "string option"
  up_port :: "int option"
  up_path :: string
  up_query :: string
  up_fragment :: string

record url_codec =
  uc_split :: "string \<Rightarrow> url_parts option"
  uc_idna :: "string \<Rightarrow> string option"
  uc_join :: "string \<Rightarrow> string \<Rightarrow> string"

text \<open>\<open>str.lower\<close> of ASCII text.\<close>

definition lower_char :: "char \<Rightarrow> char" where
  "lower_char c = (if char_between 65 90 c then char_of (of_char c + 32 :: int) else c)"

definition lower_ascii :: "string \<Rightarrow> string" where
  "lower_ascii s = map lower_char s"

datatype egress_error =
    Egress_denied string "origin option"
  | Egress_value_error string
  | Egress_transport string

text \<open>\<open>_origin_from_url\<close>: anything that \<open>urllib\<close>, the codec or the contract refuses is \<open>url_invalid\<close>.\<close>

definition origin_from_url :: "url_codec \<Rightarrow> string \<Rightarrow> egress_error + origin" where
  "origin_from_url U url =
     (let invalid = Inl (Egress_denied ''url_invalid'' None) in
      case uc_split U url of
        None \<Rightarrow> invalid
      | Some u \<Rightarrow>
          if lower_ascii (up_scheme u) \<noteq> ''https'' then Inl (Egress_denied ''https_required'' None)
          else if up_userinfo u then Inl (Egress_denied ''userinfo_forbidden'' None)
          else if up_fragment u \<noteq> [] then Inl (Egress_denied ''fragment_forbidden'' None)
          else
            (case up_host u of
               None \<Rightarrow> Inl (Egress_denied ''exact_host_required'' None)
             | Some h \<Rightarrow>
                 if CHR ''*'' \<in> set h then Inl (Egress_denied ''exact_host_required'' None)
                 else
                   (case (uc_idna U h, up_port u) of
                      (Some a, Some p) \<Rightarrow>
                        let c = \<lparr>or_host = lower_ascii a, or_port = if p = 0 then 443 else p\<rparr>
                        in if origin_ok c then Inr c else invalid
                    | _ \<Rightarrow> invalid)))"

text \<open>\<open>ExactHttpsOrigin.parse\<close>, for the origins of rules that a configuration names as text.\<close>

definition parse_origin :: "url_codec \<Rightarrow> string \<Rightarrow> egress_error + origin" where
  "parse_origin U value =
     (case uc_split U value of
        None \<Rightarrow> Inl (Egress_value_error ''URL is invalid'')
      | Some u \<Rightarrow>
          if lower_ascii (up_scheme u) \<noteq> ''https''
          then Inl (Egress_value_error ''production egress origin must use HTTPS'')
          else if up_userinfo u
          then Inl (Egress_value_error ''production egress origin cannot contain userinfo'')
          else if up_path u \<notin> {'''', ''/''} \<or> up_query u \<noteq> [] \<or> up_fragment u \<noteq> []
          then Inl (Egress_value_error ''production egress origin cannot contain path, query, or fragment'')
          else
            (case up_host u of
               None \<Rightarrow> Inl (Egress_value_error ''production egress origin requires one exact host'')
             | Some h \<Rightarrow>
                 if CHR ''*'' \<in> set h
                 then Inl (Egress_value_error ''production egress origin requires one exact host'')
                 else
                   (case (uc_idna U h, up_port u) of
                      (Some a, Some p) \<Rightarrow>
                        let c = \<lparr>or_host = lower_ascii a, or_port = if p = 0 then 443 else p\<rparr>
                        in if origin_ok c then Inr c else Inl (Egress_value_error ''origin is invalid'')
                    | _ \<Rightarrow> Inl (Egress_value_error ''production egress origin is invalid''))))"

subsection \<open>Admission\<close>

text \<open>
  An answer of the resolver is an address, or a text that \<open>ip_address\<close> refuses. The dictionary of
  compiled rules keeps the last rule of an origin.
\<close>

datatype dns_answer = Answer ip_address | Not_an_address string

definition rule_for :: "egress_version \<Rightarrow> origin \<Rightarrow> origin_rule option" where
  "rule_for v c = find (\<lambda>r. ru_origin r = c) (rev (ev_rules v))"

definition rule_allows :: "origin_rule \<Rightarrow> ip_address \<Rightarrow> bool" where
  "rule_allows r a = list_ex (address_in a) (ru_networks r)"

definition authorize_origin :: "url_codec \<Rightarrow> egress_version \<Rightarrow> string \<Rightarrow> egress_error + origin" where
  "authorize_origin U v url = rbind (origin_from_url U url) (\<lambda>c.
     if rule_for v c = None then Inl (Egress_denied ''origin_not_allowed'' (Some c)) else Inr c)"

fun admit_answers :: "origin_rule \<Rightarrow> origin \<Rightarrow> dns_answer list \<Rightarrow> egress_error + string list" where
  "admit_answers r c [] = Inr []"
| "admit_answers r c (Not_an_address t # as) = Inl (Egress_denied ''dns_address_invalid'' (Some c))"
| "admit_answers r c (Answer a # as) =
     (if rule_allows r a then rbind (admit_answers r c as) (\<lambda>ts. Inr (address_text a # ts))
      else Inl (Egress_denied ''dns_address_not_allowed'' (Some c)))"

record admitted_hop =
  hop_origin :: origin
  hop_addresses :: "string list"

definition admit_hop :: "url_codec \<Rightarrow> egress_version \<Rightarrow> string \<Rightarrow> dns_answer list \<Rightarrow> egress_error + admitted_hop" where
  "admit_hop U v url answers = rbind (authorize_origin U v url) (\<lambda>c.
     case rule_for v c of
       None \<Rightarrow> Inl (Egress_denied ''origin_not_allowed'' (Some c))
     | Some r \<Rightarrow>
         if answers = [] then Inl (Egress_denied ''dns_no_addresses'' (Some c))
         else rbind (admit_answers r c answers) (\<lambda>ts.
           Inr \<lparr>hop_origin = c, hop_addresses = sort (remdups ts)\<rparr>))"

subsection \<open>What an admission means\<close>

text \<open>Every answer is an address of one of the networks of the rule, not only the one connected to.\<close>

lemma admit_answersE:
  assumes "admit_answers r c answers = Inr ts"
  obtains as where "answers = map Answer as" "list_all (rule_allows r) as" "ts = map address_text as"
  using assms
proof (induction r c answers arbitrary: ts thesis rule: admit_answers.induct)
  case (3 r c a answers)
  from "3.prems"(2) obtain ts' where *: "rule_allows r a" "admit_answers r c answers = Inr ts'"
      "ts = address_text a # ts'"
    by (auto split: if_splits simp: rbind_Inr_iff)
  obtain as where "answers = map Answer as" "list_all (rule_allows r) as" "ts' = map address_text as"
    by (rule "3.IH" [OF *(1) _ *(2)])
  with * "3.prems"(1) [of "a # as"] show ?case by simp
qed auto

lemma authorize_originE:
  assumes "authorize_origin U v url = Inr c"
  obtains r where "origin_from_url U url = Inr c" "rule_for v c = Some r" "r \<in> set (ev_rules v)" "ru_origin r = c"
  using assms unfolding authorize_origin_def
  by (cases "rule_for v c") (auto simp: rbind_Inr_iff rule_for_def split: if_splits dest: find_SomeD)

lemma admit_hopE:
  assumes "admit_hop U v url answers = Inr h"
  obtains c r as where "authorize_origin U v url = Inr c" "rule_for v c = Some r" "answers = map Answer as"
    "as \<noteq> []" "list_all (rule_allows r) as" "hop_origin h = c" "set (hop_addresses h) = address_text ` set as"
    "hop_addresses h \<noteq> []"
proof -
  from assms obtain c where c: "authorize_origin U v url = Inr c"
    by (auto simp: admit_hop_def rbind_Inr_iff)
  then obtain r where r: "rule_for v c = Some r" by (rule authorize_originE)
  from assms c r obtain ts where ts: "answers \<noteq> []" "admit_answers r c answers = Inr ts"
      "h = \<lparr>hop_origin = c, hop_addresses = sort (remdups ts)\<rparr>"
    by (auto simp: admit_hop_def rbind_Inr_iff split: if_splits)
  from ts(2) obtain as where as: "answers = map Answer as" "list_all (rule_allows r) as" "ts = map address_text as"
    by (rule admit_answersE)
  have "sort (remdups ts) \<noteq> []" using as ts(1) by (metis list.map_disc_iff set_empty set_remdups set_sort)
  with c r as ts that show thesis by auto
qed

text \<open>The policy is default-deny: no rules, no origin.\<close>

lemma empty_policy_denies: "ev_rules v = [] \<Longrightarrow> \<exists>e. authorize_origin U v url = Inl e"
  by (cases "origin_from_url U url") (auto simp: authorize_origin_def rule_for_def)

text \<open>The address an IPv4 network of prefix length 32 admits is that one.\<close>

lemma host_network: "in_prefix w (LENGTH('a)) a \<longleftrightarrow> a = w" for w :: "'a::len word"
  by (simp add: in_prefix_def)

end
