(* ===== verification/Security_Configuration.thy ===== *)
theory Security_Configuration
  imports Egress_Policy Run_Execution Python_Values
begin

text \<open>
  Permission mappings and egress policies: \<open>contracts/security.py\<close>, \<open>contracts/identity.py\<close> (principals),
  \<open>control/security/permissions.py\<close> and the transactions of
  \<open>capabilities/persistence/postgres/security_repository.py\<close> with the audit they append. Claims, groups and
  subjects are text of any language; a creation time is a clock reading.
\<close>

subsection \<open>Errors and identifiers\<close>

datatype session_error =
    Authentication_failed string
  | Persistence task_error
  | Session_value_error string
  | Session_type_error
  | Session_integrity_error
  | Session_runtime_error string

text \<open>
  \<open>uuid_value\<close>: Python's \<open>UUID(text)\<close> drops \<open>urn:\<close>, \<open>uuid:\<close>, braces and dashes and reads what is left, which
  must have 32 characters, with \<open>int(_, 16)\<close>; the key of a row is the number.
\<close>

function remove_text :: "string \<Rightarrow> string \<Rightarrow> string" where
  "remove_text p s = (case s of [] \<Rightarrow> []
     | c # s' \<Rightarrow> if p \<noteq> [] \<and> take (length p) s = p then remove_text p (drop (length p) s)
                else c # remove_text p s')"
  by auto
termination by (relation "measure (\<lambda>(p, s). length s)") auto

declare remove_text.simps [simp del]

definition strip_chars :: "char list \<Rightarrow> string \<Rightarrow> string" where
  "strip_chars cs s = rev (dropWhile (\<lambda>c. c \<in> set cs) (rev (dropWhile (\<lambda>c. c \<in> set cs) s)))"

definition hex_digit :: "char \<Rightarrow> int option" where
  "hex_digit c =
     (if char_between 48 57 c then Some (of_char c - 48)
      else if char_between 97 102 c then Some (of_char c - 87)
      else if char_between 65 70 c then Some (of_char c - 55) else None)"

fun read_hex :: "bool \<Rightarrow> int \<Rightarrow> string \<Rightarrow> int option" where
  "read_hex d n [] = (if d then Some n else None)"
| "read_hex d n (c # cs) =
     (case hex_digit c of
        Some k \<Rightarrow> read_hex True (n * 16 + k) cs
      | None \<Rightarrow> if c = CHR ''_'' \<and> d then read_hex False n cs else None)"

definition int_base16 :: "string \<Rightarrow> int option" where
  "int_base16 s =
     (let t = rev (dropWhile char_space (rev (dropWhile char_space s)));
          u = (case t of c # cs \<Rightarrow> if c = CHR ''+'' then cs else t | [] \<Rightarrow> [])
      in case u of
           CHR ''0'' # x # rest \<Rightarrow>
             if (x = CHR ''x'' \<or> x = CHR ''X'') \<and> rest \<noteq> [] then read_hex True 0 rest else read_hex False 0 u
         | _ \<Rightarrow> read_hex False 0 u)"

definition uuid_key :: "string \<Rightarrow> int option" where
  "uuid_key s =
     (let h = remove_text ''-'' (strip_chars ''{}'' (remove_text ''uuid:'' (remove_text ''urn:'' s)))
      in if len h = 32 then int_base16 h else None)"

definition uuid_value :: "string \<Rightarrow> string \<Rightarrow> session_error + int" where
  "uuid_value field s = (case uuid_key s of
     None \<Rightarrow> Inl (Persistence (Persistence_invariant (field @ '' must be a full UUID'')))
   | Some k \<Rightarrow> Inr k)"

text \<open>\<open>str(uuid)\<close>.\<close>

definition uuid_text :: "int \<Rightarrow> string" where
  "uuid_text n = (let t = hex_text n; h = replicate (32 - length t) CHR ''0'' @ t in
     joined ''-'' [take 8 h, take 4 (drop 8 h), take 4 (drop 12 h), take 4 (drop 16 h), drop 20 h])"

definition timestamp_value :: "string \<Rightarrow> clock \<Rightarrow> session_error + instant" where
  "timestamp_value field c = (case c of
     Naive \<Rightarrow> Inl (Persistence (Persistence_invariant (field @ '' must be timezone-aware'')))
   | Aware t \<Rightarrow> Inr t)"

subsection \<open>Permissions\<close>

datatype permission = Run_submit | Run_view | Run_cancel | Agent_view | Agent_edit | Agent_validate | Agent_publish
  | Knowledge_source_view | Knowledge_source_edit | Knowledge_source_review | Knowledge_source_publish
  | Knowledge_source_archive | Model_connection_view | Model_connection_edit | Model_connection_validate
  | Model_connection_archive | Tool_source_view | Tool_source_edit | Tool_source_validate | Tool_source_archive
  | Evaluation_view | Evaluation_run | Evaluation_curation_review | Permission_mapping_view
  | Permission_mapping_edit | Egress_policy_view | Egress_policy_edit | Secret_handle_view | Secret_handle_use
  | Audit_view | Audit_export

fun permission_value :: "permission \<Rightarrow> string" where
  "permission_value Run_submit = ''run.submit''"
| "permission_value Run_view = ''run.view''"
| "permission_value Run_cancel = ''run.cancel''"
| "permission_value Agent_view = ''agent.view''"
| "permission_value Agent_edit = ''agent.edit''"
| "permission_value Agent_validate = ''agent.validate''"
| "permission_value Agent_publish = ''agent.publish''"
| "permission_value Knowledge_source_view = ''knowledge_source.view''"
| "permission_value Knowledge_source_edit = ''knowledge_source.edit''"
| "permission_value Knowledge_source_review = ''knowledge_source.review''"
| "permission_value Knowledge_source_publish = ''knowledge_source.publish''"
| "permission_value Knowledge_source_archive = ''knowledge_source.archive''"
| "permission_value Model_connection_view = ''model_connection.view''"
| "permission_value Model_connection_edit = ''model_connection.edit''"
| "permission_value Model_connection_validate = ''model_connection.validate''"
| "permission_value Model_connection_archive = ''model_connection.archive''"
| "permission_value Tool_source_view = ''tool_source.view''"
| "permission_value Tool_source_edit = ''tool_source.edit''"
| "permission_value Tool_source_validate = ''tool_source.validate''"
| "permission_value Tool_source_archive = ''tool_source.archive''"
| "permission_value Evaluation_view = ''evaluation.view''"
| "permission_value Evaluation_run = ''evaluation.run''"
| "permission_value Evaluation_curation_review = ''evaluation_curation.review''"
| "permission_value Permission_mapping_view = ''permission_mapping.view''"
| "permission_value Permission_mapping_edit = ''permission_mapping.edit''"
| "permission_value Egress_policy_view = ''egress_policy.view''"
| "permission_value Egress_policy_edit = ''egress_policy.edit''"
| "permission_value Secret_handle_view = ''secret_handle.view''"
| "permission_value Secret_handle_use = ''secret_handle.use''"
| "permission_value Audit_view = ''audit.view''"
| "permission_value Audit_export = ''audit.export''"

definition all_permissions :: "permission list" where
  "all_permissions = [Run_submit, Run_view, Run_cancel, Agent_view, Agent_edit, Agent_validate, Agent_publish,
     Knowledge_source_view, Knowledge_source_edit, Knowledge_source_review, Knowledge_source_publish,
     Knowledge_source_archive, Model_connection_view, Model_connection_edit, Model_connection_validate,
     Model_connection_archive, Tool_source_view, Tool_source_edit, Tool_source_validate, Tool_source_archive,
     Evaluation_view, Evaluation_run, Evaluation_curation_review, Permission_mapping_view,
     Permission_mapping_edit, Egress_policy_view, Egress_policy_edit, Secret_handle_view, Secret_handle_use,
     Audit_view, Audit_export]"

text \<open>\<open>Permission(value)\<close>.\<close>

definition permission_of :: "string \<Rightarrow> permission option" where
  "permission_of s = find (\<lambda>p. permission_value p = s) all_permissions"

record claim_rule =
  cr_path :: utext
  cr_value :: utext
  cr_permissions :: "permission list"
  cr_institutions :: "authorization option"

definition claim_rule_ok :: "claim_rule \<Rightarrow> bool" where
  "claim_rule_ok r \<longleftrightarrow> cr_path r \<noteq> [] \<and> cr_value r \<noteq> [] \<and> distinct (cr_permissions r)
     \<and> opt_ok authorization_ok (cr_institutions r)"

record mapping_version =
  mv_id :: string
  mv_revision :: int
  mv_rules :: "claim_rule list"
  mv_created_at :: clock
  mv_created_by :: utext

definition mapping_version_ok :: "mapping_version \<Rightarrow> bool" where
  "mapping_version_ok v \<longleftrightarrow> mv_id v \<noteq> [] \<and> 1 \<le> mv_revision v \<and> list_all claim_rule_ok (mv_rules v)
     \<and> mv_created_by v \<noteq> [] \<and> distinct (map (\<lambda>r. (cr_path r, cr_value r)) (mv_rules v))"

record recovery_mapping =
  rm_path :: utext
  rm_group :: utext
  rm_permissions :: "permission list"

definition recovery_ok :: "recovery_mapping \<Rightarrow> bool" where
  "recovery_ok m \<longleftrightarrow> rm_path m \<noteq> [] \<and> rm_group m \<noteq> []
     \<and> list_all (\<lambda>p. p \<in> set (rm_permissions m)) [Permission_mapping_view, Permission_mapping_edit, Audit_view]"

subsection \<open>Principals and what they are granted\<close>

record principal =
  pr_subject :: utext
  pr_issuer :: utext
  pr_audience :: utext
  pr_display_name :: utext
  pr_email :: "utext option"
  pr_groups :: "utext list"
  pr_roles :: "utext list"
  pr_claims :: "(utext \<times> utext list) list"
  pr_authenticated_at :: instant
  pr_verified_at :: instant

definition claim_values :: "principal \<Rightarrow> utext \<Rightarrow> utext list" where
  "claim_values p path =
     (if path \<in> {lit ''groups'', lit ''trusted_groups''} then pr_groups p
      else if path \<in> {lit ''roles'', lit ''trusted_roles''} then pr_roles p
      else (case map_of (pr_claims p) path of None \<Rightarrow> [] | Some vs \<Rightarrow> vs))"

definition rule_matches :: "principal \<Rightarrow> claim_rule \<Rightarrow> bool" where
  "rule_matches p r \<longleftrightarrow> cr_value r \<in> set (claim_values p (cr_path r))"

text \<open>\<open>effective_permissions\<close>: the union over the matching rules and the recovery group, each once.\<close>

definition effective_permissions :: "recovery_mapping \<Rightarrow> mapping_version option \<Rightarrow> principal \<Rightarrow> permission list" where
  "effective_permissions rm active p = remdups
     ((case active of None \<Rightarrow> []
       | Some v \<Rightarrow> concat (map cr_permissions (filter (rule_matches p) (mv_rules v))))
      @ (if rm_group rm \<in> set (claim_values p (rm_path rm)) then rm_permissions rm else []))"

definition matched_scopes :: "mapping_version option \<Rightarrow> principal \<Rightarrow> (authorization \<Rightarrow> string list) \<Rightarrow> string list" where
  "matched_scopes active p scope = (case active of None \<Rightarrow> []
     | Some v \<Rightarrow> sort (remdups (concat (map (\<lambda>r. case cr_institutions r of None \<Rightarrow> [] | Some a \<Rightarrow> scope a)
                   (filter (rule_matches p) (mv_rules v))))))"

definition public_authorization :: authorization where
  "public_authorization = \<lparr>authz_institutions = [], authz_regions = [], authz_channels = [], authz_roles = [],
     authz_business_lines = [], authz_public_only = True\<rparr>"

definition institution_authorization :: "mapping_version option \<Rightarrow> principal \<Rightarrow> authorization" where
  "institution_authorization active p =
     (let a = \<lparr>authz_institutions = matched_scopes active p authz_institutions,
               authz_regions = matched_scopes active p authz_regions,
               authz_channels = matched_scopes active p authz_channels,
               authz_roles = matched_scopes active p authz_roles,
               authz_business_lines = matched_scopes active p authz_business_lines,
               authz_public_only = False\<rparr>
      in if list_all (\<lambda>xs. xs = []) (authorization_scopes a) then public_authorization else a)"

datatype authorization_outcome = Authz_allowed | Authz_denied

record authorization_decision =
  ad_outcome :: authorization_outcome
  ad_permission :: permission
  ad_subject :: utext
  ad_mapping :: string
  ad_reason :: string

definition authorize :: "recovery_mapping \<Rightarrow> mapping_version option \<Rightarrow> principal \<Rightarrow> permission \<Rightarrow> authorization_decision" where
  "authorize rm active p q =
     (let allowed = q \<in> set (effective_permissions rm active p) in
      \<lparr>ad_outcome = (if allowed then Authz_allowed else Authz_denied), ad_permission = q,
       ad_subject = pr_subject p, ad_mapping = (case active of None \<Rightarrow> ''none'' | Some v \<Rightarrow> mv_id v),
       ad_reason = (if allowed then ''permission_granted'' else ''permission_not_granted'')\<rparr>)"

definition validate_editable_mapping :: "recovery_mapping \<Rightarrow> mapping_version \<Rightarrow> session_error + unit" where
  "validate_editable_mapping rm v =
     (if list_ex (\<lambda>r. (cr_path r, cr_value r) = (rm_path rm, rm_group rm)) (mv_rules v)
      then Inl (Session_value_error ''Recovery OIDC Group mapping is deployment-owned and immutable'')
      else Inr ())"

end
