(* ===== verification/Security_Store.thy ===== *)
theory Security_Store
  imports Security_Configuration
begin

text \<open>
  The PostgreSQL authority of operator security: the tables of the migrations 0003 and 0004 with
  their constraints, and the transactions of \<open>security_repository.py\<close>, \<open>session_repository.py\<close> and
  \<open>audit_repository.py\<close> below \<open>capabilities/persistence/postgres/\<close>. A transaction is a function of the
  database; on an error the database is unchanged. A violated constraint is \<open>Session_integrity_error\<close>.
\<close>

subsection \<open>Rows\<close>

record audit_event =
  ae_id :: string
  ae_category :: string
  ae_type :: string
  ae_outcome :: string
  ae_actor :: pydict
  ae_target_type :: string
  ae_target :: string
  ae_metadata :: pydict
  ae_occurred_at :: clock

record audit_row =
  au_key :: int
  au_event :: audit_event
  au_occurred :: instant
  au_expires :: instant

record mapping_row =
  mr_key :: int
  mr_version :: mapping_version
  mr_created :: instant

record policy_row =
  po_key :: int
  po_version :: egress_version
  po_created :: instant

text \<open>
  \<open>OidcLoginAttemptRecord\<close> and \<open>OperatorSessionRecord\<close>; a session identifier is the number of a UUID that
  the service drew itself.
\<close>

record login_attempt =
  la_state :: string
  la_nonce_envelope :: string
  la_pkce_envelope :: string
  la_key_version :: string
  la_redirect_uri :: string
  la_created :: instant
  la_expires :: instant
  la_consumed :: "instant option"

definition login_attempt_ok :: "login_attempt \<Rightarrow> bool" where
  "login_attempt_ok a \<longleftrightarrow> hex64_ok (la_state a) \<and> la_key_version a \<noteq> [] \<and> la_redirect_uri a \<noteq> []"

record operator_session =
  os_id :: int
  os_version :: int
  os_token :: string
  os_principal :: principal
  os_envelope :: string
  os_key_version :: string
  os_mapping :: "string option"
  os_epoch :: int
  os_created :: instant
  os_absolute :: instant
  os_idle :: instant
  os_verified :: instant
  os_revoked :: "instant option"

definition operator_session_ok :: "operator_session \<Rightarrow> bool" where
  "operator_session_ok s \<longleftrightarrow> 1 \<le> os_version s \<and> hex64_ok (os_token s) \<and> os_key_version s \<noteq> [] \<and> 0 \<le> os_epoch s"

record security_db =
  sd_attempts :: "login_attempt list"
  sd_sessions :: "operator_session list"
  sd_mappings :: "mapping_row list"
  sd_active_mapping :: "int option"
  sd_mapping_revision :: int
  sd_epoch :: int
  sd_policies :: "policy_row list"
  sd_active_policy :: "int option"
  sd_policy_revision :: int
  sd_audit :: "audit_row list"

text \<open>The database after migration 0004.\<close>

definition migrated_db :: security_db where
  "migrated_db = \<lparr>sd_attempts = [], sd_sessions = [], sd_mappings = [], sd_active_mapping = None,
     sd_mapping_revision = 0, sd_epoch = 0, sd_policies = [], sd_active_policy = None, sd_policy_revision = 0,
     sd_audit = []\<rparr>"

subsection \<open>Audit\<close>

definition audit_append :: "audit_event \<Rightarrow> security_db \<Rightarrow> session_error + security_db" where
  "audit_append e db =
     rbind (timestamp_value ''occurred_at'' (ae_occurred_at e)) (\<lambda>t.
     rbind (uuid_value ''audit_id'' (ae_id e)) (\<lambda>k.
       if k \<in> au_key ` set (sd_audit db)
       then Inl (Persistence (Persistence_conflict ''audit_event'' (ae_id e) 0 (Some 1)))
       else Inr (db\<lparr>sd_audit := sd_audit db @ [\<lparr>au_key = k, au_event = e, au_occurred = t,
                                                au_expires = t + days 365\<rparr>]\<rparr>)))"

subsection \<open>Permission mappings\<close>

definition append_permission_mapping ::
  "mapping_version \<Rightarrow> int \<Rightarrow> security_db \<Rightarrow> session_error + mapping_version \<times> security_db" where
  "append_permission_mapping v expected db =
     (if mv_revision v \<noteq> expected + 1
      then Inl (Session_value_error ''permission mapping revision must increment exactly once'')
      else if sd_mapping_revision db \<noteq> expected
      then Inl (Persistence (Persistence_conflict ''permission_mapping'' (mv_id v) expected (Some (sd_mapping_revision db))))
      else
        rbind (uuid_value ''version_id'' (mv_id v)) (\<lambda>k.
        rbind (timestamp_value ''created_at'' (mv_created_at v)) (\<lambda>t.
          if k \<in> mr_key ` set (sd_mappings db) \<or> mv_revision v \<in> (\<lambda>r. mv_revision (mr_version r)) ` set (sd_mappings db)
             \<or> mv_revision v \<le> 0
          then Inl Session_integrity_error
          else Inr (v, db\<lparr>sd_mappings := sd_mappings db @ [\<lparr>mr_key = k, mr_version = v, mr_created = t\<rparr>],
                          sd_mapping_revision := mv_revision v\<rparr>))))"

definition get_permission_mapping :: "string \<Rightarrow> security_db \<Rightarrow> session_error + mapping_version option" where
  "get_permission_mapping version_id db =
     rbind (uuid_value ''version_id'' version_id) (\<lambda>k. Inr (map_option mr_version (lookup_row mr_key k (sd_mappings db))))"

definition list_permission_mappings :: "security_db \<Rightarrow> mapping_version list" where
  "list_permission_mappings db = rev (sort_key mv_revision (map mr_version (sd_mappings db)))"

definition active_permission_mapping :: "security_db \<Rightarrow> mapping_version option" where
  "active_permission_mapping db = (case sd_active_mapping db of None \<Rightarrow> None
     | Some k \<Rightarrow> map_option mr_version (lookup_row mr_key k (sd_mappings db)))"

definition activate_permission_mapping ::
  "string \<Rightarrow> audit_event \<Rightarrow> security_db \<Rightarrow> session_error + mapping_version \<times> security_db" where
  "activate_permission_mapping version_id e db =
     rbind (uuid_value ''version_id'' version_id) (\<lambda>k.
       case lookup_row mr_key k (sd_mappings db) of
         None \<Rightarrow> Inl (Persistence (Persistence_not_found ''permission_mapping_version'' version_id))
       | Some r \<Rightarrow>
           rbind (audit_append e (db\<lparr>sd_active_mapping := Some k, sd_epoch := sd_epoch db + 1\<rparr>))
             (\<lambda>db'. Inr (mr_version r, db')))"

subsection \<open>Egress policies\<close>

definition append_egress_policy ::
  "egress_version \<Rightarrow> int \<Rightarrow> security_db \<Rightarrow> session_error + egress_version \<times> security_db" where
  "append_egress_policy v expected db =
     (if ev_revision v \<noteq> expected + 1
      then Inl (Session_value_error ''egress policy revision must increment exactly once'')
      else if sd_policy_revision db \<noteq> expected
      then Inl (Persistence (Persistence_conflict ''egress_policy'' (ev_id v) expected (Some (sd_policy_revision db))))
      else
        rbind (uuid_value ''version_id'' (ev_id v)) (\<lambda>k.
        rbind (timestamp_value ''created_at'' (ev_created_at v)) (\<lambda>t.
          if k \<in> po_key ` set (sd_policies db) \<or> ev_revision v \<in> (\<lambda>r. ev_revision (po_version r)) ` set (sd_policies db)
             \<or> ev_revision v \<le> 0
          then Inl Session_integrity_error
          else Inr (v, db\<lparr>sd_policies := sd_policies db @ [\<lparr>po_key = k, po_version = v, po_created = t\<rparr>],
                          sd_policy_revision := ev_revision v\<rparr>))))"

definition get_egress_policy :: "string \<Rightarrow> security_db \<Rightarrow> session_error + egress_version option" where
  "get_egress_policy version_id db =
     rbind (uuid_value ''version_id'' version_id) (\<lambda>k. Inr (map_option po_version (lookup_row po_key k (sd_policies db))))"

definition list_egress_policies :: "security_db \<Rightarrow> egress_version list" where
  "list_egress_policies db = rev (sort_key ev_revision (map po_version (sd_policies db)))"

definition active_egress_policy :: "security_db \<Rightarrow> egress_version option" where
  "active_egress_policy db = (case sd_active_policy db of None \<Rightarrow> None
     | Some k \<Rightarrow> map_option po_version (lookup_row po_key k (sd_policies db)))"

definition activate_egress_policy ::
  "string \<Rightarrow> audit_event \<Rightarrow> security_db \<Rightarrow> session_error + egress_version \<times> security_db" where
  "activate_egress_policy version_id e db =
     rbind (uuid_value ''version_id'' version_id) (\<lambda>k.
       case lookup_row po_key k (sd_policies db) of
         None \<Rightarrow> Inl (Persistence (Persistence_not_found ''egress_policy_version'' version_id))
       | Some r \<Rightarrow> rbind (audit_append e (db\<lparr>sd_active_policy := Some k\<rparr>)) (\<lambda>db'. Inr (po_version r, db')))"

subsection \<open>Login attempts\<close>

definition create_login_attempt :: "login_attempt \<Rightarrow> security_db \<Rightarrow> session_error + unit \<times> security_db" where
  "create_login_attempt a db =
     (if \<not> hex64_ok (la_state a) \<or> la_expires a \<le> la_created a then Inl Session_integrity_error
      else if la_state a \<in> la_state ` set (sd_attempts db)
      then Inl (Persistence (Persistence_conflict ''oidc_login_attempt'' (la_state a) 0 (Some 1)))
      else Inr ((), db\<lparr>sd_attempts := sd_attempts db @ [a\<lparr>la_consumed := None\<rparr>]\<rparr>))"

text \<open>The conditional update finds one row at most, the state being the primary key.\<close>

definition consumable :: "string \<Rightarrow> instant \<Rightarrow> login_attempt \<Rightarrow> bool" where
  "consumable state t a \<longleftrightarrow> la_state a = state \<and> la_consumed a = None \<and> t < la_expires a"

definition consume_login_attempt ::
  "string \<Rightarrow> instant \<Rightarrow> security_db \<Rightarrow> session_error + login_attempt option \<times> security_db" where
  "consume_login_attempt state t db =
     (case find (consumable state t) (sd_attempts db) of
        None \<Rightarrow> Inr (None, db)
      | Some a \<Rightarrow>
          if t < la_created a then Inl Session_integrity_error
          else Inr (Some (a\<lparr>la_consumed := Some t\<rparr>),
                 db\<lparr>sd_attempts := update_where (consumable state t) (\<lambda>a. a\<lparr>la_consumed := Some t\<rparr>) (sd_attempts db)\<rparr>))"

subsection \<open>Sessions\<close>

text \<open>The constraints of a row, and the uniqueness of its token among the other rows.\<close>

definition session_row_ok :: "operator_session \<Rightarrow> bool" where
  "session_row_ok s \<longleftrightarrow> 0 < os_version s \<and> hex64_ok (os_token s) \<and> 0 \<le> os_epoch s
     \<and> os_created s < os_absolute s \<and> os_created s < os_idle s \<and> os_idle s \<le> os_absolute s"

definition mapping_key :: "string option \<Rightarrow> session_error + int option" where
  "mapping_key m = (case m of None \<Rightarrow> Inr None
     | Some v \<Rightarrow> rbind (uuid_value ''permission_mapping_version_id'' v) (\<lambda>k. Inr (Some k)))"

definition mapping_exists :: "int option \<Rightarrow> security_db \<Rightarrow> bool" where
  "mapping_exists m db \<longleftrightarrow> opt_ok (\<lambda>k. k \<in> mr_key ` set (sd_mappings db)) m"

definition session_conflict :: "operator_session \<Rightarrow> int \<Rightarrow> int option \<Rightarrow> session_error" where
  "session_conflict s expected actual =
     Persistence (Persistence_conflict ''operator_session'' (uuid_text (os_id s)) expected actual)"

definition create_session :: "operator_session \<Rightarrow> security_db \<Rightarrow> session_error + unit \<times> security_db" where
  "create_session s db =
     (if os_version s \<noteq> 1 then Inl (Session_value_error ''new operator session version must be 1'')
      else rbind (mapping_key (os_mapping s)) (\<lambda>m.
        if \<not> session_row_ok s then Inl Session_integrity_error
        else if os_id s \<in> os_id ` set (sd_sessions db) then Inl (session_conflict s 0 (Some 1))
        else if os_token s \<in> os_token ` set (sd_sessions db) \<or> \<not> mapping_exists m db
        then Inl Session_integrity_error
        else Inr ((), db\<lparr>sd_sessions := sd_sessions db @ [s]\<rparr>)))"

definition session_by_token :: "string \<Rightarrow> security_db \<Rightarrow> operator_session option" where
  "session_by_token h db = lookup_row os_token h (sd_sessions db)"

definition update_session :: "operator_session \<Rightarrow> int \<Rightarrow> security_db \<Rightarrow> session_error + unit \<times> security_db" where
  "update_session s expected db =
     (if os_version s \<noteq> expected + 1 then Inl (Session_value_error ''session update must increment version exactly once'')
      else rbind (mapping_key (os_mapping s)) (\<lambda>m.
        case lookup_row os_id (os_id s) (sd_sessions db) of
          None \<Rightarrow> Inl (session_conflict s expected None)
        | Some r \<Rightarrow>
            if os_version r \<noteq> expected then Inl (session_conflict s expected (Some (os_version r)))
            else if \<not> session_row_ok s \<or> os_token s \<in> os_token ` {x \<in> set (sd_sessions db). os_id x \<noteq> os_id s}
              \<or> \<not> mapping_exists m db
            then Inl Session_integrity_error
            else Inr ((), db\<lparr>sd_sessions := put_row os_id s (sd_sessions db)\<rparr>)))"

definition revocable :: "string \<Rightarrow> operator_session \<Rightarrow> bool" where
  "revocable h s \<longleftrightarrow> os_token s = h \<and> os_revoked s = None"

definition revoke_by_token_hash :: "string \<Rightarrow> instant \<Rightarrow> security_db \<Rightarrow> session_error + bool \<times> security_db" where
  "revoke_by_token_hash h t db =
     Inr (list_ex (revocable h) (sd_sessions db),
       db\<lparr>sd_sessions := update_where (revocable h)
            (\<lambda>s. s\<lparr>os_revoked := Some t, os_version := os_version s + 1\<rparr>) (sd_sessions db)\<rparr>)"

end
