(* ===== verification/Guarded_Client.thy ===== *)
theory Guarded_Client
  imports Egress_Policy Python_Values
begin

text \<open>
  The outbound HTTPS client of \<open>capabilities/egress/guarded_http.py\<close>: every hop is resolved afresh, all
  answers are checked against the active policy, and the connection is pinned to an admitted
  address. The resolver and the transport are ports over a world of their own; the client logs what
  it sends and which denials it reports. Methods and header names are ASCII.
\<close>

subsection \<open>Messages\<close>

record response =
  rs_status :: int
  rs_headers :: "(string \<times> string) list"
  rs_body :: string

record sent =
  sn_method :: string
  sn_url :: string
  sn_address :: string
  sn_tls_host :: string
  sn_headers :: "(string \<times> string) list"
  sn_body :: "string option"
  sn_max_bytes :: int

datatype net_event = Sent sent | Denial_reported string "string option"

record 'w net_ports =
  np_resolve :: "string \<Rightarrow> int \<Rightarrow> 'w \<Rightarrow> (string + dns_answer list) \<times> 'w"
  np_send :: "sent \<Rightarrow> 'w \<Rightarrow> (string + response) \<times> 'w"

type_synonym 'w net = "'w \<times> net_event list"

record guarded_client =
  gc_policy :: egress_version
  gc_max_redirects :: int
  gc_max_attempts :: int
  gc_max_answers :: int
  gc_max_bytes :: int
  gc_reports :: bool

text \<open>The constructor, and \<open>restricted\<close>, which only ever lowers the bounds.\<close>

definition new_client :: "guarded_client \<Rightarrow> egress_error + guarded_client" where
  "new_client c =
     (if gc_max_redirects c < 0 then Inl (Egress_value_error ''max_redirects cannot be negative'')
      else if gc_max_attempts c < 1 then Inl (Egress_value_error ''max_attempts_per_hop must be positive'')
      else if gc_max_answers c < 1 \<or> gc_max_bytes c < 1
      then Inl (Egress_value_error ''guarded HTTPS bounds must be positive'')
      else Inr c)"

definition restricted :: "guarded_client \<Rightarrow> int \<Rightarrow> int \<Rightarrow> int \<Rightarrow> egress_error + guarded_client" where
  "restricted c redirects attempts bytes = new_client
     (c\<lparr>gc_max_redirects := min redirects (gc_max_redirects c),
        gc_max_attempts := min attempts (gc_max_attempts c),
        gc_max_bytes := min bytes (gc_max_bytes c)\<rparr>)"

subsection \<open>Methods and headers\<close>

definition upper_char :: "char \<Rightarrow> char" where
  "upper_char c = (if char_between 97 122 c then char_of (of_char c - 32 :: int) else c)"

definition ascii_letter :: "char \<Rightarrow> bool" where
  "ascii_letter c \<longleftrightarrow> char_between 65 90 c \<or> char_between 97 122 c"

definition validated_method :: "string \<Rightarrow> egress_error + string" where
  "validated_method m = (let u = map upper_char m in
     if u = [] \<or> \<not> list_all ascii_letter u \<or> 16 < len u
     then Inl (Egress_value_error ''guarded HTTPS method is invalid'') else Inr u)"

definition header_ok :: "string \<times> string \<Rightarrow> bool" where
  "header_ok kv \<longleftrightarrow> (case kv of (k, v) \<Rightarrow> k \<noteq> [] \<and> v \<noteq> []
     \<and> list_all (\<lambda>c. of_char c \<noteq> (13 :: int) \<and> of_char c \<noteq> (10 :: int)) (k @ v)
     \<and> lower_ascii k \<notin> {''host'', ''connection'', ''transfer-encoding''})"

definition validated_headers :: "(string \<times> string) list \<Rightarrow> egress_error + (string \<times> string) list" where
  "validated_headers hs = (if list_all header_ok hs then Inr hs
     else Inl (Egress_value_error ''guarded HTTPS header is invalid''))"

definition header_value :: "(string \<times> string) list \<Rightarrow> string \<Rightarrow> string option" where
  "header_value hs name = map_option snd (find (\<lambda>(k, _). lower_ascii k = lower_ascii name) hs)"

definition sensitive_header :: "string \<Rightarrow> bool" where
  "sensitive_header k \<longleftrightarrow> lower_ascii k \<in> {''authorization'', ''cookie'', ''proxy-authorization'', ''x-api-key'',
     ''x-auth-token'', ''x-vault-token''}"

definition content_header :: "string \<Rightarrow> bool" where
  "content_header k \<longleftrightarrow> lower_ascii k \<in> {''content-length'', ''content-type''}"

definition redirect_status :: "int \<Rightarrow> bool" where
  "redirect_status n \<longleftrightarrow> n \<in> {301, 302, 303, 307, 308}"

definition retryable_status :: "int \<Rightarrow> bool" where
  "retryable_status n \<longleftrightarrow> n \<in> {408, 425, 429, 500, 502, 503, 504}"

subsection \<open>One hop\<close>

text \<open>
  \<open>_request_hop\<close>: up to \<open>max_attempts_per_hop\<close> attempts, each with a fresh resolution; the argument counts
  the attempts left.
\<close>

fun attempt_hop :: "'w net_ports \<Rightarrow> url_codec \<Rightarrow> guarded_client \<Rightarrow> origin \<Rightarrow> string \<Rightarrow> string
    \<Rightarrow> (string \<times> string) list \<Rightarrow> string option \<Rightarrow> nat \<Rightarrow> 'w net \<Rightarrow> (egress_error + response) \<times> 'w net" where
  "attempt_hop N U C c m url hs b 0 (w, sends) =
     (Inl (Egress_transport ''bounded retry loop did not return''), w, sends)"
| "attempt_hop N U C c m url hs b (Suc n) (w, sends) =
     (case np_resolve N (or_host c) (or_port c) w of
        (Inl _, w1) \<Rightarrow> (Inl (Egress_denied ''dns_resolution_failed'' (Some c)), w1, sends)
      | (Inr answers, w1) \<Rightarrow>
          if gc_max_answers C < len answers
          then (Inl (Egress_denied ''dns_answer_limit_exceeded'' (Some c)), w1, sends)
          else
            (case admit_hop U (gc_policy C) url answers of
               Inl e \<Rightarrow> (Inl e, w1, sends)
             | Inr h \<Rightarrow>
                 let s = \<lparr>sn_method = m, sn_url = url, sn_address = hd (hop_addresses h),
                          sn_tls_host = or_host (hop_origin h), sn_headers = hs, sn_body = b,
                          sn_max_bytes = gc_max_bytes C\<rparr>
                 in (case np_send N s w1 of
                       (Inl t, w2) \<Rightarrow> (Inl (Egress_transport t), w2, sends @ [Sent s])
                     | (Inr r, w2) \<Rightarrow>
                         if \<not> retryable_status (rs_status r) \<or> n = 0 then (Inr r, w2, sends @ [Sent s])
                         else attempt_hop N U C c m url hs b n (w2, sends @ [Sent s]))))"

definition request_hop :: "'w net_ports \<Rightarrow> url_codec \<Rightarrow> guarded_client \<Rightarrow> string \<Rightarrow> string
    \<Rightarrow> (string \<times> string) list \<Rightarrow> string option \<Rightarrow> 'w net \<Rightarrow> (egress_error + response) \<times> 'w net" where
  "request_hop N U C m url hs b s =
     (case authorize_origin U (gc_policy C) url of
        Inl e \<Rightarrow> (Inl e, s)
      | Inr c \<Rightarrow> attempt_hop N U C c m url hs b (nat (gc_max_attempts C)) s)"

subsection \<open>Redirects\<close>

definition redirected_headers :: "bool \<Rightarrow> (string \<times> string) list \<Rightarrow> (string \<times> string) list" where
  "redirected_headers same_origin hs =
     (if same_origin then hs else filter (\<lambda>(k, _). \<not> sensitive_header k) hs)"

definition becomes_get :: "int \<Rightarrow> string \<Rightarrow> bool" where
  "becomes_get status m \<longleftrightarrow> status = 303 \<or> status \<in> {301, 302} \<and> m = ''POST''"

function (sequential) request_loop :: "'w net_ports \<Rightarrow> url_codec \<Rightarrow> guarded_client \<Rightarrow> string \<Rightarrow> string
    \<Rightarrow> (string \<times> string) list \<Rightarrow> string option \<Rightarrow> int \<Rightarrow> 'w net \<Rightarrow> (egress_error + response) \<times> 'w net" where
  "request_loop N U C m url hs b redirects s =
     (case request_hop N U C m url hs b s of
        (Inl e, s1) \<Rightarrow> (Inl e, s1)
      | (Inr r, s1) \<Rightarrow>
          if \<not> redirect_status (rs_status r) then (Inr r, s1)
          else
            (case header_value (rs_headers r) ''location'' of
               None \<Rightarrow> (Inr r, s1)
             | Some location \<Rightarrow>
                 if gc_max_redirects C \<le> redirects
                 then (Inl (Egress_denied ''redirect_limit_exceeded'' None), s1)
                 else
                   let next_url = uc_join U url location in
                   (case (authorize_origin U (gc_policy C) url, authorize_origin U (gc_policy C) next_url) of
                      (Inl e, _) \<Rightarrow> (Inl e, s1)
                    | (Inr _, Inl e) \<Rightarrow> (Inl e, s1)
                    | (Inr c, Inr c') \<Rightarrow>
                        let kept = redirected_headers (c = c') hs in
                        if becomes_get (rs_status r) m
                        then request_loop N U C ''GET'' next_url (filter (\<lambda>(k, _). \<not> content_header k) kept)
                               None (redirects + 1) s1
                        else request_loop N U C m next_url kept b (redirects + 1) s1)))"
  by pat_completeness auto
termination
  by (relation "measure (\<lambda>(N, U, C, m, url, hs, b, redirects, s). nat (gc_max_redirects C - redirects))") auto

declare request_loop.simps [simp del]

text \<open>The audit of a denial: an error of the sink is swallowed.\<close>

definition report_denial :: "guarded_client \<Rightarrow> egress_error \<Rightarrow> 'w net \<Rightarrow> 'w net" where
  "report_denial C e s =
     (case e of
        Egress_denied reason c \<Rightarrow>
          if gc_reports C then (fst s, snd s @ [Denial_reported reason (map_option origin_value c)]) else s
      | _ \<Rightarrow> s)"

definition guarded_request :: "'w net_ports \<Rightarrow> url_codec \<Rightarrow> guarded_client \<Rightarrow> string \<Rightarrow> string
    \<Rightarrow> (string \<times> string) list \<Rightarrow> string option \<Rightarrow> rat \<Rightarrow> 'w net \<Rightarrow> (egress_error + response) \<times> 'w net" where
  "guarded_request N U C m url hs b timeout s =
     (if timeout \<le> 0 then (Inl (Egress_value_error ''guarded HTTPS timeout must be positive''), s)
      else
        (case rbind (validated_method m) (\<lambda>m'. rbind (validated_headers hs) (\<lambda>hs'. Inr (m', hs'))) of
           Inl e \<Rightarrow> (Inl e, s)
         | Inr (m', hs') \<Rightarrow>
             (case request_loop N U C m' url hs' b 0 s of
                (Inl e, s1) \<Rightarrow> (Inl e, report_denial C e s1)
              | (Inr r, s1) \<Rightarrow> (Inr r, s1))))"

subsection \<open>The adapters of the standard library\<close>

text \<open>\<open>SystemAddressResolver\<close>: the addresses of \<open>getaddrinfo\<close>, each once.\<close>

definition system_answers :: "dns_answer list \<Rightarrow> dns_answer list" where
  "system_answers records = dict_fromkeys records"

text \<open>\<open>HTTPResponse.getheader\<close>: the values of a repeated header are joined.\<close>

definition get_header :: "(string \<times> string) list \<Rightarrow> string \<Rightarrow> string option" where
  "get_header hs name = (let vs = map snd (filter (\<lambda>(k, _). lower_ascii k = name) hs)
     in if vs = [] then None else Some (joined '', '' vs))"

text \<open>
  \<open>StdlibPinnedHttpsTransport.send\<close> around the exchange on the TLS socket, which receives the request
  line, the headers and the body and returns a status, the headers and the whole body.
\<close>

definition pinned_send :: "url_codec \<Rightarrow> (string \<Rightarrow> int \<Rightarrow> string \<Rightarrow> string \<Rightarrow> string \<Rightarrow> (string \<times> string) list
    \<Rightarrow> string option \<Rightarrow> string + response) \<Rightarrow> sent \<Rightarrow> string + response" where
  "pinned_send U exchange s =
     (case uc_split U (sn_url s) of
        None \<Rightarrow> Inl ''ValueError''
      | Some u \<Rightarrow>
          (case up_port u of
             None \<Rightarrow> Inl ''ValueError''
           | Some p \<Rightarrow>
               if lower_ascii (up_scheme u) \<noteq> ''https'' \<or> up_host u \<noteq> Some (sn_tls_host s)
               then Inl ''pinned HTTPS transport received inconsistent authority''
               else
                 let path = (if up_path u = [] then ''/'' else up_path u);
                     target = (if up_query u = [] then path else path @ ''?'' @ up_query u) in
                 rbind (case validated_headers (sn_headers s) of
                          Inl _ \<Rightarrow> Inl ''guarded HTTPS header is invalid''
                        | Inr hs \<Rightarrow> Inr (dict_put fst (''Connection'', ''close'') hs)) (\<lambda>hs.
                 rbind (exchange (sn_address s) (if p = 0 then 443 else p) (sn_tls_host s) (sn_method s) target
                          hs (sn_body s)) (\<lambda>r.
                 rbind (case get_header (rs_headers r) ''content-length'' of
                          None \<Rightarrow> Inr ()
                        | Some t \<Rightarrow>
                            (case read_int (lit t) of
                               None \<Rightarrow> Inl ''guarded HTTPS response has invalid Content-Length''
                             | Some n \<Rightarrow> if n < 0 \<or> sn_max_bytes s < n
                                 then Inl ''guarded HTTPS response exceeds byte limit'' else Inr ())) (\<lambda>_.
                 let body = take (nat (sn_max_bytes s + 1)) (rs_body r) in
                 if sn_max_bytes s < len body then Inl ''guarded HTTPS response exceeds byte limit''
                 else Inr \<lparr>rs_status = rs_status r,
                           rs_headers = foldl (\<lambda>d (k, v). dict_put fst (lower_ascii k, v) d) [] (rs_headers r), rs_body = body\<rparr>)))))"

end
