(* ===== verification/Oidc_Client.thy ===== *)
theory Oidc_Client
  imports Security_Configuration Guarded_Client
begin

text \<open>
  The OIDC client of \<open>capabilities/identity/oidc_client.py\<close>: authorization code with PKCE, refresh, and
  the checks of an ID token. The HTTP client is an argument (the guarded client is one); so are JSON
  text, the encodings of requests, and the JOSE library that imports key sets and verifies
  signatures.
\<close>

datatype oidc_error =
    Oidc_rejected string
  | Oidc_value_error string
  | Oidc_type_error
  | Oidc_runtime_error string

record oidc_configuration =
  oc_issuer :: string
  oc_authorization_endpoint :: string
  oc_token_endpoint :: string
  oc_jwks_uri :: string
  oc_client_id :: string
  oc_scopes :: "string list"
  oc_groups_claim :: string
  oc_roles_claim :: string

text \<open>
  The libraries: \<open>json.loads\<close> and \<open>json.dumps\<close>, the \<open>Authorization: Basic\<close> credential, \<open>urlencode\<close>,
  \<open>import_key_set\<close> and the decoding of a token against a key set.
\<close>

record 'k oidc_codec =
  oj_loads :: "string \<Rightarrow> pyval option"
  oj_dumps :: "pydict \<Rightarrow> string"
  oj_basic :: "string \<Rightarrow> string \<Rightarrow> string"
  oj_form :: "(string \<times> utext) list \<Rightarrow> string"
  oj_keys :: "pydict \<Rightarrow> 'k option"
  oj_decode :: "utext \<Rightarrow> 'k \<Rightarrow> pydict option"

text \<open>An HTTP request: method, URL, headers and body; the network has a state of its own.\<close>

type_synonym 'n http = "string \<Rightarrow> string \<Rightarrow> (string \<times> string) list \<Rightarrow> string option \<Rightarrow> 'n
  \<Rightarrow> (egress_error + response) \<times> 'n"

record oidc_settings =
  ot_configuration :: oidc_configuration
  ot_secret :: string
  ot_max_bytes :: int
  ot_skew :: int

record verified_material =
  vm_principal :: principal
  vm_tokens :: string

subsection \<open>Configuration\<close>

definition exact_https :: "url_codec \<Rightarrow> string \<Rightarrow> bool" where
  "exact_https U value \<longleftrightarrow> (case uc_split U value of None \<Rightarrow> False
     | Some u \<Rightarrow> lower_ascii (up_scheme u) = ''https'' \<and> up_host u \<noteq> None \<and> \<not> up_userinfo u
         \<and> up_query u = [] \<and> up_fragment u = [])"

definition exact_endpoint :: "url_codec \<Rightarrow> string \<Rightarrow> bool" where
  "exact_endpoint U value \<longleftrightarrow> exact_https U value
     \<and> (case uc_split U value of None \<Rightarrow> False | Some u \<Rightarrow> up_path u \<notin> {[], ''/''})"

definition oidc_configuration_ok :: "url_codec \<Rightarrow> oidc_configuration \<Rightarrow> bool" where
  "oidc_configuration_ok U c \<longleftrightarrow> exact_https U (oc_issuer c)
     \<and> list_all (exact_endpoint U) [oc_authorization_endpoint c, oc_token_endpoint c, oc_jwks_uri c]
     \<and> oc_client_id c \<noteq> [] \<and> oc_scopes c \<noteq> [] \<and> ''openid'' \<in> set (oc_scopes c)
     \<and> list_all (\<lambda>x. x \<noteq> [] \<and> list_all (\<lambda>ch. \<not> char_space ch) x) (oc_scopes c)
     \<and> oc_groups_claim c \<noteq> [] \<and> oc_roles_claim c \<noteq> []"

text \<open>\<open>authorization_url\<close>: the parameters of the query.\<close>

definition authorization_query :: "url_codec \<Rightarrow> oidc_settings \<Rightarrow> string \<Rightarrow> string \<Rightarrow> string \<Rightarrow> string
    \<Rightarrow> oidc_error + (string \<times> utext) list" where
  "authorization_query U T state nonce challenge redirect_uri =
     (if \<not> exact_https U redirect_uri then Inl (Oidc_value_error ''OIDC redirect URI must be exact HTTPS'')
      else if state = [] \<or> nonce = [] \<or> challenge = []
      then Inl (Oidc_value_error ''OIDC one-time authorization values are required'')
      else Inr [(''response_type'', lit ''code''), (''client_id'', lit (oc_client_id (ot_configuration T))),
                (''redirect_uri'', lit redirect_uri), (''scope'', lit (joined '' '' (oc_scopes (ot_configuration T)))),
                (''state'', lit state), (''nonce'', lit nonce), (''code_challenge'', lit challenge),
                (''code_challenge_method'', lit ''S256'')])"

definition authorization_url :: "'k oidc_codec \<Rightarrow> url_codec \<Rightarrow> oidc_settings \<Rightarrow> string \<Rightarrow> string \<Rightarrow> string \<Rightarrow> string
    \<Rightarrow> oidc_error + string" where
  "authorization_url J U T state nonce challenge redirect_uri =
     rbind (authorization_query U T state nonce challenge redirect_uri) (\<lambda>q.
       Inr (oc_authorization_endpoint (ot_configuration T) @ ''?'' @ oj_form J q))"

subsection \<open>Claims\<close>

definition integer_claim :: "pydict \<Rightarrow> string \<Rightarrow> oidc_error + int" where
  "integer_claim claims name = (case dict_get claims name of
     Py_int n \<Rightarrow> Inr n
   | _ \<Rightarrow> Inl (Oidc_rejected (''id_token_'' @ name @ ''_invalid'')))"

fun text_values :: "pyval list \<Rightarrow> utext list option" where
  "text_values [] = Some []"
| "text_values (v # vs) = (case (v, text_values vs) of (Py_text t, Some ts) \<Rightarrow> Some (t # ts) | _ \<Rightarrow> None)"

definition string_tuple_claim :: "pydict \<Rightarrow> string \<Rightarrow> oidc_error + utext list" where
  "string_tuple_claim claims name =
     (let invalid = Inl (Oidc_rejected ''id_token_trusted_claim_invalid'') in
      case dict_get_or claims name (Py_list []) of
        Py_list vs \<Rightarrow> (case text_values vs of
            None \<Rightarrow> invalid
          | Some ts \<Rightarrow> if [] \<in> set ts then invalid else Inr (dict_fromkeys ts))
      | _ \<Rightarrow> invalid)"

text \<open>\<open>int(datetime.timestamp())\<close>, and the seconds that \<open>datetime.fromtimestamp\<close> accepts.\<close>

definition epoch_seconds :: "instant \<Rightarrow> int" where
  "epoch_seconds t = (if t < 0 then - ((- t) div 1000000) else t div 1000000)"

definition timestamp_from_epoch :: "int \<Rightarrow> oidc_error + instant" where
  "timestamp_from_epoch n = (if -62135596800 \<le> n \<and> n \<le> 253402300799 then Inr (seconds n)
     else Inl (Oidc_value_error ''year is out of range''))"

text \<open>\<open>hmac.compare_digest\<close> of two texts raises a \<open>TypeError\<close> unless both are ASCII.\<close>

definition ascii_text :: "utext \<Rightarrow> bool" where
  "ascii_text s \<longleftrightarrow> list_all (\<lambda>c. c < 128) s"

definition check_identity :: "oidc_configuration \<Rightarrow> pydict \<Rightarrow> oidc_error + utext" where
  "check_identity c claims =
     (case dict_get claims ''sub'' of
        Py_text subject \<Rightarrow>
          if dict_get claims ''iss'' \<noteq> Py_text (lit (oc_issuer c)) \<or> subject = []
          then Inl (Oidc_rejected ''id_token_identity_invalid'') else Inr subject
      | _ \<Rightarrow> Inl (Oidc_rejected ''id_token_identity_invalid''))"

definition check_audience :: "oidc_configuration \<Rightarrow> pydict \<Rightarrow> oidc_error + unit" where
  "check_audience c claims =
     (let audiences = (case dict_get claims ''aud'' of Py_text t \<Rightarrow> Some [Py_text t] | Py_list vs \<Rightarrow> Some vs | _ \<Rightarrow> None)
      in case audiences of
           None \<Rightarrow> Inl (Oidc_rejected ''id_token_audience_invalid'')
         | Some vs \<Rightarrow> if Py_text (lit (oc_client_id c)) \<notin> set vs \<or> text_values vs = None
             then Inl (Oidc_rejected ''id_token_audience_invalid'') else Inr ())"

definition check_nonce :: "utext option \<Rightarrow> pydict \<Rightarrow> oidc_error + unit" where
  "check_nonce expected claims =
     (case expected of
        None \<Rightarrow> Inr ()
      | Some n \<Rightarrow>
          (case dict_get claims ''nonce'' of
             Py_text t \<Rightarrow>
               if \<not> ascii_text t \<or> \<not> ascii_text n then Inl Oidc_type_error
               else if t = n then Inr () else Inl (Oidc_rejected ''id_token_nonce_invalid'')
           | _ \<Rightarrow> Inl (Oidc_rejected ''id_token_nonce_invalid'')))"

definition check_times :: "int \<Rightarrow> clock \<Rightarrow> pydict \<Rightarrow> oidc_error + (instant \<times> int)" where
  "check_times skew clk claims =
     (case clk of
        Naive \<Rightarrow> Inl (Oidc_runtime_error ''OIDC verification clock must be timezone-aware'')
      | Aware now \<Rightarrow>
          rbind (integer_claim claims ''iat'') (\<lambda>iat.
          rbind (integer_claim claims ''exp'') (\<lambda>expires.
            if epoch_seconds now + skew < iat \<or> expires \<le> epoch_seconds now - skew \<or> expires \<le> iat
            then Inl (Oidc_rejected ''id_token_time_invalid'')
            else (case dict_get_or claims ''auth_time'' (Py_int iat) of
                    Py_int n \<Rightarrow> Inr (now, n)
                  | _ \<Rightarrow> Inl (Oidc_rejected ''id_token_auth_time_invalid'')))))"

definition validate_claims :: "oidc_settings \<Rightarrow> clock \<Rightarrow> utext option \<Rightarrow> pydict \<Rightarrow> oidc_error + principal" where
  "validate_claims T clk expected_nonce claims =
     (let c = ot_configuration T in
      rbind (check_identity c claims) (\<lambda>subject.
      rbind (check_audience c claims) (\<lambda>_.
      rbind (check_nonce expected_nonce claims) (\<lambda>_.
      rbind (check_times (ot_skew T) clk claims) (\<lambda>(now, auth_time).
      let name = (case dict_get claims ''name'' of Py_text t \<Rightarrow> t | _ \<Rightarrow> subject) in
      rbind (string_tuple_claim claims (oc_groups_claim c)) (\<lambda>groups.
      rbind (string_tuple_claim claims (oc_roles_claim c)) (\<lambda>roles.
      rbind (timestamp_from_epoch auth_time) (\<lambda>authenticated.
        if name = [] then Inl (Oidc_value_error ''display_name'')
        else Inr \<lparr>pr_subject = subject, pr_issuer = lit (oc_issuer c), pr_audience = lit (oc_client_id c),
                  pr_display_name = name, pr_email = None, pr_groups = groups, pr_roles = roles, pr_claims = [],
                  pr_authenticated_at = authenticated, pr_verified_at = now\<rparr>))))))))"

subsection \<open>Requests to the provider\<close>

definition decode_object :: "'k oidc_codec \<Rightarrow> oidc_settings \<Rightarrow> string \<Rightarrow> oidc_error + pydict" where
  "decode_object J T body =
     (if ot_max_bytes T < len body then Inl (Oidc_rejected ''provider_response_too_large'')
      else (case oj_loads J body of
              Some (Py_dict d) \<Rightarrow> Inr d
            | _ \<Rightarrow> Inl (Oidc_rejected ''provider_response_invalid'')))"

text \<open>The answer of an endpoint: any exception and any status but 200 is the given rejection.\<close>

definition endpoint_body :: "string \<Rightarrow> string \<Rightarrow> egress_error + response \<Rightarrow> oidc_error + string" where
  "endpoint_body unavailable rejected r = (case r of
     Inl _ \<Rightarrow> Inl (Oidc_rejected unavailable)
   | Inr a \<Rightarrow> if rs_status a = 200 then Inr (rs_body a) else Inl (Oidc_rejected rejected))"

definition post_token :: "'k oidc_codec \<Rightarrow> 'n http \<Rightarrow> oidc_settings \<Rightarrow> (string \<times> utext) list \<Rightarrow> 'n
    \<Rightarrow> (oidc_error + pydict) \<times> 'n" where
  "post_token J H T form n =
     (let (r, n1) = H ''POST'' (oc_token_endpoint (ot_configuration T))
            [(''Accept'', ''application/json''),
             (''Authorization'', ''Basic '' @ oj_basic J (oc_client_id (ot_configuration T)) (ot_secret T)),
             (''Content-Type'', ''application/x-www-form-urlencoded'')] (Some (oj_form J form)) n
      in (rbind (endpoint_body ''token_endpoint_unavailable'' ''token_exchange_rejected'' r) (decode_object J T), n1))"

definition load_jwks :: "'k oidc_codec \<Rightarrow> 'n http \<Rightarrow> oidc_settings \<Rightarrow> 'n \<Rightarrow> (oidc_error + 'k) \<times> 'n" where
  "load_jwks J H T n =
     (let (r, n1) = H ''GET'' (oc_jwks_uri (ot_configuration T)) [(''Accept'', ''application/json'')] None n
      in (rbind (endpoint_body ''jwks_unavailable'' ''jwks_unavailable'' r) (\<lambda>body.
          rbind (decode_object J T body) (\<lambda>jwks.
            case dict_get jwks ''keys'' of
              Py_list ks \<Rightarrow> if ks = [] then Inl (Oidc_rejected ''jwks_invalid'')
                else (case oj_keys J jwks of None \<Rightarrow> Inl (Oidc_rejected ''jwks_invalid'') | Some k \<Rightarrow> Inr k)
            | _ \<Rightarrow> Inl (Oidc_rejected ''jwks_invalid''))), n1))"

definition retained_tokens :: "pydict \<Rightarrow> pydict" where
  "retained_tokens d = filter (\<lambda>(k, _). k \<in> lit ` {''access_token'', ''expires_in'', ''id_token'', ''refresh_token'',
     ''scope'', ''token_type''}) d"

definition verify_material :: "'k oidc_codec \<Rightarrow> 'n http \<Rightarrow> oidc_settings \<Rightarrow> clock \<Rightarrow> utext option \<Rightarrow> pydict \<Rightarrow> 'n
    \<Rightarrow> (oidc_error + verified_material) \<times> 'n" where
  "verify_material J H T clk expected_nonce tokens n =
     (case dict_get tokens ''id_token'' of
        Py_text id_token \<Rightarrow>
          if id_token = [] then (Inl (Oidc_rejected ''id_token_missing''), n)
          else
            (let (keys, n1) = load_jwks J H T n in
             (rbind keys (\<lambda>k.
              case oj_decode J id_token k of
                None \<Rightarrow> Inl (Oidc_rejected ''id_token_signature_invalid'')
              | Some claims \<Rightarrow>
                  rbind (validate_claims T clk expected_nonce claims) (\<lambda>p.
                    Inr \<lparr>vm_principal = p, vm_tokens = oj_dumps J (retained_tokens tokens)\<rparr>)), n1))
      | _ \<Rightarrow> (Inl (Oidc_rejected ''id_token_missing''), n))"

definition exchange_code :: "'k oidc_codec \<Rightarrow> url_codec \<Rightarrow> 'n http \<Rightarrow> oidc_settings \<Rightarrow> clock
    \<Rightarrow> utext \<Rightarrow> utext \<Rightarrow> utext \<Rightarrow> string \<Rightarrow> 'n \<Rightarrow> (oidc_error + verified_material) \<times> 'n" where
  "exchange_code J U H T clk code verifier nonce redirect_uri n =
     (if \<not> exact_https U redirect_uri then (Inl (Oidc_value_error ''OIDC redirect URI must be exact HTTPS''), n)
      else if code = [] \<or> verifier = [] \<or> nonce = [] then (Inl (Oidc_rejected ''authorization_material_invalid''), n)
      else
        (let (r, n1) = post_token J H T [(''grant_type'', lit ''authorization_code''), (''code'', code),
               (''redirect_uri'', lit redirect_uri), (''code_verifier'', verifier)] n
         in case r of
              Inl e \<Rightarrow> (Inl e, n1)
            | Inr tokens \<Rightarrow> verify_material J H T clk (Some nonce) tokens n1))"

definition refresh_tokens :: "'k oidc_codec \<Rightarrow> 'n http \<Rightarrow> oidc_settings \<Rightarrow> clock \<Rightarrow> string \<Rightarrow> 'n
    \<Rightarrow> (oidc_error + verified_material) \<times> 'n" where
  "refresh_tokens J H T clk material n =
     (case decode_object J T material of
        Inl e \<Rightarrow> (Inl e, n)
      | Inr prior \<Rightarrow>
          (case dict_get prior ''refresh_token'' of
             Py_text token \<Rightarrow>
               if token = [] then (Inl (Oidc_rejected ''refresh_token_unavailable''), n)
               else
                 (let (r, n1) = post_token J H T [(''grant_type'', lit ''refresh_token''), (''refresh_token'', token)] n
                  in case r of
                       Inl e \<Rightarrow> (Inl e, n1)
                     | Inr tokens \<Rightarrow>
                         verify_material J H T clk None
                           (if dict_has tokens ''refresh_token'' then tokens
                            else dict_put fst (lit ''refresh_token'', Py_text token) tokens) n1)
           | _ \<Rightarrow> (Inl (Oidc_rejected ''refresh_token_unavailable''), n)))"

text \<open>\<open>check_ready\<close>: the discovery document names exactly the configured endpoints.\<close>

definition check_ready :: "'k oidc_codec \<Rightarrow> 'n http \<Rightarrow> oidc_settings \<Rightarrow> 'n \<Rightarrow> (oidc_error + bool) \<times> 'n" where
  "check_ready J H T n =
     (let c = ot_configuration T;
          base = rev (dropWhile (\<lambda>ch. ch = CHR ''/'') (rev (oc_issuer c)));
          (r, n1) = H ''GET'' (base @ ''/.well-known/openid-configuration'') [(''Accept'', ''application/json'')] None n
      in case rbind (endpoint_body ''discovery_unavailable'' ''discovery_unavailable'' r) (decode_object J T) of
           Inl e \<Rightarrow> (Inl e, n1)
         | Inr metadata \<Rightarrow>
             if list_all (\<lambda>(k, v). dict_get metadata k = Py_text (lit v))
                  [(''issuer'', oc_issuer c), (''authorization_endpoint'', oc_authorization_endpoint c),
                   (''token_endpoint'', oc_token_endpoint c), (''jwks_uri'', oc_jwks_uri c)]
             then (let (k, n2) = load_jwks J H T n1 in (rbind k (\<lambda>_. Inr True), n2))
             else (Inl (Oidc_rejected ''discovery_metadata_mismatch''), n1))"

subsection \<open>What a verified principal satisfies\<close>

text \<open>
  A principal comes only from claims of a token that the key set of the provider verifies, issued
  by the configured issuer for this client, current within the skew and, at login, bound to the
  nonce of the login attempt.
\<close>

definition claims_accepted :: "oidc_settings \<Rightarrow> instant \<Rightarrow> utext option \<Rightarrow> pydict \<Rightarrow> bool" where
  "claims_accepted T now nonce claims \<longleftrightarrow>
     dict_get claims ''iss'' = Py_text (lit (oc_issuer (ot_configuration T)))
     \<and> (dict_get claims ''aud'' = Py_text (lit (oc_client_id (ot_configuration T)))
        \<or> (\<exists>vs. dict_get claims ''aud'' = Py_list vs \<and> Py_text (lit (oc_client_id (ot_configuration T))) \<in> set vs))
     \<and> (\<forall>x. nonce = Some x \<longrightarrow> dict_get claims ''nonce'' = Py_text x)
     \<and> (\<exists>iat expires. dict_get claims ''iat'' = Py_int iat \<and> dict_get claims ''exp'' = Py_int expires
        \<and> iat < expires \<and> iat \<le> epoch_seconds now + ot_skew T \<and> epoch_seconds now - ot_skew T < expires)"

lemma validate_claimsE:
  assumes "validate_claims T clk nonce claims = Inr p"
  obtains now where "clk = Aware now" "claims_accepted T now nonce claims" "pr_verified_at p = now"
    "dict_get claims ''sub'' = Py_text (pr_subject p)" "pr_claims p = []"
proof -
  from assms obtain subject now auth_time where
      id: "check_identity (ot_configuration T) claims = Inr subject"
    and aud: "check_audience (ot_configuration T) claims = Inr ()"
    and nonce: "check_nonce nonce claims = Inr ()"
    and times: "check_times (ot_skew T) clk claims = Inr (now, auth_time)"
    and p: "pr_subject p = subject" "pr_verified_at p = now" "pr_claims p = []"
    by (auto simp: validate_claims_def rbind_Inr_iff Let_def split: if_splits)
  from times obtain iat expires where t: "clk = Aware now" "dict_get claims ''iat'' = Py_int iat"
      "dict_get claims ''exp'' = Py_int expires" "iat < expires" "iat \<le> epoch_seconds now + ot_skew T"
      "epoch_seconds now - ot_skew T < expires"
    by (auto simp: check_times_def rbind_Inr_iff integer_claim_def not_less not_le
        split: clock.splits pyval.splits if_splits)
  from id have "dict_get claims ''sub'' = Py_text subject"
      "dict_get claims ''iss'' = Py_text (lit (oc_issuer (ot_configuration T)))"
    by (auto simp: check_identity_def split: pyval.splits if_splits)
  moreover from aud have "dict_get claims ''aud'' = Py_text (lit (oc_client_id (ot_configuration T)))
        \<or> (\<exists>vs. dict_get claims ''aud'' = Py_list vs \<and> Py_text (lit (oc_client_id (ot_configuration T))) \<in> set vs)"
    by (auto simp: check_audience_def Let_def split: pyval.splits if_splits)
  moreover from nonce have "\<forall>x. nonce = Some x \<longrightarrow> dict_get claims ''nonce'' = Py_text x"
    by (auto simp: check_nonce_def split: option.splits pyval.splits if_splits)
  ultimately show thesis using t p by (intro that [of now]) (auto simp: claims_accepted_def)
qed

lemma verify_materialE:
  assumes "verify_material J H T clk nonce tokens n = (Inr m, n1)"
  obtains id_token k claims now where "dict_get tokens ''id_token'' = Py_text id_token"
    "load_jwks J H T n = (Inr k, n1)" "oj_decode J id_token k = Some claims" "clk = Aware now"
    "claims_accepted T now nonce claims" "pr_verified_at (vm_principal m) = now"
    "dict_get claims ''sub'' = Py_text (pr_subject (vm_principal m))"
proof -
  from assms obtain id_token k claims p where *: "dict_get tokens ''id_token'' = Py_text id_token"
      "load_jwks J H T n = (Inr k, n1)" "oj_decode J id_token k = Some claims"
      "validate_claims T clk nonce claims = Inr p" "vm_principal m = p"
    by (auto simp: verify_material_def rbind_Inr_iff split: pyval.splits if_splits prod.splits option.splits)
  from *(4) show thesis
    by (rule validate_claimsE) (use * in \<open>auto intro: that\<close>)
qed

end
