(* ===== verification/Interleaving.thy ===== *)
theory Interleaving
  imports Spec_Prelude
begin

text \<open>
  Commands that make several database calls while other processes use the same database. A command
  is a resumption: each database call is one atomic step on the shared state, and anything may
  happen to the state between two steps. A rely-guarantee rule reduces what a pool of commands
  running together does to what each of them does alone.
\<close>

subsection \<open>Commands as resumptions\<close>

datatype ('s, 'a) prog = Done 'a | Act "'s \<Rightarrow> ('s, 'a) prog \<times> 's"

primrec prog_bind :: "('s, 'a) prog \<Rightarrow> ('a \<Rightarrow> ('s, 'b) prog) \<Rightarrow> ('s, 'b) prog" where
  "prog_bind (Done a) k = k a"
| "prog_bind (Act f) k = Act (map_prod (\<lambda>p. prog_bind p k) id \<circ> f)"

text \<open>A call of the database that answers without an error: a query of the current state.\<close>

definition query :: "('s \<Rightarrow> 'a) \<Rightarrow> ('s, 'e + 'a) prog" where
  "query f = Act (\<lambda>s. (Done (Inr (f s)), s))"

text \<open>A transaction: on an error it is rolled back.\<close>

definition txn :: "('s \<Rightarrow> 'e + 'a \<times> 's) \<Rightarrow> ('s, 'e + 'a) prog" where
  "txn f = Act (\<lambda>s. case f s of Inl e \<Rightarrow> (Done (Inl e), s) | Inr (a, s') \<Rightarrow> (Done (Inr a), s'))"

definition fail_with :: "'e \<Rightarrow> ('s, 'e + 'a) prog" where
  "fail_with e = Done (Inl e)"

definition give :: "'e + 'a \<Rightarrow> ('s, 'e + 'a) prog" where
  "give r = Done r"

definition ebind :: "('s, 'e + 'a) prog \<Rightarrow> ('a \<Rightarrow> ('s, 'e + 'b) prog) \<Rightarrow> ('s, 'e + 'b) prog" where
  "ebind p k = prog_bind p (\<lambda>r. case r of Inl e \<Rightarrow> Done (Inl e) | Inr a \<Rightarrow> k a)"

text \<open>Running a command with nobody else there.\<close>

primrec alone :: "('s, 'a) prog \<Rightarrow> 's \<Rightarrow> 'a \<times> 's" where
  "alone (Done a) = (\<lambda>s. (a, s))"
| "alone (Act f) = (\<lambda>s. case (map_prod alone id \<circ> f) s of (g, s') \<Rightarrow> g s')"

text \<open>
  Running a command amid others: before each of its steps they take the state along \<open>R\<close>.
\<close>

inductive amid :: "('s \<Rightarrow> 's \<Rightarrow> bool) \<Rightarrow> ('s, 'a) prog \<Rightarrow> 's \<Rightarrow> 'a \<Rightarrow> 's \<Rightarrow> bool" for R where
  amid_done: "amid R (Done a) s a s"
| amid_act: "R s s1 \<Longrightarrow> f s1 = (p, s2) \<Longrightarrow> amid R p s2 a s3 \<Longrightarrow> amid R (Act f) s a s3"

inductive_cases amid_DoneE [elim!]: "amid R (Done a) s b t"
inductive_cases amid_ActE: "amid R (Act f) s b t"

text \<open>A pool of commands over one state: a new command starts, or one of them takes a step.\<close>

inductive pool_step ::
  "(('s, 'a) prog \<Rightarrow> bool) \<Rightarrow> 's \<times> ('s, 'a) prog list \<Rightarrow> 's \<times> ('s, 'a) prog list \<Rightarrow> bool" for A where
  pool_start: "A p \<Longrightarrow> pool_step A (s, ps) (s, ps @ [p])"
| pool_act: "i < length ps \<Longrightarrow> ps ! i = Act f \<Longrightarrow> f s = (p, s') \<Longrightarrow> pool_step A (s, ps) (s', ps[i := p])"

abbreviation pool_steps ::
  "(('s, 'a) prog \<Rightarrow> bool) \<Rightarrow> 's \<times> ('s, 'a) prog list \<Rightarrow> 's \<times> ('s, 'a) prog list \<Rightarrow> bool" where
  "pool_steps A \<equiv> (pool_step A)\<^sup>*\<^sup>*"

subsection \<open>Rely and guarantee\<close>

text \<open>
  \<open>holds_amid R Q p s\<close>: started at \<open>s\<close> amid others that move along \<open>R\<close>, every step of \<open>p\<close> moves along \<open>R\<close>
  too, and its result satisfies \<open>Q\<close>.
\<close>

primrec holds_amid :: "('s \<Rightarrow> 's \<Rightarrow> bool) \<Rightarrow> ('a \<Rightarrow> 's \<Rightarrow> bool) \<Rightarrow> ('s, 'a) prog \<Rightarrow> 's \<Rightarrow> bool" where
  "holds_amid R Q (Done a) = Q a"
| "holds_amid R Q (Act f) = (\<lambda>s. \<forall>s1. R s s1 \<longrightarrow>
     (case (map_prod (holds_amid R Q) id \<circ> f) s1 of (h, s2) \<Rightarrow> R s1 s2 \<and> h s2))"

lemma holds_amid_ActI:
  assumes "\<And>s1 p s2. R s s1 \<Longrightarrow> f s1 = (p, s2) \<Longrightarrow> R s1 s2 \<and> holds_amid R Q p s2"
  shows "holds_amid R Q (Act f) s"
proof -
  have "R s1 (snd (f s1)) \<and> holds_amid R Q (fst (f s1)) (snd (f s1))" if "R s s1" for s1
    using assms [OF that surjective_pairing] .
  then show ?thesis by (simp add: split_beta)
qed

lemma holds_amid_ActD:
  "holds_amid R Q (Act f) s \<Longrightarrow> R s s1 \<Longrightarrow> f s1 = (p, s2) \<Longrightarrow> R s1 s2 \<and> holds_amid R Q p s2"
  by auto

declare holds_amid.simps(2) [simp del]

lemma holds_amid_weaken:
  "holds_amid R Q p s \<Longrightarrow> (\<And>a t. Q a t \<Longrightarrow> Q' a t) \<Longrightarrow> holds_amid R Q' p s"
proof (induction p arbitrary: s)
  case (Act f)
  show ?case
  proof (rule holds_amid_ActI)
    fix s1 p s2
    assume *: "R s s1" "f s1 = (p, s2)"
    with Act.prems have "R s1 s2 \<and> holds_amid R Q p s2" by (auto dest: holds_amid_ActD)
    moreover have "f s1 \<in> range f" "p \<in> Basic_BNFs.fsts (f s1)" by (rule rangeI) (use *(2) in simp)
    ultimately show "R s1 s2 \<and> holds_amid R Q' p s2"
      using Act.IH Act.prems by blast
  qed
qed auto

lemma holds_amid_bind:
  "holds_amid R (\<lambda>a. holds_amid R Q (k a)) p s \<Longrightarrow> holds_amid R Q (prog_bind p k) s"
proof (induction p arbitrary: s)
  case (Act f)
  show ?case unfolding prog_bind.simps
  proof (rule holds_amid_ActI)
    fix s1 q s2
    assume *: "R s s1" "(map_prod (\<lambda>p. prog_bind p k) id \<circ> f) s1 = (q, s2)"
    then obtain p where f: "f s1 = (p, s2)" and q: "q = prog_bind p k" by (cases "f s1") auto
    from Act.prems *(1) f have "R s1 s2 \<and> holds_amid R (\<lambda>a. holds_amid R Q (k a)) p s2"
      by (auto dest: holds_amid_ActD)
    moreover have "f s1 \<in> range f" "p \<in> Basic_BNFs.fsts (f s1)" by (rule rangeI) (use f in simp)
    ultimately show "R s1 s2 \<and> holds_amid R Q q s2"
      using Act.IH q by blast
  qed
qed simp

lemma holds_amid_ebind:
  assumes "holds_amid R (\<lambda>r s. case r of Inl e \<Rightarrow> Q (Inl e) s | Inr a \<Rightarrow> holds_amid R Q (k a) s) p s"
  shows "holds_amid R Q (ebind p k) s"
  unfolding ebind_def
  by (rule holds_amid_bind, rule holds_amid_weaken [OF assms]) (auto split: sum.splits)

lemma holds_amid_query:
  assumes "\<And>s1. R s s1 \<Longrightarrow> Q (Inr (f s1)) s1" and "\<And>s1. R s1 s1"
  shows "holds_amid R Q (query f) s"
  unfolding query_def by (rule holds_amid_ActI) (use assms in auto)

lemma holds_amid_txn:
  assumes "\<And>s1 e. R s s1 \<Longrightarrow> f s1 = Inl e \<Longrightarrow> Q (Inl e) s1"
    and "\<And>s1 a s2. R s s1 \<Longrightarrow> f s1 = Inr (a, s2) \<Longrightarrow> R s1 s2 \<and> Q (Inr a) s2"
    and "\<And>s1. R s1 s1"
  shows "holds_amid R Q (txn f) s"
  unfolding txn_def by (rule holds_amid_ActI) (use assms in \<open>auto split: sum.splits\<close>)

lemma holds_amid_give [simp]:
  "holds_amid R Q (give r) = Q r" "holds_amid R Q (fail_with e) = Q (Inl e)"
  by (simp_all add: give_def fail_with_def)

lemma holds_amid_sound: "amid R p s a t \<Longrightarrow> holds_amid R Q p s \<Longrightarrow> Q a t"
  by (induction rule: amid.induct) (auto dest: holds_amid_ActD)

text \<open>A command that runs alone is one that runs amid others who do nothing.\<close>

lemma alone_amid:
  assumes "\<And>s. R s s"
  shows "alone p s = (a, t) \<Longrightarrow> amid R p s a t"
proof (induction p arbitrary: s)
  case (Done b)
  then show ?case by (auto intro: amid_done)
next
  case (Act f)
  obtain p s' where f: "f s = (p, s')" by (cases "f s")
  with Act.prems have "alone p s' = (a, t)" by simp
  moreover have "f s \<in> range f" "p \<in> Basic_BNFs.fsts (f s)" by (rule rangeI) (use f in simp)
  ultimately have "amid R p s' a t" using Act.IH by blast
  with assms f show ?case by (blast intro: amid_act)
qed

lemma alone_ebind [simp]:
  "alone (prog_bind p k) s = (case alone p s of (a, s') \<Rightarrow> alone (k a) s')"
  "alone (ebind q l) s = (case alone q s of (Inl e, s') \<Rightarrow> (Inl e, s') | (Inr b, s') \<Rightarrow> alone (l b) s')"
proof -
  show bind: "alone (prog_bind p k) s = (case alone p s of (a, s') \<Rightarrow> alone (k a) s')" for p k s
  proof (induction p arbitrary: s)
    case (Act f)
    obtain p s' where f: "f s = (p, s')" by (cases "f s")
    moreover have "f s \<in> range f" "p \<in> Basic_BNFs.fsts (f s)" by (rule rangeI) (use f in simp)
    ultimately show ?case using Act.IH by simp
  qed simp
  show "alone (ebind q l) s = (case alone q s of (Inl e, s') \<Rightarrow> (Inl e, s') | (Inr b, s') \<Rightarrow> alone (l b) s')"
    unfolding ebind_def bind by (simp split: prod.splits sum.splits)
qed

lemma alone_simps [simp]:
  "alone (query f) s = (Inr (f s), s)"
  "alone (txn g) s = (case g s of Inl e \<Rightarrow> (Inl e, s) | Inr (b, s') \<Rightarrow> (Inr b, s'))"
  "alone (give r) s = (r, s)" "alone (fail_with e) s = (Inl e, s)"
  by (auto simp: query_def txn_def give_def fail_with_def split: sum.splits)

text \<open>A pool may run a command without interruption.\<close>

lemma pool_run:
  "alone p s = (a, t) \<Longrightarrow> pool_steps A (s, ps @ [p]) (t, ps @ [Done a])"
proof (induction p arbitrary: s)
  case (Act f)
  obtain p s' where f: "f s = (p, s')" by (cases "f s")
  moreover have "f s \<in> range f" "p \<in> Basic_BNFs.fsts (f s)" by (rule rangeI) (use f in simp)
  ultimately have "pool_steps A (s', ps @ [p]) (t, ps @ [Done a])" using Act by simp
  moreover have "pool_step A (s, ps @ [Act f]) (s', ps @ [p])"
    using pool_act [of "length ps" "ps @ [Act f]" f s p s' A] f by simp
  ultimately show ?case by (rule converse_rtranclp_into_rtranclp [rotated])
qed simp

lemma pool_start_run:
  assumes "A p" and "alone p s = (a, t)"
  shows "pool_steps A (s, ps) (t, ps @ [Done a])"
  using pool_start [of A p s ps] pool_run [OF assms(2)] assms(1)
  by (meson converse_rtranclp_into_rtranclp)

text \<open>
  The rely-guarantee principle: the moves \<open>R\<close> compose and keep the good states, so a pool whose
  commands all guarantee \<open>R\<close> when they may rely on \<open>R\<close> stays within \<open>R\<close>.
\<close>

locale shared_state =
  fixes good :: "'s \<Rightarrow> bool" and R :: "'s \<Rightarrow> 's \<Rightarrow> bool"
  assumes move_refl: "R s s"
    and move_trans: "R s t \<Longrightarrow> R t u \<Longrightarrow> R s u"
    and move_good: "R s t \<Longrightarrow> good s \<Longrightarrow> good t"
begin

definition guarantees :: "('s, 'a) prog \<Rightarrow> 's \<Rightarrow> bool" where
  "guarantees p = holds_amid R (\<lambda>_ _. True) p"

lemma holds_amid_good:
  "holds_amid R Q p s \<Longrightarrow> good s \<Longrightarrow> holds_amid R (\<lambda>a t. Q a t \<and> good t) p s"
proof (induction p arbitrary: s)
  case (Act f)
  show ?case
  proof (rule holds_amid_ActI)
    fix s1 p s2
    assume *: "R s s1" "f s1 = (p, s2)"
    with Act.prems have "R s1 s2 \<and> holds_amid R Q p s2" by (auto dest: holds_amid_ActD)
    moreover from this have "good s2" using * Act.prems(2) by (blast intro: move_good)
    moreover have "f s1 \<in> range f" "p \<in> Basic_BNFs.fsts (f s1)" by (rule rangeI) (use *(2) in simp)
    ultimately show "R s1 s2 \<and> holds_amid R (\<lambda>a t. Q a t \<and> good t) p s2"
      using Act.IH by blast
  qed
qed simp

lemma guarantees_bind:
  assumes "\<And>s. good s \<Longrightarrow> guarantees p s" and "\<And>a s. good s \<Longrightarrow> guarantees (k a) s" and "good s"
  shows "guarantees (prog_bind p k) s"
  unfolding guarantees_def
  by (rule holds_amid_bind, rule holds_amid_weaken [OF holds_amid_good])
    (use assms in \<open>auto simp: guarantees_def\<close>)

definition pool_safe :: "'s \<Rightarrow> ('s, 'a) prog list \<Rightarrow> bool" where
  "pool_safe s ps \<longleftrightarrow> good s \<and> (\<forall>p \<in> set ps. guarantees p s)"

lemma guarantees_stable: "guarantees p s \<Longrightarrow> R s t \<Longrightarrow> guarantees p t"
  unfolding guarantees_def
  by (cases p) (auto intro!: holds_amid_ActI dest: holds_amid_ActD intro: move_trans)

lemma pool_step_safe:
  assumes step: "pool_step A (s, ps) (t, qs)" and safe: "pool_safe s ps"
    and A: "\<And>p u. A p \<Longrightarrow> good u \<Longrightarrow> guarantees p u"
  shows "R s t \<and> pool_safe t qs"
  using step
proof cases
  case (pool_start p)
  then show ?thesis using safe A by (auto simp: pool_safe_def move_refl)
next
  case (pool_act i f p)
  then have "guarantees (Act f) s" using safe by (metis nth_mem pool_safe_def)
  then have *: "R s t" "guarantees p t"
    using pool_act move_refl [of s] by (auto simp: guarantees_def dest: holds_amid_ActD)
  then have "guarantees q t" if "q \<in> set qs" for q
    using that safe pool_act set_update_subset_insert [of ps i p]
    by (auto simp: pool_safe_def intro: guarantees_stable)
  with * show ?thesis using safe by (auto simp: pool_safe_def intro: move_good)
qed

lemma pool_steps_safe:
  assumes steps: "pool_steps A (s, ps) (t, qs)" and safe: "pool_safe s ps"
    and A: "\<And>p u. A p \<Longrightarrow> good u \<Longrightarrow> guarantees p u"
  shows "R s t \<and> pool_safe t qs"
  using steps safe
proof (induction "(s, ps)" arbitrary: s ps rule: converse_rtranclp_induct)
  case base
  then show ?case by (simp add: move_refl)
next
  case (step x)
  obtain u rs where x: "x = (u, rs)" by (cases x)
  with step.hyps(1) step.prems A have "R s u \<and> pool_safe u rs" by (auto dest: pool_step_safe)
  with step.hyps(3) [OF x] show ?case by (auto intro: move_trans)
qed

end

end
