(* ===== verification/Operator_Sessions.thy ===== *)
theory Operator_Sessions
  imports Security_Store Oidc_Client Interleaving
begin

text \<open>
  The session service of \<open>control/security/sessions.py\<close>, the permission service of \<open>permissions.py\<close> and the
  envelopes of \<open>envelope_cipher.py\<close>. A command is a resumption: each call of the repository is one step,
  and the transactions of other requests may come between two of them. SHA-256, HMAC and AES-GCM are
  arguments; so are the tokens and identifiers a command draws and the answers of the OIDC provider.
\<close>

type_synonym 'a command = "(security_db, session_error + 'a) prog"

subsection \<open>Bytes and text\<close>

text \<open>\<open>bytes.decode("utf-8")\<close>, strict: no overlong form, no surrogate.\<close>

definition continuation :: "char \<Rightarrow> bool" where
  "continuation c \<longleftrightarrow> char_between 128 191 c"

fun utf8_text :: "string \<Rightarrow> utext option" where
  "utf8_text [] = Some []"
| "utf8_text (a # s) =
     (if of_char a < (128 :: int) then map_option (\<lambda>t. of_char a # t) (utf8_text s)
      else
        (case s of
           [] \<Rightarrow> None
         | b # s1 \<Rightarrow>
             if \<not> continuation b then None
             else if char_between 194 223 a
             then map_option (\<lambda>t. ((of_char a - 192) * 64 + (of_char b - 128)) # t) (utf8_text s1)
             else
               (case s1 of
                  [] \<Rightarrow> None
                | c # s2 \<Rightarrow>
                    if \<not> continuation c then None
                    else if char_between 224 239 a
                    then (let n = (of_char a - 224) * 4096 + (of_char b - 128) * 64 + (of_char c - 128)
                          in if 2048 \<le> n \<and> \<not> (55296 \<le> n \<and> n \<le> 57343)
                             then map_option (\<lambda>t. n # t) (utf8_text s2) else None)
                    else
                      (case s2 of
                         [] \<Rightarrow> None
                       | d # s3 \<Rightarrow>
                           if continuation d \<and> char_between 240 244 a
                           then (let n = (of_char a - 240) * 262144 + (of_char b - 128) * 4096
                                       + (of_char c - 128) * 64 + (of_char d - 128)
                                 in if 65536 \<le> n \<and> n \<le> 1114111
                                    then map_option (\<lambda>t. n # t) (utf8_text s3) else None)
                           else None))))"

text \<open>ASCII text, as every token drawn by \<open>secrets.token_urlsafe\<close> is, encodes as itself.\<close>

lemma utf8_text_ascii: "list_all (\<lambda>c. of_char c < (128 :: int)) s \<Longrightarrow> utf8_text s = Some (lit s)"
  by (induction s) (auto simp: lit_def)

subsection \<open>Envelopes\<close>

text \<open>
  The associated data binds a ciphertext to its key version and context; both are ASCII. \<open>en_seal\<close> and
  \<open>en_open\<close> are AES-GCM with a key, a nonce and associated data.
\<close>

record envelope_cipher =
  en_active :: string
  en_keys :: "(string \<times> string) list"
  en_seal :: "string \<Rightarrow> string \<Rightarrow> string \<Rightarrow> string \<Rightarrow> string"
  en_open :: "string \<Rightarrow> string \<Rightarrow> string \<Rightarrow> string \<Rightarrow> string option"

record envelope =
  ee_key_version :: string
  ee_ciphertext :: string

definition cipher_ok :: "envelope_cipher \<Rightarrow> bool" where
  "cipher_ok C \<longleftrightarrow> en_active C \<in> fst ` set (en_keys C)
     \<and> list_all (\<lambda>(v, k). \<not> list_all char_space v \<and> len k = 32) (en_keys C)"

definition envelope_aad :: "string \<Rightarrow> string \<Rightarrow> string" where
  "envelope_aad key_version ctx = ''proof-agent:'' @ key_version @ '':'' @ ctx"

definition envelope_encrypt :: "envelope_cipher \<Rightarrow> string \<Rightarrow> string \<Rightarrow> string \<Rightarrow> envelope" where
  "envelope_encrypt C iv value ctx =
     \<lparr>ee_key_version = en_active C,
      ee_ciphertext = iv @ (case map_of (en_keys C) (en_active C) of None \<Rightarrow> []
        | Some key \<Rightarrow> en_seal C key iv value (envelope_aad (en_active C) ctx))\<rparr>"

definition envelope_decrypt :: "envelope_cipher \<Rightarrow> string \<Rightarrow> string \<Rightarrow> string \<Rightarrow> string option" where
  "envelope_decrypt C ciphertext key_version ctx =
     (case map_of (en_keys C) key_version of
        None \<Rightarrow> None
      | Some key \<Rightarrow>
          if len ciphertext < 29 then None
          else en_open C key (take 12 ciphertext) (drop 12 ciphertext) (envelope_aad key_version ctx))"

text \<open>What AES-GCM promises: opening what was sealed, and a tag of 16 bytes.\<close>

definition aead_law :: "envelope_cipher \<Rightarrow> bool" where
  "aead_law C \<longleftrightarrow> (\<forall>key iv v aad. en_open C key iv (en_seal C key iv v aad) aad = Some v
     \<and> length (en_seal C key iv v aad) = length v + 16)"

lemma envelope_roundtrip:
  assumes "aead_law C" and "cipher_ok C" and "length iv = 12" and "v \<noteq> []"
  shows "envelope_decrypt C (ee_ciphertext (envelope_encrypt C iv v ctx)) (ee_key_version (envelope_encrypt C iv v ctx))
    ctx = Some v"
proof -
  from assms(2) obtain key where key: "map_of (en_keys C) (en_active C) = Some key"
    by (metis cipher_ok_def map_of_eq_None_iff not_None_eq)
  have "0 < length v" using assms(4) by simp
  with key assms(1,3,4) show ?thesis
    by (simp add: envelope_encrypt_def envelope_decrypt_def aead_law_def len_def)
qed

subsection \<open>The service\<close>

text \<open>\<open>ss_digest\<close> is \<open>sha256(text).hexdigest()\<close>, \<open>ss_hmac\<close> the HMAC, \<open>ss_challenge\<close> the S256 challenge of PKCE.\<close>

record session_service =
  ss_recovery :: recovery_mapping
  ss_cipher :: envelope_cipher
  ss_csrf_key :: string
  ss_digest :: "utext \<Rightarrow> string"
  ss_hmac :: "string \<Rightarrow> utext \<Rightarrow> string"
  ss_challenge :: "string \<Rightarrow> string"

text \<open>The provider as one request sees it, and the values the request draws.\<close>

record oidc_port =
  op_url :: "string \<Rightarrow> string \<Rightarrow> string \<Rightarrow> string \<Rightarrow> session_error + string"
  op_exchange :: "utext \<Rightarrow> utext \<Rightarrow> utext \<Rightarrow> string \<Rightarrow> oidc_error + verified_material"
  op_refresh :: "string \<Rightarrow> oidc_error + verified_material"

record drawn =
  dr_state :: string
  dr_nonce :: string
  dr_verifier :: string
  dr_cookie :: string
  dr_session :: int
  dr_iv :: string
  dr_iv2 :: string

definition service_ok :: "session_service \<Rightarrow> bool" where
  "service_ok S \<longleftrightarrow> 32 \<le> len (ss_csrf_key S) \<and> cipher_ok (ss_cipher S) \<and> recovery_ok (ss_recovery S)"

definition login_lifetime :: int where "login_lifetime = seconds 600"
definition absolute_lifetime :: int where "absolute_lifetime = days 7"
definition idle_lifetime :: int where "idle_lifetime = seconds 86400"
definition claim_freshness :: int where "claim_freshness = seconds 3600"

definition session_clock :: "clock \<Rightarrow> session_error + instant" where
  "session_clock c = (case c of Naive \<Rightarrow> Inl (Session_value_error ''session clock must be timezone-aware'')
     | Aware t \<Rightarrow> Inr t)"

record projection =
  pj_session_id :: string
  pj_principal :: principal
  pj_absolute :: instant
  pj_idle :: instant
  pj_refresh_due :: instant
  pj_csrf :: string
  pj_permissions :: "string list"

record resolved_session =
  re_projection :: projection
  re_cookie :: utext
  re_rotated :: bool
  re_mapping :: "string option"
  re_epoch :: int
  re_authorization :: authorization

definition csrf_token :: "session_service \<Rightarrow> utext \<Rightarrow> string" where
  "csrf_token S cookie = ss_hmac S (ss_csrf_key S) (lit ''proof-agent-csrf:'' @ cookie)"

definition session_context :: "operator_session \<Rightarrow> string" where
  "session_context s = ''oidc-session:'' @ uuid_text (os_id s)"

definition resolution_of :: "session_service \<Rightarrow> operator_session \<Rightarrow> utext \<Rightarrow> bool \<Rightarrow> mapping_version option
    \<Rightarrow> mapping_version option \<Rightarrow> resolved_session" where
  "resolution_of S s cookie rotated m m' =
     \<lparr>re_projection = \<lparr>pj_session_id = uuid_text (os_id s), pj_principal = os_principal s,
        pj_absolute = os_absolute s, pj_idle = os_idle s, pj_refresh_due = os_verified s + claim_freshness,
        pj_csrf = csrf_token S cookie,
        pj_permissions = sort (map permission_value (effective_permissions (ss_recovery S) m (os_principal s)))\<rparr>,
      re_cookie = cookie, re_rotated = rotated, re_mapping = os_mapping s, re_epoch = os_epoch s,
      re_authorization = institution_authorization m' (os_principal s)\<rparr>"

text \<open>\<open>_resolution\<close> reads the active mapping twice, for the permissions and for the scopes.\<close>

definition session_resolution :: "session_service \<Rightarrow> operator_session \<Rightarrow> utext \<Rightarrow> bool \<Rightarrow> resolved_session command" where
  "session_resolution S s cookie rotated =
     ebind (query active_permission_mapping) (\<lambda>m.
     ebind (query active_permission_mapping) (\<lambda>m'. give (Inr (resolution_of S s cookie rotated m m'))))"

subsection \<open>Login\<close>

definition new_login_attempt :: "session_service \<Rightarrow> drawn \<Rightarrow> string \<Rightarrow> instant \<Rightarrow> session_error + login_attempt" where
  "new_login_attempt S D redirect_uri t =
     (let h = ss_digest S (lit (dr_state D));
          nonce = envelope_encrypt (ss_cipher S) (dr_iv D) (dr_nonce D) (''oidc-nonce:'' @ h);
          verifier = envelope_encrypt (ss_cipher S) (dr_iv2 D) (dr_verifier D) (''oidc-pkce:'' @ h);
          a = \<lparr>la_state = h, la_nonce_envelope = ee_ciphertext nonce, la_pkce_envelope = ee_ciphertext verifier,
               la_key_version = ee_key_version nonce, la_redirect_uri = redirect_uri, la_created = t,
               la_expires = t + login_lifetime, la_consumed = None\<rparr>
      in if ee_key_version nonce \<noteq> ee_key_version verifier
         then Inl (Session_runtime_error ''OIDC login envelopes used inconsistent key versions'')
         else if login_attempt_ok a then Inr a else Inl (Persistence Validation_error))"

definition start_login :: "session_service \<Rightarrow> oidc_port \<Rightarrow> drawn \<Rightarrow> string \<Rightarrow> clock \<Rightarrow> string command" where
  "start_login S P D redirect_uri now =
     (case rbind (session_clock now) (new_login_attempt S D redirect_uri) of
        Inl e \<Rightarrow> fail_with e
      | Inr a \<Rightarrow> ebind (txn (create_login_attempt a)) (\<lambda>_.
          give (op_url P (dr_state D) (dr_nonce D) (ss_challenge S (dr_verifier D)) redirect_uri)))"

text \<open>The exchange of a consumed attempt: whatever goes wrong becomes one error.\<close>

definition attempt_material :: "session_service \<Rightarrow> oidc_port \<Rightarrow> login_attempt \<Rightarrow> string \<Rightarrow> utext
    \<Rightarrow> verified_material option" where
  "attempt_material S P a h code =
     (case (Option.bind (envelope_decrypt (ss_cipher S) (la_nonce_envelope a) (la_key_version a) (''oidc-nonce:'' @ h)) utf8_text,
            Option.bind (envelope_decrypt (ss_cipher S) (la_pkce_envelope a) (la_key_version a) (''oidc-pkce:'' @ h)) utf8_text) of
        (Some nonce, Some verifier) \<Rightarrow>
          (case op_exchange P code verifier nonce (la_redirect_uri a) of Inl _ \<Rightarrow> None | Inr m \<Rightarrow> Some m)
      | _ \<Rightarrow> None)"

definition new_session :: "session_service \<Rightarrow> drawn \<Rightarrow> verified_material \<Rightarrow> mapping_version option \<Rightarrow> int \<Rightarrow> instant
    \<Rightarrow> operator_session" where
  "new_session S D m active epoch t =
     (let e = envelope_encrypt (ss_cipher S) (dr_iv D) (vm_tokens m) (''oidc-session:'' @ uuid_text (dr_session D));
          absolute = t + absolute_lifetime
      in \<lparr>os_id = dr_session D, os_version = 1, os_token = ss_digest S (lit (dr_cookie D)),
          os_principal = vm_principal m, os_envelope = ee_ciphertext e, os_key_version = ee_key_version e,
          os_mapping = map_option mv_id active, os_epoch = epoch, os_created = t, os_absolute = absolute,
          os_idle = min (t + idle_lifetime) absolute, os_verified = pr_verified_at (vm_principal m),
          os_revoked = None\<rparr>)"

definition complete_login :: "session_service \<Rightarrow> oidc_port \<Rightarrow> drawn \<Rightarrow> utext \<Rightarrow> utext \<Rightarrow> clock \<Rightarrow> resolved_session command" where
  "complete_login S P D state code now =
     (case session_clock now of
        Inl e \<Rightarrow> fail_with e
      | Inr t \<Rightarrow>
          let h = ss_digest S state in
          ebind (txn (consume_login_attempt h t)) (\<lambda>attempt.
            case attempt of
              None \<Rightarrow> fail_with (Authentication_failed ''OIDC authorization state is invalid or replayed'')
            | Some a \<Rightarrow>
                (case attempt_material S P a h code of
                   None \<Rightarrow> fail_with (Authentication_failed ''OIDC authorization response is invalid'')
                 | Some m \<Rightarrow>
                     ebind (query active_permission_mapping) (\<lambda>active.
                     ebind (query sd_epoch) (\<lambda>epoch.
                       let s = new_session S D m active epoch t in
                       if \<not> operator_session_ok s then fail_with (Persistence Validation_error)
                       else ebind (txn (create_session s)) (\<lambda>_.
                         session_resolution S s (lit (dr_cookie D)) True))))))"

subsection \<open>Requests of a session\<close>

text \<open>A session that is refused is revoked first.\<close>

definition revoke_and_fail :: "string \<Rightarrow> instant \<Rightarrow> string \<Rightarrow> 'a command" where
  "revoke_and_fail h t reason = ebind (txn (revoke_by_token_hash h t)) (\<lambda>_. fail_with (Authentication_failed reason))"

definition expired :: "operator_session \<Rightarrow> instant \<Rightarrow> bool" where
  "expired s t \<longleftrightarrow> os_absolute s \<le> t \<or> os_idle s \<le> t"

definition claims_stale :: "operator_session \<Rightarrow> instant \<Rightarrow> bool" where
  "claims_stale s t \<longleftrightarrow> claim_freshness \<le> t - os_verified s"

text \<open>Principal, envelope and key version after the refresh that stale claims need.\<close>

definition refreshed_material :: "session_service \<Rightarrow> oidc_port \<Rightarrow> drawn \<Rightarrow> operator_session \<Rightarrow> string \<Rightarrow> instant
    \<Rightarrow> (principal \<times> string \<times> string) option" where
  "refreshed_material S P D s material t =
     (if claims_stale s t
      then (case op_refresh P material of
              Inl _ \<Rightarrow> None
            | Inr m \<Rightarrow>
                let e = envelope_encrypt (ss_cipher S) (dr_iv D) (vm_tokens m) (session_context s)
                in Some (vm_principal m, ee_ciphertext e, ee_key_version e))
      else Some (os_principal s, os_envelope s, os_key_version s))"

definition renewed_session :: "session_service \<Rightarrow> operator_session \<Rightarrow> principal \<times> string \<times> string \<Rightarrow> utext
    \<Rightarrow> mapping_version option \<Rightarrow> int \<Rightarrow> instant \<Rightarrow> operator_session" where
  "renewed_session S s m cookie active epoch t =
     s\<lparr>os_version := os_version s + 1, os_token := ss_digest S cookie, os_principal := fst m,
       os_envelope := fst (snd m), os_key_version := snd (snd m), os_mapping := map_option mv_id active,
       os_epoch := epoch, os_idle := min (t + idle_lifetime) (os_absolute s),
       os_verified := pr_verified_at (fst m)\<rparr>"

definition renew_session :: "session_service \<Rightarrow> drawn \<Rightarrow> operator_session \<Rightarrow> principal \<times> string \<times> string \<Rightarrow> utext
    \<Rightarrow> bool \<Rightarrow> instant \<Rightarrow> resolved_session command" where
  "renew_session S D s m cookie rotated t =
     (let next_cookie = (if rotated then lit (dr_cookie D) else cookie) in
      ebind (query active_permission_mapping) (\<lambda>active.
      ebind (query sd_epoch) (\<lambda>epoch.
        let u = renewed_session S s m next_cookie active epoch t in
        ebind (txn (update_session u (os_version s))) (\<lambda>_.
          session_resolution S u next_cookie rotated))))"

definition refresh_and_renew :: "session_service \<Rightarrow> oidc_port \<Rightarrow> drawn \<Rightarrow> operator_session \<Rightarrow> string \<Rightarrow> utext
    \<Rightarrow> instant \<Rightarrow> resolved_session command" where
  "refresh_and_renew S P D s material cookie t = ebind (query sd_epoch) (\<lambda>epoch.
     case refreshed_material S P D s material t of
       None \<Rightarrow> revoke_and_fail (ss_digest S cookie) t ''OIDC claim refresh failed''
     | Some m \<Rightarrow> renew_session S D s m cookie (os_epoch s \<noteq> epoch \<or> claims_stale s t) t)"

definition resolve_row :: "session_service \<Rightarrow> oidc_port \<Rightarrow> drawn \<Rightarrow> utext \<Rightarrow> instant \<Rightarrow> operator_session option
    \<Rightarrow> resolved_session command" where
  "resolve_row S P D cookie t row = (case row of
     None \<Rightarrow> fail_with (Authentication_failed ''operator session is unavailable'')
   | Some s \<Rightarrow>
       if os_revoked s \<noteq> None then fail_with (Authentication_failed ''operator session is unavailable'')
       else if expired s t then revoke_and_fail (ss_digest S cookie) t ''operator session expired''
       else
         (case envelope_decrypt (ss_cipher S) (os_envelope s) (os_key_version s) (session_context s) of
            None \<Rightarrow> revoke_and_fail (ss_digest S cookie) t ''operator session key is unavailable''
          | Some material \<Rightarrow> refresh_and_renew S P D s material cookie t))"

definition resolve_session :: "session_service \<Rightarrow> oidc_port \<Rightarrow> drawn \<Rightarrow> utext \<Rightarrow> clock \<Rightarrow> resolved_session command" where
  "resolve_session S P D cookie now =
     (case session_clock now of
        Inl e \<Rightarrow> fail_with e
      | Inr t \<Rightarrow> ebind (query (session_by_token (ss_digest S cookie))) (resolve_row S P D cookie t))"

definition logout :: "session_service \<Rightarrow> utext \<Rightarrow> clock \<Rightarrow> bool command" where
  "logout S cookie now =
     (case session_clock now of
        Inl e \<Rightarrow> fail_with e
      | Inr t \<Rightarrow> txn (revoke_by_token_hash (ss_digest S cookie) t))"

subsection \<open>The permission service\<close>

definition append_mapping :: "recovery_mapping \<Rightarrow> mapping_version \<Rightarrow> int \<Rightarrow> mapping_version command" where
  "append_mapping rm v expected =
     (case validate_editable_mapping rm v of
        Inl e \<Rightarrow> fail_with e
      | Inr _ \<Rightarrow> txn (append_permission_mapping v expected))"

definition activate_mapping :: "recovery_mapping \<Rightarrow> string \<Rightarrow> audit_event \<Rightarrow> mapping_version command" where
  "activate_mapping rm version_id e =
     ebind (txn (\<lambda>db. rbind (get_permission_mapping version_id db) (\<lambda>m. Inr (m, db)))) (\<lambda>found.
       case found of
         None \<Rightarrow> txn (activate_permission_mapping version_id e)
       | Some v \<Rightarrow>
           (case validate_editable_mapping rm v of
              Inl x \<Rightarrow> fail_with x
            | Inr _ \<Rightarrow> txn (activate_permission_mapping version_id e)))"

end
