(* ===== verification/Session_Histories.thy ===== *)
theory Session_Histories
  imports Operator_Sessions
begin

text \<open>
  What the transactions of operator security keep when the commands of many requests interleave: a
  relation \<open>advances\<close> between two moments of the database, which every command guarantees step by step
  when it may rely on the others to do the same.
\<close>

subsection \<open>The invariant\<close>

definition session_good :: "operator_session \<Rightarrow> bool" where
  "session_good s \<longleftrightarrow> session_row_ok s \<and> os_absolute s = os_created s + absolute_lifetime"

definition attempt_good :: "login_attempt \<Rightarrow> bool" where
  "attempt_good a \<longleftrightarrow> la_expires a = la_created a + login_lifetime
     \<and> opt_ok (\<lambda>t. la_created a \<le> t \<and> t < la_expires a) (la_consumed a)"

definition db_good :: "security_db \<Rightarrow> bool" where
  "db_good db \<longleftrightarrow> keys_unique os_id (sd_sessions db) \<and> keys_unique os_token (sd_sessions db)
     \<and> list_all session_good (sd_sessions db)
     \<and> keys_unique la_state (sd_attempts db) \<and> list_all attempt_good (sd_attempts db)
     \<and> keys_unique mr_key (sd_mappings db) \<and> keys_unique (\<lambda>r. mv_revision (mr_version r)) (sd_mappings db)
     \<and> list_all (\<lambda>r. mv_revision (mr_version r) \<le> sd_mapping_revision db) (sd_mappings db)
     \<and> mapping_exists (sd_active_mapping db) db
     \<and> keys_unique au_key (sd_audit db)"

subsection \<open>Evolution\<close>

text \<open>A session changes only while it is not revoked, and its version tells each change.\<close>

definition session_next :: "operator_session \<Rightarrow> operator_session \<Rightarrow> bool" where
  "session_next s s' \<longleftrightarrow> s' = s \<or> (os_id s' = os_id s \<and> os_version s < os_version s' \<and> os_created s' = os_created s
     \<and> os_absolute s' = os_absolute s \<and> os_revoked s = None)"

text \<open>A login attempt changes once, when it is consumed.\<close>

definition attempt_next :: "login_attempt \<Rightarrow> login_attempt \<Rightarrow> bool" where
  "attempt_next a a' \<longleftrightarrow> a' = a \<or> (la_consumed a = None \<and> la_consumed a' \<noteq> None \<and> a' = a\<lparr>la_consumed := la_consumed a'\<rparr>)"

definition evolves_by :: "('r \<Rightarrow> 'r \<Rightarrow> bool) \<Rightarrow> 'r list \<Rightarrow> 'r list \<Rightarrow> bool" where
  "evolves_by step t t' \<longleftrightarrow> (\<forall>r \<in> set t. \<exists>r' \<in> set t'. step r r')"

definition advances :: "security_db \<Rightarrow> security_db \<Rightarrow> bool" where
  "advances db db' \<longleftrightarrow> (db_good db \<longrightarrow> db_good db'
     \<and> evolves_by session_next (sd_sessions db) (sd_sessions db')
     \<and> evolves_by attempt_next (sd_attempts db) (sd_attempts db')
     \<and> set (sd_mappings db) \<subseteq> set (sd_mappings db') \<and> set (sd_policies db) \<subseteq> set (sd_policies db')
     \<and> set (sd_audit db) \<subseteq> set (sd_audit db') \<and> sd_epoch db \<le> sd_epoch db'
     \<and> sd_mapping_revision db \<le> sd_mapping_revision db' \<and> sd_policy_revision db \<le> sd_policy_revision db')"

lemma session_next_refl [simp]: "session_next s s"
  by (simp add: session_next_def)

lemma attempt_next_refl [simp]: "attempt_next a a"
  by (simp add: attempt_next_def)

lemma session_next_trans: "session_next s s' \<Longrightarrow> session_next s' s'' \<Longrightarrow> session_next s s''"
  by (auto simp: session_next_def)

lemma attempt_next_trans: "attempt_next a a' \<Longrightarrow> attempt_next a' a'' \<Longrightarrow> attempt_next a a''"
  unfolding attempt_next_def by (metis option.distinct(1))

lemma evolves_by_subset: "(\<And>r. step r r) \<Longrightarrow> set t \<subseteq> set t' \<Longrightarrow> evolves_by step t t'"
  by (auto simp: evolves_by_def)

lemma evolves_by_update_where:
  assumes "\<And>r. step r r" and "\<And>r. r \<in> set t \<Longrightarrow> P r \<Longrightarrow> step r (f r)"
  shows "evolves_by step t (update_where P f t)"
  using assms unfolding evolves_by_def set_update_where by blast

lemma advances_refl [simp]: "advances db db"
  by (simp add: advances_def evolves_by_subset)

lemma sessions_evolve_trans:
  "evolves_by session_next t t' \<Longrightarrow> evolves_by session_next t' t'' \<Longrightarrow> evolves_by session_next t t''"
  unfolding evolves_by_def by (meson session_next_trans)

lemma attempts_evolve_trans:
  "evolves_by attempt_next t t' \<Longrightarrow> evolves_by attempt_next t' t'' \<Longrightarrow> evolves_by attempt_next t t''"
  unfolding evolves_by_def by (meson attempt_next_trans)

lemma advances_trans: "advances db db1 \<Longrightarrow> advances db1 db2 \<Longrightarrow> advances db db2"
  unfolding advances_def by (auto elim: sessions_evolve_trans attempts_evolve_trans)

interpretation security: shared_state db_good advances
  by unfold_locales (rule advances_refl, erule (1) advances_trans, simp add: advances_def)

lemmas advances_good = security.move_good

lemma advances_epoch: "advances db db' \<Longrightarrow> db_good db \<Longrightarrow> sd_epoch db \<le> sd_epoch db'"
  by (simp add: advances_def)

lemma advances_session:
  assumes "advances db db'" and "db_good db" and "s \<in> set (sd_sessions db)"
  obtains s' where "s' \<in> set (sd_sessions db')" "session_next s s'"
  using assms by (auto simp: advances_def evolves_by_def)

text \<open>A version determines the row: the law behind the conditional update.\<close>

lemma same_version_same_session:
  assumes "advances db db'" and "db_good db" and "s \<in> set (sd_sessions db)"
    and "s' \<in> set (sd_sessions db')" and "os_id s' = os_id s" and "os_version s' = os_version s"
  shows "s' = s"
proof -
  from assms(1-3) obtain s'' where s'': "s'' \<in> set (sd_sessions db')" "session_next s s''" by (rule advances_session)
  have "keys_unique os_id (sd_sessions db')"
    using advances_good [OF assms(1,2)] by (simp add: db_good_def)
  moreover have "os_id s'' = os_id s'" using s''(2) assms(5) by (auto simp: session_next_def)
  ultimately have "s'' = s'" using s''(1) assms(4) by (blast dest: keys_unique_same)
  with s''(2) assms(6) show ?thesis by (auto simp: session_next_def)
qed

text \<open>A revoked session stays as it is.\<close>

lemma revoked_session_stays:
  assumes "advances db db'" and "db_good db" and "s \<in> set (sd_sessions db)" and "os_revoked s \<noteq> None"
  shows "s \<in> set (sd_sessions db')"
  using advances_session [OF assms(1-3)] assms(4) by (auto simp: session_next_def)

lemma consumed_attempt_stays:
  assumes "advances db db'" and "db_good db" and "a \<in> set (sd_attempts db)" and "la_consumed a \<noteq> None"
  shows "a \<in> set (sd_attempts db')"
  using assms by (fastforce simp: advances_def evolves_by_def attempt_next_def)

lemma session_by_tokenD: "session_by_token h db = Some s \<Longrightarrow> s \<in> set (sd_sessions db) \<and> os_token s = h"
  by (auto simp: session_by_token_def dest: lookup_row_SomeD)

lemma session_by_token_row:
  "db_good db \<Longrightarrow> s \<in> set (sd_sessions db) \<Longrightarrow> session_by_token (os_token s) db = Some s"
  by (simp add: session_by_token_def db_good_def lookup_row_unique)

subsection \<open>Transactions\<close>

lemma create_login_attempt_advances:
  assumes "create_login_attempt a db = Inr (x, db')" and "la_expires a = la_created a + login_lifetime"
  shows "advances db db'"
  using assms
  by (auto simp: create_login_attempt_def advances_def db_good_def keys_unique_append1 attempt_good_def
      mapping_exists_def lookup_row_None_iff intro!: evolves_by_subset split: if_splits)

lemma find_consumable: "find (consumable h t) as = Some a \<Longrightarrow> a \<in> set as \<and> consumable h t a"
  by (rule find_SomeD)

lemma consume_login_attempt_advances:
  assumes "consume_login_attempt h t db = Inr (x, db')"
  shows "advances db db'"
proof (cases "find (consumable h t) (sd_attempts db)")
  case None
  with assms show ?thesis by (simp add: consume_login_attempt_def)
next
  case (Some a)
  with assms have created: "la_created a \<le> t"
      and db': "db' = db\<lparr>sd_attempts := update_where (consumable h t) (\<lambda>a. a\<lparr>la_consumed := Some t\<rparr>) (sd_attempts db)\<rparr>"
    by (auto simp: consume_login_attempt_def split: if_splits)
  have a: "a \<in> set (sd_attempts db)" "consumable h t a" using find_consumable [OF Some] by auto
  have same: "b = a" if "db_good db" "b \<in> set (sd_attempts db)" "consumable h t b" for b
    using that a by (auto simp: db_good_def consumable_def dest: keys_unique_same)
  have "attempt_good b" if "db_good db" "b \<in> set (update_where (consumable h t) (\<lambda>a. a\<lparr>la_consumed := Some t\<rparr>) (sd_attempts db))" for b
    using that(2)
  proof (cases rule: mem_update_whereE)
    case (2 b0)
    then have "b0 = a" using same that(1) by blast
    with 2 a created that(1) show ?thesis
      by (auto simp: db_good_def list_all_iff attempt_good_def consumable_def)
  qed (use that(1) in \<open>auto simp: db_good_def list_all_iff\<close>)
  moreover have "evolves_by attempt_next (sd_attempts db) (sd_attempts db')"
    unfolding db' by (auto intro!: evolves_by_update_where simp: attempt_next_def consumable_def)
  ultimately show ?thesis
    by (auto simp: advances_def db_good_def db' keys_unique_update_where list_all_iff mapping_exists_def
        intro!: evolves_by_subset)
qed

lemma create_session_advances:
  assumes "create_session s db = Inr (x, db')" and "os_absolute s = os_created s + absolute_lifetime"
  shows "advances db db'" and "s \<in> set (sd_sessions db')"
  using assms
  by (auto simp: create_session_def rbind_Inr_iff advances_def db_good_def keys_unique_append1 session_good_def
      mapping_exists_def lookup_row_None_iff intro!: evolves_by_subset split: if_splits)

lemma revoked_good: "session_good s \<Longrightarrow> session_good (s\<lparr>os_revoked := Some t, os_version := os_version s + 1\<rparr>)"
  by (auto simp: session_good_def session_row_ok_def)

lemma revoke_advances:
  assumes "revoke_by_token_hash h t db = Inr (x, db')"
  shows "advances db db'"
proof -
  from assms have db': "db' = db\<lparr>sd_sessions := update_where (revocable h)
      (\<lambda>s. s\<lparr>os_revoked := Some t, os_version := os_version s + 1\<rparr>) (sd_sessions db)\<rparr>"
    by (auto simp: revoke_by_token_hash_def)
  have "evolves_by session_next (sd_sessions db) (sd_sessions db')"
    unfolding db' by (auto intro!: evolves_by_update_where simp: session_next_def revocable_def)
  moreover have "list_all session_good (sd_sessions db')" if "db_good db"
    using that unfolding db' by (auto simp: db_good_def list_all_iff set_update_where intro: revoked_good)
  ultimately show ?thesis
    by (auto simp: advances_def db_good_def db' keys_unique_update_where mapping_exists_def intro!: evolves_by_subset)
qed

text \<open>A second unique key survives the replacement of a row when no other row has the new value.\<close>

lemma unique_put_other:
  assumes "keys_unique key t" and "keys_unique k t" and "k r' \<notin> k ` {x \<in> set t. key x \<noteq> key r'}"
  shows "keys_unique k (put_row key r' t)"
  using assms
proof (induction t)
  case (Cons x t)
  have IH: "keys_unique k (put_row key r' t)"
    using Cons by (auto simp: keys_unique_def)
  show ?case
  proof (cases "key x = key r'")
    case True
    with Cons.prems(1) have other: "\<forall>y \<in> set t. key y \<noteq> key r'" by (auto dest: keys_unique_Cons_mem)
    then have "put_row key r' t = t" by (auto simp: put_row_def update_where_def intro: map_idI)
    with True Cons.prems other show ?thesis by (auto simp: put_row_def update_where_def keys_unique_def)
  next
    case False
    then have "k x \<noteq> k r'" using Cons.prems(3) by (metis (mono_tags, lifting) imageI list.set_intros(1) mem_Collect_eq)
    with False Cons.prems IH show ?thesis
      by (auto simp: put_row_def update_where_def keys_unique_def split: if_splits)
  qed
qed (simp add: put_row_def update_where_def)

text \<open>The conditional update of a session read earlier, however much has happened since.\<close>

lemma update_session_advances:
  assumes up: "update_session u n db = Inr (x, db')" and before: "advances db0 db" "db_good db0"
    and s: "s \<in> set (sd_sessions db0)" "os_revoked s = None" "n = os_version s"
    and u: "os_id u = os_id s" "os_created u = os_created s" "os_absolute u = os_absolute s"
  shows "advances db db'" and "s \<in> set (sd_sessions db)" and "u \<in> set (sd_sessions db')"
proof -
  from up obtain r where r: "lookup_row os_id (os_id u) (sd_sessions db) = Some r" "os_version r = n"
      and ver: "os_version u = n + 1" and row: "session_row_ok u"
      and token: "os_token u \<notin> os_token ` {y \<in> set (sd_sessions db). os_id y \<noteq> os_id u}"
      and db': "db' = db\<lparr>sd_sessions := put_row os_id u (sd_sessions db)\<rparr>"
    by (auto simp: update_session_def rbind_Inr_iff split: if_splits option.splits)
  have good: "db_good db" using before by (rule advances_good)
  from r have "r \<in> set (sd_sessions db)" "os_id r = os_id s" using u(1) by (auto dest: lookup_row_SomeD)
  with r before s have rs: "r = s" by (auto intro: same_version_same_session)
  with \<open>r \<in> set (sd_sessions db)\<close> show mem: "s \<in> set (sd_sessions db)" by simp
  have ids: "keys_unique os_id (sd_sessions db)" using good by (simp add: db_good_def)
  have set': "set (sd_sessions db') = insert u {y \<in> set (sd_sessions db). os_id y \<noteq> os_id u}"
    using set_put_row [OF ids mem u(1)] mem u(1) keys_unique_same [OF ids _ mem] by (auto simp: db')
  then show "u \<in> set (sd_sessions db')" by simp
  have "session_good u" using good mem row u by (auto simp: db_good_def list_all_iff session_good_def)
  then have goods: "list_all session_good (sd_sessions db')"
    using good set' by (auto simp: db_good_def list_all_iff)
  have toks: "keys_unique os_token (sd_sessions db')"
    unfolding db' using unique_put_other [OF ids, of os_token u] good token u(1)
    by (auto simp: db_good_def)
  have "session_next s u" using u ver s by (auto simp: session_next_def)
  then have "evolves_by session_next (sd_sessions db) (sd_sessions db')"
    unfolding evolves_by_def set' using ids mem u(1)
    by (metis (mono_tags, lifting) insert_iff keys_unique_same mem_Collect_eq session_next_refl)
  moreover have "keys_unique os_id (sd_sessions db')"
    using ids by (simp add: db' keys_unique_put_row [OF ids mem u(1) u(1)])
  ultimately show "advances db db'" using good goods toks
    by (auto simp: advances_def db_good_def db' mapping_exists_def intro!: evolves_by_subset)
qed

lemma audit_append_advances:
  assumes "audit_append e db = Inr db'"
  shows "advances db db'" and "sd_epoch db' = sd_epoch db" and "sd_active_mapping db' = sd_active_mapping db"
    and "sd_sessions db' = sd_sessions db"
  using assms
  by (auto simp: audit_append_def rbind_Inr_iff advances_def db_good_def keys_unique_append1 mapping_exists_def
      lookup_row_None_iff intro!: evolves_by_subset split: if_splits)

lemma append_permission_mapping_advances:
  assumes "append_permission_mapping v n db = Inr (x, db')"
  shows "advances db db'"
proof -
  from assms obtain k t where new: "k \<notin> mr_key ` set (sd_mappings db)"
      "mv_revision v \<notin> (\<lambda>r. mv_revision (mr_version r)) ` set (sd_mappings db)" "mv_revision v = sd_mapping_revision db + 1"
      and db': "db' = db\<lparr>sd_mappings := sd_mappings db @ [\<lparr>mr_key = k, mr_version = v, mr_created = t\<rparr>],
        sd_mapping_revision := mv_revision v\<rparr>"
    by (auto simp: append_permission_mapping_def rbind_Inr_iff split: if_splits)
  have "list_all (\<lambda>r. mv_revision (mr_version r) \<le> mv_revision v) (sd_mappings db)" if "db_good db"
    using that new(3) by (auto simp: db_good_def list_all_iff)
  then show ?thesis
    using new unfolding db'
    by (auto simp: advances_def db_good_def keys_unique_append1 mapping_exists_def lookup_row_None_iff opt_ok_def
        intro!: evolves_by_subset split: option.splits)
qed

lemma activate_permission_mapping_advances:
  assumes "activate_permission_mapping i e db = Inr (x, db')"
  shows "advances db db'" and "sd_epoch db' = sd_epoch db + 1"
    and "active_permission_mapping db' = Some x"
proof -
  from assms obtain k r where k: "lookup_row mr_key k (sd_mappings db) = Some r" "x = mr_version r"
      and a: "audit_append e (db\<lparr>sd_active_mapping := Some k, sd_epoch := sd_epoch db + 1\<rparr>) = Inr db'"
    by (auto simp: activate_permission_mapping_def rbind_Inr_iff split: option.splits)
  have "k \<in> mr_key ` set (sd_mappings db)" using k(1) by (metis imageI lookup_row_SomeD)
  then have "advances db (db\<lparr>sd_active_mapping := Some k, sd_epoch := sd_epoch db + 1\<rparr>)"
    by (auto simp: advances_def db_good_def mapping_exists_def intro!: evolves_by_subset)
  from advances_trans [OF this audit_append_advances(1) [OF a]] show "advances db db'" .
  from a have "sd_mappings db' = sd_mappings db"
    by (auto simp: audit_append_def rbind_Inr_iff split: if_splits)
  with audit_append_advances [OF a] k show "sd_epoch db' = sd_epoch db + 1"
    and "active_permission_mapping db' = Some x"
    by (auto simp: active_permission_mapping_def)
qed

lemma append_egress_policy_advances:
  assumes "append_egress_policy v n db = Inr (x, db')"
  shows "advances db db'"
  using assms
  by (auto simp: append_egress_policy_def rbind_Inr_iff advances_def db_good_def mapping_exists_def
      intro!: evolves_by_subset split: if_splits)

lemma activate_egress_policy_advances:
  assumes "activate_egress_policy i e db = Inr (x, db')"
  shows "advances db db'"
proof -
  from assms obtain k where a: "audit_append e (db\<lparr>sd_active_policy := Some k\<rparr>) = Inr db'"
    by (auto simp: activate_egress_policy_def rbind_Inr_iff split: option.splits)
  have "advances db (db\<lparr>sd_active_policy := Some k\<rparr>)"
    by (auto simp: advances_def db_good_def mapping_exists_def intro!: evolves_by_subset)
  with audit_append_advances(1) [OF a] show ?thesis by (blast intro: advances_trans)
qed

end
