(* ===== verification/Session_Guarantees.thy ===== *)
theory Session_Guarantees
  imports Session_Histories
begin

text \<open>
  What each command of the session and permission services guarantees, step by step, when others
  advance the database between its steps, and what its result says.
\<close>

subsection \<open>Rules for a step followed by the rest\<close>

lemma amid_query:
  assumes "\<And>db1. advances db db1 \<Longrightarrow> holds_amid advances Q (k (f db1)) db1"
  shows "holds_amid advances Q (ebind (query f) k) db"
  by (rule holds_amid_ebind, rule holds_amid_query) (auto intro: assms)

lemma amid_txn:
  assumes "\<And>db1 e. advances db db1 \<Longrightarrow> f db1 = Inl e \<Longrightarrow> Q (Inl e) db1"
    and "\<And>db1 a db2. advances db db1 \<Longrightarrow> f db1 = Inr (a, db2) \<Longrightarrow> advances db1 db2 \<and> holds_amid advances Q (k a) db2"
  shows "holds_amid advances Q (ebind (txn f) k) db"
  by (rule holds_amid_ebind, rule holds_amid_txn) (auto intro: assms dest: assms(2))

lemma amid_last_txn:
  assumes "\<And>db1 e. advances db db1 \<Longrightarrow> f db1 = Inl e \<Longrightarrow> Q (Inl e) db1"
    and "\<And>db1 a db2. advances db db1 \<Longrightarrow> f db1 = Inr (a, db2) \<Longrightarrow> advances db1 db2 \<and> Q (Inr a) db2"
  shows "holds_amid advances Q (txn f) db"
  by (rule holds_amid_txn) (auto intro: assms dest: assms(2))

definition failing :: "(session_error + 'a \<Rightarrow> security_db \<Rightarrow> bool) \<Rightarrow> bool" where
  "failing Q \<longleftrightarrow> (\<forall>e db. Q (Inl e) db)"

lemma failingD: "failing Q \<Longrightarrow> Q (Inl e) db"
  by (simp add: failing_def)

subsection \<open>Sessions\<close>

lemma revoke_and_fail_amid: "failing Q \<Longrightarrow> holds_amid advances Q (revoke_and_fail h t reason) db"
  unfolding revoke_and_fail_def
  by (rule amid_txn) (auto dest: failingD revoke_advances)

lemma session_resolution_amid:
  assumes "\<And>db1 db2. advances db db1 \<Longrightarrow> advances db1 db2 \<Longrightarrow>
    Q (Inr (resolution_of S s cookie rotated (active_permission_mapping db1) (active_permission_mapping db2))) db2"
  shows "holds_amid advances Q (session_resolution S s cookie rotated) db"
  unfolding session_resolution_def by (intro amid_query) (auto intro: assms)

text \<open>
  What a resolution says: when the session row was last committed it still was the row of the
  cookie, unrevoked and unexpired; the principal is the one of the row or comes from a refresh; the
  permissions are those of the mapping active at a later moment.
\<close>

definition vouched :: "oidc_port \<Rightarrow> operator_session \<Rightarrow> instant \<Rightarrow> principal \<Rightarrow> bool" where
  "vouched P s t p \<longleftrightarrow> (if claims_stale s t then \<exists>material m. op_refresh P material = Inr m \<and> p = vm_principal m
     else p = os_principal s)"

definition live_session :: "session_service \<Rightarrow> utext \<Rightarrow> instant \<Rightarrow> operator_session \<Rightarrow> bool" where
  "live_session S cookie t s \<longleftrightarrow> os_token s = ss_digest S cookie \<and> os_revoked s = None \<and> t < os_absolute s \<and> t < os_idle s"

definition granted_by :: "session_service \<Rightarrow> security_db \<Rightarrow> principal \<Rightarrow> string list" where
  "granted_by S db p = sort (map permission_value
     (effective_permissions (ss_recovery S) (active_permission_mapping db) p))"

definition resolved_from :: "session_service \<Rightarrow> oidc_port \<Rightarrow> drawn \<Rightarrow> utext \<Rightarrow> instant \<Rightarrow> security_db
    \<Rightarrow> operator_session \<Rightarrow> security_db \<Rightarrow> resolved_session \<Rightarrow> bool" where
  "resolved_from S P D cookie t db s db2 r \<longleftrightarrow>
     vouched P s t (pj_principal (re_projection r))
     \<and> pj_permissions (re_projection r) = granted_by S db2 (pj_principal (re_projection r))
     \<and> pj_csrf (re_projection r) = csrf_token S (re_cookie r)
     \<and> re_cookie r = (if re_rotated r then lit (dr_cookie D) else cookie)
     \<and> (claims_stale s t \<or> os_epoch s < sd_epoch db \<longrightarrow> re_rotated r)
     \<and> sd_epoch db \<le> re_epoch r"

definition resolve_post :: "session_service \<Rightarrow> oidc_port \<Rightarrow> drawn \<Rightarrow> utext \<Rightarrow> instant \<Rightarrow> security_db
    \<Rightarrow> session_error + resolved_session \<Rightarrow> security_db \<Rightarrow> bool" where
  "resolve_post S P D cookie t db res db' \<longleftrightarrow> (\<forall>r. res = Inr r \<longrightarrow> (\<exists>db1 s db2. advances db db1 \<and> advances db1 db2
     \<and> advances db2 db' \<and> s \<in> set (sd_sessions db1) \<and> live_session S cookie t s
     \<and> resolved_from S P D cookie t db s db2 r))"

lemma resolve_post_failing: "failing (resolve_post S P D cookie t db)"
  by (simp add: failing_def resolve_post_def)

lemma renewed_session_simps [simp]:
  "os_id (renewed_session S s m c a e t) = os_id s" "os_created (renewed_session S s m c a e t) = os_created s"
  "os_absolute (renewed_session S s m c a e t) = os_absolute s" "os_epoch (renewed_session S s m c a e t) = e"
  "os_principal (renewed_session S s m c a e t) = fst m"
  by (simp_all add: renewed_session_def)

lemma renew_session_amid:
  assumes good: "db_good db0" and before: "advances db0 dbs" "advances dbs db"
    and s: "s \<in> set (sd_sessions dbs)" and live: "live_session S cookie t s" and m: "vouched P s t (fst m)"
    and rot: "claims_stale s t \<or> os_epoch s < sd_epoch db0 \<Longrightarrow> rotated"
  shows "holds_amid advances (resolve_post S P D cookie t db0) (renew_session S D s m cookie rotated t) db"
  unfolding renew_session_def Let_def
proof (intro amid_query amid_txn failingD [OF resolve_post_failing] conjI)
  fix dba dbb dbc x dbd
  assume steps: "advances db dba" "advances dba dbb" "advances dbb dbc"
  let ?c = "if rotated then lit (dr_cookie D) else cookie"
  let ?u = "renewed_session S s m ?c (active_permission_mapping dba) (sd_epoch dbb) t"
  assume up: "update_session ?u (os_version s) dbc = Inr (x, dbd)"
  have goods: "db_good dbs" using good before(1) by (rule advances_good [rotated])
  have sc: "advances dbs dbc" using before(2) steps by (blast intro: advances_trans)
  note upd = update_session_advances [OF up sc goods s _ refl]
  have un: "os_revoked s = None" using live by (simp add: live_session_def)
  show cd: "advances dbc dbd" by (rule upd(1)) (simp_all add: un)
  have mem: "s \<in> set (sd_sessions dbc)" by (rule upd(2)) (simp_all add: un)
  have "advances db0 dbb" using before steps by (blast intro: advances_trans)
  then have epoch: "sd_epoch db0 \<le> sd_epoch dbb" using good by (rule advances_epoch)
  show "holds_amid advances (resolve_post S P D cookie t db0) (session_resolution S ?u ?c rotated) dbd"
  proof (rule session_resolution_amid)
    fix db1 db2
    assume later: "advances dbd db1" "advances db1 db2"
    let ?r = "resolution_of S ?u ?c rotated (active_permission_mapping db1) (active_permission_mapping db2)"
    have "advances db0 dbc" "advances dbc db1"
      using before(1) sc cd later(1) by (blast intro: advances_trans)+
    moreover have "resolved_from S P D cookie t db0 s db1 ?r"
      using m epoch rot by (auto simp: resolved_from_def resolution_of_def granted_by_def)
    ultimately show "resolve_post S P D cookie t db0 (Inr ?r) db2"
      unfolding resolve_post_def using later(2) mem live by blast
  qed
qed

lemma refreshed_material_vouched: "refreshed_material S P D s material t = Some m \<Longrightarrow> vouched P s t (fst m)"
  by (fastforce simp: refreshed_material_def vouched_def Let_def split: if_splits sum.splits)

lemma refresh_and_renew_amid:
  assumes good: "db_good db0" and before: "advances db0 db"
    and s: "s \<in> set (sd_sessions db)" and live: "live_session S cookie t s"
  shows "holds_amid advances (resolve_post S P D cookie t db0) (refresh_and_renew S P D s material cookie t) db"
  unfolding refresh_and_renew_def
proof (rule amid_query)
  fix db1
  assume later: "advances db db1"
  show "holds_amid advances (resolve_post S P D cookie t db0) (case refreshed_material S P D s material t of
      None \<Rightarrow> revoke_and_fail (ss_digest S cookie) t ''OIDC claim refresh failed''
    | Some m \<Rightarrow> renew_session S D s m cookie (os_epoch s \<noteq> sd_epoch db1 \<or> claims_stale s t) t) db1"
  proof (cases "refreshed_material S P D s material t")
    case None
    then show ?thesis by (simp add: revoke_and_fail_amid resolve_post_failing)
  next
    case (Some m)
    have "sd_epoch db0 \<le> sd_epoch db1" using advances_trans [OF before later] good by (rule advances_epoch)
    then have "holds_amid advances (resolve_post S P D cookie t db0)
        (renew_session S D s m cookie (os_epoch s \<noteq> sd_epoch db1 \<or> claims_stale s t) t) db1"
      by (intro renew_session_amid [OF good before later s live refreshed_material_vouched [OF Some]]) auto
    with Some show ?thesis by simp
  qed
qed

lemma resolve_row_amid:
  assumes good: "db_good db0" and before: "advances db0 db"
  shows "holds_amid advances (resolve_post S P D cookie t db0)
    (resolve_row S P D cookie t (session_by_token (ss_digest S cookie) db)) db"
proof (cases "session_by_token (ss_digest S cookie) db")
  case None
  then show ?thesis by (simp add: resolve_row_def failingD [OF resolve_post_failing])
next
  case (Some s)
  have "live_session S cookie t s" if "os_revoked s = None" "\<not> expired s t"
    using that session_by_tokenD [OF Some] by (auto simp: live_session_def expired_def)
  with Some session_by_tokenD [OF Some] show ?thesis
    by (auto simp: resolve_row_def failingD [OF resolve_post_failing] revoke_and_fail_amid resolve_post_failing
        split: option.splits intro!: refresh_and_renew_amid [OF good before])
qed

lemma resolve_session_amid:
  assumes "db_good db"
  shows "holds_amid advances (resolve_post S P D cookie t db) (resolve_session S P D cookie (Aware t)) db"
  by (auto simp: resolve_session_def session_clock_def intro!: amid_query resolve_row_amid [OF assms])

subsection \<open>Logins\<close>

definition state_consumed :: "string \<Rightarrow> security_db \<Rightarrow> bool" where
  "state_consumed h db \<longleftrightarrow> list_ex (\<lambda>a. la_state a = h \<and> la_consumed a \<noteq> None) (sd_attempts db)"

lemma state_consumed_stays: "state_consumed h db \<Longrightarrow> advances db db' \<Longrightarrow> db_good db \<Longrightarrow> state_consumed h db'"
  unfolding state_consumed_def list_ex_iff by (blast intro: consumed_attempt_stays)

lemma consume_login_attempt_consumes:
  assumes "consume_login_attempt h t db = Inr (Some a, db')"
  shows "state_consumed h db'"
proof -
  from assms obtain b where b: "find (consumable h t) (sd_attempts db) = Some b"
      and db': "db' = db\<lparr>sd_attempts := update_where (consumable h t) (\<lambda>a. a\<lparr>la_consumed := Some t\<rparr>) (sd_attempts db)\<rparr>"
    by (auto simp: consume_login_attempt_def split: option.splits if_splits)
  from find_consumable [OF b] have "b\<lparr>la_consumed := Some t\<rparr> \<in> set (sd_attempts db')"
    by (simp add: db' mem_update_where_upd)
  moreover have "la_state b = h" using find_consumable [OF b] by (simp add: consumable_def)
  ultimately show ?thesis
    by (auto simp: state_consumed_def list_ex_iff intro!: bexI [of _ "b\<lparr>la_consumed := Some t\<rparr>"])
qed

lemma consume_login_attempt_again:
  assumes "state_consumed h db" and "db_good db"
  shows "consume_login_attempt h t db = Inr (None, db)"
proof -
  have "\<not> consumable h t b" if "b \<in> set (sd_attempts db)" for b
    using assms that by (auto simp: state_consumed_def list_ex_iff consumable_def db_good_def dest: keys_unique_same)
  then have "find (consumable h t) (sd_attempts db) = None" by (auto simp: find_None_iff)
  then show ?thesis by (simp add: consume_login_attempt_def)
qed

text \<open>A login that succeeds leaves its state consumed and its session in the table.\<close>

definition login_post :: "session_service \<Rightarrow> drawn \<Rightarrow> utext \<Rightarrow> instant
    \<Rightarrow> session_error + resolved_session \<Rightarrow> security_db \<Rightarrow> bool" where
  "login_post S D state t res db' \<longleftrightarrow> (\<forall>r. res = Inr r \<longrightarrow> state_consumed (ss_digest S state) db'
     \<and> (\<exists>s \<in> set (sd_sessions db'). os_id s = dr_session D \<and> os_absolute s = t + absolute_lifetime))"

lemma login_post_failing: "failing (login_post S D state t)"
  by (simp add: failing_def login_post_def)

lemma new_session_simps [simp]:
  "os_id (new_session S D m a e t) = dr_session D" "os_created (new_session S D m a e t) = t"
  "os_absolute (new_session S D m a e t) = t + absolute_lifetime"
  by (simp_all add: new_session_def Let_def)

lemma session_of_login_amid:
  assumes good: "db_good db" and consumed: "state_consumed (ss_digest S state) db"
  shows "holds_amid advances (login_post S D state t)
    (ebind (query active_permission_mapping) (\<lambda>active.
     ebind (query sd_epoch) (\<lambda>epoch.
       let s = new_session S D m active epoch t in
       if \<not> operator_session_ok s then fail_with (Persistence Validation_error)
       else ebind (txn (create_session s)) (\<lambda>_. session_resolution S s (lit (dr_cookie D)) True)))) db"
proof (intro amid_query)
  fix db1 db2
  assume steps: "advances db db1" "advances db1 db2"
  let ?s = "new_session S D m (active_permission_mapping db1) (sd_epoch db2) t"
  have "holds_amid advances (login_post S D state t)
      (ebind (txn (create_session ?s)) (\<lambda>_. session_resolution S ?s (lit (dr_cookie D)) True)) db2"
  proof (intro amid_txn failingD [OF login_post_failing] conjI)
    fix db3 x db4
    assume later: "advances db2 db3" and new: "create_session ?s db3 = Inr (x, db4)"
    show c: "advances db3 db4" using create_session_advances(1) [OF new] by simp
    have mem: "?s \<in> set (sd_sessions db4)" using create_session_advances(2) [OF new] by simp
    have a: "advances db db4" using steps later c by (blast intro: advances_trans)
    show "holds_amid advances (login_post S D state t) (session_resolution S ?s (lit (dr_cookie D)) True) db4"
    proof (rule session_resolution_amid)
      fix db5 db6
      assume rest: "advances db4 db5" "advances db5 db6"
      have "advances db4 db6" using rest by (rule advances_trans)
      then obtain s' where "s' \<in> set (sd_sessions db6)" "session_next ?s s'"
        using advances_good [OF a good] mem by (rule advances_session)
      moreover have "state_consumed (ss_digest S state) db6"
        using state_consumed_stays [OF consumed advances_trans [OF a \<open>advances db4 db6\<close>] good] .
      ultimately show "login_post S D state t (Inr (resolution_of S ?s (lit (dr_cookie D)) True
          (active_permission_mapping db5) (active_permission_mapping db6))) db6"
        by (force simp: login_post_def session_next_def)
    qed
  qed
  then show "holds_amid advances (login_post S D state t) (let s = ?s in
      if \<not> operator_session_ok s then fail_with (Persistence Validation_error)
      else ebind (txn (create_session s)) (\<lambda>_. session_resolution S s (lit (dr_cookie D)) True)) db2"
    by (auto simp: Let_def failingD [OF login_post_failing])
qed

lemma complete_login_amid:
  assumes "db_good db"
  shows "holds_amid advances (login_post S D state t) (complete_login S P D state code (Aware t)) db"
  unfolding complete_login_def session_clock_def clock.case sum.case Let_def
proof (intro amid_txn failingD [OF login_post_failing] conjI)
  fix db1 attempt db2
  assume before: "advances db db1" and consume: "consume_login_attempt (ss_digest S state) t db1 = Inr (attempt, db2)"
  show step: "advances db1 db2" using consume by (rule consume_login_attempt_advances)
  have good: "db_good db2" using advances_trans [OF before step] assms by (rule advances_good)
  show "holds_amid advances (login_post S D state t) (case attempt of
      None \<Rightarrow> fail_with (Authentication_failed ''OIDC authorization state is invalid or replayed'')
    | Some a \<Rightarrow>
        (case attempt_material S P a (ss_digest S state) code of
           None \<Rightarrow> fail_with (Authentication_failed ''OIDC authorization response is invalid'')
         | Some m \<Rightarrow>
             ebind (query active_permission_mapping) (\<lambda>active.
             ebind (query sd_epoch) (\<lambda>epoch.
               if \<not> operator_session_ok (new_session S D m active epoch t) then fail_with (Persistence Validation_error)
               else ebind (txn (create_session (new_session S D m active epoch t))) (\<lambda>_.
                 session_resolution S (new_session S D m active epoch t) (lit (dr_cookie D)) True))))) db2"
    using consume session_of_login_amid [OF good, of S state D t]
    by (auto simp: failingD [OF login_post_failing] Let_def split: option.splits dest!: consume_login_attempt_consumes)
qed

lemma replayed_login_amid:
  assumes "db_good db" and "state_consumed (ss_digest S state) db"
  shows "holds_amid advances (\<lambda>res _. res = Inl (Authentication_failed ''OIDC authorization state is invalid or replayed''))
    (complete_login S P D state code (Aware t)) db"
  unfolding complete_login_def session_clock_def clock.case sum.case Let_def
proof (rule amid_txn)
  fix db1 e
  assume "advances db db1" "consume_login_attempt (ss_digest S state) t db1 = Inl e"
  then show "Inl e = Inl (Authentication_failed ''OIDC authorization state is invalid or replayed'')"
    using consume_login_attempt_again [OF state_consumed_stays advances_good] assms by (metis sum.distinct(1))
next
  fix db1 attempt db2
  assume "advances db db1" "consume_login_attempt (ss_digest S state) t db1 = Inr (attempt, db2)"
  moreover from this(1) have "consume_login_attempt (ss_digest S state) t db1 = Inr (None, db1)"
    using consume_login_attempt_again [OF state_consumed_stays advances_good] assms by blast
  ultimately show "advances db1 db2 \<and> holds_amid advances
      (\<lambda>res _. res = Inl (Authentication_failed ''OIDC authorization state is invalid or replayed'')) (case attempt of
      None \<Rightarrow> fail_with (Authentication_failed ''OIDC authorization state is invalid or replayed'')
    | Some a \<Rightarrow>
        (case attempt_material S P a (ss_digest S state) code of
           None \<Rightarrow> fail_with (Authentication_failed ''OIDC authorization response is invalid'')
         | Some m \<Rightarrow>
             ebind (query active_permission_mapping) (\<lambda>active.
             ebind (query sd_epoch) (\<lambda>epoch.
               if \<not> operator_session_ok (new_session S D m active epoch t) then fail_with (Persistence Validation_error)
               else ebind (txn (create_session (new_session S D m active epoch t))) (\<lambda>_.
                 session_resolution S (new_session S D m active epoch t) (lit (dr_cookie D)) True))))) db2"
    by simp
qed

subsection \<open>Logout\<close>

definition token_revoked :: "string \<Rightarrow> security_db \<Rightarrow> bool" where
  "token_revoked h db \<longleftrightarrow> list_ex (\<lambda>s. os_token s = h \<and> os_revoked s \<noteq> None) (sd_sessions db)"

lemma token_revoked_stays: "token_revoked h db \<Longrightarrow> advances db db' \<Longrightarrow> db_good db \<Longrightarrow> token_revoked h db'"
  unfolding token_revoked_def list_ex_iff by (blast intro: revoked_session_stays)

lemma revoke_revokes:
  assumes "revoke_by_token_hash h t db = Inr (True, db')"
  shows "token_revoked h db'"
proof -
  from assms obtain s where "s \<in> set (sd_sessions db)" "revocable h s"
      and db': "sd_sessions db' = update_where (revocable h)
        (\<lambda>s. s\<lparr>os_revoked := Some t, os_version := os_version s + 1\<rparr>) (sd_sessions db)"
    by (auto simp: revoke_by_token_hash_def list_ex_iff)
  then have "s\<lparr>os_revoked := Some t, os_version := os_version s + 1\<rparr> \<in> set (sd_sessions db')"
    using mem_update_where_upd [of s "sd_sessions db" "revocable h"] by metis
  moreover have "os_token s = h" using \<open>revocable h s\<close> by (simp add: revocable_def)
  ultimately show ?thesis
    by (auto simp: token_revoked_def list_ex_iff
        intro!: bexI [of _ "s\<lparr>os_revoked := Some t, os_version := os_version s + 1\<rparr>"])
qed

lemma logout_amid:
  "holds_amid advances (\<lambda>res db'. res = Inr True \<longrightarrow> token_revoked (ss_digest S cookie) db') (logout S cookie (Aware t)) db"
  unfolding logout_def session_clock_def clock.case sum.case
  by (rule amid_last_txn) (auto dest: revoke_advances revoke_revokes)

lemma dead_cookie_amid:
  assumes "db_good db" and "token_revoked (ss_digest S cookie) db"
  shows "holds_amid advances (\<lambda>res _. res = Inl (Authentication_failed ''operator session is unavailable''))
    (resolve_session S P D cookie (Aware t)) db"
  unfolding resolve_session_def session_clock_def clock.case sum.case
proof (rule amid_query)
  fix db1
  assume later: "advances db db1"
  have "token_revoked (ss_digest S cookie) db1" using assms(2) later assms(1) by (rule token_revoked_stays)
  then obtain s where s: "s \<in> set (sd_sessions db1)" "os_token s = ss_digest S cookie" "os_revoked s \<noteq> None"
    by (auto simp: token_revoked_def list_ex_iff)
  have "session_by_token (ss_digest S cookie) db1 = Some s"
    using session_by_token_row [OF advances_good [OF later assms(1)] s(1)] s(2) by simp
  with s(3) show "holds_amid advances (\<lambda>res _. res = Inl (Authentication_failed ''operator session is unavailable''))
      (resolve_row S P D cookie t (session_by_token (ss_digest S cookie) db1)) db1"
    by (auto simp: resolve_row_def)
qed

end
