(* ===== verification/Operator_Requests.thy ===== *)
theory Operator_Requests
  imports Operator_Sessions
begin

text \<open>
  The boundary where requests of operators enter: \<open>control/security/csrf.py\<close>, the session middleware
  \<open>observability/api/security_middleware.py\<close>, \<open>operator_identity.py\<close>, and the handlers of
  \<open>delivery/auth_api.py\<close> and \<open>delivery/security_configuration_api.py\<close>. Header values are Latin-1 text.
\<close>

subsection \<open>Provenance and CSRF\<close>

text \<open>\<open>_normalized_origin\<close>; \<open>None\<close> is its \<open>ValueError\<close>.\<close>

definition normalized_origin :: "url_codec \<Rightarrow> string \<Rightarrow> string option" where
  "normalized_origin U value =
     (case uc_split U value of
        None \<Rightarrow> None
      | Some u \<Rightarrow>
          if lower_ascii (up_scheme u) \<noteq> ''https'' \<or> up_userinfo u then None
          else
            (case (Option.bind (up_host u) (uc_idna U), up_port u) of
               (Some h, Some p) \<Rightarrow> Some (''https://'' @ lower_ascii h @ '':'' @ decimal (if p = 0 then 443 else p))
             | _ \<Rightarrow> None))"

definition referer_origin :: "url_codec \<Rightarrow> string option \<Rightarrow> string option" where
  "referer_origin U referer =
     (case referer of
        None \<Rightarrow> None
      | Some value \<Rightarrow>
          if value = [] then None
          else (case uc_split U value of None \<Rightarrow> None
                | Some u \<Rightarrow> normalized_origin U (up_scheme u @ ''://'' @ up_netloc u)))"

datatype csrf_error = Csrf_rejected string | Csrf_value_error | Csrf_type_error

definition ascii_string :: "string \<Rightarrow> bool" where
  "ascii_string s \<longleftrightarrow> list_all (\<lambda>c. of_char c < (128 :: int)) s"

definition origin_given :: "string option \<Rightarrow> string option" where
  "origin_given h = (case h of Some v \<Rightarrow> if v = [] then None else Some v | None \<Rightarrow> None)"

definition require_same_origin_csrf :: "url_codec \<Rightarrow> string \<Rightarrow> string option \<Rightarrow> string option \<Rightarrow> string option \<Rightarrow> string
    \<Rightarrow> csrf_error + unit" where
  "require_same_origin_csrf U stable_origin given referer supplied expected =
     (case normalized_origin U stable_origin of
        None \<Rightarrow> Inl Csrf_value_error
      | Some site \<Rightarrow>
          rbind (case origin_given given of
                   Some v \<Rightarrow> (case normalized_origin U v of None \<Rightarrow> Inl Csrf_value_error | Some x \<Rightarrow> Inr (Some x))
                 | None \<Rightarrow> Inr (referer_origin U referer)) (\<lambda>from.
            if from \<noteq> Some site then Inl (Csrf_rejected ''browser_origin_rejected'')
            else (case supplied of
                    None \<Rightarrow> Inl (Csrf_rejected ''csrf_token_rejected'')
                  | Some token \<Rightarrow>
                      if \<not> ascii_string token \<or> \<not> ascii_string expected then Inl Csrf_type_error
                      else if token \<noteq> expected then Inl (Csrf_rejected ''csrf_token_rejected'') else Inr ())))"

subsection \<open>Identity\<close>

record operator_identity =
  oi_operator :: utext
  oi_display_name :: utext
  oi_permissions :: "permission list"
  oi_authorization :: authorization
  oi_mapping :: "string option"
  oi_epoch :: int

fun all_some :: "'a option list \<Rightarrow> 'a list option" where
  "all_some [] = Some []"
| "all_some (x # xs) = (case (x, all_some xs) of (Some a, Some as) \<Rightarrow> Some (a # as) | _ \<Rightarrow> None)"

definition identity_of :: "resolved_session \<Rightarrow> operator_identity option" where
  "identity_of r = map_option (\<lambda>ps.
     \<lparr>oi_operator = pr_subject (pj_principal (re_projection r)),
      oi_display_name = pr_display_name (pj_principal (re_projection r)), oi_permissions = ps,
      oi_authorization = re_authorization r, oi_mapping = re_mapping r, oi_epoch = re_epoch r\<rparr>)
     (all_some (map permission_of (pj_permissions (re_projection r))))"

definition local_identity :: operator_identity where
  "local_identity = \<lparr>oi_operator = lit ''local-user'', oi_display_name = lit ''Local Operator'',
     oi_permissions = all_permissions, oi_authorization = public_authorization,
     oi_mapping = Some ''00000000-0000-4000-8000-000000000001'', oi_epoch = 1\<rparr>"

subsection \<open>The middleware\<close>

record http_request =
  hr_path :: string
  hr_method :: string
  hr_cookie :: "utext option"
  hr_origin :: "string option"
  hr_referer :: "string option"
  hr_csrf :: "string option"

text \<open>
  A request is handled (and a new session cookie set on the response), refused with a status and a
  reason (and its cookie cleared), or ends in an exception.
\<close>

datatype 'b http_outcome = Handled 'b "utext option" | Refused int string bool | Crashed session_error

definition mutating :: "http_request \<Rightarrow> bool" where
  "mutating r \<longleftrightarrow> map upper_char (hr_method r) \<in> {''POST'', ''PUT'', ''PATCH'', ''DELETE''}"

definition unauthenticated_path :: "http_request \<Rightarrow> bool" where
  "unauthenticated_path r \<longleftrightarrow> hr_path r \<in> {''/api/auth/login'', ''/api/auth/callback'', ''/livez''}
     \<or> take 4 (hr_path r) \<noteq> ''/api''"

definition csrf_check :: "url_codec \<Rightarrow> string \<Rightarrow> http_request \<Rightarrow> resolved_session \<Rightarrow> csrf_error + unit" where
  "csrf_check U stable_origin r res =
     (if mutating r
      then require_same_origin_csrf U stable_origin (hr_origin r) (hr_referer r) (hr_csrf r) (pj_csrf (re_projection res))
      else Inr ())"

text \<open>What follows the resolution of the session; the handler is the rest of the application.\<close>

definition after_resolution :: "url_codec \<Rightarrow> string \<Rightarrow> http_request
    \<Rightarrow> ((operator_identity \<times> resolved_session) option \<Rightarrow> (security_db, 'b) prog)
    \<Rightarrow> session_error + resolved_session \<Rightarrow> (security_db, 'b http_outcome) prog" where
  "after_resolution U stable_origin r handler resolved =
     (case resolved of
        Inl (Authentication_failed _) \<Rightarrow> Done (Refused 401 ''authentication_required'' True)
      | Inl e \<Rightarrow> Done (Crashed e)
      | Inr res \<Rightarrow>
          (case csrf_check U stable_origin r res of
             Inl (Csrf_rejected reason) \<Rightarrow> Done (Refused 403 reason False)
           | Inl Csrf_value_error \<Rightarrow> Done (Refused 403 ''browser_origin_rejected'' False)
           | Inl Csrf_type_error \<Rightarrow> Done (Crashed Session_type_error)
           | Inr _ \<Rightarrow>
               (case identity_of res of
                  None \<Rightarrow> Done (Crashed (Session_value_error ''Permission''))
                | Some i \<Rightarrow> prog_bind (handler (Some (i, res)))
                    (\<lambda>b. Done (Handled b (if re_rotated res then Some (re_cookie res) else None))))))"

definition dispatch :: "session_service \<Rightarrow> url_codec \<Rightarrow> string \<Rightarrow> oidc_port \<Rightarrow> drawn \<Rightarrow> clock \<Rightarrow> http_request
    \<Rightarrow> ((operator_identity \<times> resolved_session) option \<Rightarrow> (security_db, 'b) prog) \<Rightarrow> (security_db, 'b http_outcome) prog" where
  "dispatch S U stable_origin P D now r handler =
     (if unauthenticated_path r then prog_bind (handler None) (\<lambda>b. Done (Handled b None))
      else
        (case hr_cookie r of
           None \<Rightarrow> Done (Refused 401 ''authentication_required'' False)
         | Some cookie \<Rightarrow>
             if cookie = [] then Done (Refused 401 ''authentication_required'' False)
             else prog_bind (resolve_session S P D cookie now) (after_resolution U stable_origin r handler)))"

subsection \<open>Handlers\<close>

datatype api_error = Http_error int string | Api_raised session_error

definition require_operator_permission :: "operator_identity \<Rightarrow> permission \<Rightarrow> api_error + unit" where
  "require_operator_permission i p = (if p \<in> set (oi_permissions i) then Inr ()
     else Inl (Http_error 403 (''Operator lacks required permission: '' @ permission_value p)))"

text \<open>\<open>callback\<close> and \<open>logout\<close> of \<open>auth_api\<close>; the browser gets the cookie of the new session.\<close>

definition callback_handler :: "session_service \<Rightarrow> oidc_port \<Rightarrow> drawn \<Rightarrow> utext \<Rightarrow> utext \<Rightarrow> clock
    \<Rightarrow> (security_db, api_error + utext) prog" where
  "callback_handler S P D state code now = prog_bind (complete_login S P D state code now) (\<lambda>res. Done (case res of
     Inl (Authentication_failed _) \<Rightarrow> Inl (Http_error 401 ''OIDC login failed'')
   | Inl e \<Rightarrow> Inl (Api_raised e)
   | Inr r \<Rightarrow> Inr (re_cookie r)))"

definition logout_handler :: "session_service \<Rightarrow> clock \<Rightarrow> resolved_session \<Rightarrow> (security_db, api_error + unit) prog" where
  "logout_handler S now r = prog_bind (logout S (re_cookie r) now) (\<lambda>res. Done (case res of
     Inl e \<Rightarrow> Inl (Api_raised e)
   | Inr _ \<Rightarrow> Inr ()))"

text \<open>A conflict becomes status 409; every other exception leaves the handler.\<close>

definition conflict_status :: "string \<Rightarrow> session_error + 'a \<Rightarrow> api_error + 'a" where
  "conflict_status detail res = (case res of
     Inl (Persistence (Persistence_conflict _ _ _ _)) \<Rightarrow> Inl (Http_error 409 detail)
   | Inl e \<Rightarrow> Inl (Api_raised e)
   | Inr a \<Rightarrow> Inr a)"

definition create_mapping_handler :: "recovery_mapping \<Rightarrow> operator_identity \<Rightarrow> string \<Rightarrow> int \<Rightarrow> claim_rule list \<Rightarrow> clock
    \<Rightarrow> (security_db, api_error + mapping_version) prog" where
  "create_mapping_handler rm i version_id expected rules now =
     (let v = \<lparr>mv_id = version_id, mv_revision = expected + 1, mv_rules = rules, mv_created_at = now,
               mv_created_by = oi_operator i\<rparr>
      in case require_operator_permission i Permission_mapping_edit of
           Inl e \<Rightarrow> Done (Inl e)
         | Inr _ \<Rightarrow>
             if list_ex (\<lambda>r. cr_path r = rm_path rm \<and> cr_value r = rm_group rm) rules
             then Done (Inl (Http_error 422 ''recovery_mapping_is_immutable''))
             else if \<not> mapping_version_ok v then Done (Inl (Api_raised (Persistence Validation_error)))
             else prog_bind (txn (append_permission_mapping v expected))
                    (\<lambda>res. Done (conflict_status ''permission_mapping_conflict'' res)))"

definition raised :: "session_error + 'a \<Rightarrow> api_error + 'a" where
  "raised res = (case res of Inl e \<Rightarrow> Inl (Api_raised e) | Inr a \<Rightarrow> Inr a)"

text \<open>\<open>_activation_audit\<close>; \<open>audit_id\<close> is the text of a fresh UUID.\<close>

definition activation_audit :: "operator_identity \<Rightarrow> resolved_session option \<Rightarrow> string \<Rightarrow> string \<Rightarrow> string \<Rightarrow> string \<Rightarrow> clock
    \<Rightarrow> audit_event" where
  "activation_audit i res audit_id event_type target_type target now =
     \<lparr>ae_id = audit_id, ae_category = ''security'', ae_type = event_type, ae_outcome = ''succeeded'',
      ae_actor = [(lit ''subject'', Py_text (oi_operator i)), (lit ''identity_provider'', Py_text (lit ''enterprise-oidc'')),
        (lit ''session_id'', Py_text (lit (case res of None \<Rightarrow> ''development-session''
           | Some r \<Rightarrow> pj_session_id (re_projection r)))),
        (lit ''permissions'', Py_list (map (\<lambda>p. Py_text (lit p)) (sort (map permission_value (oi_permissions i))))),
        (lit ''matched_groups'', Py_list [])],
      ae_target_type = target_type, ae_target = target, ae_metadata = [], ae_occurred_at = now\<rparr>"

definition activate_mapping_handler :: "operator_identity \<Rightarrow> resolved_session option \<Rightarrow> string \<Rightarrow> string \<Rightarrow> clock
    \<Rightarrow> (security_db, api_error + mapping_version) prog" where
  "activate_mapping_handler i res version_id audit_id now =
     (case require_operator_permission i Permission_mapping_edit of
        Inl x \<Rightarrow> Done (Inl x)
      | Inr _ \<Rightarrow> prog_bind (txn (activate_permission_mapping version_id (activation_audit i res audit_id
           ''permission_mapping.activated'' ''permission_mapping_version'' version_id now))) (\<lambda>x. Done (raised x)))"

definition create_policy_handler :: "operator_identity \<Rightarrow> string \<Rightarrow> int \<Rightarrow> origin_rule list \<Rightarrow> clock
    \<Rightarrow> (security_db, api_error + egress_version) prog" where
  "create_policy_handler i version_id expected rules now =
     (let v = \<lparr>ev_id = version_id, ev_revision = expected + 1, ev_rules = rules, ev_created_at = now,
               ev_created_by = oi_operator i\<rparr>
      in case require_operator_permission i Egress_policy_edit of
           Inl e \<Rightarrow> Done (Inl e)
         | Inr _ \<Rightarrow>
             if \<not> egress_version_ok v then Done (Inl (Api_raised (Persistence Validation_error)))
             else prog_bind (txn (append_egress_policy v expected))
                    (\<lambda>res. Done (conflict_status ''egress_policy_conflict'' res)))"

definition activate_policy_handler :: "operator_identity \<Rightarrow> resolved_session option \<Rightarrow> string \<Rightarrow> string \<Rightarrow> clock
    \<Rightarrow> (security_db, api_error + egress_version) prog" where
  "activate_policy_handler i res version_id audit_id now =
     (case require_operator_permission i Egress_policy_edit of
        Inl x \<Rightarrow> Done (Inl x)
      | Inr _ \<Rightarrow> prog_bind (txn (activate_egress_policy version_id (activation_audit i res audit_id
           ''egress_policy.activated'' ''egress_policy_version'' version_id now))) (\<lambda>x. Done (raised x)))"

end
