(* ===== verification/Session_Properties.thy ===== *)
theory Session_Properties
  imports Session_Guarantees Operator_Requests
begin

text \<open>
  The properties of operator security: histories of any number of commands that interleave, the
  life of a session from its login to its logout, and what an operator may do.
\<close>

subsection \<open>Guarantees of the commands\<close>

datatype reply = Reply_url string | Reply_session resolved_session | Reply_done bool | Reply_mapping mapping_version
  | Reply_policy egress_version

definition as_reply :: "('a \<Rightarrow> reply) \<Rightarrow> 'a command \<Rightarrow> reply command" where
  "as_reply f p = prog_bind p (\<lambda>r. Done (map_sum id f r))"

text \<open>
  The commands of any requests, with whatever provider answers and drawn values; a handler behind the
  middleware is a sequence of them.
\<close>

inductive session_command :: "session_service \<Rightarrow> reply command \<Rightarrow> bool" for S where
  "session_command S (as_reply Reply_url (start_login S P D redirect_uri now))"
| "session_command S (as_reply Reply_session (complete_login S P D state code now))"
| "session_command S (as_reply Reply_session (resolve_session S P D cookie now))"
| "session_command S (as_reply Reply_done (logout S cookie now))"
| "session_command S (as_reply Reply_mapping (append_mapping (ss_recovery S) v n))"
| "session_command S (as_reply Reply_mapping (activate_mapping (ss_recovery S) i e))"
| "session_command S (as_reply Reply_mapping (txn (append_permission_mapping v n)))"
| "session_command S (as_reply Reply_mapping (txn (activate_permission_mapping i e)))"
| "session_command S (as_reply Reply_policy (txn (append_egress_policy w n)))"
| "session_command S (as_reply Reply_policy (txn (activate_egress_policy i e)))"
| "session_command S (Done r)"
| "session_command S p \<Longrightarrow> (\<And>r. session_command S (k r)) \<Longrightarrow> session_command S (prog_bind p k)"

lemma amid_guarantees: "holds_amid advances Q p db \<Longrightarrow> security.guarantees p db"
  by (auto simp: security.guarantees_def elim: holds_amid_weaken)

lemma done_guarantees [simp]: "security.guarantees (Done r) db"
  by (simp add: security.guarantees_def)

lemma fail_guarantees [simp]: "security.guarantees (fail_with e) db"
  by (simp add: security.guarantees_def)

lemma txn_guarantees:
  "(\<And>db a db'. f db = Inr (a, db') \<Longrightarrow> advances db db') \<Longrightarrow> security.guarantees (txn f) db"
  unfolding security.guarantees_def by (rule amid_last_txn) auto

lemma as_reply_guarantees:
  "(\<And>db. db_good db \<Longrightarrow> security.guarantees p db) \<Longrightarrow> db_good db \<Longrightarrow> security.guarantees (as_reply f p) db"
  unfolding as_reply_def by (rule security.guarantees_bind) auto

lemma start_login_guarantees: "security.guarantees (start_login S P D redirect_uri now) db"
proof (cases "rbind (session_clock now) (new_login_attempt S D redirect_uri)")
  case (Inl e)
  then show ?thesis by (simp add: start_login_def)
next
  case (Inr a)
  then have "la_expires a = la_created a + login_lifetime"
    by (auto simp: rbind_Inr_iff new_login_attempt_def Let_def split: if_splits)
  then have "security.guarantees (ebind (txn (create_login_attempt a)) (\<lambda>_. give (op_url P (dr_state D) (dr_nonce D)
      (ss_challenge S (dr_verifier D)) redirect_uri))) db"
    unfolding security.guarantees_def by (intro amid_txn) (auto dest: create_login_attempt_advances)
  then show ?thesis by (simp only: start_login_def Inr sum.case)
qed

lemma complete_login_guarantees: "db_good db \<Longrightarrow> security.guarantees (complete_login S P D state code now) db"
  by (cases now) (auto simp: complete_login_def [where now = Naive] session_clock_def
      intro: amid_guarantees [OF complete_login_amid])

lemma resolve_session_guarantees: "db_good db \<Longrightarrow> security.guarantees (resolve_session S P D cookie now) db"
  by (cases now) (auto simp: resolve_session_def [where now = Naive] session_clock_def
      intro: amid_guarantees [OF resolve_session_amid])

lemma logout_guarantees: "security.guarantees (logout S cookie now) db"
  by (cases now) (auto simp: logout_def [where now = Naive] session_clock_def
      intro: amid_guarantees [OF logout_amid])

lemma append_mapping_guarantees: "security.guarantees (append_mapping rm v n) db"
  by (auto simp: append_mapping_def split: sum.splits
      intro!: txn_guarantees dest: append_permission_mapping_advances)

lemma activate_mapping_guarantees: "security.guarantees (activate_mapping rm i e) db"
proof -
  have "security.guarantees (case found of
      None \<Rightarrow> txn (activate_permission_mapping i e)
    | Some v \<Rightarrow> (case validate_editable_mapping rm v of Inl x \<Rightarrow> fail_with x
        | Inr _ \<Rightarrow> txn (activate_permission_mapping i e))) db'" for found db'
    by (auto split: option.splits sum.splits intro!: txn_guarantees dest: activate_permission_mapping_advances)
  then show ?thesis
    unfolding activate_mapping_def security.guarantees_def
    by (intro amid_txn) (auto simp: rbind_Inr_iff)
qed

lemma session_command_guarantees: "session_command S p \<Longrightarrow> db_good db \<Longrightarrow> security.guarantees p db"
proof (induction arbitrary: db rule: session_command.induct)
  case (12 p k)
  then show ?case by (auto intro: security.guarantees_bind)
qed (auto intro!: as_reply_guarantees start_login_guarantees complete_login_guarantees resolve_session_guarantees
    logout_guarantees append_mapping_guarantees activate_mapping_guarantees txn_guarantees
    dest: append_permission_mapping_advances activate_permission_mapping_advances append_egress_policy_advances
      activate_egress_policy_advances)

lemma migrated_db_good: "db_good migrated_db"
  by (simp add: db_good_def migrated_db_def keys_unique_def mapping_exists_def)

lemma history_advances:
  assumes "pool_steps (session_command S) (migrated_db, []) (db, ps)"
    and "pool_steps (session_command S) (db, ps) (db', ps')"
  shows "db_good db" and "db_good db'" and "advances db db'"
proof -
  have safe: "security.pool_safe db ps"
    using security.pool_steps_safe [OF assms(1) _ session_command_guarantees] migrated_db_good
    by (simp add: security.pool_safe_def)
  from security.pool_steps_safe [OF assms(2) safe session_command_guarantees]
  have "advances db db'" "security.pool_safe db' ps'" by auto
  with safe show "db_good db" and "db_good db'" and "advances db db'" by (auto simp: security.pool_safe_def)
qed


subsection \<open>Permissions of an identity\<close>

lemma permission_of_value [simp]: "permission_of (permission_value p) = Some p"
proof -
  have "list_all (\<lambda>p. permission_of (permission_value p) = Some p) all_permissions" by code_simp
  moreover have "p \<in> set all_permissions" by (cases p) (simp_all add: all_permissions_def)
  ultimately show ?thesis by (simp add: list_all_iff)
qed

lemma permission_value_inject [simp]: "permission_value p = permission_value q \<longleftrightarrow> p = q"
  by (metis option.inject permission_of_value)

lemma all_some_permissions:
  assumes "set xs \<subseteq> range permission_value"
  obtains ps where "all_some (map permission_of xs) = Some ps" "set ps = {p. permission_value p \<in> set xs}"
proof -
  from assms have "\<exists>ps. all_some (map permission_of xs) = Some ps \<and> set ps = {p. permission_value p \<in> set xs}"
    by (induction xs) auto
  with that show thesis by blast
qed

text \<open>What a principal is granted: by a rule of the active mapping whose claim it has, or by the recovery group.\<close>

definition granted :: "recovery_mapping \<Rightarrow> mapping_version option \<Rightarrow> principal \<Rightarrow> permission set" where
  "granted rm active p = {q. (\<exists>v r. active = Some v \<and> r \<in> set (mv_rules v)
       \<and> cr_value r \<in> set (claim_values p (cr_path r)) \<and> q \<in> set (cr_permissions r))
     \<or> (rm_group rm \<in> set (claim_values p (rm_path rm)) \<and> q \<in> set (rm_permissions rm))}"

lemma effective_permissions_granted: "set (effective_permissions rm active p) = granted rm active p"
  by (auto simp: effective_permissions_def granted_def rule_matches_def split: option.splits)

lemma identity_of_granted:
  assumes "pj_permissions (re_projection r) = granted_by S db (pj_principal (re_projection r))"
  obtains i where "identity_of r = Some i"
    "set (oi_permissions i) = granted (ss_recovery S) (active_permission_mapping db) (pj_principal (re_projection r))"
proof -
  let ?ps = "effective_permissions (ss_recovery S) (active_permission_mapping db) (pj_principal (re_projection r))"
  have xs: "set (pj_permissions (re_projection r)) = permission_value ` set ?ps"
    using assms by (simp add: granted_by_def)
  then obtain qs where qs: "all_some (map permission_of (pj_permissions (re_projection r))) = Some qs"
      "set qs = {p. permission_value p \<in> set (pj_permissions (re_projection r))}"
    by (metis all_some_permissions image_mono subset_UNIV)
  have "set qs = set ?ps" unfolding qs(2) xs by auto
  moreover obtain i where "identity_of r = Some i" "oi_permissions i = qs"
    by (simp add: identity_of_def qs(1))
  ultimately show thesis using that by (simp add: effective_permissions_granted)
qed

subsection \<open>Commands behind a rotation\<close>

lemma refreshed_due:
  "alone (refresh_and_renew S P D s material cookie t) db = (Inr r, db') \<Longrightarrow>
     claims_stale s t \<or> os_epoch s \<noteq> sd_epoch db \<Longrightarrow>
     re_rotated r \<and> re_cookie r = lit (dr_cookie D) \<and> pj_csrf (re_projection r) = csrf_token S (lit (dr_cookie D))"
  by (auto simp: refresh_and_renew_def renew_session_def revoke_and_fail_def session_resolution_def
      resolution_of_def Let_def split: option.splits sum.splits prod.splits)

lemma csrf_wrong_token:
  "require_same_origin_csrf U site given referer (Some supplied) expected = Inr () \<Longrightarrow> supplied = expected"
  by (auto simp: require_same_origin_csrf_def rbind_Inr_iff split: option.splits if_splits)

lemma after_resolution_unhandled:
  assumes "\<And>res. resolved = Inr res \<Longrightarrow> csrf_check U site r res \<noteq> Inr ()"
  shows "\<exists>x. after_resolution U site r handler resolved = Done x \<and> (\<forall>b c. x \<noteq> Handled b c)"
proof (cases resolved)
  case (Inl e)
  then show ?thesis by (cases e) (auto simp: after_resolution_def)
next
  case (Inr res)
  with assms obtain e where "csrf_check U site r res = Inl e" by (cases "csrf_check U site r res") auto
  with Inr show ?thesis by (cases e) (auto simp: after_resolution_def)
qed

text \<open>A rule for the recovery group under the other name of its claim passes the check of editable mappings.\<close>

lemma recovery_alias_accepted:
  "validate_editable_mapping \<lparr>rm_path = lit ''groups'', rm_group = g, rm_permissions = ps\<rparr>
     \<lparr>mv_id = i, mv_revision = n, mv_rules = [\<lparr>cr_path = lit ''trusted_groups'', cr_value = g, cr_permissions = qs,
        cr_institutions = None\<rparr>], mv_created_at = c, mv_created_by = b\<rparr> = Inr ()"
  "g \<in> set (pr_groups p) \<Longrightarrow> q \<in> set qs \<Longrightarrow> q \<in> set (effective_permissions
     \<lparr>rm_path = lit ''groups'', rm_group = g, rm_permissions = ps\<rparr> (Some
     \<lparr>mv_id = i, mv_revision = n, mv_rules = [\<lparr>cr_path = lit ''trusted_groups'', cr_value = g, cr_permissions = qs,
        cr_institutions = None\<rparr>], mv_created_at = c, mv_created_by = b\<rparr>) p)"
  by (auto simp: validate_editable_mapping_def effective_permissions_granted granted_def claim_values_def)

text \<open>A renewal whose row has changed since it was read never commits.\<close>

lemma stale_renewal_conflicts:
  assumes "db_good db0" and "advances db0 db" and "s \<in> set (sd_sessions db0)" and "os_revoked s = None"
    and "s \<notin> set (sd_sessions db)"
  shows "\<exists>e. update_session (renewed_session S s m c active epoch t) (os_version s) db = Inl e"
proof (cases "update_session (renewed_session S s m c active epoch t) (os_version s) db")
  case (Inr y)
  obtain x db' where "y = (x, db')" by (cases y)
  with Inr have "update_session (renewed_session S s m c active epoch t) (os_version s) db = Inr (x, db')" by simp
  from update_session_advances(2) [OF this assms(2,1,3,4) refl] assms(5) show ?thesis by simp
qed simp

subsection \<open>A login, a request and a logout\<close>

definition od_hex :: "utext \<Rightarrow> string" where
  "od_hex s = take 64 (concat (map (\<lambda>n. hex_text (n div 16) @ hex_text (n mod 16)) s) @ replicate 64 CHR ''0'')"

definition od_cipher :: envelope_cipher where
  "od_cipher = \<lparr>en_active = ''k1'', en_keys = [(''k1'', replicate 32 CHR ''k'')],
     en_seal = (\<lambda>_ _ v _. v @ replicate 16 CHR ''t''), en_open = (\<lambda>_ _ c _. Some (take (length c - 16) c))\<rparr>"

definition od_service :: session_service where
  "od_service = \<lparr>ss_recovery = \<lparr>rm_path = lit ''groups'', rm_group = lit ''ops'',
        rm_permissions = [Permission_mapping_view, Permission_mapping_edit, Audit_view]\<rparr>,
     ss_cipher = od_cipher, ss_csrf_key = replicate 32 CHR ''c'', ss_digest = od_hex, ss_hmac = (\<lambda>_. od_hex),
     ss_challenge = id\<rparr>"

definition od_principal :: "int \<Rightarrow> principal" where
  "od_principal n = \<lparr>pr_subject = lit ''alice'', pr_issuer = lit ''https://idp.test'', pr_audience = lit ''agent'',
     pr_display_name = lit ''Alice'', pr_email = None, pr_groups = [lit ''ops''], pr_roles = [], pr_claims = [],
     pr_authenticated_at = seconds 90, pr_verified_at = seconds n\<rparr>"

definition od_port :: "int \<Rightarrow> oidc_port" where
  "od_port n = \<lparr>op_url = (\<lambda>_ _ _ _. Inr ''https://idp.test/authorize''),
     op_exchange = (\<lambda>_ _ _ _. Inr \<lparr>vm_principal = od_principal n, vm_tokens = ''{}''\<rparr>),
     op_refresh = (\<lambda>_. Inr \<lparr>vm_principal = od_principal n, vm_tokens = ''{}''\<rparr>)\<rparr>"

definition od_drawn :: "string \<Rightarrow> int \<Rightarrow> drawn" where
  "od_drawn cookie n = \<lparr>dr_state = ''s1'', dr_nonce = ''n1'', dr_verifier = ''v1'', dr_cookie = cookie, dr_session = n,
     dr_iv = replicate 12 CHR ''i'', dr_iv2 = replicate 12 CHR ''j''\<rparr>"

definition od_start :: "string command" where
  "od_start = start_login od_service (od_port 100) (od_drawn ''c1'' 7) ''https://agent.test/callback'' (Aware (seconds 100))"

definition od_login :: "resolved_session command" where
  "od_login = complete_login od_service (od_port 200) (od_drawn ''c1'' 7) (lit ''s1'') (lit ''code'') (Aware (seconds 200))"

definition od_resolve :: "int \<Rightarrow> resolved_session command" where
  "od_resolve n = resolve_session od_service (od_port n) (od_drawn ''c2'' 0) (lit ''c1'') (Aware (seconds n))"

definition od_started :: security_db where "od_started = snd (alone od_start migrated_db)"
definition od_logged_in :: security_db where "od_logged_in = snd (alone od_login od_started)"
definition od_out :: security_db where
  "od_out = snd (alone (logout od_service (lit ''c1'') (Aware (seconds 300))) od_logged_in)"

lemma od_started_run: "alone od_start migrated_db = (Inr ''https://idp.test/authorize'', od_started)"
  by (rule prod_eqI) (simp_all add: od_started_def, code_simp)

lemma od_login_run:
  obtains r where "alone od_login od_started = (Inr r, od_logged_in)"
proof -
  have "\<not> isl (fst (alone od_login od_started))" by code_simp
  then obtain r where "fst (alone od_login od_started) = Inr r" by (auto simp: isl_def) (metis sum.exhaust)
  then show thesis using that by (simp add: od_logged_in_def prod_eq_iff)
qed

lemma od_logout_run: "alone (logout od_service (lit ''c1'') (Aware (seconds 300))) od_logged_in = (Inr True, od_out)"
  by (rule prod_eqI) (simp_all add: od_out_def, code_simp)

lemma as_reply_run: "alone p db = (r, db') \<Longrightarrow> alone (as_reply f p) db = (map_sum id f r, db')"
  by (simp add: as_reply_def)

lemma od_history:
  obtains ps ps' where "pool_steps (session_command od_service) (migrated_db, []) (od_logged_in, ps)"
    "pool_steps (session_command od_service) (od_logged_in, ps) (od_out, ps')"
proof -
  obtain r where login: "alone od_login od_started = (Inr r, od_logged_in)" by (rule od_login_run)
  have commands: "session_command od_service (as_reply Reply_url od_start)"
      "session_command od_service (as_reply Reply_session od_login)"
      "session_command od_service (as_reply Reply_done (logout od_service (lit ''c1'') (Aware (seconds 300))))"
    unfolding od_start_def od_login_def by (rule session_command.intros)+
  note a = pool_start_run [of "session_command od_service", OF commands(1) as_reply_run [OF od_started_run]]
  note b = pool_start_run [of "session_command od_service", OF commands(2) as_reply_run [OF login]]
  note c = pool_start_run [of "session_command od_service", OF commands(3) as_reply_run [OF od_logout_run]]
  from rtranclp_trans [OF a b] c show thesis by (rule that)
qed

lemma od_logged_in_good: "db_good od_logged_in"
proof -
  obtain ps ps' where "pool_steps (session_command od_service) (migrated_db, []) (od_logged_in, ps)"
    "pool_steps (session_command od_service) (od_logged_in, ps) (od_out, ps')"
    by (rule od_history)
  then show ?thesis by (rule history_advances(1))
qed

lemma alone_amid_advances: "alone p db = (a, db') \<Longrightarrow> amid advances p db a db'"
  by (rule alone_amid) simp_all

lemma amid_good:
  assumes "amid advances p db a db'" and "security.guarantees p db" and "db_good db"
  shows "db_good db'"
  using holds_amid_sound [OF assms(1) security.holds_amid_good] assms(2,3)
  by (auto simp: security.guarantees_def)

subsection \<open>Properties\<close>

text \<open>
  C37. In every history of concurrent commands over a fresh database, whatever way the transactions of
  logins, requests, logouts and changes of the security configuration interleave: no two sessions have
  the same token digest; every session's absolute expiry is seven days after its creation and its idle
  expiry never later; between any two moments of the history no session disappears, its creation and
  absolute expiry are never moved, its version is strictly higher whenever anything of it has
  changed, and a revoked session never changes again; no login attempt disappears and it changes only by
  being consumed, once; the permission epoch never decreases.
\<close>

theorem session_histories_advance:
  assumes "pool_steps (session_command S) (migrated_db, []) (db, ps)"
    and "pool_steps (session_command S) (db, ps) (db', ps')"
  shows "keys_unique os_token (sd_sessions db') \<and> list_all session_good (sd_sessions db')
    \<and> evolves_by session_next (sd_sessions db) (sd_sessions db')
    \<and> evolves_by attempt_next (sd_attempts db) (sd_attempts db') \<and> sd_epoch db \<le> sd_epoch db'"
  using history_advances [OF assms] by (simp add: advances_def db_good_def)

lemma session_histories_advance_witness:
  "evolves_by session_next (sd_sessions od_logged_in) (sd_sessions od_out) \<and> sd_sessions od_logged_in \<noteq> []
   \<and> map os_revoked (sd_sessions od_out) = [Some (seconds 300)]"
proof -
  obtain ps ps' where "pool_steps (session_command od_service) (migrated_db, []) (od_logged_in, ps)"
    "pool_steps (session_command od_service) (od_logged_in, ps) (od_out, ps')"
    by (rule od_history)
  from session_histories_advance [OF this]
  have "evolves_by session_next (sd_sessions od_logged_in) (sd_sessions od_out)" by blast
  moreover have "sd_sessions od_logged_in \<noteq> []" by code_simp
  moreover have "map os_revoked (sd_sessions od_out) = [Some (seconds 300)]" by code_simp
  ultimately show ?thesis by blast
qed

text \<open>
  A request is resolved to a session only if, at the moment its update commits, the cookie is the
  current token of a session that is neither revoked nor past its absolute or idle expiry. The
  principal of the resolution has claims verified within the last hour or comes from a refresh with
  the provider in this request; a refresh or a change of the permission epoch since the last request
  replaces the cookie; the permissions are those that the mapping active at a moment after the start
  of the request grants. All of this holds however the transactions of other requests interleave.
\<close>

theorem resolved_session_is_live:
  assumes "db_good db" and "amid advances (resolve_session S P D cookie (Aware t)) db (Inr r) db'"
  shows "\<exists>db1 s db2. advances db db1 \<and> advances db1 db2 \<and> advances db2 db' \<and> s \<in> set (sd_sessions db1)
    \<and> live_session S cookie t s \<and> resolved_from S P D cookie t db s db2 r"
  using holds_amid_sound [OF assms(2) resolve_session_amid [OF assms(1)]] by (simp add: resolve_post_def)

text \<open>
  C38. Logging out is final: once a logout with a cookie has reported that it revoked a session, every
  later request with that cookie ends as an unavailable session, whatever the other commands do during
  the logout, between the two and during the request, as long as they move the database by
  \<open>advances\<close>, the relation that the histories of the model's commands keep.
\<close>

theorem logout_is_final:
  assumes "db_good db" and "amid advances (logout S cookie (Aware t)) db (Inr True) db1" and "advances db1 db2"
    and "amid advances (resolve_session S P D cookie (Aware t')) db2 res db3"
  shows "res = Inl (Authentication_failed ''operator session is unavailable'')"
proof -
  have "db_good db1" using amid_good [OF assms(2) logout_guarantees assms(1)] .
  moreover have "token_revoked (ss_digest S cookie) db1"
    using holds_amid_sound [OF assms(2) logout_amid] by simp
  ultimately have "db_good db2" "token_revoked (ss_digest S cookie) db2"
    using assms(3) by (auto intro: advances_good token_revoked_stays)
  from holds_amid_sound [OF assms(4) dead_cookie_amid [OF this]] show ?thesis .
qed

lemma logout_is_final_witness:
  "fst (alone (od_resolve 400) od_out) = Inl (Authentication_failed ''operator session is unavailable'')
   \<and> \<not> isl (fst (alone (od_resolve 400) od_logged_in))"
proof -
  obtain res db3 where run: "alone (od_resolve 400) od_out = (res, db3)" by (cases "alone (od_resolve 400) od_out")
  from logout_is_final [OF od_logged_in_good alone_amid_advances [OF od_logout_run] advances_refl
      alone_amid_advances [OF run [unfolded od_resolve_def]]] run
  have "fst (alone (od_resolve 400) od_out) = Inl (Authentication_failed ''operator session is unavailable'')" by simp
  moreover have "\<not> isl (fst (alone (od_resolve 400) od_logged_in))" by code_simp
  ultimately show ?thesis by blast
qed

text \<open>
  The state of a login is used once: after a login has succeeded, every later callback with the
  same state is refused as a replay, with any code, provider answer and interleaving.
\<close>

theorem login_state_single_use:
  assumes "db_good db" and "amid advances (complete_login S P D state code (Aware t)) db (Inr r) db1"
    and "advances db1 db2" and "amid advances (complete_login S P' D' state code' (Aware t')) db2 res db3"
  shows "res = Inl (Authentication_failed ''OIDC authorization state is invalid or replayed'')"
proof -
  have "db_good db1" using amid_good [OF assms(2) complete_login_guarantees assms(1)] assms(1) .
  moreover have "state_consumed (ss_digest S state) db1"
    using holds_amid_sound [OF assms(2) complete_login_amid [OF assms(1)]] by (simp add: login_post_def)
  ultimately have "db_good db2" "state_consumed (ss_digest S state) db2"
    using assms(3) by (auto intro: advances_good state_consumed_stays)
  from holds_amid_sound [OF assms(4) replayed_login_amid [OF this]] show ?thesis .
qed

text \<open>
  C39. A resolved request carries an identity, and the permission check accepts for it exactly the
  permissions of the reference definition \<open>granted\<close>: those of the rules, in the mapping active at some moment
  during the request, whose claim the principal has, and those of the recovery group for its members,
  which no mapping takes away; every other permission is refused. Other commands may move the
  database by \<open>advances\<close> before, between and after the transactions of the request.
\<close>

theorem identity_permissions_exact:
  assumes "db_good db" and "amid advances (resolve_session S P D cookie (Aware t)) db (Inr r) db'"
  shows "\<exists>i db1. identity_of r = Some i \<and> advances db db1 \<and> advances db1 db'
    \<and> (\<forall>q. require_operator_permission i q = Inr ()
        \<longleftrightarrow> q \<in> granted (ss_recovery S) (active_permission_mapping db1) (pj_principal (re_projection r)))"
proof -
  from holds_amid_sound [OF assms(2) resolve_session_amid [OF assms(1)]] obtain db1 s db2
    where steps: "advances db db1" "advances db1 db2" "advances db2 db'"
      and r: "resolved_from S P D cookie t db s db2 r"
    by (auto simp: resolve_post_def)
  from r have "pj_permissions (re_projection r) = granted_by S db2 (pj_principal (re_projection r))"
    by (simp add: resolved_from_def)
  then obtain i where "identity_of r = Some i" "set (oi_permissions i)
      = granted (ss_recovery S) (active_permission_mapping db2) (pj_principal (re_projection r))"
    by (rule identity_of_granted)
  moreover have "advances db db2" using steps by (blast intro: advances_trans)
  ultimately show ?thesis using steps(3) by (auto simp: require_operator_permission_def)
qed

lemma identity_permissions_exact_witness:
  "\<exists>r db' i. alone (od_resolve 300) od_logged_in = (Inr r, db') \<and> identity_of r = Some i
     \<and> require_operator_permission i Permission_mapping_edit = Inr ()"
proof -
  have "\<not> isl (fst (alone (od_resolve 300) od_logged_in))" by code_simp
  then obtain r db' where run: "alone (od_resolve 300) od_logged_in = (Inr r, db')"
    by (cases "alone (od_resolve 300) od_logged_in") (auto simp: isl_def, metis sum.exhaust)
  from identity_permissions_exact [OF od_logged_in_good alone_amid_advances [OF run [unfolded od_resolve_def]]]
  obtain i db1 where i: "identity_of r = Some i" "\<forall>q. require_operator_permission i q = Inr ()
      \<longleftrightarrow> q \<in> granted (ss_recovery od_service) (active_permission_mapping db1) (pj_principal (re_projection r))"
    by blast
  have "pj_principal (re_projection (projr (fst (alone (od_resolve 300) od_logged_in)))) = od_principal 200" by code_simp
  with run have "pj_principal (re_projection r) = od_principal 200" by simp
  then have "Permission_mapping_edit \<in> granted (ss_recovery od_service) (active_permission_mapping db1) (pj_principal (re_projection r))"
    by (auto simp: granted_def od_service_def od_principal_def claim_values_def)
  with i run show ?thesis by blast
qed

text \<open>
  A command that an operator sends with the CSRF token of its session is never executed when the
  session is due for a rotation, because its claims are an hour old or the permission epoch has
  changed: the cookie is replaced first and the token is compared with that of the new cookie. The
  refusal does not carry the new cookie.
\<close>

theorem rotation_refuses_commands:
  assumes "mutating r" and "\<not> unauthenticated_path r" and "hr_cookie r = Some cookie" and "cookie \<noteq> []"
    and "hr_csrf r = Some (csrf_token S cookie)" and "csrf_token S (lit (dr_cookie D)) \<noteq> csrf_token S cookie"
    and "session_by_token (ss_digest S cookie) db = Some s" and "live_session S cookie t s"
    and "claims_stale s t \<or> os_epoch s \<noteq> sd_epoch db"
  shows "fst (alone (dispatch S U site P D (Aware t) r handler) db) \<noteq> Handled b c"
proof -
  obtain res db' where run: "alone (resolve_session S P D cookie (Aware t)) db = (res, db')"
    by (cases "alone (resolve_session S P D cookie (Aware t)) db")
  have "csrf_check U site r x \<noteq> Inr ()" if "res = Inr x" for x
  proof -
    from assms(8) have "os_revoked s = None" "\<not> expired s t" by (auto simp: live_session_def expired_def)
    with run that assms(7) obtain material where
      "alone (refresh_and_renew S P D s material cookie t) db = (Inr x, db')"
      by (auto simp: resolve_session_def session_clock_def resolve_row_def revoke_and_fail_def
          split: option.splits sum.splits prod.splits)
    with assms(9) have "pj_csrf (re_projection x) = csrf_token S (lit (dr_cookie D))" by (blast dest: refreshed_due)
    with assms(1,5,6) show ?thesis by (auto simp: csrf_check_def dest: csrf_wrong_token)
  qed
  then obtain x where "after_resolution U site r handler res = Done x" "\<forall>b c. x \<noteq> Handled b c"
    using after_resolution_unhandled by metis
  with run assms(2-4) show ?thesis by (simp add: dispatch_def)
qed

definition od_request :: http_request where
  "od_request = \<lparr>hr_path = ''/api/runs'', hr_method = ''POST'', hr_cookie = Some (lit ''c1''),
     hr_origin = Some ''https://agent.test'', hr_referer = None, hr_csrf = Some (csrf_token od_service (lit ''c1''))\<rparr>"

definition od_codec :: url_codec where
  "od_codec = \<lparr>uc_split = (\<lambda>u. Some \<lparr>up_scheme = take 5 u, up_userinfo = False, up_netloc = drop 8 u,
     up_host = Some (drop 8 u), up_port = Some 0, up_path = [], up_query = [], up_fragment = []\<rparr>),
     uc_idna = Some, uc_join = (\<lambda>_ location. location)\<rparr>"

definition od_post :: "int \<Rightarrow> (security_db, unit http_outcome) prog" where
  "od_post n = dispatch od_service od_codec ''https://agent.test'' (od_port n) (od_drawn ''c2'' 0) (Aware (seconds n))
     od_request (\<lambda>_. Done ())"

text \<open>A concrete one: claims an hour old, the right token, and a refusal without the new cookie.\<close>

lemma rotated_request_is_refused:
  "fst (alone (od_post 4000) od_logged_in) = Refused 403 ''csrf_token_rejected'' False"
  by code_simp

end
