(* ===== verification/Egress_Properties.thy ===== *)
theory Egress_Properties
  imports Guarded_Client
begin

text \<open>
  What the outbound client puts on the network: only connections that the active policy admits, a
  bounded number of them, and no credentials beyond the origin they were meant for.
\<close>

subsection \<open>The sends of a request\<close>

fun is_send :: "net_event \<Rightarrow> bool" where
  "is_send (Sent _) = True"
| "is_send (Denial_reported _ _) = False"

text \<open>
  What the policy promises of a send, without the functions that enforce it. An address lies inside a
  network when they agree on the bits of the network's prefix.
\<close>

definition agree_on_prefix :: "nat \<Rightarrow> 'a::len word \<Rightarrow> 'a word \<Rightarrow> bool" where
  "agree_on_prefix p a w \<longleftrightarrow> (\<forall>i < LENGTH('a). LENGTH('a) \<le> i + p \<longrightarrow> bit a i = bit w i)"

fun inside :: "ip_address \<Rightarrow> ip_network \<Rightarrow> bool" where
  "inside (V4 a) (Net4 w p) = agree_on_prefix p a w"
| "inside (V6 a) (Net6 w p) = agree_on_prefix p a w"
| "inside _ _ = False"

lemma in_prefix_agree: "in_prefix w p a \<Longrightarrow> agree_on_prefix p a w"
  by (auto simp: in_prefix_def agree_on_prefix_def bit_simps)

lemma address_in_inside: "address_in a n \<Longrightarrow> inside a n"
  by (cases "(a, n)" rule: address_in.cases) (auto intro: in_prefix_agree)

text \<open>
  The URL of the send is HTTPS without user information; the IDNA form of its host in lower case and its
  port, 443 when it names none, are the origin of a rule of the policy; the connection goes to an
  address inside a network of that rule, with TLS for that host.
\<close>

definition send_admitted :: "url_codec \<Rightarrow> egress_version \<Rightarrow> sent \<Rightarrow> bool" where
  "send_admitted U v x \<longleftrightarrow> (\<exists>u h i q r n a. uc_split U (sn_url x) = Some u
     \<and> lower_ascii (up_scheme u) = ''https'' \<and> \<not> up_userinfo u
     \<and> up_host u = Some h \<and> uc_idna U h = Some i \<and> up_port u = Some q
     \<and> r \<in> set (ev_rules v) \<and> ru_origin r = \<lparr>or_host = lower_ascii i, or_port = if q = 0 then 443 else q\<rparr>
     \<and> n \<in> set (ru_networks r) \<and> inside a n
     \<and> sn_address x = address_text a \<and> sn_tls_host x = lower_ascii i)"

lemma send_admittedI:
  assumes "origin_from_url U (sn_url x) = Inr c" and "r \<in> set (ev_rules v)" and "ru_origin r = c" and "rule_allows r a"
    and "sn_address x = address_text a" and "sn_tls_host x = or_host c"
  shows "send_admitted U v x"
proof -
  from assms(4) obtain n where "n \<in> set (ru_networks r)" "inside a n"
    by (auto simp: rule_allows_def list_ex_iff dest: address_in_inside)
  moreover from assms(1) obtain u h i q where "uc_split U (sn_url x) = Some u" "lower_ascii (up_scheme u) = ''https''"
    "\<not> up_userinfo u" "up_host u = Some h" "uc_idna U h = Some i" "up_port u = Some q"
    "c = \<lparr>or_host = lower_ascii i, or_port = if q = 0 then 443 else q\<rparr>"
    by (auto simp: origin_from_url_def Let_def split: option.splits if_splits)
  ultimately show ?thesis
    unfolding send_admitted_def using assms(2-6) by (intro exI conjI) (assumption | simp)+
qed

text \<open>The headers that carry credentials.\<close>

definition carries_credentials :: "(string \<times> string) list \<Rightarrow> bool" where
  "carries_credentials hs \<longleftrightarrow> (\<exists>h \<in> set hs. lower_ascii (fst h) \<in> {''authorization'', ''cookie'', ''proxy-authorization'',
     ''x-api-key'', ''x-auth-token'', ''x-vault-token''})"

lemma carries_credentials_sensitive: "carries_credentials hs \<longleftrightarrow> list_ex (\<lambda>(k, _). sensitive_header k) hs"
  by (simp add: carries_credentials_def sensitive_header_def list_ex_iff split_beta)

text \<open>\<open>sends_only Q n s s'\<close>: from \<open>s\<close> to \<open>s'\<close> at most \<open>n\<close> sends, all of them with \<open>Q\<close>.\<close>

definition sends_only :: "(sent \<Rightarrow> bool) \<Rightarrow> nat \<Rightarrow> 'w net \<Rightarrow> 'w net \<Rightarrow> bool" where
  "sends_only Q n s s' \<longleftrightarrow> (\<exists>es. snd s' = snd s @ es \<and> length (filter is_send es) \<le> n
     \<and> (\<forall>x. Sent x \<in> set es \<longrightarrow> Q x))"

lemma sends_only_refl [simp]: "sends_only Q n s s"
  by (auto simp: sends_only_def)

lemma sends_only_none: "snd s' = snd s \<Longrightarrow> sends_only Q n s s'"
  by (auto simp: sends_only_def)

lemma sends_only_one: "snd s' = snd s @ [Sent x] \<Longrightarrow> Q x \<Longrightarrow> 0 < n \<Longrightarrow> sends_only Q n s s'"
  by (auto simp: sends_only_def)

lemma sends_only_trans:
  assumes "sends_only Q m s s1" and "sends_only Q n s1 s2"
  shows "sends_only Q (m + n) s s2"
proof -
  from assms obtain es fs where "snd s1 = snd s @ es" "length (filter is_send es) \<le> m" "\<forall>x. Sent x \<in> set es \<longrightarrow> Q x"
      "snd s2 = snd s1 @ fs" "length (filter is_send fs) \<le> n" "\<forall>x. Sent x \<in> set fs \<longrightarrow> Q x"
    by (auto simp: sends_only_def)
  then show ?thesis unfolding sends_only_def by (intro exI [of _ "es @ fs"]) auto
qed

lemma sends_only_mono: "sends_only Q m s s' \<Longrightarrow> m \<le> n \<Longrightarrow> (\<And>x. Q x \<Longrightarrow> Q' x) \<Longrightarrow> sends_only Q' n s s'"
  unfolding sends_only_def by (meson order_trans)

subsection \<open>Hops\<close>

definition hop_send :: "url_codec \<Rightarrow> egress_version \<Rightarrow> string \<Rightarrow> (string \<times> string) list \<Rightarrow> sent \<Rightarrow> bool" where
  "hop_send U v url hs x \<longleftrightarrow> send_admitted U v x \<and> sn_url x = url \<and> sn_headers x = hs"

lemma admitted_hop_send:
  assumes "admit_hop U v url answers = Inr h"
  shows "hop_send U v url hs \<lparr>sn_method = m, sn_url = url, sn_address = hd (hop_addresses h),
    sn_tls_host = or_host (hop_origin h), sn_headers = hs, sn_body = b, sn_max_bytes = n\<rparr>"
proof -
  from assms obtain c r as where h: "authorize_origin U v url = Inr c" "rule_for v c = Some r"
      "list_all (rule_allows r) as" "hop_origin h = c" "set (hop_addresses h) = address_text ` set as"
      "hop_addresses h \<noteq> []"
    by (rule admit_hopE)
  then obtain a where "a \<in> set as" "hd (hop_addresses h) = address_text a"
    using hd_in_set [of "hop_addresses h"] by auto
  with h show ?thesis
    by (auto simp: hop_send_def list_all_iff elim!: authorize_originE intro!: send_admittedI)
qed

lemma attempt_hop_sends:
  "attempt_hop N U C c m url hs b n s = (res, s') \<Longrightarrow> sends_only (hop_send U (gc_policy C) url hs) n s s'"
proof (induction n arbitrary: s)
  case 0
  then show ?case by (cases s) auto
next
  case (Suc n)
  obtain w l where s: "s = (w, l)" by (cases s)
  obtain ra w1 where resolve: "np_resolve N (or_host c) (or_port c) w = (ra, w1)" by fastforce
  show ?case
  proof (cases "\<exists>answers h. ra = Inr answers \<and> len answers \<le> gc_max_answers C
      \<and> admit_hop U (gc_policy C) url answers = Inr h")
    case False
    with Suc.prems s resolve show ?thesis
      by (auto split: sum.splits if_splits intro!: sends_only_none simp: not_le)
  next
    case True
    then obtain answers h where ok: "ra = Inr answers" "len answers \<le> gc_max_answers C"
        "admit_hop U (gc_policy C) url answers = Inr h"
      by auto
    define x where "x = \<lparr>sn_method = m, sn_url = url, sn_address = hd (hop_addresses h),
      sn_tls_host = or_host (hop_origin h), sn_headers = hs, sn_body = b, sn_max_bytes = gc_max_bytes C\<rparr>"
    have Q: "hop_send U (gc_policy C) url hs x" unfolding x_def by (rule admitted_hop_send [OF ok(3)])
    obtain rr w2 where sent: "np_send N x w1 = (rr, w2)" by fastforce
    have one: "sends_only (hop_send U (gc_policy C) url hs) 1 s (w2, l @ [Sent x])"
      using Q s by (auto intro: sends_only_one)
    from Suc.prems s resolve ok sent have
      "s' = (w2, l @ [Sent x]) \<or> attempt_hop N U C c m url hs b n (w2, l @ [Sent x]) = (res, s')"
      by (auto simp: x_def [symmetric] Let_def split: sum.splits if_splits)
    then show ?thesis
    proof
      assume "s' = (w2, l @ [Sent x])"
      with one show ?thesis by (auto elim: sends_only_mono)
    next
      assume "attempt_hop N U C c m url hs b n (w2, l @ [Sent x]) = (res, s')"
      from sends_only_trans [OF one Suc.IH [OF this]] show ?thesis by simp
    qed
  qed
qed

lemma request_hop_sends:
  assumes "request_hop N U C m url hs b s = (res, s')"
  shows "sends_only (hop_send U (gc_policy C) url hs) (nat (gc_max_attempts C)) s s'"
  using assms by (auto simp: request_hop_def split: sum.splits dest: attempt_hop_sends)

subsection \<open>Redirects\<close>

text \<open>
  Along a chain of redirects that began at the origin \<open>c0\<close>, credentials are still in the headers
  only while the chain has not left it.
\<close>

definition chain_send :: "url_codec \<Rightarrow> egress_version \<Rightarrow> egress_error + origin \<Rightarrow> sent \<Rightarrow> bool" where
  "chain_send U v c0 x \<longleftrightarrow> send_admitted U v x
     \<and> (carries_credentials (sn_headers x) \<longrightarrow> origin_from_url U (sn_url x) = c0)"

lemma no_credentials_kept: "\<not> carries_credentials (redirected_headers False hs)"
  by (auto simp: carries_credentials_sensitive redirected_headers_def list_ex_iff)

lemma credentials_filter: "carries_credentials (filter P hs) \<Longrightarrow> carries_credentials hs"
  by (auto simp: carries_credentials_sensitive list_ex_iff)

lemma redirected_credentials:
  assumes "authorize_origin U v url = Inr c" and "authorize_origin U v next_url = Inr c'"
    and "carries_credentials hs \<Longrightarrow> origin_from_url U url = c0"
    and "carries_credentials hs'" and "\<And>P. carries_credentials hs' \<Longrightarrow> carries_credentials (redirected_headers (c = c') hs)"
  shows "origin_from_url U next_url = c0"
proof -
  from assms(4,5) have kept: "carries_credentials (redirected_headers (c = c') hs)" by blast
  then have "c = c'" using no_credentials_kept by (cases "c = c'") auto
  moreover with kept have "origin_from_url U url = c0" using assms(3) by (simp add: redirected_headers_def)
  ultimately show ?thesis using assms(1,2) by (auto elim!: authorize_originE)
qed

lemma request_loop_sends:
  assumes "request_loop N U C m url hs b redirects s = (res, s')"
    and "carries_credentials hs \<Longrightarrow> origin_from_url U url = c0" and "0 \<le> redirects"
  shows "sends_only (chain_send U (gc_policy C) c0)
    ((nat (gc_max_redirects C - redirects) + 1) * nat (gc_max_attempts C)) s s'"
  using assms
proof (induction N U C m url hs b redirects s rule: request_loop.induct)
  case (1 N U C m url hs b redirects s)
  obtain hr s1 where hop: "request_hop N U C m url hs b s = (hr, s1)"
    by (cases "request_hop N U C m url hs b s")
  let ?n = "nat (gc_max_attempts C)" and ?Q = "chain_send U (gc_policy C) c0"
  have first: "sends_only ?Q ?n s s1"
    using request_hop_sends [OF hop] "1.prems"(2)
    by (auto elim!: sends_only_mono simp: hop_send_def chain_send_def)
  show ?case
  proof (cases "s' = s1")
    case True
    with first show ?thesis by (auto elim: sends_only_mono)
  next
    case False
    then obtain r location c c' where go: "hr = Inr r" "redirect_status (rs_status r)"
        "header_value (rs_headers r) ''location'' = Some location" "redirects < gc_max_redirects C"
        "authorize_origin U (gc_policy C) url = Inr c"
        "authorize_origin U (gc_policy C) (uc_join U url location) = Inr c'"
      using "1.prems"(1) hop
      by (subst (asm) request_loop.simps) (auto simp: Let_def split: sum.splits option.splits if_splits)
    let ?url = "uc_join U url location" and ?kept = "redirected_headers (c = c') hs"
    have rest: "sends_only ?Q ((nat (gc_max_redirects C - (redirects + 1)) + 1) * ?n) s1 s'"
    proof (cases "becomes_get (rs_status r) m")
      case True
      have loop: "request_loop N U C ''GET'' ?url (filter (\<lambda>(k, _). \<not> content_header k) ?kept) None (redirects + 1) s1
          = (res, s')"
        using "1.prems"(1) hop go True by (subst (asm) request_loop.simps) (simp add: Let_def)
      show ?thesis
        by (rule "1.IH"(1) [OF hop [symmetric] go(1) _ go(3) _ refl refl go(5) go(6) refl True loop])
          (use go "1.prems" redirected_credentials [OF go(5,6) "1.prems"(2)] in \<open>auto dest: credentials_filter\<close>)
    next
      case False
      have loop: "request_loop N U C m ?url ?kept b (redirects + 1) s1 = (res, s')"
        using "1.prems"(1) hop go False by (subst (asm) request_loop.simps) (simp add: Let_def)
      show ?thesis
        by (rule "1.IH"(2) [OF hop [symmetric] go(1) _ go(3) _ refl refl go(5) go(6) refl False loop])
          (use go "1.prems" redirected_credentials [OF go(5,6) "1.prems"(2)] in auto)
    qed
    have "nat (gc_max_redirects C - redirects) = Suc (nat (gc_max_redirects C - (redirects + 1)))"
      using go(4) by simp
    then have "(nat (gc_max_redirects C - redirects) + 1) * ?n
        = ?n + (nat (gc_max_redirects C - (redirects + 1)) + 1) * ?n"
      by (simp only:) simp
    with sends_only_trans [OF first rest] show ?thesis by (simp only:)
  qed
qed

lemma guarded_request_sends:
  assumes "guarded_request N U C m url hs b timeout s = (res, s')"
  shows "sends_only (chain_send U (gc_policy C) (origin_from_url U url))
    ((nat (gc_max_redirects C) + 1) * nat (gc_max_attempts C)) s s'"
proof (cases "snd s' = snd s")
  case False
  then obtain m' hs' lr s1 where loop: "request_loop N U C m' url hs' b 0 s = (lr, s1)"
      "snd s' = snd s1 \<or> (\<exists>e t. snd s' = snd s1 @ [Denial_reported e t])"
    using assms
    by (auto simp: guarded_request_def report_denial_def split: sum.splits if_splits prod.splits egress_error.splits)
  have "sends_only (chain_send U (gc_policy C) (origin_from_url U url))
      ((nat (gc_max_redirects C - 0) + 1) * nat (gc_max_attempts C)) s s1"
    by (rule request_loop_sends [OF loop(1)]) auto
  then have "sends_only (chain_send U (gc_policy C) (origin_from_url U url))
      ((nat (gc_max_redirects C - 0) + 1) * nat (gc_max_attempts C)) s s'"
    using loop(2) by (auto simp: sends_only_def)
  then show ?thesis by simp
qed (rule sends_only_none)

subsection \<open>A request that is redirected to another origin\<close>

definition demo_codec :: url_codec where
  "demo_codec = \<lparr>uc_split = (\<lambda>u. Some \<lparr>up_scheme = take 5 u, up_userinfo = False, up_netloc = drop 8 u, up_host = Some (drop 8 u),
     up_port = Some 0, up_path = [], up_query = [], up_fragment = []\<rparr>),
     uc_idna = Some, uc_join = (\<lambda>_ location. location)\<rparr>"

definition demo_egress :: egress_version where
  "demo_egress = \<lparr>ev_id = ''e1'', ev_revision = 1,
     ev_rules = [\<lparr>ru_origin = \<lparr>or_host = ''a.test'', or_port = 443\<rparr>, ru_networks = [Net4 0x0A000000 8]\<rparr>,
                 \<lparr>ru_origin = \<lparr>or_host = ''b.test'', or_port = 443\<rparr>, ru_networks = [Net4 0x0A010000 16]\<rparr>],
     ev_created_at = Aware 0, ev_created_by = lit ''ops''\<rparr>"

definition demo_net :: "unit net_ports" where
  "demo_net = \<lparr>np_resolve = (\<lambda>h _ w. (Inr [Answer (V4 (if h = ''a.test'' then 0x0A000001 else 0x0A010002))], w)),
     np_send = (\<lambda>x w. (Inr (if sn_tls_host x = ''a.test''
        then \<lparr>rs_status = 302, rs_headers = [(''Location'', ''https://b.test'')], rs_body = []\<rparr>
        else \<lparr>rs_status = 200, rs_headers = [], rs_body = ''ok''\<rparr>), w))\<rparr>"

definition demo_client :: guarded_client where
  "demo_client = \<lparr>gc_policy = demo_egress, gc_max_redirects = 3, gc_max_attempts = 1, gc_max_answers = 16,
     gc_max_bytes = 1000, gc_reports = True\<rparr>"

definition demo_send :: "string \<Rightarrow> string \<Rightarrow> (string \<times> string) list \<Rightarrow> sent" where
  "demo_send h a hs = \<lparr>sn_method = ''GET'', sn_url = ''https://'' @ h, sn_address = a, sn_tls_host = h,
     sn_headers = hs, sn_body = None, sn_max_bytes = 1000\<rparr>"

lemma demo_request:
  "guarded_request demo_net demo_codec demo_client ''get'' ''https://a.test'' [(''Authorization'', ''t''), (''X-Id'', ''1'')]
     None 10 ((), [])
   = (Inr \<lparr>rs_status = 200, rs_headers = [], rs_body = ''ok''\<rparr>, (),
      [Sent (demo_send ''a.test'' ''10.0.0.1'' [(''Authorization'', ''t''), (''X-Id'', ''1'')]),
       Sent (demo_send ''b.test'' ''10.1.0.2'' [(''X-Id'', ''1'')])])"
  by code_simp

subsection \<open>Properties\<close>

text \<open>
  C40. Whatever the resolver and the servers answer, every connection that a request of the guarded
  client opens, on any retry and after any redirect, is for an HTTPS URL without user information whose
  host and port are the origin of a rule of the active policy, at an address inside a network of that
  rule, with TLS for that host; and a header that carries credentials (the six names of
  \<open>carries_credentials\<close>) leaves only for the origin of the URL the caller asked for.
\<close>

theorem egress_within_policy:
  assumes "guarded_request N U C m url hs b timeout s = (res, s')"
  shows "\<exists>es. snd s' = snd s @ es \<and> (\<forall>x. Sent x \<in> set es \<longrightarrow> send_admitted U (gc_policy C) x
    \<and> (carries_credentials (sn_headers x) \<longrightarrow> origin_from_url U (sn_url x) = origin_from_url U url))"
  using guarded_request_sends [OF assms] unfolding sends_only_def chain_send_def by blast

lemma egress_within_policy_witness:
  "send_admitted demo_codec demo_egress (demo_send ''b.test'' ''10.1.0.2'' [(''X-Id'', ''1'')])
   \<and> origin_from_url demo_codec ''https://a.test'' = Inr \<lparr>or_host = ''a.test'', or_port = 443\<rparr>"
proof -
  have "gc_policy demo_client = demo_egress" by (simp add: demo_client_def)
  then have "send_admitted demo_codec demo_egress (demo_send ''b.test'' ''10.1.0.2'' [(''X-Id'', ''1'')])"
    using egress_within_policy [OF demo_request] by auto
  moreover have "origin_from_url demo_codec ''https://a.test'' = Inr \<lparr>or_host = ''a.test'', or_port = 443\<rparr>"
    by code_simp
  ultimately show ?thesis by blast
qed

text \<open>
  A request of the guarded client always returns, and opens at most
  \<open>(max_redirects + 1) * max_attempts_per_hop\<close> connections, however often it is redirected or asked to
  retry.
\<close>

theorem egress_is_bounded:
  assumes "new_client C0 = Inr C" and "guarded_request N U C m url hs b timeout s = (res, s')"
  shows "\<exists>es. snd s' = snd s @ es
    \<and> int (length (filter is_send es)) \<le> (gc_max_redirects C + 1) * gc_max_attempts C"
proof -
  have pos: "0 \<le> gc_max_redirects C" "1 \<le> gc_max_attempts C"
    using assms(1) by (auto simp: new_client_def split: if_splits)
  obtain es where es: "snd s' = snd s @ es"
      "length (filter is_send es) \<le> (nat (gc_max_redirects C) + 1) * nat (gc_max_attempts C)"
    using guarded_request_sends [OF assms(2)] by (auto simp: sends_only_def)
  have "int (length (filter is_send es)) \<le> int ((nat (gc_max_redirects C) + 1) * nat (gc_max_attempts C))"
    using es(2) by (simp only: of_nat_le_iff)
  also have "\<dots> = (gc_max_redirects C + 1) * gc_max_attempts C"
    using pos by (simp add: distrib_right)
  finally show ?thesis using es(1) by blast
qed

end
