(* ===== verification/Artifact_Contracts.thy ===== *)
theory Artifact_Contracts
  imports Run_Queue Security_Configuration
begin

text \<open>
  The artifact contracts of \<open>contracts/artifacts.py\<close>: owners, put requests, exact object versions,
  manifests and owner bindings, with the validators that run when one is constructed. The records of
  an owner, an object version and a manifest are those of \<open>Run_Queue\<close>. Timestamps are instants: the
  validators refuse a naive \<open>datetime\<close>.
\<close>

datatype artifact_error =
    Artifact_value_error string
  | Artifact_validation_error
  | Artifact_persistence_invariant string
  | Artifact_conflict string string
  | Artifact_integrity_error
  | Artifact_store_error string
  | Artifact_runtime_error string
  | Artifact_io_error
  | Artifact_assertion_error
  | Materialization_error string
  | Artifact_interrupted run_error

text \<open>Bytes, and what the code takes from the JSON and SHA-256 libraries.\<close>

type_synonym bytes = "8 word list"

record artifact_codec =
  ac_sha :: "bytes \<Rightarrow> string"
  ac_dump :: "object_version \<Rightarrow> bytes"
  ac_load :: "bytes \<Rightarrow> object_version option"
  ac_manifest_dump :: "manifest \<Rightarrow> bytes"

text \<open>
  What is read from the JSON text of a version, or from a part of it that a crash left, is that version
  or nothing; and what is read has passed the validators.
\<close>

definition codec_faithful :: "artifact_codec \<Rightarrow> (object_version \<Rightarrow> bool) \<Rightarrow> bool" where
  "codec_faithful C ok \<longleftrightarrow> (\<forall>r n r'. ac_load C (take n (ac_dump C r)) = Some r' \<longrightarrow> r' = r)
     \<and> (\<forall>b r. ac_load C b = Some r \<longrightarrow> ok r)"

subsection \<open>Owners, requests and exact versions\<close>

definition lower_char :: "char \<Rightarrow> bool" where
  "lower_char c \<longleftrightarrow> char_between 97 122 c"

definition digit_char :: "char \<Rightarrow> bool" where
  "digit_char c \<longleftrightarrow> char_between 48 57 c"

definition control_char :: "char \<Rightarrow> bool" where
  "control_char c \<longleftrightarrow> (of_char c :: int) < 32"

definition owner_type_ok :: "string \<Rightarrow> bool" where
  "owner_type_ok s \<longleftrightarrow> length_between 1 64 s
     \<and> (case s of [] \<Rightarrow> False
        | c # r \<Rightarrow> lower_char c \<and> list_all (\<lambda>x. lower_char x \<or> digit_char x \<or> x = CHR ''_'') r)"

definition artifact_owner_ok :: "artifact_owner \<Rightarrow> bool" where
  "artifact_owner_ok w \<longleftrightarrow> owner_type_ok (ao_type w) \<and> length_between 1 512 (ao_id w)
     \<and> list_all (\<lambda>c. \<not> control_char c) (ao_id w) \<and> stripped (ao_id w)"

definition filename_ok :: "string \<Rightarrow> bool" where
  "filename_ok s \<longleftrightarrow> length_between 0 255 s \<and> s \<noteq> ''.'' \<and> s \<noteq> ''..'' \<and> stripped s
     \<and> list_all (\<lambda>c. c \<noteq> CHR ''/'' \<and> c \<noteq> CHR 0x5C \<and> \<not> control_char c) s"

definition object_key_ok :: "string \<Rightarrow> bool" where
  "object_key_ok k \<longleftrightarrow> take 8 k = ''objects/''
     \<and> (case drop 8 k of a # b # c # r \<Rightarrow> hex_char a \<and> hex_char b \<and> c = CHR ''/'' \<and> uuid_ok r | _ \<Rightarrow> False)"

definition max_object_bytes :: int where
  "max_object_bytes = 5 * 1024 * 1024 * 1024"

record put_request =
  pq_kind :: artifact_kind
  pq_owner :: artifact_owner
  pq_content_type :: string
  pq_sha :: string
  pq_size :: int
  pq_filename :: "string option"
  pq_expires :: "instant option"

definition put_request_ok :: "put_request \<Rightarrow> bool" where
  "put_request_ok q \<longleftrightarrow> artifact_owner_ok (pq_owner q) \<and> length_between 1 255 (pq_content_type q) \<and> hex64_ok (pq_sha q)
     \<and> 1 \<le> pq_size q \<and> pq_size q \<le> max_object_bytes \<and> opt_ok filename_ok (pq_filename q)"

definition object_version_ok :: "object_version \<Rightarrow> bool" where
  "object_version_ok r \<longleftrightarrow> length_between 1 128 (ov_id r) \<and> length_between 1 255 (ov_bucket r) \<and> object_key_ok (ov_key r)
     \<and> length_between 1 1024 (ov_version r) \<and> hex64_ok (ov_sha r) \<and> 1 \<le> ov_size r \<and> ov_size r \<le> max_object_bytes
     \<and> artifact_owner_ok (ov_owner r) \<and> length_between 1 255 (ov_content_type r) \<and> opt_ok filename_ok (ov_filename r)"

definition exact_identity :: "object_version \<Rightarrow> string \<times> string \<times> string" where
  "exact_identity r = (ov_bucket r, ov_key r, ov_version r)"

subsection \<open>Manifests\<close>

definition member_id_ok :: "string \<Rightarrow> bool" where
  "member_id_ok s \<longleftrightarrow> length_between 1 128 s
     \<and> (case s of [] \<Rightarrow> False
        | c # r \<Rightarrow> (lower_char c \<or> digit_char c)
            \<and> list_all (\<lambda>x. lower_char x \<or> digit_char x \<or> x \<in> set ''_.-'') r)"

definition manifest_ok :: "manifest \<Rightarrow> bool" where
  "manifest_ok m \<longleftrightarrow> length_between 1 128 (mf_id m) \<and> artifact_owner_ok (mf_owner m) \<and> length_between 1 10000 (mf_members m)
     \<and> list_all (\<lambda>(i, r). member_id_ok i \<and> object_version_ok r) (mf_members m)
     \<and> distinct (map fst (mf_members m))
     \<and> distinct (map (exact_identity \<circ> snd) (mf_members m))
     \<and> list_all (\<lambda>(i, r). ov_owner r = mf_owner m) (mf_members m)"

definition new_manifest :: "string \<Rightarrow> artifact_owner \<Rightarrow> (string \<times> object_version) list \<Rightarrow> instant \<Rightarrow> artifact_error + manifest" where
  "new_manifest i w ms t =
     (let m = \<lparr>mf_id = i, mf_owner = w, mf_members = ms, mf_created = t\<rparr>
      in if manifest_ok m then Inr m else Inl Artifact_validation_error)"

subsection \<open>Bindings\<close>

datatype visibility = Invisible | Visible | Expired | Corrupt

record owner_binding =
  bd_owner :: artifact_owner
  bd_manifest :: object_version
  bd_visibility :: visibility
  bd_visible_at :: "instant option"
  bd_available :: bool

definition artifact_binding_ok :: "owner_binding \<Rightarrow> bool" where
  "artifact_binding_ok b \<longleftrightarrow> ov_kind (bd_manifest b) = Artifact_manifest \<and> ov_owner (bd_manifest b) = bd_owner b
     \<and> (if bd_visibility b = Visible then bd_visible_at b \<noteq> None \<and> bd_available b else \<not> bd_available b)"

definition new_binding ::
  "artifact_owner \<Rightarrow> object_version \<Rightarrow> visibility \<Rightarrow> instant option \<Rightarrow> bool \<Rightarrow> artifact_error + owner_binding" where
  "new_binding w r v t a =
     (let b = \<lparr>bd_owner = w, bd_manifest = r, bd_visibility = v, bd_visible_at = t, bd_available = a\<rparr>
      in if artifact_binding_ok b then Inr b else Inl Artifact_validation_error)"

definition new_bound_manifest :: "owner_binding \<Rightarrow> manifest \<Rightarrow> artifact_error + (owner_binding \<times> manifest)" where
  "new_bound_manifest b m = (if bd_owner b = mf_owner m then Inr (b, m) else Inl Artifact_validation_error)"

lemma new_manifest_Inr [simp]:
  "new_manifest i w ms t = Inr m \<longleftrightarrow>
     m = \<lparr>mf_id = i, mf_owner = w, mf_members = ms, mf_created = t\<rparr> \<and> manifest_ok m"
  by (auto simp: new_manifest_def Let_def)

lemma manifest_okD:
  assumes "manifest_ok m"
  shows "mf_members m \<noteq> []" "artifact_owner_ok (mf_owner m)" "distinct (map fst (mf_members m))"
    "distinct (map (exact_identity \<circ> snd) (mf_members m))"
    "\<And>i r. (i, r) \<in> set (mf_members m) \<Longrightarrow> object_version_ok r \<and> ov_owner r = mf_owner m \<and> member_id_ok i"
  using assms by (auto simp: manifest_ok_def list_all_iff length_between_def)

lemma visible_binding_available: "artifact_binding_ok b \<Longrightarrow> bd_available b \<longleftrightarrow> bd_visibility b = Visible"
  by (auto simp: artifact_binding_ok_def split: if_splits)

end
