(* ===== verification/Artifact_Authority.thy ===== *)
theory Artifact_Authority
  imports Artifact_Contracts
begin

text \<open>
  The PostgreSQL authority of artifacts: the four tables of migration 0006 with their constraints and
  the transactions of \<open>capabilities/persistence/postgres/artifact_repository.py\<close>. A transaction is a
  function of the database; on an error the database is unchanged. The key of a row is the number of
  its UUID; the columns of \<open>artifact_objects\<close> that no statement reads are those of \<open>ob_ref\<close>.
\<close>

subsection \<open>Tables\<close>

datatype object_state = Verified | Object_corrupt

record object_row =
  ob_key :: int
  ob_bucket :: string
  ob_path :: string
  ob_version :: string
  ob_size :: int
  ob_state :: object_state
  ob_ref :: object_version
  ob_expires :: "instant option"
  ob_corrupt_at :: "instant option"

record manifest_row =
  mn_key :: int
  mn_owner :: artifact_owner
  mn_object :: int
  mn_json :: manifest
  mn_created :: instant

record member_row =
  mb_manifest :: int
  mb_member :: string
  mb_object :: int

record binding_row =
  bi_owner :: artifact_owner
  bi_manifest :: int
  bi_visibility :: visibility
  bi_visible_at :: "instant option"
  bi_available :: bool
  bi_updated :: instant

record artifact_db =
  ad_objects :: "object_row list"
  ad_manifests :: "manifest_row list"
  ad_members :: "member_row list"
  ad_bindings :: "binding_row list"

definition artifact_uuid :: "string \<Rightarrow> string \<Rightarrow> artifact_error + int" where
  "artifact_uuid field s = (case uuid_key s of
     None \<Rightarrow> Inl (Artifact_persistence_invariant (field @ '' must be a full UUID''))
   | Some k \<Rightarrow> Inr k)"

subsection \<open>Inserts\<close>

definition row_identity :: "object_row \<Rightarrow> string \<times> string \<times> string" where
  "row_identity r = (ob_bucket r, ob_path r, ob_version r)"

definition insert_object :: "object_row \<Rightarrow> artifact_db \<Rightarrow> artifact_error + artifact_db" where
  "insert_object r db =
     (if lookup_row ob_key (ob_key r) (ad_objects db) \<noteq> None
         \<or> lookup_row row_identity (row_identity r) (ad_objects db) \<noteq> None \<or> ob_size r \<le> 0
      then Inl Artifact_integrity_error
      else Inr (db\<lparr>ad_objects := ad_objects db @ [r]\<rparr>))"

definition insert_manifest :: "manifest_row \<Rightarrow> artifact_db \<Rightarrow> artifact_error + artifact_db" where
  "insert_manifest r db =
     (if lookup_row mn_key (mn_key r) (ad_manifests db) \<noteq> None
         \<or> lookup_row mn_object (mn_object r) (ad_manifests db) \<noteq> None
         \<or> lookup_row ob_key (mn_object r) (ad_objects db) = None
      then Inl Artifact_integrity_error
      else Inr (db\<lparr>ad_manifests := ad_manifests db @ [r]\<rparr>))"

definition insert_member :: "member_row \<Rightarrow> artifact_db \<Rightarrow> artifact_error + artifact_db" where
  "insert_member r db =
     (if lookup_row (\<lambda>x. (mb_manifest x, mb_member x)) (mb_manifest r, mb_member r) (ad_members db) \<noteq> None
         \<or> lookup_row (\<lambda>x. (mb_manifest x, mb_object x)) (mb_manifest r, mb_object r) (ad_members db) \<noteq> None
         \<or> lookup_row mn_key (mb_manifest r) (ad_manifests db) = None
         \<or> lookup_row ob_key (mb_object r) (ad_objects db) = None
      then Inl Artifact_integrity_error
      else Inr (db\<lparr>ad_members := ad_members db @ [r]\<rparr>))"

definition binding_row_checks :: "binding_row \<Rightarrow> bool" where
  "binding_row_checks r \<longleftrightarrow> bi_visibility r \<noteq> Invisible
     \<and> (bi_visibility r = Visible \<and> bi_visible_at r \<noteq> None \<and> bi_available r
        \<or> bi_visibility r \<noteq> Visible \<and> \<not> bi_available r)"

definition insert_binding :: "binding_row \<Rightarrow> artifact_db \<Rightarrow> artifact_error + artifact_db" where
  "insert_binding r db =
     (if lookup_row bi_owner (bi_owner r) (ad_bindings db) \<noteq> None
         \<or> lookup_row bi_manifest (bi_manifest r) (ad_bindings db) \<noteq> None
         \<or> lookup_row mn_key (bi_manifest r) (ad_manifests db) = None \<or> \<not> binding_row_checks r
      then Inl Artifact_integrity_error
      else Inr (db\<lparr>ad_bindings := ad_bindings db @ [r]\<rparr>))"

definition insert_exact_ref :: "object_version \<Rightarrow> artifact_db \<Rightarrow> artifact_error + artifact_db" where
  "insert_exact_ref r db =
     rbind (artifact_uuid ''object_id'' (ov_id r)) (\<lambda>k.
     case lookup_row ob_key k (ad_objects db) of
       Some row \<Rightarrow> if ob_ref row \<noteq> r then Inl (Artifact_conflict ''artifact_object'' (ov_id r)) else Inr db
     | None \<Rightarrow> insert_object \<lparr>ob_key = k, ob_bucket = ov_bucket r, ob_path = ov_key r, ob_version = ov_version r,
         ob_size = ov_size r, ob_state = Verified, ob_ref = r, ob_expires = ov_expires r, ob_corrupt_at = None\<rparr> db)"

text \<open>\<open>for x in xs: op(x)\<close> in one transaction.\<close>

primrec each_in :: "('x \<Rightarrow> 's \<Rightarrow> 'e + 's) \<Rightarrow> 'x list \<Rightarrow> 's \<Rightarrow> 'e + 's" where
  "each_in f [] s = Inr s"
| "each_in f (x # xs) s = rbind (f x s) (each_in f xs)"

definition insert_manifest_member :: "int \<Rightarrow> string \<times> object_version \<Rightarrow> artifact_db \<Rightarrow> artifact_error + artifact_db" where
  "insert_manifest_member mk m db =
     rbind (artifact_uuid ''member.object_id'' (ov_id (snd m))) (\<lambda>k.
     insert_member \<lparr>mb_manifest = mk, mb_member = fst m, mb_object = k\<rparr> db)"

subsection \<open>Reads\<close>

definition object_expired :: "instant \<Rightarrow> object_row \<Rightarrow> bool" where
  "object_expired t r \<longleftrightarrow> (case ob_expires r of None \<Rightarrow> False | Some e \<Rightarrow> e \<le> t)"

definition invalid_member :: "instant \<Rightarrow> int \<Rightarrow> artifact_db \<Rightarrow> bool" where
  "invalid_member t mk db \<longleftrightarrow> list_ex (\<lambda>m. mb_manifest m = mk
     \<and> (case lookup_row ob_key (mb_object m) (ad_objects db) of
          None \<Rightarrow> False | Some r \<Rightarrow> ob_state r \<noteq> Verified \<or> object_expired t r)) (ad_members db)"

definition binding_manifest :: "artifact_owner \<Rightarrow> artifact_db \<Rightarrow> (binding_row \<times> manifest_row) option" where
  "binding_manifest w db = (case lookup_row bi_owner w (ad_bindings db) of None \<Rightarrow> None
     | Some b \<Rightarrow> map_option (Pair b) (lookup_row mn_key (bi_manifest b) (ad_manifests db)))"

definition bound_rows :: "artifact_owner \<Rightarrow> artifact_db \<Rightarrow> (binding_row \<times> manifest_row \<times> object_row) option" where
  "bound_rows w db = (case binding_manifest w db of None \<Rightarrow> None
     | Some (b, m) \<Rightarrow> map_option (\<lambda>r. (b, m, r)) (lookup_row ob_key (mn_object m) (ad_objects db)))"

definition row_visible :: "instant \<Rightarrow> artifact_db \<Rightarrow> binding_row \<Rightarrow> object_row \<Rightarrow> bool" where
  "row_visible t db b r \<longleftrightarrow> bi_visibility b = Visible \<and> bi_available b \<and> ob_state r = Verified
     \<and> \<not> object_expired t r \<and> \<not> invalid_member t (bi_manifest b) db"

definition binding_in_connection ::
  "artifact_owner \<Rightarrow> bool \<Rightarrow> instant \<Rightarrow> artifact_db \<Rightarrow> artifact_error + owner_binding option" where
  "binding_in_connection w require_visible t db =
     (case bound_rows w db of
        None \<Rightarrow> Inr None
      | Some (b, m, r) \<Rightarrow>
          if require_visible \<and> \<not> row_visible t db b r then Inr None
          else rbind (new_binding w (ob_ref r) (bi_visibility b) (bi_visible_at b) (bi_available b)) (\<lambda>x. Inr (Some x)))"

definition get_visible_binding ::
  "artifact_owner \<Rightarrow> clock \<Rightarrow> artifact_db \<Rightarrow> artifact_error + owner_binding option" where
  "get_visible_binding w c db = (case c of
     Naive \<Rightarrow> Inl (Artifact_value_error ''artifact visibility time must be timezone-aware'')
   | Aware t \<Rightarrow> binding_in_connection w True t db)"

definition get_manifest :: "string \<Rightarrow> artifact_db \<Rightarrow> artifact_error + manifest option" where
  "get_manifest i db = rbind (artifact_uuid ''manifest_id'' i) (\<lambda>k.
     Inr (map_option mn_json (lookup_row mn_key k (ad_manifests db))))"

definition get_bound_manifest ::
  "string \<Rightarrow> clock \<Rightarrow> artifact_db \<Rightarrow> artifact_error + (owner_binding \<times> manifest) option" where
  "get_bound_manifest i c db = (case c of
     Naive \<Rightarrow> Inl (Artifact_value_error ''artifact visibility time must be timezone-aware'')
   | Aware t \<Rightarrow> rbind (artifact_uuid ''manifest_id'' i) (\<lambda>k.
       case lookup_row mn_key k (ad_manifests db) of
         None \<Rightarrow> Inr None
       | Some m \<Rightarrow> rbind (binding_in_connection (mn_owner m) True t db) (\<lambda>b.
           case b of
             None \<Rightarrow> Inr None
           | Some x \<Rightarrow> if ov_id (bd_manifest x) \<noteq> uuid_text (mn_object m) then Inr None
                       else rbind (new_bound_manifest x (mn_json m)) (\<lambda>y. Inr (Some y)))))"

definition contains_exact :: "object_version \<Rightarrow> artifact_db \<Rightarrow> bool" where
  "contains_exact r db \<longleftrightarrow> lookup_row row_identity (exact_identity r) (ad_objects db) \<noteq> None"

text \<open>
  \<open>list_bound_manifests\<close>: the rows in the database's order of owners, whose text columns it compares
  with its own collation; \<open>collation\<close> is that order.
\<close>

definition bound_of_row :: "artifact_db \<Rightarrow> binding_row \<Rightarrow> artifact_error + (owner_binding \<times> manifest) list" where
  "bound_of_row db b = (case bound_rows (bi_owner b) db of
     None \<Rightarrow> Inr []
   | Some (_, m, r) \<Rightarrow>
       rbind (new_binding (bi_owner b) (ob_ref r) (bi_visibility b) (bi_visible_at b) (bi_available b)) (\<lambda>x.
       rbind (new_bound_manifest x (mn_json m)) (\<lambda>y. Inr [y])))"

definition list_bound_manifests ::
  "(artifact_owner \<Rightarrow> 'k::linorder) \<Rightarrow> artifact_db \<Rightarrow> artifact_error + (owner_binding \<times> manifest) list" where
  "list_bound_manifests collation db =
     each_in (\<lambda>b acc. rbind (bound_of_row db b) (\<lambda>ys. Inr (acc @ ys)))
       (sort_key (\<lambda>b. collation (bi_owner b)) (ad_bindings db)) []"

subsection \<open>Transactions\<close>

definition on_integrity :: "artifact_error \<Rightarrow> artifact_error + 'a \<Rightarrow> artifact_error + 'a" where
  "on_integrity e r = (case r of Inl x \<Rightarrow> Inl (if x = Artifact_integrity_error then e else x) | Inr a \<Rightarrow> Inr a)"

definition owner_text :: "artifact_owner \<Rightarrow> string" where
  "owner_text w = ao_type w @ '':'' @ ao_id w"

definition store_manifest :: "manifest \<Rightarrow> object_version \<Rightarrow> int \<Rightarrow> int \<Rightarrow> artifact_db \<Rightarrow> artifact_error + artifact_db" where
  "store_manifest m ref mk ok db =
     rbind (each_in (\<lambda>x. insert_exact_ref (snd x)) (mf_members m) db) (\<lambda>db1.
     rbind (insert_exact_ref ref db1) (\<lambda>db2.
     rbind (insert_manifest \<lparr>mn_key = mk, mn_owner = mf_owner m, mn_object = ok, mn_json = m,
              mn_created = mf_created m\<rparr> db2) (\<lambda>db3.
     rbind (each_in (insert_manifest_member mk) (mf_members m) db3) (\<lambda>db4.
     insert_binding \<lparr>bi_owner = mf_owner m, bi_manifest = mk, bi_visibility = Visible,
       bi_visible_at = Some (mf_created m), bi_available = True, bi_updated = mf_created m\<rparr> db4))))"

definition commit_visible_manifest ::
  "manifest \<Rightarrow> object_version \<Rightarrow> artifact_db \<Rightarrow> artifact_error + owner_binding \<times> artifact_db" where
  "commit_visible_manifest m ref db =
     (if ov_kind ref \<noteq> Artifact_manifest
      then Inl (Artifact_value_error ''artifact visibility requires an ARTIFACT_MANIFEST ref'')
      else if ov_owner ref \<noteq> mf_owner m
      then Inl (Artifact_value_error ''manifest reference owner does not match manifest owner'')
      else rbind (artifact_uuid ''manifest_id'' (mf_id m)) (\<lambda>mk.
       rbind (artifact_uuid ''object_id'' (ov_id ref)) (\<lambda>ok.
       on_integrity (Artifact_conflict ''artifact_manifest'' (mf_id m))
         (case binding_manifest (mf_owner m) db of
            Some (b, mn) \<Rightarrow>
              if bi_manifest b = mk \<and> mn_object mn = ok
              then rbind (binding_in_connection (mf_owner m) False (mf_created m) db) (\<lambda>x.
                     case x of None \<Rightarrow> Inl Artifact_assertion_error | Some y \<Rightarrow> Inr (y, db))
              else Inl (Artifact_conflict ''artifact_owner_binding'' (owner_text (mf_owner m)))
          | None \<Rightarrow> rbind (store_manifest m ref mk ok db) (\<lambda>db'.
              rbind (new_binding (mf_owner m) ref Visible (Some (mf_created m)) True) (\<lambda>b. Inr (b, db')))))))"

definition hide_bindings :: "visibility \<Rightarrow> instant \<Rightarrow> (binding_row \<Rightarrow> bool) \<Rightarrow> artifact_db \<Rightarrow> nat \<times> artifact_db" where
  "hide_bindings v t P db =
     (let Q = (\<lambda>b. P b \<and> bi_visibility b = Visible)
      in (count_where Q (ad_bindings db),
          db\<lparr>ad_bindings := update_where Q
               (\<lambda>b. b\<lparr>bi_visibility := v, bi_available := False, bi_updated := t\<rparr>) (ad_bindings db)\<rparr>))"

definition manifests_of_objects :: "(int \<Rightarrow> bool) \<Rightarrow> artifact_db \<Rightarrow> int list" where
  "manifests_of_objects P db =
     map mn_key (filter (\<lambda>m. P (mn_object m)) (ad_manifests db))
     @ map mb_manifest (filter (\<lambda>m. P (mb_object m)) (ad_members db))"

definition mark_corrupt :: "object_version \<Rightarrow> instant \<Rightarrow> artifact_db \<Rightarrow> artifact_error + nat \<times> artifact_db" where
  "mark_corrupt r t db = rbind (artifact_uuid ''object_id'' (ov_id r)) (\<lambda>k.
     let P = (\<lambda>x. ob_key x = k \<and> row_identity x = exact_identity r);
         db1 = db\<lparr>ad_objects := update_where P (\<lambda>x. x\<lparr>ob_state := Object_corrupt, ob_corrupt_at := Some t\<rparr>) (ad_objects db)\<rparr>
     in if count_where P (ad_objects db) \<noteq> 1 then Inr (0, db1)
        else Inr (hide_bindings Corrupt t (\<lambda>b. bi_manifest b \<in> set (manifests_of_objects (\<lambda>x. x = k) db)) db1))"

definition expire_due :: "clock \<Rightarrow> artifact_db \<Rightarrow> artifact_error + nat \<times> artifact_db" where
  "expire_due c db = (case c of
     Naive \<Rightarrow> Inl (Artifact_value_error ''artifact expiry time must be timezone-aware'')
   | Aware t \<Rightarrow> Inr (hide_bindings Expired t
       (\<lambda>b. bi_manifest b \<in> set (manifests_of_objects
          (\<lambda>k. case lookup_row ob_key k (ad_objects db) of None \<Rightarrow> False | Some r \<Rightarrow> object_expired t r) db)) db))"

text \<open>
  \<open>delete_if_unreferenced\<close> holds the advisory lock of the exact version, which every insert of that
  version takes too, while it looks for a row and calls the deleter; the deleter works on the object
  store.
\<close>

definition delete_if_unreferenced ::
  "object_version \<Rightarrow> ('s \<Rightarrow> artifact_error + 's) \<Rightarrow> artifact_db \<Rightarrow> 's \<Rightarrow> artifact_error + bool \<times> 's" where
  "delete_if_unreferenced r deleter db s =
     (if contains_exact r db then Inr (False, s) else rbind (deleter s) (\<lambda>s'. Inr (True, s')))"

definition empty_artifact_db :: artifact_db where
  "empty_artifact_db = \<lparr>ad_objects = [], ad_manifests = [], ad_members = [], ad_bindings = []\<rparr>"

end
