(* ===== verification/Artifact_Registry.thy ===== *)
theory Artifact_Registry
  imports Artifact_Authority
begin

text \<open>
  What the artifact authority promises: a registry that holds at most one publication per owner. A
  publication is written once, complete, and can only be hidden afterwards. The invariant of the four
  tables is proved for every transaction here, together with what each transaction and each read is
  on the registry.
\<close>

subsection \<open>The registry\<close>

record publication =
  pb_manifest :: manifest
  pb_ref :: object_version
  pb_visibility :: visibility
  pb_visible_at :: "instant option"

definition registry :: "artifact_db \<Rightarrow> artifact_owner \<Rightarrow> publication option" where
  "registry db w = map_option (\<lambda>(b, m, r). \<lparr>pb_manifest = mn_json m, pb_ref = ob_ref r, pb_visibility = bi_visibility b,
      pb_visible_at = bi_visible_at b\<rparr>)
     (bound_rows w db)"

definition version_expired :: "instant \<Rightarrow> object_version \<Rightarrow> bool" where
  "version_expired t v \<longleftrightarrow> (case ov_expires v of None \<Rightarrow> False | Some e \<Rightarrow> e \<le> t)"

definition publication_refs :: "publication \<Rightarrow> object_version list" where
  "publication_refs p = map snd (mf_members (pb_manifest p)) @ [pb_ref p]"

definition readable :: "instant \<Rightarrow> publication \<Rightarrow> bool" where
  "readable t p \<longleftrightarrow> pb_visibility p = Visible \<and> (\<forall>v \<in> set (publication_refs p). \<not> version_expired t v)"

definition hidden :: "publication \<Rightarrow> publication \<Rightarrow> bool" where
  "hidden p q \<longleftrightarrow> pb_manifest q = pb_manifest p \<and> pb_ref q = pb_ref p \<and> pb_visible_at q = pb_visible_at p
     \<and> (pb_visibility q = pb_visibility p \<or> pb_visibility p = Visible \<and> pb_visibility q \<in> {Expired, Corrupt})"

definition registry_advances :: "artifact_db \<Rightarrow> artifact_db \<Rightarrow> bool" where
  "registry_advances db db' \<longleftrightarrow> (\<forall>w p. registry db w = Some p \<longrightarrow> (\<exists>q. registry db' w = Some q \<and> hidden p q))"

lemma hidden_refl [simp]: "hidden p p"
  by (simp add: hidden_def)

lemma hidden_trans: "hidden p q \<Longrightarrow> hidden q r \<Longrightarrow> hidden p r"
  by (auto simp: hidden_def)

lemma registry_advances_refl [simp]: "registry_advances db db"
  by (simp add: registry_advances_def)

lemma registry_advances_trans: "registry_advances a b \<Longrightarrow> registry_advances b c \<Longrightarrow> registry_advances a c"
  unfolding registry_advances_def by (meson hidden_trans)

subsection \<open>The invariant of the tables\<close>

definition object_row_good :: "object_row \<Rightarrow> bool" where
  "object_row_good r \<longleftrightarrow> object_version_ok (ob_ref r) \<and> uuid_key (ov_id (ob_ref r)) = Some (ob_key r)
     \<and> row_identity r = exact_identity (ob_ref r) \<and> ob_expires r = ov_expires (ob_ref r)"

definition objects_good :: "object_row list \<Rightarrow> bool" where
  "objects_good rs \<longleftrightarrow> keys_unique ob_key rs \<and> keys_unique row_identity rs \<and> (\<forall>r \<in> set rs. object_row_good r)"

definition members_unique :: "member_row list \<Rightarrow> bool" where
  "members_unique ms \<longleftrightarrow> keys_unique (\<lambda>x. (mb_manifest x, mb_member x)) ms
     \<and> keys_unique (\<lambda>x. (mb_manifest x, mb_object x)) ms"

definition member_rows :: "int \<Rightarrow> manifest \<Rightarrow> member_row list" where
  "member_rows k m = map (\<lambda>(i, v). \<lparr>mb_manifest = k, mb_member = i, mb_object = the (uuid_key (ov_id v))\<rparr>) (mf_members m)"

definition manifest_row_good :: "artifact_db \<Rightarrow> manifest_row \<Rightarrow> bool" where
  "manifest_row_good db m \<longleftrightarrow> manifest_ok (mn_json m) \<and> mn_owner m = mf_owner (mn_json m)
     \<and> uuid_key (mf_id (mn_json m)) = Some (mn_key m)
     \<and> (\<exists>r \<in> set (ad_objects db). ob_key r = mn_object m \<and> ov_kind (ob_ref r) = Artifact_manifest
          \<and> ov_owner (ob_ref r) = mn_owner m)
     \<and> (\<forall>(i, v) \<in> set (mf_members (mn_json m)). v \<in> ob_ref ` set (ad_objects db))
     \<and> filter (\<lambda>x. mb_manifest x = mn_key m) (ad_members db) = member_rows (mn_key m) (mn_json m)
     \<and> (\<exists>b \<in> set (ad_bindings db). bi_owner b = mn_owner m \<and> bi_manifest b = mn_key m)"

definition binding_row_good :: "artifact_db \<Rightarrow> binding_row \<Rightarrow> bool" where
  "binding_row_good db b \<longleftrightarrow> binding_row_checks b
     \<and> (\<exists>m \<in> set (ad_manifests db). mn_key m = bi_manifest b \<and> mn_owner m = bi_owner b)
     \<and> (bi_visibility b = Visible \<longrightarrow>
          (\<forall>r \<in> set (ad_objects db). ov_owner (ob_ref r) = bi_owner b \<longrightarrow> ob_state r = Verified))"

definition object_used :: "artifact_db \<Rightarrow> object_row \<Rightarrow> bool" where
  "object_used db r \<longleftrightarrow> (\<exists>m \<in> set (ad_manifests db). mn_owner m = ov_owner (ob_ref r)
     \<and> (mn_object m = ob_key r \<or> (\<exists>x \<in> set (ad_members db). mb_manifest x = mn_key m \<and> mb_object x = ob_key r)))"

definition authority_good :: "artifact_db \<Rightarrow> bool" where
  "authority_good db \<longleftrightarrow> objects_good (ad_objects db)
     \<and> keys_unique mn_key (ad_manifests db) \<and> keys_unique mn_object (ad_manifests db)
     \<and> members_unique (ad_members db)
     \<and> (\<forall>x \<in> set (ad_members db). mb_manifest x \<in> mn_key ` set (ad_manifests db))
     \<and> keys_unique bi_owner (ad_bindings db) \<and> keys_unique bi_manifest (ad_bindings db)
     \<and> (\<forall>m \<in> set (ad_manifests db). manifest_row_good db m)
     \<and> (\<forall>b \<in> set (ad_bindings db). binding_row_good db b)
     \<and> (\<forall>r \<in> set (ad_objects db). object_used db r)"

lemma authority_goodD:
  assumes "authority_good db"
  shows "objects_good (ad_objects db)" "keys_unique mn_key (ad_manifests db)" "keys_unique mn_object (ad_manifests db)"
    "members_unique (ad_members db)" "keys_unique bi_owner (ad_bindings db)" "keys_unique bi_manifest (ad_bindings db)"
    "keys_unique ob_key (ad_objects db)"
    "\<And>m. m \<in> set (ad_manifests db) \<Longrightarrow> manifest_row_good db m"
    "\<And>b. b \<in> set (ad_bindings db) \<Longrightarrow> binding_row_good db b"
    "\<And>r. r \<in> set (ad_objects db) \<Longrightarrow> object_row_good r"
    "\<And>r. r \<in> set (ad_objects db) \<Longrightarrow> object_used db r"
    "\<And>x. x \<in> set (ad_members db) \<Longrightarrow> mb_manifest x \<in> mn_key ` set (ad_manifests db)"
  using assms by (auto simp: authority_good_def objects_good_def)

lemma empty_authority_good: "authority_good empty_artifact_db"
  by (simp add: authority_good_def empty_artifact_db_def objects_good_def members_unique_def keys_unique_def)

subsection \<open>Inserting a bundle\<close>

lemma insert_exact_ref_good:
  assumes "insert_exact_ref v db = Inr db'" and "objects_good (ad_objects db)" and "object_version_ok v"
  obtains new where "db' = db\<lparr>ad_objects := ad_objects db @ new\<rparr>" "objects_good (ad_objects db @ new)"
    "\<And>r. r \<in> set new \<Longrightarrow> ob_ref r = v \<and> ob_state r = Verified" "v \<in> ob_ref ` set (ad_objects db @ new)"
proof -
  from assms(1) obtain k where k: "uuid_key (ov_id v) = Some k"
    by (auto simp: insert_exact_ref_def artifact_uuid_def split: option.splits)
  show thesis
  proof (cases "lookup_row ob_key k (ad_objects db)")
    case (Some row)
    then have "db' = db" "ob_ref row = v"
      using assms(1) k by (auto simp: insert_exact_ref_def artifact_uuid_def split: if_splits)
    with Some that [of "[]"] assms(2) show thesis by (force dest: lookup_row_SomeD)
  next
    case None
    then show thesis
      using assms k that [of "[\<lparr>ob_key = k, ob_bucket = ov_bucket v, ob_path = ov_key v, ob_version = ov_version v,
         ob_size = ov_size v, ob_state = Verified, ob_ref = v, ob_expires = ov_expires v, ob_corrupt_at = None\<rparr>]"]
      by (auto simp: insert_exact_ref_def artifact_uuid_def insert_object_def objects_good_def table_simps
          object_row_good_def row_identity_def exact_identity_def)
  qed
qed

lemma insert_refs_good:
  assumes "each_in (\<lambda>x. insert_exact_ref (snd x)) ms db = Inr db'" and "objects_good (ad_objects db)"
    and "\<forall>x \<in> set ms. object_version_ok (snd x)"
  shows "\<exists>new. db' = db\<lparr>ad_objects := ad_objects db @ new\<rparr> \<and> objects_good (ad_objects db @ new)
    \<and> (\<forall>r \<in> set new. ob_ref r \<in> snd ` set ms \<and> ob_state r = Verified) \<and> snd ` set ms \<subseteq> ob_ref ` set (ad_objects db @ new)"
  using assms
proof (induction ms arbitrary: db)
  case (Cons x ms)
  then obtain d where d: "insert_exact_ref (snd x) db = Inr d"
    and rest: "each_in (\<lambda>x. insert_exact_ref (snd x)) ms d = Inr db'" by auto
  from insert_exact_ref_good [OF d Cons.prems(2)] Cons.prems(3) obtain new where
    new: "d = db\<lparr>ad_objects := ad_objects db @ new\<rparr>" "objects_good (ad_objects db @ new)"
    "\<And>r. r \<in> set new \<Longrightarrow> ob_ref r = snd x \<and> ob_state r = Verified" "snd x \<in> ob_ref ` set (ad_objects db @ new)"
    by (metis list.set_intros(1))
  from Cons.IH [OF rest] new(1,2) Cons.prems(3) obtain new2 where
    new2: "db' = d\<lparr>ad_objects := ad_objects d @ new2\<rparr>" "objects_good (ad_objects d @ new2)"
    "\<forall>r \<in> set new2. ob_ref r \<in> snd ` set ms \<and> ob_state r = Verified"
    "snd ` set ms \<subseteq> ob_ref ` set (ad_objects d @ new2)" by auto
  with new show ?case by (intro exI [of _ "new @ new2"]) auto
qed simp

lemma insert_members_good:
  assumes "each_in (insert_manifest_member k) ms db = Inr db'" and "members_unique (ad_members db)"
  shows "db' = db\<lparr>ad_members := ad_members db
      @ map (\<lambda>(i, v). \<lparr>mb_manifest = k, mb_member = i, mb_object = the (uuid_key (ov_id v))\<rparr>) ms\<rparr>
    \<and> members_unique (ad_members db')"
  using assms
proof (induction ms arbitrary: db)
  case (Cons x ms)
  then obtain d where d: "insert_manifest_member k x db = Inr d"
    and rest: "each_in (insert_manifest_member k) ms d = Inr db'" by auto
  from d Cons.prems(2) have "d = db\<lparr>ad_members := ad_members db
      @ [\<lparr>mb_manifest = k, mb_member = fst x, mb_object = the (uuid_key (ov_id (snd x)))\<rparr>]\<rparr>" "members_unique (ad_members d)"
    by (auto simp: insert_manifest_member_def insert_member_def artifact_uuid_def members_unique_def table_simps
        split: option.splits if_splits)
  with Cons.IH [OF rest] show ?case by (clarsimp simp: split_beta)
qed simp

text \<open>What a successful \<open>store_manifest\<close> has written.\<close>

lemma store_manifestE:
  assumes "store_manifest m ref mk ok db = Inr db'" and "authority_good db" and "manifest_ok m" and "object_version_ok ref"
  obtains new where
    "db' = \<lparr>ad_objects = ad_objects db @ new,
       ad_manifests = ad_manifests db @ [\<lparr>mn_key = mk, mn_owner = mf_owner m, mn_object = ok, mn_json = m, mn_created = mf_created m\<rparr>],
       ad_members = ad_members db @ member_rows mk m,
       ad_bindings = ad_bindings db @ [\<lparr>bi_owner = mf_owner m, bi_manifest = mk, bi_visibility = Visible,
         bi_visible_at = Some (mf_created m), bi_available = True, bi_updated = mf_created m\<rparr>]\<rparr>"
    "objects_good (ad_objects db @ new)" "members_unique (ad_members db @ member_rows mk m)"
    "\<And>r. r \<in> set new \<Longrightarrow> ob_ref r \<in> insert ref (snd ` set (mf_members m)) \<and> ob_state r = Verified"
    "insert ref (snd ` set (mf_members m)) \<subseteq> ob_ref ` set (ad_objects db @ new)"
    "lookup_row mn_key mk (ad_manifests db) = None" "lookup_row mn_object ok (ad_manifests db) = None"
    "lookup_row bi_owner (mf_owner m) (ad_bindings db) = None" "lookup_row bi_manifest mk (ad_bindings db) = None"
proof -
  from assms(1) obtain db1 db2 db3 db4 where
    1: "each_in (\<lambda>x. insert_exact_ref (snd x)) (mf_members m) db = Inr db1"
    and 2: "insert_exact_ref ref db1 = Inr db2"
    and 3: "insert_manifest \<lparr>mn_key = mk, mn_owner = mf_owner m, mn_object = ok, mn_json = m, mn_created = mf_created m\<rparr> db2 = Inr db3"
    and 4: "each_in (insert_manifest_member mk) (mf_members m) db3 = Inr db4"
    and 5: "insert_binding \<lparr>bi_owner = mf_owner m, bi_manifest = mk, bi_visibility = Visible,
       bi_visible_at = Some (mf_created m), bi_available = True, bi_updated = mf_created m\<rparr> db4 = Inr db'"
    by (auto simp: store_manifest_def)
  note inv = authority_goodD [OF assms(2)]
  from insert_refs_good [OF 1 inv(1)] manifest_okD(5) [OF assms(3)] obtain new1 where
    n1: "db1 = db\<lparr>ad_objects := ad_objects db @ new1\<rparr>" "objects_good (ad_objects db @ new1)"
      "\<forall>r \<in> set new1. ob_ref r \<in> snd ` set (mf_members m) \<and> ob_state r = Verified"
      "snd ` set (mf_members m) \<subseteq> ob_ref ` set (ad_objects db @ new1)" by fastforce
  from n1(1,2) have g1: "objects_good (ad_objects db1)" by simp
  from insert_exact_ref_good [OF 2 g1 assms(4)] obtain new2 where
    n2: "db2 = db1\<lparr>ad_objects := ad_objects db1 @ new2\<rparr>" "objects_good (ad_objects db1 @ new2)"
      "\<And>r. r \<in> set new2 \<Longrightarrow> ob_ref r = ref \<and> ob_state r = Verified" "ref \<in> ob_ref ` set (ad_objects db1 @ new2)" by metis
  from 3 have n3: "db3 = db2\<lparr>ad_manifests := ad_manifests db2 @ [\<lparr>mn_key = mk, mn_owner = mf_owner m, mn_object = ok, mn_json = m,
      mn_created = mf_created m\<rparr>]\<rparr>" "lookup_row mn_key mk (ad_manifests db2) = None" "lookup_row mn_object ok (ad_manifests db2) = None"
    by (auto simp: insert_manifest_def split: if_splits)
  have g3: "members_unique (ad_members db3)" using inv(4) n1 n2 n3 by simp
  note n4 = insert_members_good [OF 4 g3, folded member_rows_def, THEN conjunct1]
  have m4: "ad_members db4 = ad_members db @ member_rows mk m" using n1(1) n2(1) n3(1) n4 by simp
  from 5 have n5: "db' = db4\<lparr>ad_bindings := ad_bindings db4 @ [\<lparr>bi_owner = mf_owner m, bi_manifest = mk, bi_visibility = Visible,
         bi_visible_at = Some (mf_created m), bi_available = True, bi_updated = mf_created m\<rparr>]\<rparr>"
    "lookup_row bi_owner (mf_owner m) (ad_bindings db4) = None" "lookup_row bi_manifest mk (ad_bindings db4) = None"
    by (auto simp: insert_binding_def split: if_splits)
  show thesis
  proof (rule that [of "new1 @ new2"])
    show "objects_good (ad_objects db @ new1 @ new2)" using n1(1) n2(2) by simp
    show "members_unique (ad_members db @ member_rows mk m)" using insert_members_good [OF 4 g3, THEN conjunct2] unfolding m4 .
    show "ob_ref r \<in> insert ref (snd ` set (mf_members m)) \<and> ob_state r = Verified" if "r \<in> set (new1 @ new2)" for r
      using that n1(3) n2(3) by auto
    show "insert ref (snd ` set (mf_members m)) \<subseteq> ob_ref ` set (ad_objects db @ new1 @ new2)"
      using n1(1,4) n2(4) by auto
  qed (use n1(1) n2(1) n3 n4 n5 in auto)
qed

subsection \<open>Reading the rows back\<close>

lemma bound_rows_SomeD:
  assumes "bound_rows w db = Some (b, m, r)"
  shows "b \<in> set (ad_bindings db)" "bi_owner b = w" "m \<in> set (ad_manifests db)" "mn_key m = bi_manifest b"
    "r \<in> set (ad_objects db)" "ob_key r = mn_object m"
  using assms by (auto simp: bound_rows_def binding_manifest_def split: option.splits dest!: lookup_row_SomeD)

text \<open>The rows of a binding belong together.\<close>

lemma binding_rows:
  assumes "authority_good db" and "b \<in> set (ad_bindings db)"
  obtains m r where "bound_rows (bi_owner b) db = Some (b, m, r)" "mn_owner m = bi_owner b"
    "ov_kind (ob_ref r) = Artifact_manifest" "ov_owner (ob_ref r) = bi_owner b"
proof -
  note inv = authority_goodD [OF assms(1)]
  from inv(9) [OF assms(2)] obtain m where m: "m \<in> set (ad_manifests db)" "mn_key m = bi_manifest b" "mn_owner m = bi_owner b"
    by (auto simp: binding_row_good_def)
  from inv(8) [OF m(1)] obtain r where r: "r \<in> set (ad_objects db)" "ob_key r = mn_object m"
    "ov_kind (ob_ref r) = Artifact_manifest" "ov_owner (ob_ref r) = mn_owner m" by (auto simp: manifest_row_good_def)
  have "bound_rows (bi_owner b) db = Some (b, m, r)"
    using lookup_row_unique [OF inv(5) assms(2)] lookup_row_eqI [OF inv(2) m(1,2)] lookup_row_eqI [OF inv(7) r(1,2)]
    by (simp add: bound_rows_def binding_manifest_def)
  with m r that show thesis by metis
qed

lemma registry_SomeE:
  assumes "registry db w = Some p" and "authority_good db"
  obtains b m r where "bound_rows w db = Some (b, m, r)" "b \<in> set (ad_bindings db)" "bi_owner b = w"
    "m \<in> set (ad_manifests db)" "mn_key m = bi_manifest b" "mn_owner m = w" "r \<in> set (ad_objects db)" "ob_key r = mn_object m"
    "ov_kind (ob_ref r) = Artifact_manifest" "ov_owner (ob_ref r) = w"
    "p = \<lparr>pb_manifest = mn_json m, pb_ref = ob_ref r, pb_visibility = bi_visibility b,
      pb_visible_at = bi_visible_at b\<rparr>"
proof -
  from assms(1) obtain b m r where rows: "bound_rows w db = Some (b, m, r)"
    and p: "p = \<lparr>pb_manifest = mn_json m, pb_ref = ob_ref r, pb_visibility = bi_visibility b,
      pb_visible_at = bi_visible_at b\<rparr>"
    by (auto simp: registry_def)
  note d = bound_rows_SomeD [OF rows]
  from binding_rows [OF assms(2) d(1)] d(2) rows have
    "mn_owner m = w" "ov_kind (ob_ref r) = Artifact_manifest" "ov_owner (ob_ref r) = w" by auto
  with that rows d p show thesis by metis
qed

lemma registryI:
  assumes "authority_good db" and "b \<in> set (ad_bindings db)" and "m \<in> set (ad_manifests db)" and "mn_key m = bi_manifest b"
    and "r \<in> set (ad_objects db)" and "ob_key r = mn_object m"
  shows "registry db (bi_owner b) = Some \<lparr>pb_manifest = mn_json m, pb_ref = ob_ref r, pb_visibility = bi_visibility b,
      pb_visible_at = bi_visible_at b\<rparr>"
proof -
  note inv = authority_goodD [OF assms(1)]
  show ?thesis
    using lookup_row_unique [OF inv(5) assms(2)] lookup_row_eqI [OF inv(2) assms(3,4)] lookup_row_eqI [OF inv(7) assms(5,6)]
    by (simp add: registry_def bound_rows_def binding_manifest_def)
qed

lemma registry_None_iff:
  assumes "authority_good db"
  shows "registry db w = None \<longleftrightarrow> lookup_row bi_owner w (ad_bindings db) = None"
proof
  assume none: "registry db w = None"
  have "w \<noteq> bi_owner b" if "b \<in> set (ad_bindings db)" for b
    using none binding_rows [OF assms that] by (force simp: registry_def)
  then show "lookup_row bi_owner w (ad_bindings db) = None" by (auto simp: lookup_row_None_iff)
qed (simp add: registry_def bound_rows_def binding_manifest_def)

text \<open>An owner without a binding has no object in the tables.\<close>

lemma unbound_owner_has_no_object:
  assumes "authority_good db" and "lookup_row bi_owner w (ad_bindings db) = None" and "r \<in> set (ad_objects db)"
  shows "ov_owner (ob_ref r) \<noteq> w"
proof
  assume w: "ov_owner (ob_ref r) = w"
  note inv = authority_goodD [OF assms(1)]
  from inv(11) [OF assms(3)] w obtain m where "m \<in> set (ad_manifests db)" "mn_owner m = w" by (auto simp: object_used_def)
  with inv(8) obtain b where "b \<in> set (ad_bindings db)" "bi_owner b = w" by (fastforce simp: manifest_row_good_def)
  with lookup_row_NoneD [OF assms(2)] show False by auto
qed

subsection \<open>Publication\<close>

lemma member_rows_same_key: "\<forall>x \<in> set (member_rows k m). mb_manifest x = k"
  by (auto simp: member_rows_def)

lemma uuid_of_row:
  assumes "objects_good rs" and "v \<in> ob_ref ` set rs"
  obtains r where "r \<in> set rs" "ob_ref r = v" "uuid_key (ov_id v) = Some (ob_key r)"
  using assms by (auto simp: objects_good_def object_row_good_def)

lemma same_ref_same_row:
  assumes "objects_good rs" and "r \<in> set rs" and "s \<in> set rs" and "ob_ref r = ob_ref s"
  shows "r = s"
proof -
  have "Some (ob_key r) = Some (ob_key s)" using assms unfolding objects_good_def object_row_good_def by metis
  then have "ob_key r = ob_key s" by simp
  then show ?thesis using assms by (auto simp: objects_good_def dest: keys_unique_same)
qed

text \<open>Storing a bundle for a free owner keeps the invariant and fills the owner's place in the registry.\<close>

lemma store_manifest_good:
  assumes "store_manifest m ref mk ok db = Inr db'" and "authority_good db" and "manifest_ok m" and "object_version_ok ref"
    and "ov_kind ref = Artifact_manifest" and "ov_owner ref = mf_owner m"
    and "uuid_key (mf_id m) = Some mk" and "uuid_key (ov_id ref) = Some ok"
  shows "authority_good db'"
    "registry db' = (registry db)(mf_owner m \<mapsto> \<lparr>pb_manifest = m, pb_ref = ref, pb_visibility = Visible,
      pb_visible_at = Some (mf_created m)\<rparr>)"
proof -
  from store_manifestE [OF assms(1-4)] obtain new where
    db': "db' = \<lparr>ad_objects = ad_objects db @ new,
       ad_manifests = ad_manifests db @ [\<lparr>mn_key = mk, mn_owner = mf_owner m, mn_object = ok, mn_json = m, mn_created = mf_created m\<rparr>],
       ad_members = ad_members db @ member_rows mk m,
       ad_bindings = ad_bindings db @ [\<lparr>bi_owner = mf_owner m, bi_manifest = mk, bi_visibility = Visible,
         bi_visible_at = Some (mf_created m), bi_available = True, bi_updated = mf_created m\<rparr>]\<rparr>"
    and og: "objects_good (ad_objects db @ new)" and mu: "members_unique (ad_members db @ member_rows mk m)"
    and new: "\<And>r. r \<in> set new \<Longrightarrow> ob_ref r \<in> insert ref (snd ` set (mf_members m)) \<and> ob_state r = Verified"
    and refs: "insert ref (snd ` set (mf_members m)) \<subseteq> ob_ref ` set (ad_objects db @ new)"
    and free: "lookup_row mn_key mk (ad_manifests db) = None" "lookup_row mn_object ok (ad_manifests db) = None"
      "lookup_row bi_owner (mf_owner m) (ad_bindings db) = None" "lookup_row bi_manifest mk (ad_bindings db) = None"
    by metis
  note inv = authority_goodD [OF assms(2)]
  note unbound = unbound_owner_has_no_object [OF assms(2) free(3)]
  have owner: "ov_owner v = mf_owner m" if "v \<in> insert ref (snd ` set (mf_members m))" for v
    using that assms(6) manifest_okD(5) [OF assms(3)] by auto
  from refs have "ref \<in> ob_ref ` set (ad_objects db @ new)" by simp
  from uuid_of_row [OF og this] assms(8) obtain r0 where
    r0: "r0 \<in> set (ad_objects db @ new)" "ob_ref r0 = ref" "ob_key r0 = ok" by auto
  have fresh: "mb_manifest x \<noteq> mk" if "x \<in> set (ad_members db)" for x
    using inv(12) [OF that] free(1) by (auto simp: lookup_row_None_iff)
  have fresh_key: "mn_key x \<noteq> mk" if "x \<in> set (ad_manifests db)" for x
    using that free(1) by (auto simp: lookup_row_None_iff)
  let ?mn = "\<lparr>mn_key = mk, mn_owner = mf_owner m, mn_object = ok, mn_json = m, mn_created = mf_created m\<rparr>"
  have old_manifest: "manifest_row_good db' x" if "x \<in> set (ad_manifests db)" for x
    using inv(8) [OF that] fresh_key [OF that] member_rows_same_key [of mk m]
    by (fastforce simp: manifest_row_good_def db' filter_empty_conv)
  have "filter (\<lambda>x. mb_manifest x = mk) (ad_members db) = []" using fresh by (auto simp: filter_empty_conv)
  moreover have "filter (\<lambda>x. mb_manifest x = mk) (member_rows mk m) = member_rows mk m"
    using member_rows_same_key [of mk m] by (simp add: filter_id_conv)
  ultimately have new_manifest: "manifest_row_good db' ?mn"
    using assms(3,5,6,7) r0 refs by (auto simp: manifest_row_good_def db' image_subset_iff intro!: bexI [of _ r0])
  have old_binding: "binding_row_good db' x" if "x \<in> set (ad_bindings db)" for x
  proof -
    have "bi_owner x \<noteq> mf_owner m" using lookup_row_NoneD [OF free(3) that] .
    then have "ov_owner (ob_ref r) \<noteq> bi_owner x" if "r \<in> set new" for r using new [OF that] owner by metis
    then show ?thesis using inv(9) [OF that] by (auto simp: binding_row_good_def db')
  qed
  have used: "object_used db' r" if "r \<in> set (ad_objects db @ new)" for r
  proof (cases "r \<in> set (ad_objects db)")
    case True
    then show ?thesis using inv(11) [OF True] by (auto simp: object_used_def db')
  next
    case False
    then have r: "r \<in> set new" using that by simp
    show ?thesis
    proof (cases "ob_ref r = ref")
      case True
      then show ?thesis using same_ref_same_row [OF og that r0(1)] r0(2,3) assms(6) by (auto simp: object_used_def db')
    next
      case False
      with new [OF r] obtain i where i: "(i, ob_ref r) \<in> set (mf_members m)" by auto
      moreover have "uuid_key (ov_id (ob_ref r)) = Some (ob_key r)"
        using og that by (auto simp: objects_good_def object_row_good_def)
      ultimately have row: "\<lparr>mb_manifest = mk, mb_member = i, mb_object = ob_key r\<rparr> \<in> set (member_rows mk m)"
        unfolding member_rows_def set_map by (intro image_eqI) auto
      have "ov_owner (ob_ref r) = mf_owner m" using owner new [OF r] by blast
      with row show ?thesis unfolding object_used_def
        by (intro bexI [of _ ?mn] conjI disjI2 bexI [of _ "\<lparr>mb_manifest = mk, mb_member = i, mb_object = ob_key r\<rparr>"])
          (simp_all add: db')
    qed
  qed
  have new_binding: "binding_row_good db' \<lparr>bi_owner = mf_owner m, bi_manifest = mk, bi_visibility = Visible,
      bi_visible_at = Some (mf_created m), bi_available = True, bi_updated = mf_created m\<rparr>"
    using new unbound by (auto simp: binding_row_good_def binding_row_checks_def db')
  show good: "authority_good db'"
  proof -
    have "keys_unique mn_key (ad_manifests db')" "keys_unique mn_object (ad_manifests db')"
      "keys_unique bi_owner (ad_bindings db')" "keys_unique bi_manifest (ad_bindings db')"
      using inv(2,3,5,6) free by (simp_all add: db' table_simps)
    moreover have "\<forall>x \<in> set (ad_members db'). mb_manifest x \<in> mn_key ` set (ad_manifests db')"
      using inv(12) member_rows_same_key [of mk m] by (auto simp: db')
    moreover have "\<forall>x \<in> set (ad_manifests db'). manifest_row_good db' x"
      using old_manifest new_manifest by (simp add: db')
    moreover have "\<forall>x \<in> set (ad_bindings db'). binding_row_good db' x"
      using old_binding new_binding by (simp add: db')
    moreover have "\<forall>x \<in> set (ad_objects db'). object_used db' x" using used by (simp add: db')
    moreover have "objects_good (ad_objects db')" "members_unique (ad_members db')" using og mu by (simp_all add: db')
    ultimately show ?thesis unfolding authority_good_def by blast
  qed
  show "registry db' = (registry db)(mf_owner m \<mapsto> \<lparr>pb_manifest = m, pb_ref = ref, pb_visibility = Visible,
      pb_visible_at = Some (mf_created m)\<rparr>)"
  proof
    fix w
    show "registry db' w = ((registry db)(mf_owner m \<mapsto> \<lparr>pb_manifest = m, pb_ref = ref, pb_visibility = Visible,
      pb_visible_at = Some (mf_created m)\<rparr>)) w"
    proof (cases "w = mf_owner m")
      case True
      let ?b = "\<lparr>bi_owner = mf_owner m, bi_manifest = mk, bi_visibility = Visible, bi_visible_at = Some (mf_created m),
        bi_available = True, bi_updated = mf_created m\<rparr>"
      show ?thesis using registryI [OF good, of ?b ?mn r0] r0 True by (simp add: db')
    next
      case False
      show ?thesis
      proof (cases "registry db w")
        case None
        then have "registry db' w = None"
          using False unfolding registry_None_iff [OF good] registry_None_iff [OF assms(2)] by (simp add: db' table_simps)
        with None False show ?thesis by simp
      next
        case (Some p)
        from Some assms(2) obtain b x r where "b \<in> set (ad_bindings db)" "bi_owner b = w" "x \<in> set (ad_manifests db)"
          "mn_key x = bi_manifest b" "r \<in> set (ad_objects db)" "ob_key r = mn_object x"
          "p = \<lparr>pb_manifest = mn_json x, pb_ref = ob_ref r, pb_visibility = bi_visibility b,
      pb_visible_at = bi_visible_at b\<rparr>" by (rule registry_SomeE)
        then show ?thesis using registryI [OF good, of b x r] Some False by (auto simp: db')
      qed
    qed
  qed
qed

definition binding_of :: "artifact_owner \<Rightarrow> publication \<Rightarrow> owner_binding" where
  "binding_of w p = \<lparr>bd_owner = w, bd_manifest = pb_ref p, bd_visibility = pb_visibility p,
     bd_visible_at = pb_visible_at p, bd_available = (pb_visibility p = Visible)\<rparr>"

text \<open>The binding that a read constructs passes its validator.\<close>

lemma new_binding_of_row:
  assumes "authority_good db" and "bound_rows w db = Some (b, m, r)"
  shows "new_binding w (ob_ref r) (bi_visibility b) (bi_visible_at b) (bi_available b) = Inr (binding_of w (the (registry db w)))"
proof -
  note d = bound_rows_SomeD [OF assms(2)]
  from binding_rows [OF assms(1) d(1)] d(2) assms(2) have "ov_kind (ob_ref r) = Artifact_manifest" "ov_owner (ob_ref r) = w"
    by auto
  moreover have "binding_row_checks b" using authority_goodD(9) [OF assms(1) d(1)] by (simp add: binding_row_good_def)
  ultimately show ?thesis using assms(2)
    by (auto simp: new_binding_def artifact_binding_ok_def Let_def binding_row_checks_def registry_def binding_of_def)
qed

lemma commit_visible_manifest_cases:
  assumes "commit_visible_manifest m ref db = Inr (b, db')" and "authority_good db" and "manifest_ok m"
    and "object_version_ok ref"
  obtains (published) "registry db (mf_owner m) = None" "authority_good db'"
      "registry db' = (registry db)(mf_owner m \<mapsto> \<lparr>pb_manifest = m, pb_ref = ref, pb_visibility = Visible,
         pb_visible_at = Some (mf_created m)\<rparr>)"
      "b = binding_of (mf_owner m) \<lparr>pb_manifest = m, pb_ref = ref, pb_visibility = Visible, pb_visible_at = Some (mf_created m)\<rparr>"
  | (replayed) p where "db' = db" "registry db (mf_owner m) = Some p" "b = binding_of (mf_owner m) p"
      "uuid_key (mf_id (pb_manifest p)) = uuid_key (mf_id m)" "uuid_key (ov_id (pb_ref p)) = uuid_key (ov_id ref)"
proof -
  from assms(1) obtain mk ok where k: "uuid_key (mf_id m) = Some mk" "uuid_key (ov_id ref) = Some ok"
    and kind: "ov_kind ref = Artifact_manifest" "ov_owner ref = mf_owner m"
    by (auto simp: commit_visible_manifest_def artifact_uuid_def split: option.splits if_splits)
  show thesis
  proof (cases "binding_manifest (mf_owner m) db")
    case None
    then have none: "registry db (mf_owner m) = None" by (simp add: registry_def bound_rows_def)
    from assms(1) k kind None have "store_manifest m ref mk ok db = Inr db'"
      and b: "b = binding_of (mf_owner m) \<lparr>pb_manifest = m, pb_ref = ref, pb_visibility = Visible, pb_visible_at = Some (mf_created m)\<rparr>"
      by (auto simp: commit_visible_manifest_def artifact_uuid_def on_integrity_def new_binding_def Let_def artifact_binding_ok_def
          binding_of_def split: sum.splits)
    from store_manifest_good [OF this(1) assms(2-4) kind k] none b published show thesis by blast
  next
    case (Some bm)
    obtain x mn where bm: "bm = (x, mn)" by (cases bm)
    have x: "x \<in> set (ad_bindings db)" "bi_owner x = mf_owner m"
      using Some bm by (auto simp: binding_manifest_def split: option.splits dest!: lookup_row_SomeD)
    from binding_rows [OF assms(2) x(1)] x(2) obtain mn' r where rows: "bound_rows (mf_owner m) db = Some (x, mn', r)" by metis
    with Some bm have mn: "mn' = mn" by (auto simp: bound_rows_def)
    note d = bound_rows_SomeD [OF rows]
    have "uuid_key (mf_id (mn_json mn)) = Some (mn_key mn)" "uuid_key (ov_id (ob_ref r)) = Some (ob_key r)"
      using authority_goodD(8) [OF assms(2) d(3)] authority_goodD(10) [OF assms(2) d(5)] mn
      by (auto simp: manifest_row_good_def object_row_good_def)
    moreover have "bi_manifest x = mk" "mn_object mn = ok" "db' = db" "b = binding_of (mf_owner m) (the (registry db (mf_owner m)))"
      using assms(1) k kind Some bm rows new_binding_of_row [OF assms(2) rows]
      by (auto simp: commit_visible_manifest_def artifact_uuid_def on_integrity_def binding_in_connection_def
          split: sum.splits if_splits)
    ultimately show thesis using replayed rows k d mn by (simp add: registry_def)
  qed
qed

subsection \<open>Hiding\<close>

lemma hide_bindings_good:
  assumes "hide_bindings v t P db = (n, db')" and "authority_good db" and "v = Expired \<or> v = Corrupt"
  shows "authority_good db'" "registry_advances db db'" "registry db' w = None \<longleftrightarrow> registry db w = None"
    "ad_objects db' = ad_objects db" "ad_manifests db' = ad_manifests db" "ad_members db' = ad_members db"
    "\<And>b. b \<in> set (ad_bindings db') \<Longrightarrow> bi_visibility b = Visible \<Longrightarrow> b \<in> set (ad_bindings db) \<and> \<not> P b"
proof -
  let ?f = "\<lambda>b :: binding_row. b\<lparr>bi_visibility := v, bi_available := False, bi_updated := t\<rparr>"
  let ?Q = "\<lambda>b. P b \<and> bi_visibility b = Visible"
  from assms(1) have db': "db' = db\<lparr>ad_bindings := update_where ?Q ?f (ad_bindings db)\<rparr>"
    by (auto simp: hide_bindings_def Let_def)
  note inv = authority_goodD [OF assms(2)]
  show same: "ad_objects db' = ad_objects db" "ad_manifests db' = ad_manifests db" "ad_members db' = ad_members db"
    by (simp_all add: db')
  show vis: "b \<in> set (ad_bindings db) \<and> \<not> P b" if "b \<in> set (ad_bindings db')" "bi_visibility b = Visible" for b
    using that assms(3) by (auto simp: db' set_update_where)
  have "manifest_row_good db' m" if "m \<in> set (ad_manifests db)" for m
  proof -
    from inv(8) [OF that] obtain b where "b \<in> set (ad_bindings db)" "bi_owner b = mn_owner m" "bi_manifest b = mn_key m"
      by (auto simp: manifest_row_good_def)
    then have "(if ?Q b then ?f b else b) \<in> set (ad_bindings db')" "bi_owner (if ?Q b then ?f b else b) = mn_owner m"
      "bi_manifest (if ?Q b then ?f b else b) = mn_key m" by (auto simp: db' update_where_def)
    then show ?thesis using inv(8) [OF that] unfolding manifest_row_good_def same by blast
  qed
  moreover have "binding_row_good db' b" if "b \<in> set (ad_bindings db')" for b
    using that inv(9) assms(3) unfolding binding_row_good_def same
    by (auto simp: db' set_update_where binding_row_checks_def)
  moreover have "object_used db' r" if "r \<in> set (ad_objects db)" for r
    using inv(11) [OF that] by (simp add: object_used_def same)
  moreover have "keys_unique bi_owner (ad_bindings db')" "keys_unique bi_manifest (ad_bindings db')"
    using inv(5,6) by (simp_all add: db' keys_unique_update_where)
  ultimately show good: "authority_good db'" using assms(2) unfolding authority_good_def same by blast
  have "map bi_owner (ad_bindings db') = map bi_owner (ad_bindings db)" by (simp add: db' keys_update_where)
  then have keys: "bi_owner ` set (ad_bindings db') = bi_owner ` set (ad_bindings db)" by (metis set_map)
  show "registry db' w = None \<longleftrightarrow> registry db w = None"
    unfolding registry_None_iff [OF good] registry_None_iff [OF assms(2)] lookup_row_None_iff keys ..
  show "registry_advances db db'" unfolding registry_advances_def
  proof (intro allI impI)
    fix w p
    assume "registry db w = Some p"
    from this assms(2) obtain b m r where rows: "b \<in> set (ad_bindings db)" "bi_owner b = w" "m \<in> set (ad_manifests db)"
      "mn_key m = bi_manifest b" "r \<in> set (ad_objects db)" "ob_key r = mn_object m"
      "p = \<lparr>pb_manifest = mn_json m, pb_ref = ob_ref r, pb_visibility = bi_visibility b, pb_visible_at = bi_visible_at b\<rparr>"
      by (rule registry_SomeE)
    have "(if ?Q b then ?f b else b) \<in> set (ad_bindings db')" using rows(1) by (auto simp: db' update_where_def)
    then obtain b' where b': "b' \<in> set (ad_bindings db')" "bi_owner b' = w" "bi_manifest b' = bi_manifest b"
      "bi_visible_at b' = bi_visible_at b"
      "bi_visibility b' = bi_visibility b \<or> bi_visibility b = Visible \<and> bi_visibility b' = v"
      using rows(2) by (cases "?Q b") auto
    have "registry db' w = Some \<lparr>pb_manifest = mn_json m, pb_ref = ob_ref r, pb_visibility = bi_visibility b',
       pb_visible_at = bi_visible_at b'\<rparr>"
      using registryI [OF good b'(1), of m r] b'(2,3) rows(3-6) by (simp add: same)
    then show "\<exists>q. registry db' w = Some q \<and> hidden p q" using rows(7) b'(4,5) assms(3) by (auto simp: hidden_def)
  qed
qed

lemma manifests_of_objects_iff:
  "k \<in> set (manifests_of_objects P db) \<longleftrightarrow> (\<exists>m \<in> set (ad_manifests db). mn_key m = k \<and> P (mn_object m))
     \<or> (\<exists>x \<in> set (ad_members db). mb_manifest x = k \<and> P (mb_object x))"
  by (auto simp: manifests_of_objects_def image_iff)

text \<open>A corrupt object hides the binding of the bundle it belongs to in the same transaction.\<close>

lemma mark_corrupt_good:
  assumes "mark_corrupt v t db = Inr (n, db')" and "authority_good db"
  shows "authority_good db'" "registry_advances db db'" "registry db' w = None \<longleftrightarrow> registry db w = None"
proof -
  from assms(1) obtain k where k: "uuid_key (ov_id v) = Some k"
    by (auto simp: mark_corrupt_def artifact_uuid_def split: option.splits)
  define P where "P = (\<lambda>x :: object_row. ob_key x = k \<and> row_identity x = exact_identity v)"
  define f where "f = (\<lambda>x :: object_row. x\<lparr>ob_state := Object_corrupt, ob_corrupt_at := Some t\<rparr>)"
  define db1 where "db1 = db\<lparr>ad_objects := update_where P f (ad_objects db)\<rparr>"
  define H where "H = (\<lambda>b :: binding_row. bi_manifest b \<in> set (manifests_of_objects (\<lambda>x. x = k) db))"
  note inv = authority_goodD [OF assms(2)]
  have res: "if count_where P (ad_objects db) \<noteq> 1 then db' = db1 else hide_bindings Corrupt t H db1 = (n, db')"
    using assms(1) k by (auto simp: mark_corrupt_def artifact_uuid_def Let_def P_def f_def db1_def H_def split: if_splits)
  have "count_where P (ad_objects db) \<le> 1" unfolding P_def by (rule count_where_key_le) (rule inv(7))
  then consider "count_where P (ad_objects db) = 0" | "count_where P (ad_objects db) = 1" by linarith
  then have "authority_good db' \<and> registry_advances db db' \<and> (registry db' w = None \<longleftrightarrow> registry db w = None)"
  proof cases
    case 1
    then have "\<forall>x \<in> set (ad_objects db). \<not> P x" by (simp add: count_where_zero_iff)
    then have "update_where P f (ad_objects db) = ad_objects db" by (simp add: update_where_def map_idI)
    with 1 res have "db' = db" by (simp add: db1_def)
    with assms(2) show ?thesis by simp
  next
    case 2
    then have hide: "hide_bindings Corrupt t H db1 = (n, db')" using res by simp
    from 2 obtain r where r: "r \<in> set (ad_objects db)" "P r" by (rule count_where_eq1E)
    then have rk: "ob_key r = k" by (simp add: P_def)
    have only: "x = r" if "x \<in> set (ad_objects db)" "P x" for x
      using keys_unique_same [OF inv(7) that(1) r(1)] that(2) rk by (simp add: P_def)
    text \<open>The same bindings are hidden when the states of the objects change afterwards.\<close>
    obtain db2 where h2: "hide_bindings Corrupt t H db = (n, db2)" and eq: "db' = db2\<lparr>ad_objects := ad_objects db1\<rparr>"
      using hide by (auto simp: hide_bindings_def Let_def db1_def)
    note g2 = hide_bindings_good [OF h2 assms(2) disjI2 [OF refl]]
    note inv2 = authority_goodD [OF g2(1)]
    have H: "H b" if b: "b \<in> set (ad_bindings db)" "bi_owner b = ov_owner (ob_ref r)" for b
    proof -
      from inv(11) [OF r(1)] obtain m where m: "m \<in> set (ad_manifests db)" "mn_owner m = bi_owner b"
        "mn_object m = ob_key r \<or> (\<exists>x \<in> set (ad_members db). mb_manifest x = mn_key m \<and> mb_object x = ob_key r)"
        using b(2) by (auto simp: object_used_def)
      from inv(8) [OF m(1)] m(2) obtain b' where "b' \<in> set (ad_bindings db)" "bi_owner b' = bi_owner b" "bi_manifest b' = mn_key m"
        by (auto simp: manifest_row_good_def)
      with keys_unique_same [OF inv(5) _ b(1)] have "bi_manifest b = mn_key m" by metis
      moreover have "mn_key m \<in> set (manifests_of_objects (\<lambda>x. x = k) db)"
        using m(1,3) rk unfolding manifests_of_objects_iff by metis
      ultimately show ?thesis by (simp add: H_def)
    qed
    have f: "ob_key (f x) = ob_key x" "row_identity (f x) = row_identity x" "ob_ref (f x) = ob_ref x" "ob_expires (f x) = ob_expires x" for x
      by (simp_all add: f_def row_identity_def)
    have objs: "ad_objects db' = update_where P f (ad_objects db)" by (simp add: eq db1_def)
    have mem: "x \<in> set (ad_objects db') \<Longrightarrow> \<exists>y \<in> set (ad_objects db). ob_key x = ob_key y \<and> row_identity x = row_identity y
        \<and> ob_ref x = ob_ref y \<and> ob_expires x = ob_expires y \<and> (x = y \<or> y = r)" for x
      unfolding objs by (auto simp: set_update_where f dest: only)
    have mem2: "y \<in> set (ad_objects db) \<Longrightarrow> \<exists>x \<in> set (ad_objects db'). ob_key x = ob_key y \<and> ob_ref x = ob_ref y" for y
      unfolding objs using f(1,3) by (cases "P y") (metis mem_update_where_upd, metis mem_update_where_keep)
    have tables: "ad_manifests db' = ad_manifests db" "ad_members db' = ad_members db" "ad_bindings db' = ad_bindings db2"
      using g2 by (simp_all add: eq)
    have refs: "ob_ref ` set (ad_objects db') = ob_ref ` set (ad_objects db)"
      using mem mem2 by (auto simp: image_iff) metis+
    have "objects_good (ad_objects db')"
      using inv(1) mem unfolding objects_good_def objs
      by (simp add: keys_unique_update_where f) (metis (no_types, lifting) objs object_row_good_def)
    moreover have "manifest_row_good db' m" if "m \<in> set (ad_manifests db)" for m
      using inv2(8) [of m] that mem2 unfolding manifest_row_good_def refs tables g2(4-6) by (metis (no_types, lifting))
    moreover have "binding_row_good db' b" if "b \<in> set (ad_bindings db')" for b
    proof -
      have b: "binding_row_good db2 b" using inv2(9) that tables by simp
      have "ob_state x = Verified" if vis: "bi_visibility b = Visible" and x: "x \<in> set (ad_objects db')"
        "ov_owner (ob_ref x) = bi_owner b" for x
      proof -
        from mem [OF x(1)] obtain y where y: "y \<in> set (ad_objects db)" "ob_ref x = ob_ref y" "x = y \<or> y = r" by blast
        from g2(7) vis \<open>b \<in> set (ad_bindings db')\<close> tables have "b \<in> set (ad_bindings db)" "\<not> H b" by auto
        with H [of b] x(2) y have "x = y" by auto
        with b y vis x(2) g2(4) show ?thesis by (auto simp: binding_row_good_def)
      qed
      with b show ?thesis unfolding binding_row_good_def tables g2(5) by blast
    qed
    moreover have "object_used db' x" if "x \<in> set (ad_objects db')" for x
      using mem [OF that] inv(11) unfolding object_used_def tables by metis
    ultimately have good: "authority_good db'"
      using assms(2) g2(1) unfolding authority_good_def tables g2(4-6) by blast
    have same: "registry db' = registry db2"
    proof
      fix w
      show "registry db' w = registry db2 w"
      proof (cases "registry db2 w")
        case None
        then have "registry db' w = None" unfolding registry_None_iff [OF good] registry_None_iff [OF g2(1)] tables .
        with None show ?thesis by simp
      next
        case (Some p)
        from this g2(1) obtain b m x where rows: "b \<in> set (ad_bindings db2)" "bi_owner b = w" "m \<in> set (ad_manifests db2)"
          "mn_key m = bi_manifest b" "x \<in> set (ad_objects db2)" "ob_key x = mn_object m"
          "p = \<lparr>pb_manifest = mn_json m, pb_ref = ob_ref x, pb_visibility = bi_visibility b, pb_visible_at = bi_visible_at b\<rparr>"
          by (rule registry_SomeE)
        from mem2 rows(5) g2(4) obtain x' where "x' \<in> set (ad_objects db')" "ob_key x' = ob_key x" "ob_ref x' = ob_ref x" by auto
        with registryI [OF good, of b m x'] rows Some show ?thesis by (simp add: tables g2(5))
      qed
    qed
    from good g2(2,3) show ?thesis unfolding registry_advances_def same by blast
  qed
  then show "authority_good db'" "registry_advances db db'" "registry db' w = None \<longleftrightarrow> registry db w = None" by blast+
qed

lemma expire_due_good:
  assumes "expire_due c db = Inr (n, db')" and "authority_good db"
  shows "authority_good db'" "registry_advances db db'" "registry db' w = None \<longleftrightarrow> registry db w = None"
proof -
  from assms(1) obtain t P where "hide_bindings Expired t P db = (n, db')"
    by (cases c) (auto simp: expire_due_def)
  note g = hide_bindings_good [OF this assms(2) disjI1 [OF refl]]
  show "authority_good db'" "registry_advances db db'" "registry db' w = None \<longleftrightarrow> registry db w = None" by (fact g(1,2,3))+
qed

lemma expire_due_expires:
  assumes "expire_due (Aware t) db = Inr (n, db')" and "authority_good db" and "registry db' w = Some p"
    and "pb_visibility p = Visible" and "v \<in> set (publication_refs p)"
  shows "\<not> version_expired t v"
proof
  assume exp: "version_expired t v"
  define P where "P = (\<lambda>k. case lookup_row ob_key k (ad_objects db) of None \<Rightarrow> False | Some r \<Rightarrow> object_expired t r)"
  from assms(1) have "hide_bindings Expired t (\<lambda>b. bi_manifest b \<in> set (manifests_of_objects P db)) db = (n, db')"
    by (simp add: expire_due_def P_def)
  note g = hide_bindings_good [OF this assms(2) disjI1 [OF refl]]
  note inv = authority_goodD [OF assms(2)]
  from assms(3) g(1) obtain b m r where rows: "b \<in> set (ad_bindings db')" "bi_owner b = w" "m \<in> set (ad_manifests db')"
    "mn_key m = bi_manifest b" "r \<in> set (ad_objects db')" "ob_key r = mn_object m"
    "p = \<lparr>pb_manifest = mn_json m, pb_ref = ob_ref r, pb_visibility = bi_visibility b, pb_visible_at = bi_visible_at b\<rparr>"
    by (rule registry_SomeE)
  have P: "P (ob_key x)" if "x \<in> set (ad_objects db)" "ob_ref x = v" for x
    using lookup_row_unique [OF inv(7) that(1)] inv(10) [OF that(1)] that(2) exp
    by (simp add: P_def object_row_good_def object_expired_def version_expired_def)
  have "bi_manifest b \<notin> set (manifests_of_objects P db)" using g(7) [OF rows(1)] rows(7) assms(4) by simp
  then have no: "\<not> P (mn_object m)" "\<And>x. x \<in> set (ad_members db) \<Longrightarrow> mb_manifest x = mn_key m \<Longrightarrow> \<not> P (mb_object x)"
    using rows(3,4) unfolding manifests_of_objects_iff g(5) by auto
  show False
  proof (cases "v = ob_ref r")
    case True
    then show False using P [of r] rows(5,6) no(1) g(4) by simp
  next
    case False
    then obtain i where i: "(i, v) \<in> set (mf_members (mn_json m))" using assms(5) rows(7) by (auto simp: publication_refs_def)
    have mg: "manifest_row_good db m" using inv(8) rows(3) g(5) by simp
    then have "v \<in> ob_ref ` set (ad_objects db)" using i by (auto simp: manifest_row_good_def)
    from uuid_of_row [OF inv(1) this] obtain x where x: "x \<in> set (ad_objects db)" "ob_ref x = v" "uuid_key (ov_id v) = Some (ob_key x)" .
    have "\<lparr>mb_manifest = mn_key m, mb_member = i, mb_object = ob_key x\<rparr> \<in> set (member_rows (mn_key m) (mn_json m))"
      unfolding member_rows_def set_map by (rule image_eqI [OF _ i]) (simp add: x(3))
    then have "\<lparr>mb_manifest = mn_key m, mb_member = i, mb_object = ob_key x\<rparr> \<in> set (ad_members db)"
      using mg unfolding manifest_row_good_def by (metis (no_types, lifting) filter_is_subset subsetD)
    from no(2) [OF this] P [OF x(1,2)] show False by simp
  qed
qed

subsection \<open>Reads\<close>

text \<open>The query on the tables sees exactly the publications that are visible and unexpired.\<close>

lemma row_visible_iff:
  assumes "authority_good db" and "bound_rows w db = Some (b, m, r)"
  shows "row_visible t db b r \<longleftrightarrow> readable t (the (registry db w))"
proof -
  note inv = authority_goodD [OF assms(1)]
  note d = bound_rows_SomeD [OF assms(2)]
  from binding_rows [OF assms(1) d(1)] d(2) assms(2) have own: "mn_owner m = w" "ov_owner (ob_ref r) = w" by auto
  have bg: "binding_row_good db b" by (rule inv(9) [OF d(1)])
  have mg: "manifest_row_good db m" by (rule inv(8) [OF d(3)])
  have reg: "the (registry db w) = \<lparr>pb_manifest = mn_json m, pb_ref = ob_ref r, pb_visibility = bi_visibility b,
      pb_visible_at = bi_visible_at b\<rparr>" using assms(2) by (simp add: registry_def)
  have exp: "object_expired t x \<longleftrightarrow> version_expired t (ob_ref x)" if "x \<in> set (ad_objects db)" for x
    using inv(10) [OF that] by (simp add: object_row_good_def object_expired_def version_expired_def)
  have avail: "bi_visibility b = Visible \<Longrightarrow> bi_available b"
    using bg by (auto simp: binding_row_good_def binding_row_checks_def)
  have verified: "ob_state x = Verified" if "bi_visibility b = Visible" "x \<in> set (ad_objects db)" "ov_owner (ob_ref x) = w" for x
    using bg that d(2) by (simp add: binding_row_good_def)
  have members: "filter (\<lambda>x. mb_manifest x = bi_manifest b) (ad_members db) = member_rows (mn_key m) (mn_json m)"
    using mg d(4) by (simp add: manifest_row_good_def)
  have look: "\<exists>x \<in> set (ad_objects db). lookup_row ob_key (the (uuid_key (ov_id v))) (ad_objects db) = Some x \<and> ob_ref x = v
      \<and> ov_owner v = w" if "(i, v) \<in> set (mf_members (mn_json m))" for i v
  proof -
    have "v \<in> ob_ref ` set (ad_objects db)" using mg that by (auto simp: manifest_row_good_def)
    from uuid_of_row [OF inv(1) this] obtain x where "x \<in> set (ad_objects db)" "ob_ref x = v" "uuid_key (ov_id v) = Some (ob_key x)" .
    moreover have "manifest_ok (mn_json m)" "mf_owner (mn_json m) = w" using mg own by (auto simp: manifest_row_good_def)
    ultimately show ?thesis using lookup_row_unique [OF inv(7)] manifest_okD(5) that by force
  qed
  have "invalid_member t (bi_manifest b) db \<longleftrightarrow> (\<exists>x \<in> set (filter (\<lambda>x. mb_manifest x = bi_manifest b) (ad_members db)).
      case lookup_row ob_key (mb_object x) (ad_objects db) of None \<Rightarrow> False
        | Some r \<Rightarrow> ob_state r \<noteq> Verified \<or> object_expired t r)"
    by (auto simp: invalid_member_def list_ex_iff)
  also have "\<dots> \<longleftrightarrow> (\<exists>(i, v) \<in> set (mf_members (mn_json m)).
      case lookup_row ob_key (the (uuid_key (ov_id v))) (ad_objects db) of None \<Rightarrow> False
        | Some r \<Rightarrow> ob_state r \<noteq> Verified \<or> object_expired t r)"
    unfolding members member_rows_def by (force simp: split_beta)
  finally have inval: "invalid_member t (bi_manifest b) db \<longleftrightarrow> \<dots>" .
  have each: "(case lookup_row ob_key (the (uuid_key (ov_id v))) (ad_objects db) of None \<Rightarrow> False
      | Some r \<Rightarrow> ob_state r \<noteq> Verified \<or> object_expired t r) \<longleftrightarrow> version_expired t v"
    if vis: "bi_visibility b = Visible" and v: "(i, v) \<in> set (mf_members (mn_json m))" for i v
  proof -
    from look [OF v] obtain x where x: "x \<in> set (ad_objects db)"
      "lookup_row ob_key (the (uuid_key (ov_id v))) (ad_objects db) = Some x" "ob_ref x = v" "ov_owner v = w" by blast
    with exp [OF x(1)] verified [OF vis x(1)] show ?thesis by simp
  qed
  have "\<not> invalid_member t (bi_manifest b) db \<longleftrightarrow> (\<forall>v \<in> snd ` set (mf_members (mn_json m)). \<not> version_expired t v)"
    if vis: "bi_visibility b = Visible"
  proof -
    have "invalid_member t (bi_manifest b) db \<longleftrightarrow> (\<exists>x \<in> set (mf_members (mn_json m)). version_expired t (snd x))"
      unfolding inval
    proof (rule bex_cong [OF refl])
      fix x
      assume x: "x \<in> set (mf_members (mn_json m))"
      obtain i v where "x = (i, v)" by (cases x)
      with each [OF vis, of i v] x show "(case x of (i, v) \<Rightarrow> (case lookup_row ob_key (the (uuid_key (ov_id v))) (ad_objects db) of
          None \<Rightarrow> False | Some r \<Rightarrow> ob_state r \<noteq> Verified \<or> object_expired t r)) \<longleftrightarrow> version_expired t (snd x)" by simp
    qed
    then show ?thesis by auto
  qed
  then show ?thesis unfolding reg row_visible_def readable_def publication_refs_def
    using avail verified [OF _ d(5)] own exp [OF d(5)] by auto
qed

lemma get_visible_binding_registry:
  assumes "authority_good db"
  shows "get_visible_binding w (Aware t) db = Inr (case registry db w of None \<Rightarrow> None
    | Some p \<Rightarrow> if readable t p then Some (binding_of w p) else None)"
proof (cases "bound_rows w db")
  case None
  then show ?thesis by (simp add: get_visible_binding_def binding_in_connection_def registry_def)
next
  case (Some x)
  obtain b m r where x: "x = (b, m, r)" by (cases x)
  note rows = Some [unfolded x]
  from rows have "registry db w \<noteq> None" by (simp add: registry_def)
  then show ?thesis using row_visible_iff [OF assms rows, of t] new_binding_of_row [OF assms rows]
    by (auto simp: get_visible_binding_def binding_in_connection_def rows)
qed

subsection \<open>Referenced versions\<close>

lemma contains_exact_iff: "contains_exact v db \<longleftrightarrow> exact_identity v \<in> row_identity ` set (ad_objects db)"
  by (simp add: contains_exact_def lookup_row_None_iff)

text \<open>Every object of a publication is referenced.\<close>

lemma publication_contained:
  assumes "authority_good db" and "registry db w = Some p" and "v \<in> set (publication_refs p)"
  shows "contains_exact v db"
proof -
  obtain b m r where rows: "b \<in> set (ad_bindings db)" "m \<in> set (ad_manifests db)" "r \<in> set (ad_objects db)"
    "p = \<lparr>pb_manifest = mn_json m, pb_ref = ob_ref r, pb_visibility = bi_visibility b, pb_visible_at = bi_visible_at b\<rparr>"
    using assms(2,1) by (rule registry_SomeE)
  have "manifest_row_good db m" by (rule authority_goodD(8) [OF assms(1) rows(2)])
  then have "v \<in> ob_ref ` set (ad_objects db)" using assms(3) rows(3,4)
    by (auto simp: publication_refs_def manifest_row_good_def)
  then show ?thesis using authority_goodD(10) [OF assms(1)] unfolding contains_exact_iff object_row_good_def
    by (metis (no_types, lifting) image_iff)
qed

lemma on_integrity_Inr [simp]: "on_integrity e r = Inr a \<longleftrightarrow> r = Inr a"
  by (simp add: on_integrity_def split: sum.split)

lemma commit_stores:
  assumes "commit_visible_manifest m ref db = Inr (b, db')"
  obtains "db' = db" | mk ok where "store_manifest m ref mk ok db = Inr db'"
proof (cases "binding_manifest (mf_owner m) db")
  case None
  then show thesis using assms that
    by (auto simp: commit_visible_manifest_def split: if_splits)
next
  case (Some x)
  obtain bi mn where "x = (bi, mn)" by (cases x)
  with Some have "db' = db" using assms
    by (auto simp: commit_visible_manifest_def split: if_splits prod.splits option.splits)
  then show thesis by (rule that(1))
qed

lemma commit_contains:
  assumes "commit_visible_manifest m ref db = Inr (b, db')" and "authority_good db" and "manifest_ok m"
    and "object_version_ok ref" and "contains_exact v db"
  shows "contains_exact v db'"
  using assms(1)
proof (cases rule: commit_stores)
  case 1
  with assms(5) show ?thesis by simp
next
  case (2 mk ok)
  from store_manifestE [OF 2 assms(2-4)] obtain new where "ad_objects db' = ad_objects db @ new"
    by (metis artifact_db.select_convs(1))
  with assms(5) show ?thesis by (auto simp: contains_exact_iff)
qed

lemma hide_bindings_contains: "hide_bindings x t P db = (n, db') \<Longrightarrow> contains_exact v db' \<longleftrightarrow> contains_exact v db"
  by (auto simp: hide_bindings_def Let_def contains_exact_def)

lemma mark_corrupt_contains:
  assumes "mark_corrupt r t db = Inr (n, db')"
  shows "contains_exact v db' \<longleftrightarrow> contains_exact v db"
proof -
  obtain k where k: "uuid_key (ov_id r) = Some k"
    using assms by (auto simp: mark_corrupt_def artifact_uuid_def split: option.splits)
  define db1 where "db1 = db\<lparr>ad_objects := update_where (\<lambda>x. ob_key x = k \<and> row_identity x = exact_identity r)
    (\<lambda>x. x\<lparr>ob_state := Object_corrupt, ob_corrupt_at := Some t\<rparr>) (ad_objects db)\<rparr>"
  have "map row_identity (ad_objects db1) = map row_identity (ad_objects db)"
    by (simp add: db1_def keys_update_where row_identity_def)
  then have 1: "contains_exact v db1 \<longleftrightarrow> contains_exact v db" unfolding contains_exact_iff by (metis set_map)
  have "db' = db1 \<or> (\<exists>P. hide_bindings Corrupt t P db1 = (n, db'))"
    using assms k by (auto simp: mark_corrupt_def artifact_uuid_def Let_def db1_def split: if_splits)
  then show ?thesis using 1 hide_bindings_contains by blast
qed

lemma expire_due_contains: "expire_due c db = Inr (n, db') \<Longrightarrow> contains_exact v db' \<longleftrightarrow> contains_exact v db"
  by (cases c) (auto simp: expire_due_def hide_bindings_contains)

text \<open>What a successful commit advances.\<close>

lemma commit_good:
  assumes "commit_visible_manifest m ref db = Inr (b, db')" and "authority_good db" and "manifest_ok m" and "object_version_ok ref"
  shows "authority_good db'" "registry_advances db db'"
proof -
  from commit_visible_manifest_cases [OF assms] have "authority_good db' \<and> registry_advances db db'"
    by cases (auto simp: registry_advances_def assms(2))
  then show "authority_good db'" "registry_advances db db'" by simp_all
qed

end
