(* ===== verification/Artifact_Store.thy ===== *)
theory Artifact_Store
  imports Artifact_Contracts
begin

text \<open>
  The exact object store of \<open>capabilities/artifacts/filesystem.py\<close>, and the contract its clients rely on.
  A store is the list of its regular files; a file is found by the components of its path. Every
  system call that can fail halfway is a fault the environment may choose, and a failed call leaves
  behind what the code leaves behind.
\<close>

subsection \<open>Paths\<close>

fun split_path :: "string \<Rightarrow> string \<Rightarrow> string list" where
  "split_path acc [] = [rev acc]"
| "split_path acc (c # s) = (if c = CHR ''/'' then rev acc # split_path [] s else split_path (c # acc) s)"

text \<open>\<open>Path.resolve()\<close> below a root without symbolic links.\<close>

fun resolve_path :: "string list \<Rightarrow> string list \<Rightarrow> string list" where
  "resolve_path p [] = p"
| "resolve_path p (x # xs) =
     (if x = [] \<or> x = ''.'' then resolve_path p xs
      else if x = ''..'' then resolve_path (butlast p) xs
      else resolve_path (p @ [x]) xs)"

definition safe_path :: "string list \<Rightarrow> string \<Rightarrow> artifact_error + string list" where
  "safe_path dir key =
     (let p = resolve_path (if take 1 key = ''/'' then [] else dir) (split_path [] key);
          base = dir @ [''objects'']
      in if take (length base) p = base then Inr p
         else Inl (Artifact_store_error ''artifact key escaped the store root''))"

definition metadata_path :: "string list \<Rightarrow> string \<Rightarrow> artifact_error + string list" where
  "metadata_path dir i =
     (if i = [] \<or> CHR ''/'' \<in> set i \<or> CHR 0x5C \<in> set i
      then Inl (Artifact_store_error ''artifact object identity is invalid'')
      else Inr (dir @ [''metadata'', i @ ''.json'']))"

definition new_object_key :: "string \<Rightarrow> string" where
  "new_object_key u = ''objects/'' @ take 2 u @ ''/'' @ u"

subsection \<open>Files\<close>

record disk_file =
  fi_path :: "string list"
  fi_bytes :: bytes

type_synonym file_store = "disk_file list"

definition read_file :: "string list \<Rightarrow> file_store \<Rightarrow> bytes option" where
  "read_file p s = map_option fi_bytes (lookup_row fi_path p s)"

definition create_file :: "string list \<Rightarrow> bytes \<Rightarrow> file_store \<Rightarrow> file_store" where
  "create_file p b s = s @ [\<lparr>fi_path = p, fi_bytes = b\<rparr>]"

definition unlink_file :: "string list \<Rightarrow> file_store \<Rightarrow> file_store" where
  "unlink_file p s = delete_where (\<lambda>f. fi_path f = p) s"

lemma read_unlink: "read_file q (unlink_file p s) = (if q = p then None else read_file q s)"
  by (induction s) (auto simp: read_file_def unlink_file_def delete_where_def lookup_row_def)

lemma read_create: "read_file q (create_file p b s) = (case read_file q s of None \<Rightarrow> if q = p then Some b else None | Some x \<Rightarrow> Some x)"
  by (simp add: read_file_def create_file_def table_simps split: option.splits)

subsection \<open>Operations\<close>

text \<open>
  What may go wrong in a put apart from the checks of the code: writing or linking the temporary file
  fails, or writing the metadata file fails after a part of it.
\<close>

datatype put_fault = No_fault | Object_fault | Metadata_fault nat

record put_draw =
  pd_object :: string
  pd_version :: string
  pd_now :: instant
  pd_fault :: put_fault

definition unavailable :: artifact_error where
  "unavailable = Artifact_store_error ''exact artifact version is unavailable''"

definition read_metadata :: "artifact_codec \<Rightarrow> string list \<Rightarrow> string \<Rightarrow> file_store \<Rightarrow> artifact_error + object_version" where
  "read_metadata C dir i s = rbind (metadata_path dir i) (\<lambda>p.
     case read_file p s of
       None \<Rightarrow> Inl unavailable
     | Some b \<Rightarrow> (case ac_load C b of None \<Rightarrow> Inl (Artifact_store_error ''artifact metadata is corrupt'') | Some r \<Rightarrow> Inr r))"

definition fs_head :: "artifact_codec \<Rightarrow> string list \<Rightarrow> object_version \<Rightarrow> file_store \<Rightarrow> artifact_error + object_version" where
  "fs_head C dir r s = rbind (read_metadata C dir (ov_id r) s) (\<lambda>x.
     if x \<noteq> r then Inl unavailable
     else rbind (safe_path dir (ov_key r)) (\<lambda>p. if read_file p s = None then Inl unavailable else Inr x))"

definition fs_open :: "artifact_codec \<Rightarrow> string list \<Rightarrow> object_version \<Rightarrow> file_store \<Rightarrow> artifact_error + bytes" where
  "fs_open C dir r s = rbind (fs_head C dir r s) (\<lambda>_.
     rbind (safe_path dir (ov_key r)) (\<lambda>p.
     case read_file p s of
       None \<Rightarrow> Inl unavailable
     | Some b \<Rightarrow>
         if len b \<noteq> ov_size r then Inl (Artifact_store_error ''exact artifact length does not match'')
         else if ac_sha C b \<noteq> ov_sha r then Inl (Artifact_store_error ''exact artifact digest does not match'')
         else Inr b))"

definition write_metadata ::
  "artifact_codec \<Rightarrow> put_fault \<Rightarrow> string list \<Rightarrow> object_version \<Rightarrow> file_store \<Rightarrow> (artifact_error + unit) \<times> file_store" where
  "write_metadata C fault p r s =
     (if read_file p s \<noteq> None then (Inl (Artifact_store_error ''artifact metadata identity collided''), s)
      else case fault of
        Metadata_fault n \<Rightarrow> (Inl Artifact_io_error, create_file p (take n (ac_dump C r)) s)
      | _ \<Rightarrow> (Inr (), create_file p (ac_dump C r) s))"

definition put_version :: "put_request \<Rightarrow> put_draw \<Rightarrow> object_version" where
  "put_version q d = \<lparr>ov_id = pd_object d, ov_bucket = ''local-artifacts'', ov_key = new_object_key (pd_object d),
     ov_version = pd_version d, ov_sha = pq_sha q, ov_size = pq_size q, ov_kind = pq_kind q, ov_owner = pq_owner q,
     ov_content_type = pq_content_type q, ov_created = pd_now d, ov_expires = pq_expires q, ov_filename = pq_filename q\<rparr>"

text \<open>From the link of the temporary file to the final head, with the removal of the object when the metadata fails.\<close>

definition fs_link ::
  "artifact_codec \<Rightarrow> string list \<Rightarrow> object_version \<Rightarrow> bytes \<Rightarrow> put_fault \<Rightarrow> string list \<Rightarrow> file_store
     \<Rightarrow> (artifact_error + object_version) \<times> file_store" where
  "fs_link C dir r content fault p s =
     (if fault = Object_fault then (Inl Artifact_io_error, s)
      else if read_file p s \<noteq> None then (Inl (Artifact_store_error ''system-generated artifact key collided''), s)
      else let s1 = create_file p content s
      in if \<not> object_version_ok r then (Inl Artifact_validation_error, s1)
      else case metadata_path dir (ov_id r) of
        Inl e \<Rightarrow> (Inl e, s1)
      | Inr mp \<Rightarrow> (case write_metadata C fault mp r s1 of
          (Inl e, s2) \<Rightarrow> (Inl e, unlink_file p s2)
        | (Inr _, s2) \<Rightarrow> (fs_head C dir r s2, s2)))"

definition fs_put ::
  "artifact_codec \<Rightarrow> string list \<Rightarrow> put_request \<Rightarrow> bytes \<Rightarrow> put_draw \<Rightarrow> file_store
     \<Rightarrow> (artifact_error + object_version) \<times> file_store" where
  "fs_put C dir q body d s =
     (let content = take (nat (pq_size q + 1)) body
      in if len content \<noteq> pq_size q then (Inl (Artifact_store_error ''artifact body length does not match put request''), s)
      else if ac_sha C content \<noteq> pq_sha q then (Inl (Artifact_store_error ''artifact body digest does not match put request''), s)
      else case safe_path dir (new_object_key (pd_object d)) of
        Inl e \<Rightarrow> (Inl e, s)
      | Inr p \<Rightarrow> fs_link C dir (put_version q d) content (pd_fault d) p s)"

definition fs_delete :: "artifact_codec \<Rightarrow> string list \<Rightarrow> object_version \<Rightarrow> file_store \<Rightarrow> artifact_error + file_store" where
  "fs_delete C dir r s =
     rbind (fs_head C dir r s) (\<lambda>_. rbind (safe_path dir (ov_key r)) (\<lambda>p. rbind (metadata_path dir (ov_id r)) (\<lambda>mp.
     Inr (unlink_file mp (unlink_file p s)))))"

definition metadata_files :: "string list \<Rightarrow> file_store \<Rightarrow> disk_file list" where
  "metadata_files dir s = filter (\<lambda>f. length (fi_path f) = length dir + 2 \<and> take (length dir + 1) (fi_path f) = dir @ [''metadata'']
     \<and> suffix ''.json'' (last (fi_path f))) s"

fun load_all :: "artifact_codec \<Rightarrow> disk_file list \<Rightarrow> artifact_error + object_version list" where
  "load_all C [] = Inr []"
| "load_all C (f # fs) = (case ac_load C (fi_bytes f) of
     None \<Rightarrow> Inl (Artifact_store_error ''artifact metadata is corrupt'')
   | Some r \<Rightarrow> rbind (load_all C fs) (\<lambda>rs. Inr (r # rs)))"

definition fs_versions_before ::
  "artifact_codec \<Rightarrow> string list \<Rightarrow> string \<Rightarrow> clock \<Rightarrow> file_store \<Rightarrow> artifact_error + object_version list" where
  "fs_versions_before C dir key_prefix before s = (case before of
     Naive \<Rightarrow> Inl (Artifact_value_error ''filesystem artifact iteration requires objects/ and aware time'')
   | Aware t \<Rightarrow>
       if key_prefix \<noteq> ''objects/'' then Inl (Artifact_value_error ''filesystem artifact iteration requires objects/ and aware time'')
       else rbind (load_all C (metadata_files dir s)) (\<lambda>rs.
         Inr (sort_key ov_created (sort_key ov_id (filter (\<lambda>r. ov_created r < t) rs)))))"

subsection \<open>The contract of an exact store\<close>

definition ref_for :: "put_request \<Rightarrow> object_version \<Rightarrow> bool" where
  "ref_for q r \<longleftrightarrow> ov_kind r = pq_kind q \<and> ov_owner r = pq_owner q \<and> ov_sha r = pq_sha q \<and> ov_size r = pq_size q
     \<and> ov_content_type r = pq_content_type q \<and> ov_expires r = pq_expires q \<and> ov_filename r = pq_filename q"

text \<open>
  \<open>contracts/ports/artifacts.py\<close>: what is put under a request can be read back exactly, and what an
  exact read returns has the length and the digest of the reference. A read does not change the store.
\<close>

locale exact_store =
  fixes sha :: "bytes \<Rightarrow> string"
    and put :: "put_request \<Rightarrow> bytes \<Rightarrow> 'd \<Rightarrow> 's \<Rightarrow> (artifact_error + object_version) \<times> 's"
    and head :: "object_version \<Rightarrow> 's \<Rightarrow> artifact_error + object_version"
    and exact :: "object_version \<Rightarrow> 's \<Rightarrow> artifact_error + bytes"
  assumes put_head: "put q body d s = (Inr r, s') \<Longrightarrow> head r s' = Inr r"
    and put_exact: "put q body d s = (Inr r, s') \<Longrightarrow> exact r s' = Inr (take (nat (pq_size q + 1)) body)"
    and put_for: "put q body d s = (Inr r, s') \<Longrightarrow> ref_for q r"
    and put_valid: "put q body d s = (Inr r, s') \<Longrightarrow> put_request_ok q \<Longrightarrow> object_version_ok r"
    and exact_head: "exact r s = Inr c \<Longrightarrow> head r s = Inr r"
    and exact_size: "exact r s = Inr c \<Longrightarrow> len c = ov_size r"
    and exact_sha: "exact r s = Inr c \<Longrightarrow> sha c = ov_sha r"
begin

definition available :: "object_version \<Rightarrow> bytes \<Rightarrow> 's \<Rightarrow> bool" where
  "available r c s \<longleftrightarrow> exact r s = Inr c"

lemma put_available:
  assumes "put q body d s = (Inr r, s')"
  shows "available r (take (nat (pq_size q + 1)) body) s'" "head r s' = Inr r"
  using put_exact [OF assms] put_head [OF assms] by (simp_all add: available_def)

lemma available_unique: "available r c s \<Longrightarrow> available r c' s \<Longrightarrow> c = c'"
  by (simp add: available_def)

text \<open>Two contents under one reference have the same length and digest, also at different times.\<close>

lemma available_digest: "available r c s \<Longrightarrow> available r c' s' \<Longrightarrow> sha c = sha c' \<and> len c = len c'"
  using exact_sha exact_size by (simp add: available_def)

end

text \<open>A store that other puts and deletes do not disturb.\<close>

locale durable_store = exact_store sha put head exact
  for sha :: "bytes \<Rightarrow> string"
    and put :: "put_request \<Rightarrow> bytes \<Rightarrow> 'd \<Rightarrow> 's \<Rightarrow> (artifact_error + object_version) \<times> 's"
    and head :: "object_version \<Rightarrow> 's \<Rightarrow> artifact_error + object_version"
    and exact :: "object_version \<Rightarrow> 's \<Rightarrow> artifact_error + bytes" +
  fixes good :: "'s \<Rightarrow> bool" and draw_ok :: "'d \<Rightarrow> bool" and drawn_at :: "'d \<Rightarrow> instant"
    and delete :: "object_version \<Rightarrow> 's \<Rightarrow> artifact_error + 's"
  assumes put_good: "good s \<Longrightarrow> draw_ok d \<Longrightarrow> put q body d s = (x, s') \<Longrightarrow> good s'"
    and put_keeps: "put q body d s = (x, s') \<Longrightarrow> exact r s = Inr c \<Longrightarrow> exact r s' = Inr c"
    and put_created: "put q body d s = (Inr r, s') \<Longrightarrow> ov_created r = drawn_at d"
    and delete_good: "good s \<Longrightarrow> delete r s = Inr s' \<Longrightarrow> good s'"
    and delete_keeps: "good s \<Longrightarrow> delete r s = Inr s' \<Longrightarrow> exact r' s = Inr c \<Longrightarrow> r' \<noteq> r \<Longrightarrow> exact r' s' = Inr c"
    and delete_deletes: "delete r s = Inr s' \<Longrightarrow> \<exists>e. head r s' = Inl e"
    and good_identity: "good s \<Longrightarrow> exact r s = Inr c \<Longrightarrow> exact r' s = Inr c' \<Longrightarrow> exact_identity r = exact_identity r' \<Longrightarrow> r = r'"

subsection \<open>The file system keeps the contract\<close>

lemma fs_headE:
  assumes "fs_head C dir r s = Inr x"
  obtains mp p b c where "x = r" "metadata_path dir (ov_id r) = Inr mp" "read_file mp s = Some b" "ac_load C b = Some r"
    "safe_path dir (ov_key r) = Inr p" "read_file p s = Some c"
  using assms by (auto simp: fs_head_def read_metadata_def split: option.splits if_splits)

lemma fs_head_iff:
  "fs_head C dir r s = Inr r \<longleftrightarrow> (\<exists>mp p b c. metadata_path dir (ov_id r) = Inr mp \<and> read_file mp s = Some b
     \<and> ac_load C b = Some r \<and> safe_path dir (ov_key r) = Inr p \<and> read_file p s = Some c)"
  by (auto simp: fs_head_def read_metadata_def split: option.splits if_splits) blast

lemma fs_head_same: "fs_head C dir r s = Inr x \<Longrightarrow> x = r"
  by (erule fs_headE) simp

lemma fs_open_iff:
  "fs_open C dir r s = Inr c \<longleftrightarrow> fs_head C dir r s = Inr r
     \<and> (\<exists>p. safe_path dir (ov_key r) = Inr p \<and> read_file p s = Some c) \<and> len c = ov_size r \<and> ac_sha C c = ov_sha r"
  by (auto simp: fs_open_def split: option.splits if_splits dest: fs_head_same)

text \<open>Reading depends on two files only.\<close>

lemma fs_open_keeps:
  assumes "fs_open C dir r s = Inr c"
    and "\<And>p b. metadata_path dir (ov_id r) = Inr p \<or> safe_path dir (ov_key r) = Inr p \<Longrightarrow>
           read_file p s = Some b \<Longrightarrow> read_file p s' = Some b"
  shows "fs_open C dir r s' = Inr c"
  using assms unfolding fs_open_iff fs_head_iff by metis

text \<open>How far a link gets.\<close>

lemma fs_link_cases:
  assumes "fs_link C dir r c fault p s = (x, s')"
  obtains (refused) e where "x = Inl e" "s' = s"
  | (invalid) e where "x = Inl e" "read_file p s = None" "s' = create_file p c s" "\<not> object_version_ok r \<or> metadata_path dir (ov_id r) = Inl e"
  | (removed) e mp s2 where "x = Inl e" "read_file p s = None" "object_version_ok r" "metadata_path dir (ov_id r) = Inr mp"
      "write_metadata C fault mp r (create_file p c s) = (Inl e, s2)" "s' = unlink_file p s2"
  | (stored) mp where "x = fs_head C dir r s'" "read_file p s = None" "object_version_ok r" "metadata_path dir (ov_id r) = Inr mp"
      "read_file mp (create_file p c s) = None" "s' = create_file mp (ac_dump C r) (create_file p c s)"
proof (cases "fault = Object_fault \<or> read_file p s \<noteq> None")
  case True
  then show thesis using assms refused by (auto simp: fs_link_def split: if_splits)
next
  case go: False
  then have p: "read_file p s = None" by simp
  show thesis
  proof (cases "object_version_ok r")
    case False
    then show thesis using assms p go invalid by (auto simp: fs_link_def Let_def)
  next
    case ok: True
    show thesis
    proof (cases "metadata_path dir (ov_id r)")
      case (Inl e)
      then show thesis using assms p go ok invalid by (auto simp: fs_link_def Let_def)
    next
      case (Inr mp)
      obtain y s2 where w: "write_metadata C fault mp r (create_file p c s) = (y, s2)" by fastforce
      show thesis
      proof (cases y)
        case (Inl e)
        then show thesis using assms p go ok Inr w removed [of e mp s2] by (simp add: fs_link_def Let_def)
      next
        case y: (Inr u)
        have m: "read_file mp (create_file p c s) = None" "s2 = create_file mp (ac_dump C r) (create_file p c s)"
          using w y by (auto simp: write_metadata_def split: if_splits put_fault.splits)
        have "x = fs_head C dir r s2 \<and> s' = s2" using assms p go ok Inr w y by (auto simp: fs_link_def Let_def)
        then have "x = fs_head C dir r s'" "s' = create_file mp (ac_dump C r) (create_file p c s)" using m(2) by blast+
        with stored p ok Inr m(1) show thesis by blast
      qed
    qed
  qed
qed

lemma fs_put_link:
  assumes "fs_put C dir q body d s = (x, s')"
  obtains (refused) e where "x = Inl e" "s' = s"
  | (linked) p where "safe_path dir (new_object_key (pd_object d)) = Inr p"
      "fs_link C dir (put_version q d) (take (nat (pq_size q + 1)) body) (pd_fault d) p s = (x, s')"
      "len (take (nat (pq_size q + 1)) body) = pq_size q" "ac_sha C (take (nat (pq_size q + 1)) body) = pq_sha q"
proof (cases "len (take (nat (pq_size q + 1)) body) = pq_size q \<and> ac_sha C (take (nat (pq_size q + 1)) body) = pq_sha q")
  case True
  then show thesis
    using assms refused linked by (cases "safe_path dir (new_object_key (pd_object d))") (auto simp: fs_put_def Let_def)
next
  case False
  then show thesis using assms refused by (auto simp: fs_put_def Let_def split: if_splits)
qed

text \<open>Whatever becomes of a put, a file that was there keeps its content.\<close>

lemma write_metadata_keeps:
  "write_metadata C fault mp r s = (x, s') \<Longrightarrow> read_file f s = Some b \<Longrightarrow> read_file f s' = Some b"
  by (auto simp: write_metadata_def read_create split: if_splits put_fault.splits)

lemma fs_put_keeps_files:
  assumes "fs_put C dir q body d s = (x, s')" and "read_file f s = Some b"
  shows "read_file f s' = Some b"
  using assms(1)
proof (cases rule: fs_put_link)
  case (linked p)
  have c: "read_file f (create_file p (take (nat (pq_size q + 1)) body) s) = Some b" using assms(2) by (simp add: read_create)
  show ?thesis using linked(2)
  proof (cases rule: fs_link_cases)
    case (removed e mp s2)
    from write_metadata_keeps [OF removed(5) c] removed(2,6) assms(2) show ?thesis by (auto simp: read_unlink)
  qed (use c assms(2) in \<open>auto simp: read_create\<close>)
qed (use assms(2) in simp)

lemma fs_putE:
  assumes "fs_put C dir q body d s = (Inr r, s')"
  obtains p mp where "r = put_version q d" "object_version_ok r" "safe_path dir (ov_key r) = Inr p"
    "metadata_path dir (ov_id r) = Inr mp" "s' = create_file mp (ac_dump C r) (create_file p (take (nat (pq_size q + 1)) body) s)"
    "read_file p s = None" "fs_head C dir r s' = Inr r" "len (take (nat (pq_size q + 1)) body) = pq_size q"
    "ac_sha C (take (nat (pq_size q + 1)) body) = pq_sha q"
  using assms
proof (cases rule: fs_put_link)
  case (linked p)
  show thesis using linked(2)
  proof (cases rule: fs_link_cases)
    case (stored mp)
    then have "r = put_version q d" using fs_head_same by metis
    with stored linked that [of p mp] show thesis by (simp add: put_version_def)
  qed auto
qed simp

lemma fs_put_exact:
  assumes "fs_put C dir q body d s = (Inr r, s')"
  shows "fs_open C dir r s' = Inr (take (nat (pq_size q + 1)) body)"
proof -
  from assms obtain p mp where r: "r = put_version q d" "safe_path dir (ov_key r) = Inr p"
    and s': "s' = create_file mp (ac_dump C r) (create_file p (take (nat (pq_size q + 1)) body) s)" "read_file p s = None"
    and h: "fs_head C dir r s' = Inr r" "len (take (nat (pq_size q + 1)) body) = pq_size q"
      "ac_sha C (take (nat (pq_size q + 1)) body) = pq_sha q" by (rule fs_putE)
  have "read_file p s' = Some (take (nat (pq_size q + 1)) body)" using s' by (simp add: read_create)
  with r h show ?thesis unfolding fs_open_iff by (simp add: put_version_def)
qed

text \<open>Every metadata file names the object it describes, under the key that the store generated.\<close>

definition fs_good :: "artifact_codec \<Rightarrow> string list \<Rightarrow> file_store \<Rightarrow> bool" where
  "fs_good C dir s \<longleftrightarrow> codec_faithful C object_version_ok
     \<and> (\<forall>i b r. read_file (dir @ [''metadata'', i @ ''.json'']) s = Some b \<longrightarrow> ac_load C b = Some r \<longrightarrow>
          uuid_ok i \<and> ov_id r = i \<and> ov_key r = new_object_key i)"

definition draw_good :: "put_draw \<Rightarrow> bool" where
  "draw_good d \<longleftrightarrow> uuid_ok (pd_object d)"

lemma metadata_pathD: "metadata_path dir i = Inr p \<Longrightarrow> p = dir @ [''metadata'', i @ ''.json'']"
  by (auto simp: metadata_path_def split: if_splits)

lemma fs_good_head:
  assumes "fs_good C dir s" and "fs_head C dir r s = Inr r"
  shows "uuid_ok (ov_id r)" "ov_key r = new_object_key (ov_id r)"
proof -
  from assms(2) obtain mp b where mp: "metadata_path dir (ov_id r) = Inr mp" "read_file mp s = Some b" "ac_load C b = Some r"
    by (rule fs_headE)
  then have "read_file (dir @ [''metadata'', ov_id r @ ''.json'']) s = Some b" by (auto dest!: metadata_pathD)
  with mp(3) assms(1) show "uuid_ok (ov_id r)" "ov_key r = new_object_key (ov_id r)" unfolding fs_good_def by metis+
qed

text \<open>A generated key is a path below the object directory of its own.\<close>

lemma hex_groups_chars: "hex_groups gs n s \<Longrightarrow> c \<in> set s \<Longrightarrow> hex_char c \<or> c = CHR ''-''"
  by (induction gs n s rule: hex_groups.induct) (auto split: if_splits list.splits)

lemma hex_groups_length: "hex_groups gs n s \<Longrightarrow> 0 \<le> n \<Longrightarrow> \<forall>g \<in> set gs. 0 \<le> g \<Longrightarrow> len s = n + sum_list (map (\<lambda>g. g + 1) gs)"
  by (induction gs n s rule: hex_groups.induct) (auto split: if_splits list.splits)

lemma uuid_okD:
  assumes "uuid_ok u"
  shows "length u = 36" "CHR ''/'' \<notin> set u" "CHR ''.'' \<notin> set u" "CHR 0x5C \<notin> set u"
proof -
  have "len u = 36" using hex_groups_length [OF assms [unfolded uuid_ok_def]] by simp
  then show "length u = 36" by (simp add: len_def)
  have "hex_char c \<or> c = CHR ''-''" if "c \<in> set u" for c
    using hex_groups_chars [OF assms [unfolded uuid_ok_def] that] .
  then show "CHR ''/'' \<notin> set u" "CHR ''.'' \<notin> set u" "CHR 0x5C \<notin> set u"
    by (force simp: hex_char_def char_between_def)+
qed

lemma split_path_plain: "CHR ''/'' \<notin> set s \<Longrightarrow> split_path acc s = [rev acc @ s]"
  by (induction s arbitrary: acc) auto

lemma split_path_cons: "CHR ''/'' \<notin> set x \<Longrightarrow> split_path acc (x @ CHR ''/'' # s) = (rev acc @ x) # split_path [] s"
  by (induction x arbitrary: acc) auto

lemma resolve_names: "\<forall>x \<in> set xs. x \<noteq> [] \<and> x \<noteq> ''.'' \<and> x \<noteq> ''..'' \<Longrightarrow> resolve_path p xs = p @ xs"
  by (induction xs arbitrary: p) auto

lemma safe_path_new_key:
  assumes "uuid_ok u"
  shows "safe_path dir (new_object_key u) = Inr (dir @ [''objects'', take 2 u, u])"
proof -
  note u = uuid_okD [OF assms]
  have t: "CHR ''/'' \<notin> set (take 2 u)" "CHR ''.'' \<notin> set (take 2 u)" using u by (auto dest: in_set_takeD)
  have "new_object_key u = ''objects'' @ CHR ''/'' # take 2 u @ CHR ''/'' # u" by (simp add: new_object_key_def)
  then have split: "split_path [] (new_object_key u) = [''objects'', take 2 u, u]"
    using split_path_cons [of "''objects''" "[]" "take 2 u @ CHR ''/'' # u"] split_path_cons [OF t(1), of "[]" u]
      split_path_plain [OF u(2), of "[]"] by simp
  have "x \<noteq> [] \<and> x \<noteq> ''.'' \<and> x \<noteq> ''..''" if "x \<in> set [''objects'', take 2 u, u]" for x
    using that u t by auto
  then have "resolve_path dir [''objects'', take 2 u, u] = dir @ [''objects'', take 2 u, u]" by (intro resolve_names) blast
  moreover have "take 1 (new_object_key u) = ''o''" by (simp add: new_object_key_def)
  ultimately show ?thesis by (simp add: safe_path_def split Let_def del: resolve_path.simps)
qed

lemma new_object_key_inj: "uuid_ok u \<Longrightarrow> uuid_ok v \<Longrightarrow> new_object_key u = new_object_key v \<Longrightarrow> u = v"
  using uuid_okD(1) [of u] uuid_okD(1) [of v] by (simp add: new_object_key_def)

lemma fs_good_create:
  assumes "fs_good C dir s" and "\<forall>i. p \<noteq> dir @ [''metadata'', i @ ''.json'']"
  shows "fs_good C dir (create_file p b s)"
  using assms unfolding fs_good_def by (auto simp: read_create split: option.splits if_splits)

lemma fs_good_unlink: "fs_good C dir s \<Longrightarrow> fs_good C dir (unlink_file p s)"
  unfolding fs_good_def by (auto simp: read_unlink split: if_splits)

lemma write_metadata_good:
  assumes "write_metadata C fault mp r s = (x, s')" and "fs_good C dir s" and "mp = dir @ [''metadata'', ov_id r @ ''.json'']"
    and "uuid_ok (ov_id r)" and "ov_key r = new_object_key (ov_id r)" and "object_version_ok r"
  shows "fs_good C dir s'"
proof -
  have c: "codec_faithful C object_version_ok" using assms(2) by (simp add: fs_good_def)
  have load: "r' = r" if "ac_load C b = Some r'" "b = ac_dump C r \<or> (\<exists>n. b = take n (ac_dump C r))" for b r'
  proof -
    have "ac_load C (take n (ac_dump C r)) = Some r' \<Longrightarrow> r' = r" for n using c by (simp add: codec_faithful_def)
    from this [of "length (ac_dump C r)"] this show ?thesis using that by auto
  qed
  obtain b where "s' = s \<or> s' = create_file mp b s" "b = ac_dump C r \<or> (\<exists>n. b = take n (ac_dump C r))"
    using assms(1) by (auto simp: write_metadata_def split: if_splits put_fault.splits)
  then consider "s' = s" | b where "s' = create_file mp b s" "\<And>r'. ac_load C b = Some r' \<Longrightarrow> r' = r" using load by blast
  then show ?thesis
  proof cases
    case 1
    then show ?thesis using assms(2) by simp
  next
    case 2
    have "uuid_ok i \<and> ov_id r' = i \<and> ov_key r' = new_object_key i"
      if f: "read_file (dir @ [''metadata'', i @ ''.json'']) s' = Some x" "ac_load C x = Some r'" for i x r'
    proof (cases "read_file (dir @ [''metadata'', i @ ''.json'']) s")
      case None
      then have "i = ov_id r" "x = b" using f(1) 2(1) assms(3) by (auto simp: read_create split: if_splits)
      with 2(2) f(2) assms(4,5) show ?thesis by simp
    next
      case (Some y)
      then have "y = x" using f(1) 2(1) by (simp add: read_create)
      with Some f(2) assms(2) show ?thesis unfolding fs_good_def by blast
    qed
    with c show ?thesis unfolding fs_good_def by blast
  qed
qed

lemma fs_put_good:
  assumes "fs_good C dir s" and "draw_good d" and "fs_put C dir q body d s = (x, s')"
  shows "fs_good C dir s'"
  using assms(3)
proof (cases rule: fs_put_link)
  case (linked p)
  have id: "ov_id (put_version q d) = pd_object d" "ov_key (put_version q d) = new_object_key (pd_object d)"
    by (simp_all add: put_version_def)
  have u: "uuid_ok (pd_object d)" using assms(2) by (simp add: draw_good_def)
  from linked(1) safe_path_new_key [OF u] have "p = dir @ [''objects'', take 2 (pd_object d), pd_object d]" by simp
  then have g: "fs_good C dir (create_file p c s)" for c using assms(1) by (intro fs_good_create) auto
  show ?thesis using linked(2)
  proof (cases rule: fs_link_cases)
    case (removed e mp s2)
    from write_metadata_good [OF removed(5) g] removed(3,4) u id metadata_pathD [OF removed(4)] have "fs_good C dir s2" by simp
    then show ?thesis using removed(6) by (simp add: fs_good_unlink)
  next
    case (stored mp)
    have "write_metadata C No_fault mp (put_version q d) (create_file p (take (nat (pq_size q + 1)) body) s) = (Inr (), s')"
      using stored(5,6) by (simp add: write_metadata_def)
    from write_metadata_good [OF this g] stored(3,4) u id metadata_pathD [OF stored(4)] show ?thesis by simp
  qed (use g assms(1) in auto)
qed (use assms(1) in simp)

lemma fs_head_id: "fs_head C dir r s = Inr r \<Longrightarrow> fs_head C dir r' s = Inr r' \<Longrightarrow> ov_id r = ov_id r' \<Longrightarrow> r = r'"
  unfolding fs_head_iff by (metis option.inject sum.inject(2))

lemma fs_deleteE:
  assumes "fs_delete C dir r s = Inr s'"
  obtains p mp where "fs_head C dir r s = Inr r" "safe_path dir (ov_key r) = Inr p" "metadata_path dir (ov_id r) = Inr mp"
    "s' = unlink_file mp (unlink_file p s)"
  using assms by (auto simp: fs_delete_def dest: fs_head_same)

lemma fs_delete_keeps:
  assumes "fs_good C dir s" and "fs_delete C dir r s = Inr s'" and "fs_open C dir r' s = Inr c" and "r' \<noteq> r"
  shows "fs_open C dir r' s' = Inr c"
  using assms(3)
proof (rule fs_open_keeps)
  from assms(2) obtain p mp where r: "fs_head C dir r s = Inr r" "safe_path dir (ov_key r) = Inr p"
    "metadata_path dir (ov_id r) = Inr mp" "s' = unlink_file mp (unlink_file p s)" by (rule fs_deleteE)
  have r': "fs_head C dir r' s = Inr r'" using assms(3) by (simp add: fs_open_iff)
  note g = fs_good_head [OF assms(1) r(1)] and g' = fs_good_head [OF assms(1) r']
  have id: "ov_id r' \<noteq> ov_id r" using fs_head_id [OF r(1) r'] assms(4) by auto
  have paths: "p = dir @ [''objects'', take 2 (ov_id r), ov_id r]" "mp = dir @ [''metadata'', ov_id r @ ''.json'']"
    using safe_path_new_key [OF g(1)] g(2) r(2,3) metadata_pathD by auto
  fix f b
  assume f: "metadata_path dir (ov_id r') = Inr f \<or> safe_path dir (ov_key r') = Inr f" and b: "read_file f s = Some b"
  have "f = dir @ [''metadata'', ov_id r' @ ''.json''] \<or> f = dir @ [''objects'', take 2 (ov_id r'), ov_id r']"
    using f safe_path_new_key [OF g'(1)] g'(2) metadata_pathD by auto
  then have "f \<noteq> p" "f \<noteq> mp" using paths id by auto
  then show "read_file f s' = Some b" using b r(4) by (simp add: read_unlink)
qed

text \<open>References that are live in a good store are told apart by their identity.\<close>

lemma fs_good_identity:
  assumes "fs_good C dir s" and "fs_open C dir r s = Inr c" and "fs_open C dir r' s = Inr c'"
    and "exact_identity r = exact_identity r'"
  shows "r = r'"
proof -
  have h: "fs_head C dir r s = Inr r" "fs_head C dir r' s = Inr r'" using assms(2,3) by (simp_all add: fs_open_iff)
  note g = fs_good_head [OF assms(1) h(1)] fs_good_head [OF assms(1) h(2)]
  have "new_object_key (ov_id r) = new_object_key (ov_id r')" using assms(4) g(2,4) by (simp add: exact_identity_def)
  then have "ov_id r = ov_id r'" using new_object_key_inj [OF g(1,3)] by simp
  then show ?thesis by (rule fs_head_id [OF h])
qed

interpretation files: durable_store "ac_sha C" "fs_put C dir" "fs_head C dir" "fs_open C dir"
  "fs_good C dir" draw_good pd_now "fs_delete C dir" for C dir
proof unfold_locales
  fix q body d s r s'
  assume p: "fs_put C dir q body d s = (Inr r, s')"
  show "fs_head C dir r s' = Inr r" using p by (rule fs_putE)
  show "fs_open C dir r s' = Inr (take (nat (pq_size q + 1)) body)" by (rule fs_put_exact [OF p])
  show "ref_for q r" using p by (rule fs_putE) (simp add: ref_for_def put_version_def)
  show "object_version_ok r" using p by (rule fs_putE)
  show "ov_created r = pd_now d" using p by (rule fs_putE) (simp add: put_version_def)
next
  fix q body d s x s' r c
  assume "fs_put C dir q body d s = (x, s')" and "fs_open C dir r s = Inr c"
  then show "fs_open C dir r s' = Inr c" by (blast intro: fs_open_keeps fs_put_keeps_files)
next
  fix r s s'
  assume d: "fs_delete C dir r s = Inr s'"
  then show "\<exists>e. fs_head C dir r s' = Inl e"
    by (rule fs_deleteE) (auto simp: fs_head_def read_metadata_def read_unlink)
  show "fs_good C dir s'" if "fs_good C dir s"
    using d by (rule fs_deleteE) (simp add: fs_good_unlink that)
next
  fix q body d s x s'
  assume "fs_good C dir s" and "draw_good d" and "fs_put C dir q body d s = (x, s')"
  then show "fs_good C dir s'" by (rule fs_put_good)
next
  fix r s s' r' c
  assume "fs_good C dir s" and "fs_delete C dir r s = Inr s'" and "fs_open C dir r' s = Inr c" and "r' \<noteq> r"
  then show "fs_open C dir r' s' = Inr c" by (rule fs_delete_keeps)
next
  fix r s c r' c'
  assume "fs_good C dir s" and "fs_open C dir r s = Inr c" and "fs_open C dir r' s = Inr c'"
    and "exact_identity r = exact_identity r'"
  then show "r = r'" by (rule fs_good_identity)
qed (simp_all add: fs_open_iff)

end
