(* ===== verification/Artifact_Finalizer.thy ===== *)
theory Artifact_Finalizer
  imports Artifact_Registry Artifact_Store Interleaving
begin

text \<open>
  Finalization and collection of artifacts: \<open>control/artifacts/finalization.py\<close> and
  \<open>observability/artifact_gc.py\<close>. Both make many calls of the object store and of the database while
  other processes do the same, so each is a program of \<open>Interleaving\<close> whose steps are single calls.
  The world they share is the object store, the database and the clock.
\<close>

subsection \<open>The shared world\<close>

text \<open>
  \<open>aw_late\<close> is an auxiliary history variable: the owners whose bundle was published when one of its
  objects was already older than the grace period of the collector.
\<close>

record 's artifact_world =
  aw_store :: 's
  aw_db :: artifact_db
  aw_now :: instant
  aw_late :: "artifact_owner list"

record 's store_ops =
  so_put :: "put_request \<Rightarrow> bytes \<Rightarrow> put_draw \<Rightarrow> 's \<Rightarrow> (artifact_error + object_version) \<times> 's"
  so_head :: "object_version \<Rightarrow> 's \<Rightarrow> artifact_error + object_version"
  so_open :: "object_version \<Rightarrow> 's \<Rightarrow> artifact_error + bytes"
  so_delete :: "object_version \<Rightarrow> 's \<Rightarrow> artifact_error + 's"
  so_versions :: "string \<Rightarrow> clock \<Rightarrow> 's \<Rightarrow> artifact_error + object_version list"

definition fs_ops :: "artifact_codec \<Rightarrow> string list \<Rightarrow> file_store store_ops" where
  "fs_ops C dir = \<lparr>so_put = fs_put C dir, so_head = fs_head C dir, so_open = fs_open C dir,
     so_delete = fs_delete C dir, so_versions = fs_versions_before C dir\<rparr>"

type_synonym ('s, 'a) artifact_prog = "('s artifact_world, artifact_error + 'a) prog"

definition reading :: "('s artifact_world \<Rightarrow> artifact_error + 'a) \<Rightarrow> ('s, 'a) artifact_prog" where
  "reading f = Act (\<lambda>w. (Done (f w), w))"

definition put_call ::
  "'s store_ops \<Rightarrow> put_request \<Rightarrow> bytes \<Rightarrow> string \<times> string \<times> put_fault \<Rightarrow> ('s, object_version) artifact_prog" where
  "put_call S q body u = Act (\<lambda>w.
     case so_put S q body \<lparr>pd_object = fst u, pd_version = fst (snd u), pd_now = aw_now w, pd_fault = snd (snd u)\<rparr> (aw_store w) of
       (x, s) \<Rightarrow> (Done x, w\<lparr>aw_store := s\<rparr>))"

definition orphan_grace :: int where
  "orphan_grace = days 1"

definition orphan_health_limit :: int where
  "orphan_health_limit = days 7"

definition bundle_refs :: "manifest \<Rightarrow> object_version \<Rightarrow> object_version list" where
  "bundle_refs m ref = map snd (mf_members m) @ [ref]"

definition published_late :: "instant \<Rightarrow> manifest \<Rightarrow> object_version \<Rightarrow> bool" where
  "published_late t m ref \<longleftrightarrow> list_ex (\<lambda>r. ov_created r + orphan_grace < t) (bundle_refs m ref)"

text \<open>The transaction \<open>commit_visible_manifest\<close> at the time it commits.\<close>

definition commit_call :: "manifest \<Rightarrow> object_version \<Rightarrow> ('s, owner_binding) artifact_prog" where
  "commit_call m ref = txn (\<lambda>w. rbind (commit_visible_manifest m ref (aw_db w)) (\<lambda>(b, db).
     Inr (b, w\<lparr>aw_db := db,
       aw_late := if registry (aw_db w) (mf_owner m) = None \<and> published_late (aw_now w) m ref
                  then mf_owner m # aw_late w else aw_late w\<rparr>)))"

subsection \<open>Finalization\<close>

record member_payload =
  mp_id :: string
  mp_kind :: artifact_kind
  mp_content_type :: string
  mp_content :: bytes
  mp_filename :: "string option"
  mp_expires :: "instant option"

text \<open>\<open>ArtifactMemberPayload.__post_init__\<close>.\<close>

definition new_member_payload :: "member_payload \<Rightarrow> artifact_error + member_payload" where
  "new_member_payload p =
     (if mp_kind p = Artifact_manifest then Inl (Artifact_value_error ''artifact member cannot itself be the bundle manifest'')
      else if mp_id p = [] \<or> mp_content_type p = [] \<or> mp_content p = []
      then Inl (Artifact_value_error ''artifact member payload is incomplete'')
      else Inr p)"

text \<open>Reading a stream in chunks of a mebibyte, up to the length of the reference.\<close>

function drain_stream :: "int \<Rightarrow> artifact_error \<Rightarrow> bytes \<Rightarrow> bytes \<Rightarrow> artifact_error + bytes" where
  "drain_stream limit too_long seen rest =
     (if rest = [] then Inr seen
      else let chunk = take 1048576 rest
        in if limit < len (seen @ chunk) then Inl too_long
           else drain_stream limit too_long (seen @ chunk) (drop 1048576 rest))"
  by auto
termination by (relation "measure (\<lambda>(_, _, _, rest). length rest)") auto

declare drain_stream.simps [simp del]

text \<open>Chunk by chunk it reads everything, or stops when the limit is passed.\<close>

lemma drain_stream_total [code]:
  "drain_stream limit e seen rest = (if rest = [] \<or> len (seen @ rest) \<le> limit then Inr (seen @ rest) else Inl e)"
proof (induction limit e seen rest rule: drain_stream.induct)
  case (1 limit e seen rest)
  let ?c = "take 1048576 rest"
  show ?case
  proof (cases "rest = [] \<or> limit < len (seen @ ?c)")
    case True
    moreover have "len ?c \<le> len rest" by (simp add: len_def)
    ultimately show ?thesis by (subst drain_stream.simps) (auto simp: Let_def)
  next
    case False
    then have IH: "drain_stream limit e (seen @ ?c) (drop 1048576 rest) =
        (if drop 1048576 rest = [] \<or> len ((seen @ ?c) @ drop 1048576 rest) \<le> limit
         then Inr ((seen @ ?c) @ drop 1048576 rest) else Inl e)" using 1 by simp
    have app: "(seen @ ?c) @ drop 1048576 rest = seen @ rest" by simp
    have "drop 1048576 rest = [] \<Longrightarrow> len (seen @ rest) \<le> limit" using False app by (metis append_Nil2 not_less)
    then show ?thesis using False IH unfolding app by (subst drain_stream.simps) (auto simp: Let_def)
  qed
qed

definition verify_stream :: "artifact_codec \<Rightarrow> object_version \<Rightarrow> bytes \<Rightarrow> artifact_error + unit" where
  "verify_stream C r body =
     rbind (drain_stream (ov_size r) (Artifact_runtime_error ''artifact exact read exceeds authority length'') [] body) (\<lambda>seen.
     if len seen \<noteq> ov_size r \<or> ac_sha C seen \<noteq> ov_sha r
     then Inl (Artifact_runtime_error ''artifact exact read failed length or digest verification'') else Inr ())"

lemma verify_stream_iff: "verify_stream C r body = Inr () \<longleftrightarrow> len body = ov_size r \<and> ac_sha C body = ov_sha r"
  by (auto simp: verify_stream_def drain_stream_total)

definition verify_exact :: "artifact_codec \<Rightarrow> 's store_ops \<Rightarrow> object_version \<Rightarrow> ('s, unit) artifact_prog" where
  "verify_exact C S r =
     ebind (reading (\<lambda>w. so_head S r (aw_store w))) (\<lambda>x.
     if x \<noteq> r then fail_with (Artifact_runtime_error ''artifact exact head does not match returned reference'')
     else ebind (reading (\<lambda>w. so_open S r (aw_store w))) (\<lambda>body. give (verify_stream C r body)))"

definition put_request_for :: "artifact_codec \<Rightarrow> artifact_owner \<Rightarrow> member_payload \<Rightarrow> put_request" where
  "put_request_for C w p = \<lparr>pq_kind = mp_kind p, pq_owner = w, pq_content_type = mp_content_type p,
     pq_sha = ac_sha C (mp_content p), pq_size = len (mp_content p), pq_filename = mp_filename p, pq_expires = mp_expires p\<rparr>"

definition new_put_request :: "put_request \<Rightarrow> artifact_error + put_request" where
  "new_put_request q = (if put_request_ok q then Inr q else Inl Artifact_validation_error)"

type_synonym draws = "nat \<Rightarrow> string \<times> string \<times> put_fault"

text \<open>
  The loop over the members. \<open>us n\<close> is what the store draws for the \<open>n\<close>-th put: the two UUIDs and the
  fault it meets; the cancellation check is a program of its own.
\<close>

fun upload_members ::
  "artifact_codec \<Rightarrow> 's store_ops \<Rightarrow> ('s, unit) artifact_prog \<Rightarrow> artifact_owner \<Rightarrow> member_payload list \<Rightarrow> draws
     \<Rightarrow> (string \<times> object_version) list \<Rightarrow> ('s, (string \<times> object_version) list) artifact_prog" where
  "upload_members C S check w [] us done = give (Inr done)"
| "upload_members C S check w (p # ps) us done =
     ebind check (\<lambda>_.
     ebind (give (new_put_request (put_request_for C w p))) (\<lambda>q.
     ebind (put_call S q (mp_content p) (us (length done))) (\<lambda>r.
     ebind (verify_exact C S r) (\<lambda>_.
     if \<not> member_id_ok (mp_id p) then fail_with Artifact_validation_error
     else upload_members C S check w ps us (done @ [(mp_id p, r)])))))"

definition manifest_request :: "artifact_codec \<Rightarrow> manifest \<Rightarrow> put_request" where
  "manifest_request C m = \<lparr>pq_kind = Artifact_manifest, pq_owner = mf_owner m,
     pq_content_type = ''application/vnd.proofagent.artifact-manifest+json'', pq_sha = ac_sha C (ac_manifest_dump C m),
     pq_size = len (ac_manifest_dump C m), pq_filename = Some ''artifact-manifest.json'', pq_expires = None\<rparr>"

definition prepare_bundle ::
  "artifact_codec \<Rightarrow> 's store_ops \<Rightarrow> ('s, unit) artifact_prog \<Rightarrow> artifact_owner \<Rightarrow> string \<Rightarrow> member_payload list \<Rightarrow> draws
     \<Rightarrow> ('s, manifest \<times> object_version) artifact_prog" where
  "prepare_bundle C S check w i ps us =
     ebind (reading (\<lambda>a. Inr (aw_now a))) (\<lambda>now.
     if ps = [] then fail_with (Artifact_value_error ''artifact bundle requires at least one member'')
     else if \<not> distinct (map mp_id ps) then fail_with (Artifact_value_error ''artifact bundle contains duplicate member ids'')
     else ebind (upload_members C S check w (sort_key mp_id ps) us []) (\<lambda>ms.
       ebind (give (new_manifest i w ms now)) (\<lambda>m.
       ebind check (\<lambda>_.
       ebind (give (new_put_request (manifest_request C m))) (\<lambda>q.
       ebind (put_call S q (ac_manifest_dump C m) (us (length ps))) (\<lambda>ref.
       ebind (verify_exact C S ref) (\<lambda>_. give (Inr (m, ref)))))))))"

definition publish_bundle ::
  "('s, unit) artifact_prog \<Rightarrow> manifest \<times> object_version \<Rightarrow> ('s, manifest \<times> owner_binding) artifact_prog" where
  "publish_bundle check b =
     ebind check (\<lambda>_. ebind (commit_call (fst b) (snd b)) (\<lambda>x. give (Inr (fst b, x))))"

definition finalize_bundle ::
  "artifact_codec \<Rightarrow> 's store_ops \<Rightarrow> ('s, unit) artifact_prog \<Rightarrow> artifact_owner \<Rightarrow> string \<Rightarrow> member_payload list \<Rightarrow> draws
     \<Rightarrow> ('s, manifest \<times> owner_binding) artifact_prog" where
  "finalize_bundle C S check w i ps us =
     ebind (reading (\<lambda>a. Inr (aw_now a))) (\<lambda>now.
     ebind (reading (\<lambda>a. get_visible_binding w (Aware now) (aw_db a))) (\<lambda>existing.
     case existing of
       Some b \<Rightarrow> ebind (reading (\<lambda>a. get_manifest i (aw_db a))) (\<lambda>x.
         case x of
           Some m \<Rightarrow>
             if ov_owner (bd_manifest b) \<noteq> w
             then fail_with (Artifact_runtime_error ''visible artifact binding does not match finalization identity'')
             else ebind (verify_exact C S (bd_manifest b)) (\<lambda>_. give (Inr (m, b)))
         | None \<Rightarrow> fail_with (Artifact_runtime_error ''visible artifact binding does not match finalization identity''))
     | None \<Rightarrow> ebind (prepare_bundle C S check w i ps us) (publish_bundle check)))"

subsection \<open>Collection\<close>

record gc_report =
  gr_scanned :: int
  gr_referenced :: int
  gr_deleted :: int
  gr_failed :: int
  gr_oldest :: "int option"

definition delete_call :: "'s store_ops \<Rightarrow> object_version \<Rightarrow> ('s, bool) artifact_prog" where
  "delete_call S r = txn (\<lambda>w. rbind (delete_if_unreferenced r (so_delete S r) (aw_db w) (aw_store w)) (\<lambda>(b, s).
     Inr (b, w\<lparr>aw_store := s\<rparr>)))"

definition older :: "int option \<Rightarrow> int \<Rightarrow> int option" where
  "older x a = Some (case x of None \<Rightarrow> a | Some b \<Rightarrow> max b a)"

fun collect_versions ::
  "'s store_ops \<Rightarrow> instant \<Rightarrow> bool \<Rightarrow> object_version list \<Rightarrow> gc_report \<Rightarrow> ('s, gc_report) artifact_prog" where
  "collect_versions S now dry [] g = give (Inr g)"
| "collect_versions S now dry (r # rs) g =
     ebind (reading (\<lambda>w. Inr (contains_exact r (aw_db w)))) (\<lambda>referenced.
     let g1 = g\<lparr>gr_scanned := gr_scanned g + 1\<rparr>
     in if referenced then collect_versions S now dry rs (g1\<lparr>gr_referenced := gr_referenced g + 1\<rparr>)
        else let g2 = g1\<lparr>gr_oldest := older (gr_oldest g) (now - ov_created r)\<rparr>
          in if dry then collect_versions S now dry rs g2
             else prog_bind (delete_call S r) (\<lambda>x. collect_versions S now dry rs
               (case x of
                  Inl _ \<Rightarrow> g2\<lparr>gr_failed := gr_failed g + 1\<rparr>
                | Inr removed \<Rightarrow> if removed then g2\<lparr>gr_deleted := gr_deleted g + 1\<rparr>
                                 else g2\<lparr>gr_referenced := gr_referenced g + 1\<rparr>)))"

definition collect_orphans :: "'s store_ops \<Rightarrow> clock \<Rightarrow> bool \<Rightarrow> ('s, gc_report) artifact_prog" where
  "collect_orphans S c dry = (case c of
     Naive \<Rightarrow> fail_with (Artifact_value_error ''artifact GC timestamp must be timezone-aware'')
   | Aware now \<Rightarrow>
       ebind (reading (\<lambda>w. so_versions S ''objects/'' (Aware (now - orphan_grace)) (aw_store w))) (\<lambda>rs.
       collect_versions S now dry rs
         \<lparr>gr_scanned = 0, gr_referenced = 0, gr_deleted = 0, gr_failed = 0, gr_oldest = None\<rparr>))"

definition oldest_orphan_seconds :: "gc_report \<Rightarrow> int option" where
  "oldest_orphan_seconds g = map_option (\<lambda>a. max 0 (a div seconds 1)) (gr_oldest g)"

definition release_healthy :: "gc_report \<Rightarrow> bool" where
  "release_healthy g \<longleftrightarrow> gr_failed g = 0 \<and> (case gr_oldest g of None \<Rightarrow> True | Some a \<Rightarrow> a \<le> orphan_health_limit)"

subsection \<open>The other transactions\<close>

definition mark_corrupt_call :: "object_version \<Rightarrow> instant \<Rightarrow> ('s, nat) artifact_prog" where
  "mark_corrupt_call r t = txn (\<lambda>w. rbind (mark_corrupt r t (aw_db w)) (\<lambda>(n, db). Inr (n, w\<lparr>aw_db := db\<rparr>)))"

definition expire_due_call :: "clock \<Rightarrow> ('s, nat) artifact_prog" where
  "expire_due_call c = txn (\<lambda>w. rbind (expire_due c (aw_db w)) (\<lambda>(n, db). Inr (n, w\<lparr>aw_db := db\<rparr>)))"

text \<open>The command \<open>artifacts gc\<close>: it passes the present time, or the time of its option \<open>--at\<close>.\<close>

definition artifacts_gc :: "'s store_ops \<Rightarrow> instant option \<Rightarrow> bool \<Rightarrow> ('s, gc_report) artifact_prog" where
  "artifacts_gc S as_of apply_it = (case as_of of
     None \<Rightarrow> ebind (reading (\<lambda>w. Inr (aw_now w))) (\<lambda>now. collect_orphans S (Aware now) (\<not> apply_it))
   | Some t \<Rightarrow> collect_orphans S (Aware t) (\<not> apply_it))"

subsection \<open>Retention and recovery\<close>

definition artifact_expiry_for :: "artifact_kind \<Rightarrow> clock \<Rightarrow> artifact_error + instant option" where
  "artifact_expiry_for k c = (case c of
     Naive \<Rightarrow> Inl (Artifact_value_error ''artifact retention timestamp must be timezone-aware'')
   | Aware t \<Rightarrow> Inr (if k = Validation_capture then Some (t + days 7)
       else if k \<in> {Run_trace, Governance_receipt, Evaluation_evidence, Html_report} then Some (t + days 365)
       else None))"

record recovery_report =
  ry_checked :: instant
  ry_owners :: int
  ry_references :: int
  ry_verified :: int
  ry_corrupt :: "string list"
  ry_expired :: nat

definition recovery_valid :: "recovery_report \<Rightarrow> bool" where
  "recovery_valid y \<longleftrightarrow> ry_corrupt y = [] \<and> ry_verified y = ry_references y"

text \<open>\<open>_verify_ref\<close>: any exception is a failed verification.\<close>

definition verify_ref :: "artifact_codec \<Rightarrow> 's store_ops \<Rightarrow> object_version \<Rightarrow> ('s, bool) artifact_prog" where
  "verify_ref C S r = prog_bind
     (ebind (reading (\<lambda>w. so_head S r (aw_store w))) (\<lambda>x.
      if x \<noteq> r then give (Inr False)
      else ebind (reading (\<lambda>w. so_open S r (aw_store w))) (\<lambda>body.
        give (case drain_stream (ov_size r) Artifact_io_error [] body of
            Inl _ \<Rightarrow> Inr False
          | Inr seen \<Rightarrow> Inr (len seen = ov_size r \<and> ac_sha C seen = ov_sha r)))))
     (\<lambda>x. give (Inr (case x of Inl _ \<Rightarrow> False | Inr b \<Rightarrow> b)))"

text \<open>\<open>check_ref\<close> verifies one reference and marks it corrupt when it fails; \<open>ok\<close> is the part of the check after \<open>_verify_ref\<close>.\<close>

definition check_ref ::
  "artifact_codec \<Rightarrow> 's store_ops \<Rightarrow> instant \<Rightarrow> bool \<Rightarrow> bool \<Rightarrow> object_version \<Rightarrow> ('s, bool) artifact_prog" where
  "check_ref C S now apply_it ok r =
     ebind (verify_ref C S r) (\<lambda>v.
     if v \<and> ok then give (Inr True)
     else if apply_it then ebind (mark_corrupt_call r now) (\<lambda>_. give (Inr False))
     else give (Inr False))"

fun check_members ::
  "artifact_codec \<Rightarrow> 's store_ops \<Rightarrow> instant \<Rightarrow> bool \<Rightarrow> object_version list \<Rightarrow> bool list \<Rightarrow> ('s, bool list) artifact_prog" where
  "check_members C S now apply_it [] acc = give (Inr acc)"
| "check_members C S now apply_it (r # rs) acc =
     ebind (check_ref C S now apply_it True r) (\<lambda>v. check_members C S now apply_it rs (acc @ [v]))"

fun check_bundles ::
  "artifact_codec \<Rightarrow> 's store_ops \<Rightarrow> instant \<Rightarrow> bool \<Rightarrow> (owner_binding \<times> manifest) list \<Rightarrow> recovery_report
     \<Rightarrow> ('s, recovery_report) artifact_prog" where
  "check_bundles C S now apply_it [] y = give (Inr y)"
| "check_bundles C S now apply_it ((b, m) # bs) y =
     (let bytes = ac_manifest_dump C m; ref = bd_manifest b in
     ebind (check_ref C S now apply_it (len bytes = ov_size ref \<and> ac_sha C bytes = ov_sha ref) ref) (\<lambda>v.
     ebind (check_members C S now apply_it (map snd (mf_members m)) []) (\<lambda>vs.
     check_bundles C S now apply_it bs
       (y\<lparr>ry_references := ry_references y + 1 + len vs,
         ry_verified := ry_verified y + len (filter (\<lambda>x. x) (v # vs)),
         ry_corrupt := (if list_all (\<lambda>x. x) (v # vs) then ry_corrupt y else ry_corrupt y @ [owner_text (bd_owner b)])\<rparr>))))"

definition verify_recovery ::
  "(artifact_owner \<Rightarrow> 'k::linorder) \<Rightarrow> artifact_codec \<Rightarrow> 's store_ops \<Rightarrow> clock \<Rightarrow> bool \<Rightarrow> ('s, recovery_report) artifact_prog" where
  "verify_recovery collation C S c apply_it = (case c of
     Naive \<Rightarrow> fail_with (Artifact_value_error ''artifact recovery timestamp must be timezone-aware'')
   | Aware now \<Rightarrow>
       ebind (if apply_it then expire_due_call (Aware now) else give (Inr 0)) (\<lambda>expired.
       ebind (reading (\<lambda>w. list_bound_manifests collation (aw_db w))) (\<lambda>bound.
       check_bundles C S now apply_it bound
         \<lparr>ry_checked = now, ry_owners = len bound, ry_references = 0, ry_verified = 0, ry_corrupt = [], ry_expired = expired\<rparr>)))"

text \<open>Time passes.\<close>

definition tick :: "nat \<Rightarrow> ('s, unit) artifact_prog" where
  "tick n = Act (\<lambda>w. (Done (Inr ()), w\<lparr>aw_now := aw_now w + int n\<rparr>))"

end
