(* ===== verification/Artifact_Histories.thy ===== *)
theory Artifact_Histories
  imports Artifact_Finalizer
begin

text \<open>
  Finalizers, collectors, retention and recovery running together over one store and one database.
  The moves of the shared world are what each of them guarantees and all of them rely on: time does
  not go back, the registry advances, and an object that is referenced, or younger than the grace
  period of the collector, stays readable. The programs are followed through in the locale of an
  archive, over any store that keeps the contract of \<open>Artifact_Store\<close>.
\<close>

subsection \<open>The moves of the world\<close>

text \<open>
  A world is good when the tables keep their invariant and every object of a bundle that was
  published in time can be read.
\<close>

definition world_good :: "'s store_ops \<Rightarrow> ('s \<Rightarrow> bool) \<Rightarrow> 's artifact_world \<Rightarrow> bool" where
  "world_good S good w \<longleftrightarrow> good (aw_store w) \<and> authority_good (aw_db w)
     \<and> (\<forall>ow p v. registry (aw_db w) ow = Some p \<longrightarrow> ow \<notin> set (aw_late w) \<longrightarrow> v \<in> set (publication_refs p) \<longrightarrow>
          (\<exists>c. so_open S v (aw_store w) = Inr c))"

definition keeps_objects :: "'s store_ops \<Rightarrow> 's artifact_world \<Rightarrow> 's artifact_world \<Rightarrow> bool" where
  "keeps_objects S w w' \<longleftrightarrow> (\<forall>r c. so_open S r (aw_store w) = Inr c \<longrightarrow>
     contains_exact r (aw_db w) \<or> aw_now w' \<le> ov_created r + orphan_grace \<longrightarrow> so_open S r (aw_store w') = Inr c)"

definition world_moves :: "'s store_ops \<Rightarrow> ('s \<Rightarrow> bool) \<Rightarrow> 's artifact_world \<Rightarrow> 's artifact_world \<Rightarrow> bool" where
  "world_moves S good w w' \<longleftrightarrow> aw_now w \<le> aw_now w'
     \<and> registry_advances (aw_db w) (aw_db w')
     \<and> (\<forall>v. contains_exact v (aw_db w) \<longrightarrow> contains_exact v (aw_db w'))
     \<and> (\<forall>ow p. registry (aw_db w) ow = Some p \<longrightarrow> (ow \<in> set (aw_late w') \<longleftrightarrow> ow \<in> set (aw_late w)))
     \<and> keeps_objects S w w' \<and> (world_good S good w \<longrightarrow> world_good S good w')"

lemma keeps_objects_trans:
  assumes "keeps_objects S a b" and "keeps_objects S b c" and "aw_now b \<le> aw_now c"
    and "\<forall>v. contains_exact v (aw_db a) \<longrightarrow> contains_exact v (aw_db b)"
  shows "keeps_objects S a c"
  unfolding keeps_objects_def
proof (intro allI impI)
  fix r x
  assume *: "so_open S r (aw_store a) = Inr x" "contains_exact r (aw_db a) \<or> aw_now c \<le> ov_created r + orphan_grace"
  then have "so_open S r (aw_store b) = Inr x" using assms(1,3) unfolding keeps_objects_def by (meson order_trans)
  then show "so_open S r (aw_store c) = Inr x" using * assms(2,4) unfolding keeps_objects_def by blast
qed

lemma world_moves_refl [simp]: "world_moves S good w w"
  by (simp add: world_moves_def keeps_objects_def)

lemma world_moves_trans: "world_moves S good a b \<Longrightarrow> world_moves S good b c \<Longrightarrow> world_moves S good a c"
  unfolding world_moves_def
  by (intro conjI) (blast intro: order_trans registry_advances_trans keeps_objects_trans
      | (unfold registry_advances_def, metis))+

context shared_state begin

text \<open>A program ends in a state that the shared state has moved to from where it started.\<close>

lemma holds_amid_moves: "holds_amid R Q p s \<Longrightarrow> holds_amid R (\<lambda>a t. Q a t \<and> R s t) p s"
proof (induction p arbitrary: s)
  case (Act f)
  show ?case
  proof (rule holds_amid_ActI)
    fix s1 p s2
    assume *: "R s s1" "f s1 = (p, s2)"
    with Act.prems have h: "R s1 s2 \<and> holds_amid R Q p s2" by (auto dest: holds_amid_ActD)
    moreover have "f s1 \<in> range f" "p \<in> Basic_BNFs.fsts (f s1)" by (rule rangeI) (use *(2) in simp)
    ultimately have "holds_amid R (\<lambda>a t. Q a t \<and> R s2 t) p s2" using Act.IH by blast
    moreover have "R s s2" using * h move_trans by blast
    ultimately show "R s1 s2 \<and> holds_amid R (\<lambda>a t. Q a t \<and> R s t) p s2"
      using h by (auto elim!: holds_amid_weaken intro: move_trans)
  qed
qed (simp add: move_refl)

text \<open>Composition with what is known in between.\<close>

lemma amid_bindI:
  assumes "good s" and "holds_amid R P p s"
    and "\<And>a t. P a t \<Longrightarrow> good t \<Longrightarrow> R s t \<Longrightarrow> holds_amid R Q (k a) t"
  shows "holds_amid R Q (prog_bind p k) s"
  by (rule holds_amid_bind, rule holds_amid_weaken [OF holds_amid_good [OF holds_amid_moves [OF assms(2)] assms(1)]])
    (use assms(3) in blast)

lemma amid_ebindI:
  assumes "good s" and "holds_amid R P p s"
    and "\<And>e t. P (Inl e) t \<Longrightarrow> good t \<Longrightarrow> R s t \<Longrightarrow> Q (Inl e) t"
    and "\<And>a t. P (Inr a) t \<Longrightarrow> good t \<Longrightarrow> R s t \<Longrightarrow> holds_amid R Q (k a) t"
  shows "holds_amid R Q (ebind p k) s"
  unfolding ebind_def by (rule amid_bindI [OF assms(1,2)]) (auto split: sum.splits intro: assms(3,4))

lemma harmless_ebind:
  assumes "good s" and "holds_amid R (\<lambda>_ _. True) p s"
    and "\<And>a t. good t \<Longrightarrow> R s t \<Longrightarrow> holds_amid R (\<lambda>_ _. True) (k a) t"
  shows "holds_amid R (\<lambda>_ _. True) (ebind p k) s"
  by (rule amid_ebindI [OF assms(1,2)]) (auto intro: assms(3))

lemma amid_if: "holds_amid R Q p s \<Longrightarrow> holds_amid R Q q s \<Longrightarrow> holds_amid R Q (if b then p else q) s"
  by simp

lemma amid_actI:
  assumes "good s" and "\<And>t p u. R s t \<Longrightarrow> good t \<Longrightarrow> f t = (p, u) \<Longrightarrow> R t u \<and> (\<exists>a. p = Done a \<and> Q a u)"
  shows "holds_amid R Q (Act f) s"
proof (rule holds_amid_ActI)
  fix t p u
  assume *: "R s t" "f t = (p, u)"
  then show "R t u \<and> holds_amid R Q p u" using assms(2) [OF *(1) move_good [OF *(1) assms(1)] *(2)] by auto
qed

end

subsection \<open>Archives\<close>

text \<open>A durable store whose objects are created at the time of the world, with its listing.\<close>

locale artifact_archive = durable_store sha put head exact good draw_ok drawn_at delete
  for sha :: "bytes \<Rightarrow> string"
    and put :: "put_request \<Rightarrow> bytes \<Rightarrow> put_draw \<Rightarrow> 's \<Rightarrow> (artifact_error + object_version) \<times> 's"
    and head :: "object_version \<Rightarrow> 's \<Rightarrow> artifact_error + object_version"
    and exact :: "object_version \<Rightarrow> 's \<Rightarrow> artifact_error + bytes"
    and good :: "'s \<Rightarrow> bool"
    and draw_ok :: "put_draw \<Rightarrow> bool"
    and drawn_at :: "put_draw \<Rightarrow> instant"
    and delete :: "object_version \<Rightarrow> 's \<Rightarrow> artifact_error + 's" +
  fixes versions :: "string \<Rightarrow> clock \<Rightarrow> 's \<Rightarrow> artifact_error + object_version list"
  assumes drawn_now: "drawn_at d = pd_now d"
    and draw_uuid: "uuid_ok (pd_object d) \<Longrightarrow> draw_ok d"
    and versions_before: "versions x (Aware t) s = Inr rs \<Longrightarrow> r \<in> set rs \<Longrightarrow> ov_created r < t"
begin

abbreviation ops :: "'s store_ops" where
  "ops \<equiv> \<lparr>so_put = put, so_head = head, so_open = exact, so_delete = delete, so_versions = versions\<rparr>"

abbreviation moves :: "'s artifact_world \<Rightarrow> 's artifact_world \<Rightarrow> bool" where
  "moves \<equiv> world_moves ops good"

abbreviation good_world :: "'s artifact_world \<Rightarrow> bool" where
  "good_world \<equiv> world_good ops good"

lemma archive_is_shared: "shared_state good_world moves"
proof unfold_locales
  fix s t u :: "'s artifact_world"
  show "moves s s" by simp
  show "moves s t \<Longrightarrow> moves t u \<Longrightarrow> moves s u" by (rule world_moves_trans)
  show "moves s t \<Longrightarrow> good_world s \<Longrightarrow> good_world t" by (simp add: world_moves_def)
qed

lemma store_moves:
  assumes "good (aw_store w) \<Longrightarrow> good s'"
    and "\<And>r c. exact r (aw_store w) = Inr c \<Longrightarrow> contains_exact r (aw_db w) \<or> aw_now w \<le> ov_created r + orphan_grace \<Longrightarrow>
           exact r s' = Inr c"
  shows "moves w (w\<lparr>aw_store := s'\<rparr>)"
proof -
  have "good_world (w\<lparr>aw_store := s'\<rparr>)" if "good_world w"
    unfolding world_good_def
  proof (intro conjI allI impI)
    fix ow p v
    assume *: "registry (aw_db (w\<lparr>aw_store := s'\<rparr>)) ow = Some p" "ow \<notin> set (aw_late (w\<lparr>aw_store := s'\<rparr>))"
      "v \<in> set (publication_refs p)"
    with that obtain c where "exact v (aw_store w) = Inr c" unfolding world_good_def by fastforce
    moreover have "contains_exact v (aw_db w)"
      using publication_contained [of "aw_db w" ow p v] * that by (simp add: world_good_def)
    ultimately show "\<exists>c. so_open ops v (aw_store (w\<lparr>aw_store := s'\<rparr>)) = Inr c" using assms(2) by fastforce
  qed (use assms(1) that in \<open>auto simp: world_good_def\<close>)
  then show ?thesis using assms(2) by (simp add: world_moves_def keeps_objects_def)
qed

lemma put_moves:
  assumes "put q body d (aw_store w) = (x, s')" and "uuid_ok (pd_object d)"
  shows "moves w (w\<lparr>aw_store := s'\<rparr>)"
  by (rule store_moves) (use assms in \<open>auto intro: put_good put_keeps draw_uuid\<close>)

lemma delete_moves:
  assumes "delete_if_unreferenced r (delete r) (aw_db w) (aw_store w) = Inr (b, s')"
    and "ov_created r + orphan_grace < aw_now w" and "good (aw_store w)"
  shows "moves w (w\<lparr>aw_store := s'\<rparr>)"
proof (cases "contains_exact r (aw_db w)")
  case True
  with assms(1) have "s' = aw_store w" by (simp add: delete_if_unreferenced_def)
  then show ?thesis by simp
next
  case False
  then have d: "delete r (aw_store w) = Inr s'" using assms(1) by (auto simp: delete_if_unreferenced_def)
  show ?thesis
  proof (rule store_moves)
    fix v c
    assume "exact v (aw_store w) = Inr c" "contains_exact v (aw_db w) \<or> aw_now w \<le> ov_created v + orphan_grace"
    with False assms(2) show "exact v s' = Inr c" using delete_keeps [OF assms(3) d] by fastforce
  qed (rule delete_good [OF _ d])
qed

lemma database_moves:
  assumes "authority_good (aw_db w) \<Longrightarrow> authority_good db'" and "registry_advances (aw_db w) db'"
    and "\<And>v. contains_exact v (aw_db w) \<Longrightarrow> contains_exact v db'"
    and "\<And>ow. registry db' ow = None \<longleftrightarrow> registry (aw_db w) ow = None"
  shows "moves w (w\<lparr>aw_db := db'\<rparr>)"
proof -
  have "good_world (w\<lparr>aw_db := db'\<rparr>)" if g: "good_world w"
    unfolding world_good_def
  proof (intro conjI allI impI)
    fix ow q v
    assume *: "registry (aw_db (w\<lparr>aw_db := db'\<rparr>)) ow = Some q" "ow \<notin> set (aw_late (w\<lparr>aw_db := db'\<rparr>))"
      "v \<in> set (publication_refs q)"
    then obtain p where p: "registry (aw_db w) ow = Some p" using assms(4) [of ow] by fastforce
    with assms(2) * have "hidden p q" unfolding registry_advances_def by force
    then have "v \<in> set (publication_refs p)" using *(3) by (simp add: hidden_def publication_refs_def)
    then show "\<exists>c. so_open ops v (aw_store (w\<lparr>aw_db := db'\<rparr>)) = Inr c"
      using g p *(2) unfolding world_good_def by fastforce
  qed (use g assms(1) in \<open>auto simp: world_good_def\<close>)
  then show ?thesis using assms(2,3) by (simp add: world_moves_def keeps_objects_def)
qed

text \<open>An upload that is still young can be read with the bytes that were put.\<close>

definition fresh :: "bytes \<Rightarrow> object_version \<Rightarrow> 's artifact_world \<Rightarrow> bool" where
  "fresh c r w \<longleftrightarrow> (aw_now w \<le> ov_created r + orphan_grace \<longrightarrow> exact r (aw_store w) = Inr c)"

lemma fresh_moves: "fresh c r w \<Longrightarrow> moves w w' \<Longrightarrow> fresh c r w'"
  unfolding fresh_def world_moves_def keeps_objects_def by fastforce

lemma commit_moves:
  assumes "commit_visible_manifest m ref (aw_db w) = Inr (b, db')" and "manifest_ok m" and "object_version_ok ref"
    and "\<And>v. v \<in> set (bundle_refs m ref) \<Longrightarrow> \<exists>c. fresh c v w" and "good_world w"
  shows "moves w (w\<lparr>aw_db := db', aw_late := if registry (aw_db w) (mf_owner m) = None \<and> published_late (aw_now w) m ref
           then mf_owner m # aw_late w else aw_late w\<rparr>)" (is "moves w ?w'")
proof -
  have ag: "authority_good (aw_db w)" using assms(5) by (simp add: world_good_def)
  note g = commit_good [OF assms(1) ag assms(2,3)]
  have "good_world ?w'"
    unfolding world_good_def
  proof (intro conjI allI impI)
    fix ow q v
    assume *: "registry (aw_db ?w') ow = Some q" "ow \<notin> set (aw_late ?w')" "v \<in> set (publication_refs q)"
    show "\<exists>c. so_open ops v (aw_store ?w') = Inr c"
      using assms(1) ag assms(2,3)
    proof (cases rule: commit_visible_manifest_cases)
      case published
      show ?thesis
      proof (cases "ow = mf_owner m")
        case True
        then have v: "v \<in> set (bundle_refs m ref)" using *(1,3) published(3) by (auto simp: publication_refs_def bundle_refs_def)
        have "\<not> published_late (aw_now w) m ref" using *(2) True published(1) by (auto split: if_splits)
        then have "aw_now w \<le> ov_created v + orphan_grace" using v by (auto simp: published_late_def list_ex_iff not_less)
        with assms(4) [OF v] show ?thesis by (auto simp: fresh_def)
      next
        case False
        then have "registry (aw_db w) ow = Some q" "ow \<notin> set (aw_late w)" using * published(3) by (auto split: if_splits)
        with *(3) assms(5) show ?thesis unfolding world_good_def by fastforce
      qed
    next
      case (replayed p)
      then have "registry (aw_db w) ow = Some q" "ow \<notin> set (aw_late w)" using * by (auto split: if_splits)
      with *(3) assms(5) show ?thesis unfolding world_good_def by fastforce
    qed
  qed (use assms(5) g in \<open>auto simp: world_good_def\<close>)
  then show ?thesis using g(2) commit_contains [OF assms(1) ag assms(2,3)] by (auto simp: world_moves_def keeps_objects_def)
qed

end

text \<open>What holds of any shared world holds of an archive.\<close>

sublocale artifact_archive \<subseteq> shared: shared_state "world_good ops good" "world_moves ops good"
  by (rule archive_is_shared)

subsection \<open>Single calls\<close>

context artifact_archive begin

abbreviation amid_others :: "('a \<Rightarrow> 's artifact_world \<Rightarrow> bool) \<Rightarrow> ('s artifact_world, 'a) prog \<Rightarrow> 's artifact_world \<Rightarrow> bool" where
  "amid_others \<equiv> holds_amid moves"

abbreviation harmless :: "('s artifact_world, 'a) prog \<Rightarrow> bool" where
  "harmless p \<equiv> \<forall>w. good_world w \<longrightarrow> amid_others (\<lambda>_ _. True) p w"

lemma amid_reading:
  assumes "good_world w" and "\<And>t. moves w t \<Longrightarrow> good_world t \<Longrightarrow> Q (f t) t"
  shows "amid_others Q (reading f) w"
  unfolding reading_def by (rule shared.amid_actI [OF assms(1)]) (auto intro: assms(2))

lemma amid_put_call:
  assumes "good_world w" and "uuid_ok (fst u)"
    and "\<And>e t. moves w t \<Longrightarrow> Q (Inl e) t"
    and "\<And>r t. moves w t \<Longrightarrow> fresh (take (nat (pq_size q + 1)) body) r t \<Longrightarrow> ref_for q r \<Longrightarrow>
           (put_request_ok q \<Longrightarrow> object_version_ok r) \<Longrightarrow> ov_created r \<le> aw_now t \<Longrightarrow> Q (Inr r) t"
  shows "amid_others Q (put_call ops q body u) w"
  unfolding put_call_def
proof (rule shared.amid_actI [OF assms(1)])
  fix t v :: "'s artifact_world" and p
  let ?d = "\<lparr>pd_object = fst u, pd_version = fst (snd u), pd_now = aw_now t, pd_fault = snd (snd u)\<rparr>"
  assume t: "moves w t" "good_world t"
    and f: "(case so_put ops q body ?d (aw_store t) of (x, s) \<Rightarrow> (Done x, t\<lparr>aw_store := s\<rparr>)) = (p, v)"
  obtain x s' where x: "put q body ?d (aw_store t) = (x, s')" by fastforce
  with f have pv: "p = Done x" "v = t\<lparr>aw_store := s'\<rparr>" by auto
  have tv: "moves t v" using put_moves [OF x] assms(2) pv(2) by simp
  then have wv: "moves w v" by (rule world_moves_trans [OF t(1)])
  have "Q x v"
  proof (cases x)
    case (Inr r)
    note put = x [unfolded Inr]
    have "exact r (aw_store v) = Inr (take (nat (pq_size q + 1)) body)" using put_exact [OF put] pv(2) by simp
    moreover have "ov_created r \<le> aw_now v" using put_created [OF put] pv(2) by (simp add: drawn_now)
    ultimately show ?thesis using assms(4) [OF wv, of r] put_for [OF put] put_valid [OF put] Inr by (simp add: fresh_def)
  qed (use assms(3) wv in simp)
  with tv pv(1) show "moves t v \<and> (\<exists>a. p = Done a \<and> Q a v)" by blast
qed

lemma amid_verify_exact:
  assumes "good_world w"
  shows "amid_others (\<lambda>_ _. True) (verify_exact C ops r) w"
  unfolding verify_exact_def
  by (rule shared.harmless_ebind [OF assms amid_reading [OF assms]]) (auto intro!: shared.harmless_ebind amid_reading)

lemma amid_transaction:
  assumes "good_world w" and "\<And>t e. moves w t \<Longrightarrow> good_world t \<Longrightarrow> f t = Inl e \<Longrightarrow> Q (Inl e) t"
    and "\<And>t a u. moves w t \<Longrightarrow> good_world t \<Longrightarrow> f t = Inr (a, u) \<Longrightarrow> moves t u \<and> Q (Inr a) u"
  shows "amid_others Q (txn f) w"
  unfolding txn_def by (rule shared.amid_actI [OF assms(1)]) (use assms(2,3) in \<open>auto split: sum.splits\<close>)

lemma amid_commit_call:
  assumes "good_world w" and "manifest_ok m" and "object_version_ok ref"
    and "\<And>v. v \<in> set (bundle_refs m ref) \<Longrightarrow> \<exists>c. fresh c v w"
  shows "amid_others (\<lambda>_ _. True) (commit_call m ref) w"
  unfolding commit_call_def
proof (rule amid_transaction [OF assms(1)])
  fix t u :: "'s artifact_world" and b
  assume t: "moves w t" "good_world t"
    and c: "rbind (commit_visible_manifest m ref (aw_db t)) (\<lambda>(b, db). Inr (b, t\<lparr>aw_db := db,
       aw_late := if registry (aw_db t) (mf_owner m) = None \<and> published_late (aw_now t) m ref
                  then mf_owner m # aw_late t else aw_late t\<rparr>)) = Inr (b, u)"
  then obtain db where db: "commit_visible_manifest m ref (aw_db t) = Inr (b, db)" and u: "u = t\<lparr>aw_db := db,
       aw_late := if registry (aw_db t) (mf_owner m) = None \<and> published_late (aw_now t) m ref
                  then mf_owner m # aw_late t else aw_late t\<rparr>" by auto
  have "\<exists>c. fresh c v t" if "v \<in> set (bundle_refs m ref)" for v using assms(4) [OF that] fresh_moves t(1) by blast
  then show "moves t u \<and> True" using commit_moves [OF db assms(2,3) _ t(2)] u by simp
qed simp

lemma amid_mark_corrupt: "good_world w \<Longrightarrow> amid_others (\<lambda>_ _. True) (mark_corrupt_call r d) w"
  unfolding mark_corrupt_call_def
  by (rule amid_transaction) (auto simp: world_good_def intro!: database_moves dest: mark_corrupt_good mark_corrupt_contains)

lemma amid_expire_due: "good_world w \<Longrightarrow> amid_others (\<lambda>_ _. True) (expire_due_call c) w"
  unfolding expire_due_call_def
  by (rule amid_transaction) (auto simp: world_good_def intro!: database_moves dest: expire_due_good expire_due_contains)

lemma amid_delete_call:
  assumes "good_world w" and "ov_created r + orphan_grace < aw_now w"
  shows "amid_others (\<lambda>_ _. True) (delete_call ops r) w"
  unfolding delete_call_def
proof (rule amid_transaction [OF assms(1)])
  fix t u :: "'s artifact_world" and b
  assume t: "moves w t" "good_world t"
    and "rbind (delete_if_unreferenced r (so_delete ops r) (aw_db t) (aw_store t)) (\<lambda>(b, s). Inr (b, t\<lparr>aw_store := s\<rparr>)) = Inr (b, u)"
  then obtain s' where d: "delete_if_unreferenced r (delete r) (aw_db t) (aw_store t) = Inr (b, s')" and u: "u = t\<lparr>aw_store := s'\<rparr>"
    by auto
  have "ov_created r + orphan_grace < aw_now t" using assms(2) t(1) by (simp add: world_moves_def)
  from delete_moves [OF d this] t(2) u show "moves t u \<and> True" by (simp add: world_good_def)
qed simp

lemma amid_tick: "good_world w \<Longrightarrow> amid_others (\<lambda>_ _. True) (tick n) w"
  unfolding tick_def
  by (rule shared.amid_actI) (auto simp: world_moves_def keeps_objects_def world_good_def)

end

subsection \<open>Programs\<close>

context artifact_archive begin

text \<open>A member of a manifest that an upload has produced for a payload.\<close>

definition stored_as :: "artifact_codec \<Rightarrow> artifact_owner \<Rightarrow> 's artifact_world \<Rightarrow> member_payload \<Rightarrow> string \<times> object_version \<Rightarrow> bool" where
  "stored_as C ow w p x \<longleftrightarrow> fst x = mp_id p \<and> object_version_ok (snd x) \<and> ref_for (put_request_for C ow p) (snd x)
     \<and> fresh (mp_content p) (snd x) w \<and> ov_created (snd x) \<le> aw_now w"

definition prepared ::
  "artifact_codec \<Rightarrow> artifact_owner \<Rightarrow> string \<Rightarrow> member_payload list \<Rightarrow> manifest \<Rightarrow> object_version \<Rightarrow> 's artifact_world \<Rightarrow> bool" where
  "prepared C ow i ps m ref w \<longleftrightarrow> mf_id m = i \<and> mf_owner m = ow \<and> manifest_ok m
     \<and> list_all2 (stored_as C ow w) (sort_key mp_id ps) (mf_members m)
     \<and> object_version_ok ref \<and> ref_for (manifest_request C m) ref \<and> fresh (ac_manifest_dump C m) ref w"

lemma stored_as_moves: "stored_as C ow w p x \<Longrightarrow> moves w w' \<Longrightarrow> stored_as C ow w' p x"
  unfolding stored_as_def using fresh_moves by (auto simp: world_moves_def)

lemma all_stored_moves: "list_all2 (stored_as C ow w) ps xs \<Longrightarrow> moves w w' \<Longrightarrow> list_all2 (stored_as C ow w') ps xs"
  by (erule list_all2_mono) (rule stored_as_moves)

lemma prepared_moves: "prepared C ow i ps m ref w \<Longrightarrow> moves w w' \<Longrightarrow> prepared C ow i ps m ref w'"
  unfolding prepared_def using all_stored_moves fresh_moves by blast

lemma take_content: "take (nat (pq_size (put_request_for C ow p) + 1)) (mp_content p) = mp_content p"
  "take (nat (pq_size (manifest_request C m) + 1)) (ac_manifest_dump C m) = ac_manifest_dump C m"
  by (simp_all add: put_request_for_def manifest_request_def len_def nat_add_distrib)

lemma amid_upload_members:
  assumes "harmless check" and "\<forall>n. uuid_ok (fst (us n))"
  shows "good_world w \<Longrightarrow> list_all2 (stored_as C ow w) qs xs \<Longrightarrow>
    amid_others (\<lambda>r t. case r of Inl _ \<Rightarrow> True | Inr ms \<Rightarrow> list_all2 (stored_as C ow t) (qs @ ps) ms)
      (upload_members C ops check ow ps us xs) w"
proof (induction ps arbitrary: qs xs w)
  case (Cons p ps)
  let ?q = "put_request_for C ow p"
  let ?Q = "\<lambda>r t. case r of Inl _ \<Rightarrow> True | Inr ms \<Rightarrow> list_all2 (stored_as C ow t) (qs @ p # ps) ms"
  have "amid_others (\<lambda>_ _. True) check w" using assms(1) Cons.prems(1) by blast
  then show ?case unfolding upload_members.simps
  proof (rule shared.amid_ebindI [OF Cons.prems(1)])
    fix t
    assume t: "good_world t" "moves w t"
    have "amid_others ?Q (ebind (put_call ops ?q (mp_content p) (us (length xs))) (\<lambda>r.
        ebind (verify_exact C ops r) (\<lambda>_.
        if \<not> member_id_ok (mp_id p) then fail_with Artifact_validation_error
        else upload_members C ops check ow ps us (xs @ [(mp_id p, r)])))) t" if q: "put_request_ok ?q"
    proof -
      have "amid_others (\<lambda>x u. case x of Inl _ \<Rightarrow> True | Inr r \<Rightarrow> stored_as C ow u p (mp_id p, r))
          (put_call ops ?q (mp_content p) (us (length xs))) t"
        by (rule amid_put_call [OF t(1)]) (use assms(2) q in \<open>auto simp: stored_as_def take_content\<close>)
      then show ?thesis
      proof (rule shared.amid_ebindI [OF t(1)])
        fix r u
        assume "case Inr r of Inl _ \<Rightarrow> True | Inr r \<Rightarrow> stored_as C ow u p (mp_id p, r)"
        then have st: "stored_as C ow u p (mp_id p, r)" by simp
        assume u: "good_world u" "moves t u"
        show "amid_others ?Q (ebind (verify_exact C ops r) (\<lambda>_.
            if \<not> member_id_ok (mp_id p) then fail_with Artifact_validation_error
            else upload_members C ops check ow ps us (xs @ [(mp_id p, r)]))) u"
        proof (rule shared.amid_ebindI [OF u(1) amid_verify_exact [OF u(1)]])
          fix v
          assume v: "good_world v" "moves u v"
          have all: "list_all2 (stored_as C ow v) (qs @ [p]) (xs @ [(mp_id p, r)])"
            using all_stored_moves [OF Cons.prems(2) world_moves_trans [OF world_moves_trans [OF t(2) u(2)] v(2)]]
              stored_as_moves [OF st v(2)] by (simp add: list_all2_appendI)
          have "(qs @ [p]) @ ps = qs @ p # ps" by simp
          note IH = Cons.IH [OF v(1) all, unfolded this]
          show "amid_others ?Q (if \<not> member_id_ok (mp_id p) then fail_with Artifact_validation_error
              else upload_members C ops check ow ps us (xs @ [(mp_id p, r)])) v" using IH by simp
        qed simp
      qed simp
    qed
    then show "amid_others ?Q (ebind (give (new_put_request ?q)) (\<lambda>q. ebind (put_call ops q (mp_content p) (us (length xs))) (\<lambda>r.
        ebind (verify_exact C ops r) (\<lambda>_.
        if \<not> member_id_ok (mp_id p) then fail_with Artifact_validation_error
        else upload_members C ops check ow ps us (xs @ [(mp_id p, r)]))))) t"
      by (simp add: new_put_request_def ebind_def give_def)
  qed simp
qed simp

lemma amid_prepare_bundle:
  assumes "harmless check" and "\<forall>n. uuid_ok (fst (us n))" and "good_world w"
  shows "amid_others (\<lambda>r t. case r of Inl _ \<Rightarrow> True | Inr (m, ref) \<Rightarrow> prepared C ow i ps m ref t)
    (prepare_bundle C ops check ow i ps us) w"
proof -
  let ?Q = "\<lambda>r t. case r of Inl _ \<Rightarrow> True | Inr (m, ref) \<Rightarrow> prepared C ow i ps m ref t"
  let ?L = "\<lambda>m. ebind check (\<lambda>_. ebind (give (new_put_request (manifest_request C m))) (\<lambda>q.
       ebind (put_call ops q (ac_manifest_dump C m) (us (length ps))) (\<lambda>ref.
       ebind (verify_exact C ops ref) (\<lambda>_. give (Inr (m, ref))))))"
  have last: "amid_others ?Q (?L m) t"
    if t: "good_world t" and m: "mf_id m = i" "mf_owner m = ow" "manifest_ok m"
      and ms: "list_all2 (stored_as C ow t) (sort_key mp_id ps) (mf_members m)" for m t
  proof -
    have "amid_others (\<lambda>_ _. True) check t" using assms(1) t by blast
    then show ?thesis
    proof (rule shared.amid_ebindI [OF t])
      fix u
      assume u: "good_world u" "moves t u"
      have ms_u: "list_all2 (stored_as C ow u) (sort_key mp_id ps) (mf_members m)" by (rule all_stored_moves [OF ms u(2)])
      have "amid_others ?Q (ebind (put_call ops (manifest_request C m) (ac_manifest_dump C m) (us (length ps))) (\<lambda>ref.
          ebind (verify_exact C ops ref) (\<lambda>_. give (Inr (m, ref))))) u" if q: "put_request_ok (manifest_request C m)"
      proof -
        have "amid_others (\<lambda>x v. case x of Inl _ \<Rightarrow> True | Inr ref \<Rightarrow> prepared C ow i ps m ref v)
            (put_call ops (manifest_request C m) (ac_manifest_dump C m) (us (length ps))) u"
          by (rule amid_put_call [OF u(1)])
            (use assms(2) q m all_stored_moves [OF ms_u] in \<open>auto simp: prepared_def take_content\<close>)
        then show ?thesis
        proof (rule shared.amid_ebindI [OF u(1)])
          fix ref v
          assume "case Inr ref of Inl _ \<Rightarrow> True | Inr ref \<Rightarrow> prepared C ow i ps m ref v" and v: "good_world v" "moves u v"
          then have pr: "prepared C ow i ps m ref v" by simp
          show "amid_others ?Q (ebind (verify_exact C ops ref) (\<lambda>_. give (Inr (m, ref)))) v"
            by (rule shared.amid_ebindI [OF v(1) amid_verify_exact [OF v(1)]]) (auto intro: prepared_moves [OF pr])
        qed simp
      qed
      then show "amid_others ?Q (ebind (give (new_put_request (manifest_request C m))) (\<lambda>q.
          ebind (put_call ops q (ac_manifest_dump C m) (us (length ps))) (\<lambda>ref.
          ebind (verify_exact C ops ref) (\<lambda>_. give (Inr (m, ref)))))) u"
        by (simp add: new_put_request_def ebind_def give_def)
    qed simp
  qed
  have "amid_others ?Q (ebind (upload_members C ops check ow (sort_key mp_id ps) us []) (\<lambda>ms.
       ebind (give (new_manifest i ow ms now)) ?L)) t" if t: "good_world t" for now t
  proof (rule shared.amid_ebindI [OF t amid_upload_members [OF assms(1,2) t, where qs = "[]" and C = C]])
    fix ms v
    assume v: "good_world v" and "case Inr ms of Inl _ \<Rightarrow> True | Inr ms \<Rightarrow> list_all2 (stored_as C ow v) ([] @ sort_key mp_id ps) ms"
    then have "list_all2 (stored_as C ow v) (sort_key mp_id ps) ms" by simp
    with last [OF v, of "\<lparr>mf_id = i, mf_owner = ow, mf_members = ms, mf_created = now\<rparr>"]
    show "amid_others ?Q (ebind (give (new_manifest i ow ms now)) ?L) v"
      by (simp add: new_manifest_def Let_def ebind_def give_def)
  qed simp_all
  then have "amid_others ?Q (if ps = [] then fail_with e1 else if \<not> distinct (map mp_id ps) then fail_with e2
      else ebind (upload_members C ops check ow (sort_key mp_id ps) us []) (\<lambda>ms.
       ebind (give (new_manifest i ow ms now)) ?L)) t" if "good_world t" for now t e1 e2 using that by simp
  then show ?thesis unfolding prepare_bundle_def
    by (intro shared.amid_ebindI [OF assms(3) amid_reading [OF assms(3)]]) (auto intro: TrueI)
qed

text \<open>A prepared bundle can be published.\<close>

lemma prepared_fresh:
  assumes "prepared C ow i ps m ref w" and "v \<in> set (bundle_refs m ref)"
  shows "\<exists>c. fresh c v w"
proof (cases "v = ref")
  case True
  with assms(1) show ?thesis by (auto simp: prepared_def)
next
  case False
  then obtain x where "x \<in> set (mf_members m)" "v = snd x" using assms(2) by (auto simp: bundle_refs_def)
  then show ?thesis using assms(1) unfolding prepared_def list_all2_conv_all_nth stored_as_def by (metis in_set_conv_nth)
qed

lemma amid_publish_bundle:
  assumes "harmless check" and "good_world w" and "prepared C ow i ps m ref w"
  shows "amid_others (\<lambda>_ _. True) (publish_bundle check (m, ref)) w"
proof -
  have "amid_others (\<lambda>_ _. True) check w" using assms(1,2) by blast
  then show ?thesis unfolding publish_bundle_def
  proof (rule shared.harmless_ebind [OF assms(2)])
    fix t
    assume t: "good_world t" "moves w t"
    have pr: "prepared C ow i ps m ref t" by (rule prepared_moves [OF assms(3) t(2)])
    have "amid_others (\<lambda>_ _. True) (commit_call m ref) t"
      by (rule amid_commit_call [OF t(1)]) (use pr prepared_fresh [OF pr] in \<open>auto simp: prepared_def\<close>)
    then show "amid_others (\<lambda>_ _. True) (ebind (commit_call (fst (m, ref)) (snd (m, ref))) (\<lambda>x. give (Inr (fst (m, ref), x)))) t"
      by (auto intro: shared.harmless_ebind [OF t(1)])
  qed
qed

lemma harmless_finalize:
  assumes "harmless check" and "\<forall>n. uuid_ok (fst (us n))"
  shows "harmless (finalize_bundle C ops check ow i ps us)"
proof (intro allI impI)
  fix w
  assume w: "good_world w"
  have new: "amid_others (\<lambda>_ _. True) (ebind (prepare_bundle C ops check ow i ps us) (publish_bundle check)) t"
    if t: "good_world t" for t
    by (rule shared.amid_ebindI [OF t amid_prepare_bundle [OF assms t, where C = C and ow = ow and i = i and ps = ps]])
      (auto intro: amid_publish_bundle [OF assms(1)])
  have old: "amid_others (\<lambda>_ _. True) (ebind (reading (\<lambda>a. get_manifest i (aw_db a))) (\<lambda>x. case x of
         Some m \<Rightarrow>
             if ov_owner (bd_manifest b) \<noteq> ow then fail_with e1
             else ebind (verify_exact C ops (bd_manifest b)) (\<lambda>_. give (Inr (m, b)))
         | None \<Rightarrow> fail_with e2)) t" if t: "good_world t" for t b e1 e2
    by (rule shared.harmless_ebind [OF t amid_reading [OF t]])
      (auto split: option.split intro!: shared.harmless_ebind amid_verify_exact)
  show "amid_others (\<lambda>_ _. True) (finalize_bundle C ops check ow i ps us) w"
    unfolding finalize_bundle_def
    by (intro shared.harmless_ebind [OF w amid_reading [OF w]] shared.harmless_ebind amid_reading)
      (auto split: option.split intro: new old)
qed

lemma moves_now: "moves w t \<Longrightarrow> aw_now w \<le> aw_now t"
  by (simp add: world_moves_def)

lemma harmless_collect_versions:
  "good_world w \<Longrightarrow> \<forall>r \<in> set rs. ov_created r + orphan_grace < aw_now w \<Longrightarrow>
     amid_others (\<lambda>_ _. True) (collect_versions ops now dry rs g) w"
proof (induction rs arbitrary: g w)
  case (Cons r rs)
  have rest: "amid_others (\<lambda>_ _. True) (collect_versions ops now dry rs g) t" if "good_world t" "moves w t" for g t
  proof (rule Cons.IH [OF that(1)])
    show "\<forall>r \<in> set rs. ov_created r + orphan_grace < aw_now t" using Cons.prems(2) moves_now [OF that(2)] by fastforce
  qed
  have del: "amid_others (\<lambda>_ _. True) (prog_bind (delete_call ops r) (\<lambda>x. collect_versions ops now dry rs (f x))) t"
    if t: "good_world t" "moves w t" for t f
  proof (rule shared.amid_bindI [OF t(1) amid_delete_call [OF t(1)]])
    show "ov_created r + orphan_grace < aw_now t" using Cons.prems(2) moves_now [OF t(2)] by simp
    show "amid_others (\<lambda>_ _. True) (collect_versions ops now dry rs (f a)) u" if "moves t u" "good_world u" for a u
      using rest that world_moves_trans [OF t(2)] by blast
  qed
  show ?case unfolding collect_versions.simps Let_def
    by (rule shared.harmless_ebind [OF Cons.prems(1) amid_reading [OF Cons.prems(1)]])
      (rule TrueI, intro shared.amid_if rest del)
qed simp

text \<open>The collector that is given a time that has come deletes nothing that another program needs.\<close>

lemma amid_collect_orphans:
  assumes "good_world w" and "now \<le> aw_now w"
  shows "amid_others (\<lambda>_ _. True) (collect_orphans ops (Aware now) dry) w"
proof -
  let ?P = "\<lambda>x (t :: 's artifact_world). case x of Inl _ \<Rightarrow> True | Inr rs \<Rightarrow> \<forall>r \<in> set rs. ov_created r + orphan_grace < aw_now t"
  have "amid_others ?P (reading (\<lambda>w. so_versions ops ''objects/'' (Aware (now - orphan_grace)) (aw_store w))) w"
  proof (rule amid_reading [OF assms(1)])
    fix t
    assume "moves w t" "good_world t"
    then have now: "now \<le> aw_now t" using assms(2) by (simp add: world_moves_def)
    show "?P (so_versions ops ''objects/'' (Aware (now - orphan_grace)) (aw_store t)) t"
    proof (cases "versions ''objects/'' (Aware (now - orphan_grace)) (aw_store t)")
      case (Inr rs)
      have "ov_created r + orphan_grace < aw_now t" if "r \<in> set rs" for r
        using versions_before [OF Inr that] now by linarith
      with Inr show ?thesis by simp
    qed simp
  qed
  then show ?thesis unfolding collect_orphans_def clock.case
    by (rule shared.amid_ebindI [OF assms(1)]) (auto intro: harmless_collect_versions)
qed

lemma harmless_gc: "harmless (artifacts_gc ops None apply_it)"
proof (intro allI impI)
  fix w
  assume w: "good_world w"
  have "amid_others (\<lambda>x t. case x of Inl _ \<Rightarrow> True | Inr n \<Rightarrow> n \<le> aw_now t) (reading (\<lambda>w. Inr (aw_now w))) w"
    by (rule amid_reading [OF w]) simp
  then show "amid_others (\<lambda>_ _. True) (artifacts_gc ops None apply_it) w" unfolding artifacts_gc_def option.case
    by (rule shared.amid_ebindI [OF w]) (auto intro: amid_collect_orphans)
qed

lemma harmless_recovery: "harmless (verify_recovery collation C ops c apply_it)"
proof -
  have ref: "amid_others (\<lambda>_ _. True) (verify_ref C ops r) w" if "good_world w" for r w
    unfolding verify_ref_def
    by (rule shared.amid_bindI [OF that, where P = "\<lambda>_ _. True"])
      (auto intro!: shared.harmless_ebind amid_reading that)
  have one: "amid_others (\<lambda>_ _. True) (check_ref C ops now ap ok r) w" if "good_world w" for now ap ok r w
    unfolding check_ref_def
    by (rule shared.harmless_ebind [OF that ref [OF that]]) (auto intro!: shared.harmless_ebind amid_mark_corrupt)
  have members: "good_world w \<Longrightarrow> amid_others (\<lambda>_ _. True) (check_members C ops now ap rs acc) w" for now ap rs acc w
    by (induction rs arbitrary: acc w) (auto intro: shared.harmless_ebind one)
  have bundles: "good_world w \<Longrightarrow> amid_others (\<lambda>_ _. True) (check_bundles C ops now ap bs y) w" for now ap bs y w
    by (induction bs arbitrary: y w) (auto simp: Let_def intro!: shared.harmless_ebind one members)
  have exp: "amid_others (\<lambda>_ _. True) (if apply_it then expire_due_call x else give (Inr 0)) w" if "good_world w" for x w
    using that by (simp add: amid_expire_due)
  show ?thesis
  proof (intro allI impI)
    fix w
    assume w: "good_world w"
    show "amid_others (\<lambda>_ _. True) (verify_recovery collation C ops c apply_it) w"
    proof (cases c)
      case Naive
      then show ?thesis by (simp add: verify_recovery_def)
    next
      case (Aware now)
      show ?thesis unfolding verify_recovery_def Aware clock.case
        by (intro shared.harmless_ebind [OF w exp [OF w]] shared.harmless_ebind amid_reading bundles TrueI)
    qed
  qed
qed

end

subsection \<open>The archive on the file system\<close>

lemma load_all_mem: "load_all C fs = Inr rs \<Longrightarrow> r \<in> set rs \<Longrightarrow> \<exists>f \<in> set fs. ac_load C (fi_bytes f) = Some r"
  by (induction fs arbitrary: rs) (auto split: option.splits)

interpretation file_archive: artifact_archive "ac_sha C" "fs_put C dir" "fs_head C dir" "fs_open C dir"
  "fs_good C dir" draw_good pd_now "fs_delete C dir" "fs_versions_before C dir" for C dir
  by unfold_locales (auto simp: draw_good_def fs_versions_before_def split: if_splits)

text \<open>
  The commands of the system, with their results dropped: finalizers and executors with a cancellation
  check that reads the world, the collector at the present time, retention, recovery and time.
\<close>

definition forget :: "('s, 'a) prog \<Rightarrow> ('s, unit) prog" where
  "forget p = prog_bind p (\<lambda>_. Done ())"

inductive archive_command :: "artifact_codec \<Rightarrow> string list \<Rightarrow> (file_store artifact_world, unit) prog \<Rightarrow> bool" for C dir where
  finalize: "\<forall>n. uuid_ok (fst (us n)) \<Longrightarrow> archive_command C dir (forget (finalize_bundle C (fs_ops C dir) (reading f) ow i ps us))"
| execute: "\<forall>n. uuid_ok (fst (us n)) \<Longrightarrow> archive_command C dir (forget
    (ebind (prepare_bundle C (fs_ops C dir) (reading f) ow i ps us) (publish_bundle (reading g))))"
| abandon: "\<forall>n. uuid_ok (fst (us n)) \<Longrightarrow> archive_command C dir (forget (prepare_bundle C (fs_ops C dir) (reading f) ow i ps us))"
| collect: "archive_command C dir (forget (artifacts_gc (fs_ops C dir) None apply_it))"
| retention: "archive_command C dir (forget (expire_due_call c))"
| recovery: "archive_command C dir (forget (verify_recovery (collation :: artifact_owner \<Rightarrow> string) C (fs_ops C dir) c apply_it))"
| time: "archive_command C dir (forget (tick n))"

lemma fs_ops_archive: "fs_ops C dir = \<lparr>so_put = fs_put C dir, so_head = fs_head C dir, so_open = fs_open C dir,
     so_delete = fs_delete C dir, so_versions = fs_versions_before C dir\<rparr>"
  by (simp add: fs_ops_def)

abbreviation archive_good :: "artifact_codec \<Rightarrow> string list \<Rightarrow> file_store artifact_world \<Rightarrow> bool" where
  "archive_good C dir \<equiv> world_good (fs_ops C dir) (fs_good C dir)"

abbreviation archive_moves :: "artifact_codec \<Rightarrow> string list \<Rightarrow> file_store artifact_world \<Rightarrow> file_store artifact_world \<Rightarrow> bool" where
  "archive_moves C dir \<equiv> world_moves (fs_ops C dir) (fs_good C dir)"

lemma forget_amid:
  assumes "holds_amid R (\<lambda>_ _. True) p w"
  shows "holds_amid R (\<lambda>_ _. True) (forget p) w"
  unfolding forget_def by (rule holds_amid_bind, rule holds_amid_weaken [OF assms]) simp

lemma archive_command_harmless:
  assumes "archive_command C dir p" and w: "archive_good C dir w"
  shows "holds_amid (archive_moves C dir) (\<lambda>_ _. True) p w"
proof -
  have check: "\<forall>w. archive_good C dir w \<longrightarrow> holds_amid (archive_moves C dir) (\<lambda>_ _. True) (reading f) w"
    for f :: "file_store artifact_world \<Rightarrow> artifact_error + unit"
    unfolding fs_ops_archive by (intro allI impI) (erule file_archive.amid_reading, rule TrueI)
  note rules = check [unfolded fs_ops_archive] w [unfolded fs_ops_archive]
  from assms(1) show ?thesis
  proof cases
    case (finalize us f ow i ps)
    then show ?thesis using file_archive.harmless_finalize [OF rules(1) finalize(2)] rules(2)
      by (simp add: fs_ops_archive forget_amid)
  next
    case (execute us f ow i ps g)
    have "holds_amid (archive_moves C dir) (\<lambda>_ _. True)
      (ebind (prepare_bundle C (fs_ops C dir) (reading f) ow i ps us) (publish_bundle (reading g))) w"
      unfolding fs_ops_archive
      by (rule file_archive.shared.amid_ebindI [OF rules(2)
          file_archive.amid_prepare_bundle [OF rules(1) execute(2) rules(2), where C = C and ow = ow and i = i and ps = ps]])
        (auto intro: file_archive.amid_publish_bundle [OF rules(1)])
    then show ?thesis using execute(1) by (simp add: fs_ops_archive forget_amid)
  next
    case (abandon us f ow i ps)
    have "holds_amid (archive_moves C dir) (\<lambda>_ _. True) (prepare_bundle C (fs_ops C dir) (reading f) ow i ps us) w"
      unfolding fs_ops_archive
      by (rule holds_amid_weaken [OF file_archive.amid_prepare_bundle [OF rules(1) abandon(2) rules(2)]]) simp
    then show ?thesis using abandon(1) by (simp add: fs_ops_archive forget_amid)
  next
    case (collect apply_it)
    then show ?thesis using file_archive.harmless_gc rules(2) by (simp add: fs_ops_archive forget_amid)
  next
    case (retention c)
    then show ?thesis using file_archive.amid_expire_due [OF rules(2)] by (simp add: fs_ops_archive forget_amid)
  next
    case (recovery collation c apply_it)
    have "holds_amid (archive_moves C dir) (\<lambda>_ _. True) (verify_recovery collation C (fs_ops C dir) c apply_it) w"
      unfolding fs_ops_archive by (rule file_archive.harmless_recovery [rule_format, OF rules(2)])
    then show ?thesis using recovery by (simp add: forget_amid)
  next
    case (time n)
    then show ?thesis using file_archive.amid_tick [OF rules(2)] by (simp add: fs_ops_archive forget_amid)
  qed
qed

definition new_archive :: "instant \<Rightarrow> file_store artifact_world" where
  "new_archive t = \<lparr>aw_store = [], aw_db = empty_artifact_db, aw_now = t, aw_late = []\<rparr>"

lemma new_archive_good: "codec_faithful C object_version_ok \<Longrightarrow> archive_good C dir (new_archive t)"
  using empty_authority_good by (simp add: world_good_def new_archive_def fs_good_def read_file_def lookup_row_def
      registry_def bound_rows_def binding_manifest_def) (simp add: empty_artifact_db_def)

lemma archive_history:
  assumes "codec_faithful C object_version_ok"
    and "pool_steps (archive_command C dir) (new_archive t, []) (w, ps)"
    and "pool_steps (archive_command C dir) (w, ps) (w', ps')"
  shows "archive_moves C dir w w'" "archive_good C dir w" "archive_good C dir w'"
proof -
  have A: "file_archive.shared.guarantees C dir p u" if "archive_command C dir p" "archive_good C dir u" for p u
    using archive_command_harmless [OF that] by (simp add: file_archive.shared.guarantees_def fs_ops_archive)
  have "file_archive.shared.pool_safe C dir (new_archive t) ([] :: (file_store artifact_world, unit) prog list)"
    using new_archive_good [OF assms(1)] by (simp add: file_archive.shared.pool_safe_def fs_ops_archive)
  from file_archive.shared.pool_steps_safe [OF assms(2) this] A have w: "file_archive.shared.pool_safe C dir w ps"
    by (simp add: fs_ops_archive)
  from file_archive.shared.pool_steps_safe [OF assms(3) w] A
  show "archive_moves C dir w w'" "archive_good C dir w" "archive_good C dir w'"
    using w by (simp_all add: fs_ops_archive file_archive.shared.pool_safe_def)
qed

end
