(* ===== verification/Artifact_Properties.thy ===== *)
theory Artifact_Properties
  imports Artifact_Histories Run_Properties
begin

text \<open>
  The properties of the artifact authority, with an archive of one bundle as the concrete input of
  their witnesses: a run attempt's trace, finalized at time 0 over an empty file store.
\<close>

subsection \<open>A small archive\<close>

definition ar_owner :: artifact_owner where
  "ar_owner = \<lparr>ao_type = ''run_attempt'', ao_id = demo_uuid (CHR ''3'')\<rparr>"

definition ar_version :: "char \<Rightarrow> artifact_kind \<Rightarrow> string \<Rightarrow> int \<Rightarrow> string option \<Rightarrow> object_version" where
  "ar_version c k ct n f = \<lparr>ov_id = demo_uuid c, ov_bucket = ''local-artifacts'', ov_key = new_object_key (demo_uuid c),
     ov_version = ''v1'', ov_sha = replicate 64 (CHR ''a''), ov_size = n, ov_kind = k, ov_owner = ar_owner,
     ov_content_type = ct, ov_created = 0, ov_expires = None, ov_filename = f\<rparr>"

definition ar_trace :: object_version where
  "ar_trace = ar_version (CHR ''a'') Run_trace ''application/json'' 3 None"

definition ar_index :: object_version where
  "ar_index = ar_version (CHR ''b'') Artifact_manifest ''application/vnd.proofagent.artifact-manifest+json'' 2
     (Some ''artifact-manifest.json'')"

definition ar_codec :: artifact_codec where
  "ar_codec = \<lparr>ac_sha = (\<lambda>_. replicate 64 (CHR ''a'')),
     ac_dump = (\<lambda>r. if r = ar_trace then [1] else if r = ar_index then [2] else []),
     ac_load = (\<lambda>b. if b = [1] then Some ar_trace else if b = [2] then Some ar_index else None),
     ac_manifest_dump = (\<lambda>_. [7, 7])\<rparr>"

definition ar_dir :: "string list" where "ar_dir = [''srv'']"

definition ar_payload :: member_payload where
  "ar_payload = \<lparr>mp_id = ''trace'', mp_kind = Run_trace, mp_content_type = ''application/json'', mp_content = [1, 2, 3],
     mp_filename = None, mp_expires = None\<rparr>"

definition ar_draws :: draws where
  "ar_draws n = (demo_uuid (if n = 0 then CHR ''a'' else CHR ''b''), ''v1'', No_fault)"

definition ar_manifest :: manifest where
  "ar_manifest = \<lparr>mf_id = demo_uuid (CHR ''4''), mf_owner = ar_owner, mf_members = [(''trace'', ar_trace)], mf_created = 0\<rparr>"

definition ar_prepare :: "(file_store, manifest \<times> object_version) artifact_prog" where
  "ar_prepare = prepare_bundle ar_codec (fs_ops ar_codec ar_dir) (reading (\<lambda>_. Inr ())) ar_owner (demo_uuid (CHR ''4''))
     [ar_payload] ar_draws"

definition ar_finalize :: "(file_store, manifest \<times> owner_binding) artifact_prog" where
  "ar_finalize = finalize_bundle ar_codec (fs_ops ar_codec ar_dir) (reading (\<lambda>_. Inr ())) ar_owner (demo_uuid (CHR ''4''))
     [ar_payload] ar_draws"

definition ar_uploaded :: "file_store artifact_world" where
  "ar_uploaded = snd (alone ar_prepare (new_archive 0))"

definition ar_published :: "file_store artifact_world" where
  "ar_published = snd (alone ar_finalize (new_archive 0))"

lemma ar_codec_faithful: "codec_faithful ar_codec object_version_ok"
proof -
  have "object_version_ok ar_trace" "object_version_ok ar_index" by code_simp+
  then show ?thesis by (auto simp: codec_faithful_def ar_codec_def take_Cons' split: if_splits)
qed

lemma ar_valid: "manifest_ok ar_manifest" "object_version_ok ar_index" "object_version_ok ar_trace" "put_request_ok (put_request_for ar_codec ar_owner ar_payload)"
  by code_simp+

lemma ar_finalized: "alone ar_finalize (new_archive 0) = (Inr (ar_manifest, binding_of ar_owner \<lparr>pb_manifest = ar_manifest,
    pb_ref = ar_index, pb_visibility = Visible, pb_visible_at = Some 0\<rparr>), ar_published)"
proof -
  have "fst (alone ar_finalize (new_archive 0)) = Inr (ar_manifest, binding_of ar_owner \<lparr>pb_manifest = ar_manifest,
    pb_ref = ar_index, pb_visibility = Visible, pb_visible_at = Some 0\<rparr>)" by code_simp
  then show ?thesis by (metis ar_published_def prod.collapse)
qed

text \<open>The archive after its finalizer, after a day more, and after the collector that then runs.\<close>

lemma forget_alone: "alone (forget p) w = ((), snd (alone p w))"
  by (simp add: forget_def split_beta)

lemma ar_uuids: "\<forall>n. uuid_ok (fst (ar_draws n))"
proof -
  have "uuid_ok (demo_uuid (CHR ''a''))" "uuid_ok (demo_uuid (CHR ''b''))" by code_simp+
  then show ?thesis by (simp add: ar_draws_def)
qed

definition ar_collected :: "file_store artifact_world" where
  "ar_collected = snd (alone (artifacts_gc (fs_ops ar_codec ar_dir) None True) (ar_published\<lparr>aw_now := days 3\<rparr>))"

lemma ar_history:
  obtains ps ps' where "pool_steps (archive_command ar_codec ar_dir) (new_archive 0, []) (ar_published, ps)"
    "pool_steps (archive_command ar_codec ar_dir) (ar_published, ps) (ar_collected, ps')"
proof -
  have "archive_command ar_codec ar_dir (forget ar_finalize)"
    unfolding ar_finalize_def by (rule archive_command.finalize [OF ar_uuids])
  moreover have "alone (forget ar_finalize) (new_archive 0) = ((), ar_published)" by (simp add: forget_alone ar_published_def)
  ultimately have 1: "pool_steps (archive_command ar_codec ar_dir) (new_archive 0, []) (ar_published, [Done ()])"
    by (rule pool_start_run [where ps = "[]", simplified])
  have now: "aw_now ar_published = 0" by code_simp
  have t: "alone (forget (tick (nat (days 3)))) ar_published = ((), ar_published\<lparr>aw_now := days 3\<rparr>)"
    by (simp add: forget_def tick_def now days_def)
  have 2: "pool_steps (archive_command ar_codec ar_dir) (ar_published, [Done ()]) (ar_published\<lparr>aw_now := days 3\<rparr>, [Done (), Done ()])"
    using pool_start_run [where A = "archive_command ar_codec ar_dir", OF archive_command.time t, of "[Done ()]"] by simp
  have "alone (forget (artifacts_gc (fs_ops ar_codec ar_dir) None True)) (ar_published\<lparr>aw_now := days 3\<rparr>) = ((), ar_collected)"
    by (simp add: forget_alone ar_collected_def)
  from pool_start_run [where A = "archive_command ar_codec ar_dir", OF archive_command.collect this, of "[Done (), Done ()]"]
  have "pool_steps (archive_command ar_codec ar_dir) (ar_published\<lparr>aw_now := days 3\<rparr>, [Done (), Done ()])
      (ar_collected, [Done (), Done (), Done ()])" by simp
  with 1 2 that show thesis by (meson rtranclp_trans)
qed

text \<open>What the owner has published, what it can read, and which owners were late.\<close>

definition ar_view :: "instant \<Rightarrow> file_store artifact_world \<Rightarrow>
    publication option \<times> (artifact_error + owner_binding option) \<times> (artifact_error + bytes) \<times> artifact_owner list" where
  "ar_view t w = (registry (aw_db w) ar_owner, get_visible_binding ar_owner (Aware t) (aw_db w),
     fs_open ar_codec ar_dir ar_trace (aw_store w), aw_late w)"

lemma ar_registered: "registry (aw_db ar_collected) ar_owner = Some \<lparr>pb_manifest = ar_manifest, pb_ref = ar_index,
    pb_visibility = Visible, pb_visible_at = Some 0\<rparr>" "aw_late ar_collected = []"
proof -
  have "ar_view 0 ar_collected = (Some \<lparr>pb_manifest = ar_manifest, pb_ref = ar_index, pb_visibility = Visible, pb_visible_at = Some 0\<rparr>,
    Inr (Some (binding_of ar_owner \<lparr>pb_manifest = ar_manifest, pb_ref = ar_index, pb_visibility = Visible, pb_visible_at = Some 0\<rparr>)),
    Inr [1, 2, 3], [])" by code_simp
  then show "registry (aw_db ar_collected) ar_owner = Some \<lparr>pb_manifest = ar_manifest, pb_ref = ar_index,
    pb_visibility = Visible, pb_visible_at = Some 0\<rparr>" "aw_late ar_collected = []" by (simp_all add: ar_view_def)
qed

subsection \<open>Histories\<close>

text \<open>
  C21. Take any history, over a fresh file store and fresh tables, of finalizers, executors, abandoned
  uploads, collectors run at the present time (without \<open>--at\<close>), retention, recovery and the passing of
  time, whatever way their calls of the store and of the database interleave. The tables keep their
  constraints and their invariant; and a publication that an owner has at one moment of the history
  it has at every later one, with the same manifest, the same reference and the same time of
  publication, and it is shown then only if it was shown before. The decoder of metadata is assumed
  to invert its encoder.
\<close>

theorem publications_are_final:
  assumes "codec_faithful C object_version_ok"
    and "pool_steps (archive_command C dir) (new_archive t, []) (w, ps)"
    and "pool_steps (archive_command C dir) (w, ps) (w', ps')"
  shows "authority_good (aw_db w') \<and> registry_advances (aw_db w) (aw_db w')"
  using archive_history [OF assms] by (simp add: world_good_def world_moves_def)

lemma publications_are_final_witness:
  "authority_good (aw_db ar_collected) \<and> registry_advances (aw_db ar_published) (aw_db ar_collected)
     \<and> registry (aw_db ar_collected) ar_owner \<noteq> None"
proof -
  obtain ps ps' where "pool_steps (archive_command ar_codec ar_dir) (new_archive 0, []) (ar_published, ps)"
    "pool_steps (archive_command ar_codec ar_dir) (ar_published, ps) (ar_collected, ps')" by (rule ar_history)
  from publications_are_final [OF ar_codec_faithful this] ar_registered show ?thesis by simp
qed

text \<open>
  C22. In every such history over the file store no collector takes an object away from a bundle that was
  published in time, that is when none of its objects was more than a day old (the ghost field
  \<open>aw_late\<close> holds the owners published later than that): every member and the manifest object of the
  bundle can be read back with the length and the digest of its reference, however long after the
  publication, also after the bundle was hidden. Collectors are given no \<open>--at\<close>.
\<close>

theorem published_objects_survive:
  assumes "codec_faithful C object_version_ok"
    and "pool_steps (archive_command C dir) (new_archive t, []) (w, ps)"
    and "registry (aw_db w) ow = Some p" and "ow \<notin> set (aw_late w)" and "v \<in> set (publication_refs p)"
  shows "\<exists>c. fs_open C dir v (aw_store w) = Inr c \<and> len c = ov_size v \<and> ac_sha C c = ov_sha v"
proof -
  have "archive_good C dir w" by (rule archive_history(2) [OF assms(1,2) rtranclp.rtrancl_refl])
  then obtain c where c: "fs_open C dir v (aw_store w) = Inr c"
    using assms(3-5) unfolding world_good_def by (fastforce simp: fs_ops_def)
  then show ?thesis using files.exact_size files.exact_sha by blast
qed

lemma published_objects_survive_witness:
  "\<exists>c. fs_open ar_codec ar_dir ar_trace (aw_store ar_collected) = Inr c \<and> len c = 3 \<and> ac_sha ar_codec c = replicate 64 (CHR ''a'')"
proof -
  obtain ps ps' where "pool_steps (archive_command ar_codec ar_dir) (new_archive 0, []) (ar_published, ps)"
    "pool_steps (archive_command ar_codec ar_dir) (ar_published, ps) (ar_collected, ps')" by (rule ar_history)
  then have "pool_steps (archive_command ar_codec ar_dir) (new_archive 0, []) (ar_collected, ps')" by (rule rtranclp_trans)
  from published_objects_survive [OF ar_codec_faithful this ar_registered(1), of ar_trace] ar_registered(2)
  show ?thesis by (simp add: publication_refs_def ar_manifest_def) (simp add: ar_trace_def ar_version_def)
qed

subsection \<open>Finalization\<close>

text \<open>
  A bundle that \<open>prepare\<close> returns is the bundle it was asked for, whatever the others do meanwhile:
  the manifest is valid and lists exactly the payloads in the order of their member ids, each under a
  reference with the payload's kind, content type, size, digest and expiry; and until an object is a
  day old, the store returns for it exactly the payload's bytes, and for the manifest reference
  exactly the bytes of the manifest.
\<close>

theorem prepared_bundle_is_exact:
  assumes "archive_good C dir w" and "\<forall>n. uuid_ok (fst (us n))"
    and "amid (archive_moves C dir) (prepare_bundle C (fs_ops C dir) (reading f) ow i ps us) w (Inr (m, ref)) w'"
  shows "mf_id m = i \<and> mf_owner m = ow \<and> manifest_ok m \<and> map mp_id (sort_key mp_id ps) = map fst (mf_members m)
    \<and> list_all2 (\<lambda>p x. ref_for (put_request_for C ow p) (snd x)
         \<and> (aw_now w' \<le> ov_created (snd x) + orphan_grace \<longrightarrow> fs_open C dir (snd x) (aw_store w') = Inr (mp_content p)))
       (sort_key mp_id ps) (mf_members m)
    \<and> ref_for (manifest_request C m) ref
    \<and> (aw_now w' \<le> ov_created ref + orphan_grace \<longrightarrow> fs_open C dir ref (aw_store w') = Inr (ac_manifest_dump C m))"
proof -
  have check: "\<forall>w. archive_good C dir w \<longrightarrow> holds_amid (archive_moves C dir) (\<lambda>_ _. True) (reading f) w"
    unfolding fs_ops_archive by (intro allI impI) (erule file_archive.amid_reading, rule TrueI)
  have "file_archive.prepared C dir C ow i ps m ref w'"
    using holds_amid_sound [OF assms(3)] file_archive.amid_prepare_bundle [OF check [unfolded fs_ops_archive] assms(2) assms(1) [unfolded fs_ops_archive]]
    by (fastforce simp: fs_ops_archive)
  moreover from this have "list_all2 (\<lambda>p x. mp_id p = fst x) (sort_key mp_id ps) (mf_members m)"
    by (auto simp: file_archive.prepared_def file_archive.stored_as_def elim!: list_all2_mono)
  then have "map mp_id (sort_key mp_id ps) = map fst (mf_members m)"
    by (simp add: list_eq_iff_nth_eq list_all2_conv_all_nth)
  ultimately show ?thesis
    by (auto simp: file_archive.prepared_def file_archive.stored_as_def file_archive.fresh_def elim!: list_all2_mono)
qed

subsection \<open>The registry\<close>

lemma ar_commits:
  obtains b db where "commit_visible_manifest ar_manifest ar_index empty_artifact_db = Inr (b, db)"
    "b = binding_of ar_owner \<lparr>pb_manifest = ar_manifest, pb_ref = ar_index, pb_visibility = Visible, pb_visible_at = Some 0\<rparr>"
proof -
  have "map_sum id fst (commit_visible_manifest ar_manifest ar_index empty_artifact_db)
    = Inr (binding_of ar_owner \<lparr>pb_manifest = ar_manifest, pb_ref = ar_index, pb_visibility = Visible, pb_visible_at = Some 0\<rparr>)"
    by code_simp
  then show thesis using that by (cases "commit_visible_manifest ar_manifest ar_index empty_artifact_db") auto
qed

lemma ar_committed:
  assumes "commit_visible_manifest ar_manifest ar_index empty_artifact_db = Inr (b, db)"
  shows "registry db ar_owner = Some \<lparr>pb_manifest = ar_manifest, pb_ref = ar_index, pb_visibility = Visible, pb_visible_at = Some 0\<rparr>"
proof -
  have "map_sum id (\<lambda>x. registry (snd x) ar_owner) (commit_visible_manifest ar_manifest ar_index empty_artifact_db)
    = Inr (Some \<lparr>pb_manifest = ar_manifest, pb_ref = ar_index, pb_visibility = Visible, pb_visible_at = Some 0\<rparr>)" by code_simp
  then show ?thesis by (simp add: assms)
qed


definition registry_publish ::
  "manifest \<Rightarrow> object_version \<Rightarrow> (artifact_owner \<Rightarrow> publication option) \<Rightarrow> artifact_owner \<Rightarrow> publication option" where
  "registry_publish m ref R = (case R (mf_owner m) of
     None \<Rightarrow> R(mf_owner m \<mapsto> \<lparr>pb_manifest = m, pb_ref = ref, pb_visibility = Visible, pb_visible_at = Some (mf_created m)\<rparr>)
   | Some _ \<Rightarrow> R)"

definition registry_read :: "instant \<Rightarrow> artifact_owner \<Rightarrow> (artifact_owner \<Rightarrow> publication option) \<Rightarrow> owner_binding option" where
  "registry_read t w R = (case R w of None \<Rightarrow> None | Some p \<Rightarrow> if readable t p then Some (binding_of w p) else None)"

lemma commit_registers:
  assumes "commit_visible_manifest m ref db = Inr (b, db')" and "authority_good db" and "manifest_ok m" and "object_version_ok ref"
  shows "authority_good db' \<and> registry db' = registry_publish m ref (registry db)
    \<and> Some b = map_option (binding_of (mf_owner m)) (registry db' (mf_owner m))"
  using assms by (cases rule: commit_visible_manifest_cases) (auto simp: registry_publish_def assms(2))

text \<open>
  C23. The four tables with their joins implement a map from owners to publications that is written once
  per owner: a commit that succeeds on tables that keep their invariant keeps it, adds the bundle to
  the map when the owner has none and otherwise leaves the map as it is; it answers with the binding
  of the owner's publication; and a read of the new tables at any time returns for every owner
  exactly the publication of the map that is visible and of which neither a member nor the manifest
  object has expired by then.
\<close>

theorem tables_refine_registry:
  assumes "authority_good db" and "manifest_ok m" and "object_version_ok ref"
    and "commit_visible_manifest m ref db = Inr (b, db')"
  shows "authority_good db' \<and> registry db' = registry_publish m ref (registry db)
    \<and> Some b = map_option (binding_of (mf_owner m)) (registry db' (mf_owner m))
    \<and> (\<forall>w t. get_visible_binding w (Aware t) db' = Inr (registry_read t w (registry db')))"
  using commit_registers [OF assms(4,1,2,3)] by (auto simp: get_visible_binding_registry registry_read_def)

lemma tables_refine_registry_witness:
  "\<exists>b db'. commit_visible_manifest ar_manifest ar_index empty_artifact_db = Inr (b, db')
     \<and> get_visible_binding ar_owner (Aware 5) db' = Inr (Some b) \<and> bd_available b"
proof -
  obtain b db' where c: "commit_visible_manifest ar_manifest ar_index empty_artifact_db = Inr (b, db')"
    and b: "b = binding_of ar_owner \<lparr>pb_manifest = ar_manifest, pb_ref = ar_index, pb_visibility = Visible, pb_visible_at = Some 0\<rparr>"
    by (rule ar_commits)
  have o: "mf_owner ar_manifest = ar_owner" by (simp add: ar_manifest_def)
  note r = tables_refine_registry [OF empty_authority_good ar_valid(1,2) c, unfolded o]
  note reg = ar_committed [OF c]
  have "readable 5 \<lparr>pb_manifest = ar_manifest, pb_ref = ar_index, pb_visibility = Visible, pb_visible_at = Some 0\<rparr>"
    by code_simp
  with r reg c b show ?thesis by (auto simp: registry_read_def binding_of_def)
qed

subsection \<open>What the authority does not check\<close>

text \<open>
  A commit does not look at the object store: a bundle that is published a day after its upload may
  already have been collected. This is why the histories above ask for publication in time.
\<close>

definition ar_late :: "file_store artifact_world" where
  "ar_late = snd (alone (ebind (artifacts_gc (fs_ops ar_codec ar_dir) None True) (\<lambda>_. commit_call ar_manifest ar_index))
     (ar_uploaded\<lparr>aw_now := days 3\<rparr>))"

lemma late_publication_dangles:
  "ar_view (days 3) ar_late = (Some \<lparr>pb_manifest = ar_manifest, pb_ref = ar_index, pb_visibility = Visible, pb_visible_at = Some 0\<rparr>,
     Inr (Some (binding_of ar_owner \<lparr>pb_manifest = ar_manifest, pb_ref = ar_index, pb_visibility = Visible, pb_visible_at = Some 0\<rparr>)),
     Inl unavailable, [ar_owner])"
  by code_simp

text \<open>
  The option \<open>--at\<close> of the collector is not compared with the clock: given a time in the future the
  collector deletes objects that were uploaded a moment ago, and their publication then dangles.
\<close>

definition ar_future :: "file_store artifact_world" where
  "ar_future = snd (alone (ebind (artifacts_gc (fs_ops ar_codec ar_dir) (Some (days 3)) True) (\<lambda>_. commit_call ar_manifest ar_index))
     ar_uploaded)"

lemma future_collection_breaks_publication:
  "ar_view 0 ar_future = (Some \<lparr>pb_manifest = ar_manifest, pb_ref = ar_index, pb_visibility = Visible, pb_visible_at = Some 0\<rparr>,
     Inr (Some (binding_of ar_owner \<lparr>pb_manifest = ar_manifest, pb_ref = ar_index, pb_visibility = Visible, pb_visible_at = Some 0\<rparr>)),
     Inl unavailable, [])"
  by code_simp

text \<open>
  A finalization that finds its owner published takes the manifest of the id it was given without
  comparing it with the binding: it may return another owner's manifest with this owner's binding.
\<close>

definition ar_other :: manifest where
  "ar_other = \<lparr>mf_id = demo_uuid (CHR ''5''), mf_owner = \<lparr>ao_type = ''run_attempt'', ao_id = ''other''\<rparr>,
     mf_members = [(''trace'', ar_trace\<lparr>ov_id := demo_uuid (CHR ''c''), ov_key := new_object_key (demo_uuid (CHR ''c'')),
        ov_owner := \<lparr>ao_type = ''run_attempt'', ao_id = ''other''\<rparr>\<rparr>)], mf_created = 0\<rparr>"

definition ar_two :: "file_store artifact_world" where
  "ar_two = snd (alone (commit_call ar_other (ar_index\<lparr>ov_id := demo_uuid (CHR ''d''), ov_key := new_object_key (demo_uuid (CHR ''d'')),
        ov_owner := \<lparr>ao_type = ''run_attempt'', ao_id = ''other''\<rparr>\<rparr>)) ar_published)"

lemma finalize_mixes_owners:
  "fst (alone (finalize_bundle ar_codec (fs_ops ar_codec ar_dir) (reading (\<lambda>_. Inr ())) ar_owner (demo_uuid (CHR ''5''))
     [ar_payload] ar_draws) ar_two) = Inr (ar_other, binding_of ar_owner \<lparr>pb_manifest = ar_manifest,
       pb_ref = ar_index, pb_visibility = Visible, pb_visible_at = Some 0\<rparr>)"
  by code_simp

text \<open>
  A crash while the metadata of an object is written leaves a part of the file behind, and the listing
  fails from then on: nothing is collected any more.
\<close>

lemma partial_metadata_stops_collection:
  "fst (alone (ebind (put_call (fs_ops ar_codec ar_dir) (put_request_for ar_codec ar_owner ar_payload) [1, 2, 3]
        (demo_uuid (CHR ''a''), ''v1'', Metadata_fault 0)) (\<lambda>_. give (Inr ()))) (new_archive 0)) = Inl Artifact_io_error"
  "fst (alone (artifacts_gc (fs_ops ar_codec ar_dir) (Some (days 9)) True)
     (snd (alone (put_call (fs_ops ar_codec ar_dir) (put_request_for ar_codec ar_owner ar_payload) [1, 2, 3]
        (demo_uuid (CHR ''a''), ''v1'', Metadata_fault 0)) (new_archive 0))))
   = Inl (Artifact_store_error ''artifact metadata is corrupt'')"
  by code_simp+

subsection \<open>The run queue over the artifact authority\<close>

text \<open>
  \<open>commit_success\<close> calls \<open>commit_visible_manifest\<close> in its own transaction; the conversation authority
  keeps the other part of the store.
\<close>

definition as_run_error :: "artifact_error \<Rightarrow> run_error" where
  "as_run_error e = (case e of
     Artifact_value_error s \<Rightarrow> Run_value_error s
   | Artifact_persistence_invariant s \<Rightarrow> Task_raised (Persistence_invariant s)
   | Artifact_conflict r i \<Rightarrow> Task_raised (Persistence_conflict r i 0 (Some 1))
   | Artifact_validation_error \<Rightarrow> Run_validation_error
   | _ \<Rightarrow> Run_integrity_error)"

definition artifact_authorities ::
  "(string \<Rightarrow> turn \<Rightarrow> int \<Rightarrow> 'c \<Rightarrow> run_error + 'c) \<Rightarrow> (artifact_db \<times> 'c) authorities" where
  "artifact_authorities app = \<lparr>
     au_bind = (\<lambda>m ref (db, c). case commit_visible_manifest m ref db of
        Inl e \<Rightarrow> Inl (as_run_error e) | Inr (b, db') \<Rightarrow> Inr (bd_available b, (db', c))),
     au_append = (\<lambda>i t n (db, c). map_sum id (Pair db) (app i t n c))\<rparr>"

lemma map_sum_Inr_iff: "map_sum f g r = Inr y \<longleftrightarrow> (\<exists>x. r = Inr x \<and> y = g x)"
  by (cases r) auto

lemma commit_success_calls:
  assumes "rq_commit_success C A cl m ref c receipt turn count upd st = Inr (q', st')"
  obtains x st1 st2 st3 q now a v v' where "au_bind A m ref (rs_ext st) = Inr (True, x)"
    "write_attempt a v (st\<lparr>rs_ext := x\<rparr>) = Inr st1" "write_run q' Finalizing v' st1 = Inr st2"
    "append_turn_step A (cl_request cl) turn count st2 = Inr st3" "task_update_step C (cl_request cl) upd now st3 = Inr st'"
    "q' = advanced_run Succeeded \<lparr>res_available = True, res_manifest = Some (mf_id m), res_receipt = receipt\<rparr> None (Some now) now q"
  using assms by (auto simp: rq_commit_success_def Let_def)

lemma commit_success_owner:
  assumes "rq_commit_success C A cl m ref c receipt turn count upd st = Inr (q', st')"
  shows "ao_type (mf_owner m) = ''run_attempt'' \<and> ao_id (mf_owner m) = at_id (cl_attempt cl)"
  using assms by (auto simp: rq_commit_success_def success_arguments_ok_def Let_def split: if_splits)

lemma commit_success_binds:
  assumes "rq_commit_success C (artifact_authorities app) cl m ref c receipt turn count upd st = Inr (q', st')"
  obtains b where "commit_visible_manifest m ref (fst (rs_ext st)) = Inr (b, fst (rs_ext st'))" "bd_available b"
    "res_manifest (qr_result q') = Some (mf_id m)" "qr_state q' = Succeeded"
proof -
  obtain db cv where st: "rs_ext st = (db, cv)" by (cases "rs_ext st")
  from assms obtain x st1 st2 st3 q now a v v' where bind: "au_bind (artifact_authorities app) m ref (rs_ext st) = Inr (True, x)"
    and wa: "write_attempt a v (st\<lparr>rs_ext := x\<rparr>) = Inr st1" and wr: "write_run q' Finalizing v' st1 = Inr st2"
    and tn: "append_turn_step (artifact_authorities app) (cl_request cl) turn count st2 = Inr st3"
    and up: "task_update_step C (cl_request cl) upd now st3 = Inr st'"
    and q': "q' = advanced_run Succeeded \<lparr>res_available = True, res_manifest = Some (mf_id m), res_receipt = receipt\<rparr> None (Some now) now q"
    by (rule commit_success_calls)
  have x1: "rs_ext st1 = x" using wa by (auto simp: write_attempt_def split: if_splits)
  have x2: "rs_ext st2 = x" using wr x1 by (auto simp: write_run_def split: if_splits)
  have x3: "fst (rs_ext st3) = fst x" using tn x2
    by (auto simp: append_turn_step_def artifact_authorities_def map_sum_Inr_iff split: option.splits if_splits prod.splits)
  have x4: "rs_ext st' = rs_ext st3" using up by (auto simp: task_update_step_def split: option.splits if_splits)
  from bind obtain b where "commit_visible_manifest m ref (fst (rs_ext st)) = Inr (b, fst x)" "bd_available b"
    by (auto simp: artifact_authorities_def st split: sum.splits prod.splits)
  then show thesis using that x3 x4 q' by (simp add: advanced_run_def)
qed

text \<open>
  C20. A run that succeeds has published its bundle in the same transaction, under the attempt that
  succeeded: the attempt's publication is visible and holds a manifest with the id (compared as a UUID)
  that the run's result reports; if the attempt had a publication before, it is that one unchanged,
  otherwise it holds exactly the committed manifest and reference; the publications of every other
  owner are untouched.
\<close>

theorem success_publishes_bundle:
  assumes "authority_good (fst (rs_ext st))" and "manifest_ok m" and "object_version_ok ref"
    and "rq_commit_success C (artifact_authorities app) cl m ref c receipt turn count upd st = Inr (q', st')"
  shows "qr_state q' = Succeeded \<and> res_manifest (qr_result q') = Some (mf_id m)
    \<and> ao_type (mf_owner m) = ''run_attempt'' \<and> ao_id (mf_owner m) = at_id (cl_attempt cl)
    \<and> (\<exists>p. registry (fst (rs_ext st')) (mf_owner m) = Some p \<and> pb_visibility p = Visible
         \<and> uuid_key (mf_id (pb_manifest p)) = uuid_key (mf_id m)
         \<and> registry (fst (rs_ext st)) (mf_owner m) \<in> {None, Some p}
         \<and> (registry (fst (rs_ext st)) (mf_owner m) = None \<longrightarrow> pb_manifest p = m \<and> pb_ref p = ref))
    \<and> (\<forall>w. w \<noteq> mf_owner m \<longrightarrow> registry (fst (rs_ext st')) w = registry (fst (rs_ext st)) w)"
proof -
  obtain b where b: "commit_visible_manifest m ref (fst (rs_ext st)) = Inr (b, fst (rs_ext st'))" "bd_available b"
    and q: "res_manifest (qr_result q') = Some (mf_id m)" "qr_state q' = Succeeded" by (rule commit_success_binds [OF assms(4)])
  note own = commit_success_owner [OF assms(4)]
  from b(1) assms(1-3) show ?thesis
    by (cases rule: commit_visible_manifest_cases) (use b(2) q own in \<open>auto simp: binding_of_def\<close>)
qed

definition ar_store :: "(artifact_db \<times> unit) run_store" where
  "ar_store = \<lparr>rs_runs = rs_runs demo_s6, rs_attempts = rs_attempts demo_s6, rs_slots = rs_slots demo_s6,
     rs_fairness = rs_fairness demo_s6, rs_fence = rs_fence demo_s6, rs_roles = rs_roles demo_s6,
     rs_versions = rs_versions demo_s6, rs_tasks = rs_tasks demo_s6, rs_ext = (empty_artifact_db, ())\<rparr>"

lemma success_publishes_bundle_witness:
  "\<exists>st' :: (artifact_db \<times> unit) run_store. qr_state demo_success = Succeeded
     \<and> registry (fst (rs_ext st')) ar_owner = Some \<lparr>pb_manifest = ar_manifest, pb_ref = ar_index, pb_visibility = Visible,
         pb_visible_at = Some 0\<rparr>"
proof -
  let ?A = "artifact_authorities (\<lambda>_ _ _ c :: unit. Inr c)"
  obtain b db where c: "commit_visible_manifest ar_manifest ar_index empty_artifact_db = Inr (b, db)"
    and b: "b = binding_of ar_owner \<lparr>pb_manifest = ar_manifest, pb_ref = ar_index, pb_visibility = Visible, pb_visible_at = Some 0\<rparr>"
    by (rule ar_commits)
  have "success_arguments_ok demo_claim ar_manifest ar_index None None None = Inr ()"
    by (simp add: success_arguments_ok_def demo_claim_def ar_index_def ar_version_def ar_manifest_def ar_owner_def ensure_def Let_def)
  moreover have "au_bind ?A ar_manifest ar_index (rs_ext ar_store) = Inr (True, (db, ()))"
    by (simp add: artifact_authorities_def ar_store_def c) (simp add: b binding_of_def)
  ultimately obtain st' where s: "rq_commit_success demo_run_codec ?A demo_claim ar_manifest ar_index (Aware (seconds 4))
     (Some Answered_with_citations) None None None ar_store = Inr (demo_success, st')"
    using demo_commits [of ar_store ar_manifest ar_index ?A] by (auto simp: ar_store_def ar_manifest_def)
  have "authority_good (fst (rs_ext ar_store))" by (simp add: ar_store_def empty_authority_good)
  from success_publishes_bundle [OF this ar_valid(1,2) s] obtain p where
    "qr_state demo_success = Succeeded" "registry (fst (rs_ext st')) (mf_owner ar_manifest) = Some p" by blast
  moreover have "authority_good empty_artifact_db" by (rule empty_authority_good)
  moreover obtain b' where "commit_visible_manifest ar_manifest ar_index (fst (rs_ext ar_store)) = Inr (b', fst (rs_ext st'))"
    by (rule commit_success_binds [OF s])
  then have "fst (rs_ext st') = db" using c by (simp add: ar_store_def)
  moreover have "registry db ar_owner = Some \<lparr>pb_manifest = ar_manifest, pb_ref = ar_index, pb_visibility = Visible,
         pb_visible_at = Some 0\<rparr>" by (rule ar_committed [OF c])
  ultimately show ?thesis by blast
qed

subsection \<open>Recovery\<close>

definition exact_intact :: "artifact_codec \<Rightarrow> 's store_ops \<Rightarrow> 's \<Rightarrow> object_version \<Rightarrow> bool" where
  "exact_intact C S s r \<longleftrightarrow> so_head S r s = Inr r
     \<and> (case so_open S r s of Inl _ \<Rightarrow> False | Inr c \<Rightarrow> len c = ov_size r \<and> ac_sha C c = ov_sha r)"

definition publication_intact :: "artifact_codec \<Rightarrow> 's store_ops \<Rightarrow> 's \<Rightarrow> publication \<Rightarrow> bool" where
  "publication_intact C S s p \<longleftrightarrow> (\<forall>v \<in> set (publication_refs p). exact_intact C S s v)
     \<and> len (ac_manifest_dump C (pb_manifest p)) = ov_size (pb_ref p) \<and> ac_sha C (ac_manifest_dump C (pb_manifest p)) = ov_sha (pb_ref p)"

lemma alone_reading [simp]: "alone (reading f) w = (f w, w)"
  by (simp add: reading_def)

lemma alone_verify_ref: "alone (verify_ref C S r) w = (Inr (exact_intact C S (aw_store w) r), w)"
  by (auto simp: verify_ref_def exact_intact_def drain_stream_total len_def split: sum.splits if_splits prod.splits)

lemma alone_check_ref: "alone (check_ref C S t False ok r) w = (Inr (exact_intact C S (aw_store w) r \<and> ok), w)"
  by (simp add: check_ref_def alone_verify_ref)

lemma alone_check_members:
  "alone (check_members C S t False rs acc) w = (Inr (acc @ map (exact_intact C S (aw_store w)) rs), w)"
  by (induction rs arbitrary: acc) (simp_all add: alone_check_ref)

lemma filter_len_all: "len (filter f xs) \<le> len xs" "len (filter f xs) = len xs \<longleftrightarrow> list_all f xs"
  by (simp_all add: len_def list_all_iff) (metis filter_True length_filter_less nat_less_le)

lemma alone_check_bundles:
  assumes "ry_verified y \<le> ry_references y"
  shows "\<exists>y'. alone (check_bundles C S t False (map (\<lambda>(w, p). (binding_of w p, pb_manifest p)) bs) y) a = (Inr y', a)
    \<and> (recovery_valid y' \<longleftrightarrow> recovery_valid y \<and> (\<forall>(w, p) \<in> set bs. publication_intact C S (aw_store a) p))"
  using assms
proof (induction bs arbitrary: y)
  case (Cons b bs)
  obtain w p where b: "b = (w, p)" by (cases b)
  let ?i = "exact_intact C S (aw_store a)"
  let ?v = "?i (pb_ref p) \<and> len (ac_manifest_dump C (pb_manifest p)) = ov_size (pb_ref p)
    \<and> ac_sha C (ac_manifest_dump C (pb_manifest p)) = ov_sha (pb_ref p)"
  let ?vs = "?v # map ?i (map snd (mf_members (pb_manifest p)))"
  let ?y = "y\<lparr>ry_references := ry_references y + 1 + len (map ?i (map snd (mf_members (pb_manifest p)))),
     ry_verified := ry_verified y + len (filter (\<lambda>x. x) ?vs),
     ry_corrupt := (if list_all (\<lambda>x. x) ?vs then ry_corrupt y else ry_corrupt y @ [owner_text w])\<rparr>"
  have le: "len (filter (\<lambda>x. x) ?vs) \<le> len ?vs" and eq: "len (filter (\<lambda>x. x) ?vs) = len ?vs \<longleftrightarrow> list_all (\<lambda>x. x) ?vs"
    by (rule filter_len_all)+
  have valid: "recovery_valid ?y \<longleftrightarrow> recovery_valid y \<and> list_all (\<lambda>x. x) ?vs"
    using Cons.prems le eq by (auto simp: recovery_valid_def)
  have "list_all (\<lambda>x. x) ?vs \<longleftrightarrow> publication_intact C S (aw_store a) p"
    by (auto simp: publication_intact_def publication_refs_def list_all_iff)
  moreover have "alone (check_bundles C S t False (map (\<lambda>(w, p). (binding_of w p, pb_manifest p)) (b # bs)) y) a
      = alone (check_bundles C S t False (map (\<lambda>(w, p). (binding_of w p, pb_manifest p)) bs) ?y) a"
    by (simp add: b Let_def alone_check_ref alone_check_members binding_of_def conj_assoc)
  moreover have "ry_verified ?y \<le> ry_references ?y" using Cons.prems le by simp
  ultimately show ?case using Cons.IH [of ?y] valid b by auto
qed simp

text \<open>The listing is the registry, owner by owner.\<close>

lemma bound_of_row_registry:
  assumes "authority_good db" and "b \<in> set (ad_bindings db)"
  obtains p where "registry db (bi_owner b) = Some p" "bound_of_row db b = Inr [(binding_of (bi_owner b) p, pb_manifest p)]"
proof -
  from binding_rows [OF assms] obtain m r where rows: "bound_rows (bi_owner b) db = Some (b, m, r)" "mn_owner m = bi_owner b" by metis
  let ?p = "\<lparr>pb_manifest = mn_json m, pb_ref = ob_ref r, pb_visibility = bi_visibility b, pb_visible_at = bi_visible_at b\<rparr>"
  have reg: "registry db (bi_owner b) = Some ?p" using rows(1) by (simp add: registry_def)
  have "manifest_row_good db m" by (rule authority_goodD(8) [OF assms(1) bound_rows_SomeD(3) [OF rows(1)]])
  then have "bound_of_row db b = Inr [(binding_of (bi_owner b) ?p, pb_manifest ?p)]"
    using rows new_binding_of_row [OF assms(1) rows(1)] reg
    by (simp add: bound_of_row_def manifest_row_good_def new_bound_manifest_def binding_of_def)
  with reg that show thesis by blast
qed

lemma list_bound_registry:
  assumes "authority_good db"
  shows "\<exists>ps. list_bound_manifests collation db = Inr (map (\<lambda>(w, p). (binding_of w p, pb_manifest p)) ps)
    \<and> set ps = {(w, p). registry db w = Some p}"
proof -
  have step: "\<forall>b \<in> set bs. b \<in> set (ad_bindings db) \<Longrightarrow>
      each_in (\<lambda>b acc. rbind (bound_of_row db b) (\<lambda>ys. Inr (acc @ ys))) bs acc
        = Inr (acc @ map (\<lambda>(w, p). (binding_of w p, pb_manifest p)) (map (\<lambda>b. (bi_owner b, the (registry db (bi_owner b)))) bs))"
    for bs acc
  proof (induction bs arbitrary: acc)
    case (Cons b bs)
    from Cons.prems have "b \<in> set (ad_bindings db)" by simp
    from bound_of_row_registry [OF assms this] obtain p where "registry db (bi_owner b) = Some p"
      "bound_of_row db b = Inr [(binding_of (bi_owner b) p, pb_manifest p)]" .
    with Cons show ?case by simp
  qed simp
  let ?ps = "map (\<lambda>b. (bi_owner b, the (registry db (bi_owner b)))) (sort_key (\<lambda>b. collation (bi_owner b)) (ad_bindings db))"
  have "set ?ps = {(w, p). registry db w = Some p}"
  proof (intro equalityI subsetI)
    fix x
    assume "x \<in> set ?ps"
    then obtain b where "b \<in> set (ad_bindings db)" "x = (bi_owner b, the (registry db (bi_owner b)))" by auto
    then show "x \<in> {(w, p). registry db w = Some p}" using bound_of_row_registry [OF assms] by force
  next
    fix x
    assume "x \<in> {(w, p). registry db w = Some p}"
    then obtain w p where x: "x = (w, p)" "registry db w = Some p" by auto
    then obtain b where "b \<in> set (ad_bindings db)" "bi_owner b = w" using assms by (elim registry_SomeE) blast
    with x show "x \<in> set ?ps" by force
  qed
  moreover have "list_bound_manifests collation db = Inr (map (\<lambda>(w, p). (binding_of w p, pb_manifest p)) ?ps)"
    unfolding list_bound_manifests_def by (subst step) simp_all
  ultimately show ?thesis by blast
qed

text \<open>
  A recovery check that changes nothing is valid exactly when every published bundle is intact: all
  its members and its manifest object are in the store under their exact references with the recorded
  length and digest, and the manifest that the database holds has the length and the digest of the
  manifest object.
\<close>

theorem recovery_check_is_exact:
  assumes "authority_good (aw_db w)"
  shows "\<exists>y. alone (verify_recovery (collation :: artifact_owner \<Rightarrow> 'k :: linorder) C S (Aware t) False) w = (Inr y, w)
    \<and> (recovery_valid y \<longleftrightarrow> (\<forall>ow p. registry (aw_db w) ow = Some p \<longrightarrow> publication_intact C S (aw_store w) p))"
proof -
  obtain ps where ps: "list_bound_manifests collation (aw_db w) = Inr (map (\<lambda>(w, p). (binding_of w p, pb_manifest p)) ps)"
    "set ps = {(ow, p). registry (aw_db w) ow = Some p}" using list_bound_registry [OF assms] by blast
  let ?y = "\<lparr>ry_checked = t, ry_owners = len (map (\<lambda>(w, p). (binding_of w p, pb_manifest p)) ps), ry_references = 0, ry_verified = 0,
     ry_corrupt = [], ry_expired = 0\<rparr>"
  from alone_check_bundles [of ?y C S t ps w] obtain y where
    "alone (check_bundles C S t False (map (\<lambda>(w, p). (binding_of w p, pb_manifest p)) ps) ?y) w = (Inr y, w)"
    "recovery_valid y \<longleftrightarrow> recovery_valid ?y \<and> (\<forall>(ow, p) \<in> set ps. publication_intact C S (aw_store w) p)" by auto
  moreover have "recovery_valid ?y" by (simp add: recovery_valid_def)
  ultimately show ?thesis using ps by (auto simp: verify_recovery_def)
qed

end
