(* ===== verification/Spec2Isabelle.thy ===== *)
theory Spec2Isabelle
  imports Task_Properties Run_Properties Deployment_Properties Gateway_Properties Budget_Properties
    React_Properties Session_Properties Egress_Properties Artifact_Properties
begin

text \<open>
  Proof Agent runs governed question-answering workflows: a workflow task holds a goal, its
  acceptance criteria and the questions put to the user; each continuation of a task is a run,
  queued, claimed by a worker and committed with its results; a run is a controlled ReAct loop that
  plans, retrieves, calls tools and answers within the policies and the budget of its workflow; its
  results are published as one bundle of immutable artifacts; operators work through sessions and
  what the service calls outside goes through a guarded client; a release of the service itself is
  rolled out by a blue/green deployment. This development models that core and proves what makes it correct. Paths are below
  \<open>src/proof_agent/\<close> unless they start with \<open>scripts/\<close>.

  Conventions. \<open>Spec_Prelude\<close>: errors are values of a sum type (\<open>Inl\<close> the error), bound by \<open>rbind\<close>; a
  time is a count of microseconds, and a timestamp without a zone is the value \<open>Naive\<close>; tables are
  lists of rows. Identifiers, which the code restricts to ASCII patterns, are HOL strings; texts
  in natural language are lists of code points. Floats are exact rationals, and float values that
  are not finite are a case of their own where the code checks for them.

  Workflow tasks.
  \<^item> \<open>Workflow_Task\<close>: the contracts of \<open>contracts/workflow_task.py\<close> and \<open>workflow_task_update.py\<close>.
  \<^item> \<open>Task_Questions\<close>: the pure reducers of \<open>control/workflow/task_service.py\<close> and the swap check of
    \<open>contracts/ports/workflow_tasks.py\<close>, which the compare-and-swap of every store runs.
  \<^item> \<open>Task_Repository\<close>, \<open>Task_Store\<close>: the port as a locale, and its two implementations,
    \<open>observability/storage/workflow_task_store.py\<close> (SQLite) and
    \<open>capabilities/persistence/postgres/workflow_task_repository.py\<close>, one definition for each transaction;
    both interpret the locale.
  \<^item> \<open>Task_Service\<close>: every command of \<open>WorkflowTaskService\<close> over any repository, with the goal
    compilation of \<open>control/knowledge/answer_requirements.py\<close>.
  \<^item> \<open>Task_Histories\<close>, \<open>Task_Answers\<close>, \<open>Task_Properties\<close>: histories of any commands of any callers over one
    store, for SQLite with the purge of expired tasks among them: what they keep, what never
    decreases, what second writers see; the effect of an answer amid writes of others between its attempts.

  Runs.
  \<^item> \<open>Run_Execution\<close>: the contracts of \<open>contracts/run_execution.py\<close> with the table of allowed
    transitions.
  \<^item> \<open>Worker_Roles\<close>: leases and epochs of worker roles
    (\<open>capabilities/persistence/postgres/worker_role_repository.py\<close>).
  \<^item> \<open>Run_Queue\<close>, \<open>Run_Commands\<close>: every command of
    \<open>capabilities/persistence/postgres/run_queue_repository.py\<close>: admission, fair claiming, heartbeats,
    finalisation, cancellation, commit and reaping. Each is one step; where a query skips rows that
    another transaction has locked (\<open>skip_locked\<close>), reaping takes the locked rows as an argument \<open>busy\<close>.
  \<^item> \<open>Run_Core\<close>, \<open>Run_Refinement\<close>: an abstract queue with six kinds of change, its invariant, and the
    lemma that each command of the code is a sequence of such changes.
  \<^item> \<open>Run_Histories\<close>, \<open>Run_Demo\<close>, \<open>Run_Properties\<close>: histories of commands, a concrete history for the
    witnesses, and the properties.

  Artifacts. A finished run leaves its results as immutable objects in an object store and as one manifest
  that the database binds to the owner of the run.
  \<^item> \<open>Artifact_Contracts\<close>: \<open>contracts/artifacts.py\<close>: references to exact versions, manifests, bindings.
  \<^item> \<open>Artifact_Authority\<close>: the four tables of the migration \<open>0006_artifact_authority.py\<close> with their constraints
    and every transaction of \<open>capabilities/persistence/postgres/artifact_repository.py\<close>.
  \<^item> \<open>Artifact_Registry\<close>: the abstract registry, a map from owners to publications that is written once and
    may later be hidden, the invariant of the tables, and the lemma for each transaction that it
    implements an operation of the registry.
  \<^item> \<open>Artifact_Store\<close>: \<open>capabilities/artifacts/filesystem.py\<close> over directories of files; the locales
    \<open>exact_store\<close> and \<open>durable_store\<close> state the port of \<open>contracts/ports/artifacts.py\<close>, the file store
    interprets them.
  \<^item> \<open>Artifact_Finalizer\<close>: \<open>control/artifacts/finalization.py\<close> (prepare, publish, finalize), the collector of
    \<open>observability/artifact_gc.py\<close> with its command of \<open>delivery/cli.py\<close>, \<open>observability/retention.py\<close> and
    \<open>observability/recovery.py\<close>: resumptions whose steps are one call of the store or one transaction each.
  \<^item> \<open>Artifact_Histories\<close>, \<open>Artifact_Properties\<close>: what each command guarantees while others move (locale
    \<open>artifact_archive\<close>), histories of any commands, and the properties. An object that gets its
    publication only after its grace period of a day is recorded in the ghost field \<open>aw_late\<close>, for the
    collector may have taken it; the run queue is joined to the authority by \<open>artifact_authorities\<close>.

  Policies and budgets.
  \<^item> \<open>Workflow_Policy\<close>: the policies of \<open>contracts/workflow_policy.py\<close>, the stages of
    \<open>control/workflow/templates.py\<close>, the compiler \<open>control/workflow/execution_compiler.py\<close>.
  \<^item> \<open>Budget_Ledger\<close>: the ledger and the budgeted provider of \<open>control/workflow/execution_budget.py\<close>, the
    reasoning efforts of \<open>capabilities/models/reasoning.py\<close>.
  \<^item> \<open>Budget_Runs\<close>, \<open>Budget_Properties\<close>: the ledgers of the successive runs of a task, opened from the
    recorded usage and settled as the orchestrator and the task service do.

  Policy engine and controlled ReAct loop.
  \<^item> \<open>Python_Values\<close>: JSON values with Python's equality, truth and \<open>int()\<close>, of which policy conditions,
    contexts and action parameters consist.
  \<^item> \<open>Policy_Engine\<close>: \<open>control/policy/engine.py\<close> and \<open>review.py\<close>: the rules of each enforcement point, first
    match, and how a review combines with it.
  \<^item> \<open>React_Contracts\<close>: \<open>contracts/controlled_react.py\<close> and \<open>react_workflow.py\<close>.
  \<^item> \<open>React_Actions\<close>: eligible actions, required retrievals and their completion, interaction decisions and
    the review of an action (\<open>action_control.py\<close>, \<open>task_completion.py\<close> and \<open>review.py\<close> below
    \<open>control/workflow/controlled_react/\<close>, \<open>control/workflow/interaction.py\<close>).
  \<^item> \<open>React_Observations\<close>: \<open>artifact_binding.py\<close>, \<open>state_machine.py\<close> and \<open>observation_commit.py\<close>: truths bound to
    content references, and the commit of an observation.
  \<^item> \<open>React_Planning\<close>, \<open>React_Loop\<close>, \<open>React_Execution\<close>: \<open>orchestrator.py\<close>: an effect passes the world behind the
    ports, the truth store and a log of the calls of ports; planning, one turn of the loop, the
    loop, \<open>start\<close> and \<open>resume\<close>. The loop is a total function: a measure of the plan rounds left
    decreases with every turn.
  \<^item> \<open>React_Discipline\<close>, \<open>React_Runs\<close>, \<open>React_Evidence\<close>, \<open>React_Properties\<close>: rules that derive from an effect what it adds to the
    log, the discipline of the calls from one turn to whole runs, the observations of a run as
    truths that the store still holds, the evidence an answer rests on, and the properties.

  Operator security.
  \<^item> \<open>Interleaving\<close>: commands of several database calls as resumptions, what it means to run one amid others,
    pools of commands, and the rely-guarantee rule, stated as a locale over a relation of allowed
    moves.
  \<^item> \<open>Security_Configuration\<close>, \<open>Security_Store\<close>: permissions, mappings and principals (\<open>contracts/security.py\<close>,
    \<open>contracts/identity.py\<close>, \<open>control/security/permissions.py\<close>), and the transactions of
    \<open>security_repository.py\<close>, \<open>session_repository.py\<close> and \<open>audit_repository.py\<close> below
    \<open>capabilities/persistence/postgres/\<close> with the constraints of their migrations.
  \<^item> \<open>Oidc_Client\<close>: \<open>capabilities/identity/oidc_client.py\<close>, the requests to the provider and the checks of an ID
    token.
  \<^item> \<open>Operator_Sessions\<close>, \<open>Operator_Requests\<close>: \<open>control/security/sessions.py\<close>, \<open>envelope_cipher.py\<close>, \<open>csrf.py\<close>, the session
    middleware \<open>observability/api/security_middleware.py\<close> and the handlers of \<open>delivery/auth_api.py\<close> and
    \<open>delivery/security_configuration_api.py\<close>.
  \<^item> \<open>Session_Histories\<close>, \<open>Session_Guarantees\<close>, \<open>Session_Properties\<close>: the relation \<open>advances\<close> that every transaction
    keeps (the interpretation of the locale), what each command guarantees and answers when others
    advance the database between its steps, and the properties.
  \<^item> \<open>Egress_Policy\<close>, \<open>Guarded_Client\<close>, \<open>Egress_Properties\<close>: \<open>contracts/egress.py\<close>, \<open>control/security/egress.py\<close> and
    \<open>capabilities/egress/guarded_http.py\<close>: which connections the policy admits, the client with its retries
    and redirects, and what it puts on the network.

  Deployment.
  \<^item> \<open>Deployment_State\<close>, \<open>Deployment_Gateway\<close>, \<open>Deployment_Choreography\<close>: \<open>deployment/state.py\<close>, \<open>gateway.py\<close> and
    \<open>choreography.py\<close>: the records, the atomic switch of the nginx include, the choreography with its
    abort and rollback.
  \<^item> \<open>Deployment_Traces\<close>, \<open>Deployment_Routes\<close>, \<open>Deployment_Properties\<close>: an automaton of the legal step
    traces and the proof that every deployment follows it; which include serves at the end.
  \<^item> \<open>Text_Search\<close>, \<open>Compose_Driver\<close>, \<open>Gateway_Properties\<close>: the checks and polling loops of
    \<open>scripts/deployment/compose_driver.py\<close>, and the round trip of the include.

  Parameters. What is not code of the repository is an argument: JSON text and SHA-256 (as a
  record of functions whose digest format is a hypothesis), fresh identifiers, clock readings, the
  conversation authority a commit calls (and, except in the properties of artifacts, the artifact authority), the JSON text of
  manifests and metadata, whose decoder is assumed to invert its encoder, faults of the file system, the operations of a deployment
  on containers, nginx and the file system, the model provider, and for the ReAct loop its ports
  (planner, answer synthesis, retrieval, tools, memory, policy, review, snapshots, budget) and the
  heuristics over natural-language text. For operator security: HMAC, AES-GCM, the JOSE library, the
  splitting of URLs and the IDNA codec, the answers of the OIDC provider, of the resolver and of
  servers, and the values drawn at random. A port is an arbitrary function of its arguments and of a
  world it may change, and may fail with an error. Each transaction of PostgreSQL or
  SQLite is one step; a sequence gap left by a rolled-back transaction is not represented. The
  retry loop of an answer has the code's eight attempts as its fuel and a hop of the outbound client
  its attempts per hop, the number the loop counts; every other loop recurses over
  data or over the polls that the code's deadline admits.

  Not modelled. Of the ReAct loop, runs that carry a workflow task, a task state of the conversation,
  a tool task plan or a task checkpoint, and the messages, stage results and trace events it
  reports. Listing pages of runs (reads with a keyset cursor); a read failure of the gateway
  include and exceptions outside \<open>Exception\<close>; the zone of the retention rule is fixed at UTC+8, its offset since
  1991. Of the operator interface, the endpoints that only read and secret handles. Of artifacts, the S3 adapter, whose
  guarantees are those of a service, and the materialization cache. Left aside as
  components: other request handling and command line, the front ends, bootstrap and
  manifests, migrations, agent configuration and publication, trace storage and receipts,
  evaluation and release, prompts and adapters of language models, heuristics over answer texts.
\<close>

end
